(* ===== verification/GoBase.thy ===== *)
theory GoBase
  imports Main "HOL-Library.Multiset" "HOL-Library.AList" "HOL-Library.Sublist"
begin

text \<open>
  Prelude of the development: the parts of the Go language and of its standard library that
  the modelled files use, and the lemmas on them that the component theories share.

  \<^item> Pointers: \<open>'a ptr\<close> is a nil pointer or an address together with the value stored there;
    \<open>ptr_eq\<close> is Go's \<open>==\<close> on pointers (same address), which several \<open>Equals\<close> methods of the
    gateway use as a short cut.
  \<^item> Maps: \<open>('k, 'v) gomap\<close> is the list of the entries of a Go map in the order in which a
    \<open>range\<close> loop meets them (Go leaves that order open, so statements are made for every order);
    the keys are distinct (\<open>wf_map\<close>), \<open>len\<close> is the length of the list, reading an absent key of
    a map of strings gives the zero value (\<open>map_str\<close>).
  \<^item> Strings: a Go string is a sequence of bytes; \<open>strings.Replace\<close>, \<open>Split\<close>, \<open>Join\<close>,
    \<open>HasPrefix\<close>, \<open>Contains\<close>, \<open>TrimSpace\<close>, \<open>strconv.Itoa\<close>, \<open>Atoi\<close> and \<open>ParseBool\<close>.
  \<^item> Fixed-width integers: \<open>int32\<close> and \<open>int64\<close> conversions with their wrap-around.
  \<^item> Slices: the comparison loop \<open>covers\<close> that the gateway's \<open>Equals\<close> methods share.
\<close>

named_theorems go_map \<open>facts on Go maps\<close>
named_theorems go_string \<open>facts on Go strings\<close>

section \<open>Pointers\<close>

datatype 'a ptr = NilPtr | Ptr nat 'a

fun ptr_eq :: "'a ptr \<Rightarrow> 'a ptr \<Rightarrow> bool" where
  "ptr_eq NilPtr NilPtr = True"
| "ptr_eq (Ptr a _) (Ptr b _) = (a = b)"
| "ptr_eq _ _ = False"

fun is_nil :: "'a ptr \<Rightarrow> bool" where
  "is_nil NilPtr = True"
| "is_nil (Ptr _ _) = False"

fun ptr_addrs :: "'a ptr \<Rightarrow> nat set" where
  "ptr_addrs NilPtr = {}"
| "ptr_addrs (Ptr a _) = {a}"

fun ptr_addr :: "'a ptr \<Rightarrow> nat option" where
  "ptr_addr NilPtr = None"
| "ptr_addr (Ptr a _) = Some a"

fun ptr_val :: "'a ptr \<Rightarrow> 'a option" where
  "ptr_val NilPtr = None"
| "ptr_val (Ptr _ v) = Some v"

text \<open>A pointer into the heap \<open>H\<close>: the value it carries is the one stored at its address.\<close>

fun in_heap :: "(nat \<Rightarrow> 'a) \<Rightarrow> 'a ptr \<Rightarrow> bool" where
  "in_heap H NilPtr = True"
| "in_heap H (Ptr a x) = (H a = x)"

lemma in_heap_same: "in_heap H (Ptr a x) \<Longrightarrow> in_heap H (Ptr a y) \<Longrightarrow> x = y"
  by simp

lemma ptr_eq_refl [simp]: "ptr_eq p p"
  by (cases p) auto

lemma ptr_eq_sym: "ptr_eq p q \<longleftrightarrow> ptr_eq q p"
  by (cases p; cases q) auto

lemma ptr_eq_trans: "ptr_eq p q \<Longrightarrow> ptr_eq q r \<Longrightarrow> ptr_eq p r"
  by (cases p; cases q; cases r) auto

lemma ptr_addr_Some: "ptr_addr p = Some a \<longleftrightarrow> (\<exists>v. p = Ptr a v)"
  by (cases p) auto

lemma is_nil_iff: "is_nil p \<longleftrightarrow> p = NilPtr"
  by (cases p) auto

section \<open>Maps\<close>

type_synonym ('k, 'v) gomap = "('k \<times> 'v) list"

definition wf_map :: "('k, 'v) gomap \<Rightarrow> bool" where
  "wf_map m \<longleftrightarrow> distinct (map fst m)"

definition map_str :: "('k, string) gomap \<Rightarrow> 'k \<Rightarrow> string" where
  "map_str m k = (case map_of m k of Some v \<Rightarrow> v | None \<Rightarrow> [])"

text \<open>\<open>m[k] = v\<close>, and \<open>m[k] = append(m[k], v)\<close> on a map of slices.\<close>

abbreviation map_set :: "'k \<Rightarrow> 'v \<Rightarrow> ('k, 'v) gomap \<Rightarrow> ('k, 'v) gomap" where
  "map_set \<equiv> AList.update"

definition map_slice :: "('k, 'v list) gomap \<Rightarrow> 'k \<Rightarrow> 'v list" where
  "map_slice m k = (case map_of m k of Some vs \<Rightarrow> vs | None \<Rightarrow> [])"

definition map_append :: "'k \<Rightarrow> 'v \<Rightarrow> ('k, 'v list) gomap \<Rightarrow> ('k, 'v list) gomap" where
  "map_append k v m = map_set k (map_slice m k @ [v]) m"

lemma wf_map_Nil [simp, go_map]: "wf_map []"
  by (simp add: wf_map_def)

lemma wf_map_set [simp, go_map]: "wf_map m \<Longrightarrow> wf_map (map_set k v m)"
  by (simp add: wf_map_def distinct_update)

lemma map_of_set [simp, go_map]: "map_of (map_set k v m) = (map_of m)(k \<mapsto> v)"
  by (rule update_conv')

lemma map_slice_append [simp, go_map]:
  "map_slice (map_append k v m) k' = (if k' = k then map_slice m k @ [v] else map_slice m k')"
  by (simp add: map_slice_def map_append_def)

lemma wf_map_append [simp, go_map]: "wf_map m \<Longrightarrow> wf_map (map_append k v m)"
  by (simp add: map_append_def)

lemma keys_map_set: "set (map fst (map_set k v m)) = insert k (set (map fst m))"
  by (simp add: dom_update)

lemma wf_map_Cons: "wf_map ((k, v) # m) \<longleftrightarrow> map_of m k = None \<and> wf_map m"
  by (auto simp: wf_map_def map_of_eq_None_iff)

lemma in_wf_map: "wf_map m \<Longrightarrow> (k, v) \<in> set m \<longleftrightarrow> map_of m k = Some v"
  unfolding wf_map_def by (metis map_of_eq_Some_iff)

text \<open>Two maps of the same length agree when every entry of the first is an entry of the second.\<close>

lemma map_eq_by_entries:
  assumes "wf_map m" "wf_map n" "length m = length n"
    and "\<And>k v. (k, v) \<in> set m \<Longrightarrow> map_of n k = Some v"
  shows "map_of m = map_of n"
proof -
  have "set m \<subseteq> set n"
    using assms(4) by (auto dest: map_of_SomeD)
  moreover have "card (set m) = card (set n)"
    using assms(1-3) by (metis distinct_card distinct_map wf_map_def)
  ultimately have "set m = set n"
    by (metis List.finite_set card_subset_eq)
  then show ?thesis
    using assms(1,2) by (metis map_of_eqI wf_map_def map_of_inject_set)
qed

text \<open>The order in which a \<open>range\<close> loop meets the entries of a map: any permutation of them.\<close>

definition is_range :: "(('k, 'v) gomap \<Rightarrow> ('k, 'v) gomap) \<Rightarrow> bool" where
  "is_range rng \<longleftrightarrow> (\<forall>m. mset (rng m) = mset m)"

lemma is_range_wf [go_map]: "is_range rng \<Longrightarrow> wf_map m \<Longrightarrow> wf_map (rng m)"
  unfolding is_range_def wf_map_def by (metis distinct_count_atmost_1 mset_map set_mset_mset)

lemma is_range_set [go_map]: "is_range rng \<Longrightarrow> set (rng m) = set m"
  unfolding is_range_def by (metis set_mset_mset)

lemma is_range_map_of: "is_range rng \<Longrightarrow> wf_map m \<Longrightarrow> map_of (rng m) = map_of m"
  by (metis is_range_set is_range_wf map_of_inject_set wf_map_def)

section \<open>Strings\<close>

type_synonym bytes = string

function Replace :: "string \<Rightarrow> string \<Rightarrow> string \<Rightarrow> int \<Rightarrow> string" where
  \<comment> \<open>\<open>strings.Replace(s, old, new, n)\<close> for a non-empty \<open>old\<close>; a negative \<open>n\<close> means no limit.\<close>
  "Replace [] old new n = []"
| "Replace (c # cs) old new n =
     (if n = 0 then c # cs
      else if old \<noteq> [] \<and> prefix old (c # cs)
      then new @ Replace (drop (length old) (c # cs)) old new (n - 1)
      else c # Replace cs old new n)"
  by pat_completeness auto
termination
  by (relation "measure (\<lambda>(s, _, _, _). length s)") auto

fun Split :: "char \<Rightarrow> string \<Rightarrow> string list" where
  \<comment> \<open>\<open>strings.Split(s, sep)\<close> for a separator of one byte.\<close>
  "Split c [] = [[]]"
| "Split c (x # xs) =
     (if x = c then [] # Split c xs
      else (case Split c xs of y # ys \<Rightarrow> (x # y) # ys | [] \<Rightarrow> [[x]]))"

fun Join :: "string list \<Rightarrow> string \<Rightarrow> string" where
  "Join [] sep = []"
| "Join [x] sep = x"
| "Join (x # y # ys) sep = x @ sep @ Join (y # ys) sep"

abbreviation HasPrefix :: "string \<Rightarrow> string \<Rightarrow> bool" where
  "HasPrefix s p \<equiv> prefix p s"

abbreviation Contains :: "string \<Rightarrow> string \<Rightarrow> bool" where
  "Contains s t \<equiv> sublist t s"

definition is_space :: "char \<Rightarrow> bool" where
  "is_space c \<longleftrightarrow> c \<in> {CHR 0x09, CHR 0x0A, CHR 0x0B, CHR 0x0C, CHR 0x0D, CHR '' ''}"

definition TrimSpace :: "string \<Rightarrow> string" where
  \<comment> \<open>The ASCII white space; Go also trims the white space of other scripts.\<close>
  "TrimSpace s = rev (dropWhile is_space (rev (dropWhile is_space s)))"

definition ToLower :: "string \<Rightarrow> string" where
  \<comment> \<open>The ASCII letters.\<close>
  "ToLower s = map (\<lambda>c. if 65 \<le> (of_char c :: nat) \<and> (of_char c :: nat) \<le> 90 then char_of ((of_char c :: nat) + 32) else c) s"

lemma Split_not_Nil [simp]: "Split c s \<noteq> []"
  by (induction s) (auto split: list.splits)

lemma Split_no_sep [go_string]: "c \<notin> set s \<Longrightarrow> Split c s = [s]"
  by (induction s) auto

lemma Split_append [go_string]: "c \<notin> set s \<Longrightarrow> Split c (s @ c # t) = s # Split c t"
  by (induction s) auto

lemma set_Split: "t \<in> set (Split c s) \<Longrightarrow> set t \<subseteq> set s - {c}"
proof (induction s arbitrary: t)
  case Nil
  then show ?case by simp
next
  case (Cons x xs)
  obtain y ys where y: "Split c xs = y # ys" by (cases "Split c xs") auto
  with Cons show ?case by (fastforce split: if_splits)
qed

lemma Join_Split [go_string]: "Join (Split c s) [c] = s"
proof (induction s)
  case Nil
  then show ?case by simp
next
  case (Cons x xs)
  obtain y ys where y: "Split c xs = y # ys" by (cases "Split c xs") auto
  with Cons show ?case by (cases ys) auto
qed

lemma Split_Join [go_string]:
  "xs \<noteq> [] \<Longrightarrow> (\<And>x. x \<in> set xs \<Longrightarrow> c \<notin> set x) \<Longrightarrow> Split c (Join xs [c]) = xs"
proof (induction xs "[c]" rule: Join.induct)
  case (3 x y ys)
  then show ?case by (simp add: Split_append)
qed (auto simp: Split_no_sep)

lemma Replace_zero [simp]: "Replace s old new 0 = s"
  by (cases s) auto

lemma Replace_absent [go_string]: "\<not> sublist old s \<Longrightarrow> Replace s old new n = s"
  by (induction s) (auto simp: sublist_Cons_right)

lemma Replace_first_prefix [go_string]:
  "old \<noteq> [] \<Longrightarrow> Replace (old @ s) old new 1 = new @ s"
  by (cases old) auto

lemma sublist_single_iff [simp]: "sublist [c] s \<longleftrightarrow> c \<in> set s"
  by (auto simp: sublist_def in_set_conv_decomp)

lemma Replace_char [go_string]:
  "n < 0 \<Longrightarrow> Replace s [c] new n = concat (map (\<lambda>x. if x = c then new else [x]) s)"
  by (induction s arbitrary: n) auto

section \<open>Numbers and strings\<close>

fun digits :: "nat \<Rightarrow> string" where
  "digits n = (if n < 10 then [char_of (48 + n)] else digits (n div 10) @ [char_of (48 + n mod 10)])"

declare digits.simps [simp del]

definition Itoa :: "int \<Rightarrow> string" where
  "Itoa i = (if i < 0 then CHR ''-'' # digits (nat (- i)) else digits (nat i))"

definition is_digit :: "char \<Rightarrow> bool" where
  "is_digit c \<longleftrightarrow> 48 \<le> (of_char c :: nat) \<and> (of_char c :: nat) \<le> 57"

definition digits_val :: "string \<Rightarrow> nat" where
  "digits_val s = foldl (\<lambda>n c. 10 * n + ((of_char c :: nat) - 48)) 0 s"

definition Atoi :: "string \<Rightarrow> int option" where
  \<comment> \<open>\<open>strconv.Atoi\<close>: an optional sign and decimal digits, in the range of a 64-bit \<open>int\<close>.\<close>
  "Atoi s =
     (let (neg, ds) = (case s of [] \<Rightarrow> (False, [])
                       | c # cs \<Rightarrow> if c = CHR ''-'' then (True, cs)
                                   else if c = CHR ''+'' then (False, cs) else (False, s));
          v = (if neg then - int (digits_val ds) else int (digits_val ds))
      in if ds \<noteq> [] \<and> list_all is_digit ds \<and> - (2 ^ 63) \<le> v \<and> v < 2 ^ 63 then Some v else None)"

lemma digit_char: "n < 10 \<Longrightarrow> is_digit (char_of (48 + n :: nat))" "n < 10 \<Longrightarrow> of_char (char_of (48 + n :: nat)) = 48 + n"
  by (auto simp: is_digit_def take_bit_nat_def)

lemma digits_digits [go_string]: "list_all is_digit (digits n)"
  by (induction n rule: digits.induct) (subst digits.simps, auto simp: digit_char)

lemma digits_nonempty [simp]: "digits n \<noteq> []"
  by (subst digits.simps) auto

lemma digits_val_digits [simp]: "digits_val (digits n) = n"
proof (induction n rule: digits.induct)
  case (1 n)
  then show ?case
    by (subst digits.simps) (auto simp: digits_val_def digit_char)
qed

lemma set_Itoa [go_string]: "c \<in> set (Itoa i) \<Longrightarrow> is_digit c \<or> c = CHR ''-''"
  using digits_digits by (auto simp: Itoa_def list_all_iff split: if_splits)

lemma Atoi_Itoa [go_string]:
  assumes "- (2 ^ 63) \<le> i" "i < 2 ^ 63"
  shows "Atoi (Itoa i) = Some i"
proof (cases "i < 0")
  case True
  then show ?thesis using assms digits_digits by (simp add: Atoi_def Itoa_def)
next
  case False
  then obtain c cs where d: "digits (nat i) = c # cs" by (cases "digits (nat i)") auto
  then have "is_digit c" using digits_digits [of "nat i"] by simp
  then have "c \<noteq> CHR ''-''" "c \<noteq> CHR ''+''" by (auto simp: is_digit_def)
  moreover have "digits_val (c # cs) = nat i" "list_all is_digit (c # cs)"
    using digits_val_digits [of "nat i"] digits_digits [of "nat i"] by (simp_all only: d)
  ultimately show ?thesis using False assms by (simp add: Atoi_def Itoa_def d)
qed

definition ParseBool :: "string \<Rightarrow> bool option" where
  "ParseBool s =
     (if s \<in> {''1'', ''t'', ''T'', ''TRUE'', ''true'', ''True''} then Some True
      else if s \<in> {''0'', ''f'', ''F'', ''FALSE'', ''false'', ''False''} then Some False
      else None)"

section \<open>Fixed-width integers\<close>

definition to_int32 :: "int \<Rightarrow> int" where
  "to_int32 i = (i + 2 ^ 31) mod 2 ^ 32 - 2 ^ 31"

definition to_int64 :: "int \<Rightarrow> int" where
  "to_int64 i = (i + 2 ^ 63) mod 2 ^ 64 - 2 ^ 63"

text \<open>Go's integer division truncates towards zero.\<close>

definition quot_int :: "int \<Rightarrow> int \<Rightarrow> int" where
  "quot_int a b = sgn a * sgn b * (\<bar>a\<bar> div \<bar>b\<bar>)"

lemma to_int32_id [simp]: "- (2 ^ 31) \<le> i \<Longrightarrow> i < 2 ^ 31 \<Longrightarrow> to_int32 i = i"
  by (simp add: to_int32_def)

lemma to_int64_id [simp]: "- (2 ^ 63) \<le> i \<Longrightarrow> i < 2 ^ 63 \<Longrightarrow> to_int64 i = i"
  by (simp add: to_int64_def)

lemma to_int64_add: "to_int64 (to_int64 a + b) = to_int64 (a + b)"
proof -
  have "to_int64 a + b + 2 ^ 63 = (a + 2 ^ 63) mod 2 ^ 64 + b"
    by (simp add: to_int64_def)
  then show ?thesis
    unfolding to_int64_def by (simp add: mod_simps add_ac)
qed

section \<open>Slices\<close>

text \<open>
  The loop that \<open>Pool.Equals\<close>, \<open>VirtualService.Equals\<close>, \<open>Config.Equals\<close> and \<open>poolsEqual\<close>
  share: the slices have the same length and every element of the first is equal, by the given
  test, to some element of the second.
\<close>

definition covers :: "('a \<Rightarrow> 'a \<Rightarrow> bool) \<Rightarrow> 'a list \<Rightarrow> 'a list \<Rightarrow> bool" where
  "covers eq xs ys \<longleftrightarrow> length xs = length ys \<and> list_all (\<lambda>x. list_ex (eq x) ys) xs"

lemma covers_iff:
  "covers eq xs ys \<longleftrightarrow> length xs = length ys \<and> (\<forall>x \<in> set xs. \<exists>y \<in> set ys. eq x y)"
  by (auto simp: covers_def list_all_iff list_ex_iff)

lemma covers_list_all2: "list_all2 eq xs ys \<Longrightarrow> covers eq xs ys"
  by (fastforce simp: covers_iff list_all2_conv_all_nth in_set_conv_nth)

section \<open>Loops that may panic\<close>

text \<open>A loop over a slice whose body may panic (\<open>None\<close>), with the state as accumulator.\<close>

fun foldM :: "('a \<Rightarrow> 's \<Rightarrow> 's option) \<Rightarrow> 'a list \<Rightarrow> 's \<Rightarrow> 's option" where
  "foldM f [] s = Some s"
| "foldM f (x # xs) s = (case f x s of None \<Rightarrow> None | Some s' \<Rightarrow> foldM f xs s')"

lemma foldM_invariant:
  assumes "foldM f xs s = Some t" "I s"
    and "\<And>x s s'. x \<in> set xs \<Longrightarrow> I s \<Longrightarrow> f x s = Some s' \<Longrightarrow> I s'"
  shows "I t"
  using assms
proof (induction xs arbitrary: s)
  case (Cons x xs)
  obtain s' where s': "f x s = Some s'" "foldM f xs s' = Some t"
    using Cons.prems(1) by (auto split: option.splits)
  have step: "\<And>y s s'. y \<in> set (x # xs) \<Longrightarrow> I s \<Longrightarrow> f y s = Some s' \<Longrightarrow> I s'" by (fact Cons.prems(3))
  have "I s'" by (rule step [OF _ Cons.prems(2) s'(1)]) simp
  then show ?case by (rule Cons.IH [OF s'(2)]) (rule step, simp_all)
qed simp

lemma foldM_total:
  assumes "\<And>x s. x \<in> set xs \<Longrightarrow> \<exists>s'. f x s = Some s'"
  shows "\<exists>t. foldM f xs s = Some t"
  using assms
proof (induction xs arbitrary: s)
  case (Cons x xs)
  obtain s' where "f x s = Some s'" using Cons.prems by fastforce
  with Cons.IH [of s'] Cons.prems show ?case by auto
qed simp

lemma foldM_append: "foldM f (xs @ ys) s = (case foldM f xs s of None \<Rightarrow> None | Some t \<Rightarrow> foldM f ys t)"
  by (induction xs arbitrary: s) (auto split: option.splits)

section \<open>The contract of an equality test\<close>

text \<open>
  The \<open>Equals\<close> methods of the gateway are meant to decide whether two objects describe the same
  thing. \<open>equals_test\<close> is that contract on well-formed objects, and \<open>equals_view\<close> a stronger one:
  two well-formed objects are equal exactly when a view of them is the same.
\<close>

locale equals_test =
  fixes eq :: "'a \<Rightarrow> 'a \<Rightarrow> bool" and wf :: "'a \<Rightarrow> bool"
  assumes refl: "wf x \<Longrightarrow> eq x x"
    and sym: "wf x \<Longrightarrow> wf y \<Longrightarrow> eq x y \<Longrightarrow> eq y x"
    and trans: "wf x \<Longrightarrow> wf y \<Longrightarrow> wf z \<Longrightarrow> eq x y \<Longrightarrow> eq y z \<Longrightarrow> eq x z"
begin

lemma covers_refl: "list_all wf xs \<Longrightarrow> covers eq xs xs"
  by (auto simp: covers_iff list_all_iff intro: refl)

lemma covers_trans:
  assumes "list_all wf xs" "list_all wf ys" "list_all wf zs" "covers eq xs ys" "covers eq ys zs"
  shows "covers eq xs zs"
  unfolding covers_iff
proof (intro conjI ballI)
  show "length xs = length zs" using assms(4,5) by (simp add: covers_iff)
next
  fix x assume x: "x \<in> set xs"
  then obtain y where y: "y \<in> set ys" "eq x y" using assms(4) by (auto simp: covers_iff)
  then obtain z where z: "z \<in> set zs" "eq y z" using assms(5) by (auto simp: covers_iff)
  have "eq x z" using x y z assms(1-3) trans by (auto simp: list_all_iff)
  with z show "\<exists>z \<in> set zs. eq x z" by blast
qed

end

locale equals_view =
  fixes eq :: "'a \<Rightarrow> 'a \<Rightarrow> bool" and wf :: "'a \<Rightarrow> bool" and view :: "'a \<Rightarrow> 'v"
  assumes eq_view: "wf x \<Longrightarrow> wf y \<Longrightarrow> eq x y \<longleftrightarrow> view x = view y"
begin

lemma covers_view:
  assumes "list_all wf xs" "list_all wf ys"
  shows "covers eq xs ys \<longleftrightarrow> length xs = length ys \<and> view ` set xs \<subseteq> view ` set ys"
  using assms by (fastforce simp: covers_iff list_all_iff eq_view)

text \<open>On slices whose elements have pairwise different views, the loop decides equality of the
  sets of views, and so is symmetric.\<close>

lemma covers_view_distinct:
  assumes "list_all wf xs" "list_all wf ys" "distinct (map view xs)" "distinct (map view ys)"
  shows "covers eq xs ys \<longleftrightarrow> view ` set xs = view ` set ys"
proof -
  have cx: "card (view ` set xs) = length xs" and cy: "card (view ` set ys) = length ys"
    using assms(3,4) by (metis distinct_card length_map list.set_map)+
  show ?thesis
    unfolding covers_view [OF assms(1,2)]
    by (metis List.finite_set card_subset_eq cx cy finite_imageI order_refl)
qed

end

sublocale equals_view \<subseteq> equals_test eq wf
  by unfold_locales (auto simp: eq_view)

text \<open>
  A method on pointers that compares addresses first, is false when exactly one pointer is nil,
  and else compares the values by a view, meets the contract on the pointers of one heap.
\<close>

definition wf_ptr :: "(nat \<Rightarrow> 'a) \<Rightarrow> ('a \<Rightarrow> bool) \<Rightarrow> 'a ptr \<Rightarrow> bool" where
  "wf_ptr H W p \<longleftrightarrow> in_heap H p \<and> (\<forall>x. ptr_val p = Some x \<longrightarrow> W x)"

definition ptr_view :: "('a \<Rightarrow> 'v) \<Rightarrow> 'a ptr \<Rightarrow> 'v option" where
  "ptr_view view p = map_option view (ptr_val p)"

lemma ptr_equals_viewI:
  assumes "\<And>a x y. eq (Ptr a x) (Ptr a y)"
    and "\<And>p q. is_nil p \<or> is_nil q \<Longrightarrow> eq p q \<longleftrightarrow> is_nil p \<and> is_nil q"
    and "\<And>a b x y. a \<noteq> b \<Longrightarrow> W x \<Longrightarrow> W y \<Longrightarrow> eq (Ptr a x) (Ptr b y) \<longleftrightarrow> view x = view y"
  shows "equals_view eq (wf_ptr H W) (ptr_view view)"
proof
  fix p q assume wf: "wf_ptr H W p" "wf_ptr H W q"
  show "eq p q \<longleftrightarrow> ptr_view view p = ptr_view view q"
  proof (cases p; cases q)
    fix a x b y assume pq: "p = Ptr a x" "q = Ptr b y"
    show ?thesis
    proof (cases "a = b")
      case True
      with wf pq assms(1) show ?thesis by (auto simp: wf_ptr_def ptr_view_def)
    next
      case False
      with wf pq assms(3) show ?thesis by (auto simp: wf_ptr_def ptr_view_def)
    qed
  qed (use assms(2) in \<open>auto simp: ptr_view_def\<close>)
qed

interpretation str_eq: equals_view "(=)" "\<lambda>_ :: string. True" id
  by unfold_locales simp

end
