(* ===== verification/GwConfig.thy ===== *)
theory GwConfig
  imports GoBase
begin

text \<open>
  The gateway's configuration records: \<open>gateway/defaults\<close> (the default backend),
  \<open>gateway/controller/config\<close> (its values), \<open>gateway/annotations/proxy\<close> (the reverse proxy
  configuration of a location, its validation and its equality test) and the configuration
  record of \<open>gateway/annotations/rewrite\<close>. The header name and value tests of
  \<open>golang.org/x/net/http/httpguts\<close> are arguments of \<open>proxy_Validation\<close>.
\<close>

section \<open>gateway/defaults and gateway/controller/config\<close>

record Backend =
  be_AppRoot :: string
  be_CustomHTTPErrors :: "int list"
  be_ProxyBodySize :: int
  be_ProxyConnectTimeout :: int
  be_ProxyReadTimeout :: int
  be_ProxySendTimeout :: int
  be_ProxyBuffersNumber :: int
  be_ProxyBufferSize :: string
  be_ProxyCookiePath :: string
  be_ProxyCookieDomain :: string
  be_ProxyNextUpstream :: string
  be_ProxyNextUpstreamTries :: int
  be_ProxyNextUpstreamTimeout :: int
  be_ProxyRedirectFrom :: string
  be_ProxyRedirectTo :: string
  be_ProxyRequestBuffering :: string
  be_Resolver :: "nat list list"
  be_SkipAccessLogURLs :: "string list"
  be_SSLRedirect :: bool
  be_ForceSSLRedirect :: bool
  be_UsePortInRedirects :: bool
  be_UpstreamHashBy :: string
  be_UpstreamHashBySubset :: bool
  be_UpstreamHashBySubsetSize :: int
  be_LoadBalancing :: string
  be_WhitelistSourceRange :: "string list"
  be_LimitRate :: int
  be_LimitRateAfter :: int
  be_ProxyBuffering :: string
  be_ProxySetHeaders :: "(string, string) gomap"

definition NewDefault :: Backend where
  "NewDefault =
    \<lparr>be_AppRoot = [],
     be_CustomHTTPErrors = [],
     be_ProxyBodySize = 0,
     be_ProxyConnectTimeout = 5,
     be_ProxyReadTimeout = 60,
     be_ProxySendTimeout = 60,
     be_ProxyBuffersNumber = 4,
     be_ProxyBufferSize = ''4k'',
     be_ProxyCookiePath = ''off'',
     be_ProxyCookieDomain = ''off'',
     be_ProxyNextUpstream = ''error timeout'',
     be_ProxyNextUpstreamTries = 3,
     be_ProxyNextUpstreamTimeout = 0,
     be_ProxyRedirectFrom = ''off'',
     be_ProxyRedirectTo = ''off'',
     be_ProxyRequestBuffering = ''on'',
     be_Resolver = [],
     be_SkipAccessLogURLs = [],
     be_SSLRedirect = True,
     be_ForceSSLRedirect = False,
     be_UsePortInRedirects = False,
     be_UpstreamHashBy = [],
     be_UpstreamHashBySubset = False,
     be_UpstreamHashBySubsetSize = 0,
     be_LoadBalancing = [],
     be_WhitelistSourceRange = [],
     be_LimitRate = 0,
     be_LimitRateAfter = 0,
     be_ProxyBuffering = ''off'',
     be_ProxySetHeaders =
       [(''Host'', ''$best_http_host''),
        (''X-Real-IP'', ''$remote_addr''),
        (''X-Forwarded-For'', ''$remote_addr''),
        (''X-Forwarded-Host'', ''$best_http_host''),
        (''X-Forwarded-Port'', ''$pass_port''),
        (''X-Forwarded-Proto'', ''$pass_access_scheme''),
        (''X-Scheme'', ''$pass_access_scheme''),
        (''Proxy'', [CHR 0x22, CHR 0x22])]\<rparr>"

section \<open>gateway/annotations/proxy: Config\<close>

record proxy_Config =
  px_BodySize :: int
  px_ConnectTimeout :: int
  px_SendTimeout :: int
  px_ReadTimeout :: int
  px_BuffersNumber :: int
  px_BufferSize :: string
  px_CookieDomain :: string
  px_CookiePath :: string
  px_NextUpstream :: string
  px_NextUpstreamTimeout :: int
  px_NextUpstreamTries :: int
  px_ProxyRedirectFrom :: string
  px_ProxyRedirectTo :: string
  px_RequestBuffering :: string
  px_ProxyBuffering :: string
  px_SetHeaders :: "(string, string) gomap"

text \<open>The zero value, \<open>proxy.Config{}\<close>.\<close>

definition zero_proxy :: proxy_Config where
  "zero_proxy =
    \<lparr>px_BodySize = 0, px_ConnectTimeout = 0, px_SendTimeout = 0, px_ReadTimeout = 0,
     px_BuffersNumber = 0, px_BufferSize = [], px_CookieDomain = [], px_CookiePath = [],
     px_NextUpstream = [], px_NextUpstreamTimeout = 0, px_NextUpstreamTries = 0,
     px_ProxyRedirectFrom = [], px_ProxyRedirectTo = [], px_RequestBuffering = [],
     px_ProxyBuffering = [], px_SetHeaders = []\<rparr>"

datatype proxy_error = BadHeaderName string | BadHeaderValue string string

fun checkHeaders :: "(string \<Rightarrow> bool) \<Rightarrow> (string \<Rightarrow> bool) \<Rightarrow> (string, string) gomap \<Rightarrow> proxy_error option" where
  "checkHeaders vname vval [] = None"
| "checkHeaders vname vval ((k, v) # hs) =
     (if \<not> vname k then Some (BadHeaderName k)
      else if \<not> vval v then Some (BadHeaderValue k v)
      else checkHeaders vname vval hs)"

definition proxy_Validation ::
  "(string \<Rightarrow> bool) \<Rightarrow> (string \<Rightarrow> bool) \<Rightarrow> proxy_Config \<Rightarrow> proxy_error + proxy_Config" where
  \<comment> \<open>\<open>(s *Config) Validation\<close>: the error, or the configuration as the method leaves it.\<close>
  "proxy_Validation vname vval s =
     (let def = NewDefault in
      case checkHeaders vname vval (px_SetHeaders s) of
        Some e \<Rightarrow> Inl e
      | None \<Rightarrow>
          (let s = (if px_ProxyBuffering s = [] then s\<lparr>px_ProxyBuffering := be_ProxyBuffering def\<rparr> else s);
               s = (if px_BufferSize s = [] then s\<lparr>px_BufferSize := be_ProxyBufferSize def\<rparr> else s);
               s = (if px_BuffersNumber s = 0 then s\<lparr>px_BuffersNumber := be_ProxyBuffersNumber def\<rparr> else s);
               s = (if px_RequestBuffering s = [] then s\<lparr>px_RequestBuffering := be_ProxyRequestBuffering def\<rparr> else s);
               s = (if px_CookieDomain s = [] then s\<lparr>px_CookieDomain := be_ProxyCookieDomain def\<rparr> else s);
               s = (if px_CookiePath s = [] then s\<lparr>px_CookiePath := be_ProxyCookiePath def\<rparr> else s)
           in Inr s))"

definition NewProxyConfig :: proxy_Config where
  "NewProxyConfig =
     (let def = NewDefault in
      \<lparr>px_BodySize = be_ProxyBodySize def,
       px_ConnectTimeout = be_ProxyConnectTimeout def,
       px_SendTimeout = be_ProxySendTimeout def,
       px_ReadTimeout = be_ProxyReadTimeout def,
       px_BuffersNumber = be_ProxyBuffersNumber def,
       px_BufferSize = be_ProxyBufferSize def,
       px_CookieDomain = be_ProxyCookieDomain def,
       px_CookiePath = be_ProxyCookiePath def,
       px_NextUpstream = be_ProxyNextUpstream def,
       px_NextUpstreamTimeout = be_ProxyNextUpstreamTimeout def,
       px_NextUpstreamTries = be_ProxyNextUpstreamTries def,
       px_ProxyRedirectFrom = be_ProxyRedirectFrom def,
       px_ProxyRedirectTo = be_ProxyRedirectTo def,
       px_RequestBuffering = be_ProxyRequestBuffering def,
       px_ProxyBuffering = be_ProxyBuffering def,
       px_SetHeaders = be_ProxySetHeaders def\<rparr>)"

fun proxy_Equal :: "proxy_Config ptr \<Rightarrow> proxy_Config ptr \<Rightarrow> bool" where
  "proxy_Equal (Ptr a s) (Ptr b l2) =
     (a = b \<or>
      px_BodySize s = px_BodySize l2 \<and>
      px_ConnectTimeout s = px_ConnectTimeout l2 \<and>
      px_SendTimeout s = px_SendTimeout l2 \<and>
      px_ReadTimeout s = px_ReadTimeout l2 \<and>
      px_BuffersNumber s = px_BuffersNumber l2 \<and>
      px_BufferSize s = px_BufferSize l2 \<and>
      px_CookieDomain s = px_CookieDomain l2 \<and>
      px_CookiePath s = px_CookiePath l2 \<and>
      px_NextUpstream s = px_NextUpstream l2 \<and>
      px_NextUpstreamTries s = px_NextUpstreamTries l2 \<and>
      px_RequestBuffering s = px_RequestBuffering l2 \<and>
      px_ProxyRedirectFrom s = px_ProxyRedirectFrom l2 \<and>
      px_ProxyRedirectTo s = px_ProxyRedirectTo l2 \<and>
      px_ProxyBuffering s = px_ProxyBuffering l2 \<and>
      length (px_SetHeaders s) = length (px_SetHeaders l2) \<and>
      list_all (\<lambda>(k, v). map_str (px_SetHeaders l2) k = v) (px_SetHeaders s))"
| "proxy_Equal s l2 = ptr_eq s l2"

section \<open>gateway/annotations/rewrite: Config\<close>

record Rewrite =
  rw_Regex :: string
  rw_Replacement :: string
  rw_Flag :: string

definition zero_Rewrite :: Rewrite where
  "zero_Rewrite = \<lparr>rw_Regex = [], rw_Replacement = [], rw_Flag = []\<rparr>"

record rewrite_Config =
  rc_Rewrites :: "Rewrite list"
  rc_Target :: string
  rc_SSLRedirect :: bool
  rc_ForceSSLRedirect :: bool
  rc_AppRoot :: string
  rc_UseRegex :: bool

definition zero_rewrite :: rewrite_Config where
  "zero_rewrite =
    \<lparr>rc_Rewrites = [], rc_Target = [], rc_SSLRedirect = False, rc_ForceSSLRedirect = False,
     rc_AppRoot = [], rc_UseRegex = False\<rparr>"

fun rewrite_Equal :: "rewrite_Config ptr \<Rightarrow> rewrite_Config ptr \<Rightarrow> bool" where
  "rewrite_Equal (Ptr a r1) (Ptr b r2) =
     (a = b \<or>
      rc_Target r1 = rc_Target r2 \<and>
      rc_SSLRedirect r1 = rc_SSLRedirect r2 \<and>
      rc_ForceSSLRedirect r1 = rc_ForceSSLRedirect r2 \<and>
      rc_AppRoot r1 = rc_AppRoot r2 \<and>
      rc_UseRegex r1 = rc_UseRegex r2)"
| "rewrite_Equal r1 r2 = ptr_eq r1 r2"

section \<open>Lemmas\<close>

lemma checkHeaders_None_iff:
  "checkHeaders vname vval hs = None \<longleftrightarrow> (\<forall>(k, v) \<in> set hs. vname k \<and> vval v)"
  by (induction hs) (auto split: if_splits)

text \<open>The configuration of a location in use: distinct header names.\<close>

definition wf_proxy :: "proxy_Config \<Rightarrow> bool" where
  "wf_proxy p \<longleftrightarrow> wf_map (px_SetHeaders p)"

text \<open>No header is set to the empty value, which the annotation \<open>empty\<close> stands for.\<close>

definition no_empty_header :: "proxy_Config \<Rightarrow> bool" where
  "no_empty_header p \<longleftrightarrow> (\<forall>(k, v) \<in> set (px_SetHeaders p). v \<noteq> [])"

text \<open>The fields the equality test reads, with the headers as a map.\<close>

definition proxy_view :: "proxy_Config \<Rightarrow> proxy_Config \<times> (string \<rightharpoonup> string)" where
  "proxy_view p = (p\<lparr>px_NextUpstreamTimeout := 0, px_SetHeaders := []\<rparr>, map_of (px_SetHeaders p))"

lemma header_test_map_of:
  assumes "wf_map m" "wf_map n" "length m = length n" "\<forall>(k, v) \<in> set m. v \<noteq> []"
  shows "list_all (\<lambda>(k, v). map_str n k = v) m \<longleftrightarrow> map_of m = map_of n"
proof
  assume l: "list_all (\<lambda>(k, v). map_str n k = v) m"
  have "map_of n k = Some v" if "(k, v) \<in> set m" for k v
    using l assms(4) that by (force simp: list_all_iff map_str_def split: option.splits)
  then show "map_of m = map_of n"
    by (rule map_eq_by_entries [OF assms(1-3)])
next
  assume "map_of m = map_of n"
  then show "list_all (\<lambda>(k, v). map_str n k = v) m"
    using assms(1) by (auto simp: list_all_iff in_wf_map map_str_def)
qed

lemma proxy_Equal_iff_view:
  assumes "wf_proxy s" "wf_proxy l2" "no_empty_header s" "a \<noteq> b"
  shows "proxy_Equal (Ptr a s) (Ptr b l2) \<longleftrightarrow> proxy_view s = proxy_view l2"
proof -
  have len: "map_of (px_SetHeaders s) = map_of (px_SetHeaders l2) \<Longrightarrow>
      length (px_SetHeaders s) = length (px_SetHeaders l2)"
    using assms(1,2) unfolding wf_proxy_def wf_map_def
    by (metis distinct_card dom_map_of_conv_image_fst length_map list.set_map)
  show ?thesis
  proof (cases "length (px_SetHeaders s) = length (px_SetHeaders l2)")
    case True
    have "list_all (\<lambda>(k, v). map_str (px_SetHeaders l2) k = v) (px_SetHeaders s) \<longleftrightarrow>
        map_of (px_SetHeaders s) = map_of (px_SetHeaders l2)"
      using assms(1-3) True unfolding wf_proxy_def no_empty_header_def by (intro header_test_map_of)
    with True \<open>a \<noteq> b\<close> show ?thesis
      by (cases s; cases l2) (auto simp: proxy_view_def)
  next
    case False
    with len \<open>a \<noteq> b\<close> show ?thesis
      by (auto simp: proxy_view_def)
  qed
qed

lemma proxy_Equal_refl_copy: "wf_proxy s \<Longrightarrow> proxy_Equal (Ptr a s) (Ptr b s)"
  by (auto simp: wf_proxy_def list_all_iff map_str_def in_wf_map)

end
