(* ===== verification/GwModel.thy ===== *)
theory GwModel
  imports GwConfig
begin

text \<open>
  \<open>gateway/v1\<close>: the gateway's internal model (metadata, nodes, pools, locations, certificates,
  virtual services, the running configuration) and the \<open>Equals\<close> methods by which the controller
  decides whether nginx has to be reloaded. A pointer receiver and a pointer argument are values
  of \<open>ptr\<close>; an embedded struct has the address of the struct that holds it.
\<close>

section \<open>Data\<close>

record Meta =
  Index :: int
  Name :: string
  Namespace :: string
  ServiceID :: string
  PluginName :: string

definition zero_Meta :: Meta where
  "zero_Meta = \<lparr>Index = 0, Name = [], Namespace = [], ServiceID = [], PluginName = []\<rparr>"

record Node =
  nd_Meta :: Meta
  nd_Host :: string
  nd_Port :: int
  nd_Protocol :: string
  nd_State :: string
  nd_PoolName :: string
  nd_Ready :: bool
  nd_Weight :: int
  nd_MaxFails :: int
  nd_FailTimeout :: string

definition zero_Node :: Node where
  "zero_Node = \<lparr>nd_Meta = zero_Meta, nd_Host = [], nd_Port = 0, nd_Protocol = [], nd_State = [],
     nd_PoolName = [], nd_Ready = False, nd_Weight = 0, nd_MaxFails = 0, nd_FailTimeout = []\<rparr>"

type_synonym LoadBalancingType = string

definition RoundRobin :: LoadBalancingType where "RoundRobin = ''round-robin''"
definition CookieSessionAffinity :: LoadBalancingType where
  "CookieSessionAffinity = ''cookie-session-affinity''"

definition GetLoadBalancingType :: "string \<Rightarrow> LoadBalancingType" where
  "GetLoadBalancingType s =
     (if s = ''round-robin'' then RoundRobin
      else if s = ''cookie-session-affinity'' then CookieSessionAffinity
      else RoundRobin)"

record Pool =
  pl_Meta :: Meta
  pl_ServiceID :: string
  pl_ServiceVersion :: string
  pl_ServicePort :: int
  pl_Note :: string
  pl_NodeNumber :: int
  pl_LoadBalancingType :: LoadBalancingType
  pl_UpstreamHashBy :: string
  pl_LeastConn :: bool
  pl_Monitors :: "string list"
  pl_Nodes :: "Node ptr list"

definition zero_Pool :: Pool where
  "zero_Pool = \<lparr>pl_Meta = zero_Meta, pl_ServiceID = [], pl_ServiceVersion = [], pl_ServicePort = 0,
     pl_Note = [], pl_NodeNumber = 0, pl_LoadBalancingType = [], pl_UpstreamHashBy = [],
     pl_LeastConn = False, pl_Monitors = [], pl_Nodes = []\<rparr>"

type_synonym ConditionType = string

definition HeaderType :: ConditionType where "HeaderType = ''header''"
definition CookieType :: ConditionType where "CookieType = ''cookie''"
definition DefaultType :: ConditionType where "DefaultType = ''default''"

record Condition =
  cd_Type :: ConditionType
  cd_Value :: "(string, string) gomap"

record Location =
  lo_Path :: string
  lo_NameCondition :: "(string, Condition ptr) gomap"
  lo_Rewrite :: rewrite_Config
  lo_Proxy :: proxy_Config
  lo_DisableProxyPass :: bool

text \<open>The part of \<open>crypto/x509.Certificate\<close> that the gateway reads.\<close>

record x509_Certificate =
  Raw :: bytes
  CommonName :: string

record SSLCert =
  sc_Meta :: "Meta ptr"
  sc_CertificateStr :: string
  sc_Certificate :: "x509_Certificate ptr"
  sc_PrivateKey :: string
  sc_CertificatePem :: string
  sc_CN :: "string list"
  sc_ExpireTime :: int

datatype iface = IfNil | IfStr string | IfInt int | IfBool bool

record VirtualService =
  vs_Meta :: Meta
  vs_Enabled :: bool
  vs_Protocol :: string
  vs_BackendProtocol :: string
  vs_Port :: int
  vs_Listening :: "string list"
  vs_Note :: string
  vs_DefaultPoolName :: string
  vs_RuleNames :: "string list"
  vs_SSLdecrypt :: bool
  vs_DefaultCertificateName :: string
  vs_RequestLogEnable :: bool
  vs_RequestLogFileName :: string
  vs_RequestLogFormat :: string
  vs_ConnectTimeout :: int
  vs_Timeout :: int
  vs_ServerName :: string
  vs_PoolName :: string
  vs_SSlProtocols :: string
  vs_SSLCert :: "SSLCert ptr"
  vs_Locations :: "Location ptr list"
  vs_ForceSSLRedirect :: bool
  vs_ExtensionConfig :: "(string, iface) gomap"

definition zero_VirtualService :: VirtualService where
  "zero_VirtualService =
    \<lparr>vs_Meta = zero_Meta, vs_Enabled = False, vs_Protocol = [], vs_BackendProtocol = [],
     vs_Port = 0, vs_Listening = [], vs_Note = [], vs_DefaultPoolName = [], vs_RuleNames = [],
     vs_SSLdecrypt = False, vs_DefaultCertificateName = [], vs_RequestLogEnable = False,
     vs_RequestLogFileName = [], vs_RequestLogFormat = [], vs_ConnectTimeout = 0, vs_Timeout = 0,
     vs_ServerName = [], vs_PoolName = [], vs_SSlProtocols = [], vs_SSLCert = NilPtr,
     vs_Locations = [], vs_ForceSSLRedirect = False, vs_ExtensionConfig = []\<rparr>"

record Config =
  HTTPPools :: "Pool ptr list"
  TCPPools :: "Pool ptr list"
  L7VS :: "VirtualService ptr list"
  L4VS :: "VirtualService ptr list"

section \<open>The Equals methods\<close>

fun Meta_Equals :: "Meta ptr \<Rightarrow> Meta ptr \<Rightarrow> bool" where
  "Meta_Equals (Ptr a m) (Ptr b c) =
     (a = b \<or> Name m = Name c \<and> Namespace m = Namespace c \<and> PluginName m = PluginName c \<and>
      ServiceID m = ServiceID c)"
| "Meta_Equals m c = ptr_eq m c"

fun Node_Equals :: "Node ptr \<Rightarrow> Node ptr \<Rightarrow> bool" where
  "Node_Equals (Ptr a n) (Ptr b c) =
     (a = b \<or>
      nd_Meta n = nd_Meta c \<and>
      nd_Host n = nd_Host c \<and>
      nd_Port n = nd_Port c \<and>
      nd_Protocol n = nd_Protocol c \<and>
      nd_State n = nd_State c \<and>
      nd_PoolName n = nd_PoolName c \<and>
      nd_Ready n = nd_Ready c \<and>
      nd_Weight n = nd_Weight c \<and>
      nd_MaxFails n = nd_MaxFails c \<and>
      nd_FailTimeout n = nd_FailTimeout c)"
| "Node_Equals n c = ptr_eq n c"

fun Pool_Equals :: "Pool ptr \<Rightarrow> Pool ptr \<Rightarrow> bool" where
  "Pool_Equals (Ptr a p) (Ptr b c) =
     (a = b \<or>
      Meta_Equals (Ptr a (pl_Meta p)) (Ptr b (pl_Meta c)) \<and>
      pl_ServiceID p = pl_ServiceID c \<and>
      pl_ServiceVersion p = pl_ServiceVersion c \<and>
      pl_ServicePort p = pl_ServicePort c \<and>
      pl_Note p = pl_Note c \<and>
      pl_NodeNumber p = pl_NodeNumber c \<and>
      pl_LoadBalancingType p = pl_LoadBalancingType c \<and>
      covers (=) (pl_Monitors p) (pl_Monitors c) \<and>
      covers Node_Equals (pl_Nodes p) (pl_Nodes c))"
| "Pool_Equals p c = ptr_eq p c"

fun Condition_Equals :: "Condition ptr \<Rightarrow> Condition ptr \<Rightarrow> bool" where
  "Condition_Equals (Ptr a c) (Ptr b cc) =
     (a = b \<or>
      cd_Type c = cd_Type cc \<and>
      length (cd_Value c) = length (cd_Value cc) \<and>
      list_all (\<lambda>(k, v). map_of (cd_Value cc) k = Some v) (cd_Value c))"
| "Condition_Equals c cc = ptr_eq c cc"

fun Location_Equals :: "Location ptr \<Rightarrow> Location ptr \<Rightarrow> bool" where
  "Location_Equals (Ptr a l) (Ptr b c) =
     (a = b \<or>
      lo_Path l = lo_Path c \<and>
      length (lo_NameCondition l) = length (lo_NameCondition c) \<and>
      list_all (\<lambda>(name, lc). case map_of (lo_NameCondition c) name of
                  None \<Rightarrow> False | Some cc \<Rightarrow> Condition_Equals cc lc) (lo_NameCondition l) \<and>
      proxy_Equal (Ptr a (lo_Proxy l)) (Ptr b (lo_Proxy c)))"
| "Location_Equals l c = ptr_eq l c"

text \<open>\<open>(*x509.Certificate).Equal\<close> compares the raw bytes.\<close>

fun x509_Equal :: "x509_Certificate ptr \<Rightarrow> x509_Certificate ptr \<Rightarrow> bool" where
  "x509_Equal (Ptr _ c) (Ptr _ d) = (Raw c = Raw d)"
| "x509_Equal c d = ptr_eq c d"

fun SSLCert_Equals :: "SSLCert ptr \<Rightarrow> SSLCert ptr \<Rightarrow> bool" where
  "SSLCert_Equals (Ptr a s) (Ptr b c) =
     (a = b \<or>
      Meta_Equals (sc_Meta s) (sc_Meta c) \<and>
      is_nil (sc_Certificate s) = is_nil (sc_Certificate c) \<and>
      (\<not> is_nil (sc_Certificate s) \<and> \<not> is_nil (sc_Certificate c) \<longrightarrow>
        x509_Equal (sc_Certificate s) (sc_Certificate c)) \<and>
      sc_CertificateStr s = sc_CertificateStr c \<and>
      sc_PrivateKey s = sc_PrivateKey c \<and>
      length (sc_CN s) = length (sc_CN c) \<and>
      list_all (\<lambda>scn. list_ex (\<lambda>ccn. scn \<noteq> ccn) (sc_CN c)) (sc_CN s) \<and>
      sc_ExpireTime s = sc_ExpireTime c)"
| "SSLCert_Equals s c = ptr_eq s c"

definition map_iface :: "(string, iface) gomap \<Rightarrow> string \<Rightarrow> iface" where
  "map_iface m k = (case map_of m k of Some v \<Rightarrow> v | None \<Rightarrow> IfNil)"

fun VirtualService_Equals :: "VirtualService ptr \<Rightarrow> VirtualService ptr \<Rightarrow> bool" where
  "VirtualService_Equals (Ptr a v) (Ptr b c) =
     (a = b \<or>
      Meta_Equals (Ptr a (vs_Meta v)) (Ptr b (vs_Meta c)) \<and>
      vs_Enabled v = vs_Enabled c \<and>
      vs_Protocol v = vs_Protocol c \<and>
      vs_BackendProtocol v = vs_BackendProtocol c \<and>
      vs_Port v = vs_Port c \<and>
      covers (=) (vs_Listening v) (vs_Listening c) \<and>
      vs_Note v = vs_Note c \<and>
      vs_DefaultPoolName v = vs_DefaultPoolName c \<and>
      covers (=) (vs_RuleNames v) (vs_RuleNames c) \<and>
      vs_SSLdecrypt v = vs_SSLdecrypt c \<and>
      vs_DefaultCertificateName v = vs_DefaultCertificateName c \<and>
      vs_RequestLogEnable v = vs_RequestLogEnable c \<and>
      vs_RequestLogFileName v = vs_RequestLogFileName c \<and>
      vs_RequestLogFormat v = vs_RequestLogFormat c \<and>
      vs_ConnectTimeout v = vs_ConnectTimeout c \<and>
      vs_Timeout v = vs_Timeout c \<and>
      vs_ServerName v = vs_ServerName c \<and>
      vs_PoolName v = vs_PoolName c \<and>
      covers Location_Equals (vs_Locations v) (vs_Locations c) \<and>
      SSLCert_Equals (vs_SSLCert v) (vs_SSLCert c) \<and>
      vs_ForceSSLRedirect v = vs_ForceSSLRedirect c \<and>
      length (vs_ExtensionConfig v) = length (vs_ExtensionConfig c) \<and>
      list_all (\<lambda>(key, ve). map_iface (vs_ExtensionConfig c) key = ve) (vs_ExtensionConfig v))"
| "VirtualService_Equals v c = ptr_eq v c"

fun Config_Equals :: "Config ptr \<Rightarrow> Config ptr \<Rightarrow> bool" where
  "Config_Equals (Ptr a cfg) (Ptr b c) =
     (a = b \<or>
      covers VirtualService_Equals (L7VS cfg) (L7VS c) \<and>
      covers VirtualService_Equals (L4VS cfg) (L4VS c))"
| "Config_Equals cfg c = ptr_eq cfg c"

text \<open>\<open>gateway/controller\<close>'s comparison of two slices of pools.\<close>

definition poolsEqual :: "Pool ptr list \<Rightarrow> Pool ptr list \<Rightarrow> bool" where
  "poolsEqual a b = covers Pool_Equals a b"

end
