(* ===== verification/Annotations.thy ===== *)
theory Annotations
  imports GwModel
begin

text \<open>
  \<open>gateway/annotations\<close>: the parsers that turn the annotations of an ingress into the gateway's
  configuration records, and the extractor that runs them all. The Kubernetes objects are records
  of the fields the gateway reads. The resolver is an interface whose one method returns the
  default backend, so the parsers take that backend. The order in which a \<open>range\<close> loop meets the
  entries of a map built in the function itself is an argument \<open>rng\<close> (Go leaves it open, the only
  assumption is \<open>is_range\<close>: it is a permutation); \<open>mergo.MapWithOverwrite\<close> is an argument of
  \<open>Extract\<close>.
\<close>

section \<open>Kubernetes objects\<close>

record ObjectMeta =
  om_Name :: string
  om_Namespace :: string
  om_ResourceVersion :: string
  om_Annotations :: "(string, string) gomap"
  om_Labels :: "(string, string) gomap"

record IngressBackend =
  ib_ServiceName :: string
  ib_ServicePort :: int

record HTTPIngressPath =
  hp_Path :: string
  hp_Backend :: IngressBackend

record IngressRule =
  ir_Host :: string
  ir_HTTP :: "HTTPIngressPath list option"

record IngressTLS =
  it_Hosts :: "string list"
  it_SecretName :: string

record Ingress =
  ing_Meta :: ObjectMeta
  ing_Backend :: "IngressBackend option"
  ing_TLS :: "IngressTLS list"
  ing_Rules :: "IngressRule list"

section \<open>util/ingress-nginx/ingress/errors\<close>

datatype ann_error =
    ErrMissingAnnotations
  | ErrInvalidAnnotationName
  | InvalidContent string string
  | LocationDenied string
  | ErrorL4Port int

fun IsLocationDenied :: "ann_error \<Rightarrow> bool" where
  "IsLocationDenied (LocationDenied _) = True"
| "IsLocationDenied _ = False"

definition IsMissingAnnotations :: "ann_error \<Rightarrow> bool" where
  "IsMissingAnnotations e \<longleftrightarrow> e = ErrMissingAnnotations"

fun IsInvalidContent :: "ann_error \<Rightarrow> bool" where
  "IsInvalidContent (InvalidContent _ _) = True"
| "IsInvalidContent _ = False"

text \<open>\<open>v, _ := f()\<close> and \<open>v, err = f(); if err != nil { v = d }\<close>.\<close>

definition value_or :: "'a \<Rightarrow> 'e + 'a \<Rightarrow> 'a" where
  "value_or d r = (case r of Inl _ \<Rightarrow> d | Inr v \<Rightarrow> v)"

section \<open>annotations/parser\<close>

definition AnnotationsPrefix :: string where
  "AnnotationsPrefix = ''nginx.ingress.kubernetes.io''"

definition parseBool :: "(string, string) gomap \<Rightarrow> string \<Rightarrow> ann_error + bool" where
  "parseBool a name =
     (case map_of a name of
        Some val \<Rightarrow> (case ParseBool val of
            None \<Rightarrow> Inl (InvalidContent name val)
          | Some b \<Rightarrow> Inr b)
      | None \<Rightarrow> Inl ErrMissingAnnotations)"

definition parseString :: "(string, string) gomap \<Rightarrow> string \<Rightarrow> ann_error + string" where
  "parseString a name =
     (case map_of a name of Some val \<Rightarrow> Inr val | None \<Rightarrow> Inl ErrMissingAnnotations)"

definition parseInt :: "(string, string) gomap \<Rightarrow> string \<Rightarrow> ann_error + int" where
  "parseInt a name =
     (case map_of a name of
        Some val \<Rightarrow> (case Atoi val of
            None \<Rightarrow> Inl (InvalidContent name val)
          | Some i \<Rightarrow> Inr i)
      | None \<Rightarrow> Inl ErrMissingAnnotations)"

definition checkAnnotation :: "string \<Rightarrow> Ingress option \<Rightarrow> ann_error option" where
  "checkAnnotation name ing =
     (if (case ing of None \<Rightarrow> True | Some i \<Rightarrow> length (om_Annotations (ing_Meta i)) = 0)
      then Some ErrMissingAnnotations
      else if name = [] then Some ErrInvalidAnnotationName
      else None)"

definition GetAnnotationWithPrefix :: "string \<Rightarrow> string" where
  "GetAnnotationWithPrefix suf = AnnotationsPrefix @ ''/'' @ suf"

text \<open>\<open>ing.GetAnnotations()\<close>; on a nil ingress it is never called.\<close>

definition GetAnnotations :: "Ingress option \<Rightarrow> (string, string) gomap" where
  "GetAnnotations ing = (case ing of None \<Rightarrow> [] | Some i \<Rightarrow> om_Annotations (ing_Meta i))"

definition GetBoolAnnotation :: "string \<Rightarrow> Ingress option \<Rightarrow> ann_error + bool" where
  "GetBoolAnnotation name ing =
     (let v = GetAnnotationWithPrefix name in
      case checkAnnotation v ing of
        Some err \<Rightarrow> Inl err
      | None \<Rightarrow> parseBool (GetAnnotations ing) v)"

definition GetStringAnnotation :: "string \<Rightarrow> Ingress option \<Rightarrow> ann_error + string" where
  "GetStringAnnotation name ing =
     (let v = GetAnnotationWithPrefix name in
      case checkAnnotation v ing of
        Some err \<Rightarrow> Inl err
      | None \<Rightarrow> parseString (GetAnnotations ing) v)"

definition GetIntAnnotation :: "string \<Rightarrow> Ingress option \<Rightarrow> ann_error + int" where
  "GetIntAnnotation name ing =
     (let v = GetAnnotationWithPrefix name in
      case checkAnnotation v ing of
        Some err \<Rightarrow> Inl err
      | None \<Rightarrow> parseInt (GetAnnotations ing) v)"

fun collectPrefix ::
  "string \<Rightarrow> (string, string) gomap \<Rightarrow> (string, string) gomap \<Rightarrow> (string, string) gomap" where
  "collectPrefix v [] res = res"
| "collectPrefix v ((key, val) # anns) res =
     (if \<not> HasPrefix key v then collectPrefix v anns res
      else (let k = Replace key v [] 1 in
            collectPrefix v anns (if k \<noteq> [] then map_set k val res else res)))"

definition GetStringAnnotationWithPrefix ::
  "string \<Rightarrow> Ingress option \<Rightarrow> ann_error + (string, string) gomap" where
  "GetStringAnnotationWithPrefix pre ing =
     (let v = GetAnnotationWithPrefix pre in
      case checkAnnotation v ing of
        Some err \<Rightarrow> Inl err
      | None \<Rightarrow> Inr (collectPrefix v (GetAnnotations ing) []))"

section \<open>annotations/header and annotations/cookie\<close>

fun transform_items :: "string list \<Rightarrow> (string, string) gomap \<Rightarrow> (string, string) gomap" where
  "transform_items [] result = result"
| "transform_items (item # items) result =
     (case Split (CHR ''='') item of
        k # v # _ \<Rightarrow>
          if k = [] \<or> v = [] then transform_items items result
          else transform_items items (map_set k v result)
      | _ \<Rightarrow> transform_items items result)"

text \<open>The two packages have the same function; the result is nil when no item is valid.\<close>

definition header_transform :: "string \<Rightarrow> (string, string) gomap option" where
  "header_transform target =
     (let target = Replace target '' '' [] (-1);
          result = transform_items (Split (CHR '';'') target) []
      in if length result = 0 then None else Some result)"

definition cookie_transform :: "string \<Rightarrow> (string, string) gomap option" where
  "cookie_transform target =
     (let target = Replace target '' '' [] (-1);
          result = transform_items (Split (CHR '';'') target) []
      in if length result = 0 then None else Some result)"

record header_Config =
  hc_Header :: "(string, string) gomap option"

record cookie_Config =
  cc_Cookie :: "(string, string) gomap option"

definition header_Parse :: "Ingress option \<Rightarrow> ann_error + header_Config" where
  "header_Parse ing =
     (case GetStringAnnotation ''header'' ing of
        Inl err \<Rightarrow> Inl err
      | Inr hr \<Rightarrow> Inr \<lparr>hc_Header = header_transform hr\<rparr>)"

definition cookie_Parse :: "Ingress option \<Rightarrow> ann_error + cookie_Config" where
  "cookie_Parse ing =
     (case GetStringAnnotation ''cookie'' ing of
        Inl err \<Rightarrow> Inl err
      | Inr co \<Rightarrow> Inr \<lparr>cc_Cookie = cookie_transform co\<rparr>)"

section \<open>annotations/l4, lbtype, upstreamhashby, wight\<close>

record l4_Config =
  L4Enable :: bool
  L4Host :: string
  L4Port :: int

definition l4_Parse :: "Ingress option \<Rightarrow> ann_error + l4_Config" where
  "l4_Parse ing =
     (let l4Enable = value_or False (GetBoolAnnotation ''l4-enable'' ing);
          l4Host = value_or [] (GetStringAnnotation ''l4-host'' ing);
          l4Host = (if l4Host = [] then ''0.0.0.0'' else l4Host);
          l4Port = value_or 0 (GetIntAnnotation ''l4-port'' ing)
      in if l4Enable \<and> (l4Port \<le> 0 \<or> l4Port > 65535) then Inl (ErrorL4Port l4Port)
         else Inr \<lparr>L4Enable = l4Enable, L4Host = l4Host, L4Port = l4Port\<rparr>)"

definition lbtype_Parse :: "Ingress option \<Rightarrow> ann_error + string" where
  "lbtype_Parse ing = GetStringAnnotation ''lb-type'' ing"

definition upstreamhashby_Parse :: "Ingress option \<Rightarrow> ann_error + string" where
  "upstreamhashby_Parse ing = GetStringAnnotation ''upstream-hash-by'' ing"

record weight_Config =
  wc_Weight :: int

definition weight_Parse :: "Ingress option \<Rightarrow> ann_error + weight_Config" where
  "weight_Parse ing =
     (let w = (case GetStringAnnotation ''weight'' ing of
                 Inl _ \<Rightarrow> 1
               | Inr wstr \<Rightarrow>
                   if wstr = [] then 1
                   else (case Atoi wstr of None \<Rightarrow> 1 | Some w \<Rightarrow> w))
      in Inr \<lparr>wc_Weight = w\<rparr>)"

section \<open>annotations/proxy\<close>

fun setHeaders :: "(string, string) gomap \<Rightarrow> (string, string) gomap \<Rightarrow> (string, string) gomap" where
  "setHeaders [] res = res"
| "setHeaders ((k, v) # hs) res =
     setHeaders hs (map_set k (if v = ''empty'' then [] else v) res)"

fun copyHeaders :: "(string, string) gomap \<Rightarrow> (string, string) gomap \<Rightarrow> (string, string) gomap" where
  "copyHeaders [] res = res"
| "copyHeaders ((k, v) # hs) res = copyHeaders hs (map_set k v res)"

definition proxy_Parse :: "Backend \<Rightarrow> Ingress option \<Rightarrow> ann_error + proxy_Config" where
  "proxy_Parse def ing =
     Inr \<lparr>px_BodySize = value_or (be_ProxyBodySize def) (GetIntAnnotation ''proxy-body-size'' ing),
          px_ConnectTimeout =
            value_or (be_ProxyConnectTimeout def) (GetIntAnnotation ''proxy-connect-timeout'' ing),
          px_SendTimeout =
            value_or (be_ProxySendTimeout def) (GetIntAnnotation ''proxy-send-timeout'' ing),
          px_ReadTimeout =
            value_or (be_ProxyReadTimeout def) (GetIntAnnotation ''proxy-read-timeout'' ing),
          px_BuffersNumber =
            value_or (be_ProxyBuffersNumber def) (GetIntAnnotation ''proxy-buffers-number'' ing),
          px_BufferSize =
            value_or (be_ProxyBufferSize def) (GetStringAnnotation ''proxy-buffer-size'' ing),
          px_CookieDomain =
            value_or (be_ProxyCookieDomain def) (GetStringAnnotation ''proxy-cookie-domain'' ing),
          px_CookiePath =
            value_or (be_ProxyCookiePath def) (GetStringAnnotation ''proxy-cookie-path'' ing),
          px_NextUpstream =
            value_or (be_ProxyNextUpstream def) (GetStringAnnotation ''proxy-next-upstream'' ing),
          px_NextUpstreamTimeout =
            value_or (be_ProxyNextUpstreamTimeout def)
              (GetIntAnnotation ''proxy-next-upstream-timeout'' ing),
          px_NextUpstreamTries =
            value_or (be_ProxyNextUpstreamTries def)
              (GetIntAnnotation ''proxy-next-upstream-tries'' ing),
          px_ProxyRedirectFrom =
            value_or (be_ProxyRedirectFrom def) (GetStringAnnotation ''proxy-redirect-from'' ing),
          px_ProxyRedirectTo =
            value_or (be_ProxyRedirectTo def) (GetStringAnnotation ''proxy-redirect-to'' ing),
          px_RequestBuffering =
            value_or (be_ProxyRequestBuffering def)
              (GetStringAnnotation ''proxy-request-buffering'' ing),
          px_ProxyBuffering =
            value_or (be_ProxyBuffering def) (GetStringAnnotation ''proxy-buffering'' ing),
          px_SetHeaders =
            setHeaders (value_or [] (GetStringAnnotationWithPrefix ''set-header-'' ing))
              (copyHeaders (be_ProxySetHeaders def) [])\<rparr>"

section \<open>annotations/rewrite\<close>

definition map_Rewrite :: "(string, Rewrite) gomap \<Rightarrow> string \<Rightarrow> Rewrite" where
  "map_Rewrite m k = (case map_of m k of Some r \<Rightarrow> r | None \<Rightarrow> zero_Rewrite)"

definition setRewrite :: "string \<Rightarrow> string \<Rightarrow> Rewrite \<Rightarrow> Rewrite" where
  "setRewrite field v r =
     (if field = ''regex'' then r\<lparr>rw_Regex := v\<rparr>
      else if field = ''replacement'' then r\<lparr>rw_Replacement := v\<rparr>
      else if field = ''flag'' then r\<lparr>rw_Flag := v\<rparr>
      else r)"

fun convert_loop :: "(string, string) gomap \<Rightarrow> (string, Rewrite) gomap \<Rightarrow> (string, Rewrite) gomap" where
  "convert_loop [] m = m"
| "convert_loop ((k, v) # kvs) m =
     (case Split (CHR ''-'') k of
        a # b # _ \<Rightarrow> convert_loop kvs (map_set a (setRewrite b v (map_Rewrite m a)) m)
      | _ \<Rightarrow> convert_loop kvs m)"

definition convert ::
  "((string, Rewrite) gomap \<Rightarrow> (string, Rewrite) gomap) \<Rightarrow> (string, string) gomap \<Rightarrow> Rewrite list" where
  "convert rng inp = map snd (rng (convert_loop inp []))"

definition rewrite_Parse ::
  "((string, Rewrite) gomap \<Rightarrow> (string, Rewrite) gomap) \<Rightarrow> Backend \<Rightarrow> Ingress option \<Rightarrow>
   ann_error + rewrite_Config" where
  "rewrite_Parse rng def ing =
     Inr \<lparr>rc_Rewrites = convert rng (value_or [] (GetStringAnnotationWithPrefix ''rewrite-'' ing)),
          rc_Target = value_or [] (GetStringAnnotation ''rewrite-target'' ing),
          rc_SSLRedirect = value_or (be_SSLRedirect def) (GetBoolAnnotation ''ssl-redirect'' ing),
          rc_ForceSSLRedirect =
            value_or (be_ForceSSLRedirect def) (GetBoolAnnotation ''force-ssl-redirect'' ing),
          rc_AppRoot = value_or [] (GetStringAnnotation ''app-root'' ing),
          rc_UseRegex = value_or False (GetBoolAnnotation ''use-regex'' ing)\<rparr>"

section \<open>annotations: the extractor\<close>

record ann_Ingress =
  an_Meta :: ObjectMeta
  an_Header :: header_Config
  an_Cookie :: cookie_Config
  an_Weight :: weight_Config
  an_Rewrite :: rewrite_Config
  an_L4 :: l4_Config
  an_UpstreamHashBy :: string
  an_LoadBalancingType :: string
  an_Proxy :: proxy_Config

datatype ann_value =
    VHeader header_Config
  | VCookie cookie_Config
  | VWeight weight_Config
  | VRewrite rewrite_Config
  | VL4 l4_Config
  | VString string
  | VProxy proxy_Config
  | VError ann_error

definition zero_l4 :: l4_Config where
  "zero_l4 = \<lparr>L4Enable = False, L4Host = [], L4Port = 0\<rparr>"

definition empty_ann :: "ObjectMeta \<Rightarrow> ann_Ingress" where
  "empty_ann meta =
     \<lparr>an_Meta = meta, an_Header = \<lparr>hc_Header = None\<rparr>, an_Cookie = \<lparr>cc_Cookie = None\<rparr>,
      an_Weight = \<lparr>wc_Weight = 0\<rparr>, an_Rewrite = zero_rewrite, an_L4 = zero_l4,
      an_UpstreamHashBy = [], an_LoadBalancingType = [], an_Proxy = zero_proxy\<rparr>"

definition map_sum_val :: "('a \<Rightarrow> ann_value) \<Rightarrow> ann_error + 'a \<Rightarrow> ann_error + ann_value" where
  "map_sum_val f r = (case r of Inl e \<Rightarrow> Inl e | Inr v \<Rightarrow> Inr (f v))"

text \<open>\<open>NewAnnotationExtractor\<close>: the parsers by name, applied to the ingress.\<close>

definition parsers ::
  "((string, Rewrite) gomap \<Rightarrow> (string, Rewrite) gomap) \<Rightarrow> Backend \<Rightarrow> Ingress \<Rightarrow>
   (string, ann_error + ann_value) gomap" where
  "parsers rng def ing =
     [(''Header'', map_sum_val VHeader (header_Parse (Some ing))),
      (''Cookie'', map_sum_val VCookie (cookie_Parse (Some ing))),
      (''Weight'', map_sum_val VWeight (weight_Parse (Some ing))),
      (''Rewrite'', map_sum_val VRewrite (rewrite_Parse rng def (Some ing))),
      (''L4'', map_sum_val VL4 (l4_Parse (Some ing))),
      (''UpstreamHashBy'', map_sum_val VString (upstreamhashby_Parse (Some ing))),
      (''LoadBalancingType'', map_sum_val VString (lbtype_Parse (Some ing))),
      (''Proxy'', map_sum_val VProxy (proxy_Parse def (Some ing)))]"

fun extract_loop ::
  "(string, ann_error + ann_value) gomap \<Rightarrow> (string, ann_value) gomap \<Rightarrow> (string, ann_value) gomap" where
  "extract_loop [] data = data"
| "extract_loop ((name, r) # ps) data =
     (case r of
        Inl err \<Rightarrow>
          if IsMissingAnnotations err then extract_loop ps data
          else if \<not> IsLocationDenied err then extract_loop ps data
          else if map_of data ''Denied'' = None then extract_loop ps (map_set ''Denied'' (VError err) data)
          else extract_loop ps data
      | Inr val \<Rightarrow> extract_loop ps (map_set name val data))"

definition Extract ::
  "(ann_Ingress \<Rightarrow> (string, ann_value) gomap \<Rightarrow> ann_Ingress) \<Rightarrow>
   ((string, ann_error + ann_value) gomap \<Rightarrow> (string, ann_error + ann_value) gomap) \<Rightarrow>
   ((string, Rewrite) gomap \<Rightarrow> (string, Rewrite) gomap) \<Rightarrow> Backend \<Rightarrow> Ingress \<Rightarrow> ann_Ingress" where
  "Extract MapWithOverwrite prng rng def ing =
     MapWithOverwrite (empty_ann (ing_Meta ing)) (extract_loop (prng (parsers rng def ing)) [])"


section \<open>Reading annotations\<close>

lemma GetAnnotationWithPrefix_inject [simp]:
  "GetAnnotationWithPrefix a = GetAnnotationWithPrefix b \<longleftrightarrow> a = b"
  by (simp add: GetAnnotationWithPrefix_def)

lemma GetAnnotationWithPrefix_nonempty [simp]: "GetAnnotationWithPrefix a \<noteq> []"
  by (simp add: GetAnnotationWithPrefix_def AnnotationsPrefix_def)

text \<open>The value of an annotation of an ingress, by its name without the prefix.\<close>

definition ann :: "Ingress \<Rightarrow> string \<Rightarrow> string option" where
  "ann ing name = map_of (om_Annotations (ing_Meta ing)) (GetAnnotationWithPrefix name)"

lemma GetStringAnnotation_ann:
  "GetStringAnnotation name (Some ing) =
     (case ann ing name of None \<Rightarrow> Inl ErrMissingAnnotations | Some v \<Rightarrow> Inr v)"
  by (auto simp: GetStringAnnotation_def ann_def checkAnnotation_def parseString_def GetAnnotations_def
      Let_def split: option.splits)

lemma GetIntAnnotation_ann:
  "GetIntAnnotation name (Some ing) =
     (case ann ing name of None \<Rightarrow> Inl ErrMissingAnnotations
      | Some v \<Rightarrow> (case Atoi v of None \<Rightarrow> Inl (InvalidContent (GetAnnotationWithPrefix name) v)
                    | Some i \<Rightarrow> Inr i))"
  by (auto simp: GetIntAnnotation_def ann_def checkAnnotation_def parseInt_def GetAnnotations_def
      Let_def split: option.splits)

lemma GetBoolAnnotation_ann:
  "GetBoolAnnotation name (Some ing) =
     (case ann ing name of None \<Rightarrow> Inl ErrMissingAnnotations
      | Some v \<Rightarrow> (case ParseBool v of None \<Rightarrow> Inl (InvalidContent (GetAnnotationWithPrefix name) v)
                    | Some b \<Rightarrow> Inr b))"
  by (auto simp: GetBoolAnnotation_def ann_def checkAnnotation_def parseBool_def GetAnnotations_def
      Let_def split: option.splits)

lemmas get_ann = GetStringAnnotation_ann GetIntAnnotation_ann GetBoolAnnotation_ann

lemma collectPrefix_spec:
  assumes "wf_map anns" "v \<noteq> []" "\<And>k. k \<noteq> [] \<Longrightarrow> map_of res k \<noteq> None \<Longrightarrow> map_of anns (v @ k) = None"
  shows "map_of (collectPrefix v anns res) k =
    (if k = [] then map_of res [] else case map_of anns (v @ k) of Some x \<Rightarrow> Some x | None \<Rightarrow> map_of res k)"
  using assms
proof (induction anns arbitrary: res)
  case Nil
  then show ?case by (cases "k = []") auto
next
  case (Cons kv anns)
  obtain key val where kv: "kv = (key, val)" by (cases kv)
  from Cons.prems(1) have fresh: "map_of anns key = None" and wf: "wf_map anns"
    by (simp_all add: kv wf_map_Cons)
  show ?case
  proof (cases "prefix v key")
    case True
    then obtain k0 where k0: "key = v @ k0" by (auto simp: prefix_def)
    with Cons.prems(2) have rep: "Replace key v [] 1 = k0"
      by (simp add: Replace_first_prefix)
    define res' where "res' = (if k0 \<noteq> [] then map_set k0 val res else res)"
    have inv: "map_of anns (v @ j) = None" if "j \<noteq> []" "map_of res' j \<noteq> None" for j
      using Cons.prems(3) [of j] that fresh by (auto simp: res'_def kv k0 split: if_splits)
    have "map_of (collectPrefix v (kv # anns) res) k = map_of (collectPrefix v anns res') k"
      using True rep by (simp add: kv res'_def)
    also have "\<dots> = (if k = [] then map_of res' []
        else case map_of anns (v @ k) of Some x \<Rightarrow> Some x | None \<Rightarrow> map_of res' k)"
      by (rule Cons.IH [OF wf Cons.prems(2) inv])
    finally show ?thesis
      using fresh by (auto simp: res'_def kv k0 split: option.splits)
  next
    case False
    have inv: "map_of anns (v @ j) = None" if "j \<noteq> []" "map_of res j \<noteq> None" for j
      using Cons.prems(3) [of j] that by (auto simp: kv split: if_splits)
    have "v @ k \<noteq> key" using False by auto
    with Cons.IH [OF wf Cons.prems(2) inv] False show ?thesis
      by (simp add: kv)
  qed
qed

lemma GetStringAnnotationWithPrefix_spec:
  assumes "wf_map (om_Annotations (ing_Meta ing))" "k \<noteq> []"
  shows "map_of (value_or [] (GetStringAnnotationWithPrefix pre (Some ing))) k = ann ing (pre @ k)"
proof -
  let ?v = "GetAnnotationWithPrefix pre" and ?m = "om_Annotations (ing_Meta ing)"
  have v: "?v @ k = GetAnnotationWithPrefix (pre @ k)"
    by (simp add: GetAnnotationWithPrefix_def)
  have "map_of (collectPrefix ?v ?m []) k = map_of ?m (?v @ k)"
    using assms collectPrefix_spec [of ?m ?v "[]" k] by (simp split: option.splits)
  moreover have "value_or [] (GetStringAnnotationWithPrefix pre (Some ing)) = collectPrefix ?v ?m []"
    by (simp add: GetStringAnnotationWithPrefix_def checkAnnotation_def value_or_def GetAnnotations_def Let_def)
  ultimately show ?thesis by (simp add: v ann_def)
qed

lemma wf_collectPrefix [go_map]: "wf_map res \<Longrightarrow> wf_map (collectPrefix v anns res)"
  by (induction v anns res rule: collectPrefix.induct) (auto simp: Let_def)

lemma collectPrefix_no_empty: "map_of res [] = None \<Longrightarrow> map_of (collectPrefix v anns res) [] = None"
  by (induction v anns res rule: collectPrefix.induct) (auto simp: Let_def)

lemma wf_GetStringAnnotationWithPrefix [go_map]:
  "wf_map (value_or [] (GetStringAnnotationWithPrefix pre ing))"
  by (auto simp: GetStringAnnotationWithPrefix_def value_or_def Let_def wf_collectPrefix split: option.splits)

section \<open>Header and cookie conditions\<close>

definition clean :: "string \<Rightarrow> bool" where
  "clean s \<longleftrightarrow> s \<noteq> [] \<and> CHR '' '' \<notin> set s \<and> CHR '';'' \<notin> set s \<and> CHR ''='' \<notin> set s"

definition cleans :: "(string, string) gomap \<Rightarrow> bool" where
  "cleans m \<longleftrightarrow> (\<forall>(k, v) \<in> set m. clean k \<and> clean v)"

definition render :: "(string, string) gomap \<Rightarrow> string" where
  "render kvs = Join (map (\<lambda>(k, v). k @ ''='' @ v) kvs) '';''"

lemma update_fresh: "map_of m k = None \<Longrightarrow> map_set k v m = m @ [(k, v)]"
  by (induction m) (auto split: if_splits)

lemma set_map_set: "set (map_set k v m) \<subseteq> insert (k, v) (set m)"
  by (induction m) auto

lemma transform_items_inv:
  assumes "\<forall>i \<in> set items. CHR '' '' \<notin> set i \<and> CHR '';'' \<notin> set i" "wf_map res" "cleans res"
  shows "wf_map (transform_items items res) \<and> cleans (transform_items items res)"
  using assms
proof (induction items res rule: transform_items.induct)
  case (2 item items res)
  show ?case
  proof (cases "\<exists>k v rest. Split (CHR ''='') item = k # v # rest \<and> k \<noteq> [] \<and> v \<noteq> []")
    case True
    then obtain k v rest where s: "Split (CHR ''='') item = k # v # rest" "k \<noteq> []" "v \<noteq> []" by blast
    then have "set k \<subseteq> set item - {CHR ''=''}" "set v \<subseteq> set item - {CHR ''=''}"
      by (metis list.set_intros(1,2) set_Split)+
    then have "clean k" "clean v" using s "2.prems"(1) by (auto simp: clean_def)
    then have "cleans (map_set k v res)"
      using "2.prems"(3) \<open>clean k\<close> \<open>clean v\<close> set_map_set [of k v res] by (auto simp: cleans_def)
    with 2 s show ?thesis by auto
  next
    case False
    with 2 show ?thesis by (auto split: list.splits)
  qed
qed simp

lemma Split_strip: "\<forall>i \<in> set (Split c (Replace s '' '' [] (-1))). CHR '' '' \<notin> set i \<and> c \<notin> set i"
proof
  fix i assume "i \<in> set (Split c (Replace s '' '' [] (-1)))"
  then have "set i \<subseteq> set (Replace s '' '' [] (-1)) - {c}" by (rule set_Split)
  moreover have "CHR '' '' \<notin> set (Replace s '' '' [] (-1))" by (auto simp: Replace_char)
  ultimately show "CHR '' '' \<notin> set i \<and> c \<notin> set i" by auto
qed

lemma header_transform_Some:
  assumes "header_transform s = Some m"
  shows "m \<noteq> [] \<and> wf_map m \<and> cleans m"
proof -
  have "wf_map (transform_items (Split (CHR '';'') (Replace s '' '' [] (-1))) []) \<and>
      cleans (transform_items (Split (CHR '';'') (Replace s '' '' [] (-1))) [])"
    by (rule transform_items_inv) (use Split_strip in \<open>auto simp: cleans_def\<close>)
  with assms show ?thesis by (auto simp: header_transform_def Let_def split: if_splits)
qed

lemma transform_items_render:
  assumes "wf_map (res @ kvs)" "cleans kvs"
  shows "transform_items (map (\<lambda>(k, v). k @ ''='' @ v) kvs) res = res @ kvs"
  using assms
proof (induction kvs arbitrary: res)
  case (Cons kv kvs)
  obtain k v where kv: "kv = (k, v)" by (cases kv)
  with Cons.prems have c: "clean k" "clean v" "map_of res k = None" "cleans kvs"
    by (auto simp: cleans_def wf_map_def map_of_eq_None_iff)
  then have "Split (CHR ''='') (k @ ''='' @ v) = [k, v]"
    by (simp add: clean_def Split_append Split_no_sep)
  moreover have "transform_items (map (\<lambda>(k, v). k @ ''='' @ v) kvs) (res @ [(k, v)]) = (res @ [(k, v)]) @ kvs"
    using Cons.prems c kv by (intro Cons.IH) simp_all
  ultimately show ?case using c kv by (simp add: clean_def update_fresh)
qed simp

lemma header_transform_render:
  assumes "kvs \<noteq> []" "wf_map kvs" "cleans kvs"
  shows "header_transform (render kvs) = Some kvs"
proof -
  have items: "CHR '';'' \<notin> set x \<and> CHR '' '' \<notin> set x" if "x \<in> set (map (\<lambda>(k, v). k @ ''='' @ v) kvs)" for x
    using that assms(3) by (auto simp: cleans_def clean_def)
  then have sp: "Split (CHR '';'') (render kvs) = map (\<lambda>(k, v). k @ ''='' @ v) kvs"
    unfolding render_def using assms(1) by (intro Split_Join) auto
  have "CHR '' '' \<notin> set (render kvs)"
  proof -
    have "CHR '' '' \<notin> set (Join xs '';'')" if "\<forall>x \<in> set xs. CHR '' '' \<notin> set x" for xs :: "string list"
      using that by (induction xs "'';''" rule: Join.induct) auto
    with items show ?thesis by (auto simp: render_def)
  qed
  then have "Replace (render kvs) '' '' [] (-1) = render kvs" by (simp add: Replace_absent)
  with sp transform_items_render [of "[]" kvs] assms show ?thesis
    by (simp add: header_transform_def)
qed


section \<open>Proxy headers\<close>

lemma map_of_setHeaders:
  assumes "wf_map hs"
  shows "map_of (setHeaders hs res) k =
    (case map_of hs k of Some v \<Rightarrow> Some (if v = ''empty'' then [] else v) | None \<Rightarrow> map_of res k)"
  using assms
proof (induction hs res rule: setHeaders.induct)
  case (2 j v hs res)
  then show ?case by (auto simp: wf_map_Cons split: option.splits)
qed simp

lemma map_of_copyHeaders:
  assumes "wf_map hs"
  shows "map_of (copyHeaders hs res) k = (case map_of hs k of Some v \<Rightarrow> Some v | None \<Rightarrow> map_of res k)"
  using assms
proof (induction hs res rule: copyHeaders.induct)
  case (2 j v hs res)
  then show ?case by (auto simp: wf_map_Cons split: option.splits)
qed simp

lemma wf_setHeaders [go_map]: "wf_map res \<Longrightarrow> wf_map (setHeaders hs res)"
  by (induction hs res rule: setHeaders.induct) auto

lemma wf_copyHeaders [go_map]: "wf_map res \<Longrightarrow> wf_map (copyHeaders hs res)"
  by (induction hs res rule: copyHeaders.induct) auto

lemma proxy_Parse_wf: "proxy_Parse def ing = Inr p \<Longrightarrow> wf_proxy p"
  by (auto simp: proxy_Parse_def wf_proxy_def wf_setHeaders wf_copyHeaders)

section \<open>Rewrite rules\<close>

text \<open>The entries of a rewrite map by the first two parts of their key.\<close>

fun rewrite_key :: "string \<Rightarrow> (string \<times> string) option" where
  "rewrite_key k = (case Split (CHR ''-'') k of a # b # _ \<Rightarrow> Some (a, b) | _ \<Rightarrow> None)"

declare rewrite_key.simps [simp del]

definition rewrite_val :: "(string, string) gomap \<Rightarrow> string \<Rightarrow> string \<Rightarrow> string" where
  "rewrite_val kvs a field =
     (case find (\<lambda>(k, v). rewrite_key k = Some (a, field)) kvs of Some (k, v) \<Rightarrow> v | None \<Rightarrow> [])"

definition rewrite_of :: "(string, string) gomap \<Rightarrow> string \<Rightarrow> Rewrite" where
  "rewrite_of kvs a = \<lparr>rw_Regex = rewrite_val kvs a ''regex'', rw_Replacement = rewrite_val kvs a ''replacement'',
     rw_Flag = rewrite_val kvs a ''flag''\<rparr>"

text \<open>No two keys of the map have the same first two parts.\<close>

definition unambiguous :: "(string, string) gomap \<Rightarrow> bool" where
  "unambiguous kvs \<longleftrightarrow> wf_map kvs \<and>
     (\<forall>k v k' v' p. (k, v) \<in> set kvs \<longrightarrow> (k', v') \<in> set kvs \<longrightarrow>
        rewrite_key k = Some p \<longrightarrow> rewrite_key k' = Some p \<longrightarrow> k = k')"

lemma convert_loop_Cons:
  "convert_loop ((k, v) # kvs) m =
     (case rewrite_key k of
        Some (a, b) \<Rightarrow> convert_loop kvs (map_set a (setRewrite b v (map_Rewrite m a)) m)
      | None \<Rightarrow> convert_loop kvs m)"
  by (auto simp: rewrite_key.simps split: list.splits)

lemma unambiguous_ConsD:
  assumes "unambiguous ((k, v) # kvs)"
  shows "unambiguous kvs"
    and "\<And>k' v'. rewrite_key k = Some p \<Longrightarrow> (k', v') \<in> set kvs \<Longrightarrow> rewrite_key k' \<noteq> Some p"
proof -
  show "unambiguous kvs" using assms by (auto simp: unambiguous_def wf_map_def)
  fix k' v' assume a: "rewrite_key k = Some p" "(k', v') \<in> set kvs"
  show "rewrite_key k' \<noteq> Some p"
  proof
    assume "rewrite_key k' = Some p"
    with a assms have "k' = k" unfolding unambiguous_def by (meson list.set_intros)
    with a assms show False by (auto simp: unambiguous_def wf_map_def image_iff)
  qed
qed

definition pick :: "(string, string) gomap \<Rightarrow> string \<Rightarrow> string \<Rightarrow> string \<Rightarrow> string" where
  "pick kvs a f old = (case find (\<lambda>(k, v). rewrite_key k = Some (a, f)) kvs of Some (k, v) \<Rightarrow> v | None \<Rightarrow> old)"

definition overlay :: "(string, string) gomap \<Rightarrow> string \<Rightarrow> Rewrite \<Rightarrow> Rewrite" where
  "overlay kvs a r =
     \<lparr>rw_Regex = pick kvs a ''regex'' (rw_Regex r), rw_Replacement = pick kvs a ''replacement'' (rw_Replacement r),
      rw_Flag = pick kvs a ''flag'' (rw_Flag r)\<rparr>"

lemma overlay_Nil [simp]: "overlay [] a r = r"
  by (simp add: overlay_def pick_def)

lemma overlay_zero: "overlay kvs a zero_Rewrite = rewrite_of kvs a"
  by (simp add: overlay_def pick_def rewrite_of_def rewrite_val_def zero_Rewrite_def)

lemma pick_Cons: "rewrite_key k = Some (a, b) \<Longrightarrow> pick ((k, v) # kvs) a f old = (if f = b then v else pick kvs a f old)"
  by (simp add: pick_def)

lemma pick_fresh:
  assumes "\<And>k' v'. (k', v') \<in> set kvs \<Longrightarrow> rewrite_key k' \<noteq> Some (a, b)"
  shows "pick kvs a b old = old"
proof -
  have "find (\<lambda>(k, v). rewrite_key k = Some (a, b)) kvs = None"
    using assms by (force simp: find_None_iff)
  then show ?thesis by (simp add: pick_def)
qed

lemma overlay_Cons:
  assumes "rewrite_key k = Some (a, b)" "\<And>k' v'. (k', v') \<in> set kvs \<Longrightarrow> rewrite_key k' \<noteq> Some (a, b)"
  shows "overlay ((k, v) # kvs) a r = overlay kvs a (setRewrite b v r)"
proof -
  have f: "pick kvs a b old = old" for old using assms(2) by (rule pick_fresh)
  note c = pick_Cons [OF assms(1)]
  consider "b = ''regex''" | "b = ''replacement''" | "b = ''flag''"
    | "b \<notin> {''regex'', ''replacement'', ''flag''}" by blast
  then show ?thesis
    by cases (use f in \<open>auto simp: overlay_def c setRewrite_def\<close>)
qed

lemma overlay_Cons_other:
  "(\<And>b. rewrite_key k \<noteq> Some (a, b)) \<Longrightarrow> overlay ((k, v) # kvs) a r = overlay kvs a r"
  by (simp add: overlay_def pick_def)

lemma convert_loop_spec:
  assumes "unambiguous kvs"
  shows "map_of (convert_loop kvs m) a =
    (if map_of m a \<noteq> None \<or> (\<exists>k v b. (k, v) \<in> set kvs \<and> rewrite_key k = Some (a, b))
     then Some (overlay kvs a (map_Rewrite m a)) else None)"
  using assms
proof (induction kvs arbitrary: m)
  case Nil
  then show ?case by (auto simp: map_Rewrite_def)
next
  case (Cons kv kvs)
  obtain k v where kv: "kv = (k, v)" by (cases kv)
  note u = unambiguous_ConsD [OF Cons.prems [unfolded kv]]
  show ?case
  proof (cases "rewrite_key k")
    case None
    then have "overlay (kv # kvs) a (map_Rewrite m a) = overlay kvs a (map_Rewrite m a)"
      by (simp add: kv overlay_Cons_other)
    with None Cons.IH [OF u(1), of m] show ?thesis
      by (auto simp del: convert_loop.simps simp: kv convert_loop_Cons)
  next
    case (Some ab)
    obtain c b where ab: "ab = (c, b)" by (cases ab)
    let ?m = "map_set c (setRewrite b v (map_Rewrite m c)) m"
    have IH: "map_of (convert_loop kvs ?m) a =
      (if map_of ?m a \<noteq> None \<or> (\<exists>k v b. (k, v) \<in> set kvs \<and> rewrite_key k = Some (a, b))
       then Some (overlay kvs a (map_Rewrite ?m a)) else None)"
      by (rule Cons.IH [OF u(1)])
    show ?thesis
    proof (cases "c = a")
      case True
      have "overlay (kv # kvs) a (map_Rewrite m a) = overlay kvs a (map_Rewrite ?m a)"
        using overlay_Cons [of k a b kvs v] u(2) Some ab True by (simp add: kv map_Rewrite_def)
      with IH Some ab True show ?thesis
        by (auto simp del: convert_loop.simps simp: kv convert_loop_Cons)
    next
      case False
      then have "overlay (kv # kvs) a (map_Rewrite m a) = overlay kvs a (map_Rewrite ?m a)"
        using overlay_Cons_other [of k a v kvs] Some ab by (simp add: kv map_Rewrite_def)
      with IH Some ab False show ?thesis
        by (auto simp del: convert_loop.simps simp: kv convert_loop_Cons)
    qed
  qed
qed

lemma wf_convert_loop [go_map]: "wf_map m \<Longrightarrow> wf_map (convert_loop kvs m)"
  by (induction kvs m rule: convert_loop.induct) (auto split: list.splits)

lemma set_convert:
  assumes "is_range rng" "unambiguous kvs"
  shows "set (convert rng kvs) = {rewrite_of kvs a | a. \<exists>k v b. (k, v) \<in> set kvs \<and> rewrite_key k = Some (a, b)}"
proof -
  have wf: "wf_map (convert_loop kvs [])" by (rule wf_convert_loop) simp
  have "set (convert rng kvs) = snd ` set (convert_loop kvs [])"
    by (simp add: convert_def is_range_set [OF assms(1)])
  also have "\<dots> = {r. \<exists>a. map_of (convert_loop kvs []) a = Some r}"
    using in_wf_map [OF wf] by force
  finally show ?thesis
    using convert_loop_spec [OF assms(2), of "[]"] by (auto simp: map_Rewrite_def overlay_zero)
qed

section \<open>The extractor\<close>

text \<open>The contract the extractor relies on: no parser denies a location.\<close>

locale annotation_parser =
  fixes Parse :: "Ingress option \<Rightarrow> ann_error + 'a"
  assumes not_denied: "Parse ing = Inl e \<Longrightarrow> \<not> IsLocationDenied e"
begin

lemma wrapped_not_denied: "map_sum_val f (Parse ing) = Inl e \<Longrightarrow> \<not> IsLocationDenied e"
  by (auto simp: map_sum_val_def not_denied split: sum.splits)

end

interpretation header_p: annotation_parser header_Parse
  by unfold_locales
    (auto simp: header_Parse_def GetStringAnnotation_def checkAnnotation_def parseString_def Let_def
      split: sum.splits option.splits if_splits)

interpretation cookie_p: annotation_parser cookie_Parse
  by unfold_locales
    (auto simp: cookie_Parse_def GetStringAnnotation_def checkAnnotation_def parseString_def Let_def
      split: sum.splits option.splits if_splits)

interpretation weight_p: annotation_parser weight_Parse
  by unfold_locales (simp add: weight_Parse_def)

interpretation rewrite_p: annotation_parser "rewrite_Parse rng def" for rng def
  by unfold_locales (simp add: rewrite_Parse_def)

interpretation l4_p: annotation_parser l4_Parse
  by unfold_locales (auto simp: l4_Parse_def Let_def split: if_splits)

interpretation hashby_p: annotation_parser upstreamhashby_Parse
  by unfold_locales
    (auto simp: upstreamhashby_Parse_def GetStringAnnotation_def checkAnnotation_def parseString_def Let_def
      split: sum.splits option.splits if_splits)

interpretation lbtype_p: annotation_parser lbtype_Parse
  by unfold_locales
    (auto simp: lbtype_Parse_def GetStringAnnotation_def checkAnnotation_def parseString_def Let_def
      split: sum.splits option.splits if_splits)

interpretation proxy_p: annotation_parser "proxy_Parse def" for "def"
  by unfold_locales (simp add: proxy_Parse_def)

lemma parsers_not_denied:
  "(name, Inl e) \<in> set (parsers rng def ing) \<Longrightarrow> \<not> IsLocationDenied e"
  unfolding parsers_def
  by (auto dest: header_p.wrapped_not_denied [OF sym] cookie_p.wrapped_not_denied [OF sym]
      weight_p.wrapped_not_denied [OF sym] rewrite_p.wrapped_not_denied [OF sym]
      l4_p.wrapped_not_denied [OF sym] hashby_p.wrapped_not_denied [OF sym]
      lbtype_p.wrapped_not_denied [OF sym] proxy_p.wrapped_not_denied [OF sym])

lemma extract_loop_spec:
  assumes "wf_map ps" "\<And>name e. (name, Inl e) \<in> set ps \<Longrightarrow> \<not> IsLocationDenied e"
  shows "map_of (extract_loop ps data) name =
    (case map_of ps name of Some (Inr v) \<Rightarrow> Some v | _ \<Rightarrow> map_of data name)"
  using assms
proof (induction ps data rule: extract_loop.induct)
  case (2 n r ps data)
  have wf: "map_of ps n = None" "wf_map ps" using "2.prems"(1) by (simp_all add: wf_map_Cons)
  show ?case
  proof (cases r)
    case (Inl e)
    then have "\<not> IsLocationDenied e" using "2.prems"(2) by auto
    then have "extract_loop ((n, r) # ps) data = extract_loop ps data"
      and "map_of (extract_loop ps data) name =
        (case map_of ps name of Some (Inr v) \<Rightarrow> Some v | _ \<Rightarrow> map_of data name)"
      using Inl "2.IH"(1,2) wf "2.prems"(2) by (auto split: if_splits)
    with Inl wf show ?thesis by auto
  next
    case (Inr v)
    then have "map_of (extract_loop ps (map_set n v data)) name =
        (case map_of ps name of Some (Inr v) \<Rightarrow> Some v | _ \<Rightarrow> map_of (map_set n v data) name)"
      using "2.IH"(5) wf "2.prems"(2) by auto
    with Inr wf show ?thesis by (auto split: option.splits sum.splits)
  qed
qed simp

text \<open>
  What the extractor relies on of \<open>mergo.MapWithOverwrite\<close>: into a struct whose fields are zero,
  every entry of the map is written to the field of that name, and the other fields keep their
  value.
\<close>

definition merge_ok :: "(ann_Ingress \<Rightarrow> (string, ann_value) gomap \<Rightarrow> ann_Ingress) \<Rightarrow> bool" where
  "merge_ok merge \<longleftrightarrow> (\<forall>meta d. wf_map d \<longrightarrow>
     merge (empty_ann meta) d =
       \<lparr>an_Meta = meta,
        an_Header = (case map_of d ''Header'' of Some (VHeader c) \<Rightarrow> c | _ \<Rightarrow> an_Header (empty_ann meta)),
        an_Cookie = (case map_of d ''Cookie'' of Some (VCookie c) \<Rightarrow> c | _ \<Rightarrow> an_Cookie (empty_ann meta)),
        an_Weight = (case map_of d ''Weight'' of Some (VWeight c) \<Rightarrow> c | _ \<Rightarrow> an_Weight (empty_ann meta)),
        an_Rewrite = (case map_of d ''Rewrite'' of Some (VRewrite c) \<Rightarrow> c | _ \<Rightarrow> an_Rewrite (empty_ann meta)),
        an_L4 = (case map_of d ''L4'' of Some (VL4 c) \<Rightarrow> c | _ \<Rightarrow> an_L4 (empty_ann meta)),
        an_UpstreamHashBy =
          (case map_of d ''UpstreamHashBy'' of Some (VString c) \<Rightarrow> c | _ \<Rightarrow> an_UpstreamHashBy (empty_ann meta)),
        an_LoadBalancingType =
          (case map_of d ''LoadBalancingType'' of Some (VString c) \<Rightarrow> c | _ \<Rightarrow> an_LoadBalancingType (empty_ann meta)),
        an_Proxy = (case map_of d ''Proxy'' of Some (VProxy c) \<Rightarrow> c | _ \<Rightarrow> an_Proxy (empty_ann meta))\<rparr>)"

lemma wf_extract_loop [go_map]: "wf_map data \<Longrightarrow> wf_map (extract_loop ps data)"
  by (induction ps data rule: extract_loop.induct) (auto split: sum.splits)

lemma wf_parsers: "wf_map (parsers rng def ing)"
  by (simp add: wf_map_def parsers_def)

lemma Extract_data:
  assumes "is_range prng"
  shows "map_of (extract_loop (prng (parsers rng def ing)) []) name =
    (case map_of (parsers rng def ing) name of Some (Inr v) \<Rightarrow> Some v | _ \<Rightarrow> None)"
proof -
  have "\<not> IsLocationDenied e" if "(n, Inl e) \<in> set (prng (parsers rng def ing))" for n e
    using that parsers_not_denied is_range_set [OF assms] by metis
  then show ?thesis
    using extract_loop_spec [of "prng (parsers rng def ing)" "[]" name]
      is_range_wf [OF assms wf_parsers] is_range_map_of [OF assms wf_parsers]
    by (simp split: option.splits sum.splits)
qed

lemma Extract_spec:
  assumes "merge_ok merge" "is_range prng"
  shows "Extract merge prng rng def ing =
    \<lparr>an_Meta = ing_Meta ing,
     an_Header = value_or \<lparr>hc_Header = None\<rparr> (header_Parse (Some ing)),
     an_Cookie = value_or \<lparr>cc_Cookie = None\<rparr> (cookie_Parse (Some ing)),
     an_Weight = value_or \<lparr>wc_Weight = 0\<rparr> (weight_Parse (Some ing)),
     an_Rewrite = value_or zero_rewrite (rewrite_Parse rng def (Some ing)),
     an_L4 = value_or zero_l4 (l4_Parse (Some ing)),
     an_UpstreamHashBy = value_or [] (upstreamhashby_Parse (Some ing)),
     an_LoadBalancingType = value_or [] (lbtype_Parse (Some ing)),
     an_Proxy = value_or zero_proxy (proxy_Parse def (Some ing))\<rparr>"
proof -
  have w: "wf_map (extract_loop (prng (parsers rng def ing)) [])" by (simp add: wf_extract_loop)
  note m = assms(1) [unfolded merge_ok_def, rule_format, OF w, of "ing_Meta ing"]
  show ?thesis
    unfolding Extract_def m Extract_data [OF assms(2)]
    by (simp add: parsers_def map_sum_val_def value_or_def empty_ann_def split: sum.splits)
qed

end
