(* ===== verification/GoNet.thy ===== *)
theory GoNet
  imports GoBase
begin

text \<open>
  The part of Go's package \<open>net\<close> that the gateway uses: \<open>ParseIP\<close> with the dotted-decimal and the
  colon forms, and the equality of addresses, for which an IPv4 address and the IPv6 address that
  embeds it are the same.
\<close>

type_synonym IP = "nat list"

definition hex_val :: "char \<Rightarrow> nat option" where
  "hex_val c =
     (let n = of_char c :: nat in
      if 48 \<le> n \<and> n \<le> 57 then Some (n - 48)
      else if 97 \<le> n \<and> n \<le> 102 then Some (n - 97 + 10)
      else if 65 \<le> n \<and> n \<le> 70 then Some (n - 65 + 10)
      else None)"

fun dtoi_loop :: "nat \<Rightarrow> string \<Rightarrow> (nat \<times> string) option" where
  "dtoi_loop n [] = Some (n, [])"
| "dtoi_loop n (c # cs) =
     (if is_digit c
      then (let n' = n * 10 + ((of_char c :: nat) - 48) in
            if n' \<ge> 16777215 then None else dtoi_loop n' cs)
      else Some (n, c # cs))"

definition dtoi :: "string \<Rightarrow> (nat \<times> string) option" where
  "dtoi s = (case s of [] \<Rightarrow> None | c # _ \<Rightarrow> if is_digit c then dtoi_loop 0 s else None)"

fun xtoi_loop :: "nat \<Rightarrow> string \<Rightarrow> (nat \<times> string) option" where
  "xtoi_loop n [] = Some (n, [])"
| "xtoi_loop n (c # cs) =
     (case hex_val c of
        Some d \<Rightarrow> if n * 16 + d \<ge> 16777215 then None else xtoi_loop (n * 16 + d) cs
      | None \<Rightarrow> Some (n, c # cs))"

definition xtoi :: "string \<Rightarrow> (nat \<times> string) option" where
  "xtoi s = (case s of [] \<Rightarrow> None | c # _ \<Rightarrow> if hex_val c \<noteq> None then xtoi_loop 0 s else None)"

fun octets :: "nat \<Rightarrow> string \<Rightarrow> nat list option" where
  \<comment> \<open>The last \<open>k\<close> octets of the dotted-decimal form, each after a dot.\<close>
  "octets 0 s = (if s = [] then Some [] else None)"
| "octets (Suc k) s =
     (case s of
        [] \<Rightarrow> None
      | c # s' \<Rightarrow>
          if c \<noteq> CHR ''.'' then None
          else (case dtoi s' of
                  None \<Rightarrow> None
                | Some (n, rest) \<Rightarrow> if n > 255 then None else map_option ((#) n) (octets k rest)))"

definition parseIPv4 :: "string \<Rightarrow> nat list option" where
  "parseIPv4 s =
     (case dtoi s of
        None \<Rightarrow> None
      | Some (n, rest) \<Rightarrow> if n > 255 then None else map_option ((#) n) (octets 3 rest))"

definition v4InV6Prefix :: IP where
  "v4InV6Prefix = replicate 10 0 @ [255, 255]"

text \<open>The groups of the colon form: the bytes so far, where the ellipsis was, the text that is left.\<close>

function groups :: "IP \<Rightarrow> nat option \<Rightarrow> string \<Rightarrow> (IP \<times> nat option \<times> string) option" where
  "groups ip ell s =
     (if length ip \<ge> 16 then Some (ip, ell, s)
      else (case xtoi s of
              None \<Rightarrow> None
            | Some (n, rest) \<Rightarrow>
                if n > 65535 then None
                else if (case rest of c # _ \<Rightarrow> c = CHR ''.'' | [] \<Rightarrow> False) then
                  (if ell = None \<and> length ip \<noteq> 12 \<or> length ip + 4 > 16 then None
                   else (case parseIPv4 s of None \<Rightarrow> None | Some ip4 \<Rightarrow> Some (ip @ ip4, ell, [])))
                else
                  (let ip' = ip @ [n div 256, n mod 256] in
                   case rest of
                     [] \<Rightarrow> Some (ip', ell, [])
                   | c # s' \<Rightarrow>
                       if c \<noteq> CHR '':'' \<or> s' = [] then None
                       else if hd s' = CHR '':'' then
                         (if ell \<noteq> None then None
                          else if tl s' = [] then Some (ip', Some (length ip'), [])
                          else groups ip' (Some (length ip')) (tl s'))
                       else groups ip' ell s')))"
  by pat_completeness auto
termination
  by (relation "measure (\<lambda>(ip, _, _). 16 - length ip)") auto

definition parseIPv6 :: "string \<Rightarrow> IP option" where
  "parseIPv6 s =
     (let start = prefix ''::'' s; s' = (if start then drop 2 s else s) in
      if start \<and> s' = [] then Some (replicate 16 0)
      else (case groups [] (if start then Some 0 else None) s' of
              None \<Rightarrow> None
            | Some (ip, ell, rest) \<Rightarrow>
                if rest \<noteq> [] then None
                else if length ip < 16 then
                  (case ell of None \<Rightarrow> None
                   | Some e \<Rightarrow> Some (take e ip @ replicate (16 - length ip) 0 @ drop e ip))
                else if ell \<noteq> None then None
                else Some ip))"

fun ParseIP_scan :: "string \<Rightarrow> string \<Rightarrow> IP option" where
  "ParseIP_scan [] s = None"
| "ParseIP_scan (c # cs) s =
     (if c = CHR ''.'' then map_option ((@) v4InV6Prefix) (parseIPv4 s)
      else if c = CHR '':'' then parseIPv6 s
      else ParseIP_scan cs s)"

definition ParseIP :: "string \<Rightarrow> IP option" where
  "ParseIP s = ParseIP_scan s s"

definition To16 :: "IP \<Rightarrow> IP" where
  "To16 ip = (if length ip = 4 then v4InV6Prefix @ ip else ip)"

definition IP_Equal :: "IP \<Rightarrow> IP \<Rightarrow> bool" where
  "IP_Equal a b \<longleftrightarrow> To16 a = To16 b"

lemma octets_length: "octets k s = Some xs \<Longrightarrow> length xs = k"
  by (induction k s arbitrary: xs rule: octets.induct) (auto split: list.splits option.splits if_splits)

lemma parseIPv4_length: "parseIPv4 s = Some xs \<Longrightarrow> length xs = 4"
  by (auto simp: parseIPv4_def octets_length split: option.splits if_splits)

lemmas ParseIP_simps =
  ParseIP_def parseIPv4_def parseIPv6_def dtoi_def xtoi_def is_digit_def hex_val_def numeral_3_eq_3 Let_def

lemma ParseIP_zero: "ParseIP ''0.0.0.0'' = Some (v4InV6Prefix @ [0, 0, 0, 0])"
  by (simp add: ParseIP_simps)

lemma ParseIP_v4_example: "ParseIP ''192.168.1.10'' = Some (v4InV6Prefix @ [192, 168, 1, 10])"
  by (simp add: ParseIP_simps)

lemma ParseIP_invalid_example: "ParseIP ''10.0.0'' = None \<and> ParseIP ''256.1.1.1'' = None \<and> ParseIP ''host'' = None"
  by (simp add: ParseIP_simps)

lemma ParseIP_v6_example: "ParseIP ''fe80::1'' = Some ([254, 128] @ replicate 12 0 @ [0, 1])"
  by (simp add: ParseIP_simps)

section \<open>Printing an address\<close>

definition To4 :: "IP \<Rightarrow> IP option" where
  "To4 ip = (if length ip = 4 then Some ip
             else if length ip = 16 \<and> take 12 ip = v4InV6Prefix then Some (drop 12 ip)
             else None)"

definition hex_digit :: "nat \<Rightarrow> char" where
  "hex_digit n = (if n < 10 then char_of (48 + n) else char_of (87 + n))"

definition hexString :: "IP \<Rightarrow> string" where
  "hexString ip = concat (map (\<lambda>b. [hex_digit (b div 16), hex_digit (b mod 16)]) ip)"

fun appendHex :: "nat \<Rightarrow> string" where
  "appendHex n = (if n < 16 then [hex_digit n] else appendHex (n div 16) @ [hex_digit (n mod 16)])"

declare appendHex.simps [simp del]

text \<open>The 16-bit groups of an IPv6 address, and the longest run of zero groups (at least two).\<close>

definition words_of :: "IP \<Rightarrow> nat list" where
  "words_of ip = map (\<lambda>i. ip ! (2 * i) * 256 + ip ! (2 * i + 1)) [0..<8]"

fun zero_run :: "nat list \<Rightarrow> nat" where
  "zero_run [] = 0"
| "zero_run (w # ws) = (if w = 0 then Suc (zero_run ws) else 0)"

function longest_run :: "nat \<Rightarrow> nat list \<Rightarrow> nat \<times> nat \<Rightarrow> nat \<times> nat" where
  \<comment> \<open>\<open>(start, length)\<close> of the best run so far; the scan jumps behind a run that it takes.\<close>
  "longest_run i ws best =
     (if i \<ge> length ws then best
      else (let r = zero_run (drop i ws) in
            if r > snd best then longest_run (i + r + 1) ws (i, r) else longest_run (i + 1) ws best))"
  by pat_completeness auto
termination by (relation "measure (\<lambda>(i, ws, _). length ws - i)") auto

definition IPv6_String :: "IP \<Rightarrow> string" where
  "IPv6_String ip =
     (let ws = words_of ip; (s, r) = longest_run 0 ws (0, 0) in
      if r < 2 then Join (map appendHex ws) '':''
      else Join (map appendHex (take s ws)) '':'' @ ''::'' @ Join (map appendHex (drop (s + r) ws)) '':'')"

definition IP_String :: "IP \<Rightarrow> string" where
  "IP_String ip =
     (if ip = [] then ''<nil>''
      else (case To4 ip of
              Some p \<Rightarrow> Join (map (\<lambda>b. digits b) p) ''.''
            | None \<Rightarrow> if length ip \<noteq> 16 then ''?'' @ hexString ip else IPv6_String ip))"

lemma dtoi_loop_digits:
  assumes "list_all is_digit ds" "rest = [] \<or> \<not> is_digit (hd rest)"
    and "foldl (\<lambda>n c. 10 * n + ((of_char c :: nat) - 48)) n ds < 16777215"
  shows "dtoi_loop n (ds @ rest) = Some (foldl (\<lambda>n c. 10 * n + ((of_char c :: nat) - 48)) n ds, rest)"
  using assms
proof (induction ds arbitrary: n)
  case Nil
  then show ?case by (cases rest) auto
next
  case (Cons c ds)
  have mono: "m \<le> foldl (\<lambda>n c. 10 * n + ((of_char c :: nat) - 48)) m ds" for m
  proof (induction ds arbitrary: m)
    case (Cons d ds)
    have "m \<le> 10 * m + ((of_char d :: nat) - 48)" by simp
    also have "\<dots> \<le> foldl (\<lambda>n c. 10 * n + ((of_char c :: nat) - 48)) (10 * m + (of_char d - 48)) ds" by (rule Cons.IH)
    finally show ?case by simp
  qed simp
  have "10 * n + ((of_char c :: nat) - 48) < 16777215"
    using Cons.prems(3) mono [of "10 * n + ((of_char c :: nat) - 48)"] by simp
  with Cons show ?case by (simp add: mult.commute)
qed

lemma dtoi_digits:
  assumes "b < 16777215" "rest = [] \<or> \<not> is_digit (hd rest)"
  shows "dtoi (digits b @ rest) = Some (b, rest)"
proof -
  obtain c cs where d: "digits b = c # cs" by (cases "digits b") auto
  have "is_digit c" using digits_digits [of b] by (simp add: d)
  moreover have "dtoi_loop 0 (digits b @ rest) = Some (b, rest)"
    using dtoi_loop_digits [of "digits b" rest 0] digits_digits [of b] assms digits_val_digits [of b]
    by (simp add: digits_val_def)
  ultimately show ?thesis by (simp add: dtoi_def d)
qed

lemma octets_digits:
  "list_all (\<lambda>b. b \<le> 255) bs \<Longrightarrow> octets (length bs) (concat (map (\<lambda>b. CHR ''.'' # digits b) bs)) = Some bs"
proof (induction bs)
  case (Cons b bs)
  have "concat (map (\<lambda>b. CHR ''.'' # digits b) bs) = [] \<or> \<not> is_digit (hd (concat (map (\<lambda>b. CHR ''.'' # digits b) bs)))"
    by (cases bs) (auto simp: is_digit_def)
  then show ?case using Cons by (simp add: dtoi_digits)
qed simp

lemma scan_dot: "list_all is_digit ds \<Longrightarrow> ParseIP_scan (ds @ CHR ''.'' # rest) s = map_option ((@) v4InV6Prefix) (parseIPv4 s)"
  by (induction ds) (auto simp: is_digit_def)

text \<open>Printing an IPv4 address and parsing it gives the address back, in its 16-byte form.\<close>

lemma ParseIP_String:
  assumes "length ip = 4" "list_all (\<lambda>b. b \<le> 255) ip"
  shows "ParseIP (IP_String ip) = Some (To16 ip)"
proof -
  obtain a b c d where ip: "ip = [a, b, c, d]"
    using assms(1) by (auto simp: numeral_eq_Suc length_Suc_conv)
  let ?t = "concat (map (\<lambda>b. CHR ''.'' # digits b) [b, c, d])"
  have s: "IP_String ip = digits a @ ?t" by (simp add: IP_String_def To4_def ip)
  have "dtoi (digits a @ ?t) = Some (a, ?t)" using assms(2) by (intro dtoi_digits) (auto simp: ip is_digit_def)
  moreover have "octets 3 ?t = Some [b, c, d]"
    using octets_digits [of "[b, c, d]"] assms(2) by (simp add: ip numeral_3_eq_3)
  ultimately have "parseIPv4 (digits a @ ?t) = Some ip" using assms(2) by (simp add: parseIPv4_def ip)
  moreover have "ParseIP_scan (digits a @ ?t) (digits a @ ?t) = map_option ((@) v4InV6Prefix) (parseIPv4 (digits a @ ?t))"
    using scan_dot [OF digits_digits, of a] by simp
  ultimately show ?thesis unfolding ParseIP_def s by (simp add: To16_def assms(1))
qed

lemma IP_String_inj:
  assumes "length a = 4" "length b = 4" "list_all (\<lambda>x. x \<le> 255) a" "list_all (\<lambda>x. x \<le> 255) b" "IP_String a = IP_String b"
  shows "a = b"
proof -
  have "To16 a = To16 b" using ParseIP_String [OF assms(1,3)] ParseIP_String [OF assms(2,4)] assms(5) by (metis option.inject)
  then show ?thesis using assms(1,2) by (simp add: To16_def)
qed

end
