(* ===== verification/GwCluster.thy ===== *)
theory GwCluster
  imports GoNet
begin

text \<open>
  \<open>util/ippool.go\<close> and \<open>gateway/cluster\<close>: the pool of the addresses of this host, which is rescanned
  every five seconds, and the manager that announces them in etcd.

  The interfaces of the host and the answers of etcd are arguments; \<open>EventCh\<close> and \<open>needUpdate\<close> are
  the events sent so far, \<open>etcdLog\<close> the writes etcd has accepted. A channel that is full blocks its
  sender; that is not modelled.
\<close>

section \<open>The address pool\<close>

datatype IPEVENTTYPE = ADD | DEL | UPDATE

record IPEVENT =
  ev_Type :: IPEVENTTYPE
  ev_IP :: IP

record IPPool =
  HostIPs :: "(string, IP) gomap"
  EventCh :: "IPEVENT list"
  ignoreInterfaceName :: "string list"
  startReady :: bool

definition NewIPPool :: "string list \<Rightarrow> IPPool" where
  "NewIPPool ignored = \<lparr>HostIPs = [], EventCh = [], ignoreInterfaceName = ignored, startReady = False\<rparr>"

definition GetHostIPs :: "((string, IP) gomap \<Rightarrow> (string, IP) gomap) \<Rightarrow> IPPool \<Rightarrow> IP list" where
  "GetHostIPs rng p = map snd (rng (HostIPs p))"

datatype net_addr = IPNet IP | OtherAddr

definition IsLoopback :: "IP \<Rightarrow> bool" where
  "IsLoopback ip = (case To4 ip of Some p \<Rightarrow> hd p = 127 | None \<Rightarrow> ip = replicate 15 0 @ [1])"

definition checkIPAddress :: "net_addr \<Rightarrow> IP option" where
  "checkIPAddress addr = (case addr of OtherAddr \<Rightarrow> None | IPNet ip \<Rightarrow> if IsLoopback ip then None else Some ip)"

text \<open>An interface has a name and either its addresses or an error; so has the whole table.\<close>

type_synonym interfaces = "string + (string \<times> (string + net_addr list)) list"

fun addr_ips :: "net_addr list \<Rightarrow> IP list" where
  "addr_ips [] = []"
| "addr_ips (a # as) =
     (case checkIPAddress a of
        None \<Rightarrow> addr_ips as
      | Some ip \<Rightarrow> (case To4 ip of None \<Rightarrow> addr_ips as | Some p \<Rightarrow> p # addr_ips as))"

fun table_ips :: "string list \<Rightarrow> (string \<times> (string + net_addr list)) list \<Rightarrow> IP list \<Rightarrow> string + IP list" where
  "table_ips ignored [] ips = Inr ips"
| "table_ips ignored ((name, addrs) # ts) ips =
     (if name \<in> set ignored then table_ips ignored ts ips
      else (case addrs of
              Inl err \<Rightarrow> Inl err
            | Inr as \<Rightarrow> table_ips ignored ts (ips @ addr_ips as)))"

definition getInterfaceIPs :: "interfaces \<Rightarrow> IPPool \<Rightarrow> string + IP list" where
  "getInterfaceIPs ifs p =
     (case ifs of Inl err \<Rightarrow> Inl err | Inr ts \<Rightarrow> table_ips (ignoreInterfaceName p) ts [])"

text \<open>The body of \<open>LoopCheckIPs\<close>: the loop over the addresses, the loop over the old ones.\<close>

fun check_new :: "(string, IP) gomap \<Rightarrow> IP list \<Rightarrow> IPEVENT list \<Rightarrow> (string, IP) gomap \<Rightarrow>
    IPEVENT list \<times> (string, IP) gomap" where
  "check_new old [] evs new = (evs, new)"
| "check_new old (v # vs) evs new =
     (case To4 v of
        None \<Rightarrow> check_new old vs evs new
      | Some p \<Rightarrow>
          check_new old vs
            (evs @ [\<lparr>ev_Type = (if map_of old (IP_String p) \<noteq> None then UPDATE else ADD), ev_IP = p\<rparr>])
            (map_set (IP_String p) p new))"

fun check_old :: "(string, IP) gomap \<Rightarrow> (string, IP) gomap \<Rightarrow> IPEVENT list \<Rightarrow> IPEVENT list" where
  "check_old [] new evs = evs"
| "check_old ((k, v) # old) new evs =
     (if map_of new k = None
      then check_old old new (evs @ [\<lparr>ev_Type = DEL, ev_IP = (case To4 v of Some p \<Rightarrow> p | None \<Rightarrow> [])\<rparr>])
      else check_old old new evs)"

definition LoopCheckIPs_tick ::
  "((string, IP) gomap \<Rightarrow> (string, IP) gomap) \<Rightarrow> interfaces \<Rightarrow> IPPool \<Rightarrow> IPPool" where
  "LoopCheckIPs_tick rng ifs p =
     (case getInterfaceIPs ifs p of
        Inl err \<Rightarrow> p
      | Inr ips \<Rightarrow>
          (let (evs, new) = check_new (HostIPs p) ips (EventCh p) [];
               evs = check_old (rng (HostIPs p)) new evs
           in p\<lparr>HostIPs := new, EventCh := evs, startReady := True\<rparr>))"

section \<open>The manager\<close>

datatype etcd_op = EtcdPut string string int | EtcdDelete string

record ipManager =
  ipLease :: "(string, int) gomap"
  etcdLog :: "etcd_op list"
  needUpdate :: "IPEVENT list"

text \<open>etcd's answers: whether a lease could be kept alive, the lease granted for an address, and what became of
  a put and a delete; a request that fails may have been carried out. \<open>etcdLog\<close> are the requests that were. Leases
  that expire are not modelled.\<close>

datatype etcd_answer = Accepted | Refused | FailedButDone

record etcd =
  et_KeepAliveOnce :: "int \<Rightarrow> bool"
  et_Grant :: "string \<Rightarrow> int option"
  et_Put :: "string \<Rightarrow> etcd_answer"
  et_Delete :: "string \<Rightarrow> etcd_answer"

definition ip_key :: "string \<Rightarrow> string" where
  "ip_key ip = ''/kato/gateway/ips/'' @ ip"

definition updateIP1 :: "etcd \<Rightarrow> IP \<Rightarrow> ipManager \<Rightarrow> ipManager" where
  "updateIP1 et ip m =
     (let s = IP_String ip in
      if (case map_of (ipLease m) s of Some lid \<Rightarrow> et_KeepAliveOnce et lid | None \<Rightarrow> False) then m
      else (case et_Grant et s of
              None \<Rightarrow> m
            | Some lid \<Rightarrow>
                (let put = m\<lparr>etcdLog := etcdLog m @ [EtcdPut (ip_key s) s lid]\<rparr> in
                 case et_Put et (ip_key s) of
                   Accepted \<Rightarrow> put\<lparr>ipLease := map_set s lid (ipLease m)\<rparr>
                 | Refused \<Rightarrow> m
                 | FailedButDone \<Rightarrow> put)))"

definition updateIP :: "etcd \<Rightarrow> IP list \<Rightarrow> ipManager \<Rightarrow> ipManager" where
  "updateIP et ips m = fold (updateIP1 et) ips m"

definition deleteIP1 :: "etcd \<Rightarrow> IP \<Rightarrow> ipManager \<Rightarrow> ipManager" where
  "deleteIP1 et ip m =
     (let s = IP_String ip;
          m = (if et_Delete et (ip_key s) \<noteq> Refused then m\<lparr>etcdLog := etcdLog m @ [EtcdDelete (ip_key s)]\<rparr> else m)
      in m\<lparr>ipLease := AList.delete s (ipLease m)\<rparr>)"

definition deleteIP :: "etcd \<Rightarrow> IP list \<Rightarrow> ipManager \<Rightarrow> ipManager" where
  "deleteIP et ips m = fold (deleteIP1 et) ips m"

definition syncIP_step :: "etcd \<Rightarrow> IPEVENT \<Rightarrow> ipManager \<Rightarrow> ipManager" where
  "syncIP_step et ev m =
     (let m = (case ev_Type ev of
                 ADD \<Rightarrow> updateIP et [ev_IP ev] m
               | UPDATE \<Rightarrow> updateIP et [ev_IP ev] m
               | DEL \<Rightarrow> deleteIP et [ev_IP ev] m)
      in m\<lparr>needUpdate := needUpdate m @ [ev]\<rparr>)"

definition syncIP :: "etcd \<Rightarrow> IP list \<Rightarrow> IPEVENT list \<Rightarrow> ipManager \<Rightarrow> ipManager" where
  "syncIP et ips evs m = fold (syncIP_step et) evs (updateIP et ips m)"

definition IPInCurrentHost :: "IP list \<Rightarrow> IP \<Rightarrow> bool" where
  "IPInCurrentHost hostIPs ip = list_ex (\<lambda>e. IP_Equal e ip) hostIPs"

section \<open>The node\<close>

definition CheckPortAvailable :: "(string \<Rightarrow> string \<Rightarrow> bool) \<Rightarrow> string \<Rightarrow> int list \<Rightarrow> bool" where
  \<comment> \<open>\<open>dial protocol address\<close>: a connection is made. The ports are \<open>uint32\<close>.\<close>
  "CheckPortAvailable dial protocol ports =
     (let protocol = (if protocol = [] then ''tcp'' else protocol)
      in list_all (\<lambda>port. \<not> dial protocol (''0.0.0.0:'' @ Itoa port)) ports)"

section \<open>What a scan reports\<close>

text \<open>A reader that replays the events keeps the addresses of the pool.\<close>

definition replay :: "string set \<Rightarrow> IPEVENT list \<Rightarrow> string set" where
  "replay = foldl (\<lambda>S e. if ev_Type e = DEL then S - {IP_String (ev_IP e)} else insert (IP_String (ev_IP e)) S)"

definition wf_pool :: "IPPool \<Rightarrow> bool" where
  "wf_pool p \<longleftrightarrow> wf_map (HostIPs p) \<and> (\<forall>(k, v) \<in> set (HostIPs p). length v = 4 \<and> k = IP_String v)"

lemma replay_append: "replay S (xs @ ys) = replay (replay S xs) ys"
  by (simp add: replay_def)

lemma replay_adds: "(\<And>e. e \<in> set evs \<Longrightarrow> ev_Type e \<noteq> DEL) \<Longrightarrow> replay S evs = S \<union> (IP_String \<circ> ev_IP) ` set evs"
  by (induction evs arbitrary: S) (auto simp: replay_def)

lemma replay_dels: "(\<And>e. e \<in> set evs \<Longrightarrow> ev_Type e = DEL) \<Longrightarrow> replay S evs = S - (IP_String \<circ> ev_IP) ` set evs"
  by (induction evs arbitrary: S) (auto simp: replay_def)

lemma To4_length: "To4 v = Some p \<Longrightarrow> length p = 4"
  by (auto simp: To4_def split: if_splits)

lemma To4_idem [simp]: "length v = 4 \<Longrightarrow> To4 v = Some v"
  by (simp add: To4_def)

text \<open>The addresses of a scan, as four bytes.\<close>

definition v4s :: "IP list \<Rightarrow> IP list" where
  "v4s vs = List.map_filter To4 vs"

lemma check_new_spec:
  "check_new old vs evs new =
     (evs @ map (\<lambda>p. \<lparr>ev_Type = (if map_of old (IP_String p) \<noteq> None then UPDATE else ADD), ev_IP = p\<rparr>) (v4s vs),
      fold (\<lambda>p. map_set (IP_String p) p) (v4s vs) new)"
  by (induction old vs evs new rule: check_new.induct) (auto simp: v4s_def map_filter_simps split: option.splits)

lemma check_old_spec:
  "check_old old new evs = evs @
     map (\<lambda>(k, v). \<lparr>ev_Type = DEL, ev_IP = (case To4 v of Some p \<Rightarrow> p | None \<Rightarrow> [])\<rparr>) (filter (\<lambda>(k, v). map_of new k = None) old)"
  by (induction old new evs rule: check_old.induct) auto

lemma fold_ips:
  "dom (map_of (fold (\<lambda>p. map_set (IP_String p) p) ps m)) = IP_String ` set ps \<union> dom (map_of m)"
  "wf_map m \<Longrightarrow> wf_map (fold (\<lambda>p. map_set (IP_String p) p) ps m)"
  by (induction ps arbitrary: m) auto

lemma fold_ips_entries:
  "set (fold (\<lambda>p. map_set (IP_String p) p) ps m) \<subseteq> (\<lambda>p. (IP_String p, p)) ` set ps \<union> set m"
proof (induction ps arbitrary: m)
  case (Cons p ps)
  have "set (map_set (IP_String p) p m) \<subseteq> insert (IP_String p, p) (set m)" by (induction m) auto
  with Cons [of "map_set (IP_String p) p m"] show ?case by auto
qed simp

lemma v4s_length: "p \<in> set (v4s vs) \<Longrightarrow> length p = 4"
  by (auto simp: v4s_def List.map_filter_def dest: To4_length)

lemma tick_wf:
  assumes "wf_pool p"
  shows "wf_pool (LoopCheckIPs_tick rng ifs p)"
proof (cases "getInterfaceIPs ifs p")
  case (Inr ips)
  let ?new = "fold (\<lambda>p. map_set (IP_String p) p) (v4s ips) []"
  have "wf_map ?new" by (rule fold_ips) simp
  moreover have "\<forall>(k, v) \<in> set ?new. length v = 4 \<and> k = IP_String v"
    using fold_ips_entries [of "v4s ips" "[]"] v4s_length by fastforce
  ultimately show ?thesis by (simp add: LoopCheckIPs_tick_def Inr check_new_spec wf_pool_def)
qed (use assms in \<open>simp add: LoopCheckIPs_tick_def\<close>)

text \<open>The events of a scan, replayed over the addresses before it, give the addresses after it.\<close>

lemma tick_replay:
  assumes "wf_pool p" "is_range rng"
  obtains evs where "EventCh (LoopCheckIPs_tick rng ifs p) = EventCh p @ evs"
    "replay (dom (map_of (HostIPs p))) evs = dom (map_of (HostIPs (LoopCheckIPs_tick rng ifs p)))"
proof (cases "getInterfaceIPs ifs p")
  case (Inl e)
  then show thesis using that [of "[]"] by (simp add: LoopCheckIPs_tick_def replay_def)
next
  case (Inr ips)
  let ?new = "fold (\<lambda>p. map_set (IP_String p) p) (v4s ips) []"
  let ?S = "dom (map_of (HostIPs p))"
  define adds where "adds = map (\<lambda>q. \<lparr>ev_Type = (if map_of (HostIPs p) (IP_String q) \<noteq> None then UPDATE else ADD), ev_IP = q\<rparr>) (v4s ips)"
  define gone where "gone = filter (\<lambda>(k, v). map_of ?new k = None) (rng (HostIPs p))"
  define dels where "dels = map (\<lambda>(k, v). \<lparr>ev_Type = DEL, ev_IP = (case To4 v of Some p \<Rightarrow> p | None \<Rightarrow> [])\<rparr>) gone"
  have new: "dom (map_of ?new) = IP_String ` set (v4s ips)" by (simp add: fold_ips)
  have "(IP_String \<circ> ev_IP) ` set dels = fst ` set gone"
  proof -
    have "x \<in> set gone \<Longrightarrow> length (snd x) = 4 \<and> fst x = IP_String (snd x)" for x
      using assms by (auto simp: gone_def wf_pool_def is_range_set)
    then show ?thesis by (force simp: dels_def)
  qed
  also have "\<dots> = ?S - dom (map_of ?new)"
    by (auto simp: gone_def is_range_set [OF assms(2)] dom_map_of_conv_image_fst domIff image_iff map_of_eq_None_iff
        simp del: fold_ips(1))
  finally have d: "replay (?S \<union> IP_String ` set (v4s ips)) dels = IP_String ` set (v4s ips)"
    by (subst replay_dels) (auto simp: dels_def new)
  have a: "replay ?S adds = ?S \<union> IP_String ` set (v4s ips)"
    by (subst replay_adds) (auto simp: adds_def image_image split: if_splits)
  have "EventCh (LoopCheckIPs_tick rng ifs p) = EventCh p @ adds @ dels" "HostIPs (LoopCheckIPs_tick rng ifs p) = ?new"
    by (simp_all add: LoopCheckIPs_tick_def Inr check_new_spec check_old_spec adds_def dels_def gone_def)
  with a d new show thesis using that [of "adds @ dels"] by (simp add: replay_append)
qed

section \<open>What the manager announces\<close>

text \<open>With an etcd that accepts every request the leases follow the events.\<close>

definition etcd_ok :: "etcd \<Rightarrow> bool" where
  "etcd_ok et \<longleftrightarrow> (\<forall>s. et_Grant et s \<noteq> None \<and> et_Put et s = Accepted \<and> et_Delete et s = Accepted)"

lemma updateIP1_dom:
  assumes "etcd_ok et"
  shows "dom (map_of (ipLease (updateIP1 et ip m))) = insert (IP_String ip) (dom (map_of (ipLease m)))"
proof -
  obtain lid where "et_Grant et (IP_String ip) = Some lid" "et_Put et (ip_key (IP_String ip)) = Accepted"
    using assms unfolding etcd_ok_def by blast
  then show ?thesis by (auto simp: updateIP1_def Let_def split: option.splits)
qed

lemma syncIP_step_dom:
  assumes "etcd_ok et"
  shows "dom (map_of (ipLease (syncIP_step et ev m))) = replay (dom (map_of (ipLease m))) [ev]"
proof (cases "ev_Type ev")
  case DEL
  then show ?thesis by (auto simp: syncIP_step_def deleteIP_def deleteIP1_def replay_def Let_def delete_conv' dom_def)
qed (use updateIP1_dom [OF assms] in \<open>simp_all add: syncIP_step_def updateIP_def replay_def Let_def\<close>)

lemma syncIP_dom:
  assumes "etcd_ok et"
  shows "dom (map_of (ipLease (syncIP et ips evs m))) = replay (dom (map_of (ipLease m)) \<union> IP_String ` set ips) evs"
proof -
  have u: "dom (map_of (ipLease (fold (updateIP1 et) ips m))) = dom (map_of (ipLease m)) \<union> IP_String ` set ips"
    by (induction ips arbitrary: m) (auto simp: updateIP1_dom [OF assms])
  have f: "dom (map_of (ipLease (fold (syncIP_step et) evs m))) = replay (dom (map_of (ipLease m))) evs" for m
  proof (induction evs arbitrary: m)
    case (Cons e evs)
    then show ?case using replay_append [of _ "[e]" evs] syncIP_step_dom [OF assms, of e m] by simp
  qed (simp add: replay_def)
  show ?thesis by (simp add: syncIP_def updateIP_def f u)
qed

text \<open>What etcd holds after the requests it has carried out: value and lease of every key.\<close>

fun etcd_apply :: "etcd_op \<Rightarrow> (string \<rightharpoonup> string \<times> int) \<Rightarrow> string \<rightharpoonup> string \<times> int" where
  "etcd_apply (EtcdPut k v lid) c = c(k \<mapsto> (v, lid))"
| "etcd_apply (EtcdDelete k) c = c(k := None)"

definition etcd_contents :: "etcd_op list \<Rightarrow> string \<rightharpoonup> string \<times> int" where
  "etcd_contents log = fold etcd_apply log Map.empty"

lemma etcd_contents_snoc [simp]: "etcd_contents (log @ [x]) = etcd_apply x (etcd_contents log)"
  by (simp add: etcd_contents_def)

lemma ip_key_inject [simp]: "ip_key s = ip_key t \<longleftrightarrow> s = t"
  by (simp add: ip_key_def)

text \<open>The manager's leases are announced: every lease it has is that of the key of its address.\<close>

definition announced :: "ipManager \<Rightarrow> bool" where
  "announced m \<longleftrightarrow> (\<forall>s lid. map_of (ipLease m) s = Some lid \<longrightarrow> etcd_contents (etcdLog m) (ip_key s) = Some (s, lid))"

text \<open>Nothing else is announced under the keys of addresses.\<close>

definition only_announced :: "ipManager \<Rightarrow> bool" where
  "only_announced m \<longleftrightarrow> (\<forall>s. etcd_contents (etcdLog m) (ip_key s) \<noteq> None \<longrightarrow> map_of (ipLease m) s \<noteq> None)"

text \<open>Every address with a lease has its key, whichever lease the key is under.\<close>

definition has_keys :: "ipManager \<Rightarrow> bool" where
  "has_keys m \<longleftrightarrow> (\<forall>s. map_of (ipLease m) s \<noteq> None \<longrightarrow> (\<exists>lid. etcd_contents (etcdLog m) (ip_key s) = Some (s, lid)))"

lemma announced_has_keys: "announced m \<Longrightarrow> has_keys m"
  by (auto simp: announced_def has_keys_def)

lemma syncIP_step_has_keys: "has_keys m \<Longrightarrow> has_keys (syncIP_step et ev m)"
  by (cases "ev_Type ev")
    (auto simp: has_keys_def syncIP_step_def updateIP_def updateIP1_def deleteIP_def deleteIP1_def Let_def delete_conv'
      split: option.splits if_splits etcd_answer.splits)

lemma syncIP_step_announced: "etcd_ok et \<Longrightarrow> announced m \<Longrightarrow> announced (syncIP_step et ev m)"
  by (cases "ev_Type ev")
    (auto simp: announced_def syncIP_step_def updateIP_def updateIP1_def deleteIP_def deleteIP1_def Let_def delete_conv' etcd_ok_def
      split: option.splits if_splits)

lemma syncIP_step_only:
  assumes "etcd_ok et" "only_announced m"
  shows "only_announced (syncIP_step et ev m)"
proof -
  have "et_Delete et s = Accepted" "et_Put et s = Accepted" for s using assms(1) by (simp_all add: etcd_ok_def)
  then show ?thesis using assms(2)
    by (cases "ev_Type ev")
      (auto simp: only_announced_def syncIP_step_def updateIP_def updateIP1_def deleteIP_def deleteIP1_def Let_def delete_conv'
        split: option.splits if_splits)
qed

lemma syncIP_steps_announced:
  "has_keys m \<Longrightarrow> has_keys (fold (syncIP_step et) evs m)"
  "etcd_ok et \<Longrightarrow> announced m \<Longrightarrow> announced (fold (syncIP_step et) evs m)"
  "etcd_ok et \<Longrightarrow> only_announced m \<Longrightarrow> only_announced (fold (syncIP_step et) evs m)"
  by (induction evs arbitrary: m) (auto simp: syncIP_step_has_keys syncIP_step_announced syncIP_step_only)

end
