(* ===== verification/GwStore.thy ===== *)
theory GwStore
  imports Annotations GwCluster
begin

text \<open>
  \<open>gateway/store\<close> and \<open>gateway/util\<close>: how the ingresses, endpoints, services and secrets in the
  informer caches become virtual services and pools.

  \<^item> \<open>gw_env\<close> is what the functions read: the contents of the listers, the parsed annotations, the
    certificates, the addresses of the host, the ports in use, the environment variable
    \<open>SSL_PROTOCOLS\<close> and client-go's key function.
  \<^item> \<open>lvs\<close> is the state of \<open>ListVirtualService\<close>. The code shares one \<open>VirtualService\<close> between the
    slice \<open>l7vs\<close> and the map \<open>l7vsMap\<close>, and one \<open>Location\<close> between \<open>vs.Locations\<close> and \<open>srvLocMap\<close>;
    here the maps hold addresses and an update through one of them is an update of the object at
    that address in the slice (\<open>upd_vs\<close>, \<open>upd_loc\<close>). \<open>fresh\<close> is the next free address.
  \<^item> \<open>pool_globals\<close> are the package variables \<open>l7PoolMap\<close>, \<open>l7PoolBackendMap\<close>, \<open>l4PoolMap\<close> and
    \<open>l4PoolBackendMap\<close>, through which \<open>ListVirtualService\<close> hands the backends to \<open>ListPool\<close>.
  \<^item> The result \<open>None\<close> is a nil dereference: a rule without an HTTP section, or an L4 ingress
    without a backend.
\<close>

section \<open>Kubernetes objects\<close>

record EndpointSubset =
  ss_Addresses :: "string list"
  ss_Ports :: "int list"

record Endpoints =
  ep_Meta :: ObjectMeta
  ep_Subsets :: "EndpointSubset list option"

record Service =
  svc_Ports :: "(int \<times> string) list"

record ListenPorts =
  lp_HTTP :: int
  lp_HTTPS :: int
  lp_Status :: int
  lp_Stream :: int
  lp_Health :: int

section \<open>State\<close>

record backend =
  bk_name :: string
  bk_weight :: int
  bk_hashBy :: string
  bk_loadBalancingType :: string

record pool_globals =
  l7PoolMap :: "string list"
  l7PoolBackendMap :: "(string, backend list) gomap"
  l4PoolMap :: "string list"
  l4PoolBackendMap :: "(string, backend list) gomap"

record gw_env =
  env_Ingresses :: "Ingress list"
  env_Endpoints :: "Endpoints list"
  env_EndpointByKey :: "string \<Rightarrow> Endpoints option"
  env_Annotations :: "string \<Rightarrow> ann_Ingress option"
  env_ServiceByKey :: "string \<Rightarrow> Service option"
  env_SSLStore :: "string \<Rightarrow> SSLCert ptr option"
  env_HostIPs :: "IP list"
  env_Ports :: ListenPorts
  env_SSLProtocols :: string
  env_Key :: "ObjectMeta \<Rightarrow> string"

record lvs =
  l7vs :: "VirtualService ptr list"
  l4vs :: "VirtualService ptr list"
  l7vsMap :: "(string, nat) gomap"
  l4vsMap :: "(string, nat) gomap"
  srvLocMap :: "(string, nat) gomap"
  globals :: pool_globals
  fresh :: nat

definition DefVirSrvName :: string where "DefVirSrvName = ''_''"

section \<open>gateway/util\<close>

definition BackendName :: "string \<Rightarrow> string \<Rightarrow> string" where
  "BackendName name ns =
     (let name = ns @ ''_'' @ name;
          name = Replace name ''.'' ''_'' (-1);
          name = Replace name ''-'' ''_'' (-1);
          name = Replace name '':'' ''_'' (-1);
          name = Replace name ''/'' ''slash'' (-1);
          name = Replace name '' '' [] (-1)
      in name)"

section \<open>Readers of the store\<close>

definition GetIngressAnnotations :: "gw_env \<Rightarrow> string \<Rightarrow> ann_Ingress option" where
  "GetIngressAnnotations env key = env_Annotations env key"

fun portProtocol :: "(int \<times> string) list \<Rightarrow> int \<Rightarrow> string" where
  "portProtocol [] port = ''TCP''"
| "portProtocol ((p, proto) # ps) port = (if p = port then proto else portProtocol ps port)"

definition GetServiceProtocol :: "gw_env \<Rightarrow> string \<Rightarrow> int \<Rightarrow> string" where
  "GetServiceProtocol env key port =
     (case env_ServiceByKey env key of
        None \<Rightarrow> ''TCP''
      | Some svc \<Rightarrow> portProtocol (svc_Ports svc) port)"

definition hasReadyAddresses :: "EndpointSubset list \<Rightarrow> bool" where
  "hasReadyAddresses subsets = list_ex (\<lambda>ss. length (ss_Addresses ss) > 0) subsets"

definition subsets :: "Endpoints \<Rightarrow> EndpointSubset list" where
  "subsets ep = (case ep_Subsets ep of None \<Rightarrow> [] | Some ss \<Rightarrow> ss)"

fun firstPathKey :: "string \<Rightarrow> IngressRule list \<Rightarrow> string option" where
  \<comment> \<open>The labelled loop: the key of the first path of the first rule that has one.\<close>
  "firstPathKey ns [] = Some []"
| "firstPathKey ns (rule # rules) =
     (case ir_HTTP rule of
        None \<Rightarrow> None
      | Some [] \<Rightarrow> firstPathKey ns rules
      | Some (p # _) \<Rightarrow> Some (ns @ ''/'' @ ib_ServiceName (hp_Backend p)))"

definition endpointKey :: "Ingress \<Rightarrow> string option" where
  "endpointKey ing =
     (case ing_Backend ing of
        Some b \<Rightarrow> Some (om_Namespace (ing_Meta ing) @ ''/'' @ ib_ServiceName b)
      | None \<Rightarrow> firstPathKey (om_Namespace (ing_Meta ing)) (ing_Rules ing))"

definition ingressIsValid :: "gw_env \<Rightarrow> Ingress \<Rightarrow> bool option" where
  "ingressIsValid env ing =
     (case endpointKey ing of
        None \<Rightarrow> None
      | Some key \<Rightarrow>
          Some (case env_EndpointByKey env key of
                  None \<Rightarrow> False
                | Some ep \<Rightarrow> length (subsets ep) \<noteq> 0 \<and> hasReadyAddresses (subsets ep)))"

section \<open>ListVirtualService\<close>

fun upd_vs :: "nat \<Rightarrow> (VirtualService \<Rightarrow> VirtualService) \<Rightarrow> VirtualService ptr \<Rightarrow> VirtualService ptr" where
  "upd_vs a f NilPtr = NilPtr"
| "upd_vs a f (Ptr b v) = Ptr b (if b = a then f v else v)"

fun upd_loc_ptr :: "nat \<Rightarrow> (Location \<Rightarrow> Location) \<Rightarrow> Location ptr \<Rightarrow> Location ptr" where
  "upd_loc_ptr a f NilPtr = NilPtr"
| "upd_loc_ptr a f (Ptr b l) = Ptr b (if b = a then f l else l)"

fun upd_loc :: "nat \<Rightarrow> (Location \<Rightarrow> Location) \<Rightarrow> VirtualService ptr \<Rightarrow> VirtualService ptr" where
  "upd_loc a f NilPtr = NilPtr"
| "upd_loc a f (Ptr b v) = Ptr b (v\<lparr>vs_Locations := map (upd_loc_ptr a f) (vs_Locations v)\<rparr>)"

definition add_set :: "string \<Rightarrow> string list \<Rightarrow> string list" where
  "add_set x xs = (if x \<in> set xs then xs else xs @ [x])"

definition l4_listening :: "string \<Rightarrow> int \<Rightarrow> string \<Rightarrow> string" where
  "l4_listening host port protocol =
     (let listening = host @ '':'' @ Itoa port
      in if protocol = ''UDP'' then listening @ '' '' @ ''udp'' else listening)"

text \<open>The host of an L4 ingress: \<open>None\<close> when the ingress is skipped on this node.\<close>

definition l4_host :: "gw_env \<Rightarrow> string \<Rightarrow> string option" where
  "l4_host env h =
     (let host = Replace h '' '' [] (-1) in
      if host = [] \<or> host = ''0.0.0.0'' then Some ''0.0.0.0''
      else (case ParseIP host of
              None \<Rightarrow> None
            | Some ip \<Rightarrow> if IPInCurrentHost (env_HostIPs env) ip then Some host else None))"

definition l4_vs :: "ann_Ingress \<Rightarrow> string \<Rightarrow> string \<Rightarrow> string \<Rightarrow> VirtualService" where
  "l4_vs anns listening backendName protocol =
     zero_VirtualService
       \<lparr>vs_Listening := [listening], vs_PoolName := backendName, vs_Protocol := protocol,
        vs_Meta := zero_Meta\<lparr>Namespace := om_Namespace (an_Meta anns),
                             ServiceID := map_str (om_Labels (an_Meta anns)) ''service_id''\<rparr>\<rparr>"

definition l4_step :: "gw_env \<Rightarrow> Ingress \<Rightarrow> ann_Ingress \<Rightarrow> lvs \<Rightarrow> lvs option" where
  "l4_step env ing anns st =
     (case l4_host env (L4Host (an_L4 anns)) of
        None \<Rightarrow> Some st
      | Some host \<Rightarrow>
          (case ing_Backend ing of
             None \<Rightarrow> None
           | Some b \<Rightarrow>
               (let ns = om_Namespace (ing_Meta ing);
                    svcKey = ns @ ''/'' @ ib_ServiceName b;
                    protocol = GetServiceProtocol env svcKey (ib_ServicePort b);
                    port = L4Port (an_L4 anns);
                    listening = l4_listening host port protocol
                in if port = lp_HTTP (env_Ports env) \<or> port = lp_HTTPS (env_Ports env) \<or>
                      port = lp_Health (env_Ports env) \<or> port = lp_Status (env_Ports env)
                   then Some st
                   else
                     \<comment> \<open>The loop over the conflict keys only logs: its \<open>continue\<close> continues that loop.\<close>
                     (let backendName = BackendName listening ns;
                          vs = l4_vs anns listening backendName protocol;
                          bk = \<lparr>bk_name = backendName, bk_weight = wc_Weight (an_Weight anns),
                                bk_hashBy = [], bk_loadBalancingType = []\<rparr>;
                          g = globals st
                      in Some (st\<lparr>l4vs := l4vs st @ [Ptr (fresh st) vs],
                                  l4vsMap := map_set listening (fresh st) (l4vsMap st),
                                  globals := g\<lparr>l4PoolMap := add_set (ib_ServiceName b) (l4PoolMap g),
                                               l4PoolBackendMap :=
                                                 map_append (ib_ServiceName b) bk (l4PoolBackendMap g)\<rparr>,
                                  fresh := fresh st + 1\<rparr>)))))"

fun tls_hosts :: "string list \<Rightarrow> SSLCert ptr \<Rightarrow> (string, SSLCert ptr) gomap \<Rightarrow> (string, SSLCert ptr) gomap" where
  "tls_hosts [] c m = m"
| "tls_hosts (h # hs) c m = tls_hosts hs c (map_set h c m)"

fun hostSSL ::
  "gw_env \<Rightarrow> string \<Rightarrow> IngressTLS list \<Rightarrow> (string, SSLCert ptr) gomap \<Rightarrow> (string, SSLCert ptr) gomap" where
  "hostSSL env ns [] m = m"
| "hostSSL env ns (tls # tlss) m =
     (case env_SSLStore env (ns @ ''/'' @ it_SecretName tls) of
        None \<Rightarrow> hostSSL env ns tlss m
      | Some sslCert \<Rightarrow>
          (let m = tls_hosts (it_Hosts tls) sslCert m;
               m = (if map_of m DefVirSrvName = None then map_set DefVirSrvName sslCert m else m)
           in hostSSL env ns tlss m))"

definition map_cert :: "(string, SSLCert ptr) gomap \<Rightarrow> string \<Rightarrow> SSLCert ptr" where
  "map_cert m k = (case map_of m k of Some c \<Rightarrow> c | None \<Rightarrow> NilPtr)"

definition l7_name :: "(string, SSLCert ptr) gomap \<Rightarrow> string \<Rightarrow> string" where
  "l7_name hostSSLMap host =
     (let virSrvName = Replace host '' '' [] (-1);
          virSrvName = (if virSrvName = [] then DefVirSrvName else virSrvName)
      in if length hostSSLMap \<noteq> 0 then ''tls'' @ virSrvName else virSrvName)"

definition l7_vs ::
  "gw_env \<Rightarrow> Ingress \<Rightarrow> ann_Ingress \<Rightarrow> (string, SSLCert ptr) gomap \<Rightarrow> string \<Rightarrow> VirtualService" where
  "l7_vs env ing anns hostSSLMap virSrvName =
     (let vs = zero_VirtualService
                 \<lparr>vs_Listening := [Itoa (lp_HTTP (env_Ports env))], vs_ServerName := virSrvName,
                  vs_SSlProtocols := ''TLSv1.2 TLSv1.3''\<rparr>;
          vs = (if env_SSLProtocols env \<noteq> [] then vs\<lparr>vs_SSlProtocols := env_SSLProtocols env\<rparr> else vs);
          vs = vs\<lparr>vs_Meta := zero_Meta\<lparr>Namespace := om_Namespace (ing_Meta ing),
                                       ServiceID := map_str (om_Labels (an_Meta anns)) ''service_id''\<rparr>\<rparr>
      in if length hostSSLMap \<noteq> 0
         then vs\<lparr>vs_Listening := [Itoa (lp_HTTPS (env_Ports env)), ''ssl''],
                 vs_SSLCert := (if \<not> is_nil (map_cert hostSSLMap virSrvName)
                                then map_cert hostSSLMap virSrvName
                                else map_cert hostSSLMap DefVirSrvName)\<rparr>
         else vs)"

text \<open>The virtual service of a name: the one in the map, or a new one; its address and the state.\<close>

definition get_vs :: "string \<Rightarrow> VirtualService \<Rightarrow> lvs \<Rightarrow> nat \<times> lvs" where
  "get_vs virSrvName new st =
     (case map_of (l7vsMap st) virSrvName of
        Some a \<Rightarrow> (a, st)
      | None \<Rightarrow> (fresh st,
                 st\<lparr>l7vs := l7vs st @ [Ptr (fresh st) new],
                    l7vsMap := map_set virSrvName (fresh st) (l7vsMap st),
                    fresh := fresh st + 1\<rparr>))"

definition condition_of :: "ann_Ingress \<Rightarrow> Condition" where
  "condition_of anns =
     (case hc_Header (an_Header anns) of
        Some h \<Rightarrow> \<lparr>cd_Type = HeaderType, cd_Value = h\<rparr>
      | None \<Rightarrow> (case cc_Cookie (an_Cookie anns) of
                  Some c \<Rightarrow> \<lparr>cd_Type = CookieType, cd_Value = c\<rparr>
                | None \<Rightarrow> \<lparr>cd_Type = DefaultType, cd_Value = [(''1'', ''1'')]\<rparr>))"

definition l7_backendName :: "Ingress \<Rightarrow> ann_Ingress \<Rightarrow> string \<Rightarrow> string" where
  "l7_backendName ing anns locKey =
     BackendName (locKey @ ''_'' @ cd_Type (condition_of anns)) (om_Namespace (ing_Meta ing))"

text \<open>The location of a path: the one in the map, or a new one; its address and the state.\<close>

definition get_loc :: "ann_Ingress \<Rightarrow> string \<Rightarrow> nat \<Rightarrow> string \<Rightarrow> lvs \<Rightarrow> nat \<times> lvs" where
  "get_loc anns locKey vsAddr path st =
     (case map_of (srvLocMap st) locKey of
        Some a \<Rightarrow> (a, st)
      | None \<Rightarrow>
          (let l = \<lparr>lo_Path = path, lo_NameCondition = [], lo_Rewrite = zero_rewrite,
                    lo_Proxy = an_Proxy anns, lo_DisableProxyPass = False\<rparr>
           in (fresh st,
               st\<lparr>srvLocMap := map_set locKey (fresh st) (srvLocMap st),
                  l7vs := map (upd_vs vsAddr (\<lambda>v. v\<lparr>vs_Locations := vs_Locations v @ [Ptr (fresh st) l]\<rparr>))
                            (l7vs st),
                  fresh := fresh st + 1\<rparr>)))"

definition add_condition ::
  "string \<Rightarrow> ann_Ingress \<Rightarrow> string \<Rightarrow> nat \<Rightarrow> lvs \<Rightarrow> lvs" where
  "add_condition backendName anns svc loc st =
     (let bk = \<lparr>bk_name = backendName, bk_weight = wc_Weight (an_Weight anns),
                bk_hashBy = an_UpstreamHashBy anns, bk_loadBalancingType = an_LoadBalancingType anns\<rparr>;
          g = globals st
      in st\<lparr>l7vs := map (upd_loc loc (\<lambda>l. l\<lparr>lo_NameCondition :=
                       map_set backendName (Ptr (fresh st) (condition_of anns)) (lo_NameCondition l)\<rparr>)) (l7vs st),
            globals := g\<lparr>l7PoolBackendMap := map_append svc bk (l7PoolBackendMap g)\<rparr>,
            fresh := fresh st + 1\<rparr>)"

definition path_step ::
  "Ingress \<Rightarrow> ann_Ingress \<Rightarrow> string \<Rightarrow> nat \<Rightarrow> HTTPIngressPath \<Rightarrow> lvs \<Rightarrow> lvs" where
  "path_step ing anns virSrvName vsAddr path st =
     (let locKey = virSrvName @ ''_'' @ hp_Path path;
          svc = ib_ServiceName (hp_Backend path);
          g = globals st;
          st = st\<lparr>globals := g\<lparr>l7PoolMap := add_set svc (l7PoolMap g)\<rparr>\<rparr>;
          (loc, st) = get_loc anns locKey vsAddr (hp_Path path) st
      in add_condition (l7_backendName ing anns locKey) anns svc loc st)"

definition rule_step ::
  "gw_env \<Rightarrow> Ingress \<Rightarrow> ann_Ingress \<Rightarrow> (string, SSLCert ptr) gomap \<Rightarrow> IngressRule \<Rightarrow> lvs \<Rightarrow> lvs option" where
  "rule_step env ing anns hostSSLMap rule st =
     (let virSrvName = l7_name hostSSLMap (ir_Host rule);
          (a, st) = get_vs virSrvName (l7_vs env ing anns hostSSLMap virSrvName) st
      in case ir_HTTP rule of
           None \<Rightarrow> None
         | Some paths \<Rightarrow> Some (fold (path_step ing anns virSrvName a) paths st))"

definition is_l4 :: "ann_Ingress \<Rightarrow> bool" where
  "is_l4 anns \<longleftrightarrow> L4Enable (an_L4 anns) \<and> L4Port (an_L4 anns) \<noteq> 0"

definition ingress_step :: "gw_env \<Rightarrow> Ingress \<Rightarrow> lvs \<Rightarrow> lvs option" where
  "ingress_step env ing st =
     (case ingressIsValid env ing of
        None \<Rightarrow> None
      | Some False \<Rightarrow> Some st
      | Some True \<Rightarrow>
          (case GetIngressAnnotations env (env_Key env (ing_Meta ing)) of
             None \<Rightarrow> Some st
           | Some anns \<Rightarrow>
               if is_l4 anns then l4_step env ing anns st
               else (let hostSSLMap = hostSSL env (om_Namespace (ing_Meta ing)) (ing_TLS ing) []
                     in foldM (rule_step env ing anns hostSSLMap) (ing_Rules ing) st)))"

definition redirect_rewrite :: rewrite_Config where
  "redirect_rewrite = zero_rewrite\<lparr>rc_Rewrites :=
     [\<lparr>rw_Regex = ''^'', rw_Replacement = ''https://$http_host$request_uri?'', rw_Flag = ''permanent''\<rparr>]\<rparr>"

definition redirect_path_step ::
  "ann_Ingress \<Rightarrow> string \<Rightarrow> nat \<Rightarrow> HTTPIngressPath \<Rightarrow> lvs \<Rightarrow> lvs" where
  "redirect_path_step anns virSrvName vsAddr path st =
     (let locKey = virSrvName @ ''_'' @ hp_Path path in
      if map_of (srvLocMap st) locKey \<noteq> None then st
      else (let l = \<lparr>lo_Path = hp_Path path, lo_NameCondition = [], lo_Rewrite = redirect_rewrite,
                     lo_Proxy = an_Proxy anns, lo_DisableProxyPass = True\<rparr>
            in st\<lparr>l7vs := map (upd_vs vsAddr (\<lambda>v. v\<lparr>vs_Locations := vs_Locations v @ [Ptr (fresh st) l]\<rparr>))
                            (l7vs st),
                  fresh := fresh st + 1\<rparr>))"

definition redirect_rule_step :: "gw_env \<Rightarrow> ann_Ingress \<Rightarrow> IngressRule \<Rightarrow> lvs \<Rightarrow> lvs option" where
  "redirect_rule_step env anns rule st =
     (let virSrvName = TrimSpace (ir_Host rule);
          new = zero_VirtualService\<lparr>vs_Listening := [Itoa (lp_HTTP (env_Ports env))],
                                    vs_ServerName := virSrvName\<rparr>;
          (a, st) = get_vs virSrvName new st
      in case ir_HTTP rule of
           None \<Rightarrow> None
         | Some paths \<Rightarrow> Some (fold (redirect_path_step anns virSrvName a) paths st))"

definition redirect_step :: "gw_env \<Rightarrow> Ingress \<Rightarrow> lvs \<Rightarrow> lvs option" where
  "redirect_step env ing st =
     (case ingressIsValid env ing of
        None \<Rightarrow> None
      | Some False \<Rightarrow> Some st
      | Some True \<Rightarrow>
          (let anns = (case GetIngressAnnotations env (env_Key env (ing_Meta ing)) of
                         None \<Rightarrow> empty_ann \<lparr>om_Name = [], om_Namespace = [], om_ResourceVersion = [],
                                            om_Annotations = [], om_Labels = []\<rparr>
                       | Some anns \<Rightarrow> anns)
           in if \<not> rc_ForceSSLRedirect (an_Rewrite anns) then Some st
              else if \<not> L4Enable (an_L4 anns) \<or> L4Port (an_L4 anns) = 0
              then foldM (redirect_rule_step env anns) (ing_Rules ing) st
              else Some st))"

definition init_lvs :: "pool_globals \<Rightarrow> nat \<Rightarrow> lvs" where
  "init_lvs g a =
     \<lparr>l7vs = [], l4vs = [], l7vsMap = [], l4vsMap = [], srvLocMap = [],
      globals = g\<lparr>l7PoolBackendMap := [], l4PoolBackendMap := []\<rparr>, fresh = a\<rparr>"

definition ListVirtualService :: "gw_env \<Rightarrow> pool_globals \<Rightarrow> nat \<Rightarrow> lvs option" where
  "ListVirtualService env g a =
     (case foldM (ingress_step env) (env_Ingresses env) (init_lvs g a) of
        None \<Rightarrow> None
      | Some st \<Rightarrow> foldM (redirect_step env) (env_Ingresses env) st)"

section \<open>ListPool\<close>

definition new_l7_pool :: "backend \<Rightarrow> Pool" where
  "new_l7_pool b =
     zero_Pool\<lparr>pl_Meta := zero_Meta\<lparr>Name := bk_name b, Namespace := ''default''\<rparr>,
               pl_UpstreamHashBy := bk_hashBy b,
               pl_LoadBalancingType := GetLoadBalancingType (bk_loadBalancingType b)\<rparr>"

definition new_l4_pool :: "backend \<Rightarrow> Pool" where
  "new_l4_pool b = zero_Pool\<lparr>pl_Meta := zero_Meta\<lparr>Name := bk_name b, Namespace := ''default''\<rparr>\<rparr>"

definition nodes_of :: "int \<Rightarrow> EndpointSubset list \<Rightarrow> Node list" where
  "nodes_of weight sss =
     concat (map (\<lambda>ss. concat (map (\<lambda>port. map (\<lambda>ip.
       zero_Node\<lparr>nd_Host := ip, nd_Port := port, nd_Weight := weight\<rparr>) (ss_Addresses ss)) (ss_Ports ss))) sss)"

fun alloc :: "nat \<Rightarrow> 'a list \<Rightarrow> 'a ptr list" where
  "alloc a [] = []"
| "alloc a (x # xs) = Ptr a x # alloc (Suc a) xs"

text \<open>The pools of one level (L7 or L4): \<open>new\<close> makes the pool, \<open>pm\<close> is \<open>l7PoolMap\<close> or \<open>l4PoolMap\<close>.\<close>

definition pool_step ::
  "(backend \<Rightarrow> Pool) \<Rightarrow> string list \<Rightarrow> Endpoints \<Rightarrow> backend \<Rightarrow> (string, Pool) gomap \<times> nat \<Rightarrow>
   (string, Pool) gomap \<times> nat" where
  "pool_step new pm ep b s =
     (let (pools, a) = s;
          pool = (case map_of pools (bk_name b) of None \<Rightarrow> new b | Some p \<Rightarrow> p);
          ns = (if om_Name (ep_Meta ep) \<in> set pm then nodes_of (bk_weight b) (subsets ep) else [])
      in (map_set (bk_name b) (pool\<lparr>pl_Nodes := pl_Nodes pool @ alloc a ns\<rparr>) pools, a + length ns))"

definition endpoint_step ::
  "(backend \<Rightarrow> Pool) \<Rightarrow> string list \<Rightarrow> (string, backend list) gomap \<Rightarrow> Endpoints \<Rightarrow>
   (string, Pool) gomap \<times> nat \<Rightarrow> (string, Pool) gomap \<times> nat" where
  "endpoint_step new pm bm ep s =
     (if ep_Subsets ep \<noteq> None \<or> length (subsets ep) \<noteq> 0
      then fold (pool_step new pm ep) (map_slice bm (om_Name (ep_Meta ep))) s
      else s)"

definition ListPool ::
  "((string, Pool) gomap \<Rightarrow> (string, Pool) gomap) \<Rightarrow> gw_env \<Rightarrow> pool_globals \<Rightarrow> nat \<Rightarrow>
   Pool ptr list \<times> Pool ptr list \<times> nat" where
  "ListPool rng env g a =
     (let (l7Pools, a) = fold (endpoint_step new_l7_pool (l7PoolMap g) (l7PoolBackendMap g)) (env_Endpoints env) ([], a);
          (l4Pools, a) = fold (endpoint_step new_l4_pool (l4PoolMap g) (l4PoolBackendMap g)) (env_Endpoints env) ([], a);
          httpPools = alloc a (map snd (rng l7Pools));
          a = a + length l7Pools;
          tcpPools = alloc a (map snd (rng l4Pools))
      in (httpPools, tcpPools, a + length l4Pools))"

end
