(* ===== verification/GwEquals.thy ===== *)
theory GwEquals
  imports GwModel
begin

text \<open>
  What the \<open>Equals\<close> methods of \<open>gateway/v1\<close> decide. For each type a view collects the fields the
  method reads, with maps as functions, unordered slices as sets and pointers followed; the
  interpretations of \<open>equals_view\<close> show that on well-formed objects of one heap the method is
  equality of views, so it is reflexive, symmetric and transitive there.
\<close>

section \<open>Views and well-formed objects\<close>

definition meta_view :: "Meta \<Rightarrow> Meta" where
  "meta_view m = m\<lparr>Index := 0\<rparr>"

definition cond_view :: "Condition \<Rightarrow> ConditionType \<times> (string \<rightharpoonup> string)" where
  "cond_view c = (cd_Type c, map_of (cd_Value c))"

abbreviation pcond_view where
  "pcond_view \<equiv> ptr_view cond_view"

abbreviation wf_pcond :: "(nat \<Rightarrow> Condition) \<Rightarrow> Condition ptr \<Rightarrow> bool" where
  "wf_pcond HC \<equiv> wf_ptr HC (\<lambda>c. wf_map (cd_Value c))"

definition loc_view where
  "loc_view l = (lo_Path l, map_option pcond_view \<circ> map_of (lo_NameCondition l), proxy_view (lo_Proxy l))"

definition wf_loc :: "(nat \<Rightarrow> Condition) \<Rightarrow> Location \<Rightarrow> bool" where
  "wf_loc HC l \<longleftrightarrow> wf_map (lo_NameCondition l) \<and> (\<forall>(n, c) \<in> set (lo_NameCondition l). wf_pcond HC c) \<and>
     wf_proxy (lo_Proxy l) \<and> no_empty_header (lo_Proxy l)"

abbreviation ploc_view where
  "ploc_view \<equiv> ptr_view loc_view"

abbreviation wf_ploc :: "(nat \<Rightarrow> Condition) \<Rightarrow> (nat \<Rightarrow> Location) \<Rightarrow> Location ptr \<Rightarrow> bool" where
  "wf_ploc HC HL \<equiv> wf_ptr HL (wf_loc HC)"

text \<open>
  A certificate as \<open>getCertificatePem\<close> builds it: the parsed certificate is there, and \<open>CN\<close> holds
  its common name, which parsing determines from the raw bytes (\<open>cn_of\<close>).
\<close>

definition wf_cert :: "(bytes \<Rightarrow> string) \<Rightarrow> SSLCert ptr \<Rightarrow> bool" where
  "wf_cert cn_of p \<longleftrightarrow> (\<forall>s. ptr_val p = Some s \<longrightarrow>
     (\<exists>c. ptr_val (sc_Certificate s) = Some c \<and> CommonName c = cn_of (Raw c) \<and> sc_CN s = [CommonName c]))"

definition vs_view where
  "vs_view v =
     (v\<lparr>vs_Meta := meta_view (vs_Meta v), vs_Listening := [], vs_RuleNames := [], vs_SSlProtocols := [],
        vs_SSLCert := NilPtr, vs_Locations := [], vs_ExtensionConfig := []\<rparr>,
      set (vs_Listening v), set (vs_RuleNames v), ploc_view ` set (vs_Locations v),
      ptr_addr (vs_SSLCert v), map_of (vs_ExtensionConfig v))"

definition wf_vs ::
  "(bytes \<Rightarrow> string) \<Rightarrow> (nat \<Rightarrow> Condition) \<Rightarrow> (nat \<Rightarrow> Location) \<Rightarrow> VirtualService \<Rightarrow> bool" where
  "wf_vs cn_of HC HL v \<longleftrightarrow>
     distinct (vs_Listening v) \<and> distinct (vs_RuleNames v) \<and>
     list_all (wf_ploc HC HL) (vs_Locations v) \<and> distinct (map ploc_view (vs_Locations v)) \<and>
     wf_cert cn_of (vs_SSLCert v) \<and>
     wf_map (vs_ExtensionConfig v) \<and> (\<forall>(k, x) \<in> set (vs_ExtensionConfig v). x \<noteq> IfNil)"

abbreviation pvs_view where
  "pvs_view \<equiv> ptr_view vs_view"

abbreviation wf_pvs where
  "wf_pvs cn_of HC HL HV \<equiv> wf_ptr HV (wf_vs cn_of HC HL)"

definition wf_config where
  "wf_config cn_of HC HL HV cfg \<longleftrightarrow>
     list_all (wf_pvs cn_of HC HL HV) (L7VS cfg) \<and> distinct (map pvs_view (L7VS cfg)) \<and>
     list_all (wf_pvs cn_of HC HL HV) (L4VS cfg) \<and> distinct (map pvs_view (L4VS cfg))"

definition config_view where
  "config_view cfg = (pvs_view ` set (L7VS cfg), pvs_view ` set (L4VS cfg))"

section \<open>Metadata and nodes\<close>

lemma meta_view_iff:
  "meta_view m = meta_view c \<longleftrightarrow>
     Name m = Name c \<and> Namespace m = Namespace c \<and> PluginName m = PluginName c \<and> ServiceID m = ServiceID c"
  by (cases m; cases c) (auto simp: meta_view_def)

interpretation meta_eq: equals_view Meta_Equals "wf_ptr H (\<lambda>_. True)" "ptr_view meta_view" for H
proof (rule ptr_equals_viewI)
  fix p q :: "Meta ptr"
  assume "is_nil p \<or> is_nil q"
  then show "Meta_Equals p q \<longleftrightarrow> is_nil p \<and> is_nil q" by (cases p; cases q) auto
qed (auto simp: meta_view_iff)

interpretation node_eq: equals_view Node_Equals "wf_ptr H (\<lambda>_. True)" "ptr_view id" for H
proof (rule ptr_equals_viewI)
  fix p q :: "Node ptr"
  assume "is_nil p \<or> is_nil q"
  then show "Node_Equals p q \<longleftrightarrow> is_nil p \<and> is_nil q" by (cases p; cases q) auto
qed auto

section \<open>Conditions and locations\<close>

lemma entries_test_map_of:
  assumes "wf_map m" "wf_map n"
  shows "length m = length n \<and> list_all (\<lambda>(k, v). map_of n k = Some v) m \<longleftrightarrow> map_of m = map_of n"
proof
  assume "length m = length n \<and> list_all (\<lambda>(k, v). map_of n k = Some v) m"
  then show "map_of m = map_of n"
    by (intro map_eq_by_entries assms) (auto simp: list_all_iff)
next
  assume eq: "map_of m = map_of n"
  then have "set (map fst m) = set (map fst n)"
    by (metis dom_map_of_conv_image_fst list.set_map)
  then have "length m = length n"
    using assms by (metis distinct_card length_map wf_map_def)
  with eq assms(1) show "length m = length n \<and> list_all (\<lambda>(k, v). map_of n k = Some v) m"
    by (auto simp: list_all_iff in_wf_map)
qed

lemma Condition_Equals_view:
  assumes "wf_map (cd_Value c)" "wf_map (cd_Value d)" "a \<noteq> b"
  shows "Condition_Equals (Ptr a c) (Ptr b d) \<longleftrightarrow> cond_view c = cond_view d"
  using entries_test_map_of [OF assms(1,2)] assms(3) by (auto simp: cond_view_def)

interpretation cond_eq: equals_view Condition_Equals "wf_pcond HC" pcond_view for HC
proof (rule ptr_equals_viewI)
  fix p q :: "Condition ptr"
  assume "is_nil p \<or> is_nil q"
  then show "Condition_Equals p q \<longleftrightarrow> is_nil p \<and> is_nil q" by (cases p; cases q) auto
qed (simp, rule Condition_Equals_view)

lemma conditions_test:
  fixes m n :: "(string, Condition ptr) gomap"
  assumes "wf_map m" "wf_map n" "\<forall>(k, c) \<in> set m. wf_pcond HC c" "\<forall>(k, c) \<in> set n. wf_pcond HC c"
  shows "length m = length n \<and>
      list_all (\<lambda>(name, lc). case map_of n name of None \<Rightarrow> False | Some cc \<Rightarrow> Condition_Equals cc lc) m \<longleftrightarrow>
    map_option pcond_view \<circ> map_of m = map_option pcond_view \<circ> map_of n" (is "?L \<longleftrightarrow> ?R")
proof -
  define v where "v = map (\<lambda>(k :: string, c). (k, pcond_view c))"
  have fst_v: "map fst (v q) = map fst q" and mv: "map_of (v q) = map_option pcond_view \<circ> map_of q" for q
    by (auto simp: v_def map_of_map comp_def)
  have step: "(case map_of n k of None \<Rightarrow> False | Some cc \<Rightarrow> Condition_Equals cc lc) \<longleftrightarrow>
      map_of (v n) k = Some (pcond_view lc)" if kc: "(k, lc) \<in> set m" for k lc
  proof (cases "map_of n k")
    case (Some cc)
    then have "wf_pcond HC cc" "wf_pcond HC lc" using assms(3,4) kc by (auto dest: map_of_SomeD)
    then show ?thesis using Some cond_eq.eq_view mv by simp
  qed (simp add: mv)
  have "?L \<longleftrightarrow> length (v m) = length (v n) \<and> list_all (\<lambda>(k, c). map_of (v n) k = Some c) (v m)"
    using step by (auto simp: list_all_iff v_def)
  also have "\<dots> \<longleftrightarrow> map_of (v m) = map_of (v n)"
    using assms(1,2) by (intro entries_test_map_of) (simp_all add: wf_map_def fst_v)
  finally show ?thesis by (simp add: mv)
qed

lemma Location_Equals_view:
  assumes "wf_loc HC l" "wf_loc HC c" "a \<noteq> b"
  shows "Location_Equals (Ptr a l) (Ptr b c) \<longleftrightarrow> loc_view l = loc_view c"
proof -
  have p: "proxy_Equal (Ptr a (lo_Proxy l)) (Ptr b (lo_Proxy c)) \<longleftrightarrow>
      proxy_view (lo_Proxy l) = proxy_view (lo_Proxy c)"
    using assms by (intro proxy_Equal_iff_view) (auto simp: wf_loc_def)
  show ?thesis
    using conditions_test [of "lo_NameCondition l" "lo_NameCondition c" HC] assms
    by (auto simp del: proxy_Equal.simps simp: p loc_view_def wf_loc_def)
qed

interpretation loc_eq: equals_view Location_Equals "wf_ploc HC HL" ploc_view for HC HL
proof (rule ptr_equals_viewI)
  fix p q :: "Location ptr"
  assume "is_nil p \<or> is_nil q"
  then show "Location_Equals p q \<longleftrightarrow> is_nil p \<and> is_nil q" by (cases p; cases q) auto
qed (simp, rule Location_Equals_view)

section \<open>Certificates\<close>

text \<open>On the certificates the gateway builds, \<open>Equals\<close> is identity of pointers: the loop over
  \<open>CN\<close> looks for a different name where it should look for the same one.\<close>

lemma SSLCert_Equals_ptr_eq:
  assumes "wf_cert cn_of p" "wf_cert cn_of q"
  shows "SSLCert_Equals p q \<longleftrightarrow> ptr_addr p = ptr_addr q"
proof (cases "\<exists>a s b c. p = Ptr a s \<and> q = Ptr b c")
  case True
  then obtain a s b c where pq: "p = Ptr a s" "q = Ptr b c" by blast
  obtain x where x: "ptr_val (sc_Certificate s) = Some x" "CommonName x = cn_of (Raw x)" "sc_CN s = [CommonName x]"
    using assms(1) pq by (auto simp: wf_cert_def)
  obtain y where y: "ptr_val (sc_Certificate c) = Some y" "CommonName y = cn_of (Raw y)" "sc_CN c = [CommonName y]"
    using assms(2) pq by (auto simp: wf_cert_def)
  show ?thesis
  proof (cases "sc_Certificate s"; cases "sc_Certificate c")
    fix i u j w
    assume "sc_Certificate s = Ptr i u" "sc_Certificate c = Ptr j w"
    with x y pq show ?thesis by auto
  qed (use x y in auto)
next
  case False
  then show ?thesis by (cases p; cases q) auto
qed

interpretation cert_eq: equals_view SSLCert_Equals "wf_cert cn_of" ptr_addr for cn_of
  by unfold_locales (rule SSLCert_Equals_ptr_eq)

section \<open>Virtual services and configurations\<close>

lemma ext_test:
  assumes "wf_map m" "wf_map n" "\<forall>(k, x) \<in> set m. x \<noteq> IfNil"
  shows "length m = length n \<and> list_all (\<lambda>(k, x). map_iface n k = x) m \<longleftrightarrow> map_of m = map_of n"
proof -
  have "map_iface n k = x \<longleftrightarrow> map_of n k = Some x" if "(k, x) \<in> set m" for k x
    using that assms(3) by (auto simp: map_iface_def split: option.splits)
  then have "list_all (\<lambda>(k, x). map_iface n k = x) m \<longleftrightarrow> list_all (\<lambda>(k, x). map_of n k = Some x) m"
    by (fastforce simp: list_all_iff)
  with entries_test_map_of [OF assms(1,2)] show ?thesis by simp
qed

lemma covers_str: "distinct xs \<Longrightarrow> distinct ys \<Longrightarrow> covers (=) xs ys \<longleftrightarrow> set xs = set (ys :: string list)"
  using str_eq.covers_view_distinct [of xs ys] by (simp add: list_all_iff)

lemma VirtualService_Equals_view:
  assumes "wf_vs cn_of HC HL v" "wf_vs cn_of HC HL c" "a \<noteq> b"
  shows "VirtualService_Equals (Ptr a v) (Ptr b c) \<longleftrightarrow> vs_view v = vs_view c"
proof -
  have l: "covers Location_Equals (vs_Locations v) (vs_Locations c) \<longleftrightarrow>
      ploc_view ` set (vs_Locations v) = ploc_view ` set (vs_Locations c)"
    using assms by (intro loc_eq.covers_view_distinct [where HC = HC and HL = HL]) (auto simp: wf_vs_def)
  have s: "SSLCert_Equals (vs_SSLCert v) (vs_SSLCert c) \<longleftrightarrow> ptr_addr (vs_SSLCert v) = ptr_addr (vs_SSLCert c)"
    using assms by (intro SSLCert_Equals_ptr_eq [of cn_of]) (auto simp: wf_vs_def)
  have e: "length (vs_ExtensionConfig v) = length (vs_ExtensionConfig c) \<and>
      list_all (\<lambda>(key, ve). map_iface (vs_ExtensionConfig c) key = ve) (vs_ExtensionConfig v) \<longleftrightarrow>
      map_of (vs_ExtensionConfig v) = map_of (vs_ExtensionConfig c)"
    using assms by (intro ext_test) (auto simp: wf_vs_def)
  have li: "covers (=) (vs_Listening v) (vs_Listening c) \<longleftrightarrow> set (vs_Listening v) = set (vs_Listening c)"
    and ru: "covers (=) (vs_RuleNames v) (vs_RuleNames c) \<longleftrightarrow> set (vs_RuleNames v) = set (vs_RuleNames c)"
    using assms by (auto simp: wf_vs_def intro!: covers_str)
  have m: "Meta_Equals (Ptr a (vs_Meta v)) (Ptr b (vs_Meta c)) \<longleftrightarrow> meta_view (vs_Meta v) = meta_view (vs_Meta c)"
    using \<open>a \<noteq> b\<close> by (auto simp: meta_view_iff)
  show ?thesis
    unfolding VirtualService_Equals.simps l s e li ru m vs_view_def
    using \<open>a \<noteq> b\<close> by (cases v; cases c) auto
qed

interpretation vs_eq: equals_view VirtualService_Equals "wf_pvs cn_of HC HL HV" pvs_view for cn_of HC HL HV
proof (rule ptr_equals_viewI)
  fix p q :: "VirtualService ptr"
  assume "is_nil p \<or> is_nil q"
  then show "VirtualService_Equals p q \<longleftrightarrow> is_nil p \<and> is_nil q" by (cases p; cases q) auto
qed (simp, rule VirtualService_Equals_view)

lemma Config_Equals_view:
  assumes "wf_config cn_of HC HL HV cfg" "wf_config cn_of HC HL HV c" "a \<noteq> b"
  shows "Config_Equals (Ptr a cfg) (Ptr b c) \<longleftrightarrow> config_view cfg = config_view c"
proof -
  have "covers VirtualService_Equals (L7VS cfg) (L7VS c) \<longleftrightarrow> pvs_view ` set (L7VS cfg) = pvs_view ` set (L7VS c)"
    using assms by (intro vs_eq.covers_view_distinct [where cn_of = cn_of and HC = HC and HL = HL and HV = HV]) (auto simp: wf_config_def)
  moreover have "covers VirtualService_Equals (L4VS cfg) (L4VS c) \<longleftrightarrow> pvs_view ` set (L4VS cfg) = pvs_view ` set (L4VS c)"
    using assms by (intro vs_eq.covers_view_distinct [where cn_of = cn_of and HC = HC and HL = HL and HV = HV]) (auto simp: wf_config_def)
  ultimately show ?thesis using \<open>a \<noteq> b\<close> by (simp add: config_view_def)
qed

end
