(* ===== verification/GwStoreInv.thy ===== *)
theory GwStoreInv
  imports GwStore GwEquals
begin

text \<open>
  What \<open>ListVirtualService\<close> and \<open>ListPool\<close> guarantee. \<open>vs_inv\<close> is the consistency of the slice
  \<open>l7vs\<close> with the map \<open>l7vsMap\<close>, \<open>loc_inv\<close> that of the locations with \<open>srvLocMap\<close> and of their
  backends with the pool maps, \<open>tls_inv\<close> that a server with TLS has a certificate; each step of the
  loops keeps them.
\<close>

section \<open>The servers\<close>

fun vs_entry :: "VirtualService ptr \<Rightarrow> string \<times> nat" where
  "vs_entry NilPtr = ([], 0)"
| "vs_entry (Ptr a v) = (vs_ServerName v, a)"

definition vs_inv :: "lvs \<Rightarrow> bool" where
  "vs_inv st \<longleftrightarrow> NilPtr \<notin> set (l7vs st) \<and> l7vsMap st = map vs_entry (l7vs st) \<and> wf_map (l7vsMap st) \<and>
     distinct (map ptr_addr (l7vs st)) \<and> (\<forall>x \<in> set (l7vsMap st). snd x < fresh st)"

lemma vs_inv_update:
  assumes "vs_inv st" "l7vs st' = map h (l7vs st)" "l7vsMap st' = l7vsMap st" "fresh st \<le> fresh st'"
    and "\<And>p. vs_entry (h p) = vs_entry p" "\<And>p. ptr_addr (h p) = ptr_addr p"
  shows "vs_inv st'"
proof -
  have "h p = NilPtr \<longleftrightarrow> p = NilPtr" for p
    using assms(6) [of p] by (cases p; cases "h p") auto
  then have "NilPtr \<notin> set (l7vs st')"
    using assms(1,2) unfolding vs_inv_def by (metis (no_types) imageE list.set_map)
  moreover have "map vs_entry (l7vs st') = map vs_entry (l7vs st)"
    and "map ptr_addr (l7vs st') = map ptr_addr (l7vs st)"
    using assms by (simp_all add: o_def)
  moreover have "\<forall>x \<in> set (l7vsMap st). snd x < fresh st'"
    using assms(1,4) unfolding vs_inv_def by (meson order_less_le_trans)
  ultimately show ?thesis
    using assms(1) unfolding vs_inv_def assms(3) by metis
qed

lemma vs_inv_same:
  assumes "vs_inv st" "l7vs st' = l7vs st" "l7vsMap st' = l7vsMap st" "fresh st \<le> fresh st'"
  shows "vs_inv st'"
  using assms by (intro vs_inv_update [OF assms(1), of st' "\<lambda>p. p"]) simp_all

lemma vs_inv_below: "vs_inv st \<Longrightarrow> Ptr a v \<in> set (l7vs st) \<Longrightarrow> a < fresh st"
  unfolding vs_inv_def by (metis image_eqI list.set_map snd_conv vs_entry.simps(2))

lemma vs_entry_upd [simp]:
  "(\<And>v. vs_ServerName (f v) = vs_ServerName v) \<Longrightarrow> vs_entry (upd_vs a f p) = vs_entry p"
  "vs_entry (upd_loc a g p) = vs_entry p"
  by (cases p; simp)+

lemma ptr_addr_upd [simp]: "ptr_addr (upd_vs a f p) = ptr_addr p" "ptr_addr (upd_loc a g p) = ptr_addr p"
  by (cases p; simp)+

lemma update_absent: "map_of m k = None \<Longrightarrow> map_set k v m = m @ [(k, v)]"
  by (induction m) (auto split: if_splits)

lemma vs_inv_get_vs:
  assumes "vs_inv st" "vs_ServerName new = n" "get_vs n new st = (a, st')"
  shows "vs_inv st'" and "map_of (l7vsMap st') n = Some a"
proof -
  have "vs_inv st' \<and> map_of (l7vsMap st') n = Some a"
  proof (cases "map_of (l7vsMap st) n")
    case None
    have keys: "wf_map (l7vsMap st @ [(n, b)])" for b
      using None assms(1) by (auto simp: vs_inv_def wf_map_def map_of_eq_None_iff)
    have "Some (fresh st) \<notin> ptr_addr ` set (l7vs st)"
    proof
      assume "Some (fresh st) \<in> ptr_addr ` set (l7vs st)"
      then obtain p where "p \<in> set (l7vs st)" "ptr_addr p = Some (fresh st)" by auto
      then obtain v where "Ptr (fresh st) v \<in> set (l7vs st)" by (auto simp: ptr_addr_Some)
      from vs_inv_below [OF assms(1) this] show False by simp
    qed
    moreover have "st' = st\<lparr>l7vs := l7vs st @ [Ptr (fresh st) new],
        l7vsMap := l7vsMap st @ [(n, fresh st)], fresh := fresh st + 1\<rparr>" "a = fresh st"
      using assms(3) None by (auto simp: get_vs_def update_absent)
    ultimately show ?thesis
      using assms(1,2) None keys by (simp add: vs_inv_def less_Suc_eq map_add_def)
  qed (use assms in \<open>auto simp: get_vs_def\<close>)
  then show "vs_inv st'" and "map_of (l7vsMap st') n = Some a" by auto
qed

lemma get_vs_lookup:
  assumes "vs_inv st" "map_of (l7vsMap st) n = Some a"
  obtains v where "Ptr a v \<in> set (l7vs st)" "vs_ServerName v = n"
proof -
  have "(n, a) \<in> set (l7vsMap st)" using assms(2) by (rule map_of_SomeD)
  then obtain p where p: "p \<in> set (l7vs st)" "vs_entry p = (n, a)"
    using assms(1) by (auto simp: vs_inv_def)
  have "p \<noteq> NilPtr" using p(1) assms(1) unfolding vs_inv_def by blast
  then obtain b v where "p = Ptr b v" by (cases p) auto
  with p that show thesis by simp
qed

text \<open>An address of the slice determines the server.\<close>

lemma vs_inv_unique:
  assumes "vs_inv st" "Ptr a v \<in> set (l7vs st)" "Ptr a w \<in> set (l7vs st)"
  shows "v = w"
proof -
  have "inj_on ptr_addr (set (l7vs st))" using assms(1) by (simp add: vs_inv_def distinct_map)
  from inj_onD [OF this _ assms(2,3)] show ?thesis by simp
qed

section \<open>The locations\<close>

definition registered :: "pool_globals \<Rightarrow> string \<Rightarrow> bool" where
  "registered g n \<longleftrightarrow> (\<exists>svc \<in> set (l7PoolMap g). \<exists>b \<in> set (map_slice (l7PoolBackendMap g) svc). bk_name b = n)"

definition pool_le :: "pool_globals \<Rightarrow> pool_globals \<Rightarrow> bool" where
  "pool_le g h \<longleftrightarrow> set (l7PoolMap g) \<subseteq> set (l7PoolMap h) \<and>
     (\<forall>svc. set (map_slice (l7PoolBackendMap g) svc) \<subseteq> set (map_slice (l7PoolBackendMap h) svc))"

lemma registered_mono: "pool_le g h \<Longrightarrow> registered g n \<Longrightarrow> registered h n"
  unfolding registered_def pool_le_def by blast

lemma set_add_set [simp]: "set (add_set x xs) = insert x (set xs)"
  by (auto simp: add_set_def)

text \<open>
  A location that serves traffic is the one of its key, and its conditions are not empty and name
  registered backends (those at the addresses \<open>X\<close> are being built and may have none yet); a
  redirect has no condition and passes nothing on.
\<close>

definition proxy_loc :: "nat set \<Rightarrow> lvs \<Rightarrow> string \<Rightarrow> nat \<Rightarrow> Location \<Rightarrow> bool" where
  "proxy_loc X st n b l \<longleftrightarrow> map_of (srvLocMap st) (n @ ''_'' @ lo_Path l) = Some b \<and>
     (b \<in> X \<or> lo_NameCondition l \<noteq> []) \<and> (\<forall>x \<in> set (lo_NameCondition l). registered (globals st) (fst x)) \<and>
     \<not> lo_DisableProxyPass l"

definition redirect_loc :: "Location \<Rightarrow> bool" where
  "redirect_loc l \<longleftrightarrow> lo_NameCondition l = [] \<and> lo_DisableProxyPass l \<and> lo_Rewrite l = redirect_rewrite"

definition locs_ok :: "(string \<Rightarrow> nat \<Rightarrow> Location \<Rightarrow> bool) \<Rightarrow> nat \<Rightarrow> VirtualService \<Rightarrow> bool" where
  "locs_ok P f v \<longleftrightarrow> distinct (map ptr_addr (vs_Locations v)) \<and>
     (\<forall>q \<in> set (vs_Locations v). \<exists>b l. q = Ptr b l \<and> b < f \<and> P (vs_ServerName v) b l)"

definition loc_inv :: "(lvs \<Rightarrow> string \<Rightarrow> nat \<Rightarrow> Location \<Rightarrow> bool) \<Rightarrow> lvs \<Rightarrow> bool" where
  "loc_inv P st \<longleftrightarrow> (\<forall>a v. Ptr a v \<in> set (l7vs st) \<longrightarrow> locs_ok (P st) (fresh st) v)"

lemma locs_ok_mono:
  assumes "locs_ok P f v" "f \<le> f'" "\<And>b l. Ptr b l \<in> set (vs_Locations v) \<Longrightarrow> P (vs_ServerName v) b l \<Longrightarrow> Q (vs_ServerName v) b l"
  shows "locs_ok Q f' v"
  using assms unfolding locs_ok_def by (metis order_less_le_trans)

lemma locs_ok_append:
  assumes "locs_ok P f v" "f < f'" "P (vs_ServerName v) f l"
  shows "locs_ok P f' (v\<lparr>vs_Locations := vs_Locations v @ [Ptr f l]\<rparr>)"
proof -
  have "Some f \<notin> ptr_addr ` set (vs_Locations v)"
    using assms(1) unfolding locs_ok_def by (metis image_iff less_irrefl option.inject ptr_addr.simps(2))
  with assms show ?thesis by (force simp: locs_ok_def)
qed

lemma upd_loc_ptr_addr [simp]: "ptr_addr (upd_loc_ptr a g q) = ptr_addr q"
  by (cases q) auto

lemma locs_ok_upd:
  assumes "locs_ok P f v" "\<And>b l. P (vs_ServerName v) b l \<Longrightarrow> Q (vs_ServerName v) b (if b = a then g l else l)"
  shows "locs_ok Q f (v\<lparr>vs_Locations := map (upd_loc_ptr a g) (vs_Locations v)\<rparr>)"
  using assms by (force simp: locs_ok_def o_def)

lemma Ptr_in_map_upd_vs:
  assumes "Ptr a v \<in> set (map (upd_vs va f) ps)"
  obtains w where "Ptr a w \<in> set ps" "v = (if a = va then f w else w)"
proof -
  obtain p where p: "p \<in> set ps" "upd_vs va f p = Ptr a v" using assms by auto
  then obtain w where "p = Ptr a w" "v = (if a = va then f w else w)" by (cases p rule: ptr.exhaust) auto
  with p that show thesis by blast
qed

lemma Ptr_in_map_upd_loc:
  assumes "Ptr a v \<in> set (map (upd_loc la g) ps)"
  obtains w where "Ptr a w \<in> set ps" "v = w\<lparr>vs_Locations := map (upd_loc_ptr la g) (vs_Locations w)\<rparr>"
proof -
  obtain p where p: "p \<in> set ps" "upd_loc la g p = Ptr a v" using assms by auto
  then obtain w where "p = Ptr a w" "v = w\<lparr>vs_Locations := map (upd_loc_ptr la g) (vs_Locations w)\<rparr>"
    by (cases p rule: ptr.exhaust) auto
  with p that show thesis by blast
qed

lemma loc_inv_same:
  assumes "loc_inv P st" "l7vs st' = l7vs st" "fresh st \<le> fresh st'"
    "\<And>n b l. P st n b l \<Longrightarrow> Q st' n b l"
  shows "loc_inv Q st'"
  using assms unfolding loc_inv_def by (metis locs_ok_mono)

lemma get_loc_inv:
  assumes inv: "vs_inv st" "loc_inv (proxy_loc {}) st" and va: "map_of (l7vsMap st) n = Some va"
    and g: "get_loc anns (n @ ''_'' @ path) va path st = (loc, st')"
  shows "vs_inv st'" "loc_inv (proxy_loc {loc}) st'" "l7vsMap st' = l7vsMap st" "globals st' = globals st"
proof -
  let ?k = "n @ ''_'' @ path"
  have "vs_inv st' \<and> loc_inv (proxy_loc {loc}) st' \<and> l7vsMap st' = l7vsMap st \<and> globals st' = globals st"
  proof (cases "map_of (srvLocMap st) ?k")
    case (Some b)
    then have "st' = st" "loc = b" using g by (auto simp: get_loc_def)
    with inv show ?thesis by (auto intro: loc_inv_same simp: proxy_loc_def)
  next
    case None
    define l where "l = \<lparr>lo_Path = path, lo_NameCondition = [], lo_Rewrite = zero_rewrite,
                    lo_Proxy = an_Proxy anns, lo_DisableProxyPass = False\<rparr>"
    define f where "f v = v\<lparr>vs_Locations := vs_Locations v @ [Ptr (fresh st) l]\<rparr>" for v :: VirtualService
    have st': "loc = fresh st"
        "st' = st\<lparr>srvLocMap := map_set ?k (fresh st) (srvLocMap st), l7vs := map (upd_vs va f) (l7vs st),
                  fresh := fresh st + 1\<rparr>"
      using g None by (auto simp add: get_loc_def l_def f_def [abs_def] Let_def)
    have "vs_inv st'"
      by (rule vs_inv_update [OF inv(1), of _ "upd_vs va f"]) (simp_all add: st' f_def)
    moreover have "loc_inv (proxy_loc {loc}) st'"
      unfolding loc_inv_def
    proof (intro allI impI)
      fix a v assume "Ptr a v \<in> set (l7vs st')"
      then have "Ptr a v \<in> set (map (upd_vs va f) (l7vs st))" by (simp add: st')
      then obtain w where w: "Ptr a w \<in> set (l7vs st)" "v = (if a = va then f w else w)"
        by (rule Ptr_in_map_upd_vs)
      have "locs_ok (proxy_loc {} st) (fresh st) w" using inv(2) w(1) by (simp add: loc_inv_def)
      then have ok: "locs_ok (proxy_loc {loc} st') (fresh st) w"
        by (rule locs_ok_mono) (use None in \<open>auto simp: proxy_loc_def st'\<close>)
      show "locs_ok (proxy_loc {loc} st') (fresh st') v"
      proof (cases "a = va")
        case True
        obtain u where "Ptr va u \<in> set (l7vs st)" "vs_ServerName u = n"
          using inv(1) va by (rule get_vs_lookup)
        then have "vs_ServerName w = n" using vs_inv_unique [OF inv(1)] w(1) True by blast
        then have "proxy_loc {loc} st' (vs_ServerName w) (fresh st) l" by (simp add: proxy_loc_def st' l_def)
        with ok True w show ?thesis by (simp add: f_def st' locs_ok_append)
      next
        case False
        with ok w show ?thesis by (auto intro: locs_ok_mono simp: st')
      qed
    qed
    ultimately show ?thesis by (simp add: st')
  qed
  then show "vs_inv st'" "loc_inv (proxy_loc {loc}) st'" "l7vsMap st' = l7vsMap st" "globals st' = globals st"
    by blast+
qed

lemma add_condition_inv:
  assumes inv: "vs_inv st" "loc_inv (proxy_loc {loc}) st" and svc: "svc \<in> set (l7PoolMap (globals st))"
  shows "vs_inv (add_condition bn anns svc loc st)"
    and "loc_inv (proxy_loc {}) (add_condition bn anns svc loc st)"
    and "l7vsMap (add_condition bn anns svc loc st) = l7vsMap st"
    and "pool_le (globals st) (globals (add_condition bn anns svc loc st))"
proof -
  let ?st = "add_condition bn anns svc loc st"
  define g where "g l = l\<lparr>lo_NameCondition := map_set bn (Ptr (fresh st) (condition_of anns)) (lo_NameCondition l)\<rparr>"
    for l :: Location
  have l7: "l7vs ?st = map (upd_loc loc g) (l7vs st)" "fresh ?st = fresh st + 1"
    "srvLocMap ?st = srvLocMap st" "l7vsMap ?st = l7vsMap st"
    by (simp_all add: add_condition_def g_def [abs_def] Let_def)
  show le: "pool_le (globals st) (globals ?st)" by (auto simp: pool_le_def add_condition_def Let_def)
  have reg: "registered (globals ?st) bn"
    using svc by (force simp: registered_def add_condition_def Let_def)
  show "vs_inv ?st" by (rule vs_inv_update [OF inv(1) l7(1)]) (simp_all add: l7)
  show "loc_inv (proxy_loc {}) ?st"
    unfolding loc_inv_def
  proof (intro allI impI)
    fix a v assume "Ptr a v \<in> set (l7vs ?st)"
    then obtain w where w: "Ptr a w \<in> set (l7vs st)" "v = w\<lparr>vs_Locations := map (upd_loc_ptr loc g) (vs_Locations w)\<rparr>"
      unfolding l7 by (rule Ptr_in_map_upd_loc)
    have "locs_ok (proxy_loc {loc} st) (fresh st) w"
      using inv(2) w(1) by (simp add: loc_inv_def)
    then have "locs_ok (proxy_loc {loc} st) (fresh ?st) w"
      by (rule locs_ok_mono) (simp_all add: l7)
    then show "locs_ok (proxy_loc {} ?st) (fresh ?st) v"
      unfolding w(2)
    proof (rule locs_ok_upd)
      fix b l assume p: "proxy_loc {loc} st (vs_ServerName w) b l"
      have k: "fst ` set (map_set bn c m) = insert bn (fst ` set m)" for c and m :: "(string, Condition ptr) gomap"
        using keys_map_set [of bn c m] by simp
      have "map_set bn c m \<noteq> []" for c and m :: "(string, Condition ptr) gomap"
        using k [of c m] by auto
      moreover have "\<forall>x \<in> set (map_set bn c (lo_NameCondition l)). registered (globals ?st) (fst x)" for c
        using k [of c "lo_NameCondition l"] p reg registered_mono [OF le] unfolding proxy_loc_def
        by (metis (no_types, lifting) image_iff insert_iff)
      ultimately show "proxy_loc {} ?st (vs_ServerName w) b (if b = loc then g l else l)"
        using p registered_mono [OF le] by (auto simp: proxy_loc_def g_def l7)
    qed
  qed
  show "l7vsMap ?st = l7vsMap st" by (fact l7)
qed

lemma path_step_inv:
  assumes inv: "vs_inv st" "loc_inv (proxy_loc {}) st" and va: "map_of (l7vsMap st) n = Some va"
  shows "vs_inv (path_step ing anns n va path st)" "loc_inv (proxy_loc {}) (path_step ing anns n va path st)"
    "l7vsMap (path_step ing anns n va path st) = l7vsMap st"
proof -
  define st1 where "st1 = st\<lparr>globals := (globals st)\<lparr>l7PoolMap :=
      add_set (ib_ServiceName (hp_Backend path)) (l7PoolMap (globals st))\<rparr>\<rparr>"
  have "pool_le (globals st) (globals st1)" by (auto simp: pool_le_def st1_def)
  then have 1: "loc_inv (proxy_loc {}) st1"
    by (intro loc_inv_same [OF inv(2)]) (auto simp: proxy_loc_def st1_def intro: registered_mono)
  have 2: "vs_inv st1" by (rule vs_inv_same [OF inv(1)]) (simp_all add: st1_def)
  obtain loc st2 where g: "get_loc anns (n @ ''_'' @ hp_Path path) va (hp_Path path) st1 = (loc, st2)"
    by fastforce
  note gi = get_loc_inv [OF 2 1 _ g]
  have va1: "map_of (l7vsMap st1) n = Some va" using va by (simp add: st1_def)
  have svc: "ib_ServiceName (hp_Backend path) \<in> set (l7PoolMap (globals st2))"
    using gi(4) [OF va1] by (simp add: st1_def)
  have p: "path_step ing anns n va path st =
      add_condition (l7_backendName ing anns (n @ ''_'' @ hp_Path path)) anns (ib_ServiceName (hp_Backend path)) loc st2"
    using g by (simp add: path_step_def st1_def Let_def)
  show "vs_inv (path_step ing anns n va path st)" "loc_inv (proxy_loc {}) (path_step ing anns n va path st)"
    unfolding p by (rule add_condition_inv [OF gi(1) [OF va1] gi(2) [OF va1] svc])+
  show "l7vsMap (path_step ing anns n va path st) = l7vsMap st"
    unfolding p add_condition_inv(3) [OF gi(1) [OF va1] gi(2) [OF va1] svc] gi(3) [OF va1] by (simp add: st1_def)
qed

lemma fold_path_step_inv:
  assumes "vs_inv st" "loc_inv (proxy_loc {}) st" "map_of (l7vsMap st) n = Some va"
  shows "vs_inv (fold (path_step ing anns n va) paths st) \<and>
    loc_inv (proxy_loc {}) (fold (path_step ing anns n va) paths st)"
  using assms by (induction paths arbitrary: st) (simp_all add: path_step_inv)

lemma loc_inv_get_vs:
  assumes "loc_inv P st" "vs_Locations new = []" "get_vs n new st = (a, st')"
    and "\<And>n b l. P st n b l \<Longrightarrow> P st' n b l"
  shows "loc_inv P st'"
proof -
  have m: "fresh st \<le> fresh st'" "\<And>a v. Ptr a v \<in> set (l7vs st') \<Longrightarrow> Ptr a v \<in> set (l7vs st) \<or> v = new"
    using assms(3) by (auto simp: get_vs_def split: option.splits)
  have "locs_ok (P st') f new" for f using assms(2) by (simp add: locs_ok_def)
  then show ?thesis
    using assms(1) m assms(4) unfolding loc_inv_def by (metis locs_ok_mono)
qed

lemma proxy_loc_get_vs: "get_vs n new st = (a, st') \<Longrightarrow> proxy_loc X st m b l \<Longrightarrow> proxy_loc X st' m b l"
  by (auto simp: get_vs_def proxy_loc_def split: option.splits)

lemma l7_vs_simps [simp]:
  "vs_ServerName (l7_vs env ing anns m n) = n" "vs_Locations (l7_vs env ing anns m n) = []"
  by (auto simp: l7_vs_def Let_def zero_VirtualService_def)

lemma rule_step_inv:
  assumes "rule_step env ing anns m rule st = Some st'" "vs_inv st \<and> loc_inv (proxy_loc {}) st"
  shows "vs_inv st' \<and> loc_inv (proxy_loc {}) st'"
proof -
  define n where "n = l7_name m (ir_Host rule)"
  obtain a st1 where g: "get_vs n (l7_vs env ing anns m n) st = (a, st1)" by fastforce
  obtain paths where "st' = fold (path_step ing anns n a) paths st1"
    using assms(1) g by (auto simp: rule_step_def Let_def n_def split: option.splits)
  moreover have "vs_inv st1" "map_of (l7vsMap st1) n = Some a"
    using vs_inv_get_vs [OF _ _ g] assms(2) by simp_all
  moreover have "loc_inv (proxy_loc {}) st1"
    using loc_inv_get_vs [OF _ _ g] proxy_loc_get_vs [OF g] assms(2) by simp
  ultimately show ?thesis using fold_path_step_inv by blast
qed

section \<open>The fields other than the locations\<close>

definition head :: "VirtualService \<Rightarrow> VirtualService" where
  "head v = v\<lparr>vs_Locations := []\<rparr>"

abbreviation heads :: "lvs \<Rightarrow> VirtualService ptr list" where
  "heads st \<equiv> map (map_ptr head) (l7vs st)"

definition vs_all :: "(VirtualService \<Rightarrow> bool) \<Rightarrow> lvs \<Rightarrow> bool" where
  "vs_all Q st \<longleftrightarrow> (\<forall>a v. Ptr a v \<in> set (l7vs st) \<longrightarrow> Q (head v))"

lemma vs_all_heads: "vs_all Q st \<longleftrightarrow> (\<forall>a v. Ptr a v \<in> set (heads st) \<longrightarrow> Q v)"
proof -
  have "Ptr a v = map_ptr head p \<longleftrightarrow> (\<exists>w. p = Ptr a w \<and> v = head w)" for a v p by (cases p) auto
  then show ?thesis by (simp add: vs_all_def image_iff) blast
qed

lemma head_upd [simp]:
  "(\<And>v. head (f v) = head v) \<Longrightarrow> map_ptr head (upd_vs a f p) = map_ptr head p"
  "map_ptr head (upd_loc a g p) = map_ptr head p"
  by (cases p; simp add: head_def)+

lemma heads_path_step [simp]: "heads (path_step ing anns n a path st) = heads st"
proof -
  have "heads (snd (get_loc anns k a q s)) = heads s" for k q s
    by (auto simp: get_loc_def Let_def o_def head_def split: option.splits)
  moreover have "heads (add_condition bn anns svc l s) = heads s" for bn svc l s
    by (simp add: add_condition_def Let_def o_def)
  ultimately show ?thesis
    by (auto simp del: map_map simp: path_step_def Let_def split: prod.splits)
      (metis (no_types, lifting) lvs.select_convs(1) lvs.surjective lvs.update_convs(6) snd_conv)
qed

lemma heads_redirect_path_step [simp]: "heads (redirect_path_step anns n a path st) = heads st"
  by (auto simp: redirect_path_step_def Let_def o_def head_def)

lemma heads_fold [simp]: "(\<And>x s. heads (f x s) = heads s) \<Longrightarrow> heads (fold f xs st) = heads st"
  by (induction xs arbitrary: st) simp_all

lemma vs_all_get_vs:
  "get_vs n new st = (a, st') \<Longrightarrow> vs_all Q st \<Longrightarrow> Q (head new) \<Longrightarrow> vs_all Q st'"
  by (auto simp: get_vs_def vs_all_def split: option.splits)

text \<open>A server that listens with TLS has a certificate.\<close>

definition tls_ok :: "VirtualService \<Rightarrow> bool" where
  "tls_ok v \<longleftrightarrow> (''ssl'' \<in> set (vs_Listening v) \<longrightarrow> \<not> is_nil (vs_SSLCert v))"

definition wf_ssl :: "gw_env \<Rightarrow> bool" where
  "wf_ssl env \<longleftrightarrow> (\<forall>k. env_SSLStore env k \<noteq> Some NilPtr)"

lemma tls_hosts_ok:
  "\<not> is_nil c \<Longrightarrow> \<forall>x \<in> set m. \<not> is_nil (snd x) \<Longrightarrow> \<forall>x \<in> set (tls_hosts hs c m). \<not> is_nil (snd x)"
proof (induction hs arbitrary: m)
  case (Cons h hs)
  have "set (map_set h c m) \<subseteq> insert (h, c) (set m)" by (induction m) auto
  with Cons show ?case by (metis (no_types, lifting) insertE snd_conv subsetD tls_hosts.simps(2))
qed simp

lemma hostSSL_ok:
  assumes "wf_ssl env" "\<forall>x \<in> set m. \<not> is_nil (snd x)" "m \<noteq> [] \<Longrightarrow> map_of m DefVirSrvName \<noteq> None"
  shows "(\<forall>x \<in> set (hostSSL env ns tlss m). \<not> is_nil (snd x)) \<and>
    (hostSSL env ns tlss m \<noteq> [] \<longrightarrow> map_of (hostSSL env ns tlss m) DefVirSrvName \<noteq> None)"
  using assms
proof (induction tlss arbitrary: m)
  case (Cons t tlss)
  show ?case
  proof (cases "env_SSLStore env (ns @ ''/'' @ it_SecretName t)")
    case (Some c)
    then have c: "\<not> is_nil c" using assms(1) by (auto simp: wf_ssl_def is_nil_iff)
    define m' where "m' = tls_hosts (it_Hosts t) c m"
    define m'' where "m'' = (if map_of m' DefVirSrvName = None then map_set DefVirSrvName c m' else m')"
    have "\<forall>x \<in> set m'. \<not> is_nil (snd x)" unfolding m'_def by (rule tls_hosts_ok [OF c Cons.prems(2)])
    moreover have "set (map_set DefVirSrvName c m') \<subseteq> insert (DefVirSrvName, c) (set m')" by (induction m') auto
    ultimately have "\<forall>x \<in> set m''. \<not> is_nil (snd x)" using c by (auto simp: m''_def)
    moreover have "map_of m'' DefVirSrvName \<noteq> None" by (simp add: m''_def)
    moreover have "hostSSL env ns (t # tlss) m = hostSSL env ns tlss m''" 
      using Some by (simp add: m'_def m''_def Let_def)
    ultimately show ?thesis using Cons.IH [OF assms(1), of m''] by simp
  qed (use Cons in simp)
qed simp

lemma Itoa_ssl [simp]: "Itoa i \<noteq> ''ssl''" "''ssl'' \<noteq> Itoa i"
proof -
  show *: "Itoa i \<noteq> ''ssl''"
  proof
    assume "Itoa i = ''ssl''"
    then have "CHR ''s'' \<in> set (Itoa i)" by simp
    from set_Itoa [OF this] show False by (simp add: is_digit_def)
  qed
  then show "''ssl'' \<noteq> Itoa i" by metis
qed

lemma l7_vs_tls:
  assumes "wf_ssl env" and m: "m = hostSSL env ns tlss []"
  shows "tls_ok (head (l7_vs env ing anns m n))"
proof (cases "m = []")
  case False
  then obtain c where c: "map_of m DefVirSrvName = Some c" "\<not> is_nil c"
    using hostSSL_ok [OF assms(1), of "[]" ns tlss] unfolding m
    by (metis empty_iff empty_set map_of_SomeD not_None_eq snd_conv)
  have "\<not> is_nil (vs_SSLCert (l7_vs env ing anns m n))"
    using False c by (auto simp: l7_vs_def Let_def map_cert_def)
  then show ?thesis by (simp add: tls_ok_def head_def)
qed (auto simp: tls_ok_def head_def l7_vs_def Let_def zero_VirtualService_def)

section \<open>The stream servers\<close>

definition l4_part :: "lvs \<Rightarrow> VirtualService ptr list \<times> string list \<times> (string, backend list) gomap" where
  "l4_part st = (l4vs st, l4PoolMap (globals st), l4PoolBackendMap (globals st))"

definition own_ports :: "gw_env \<Rightarrow> int set" where
  "own_ports env = {lp_HTTP (env_Ports env), lp_HTTPS (env_Ports env), lp_Health (env_Ports env), lp_Status (env_Ports env)}"

definition l4_ok :: "gw_env \<Rightarrow> lvs \<Rightarrow> VirtualService \<Rightarrow> bool" where
  "l4_ok env st v \<longleftrightarrow>
     (\<exists>host port. vs_Listening v = [l4_listening host port (vs_Protocol v)] \<and> port \<notin> own_ports env) \<and>
     (\<exists>svc \<in> set (l4PoolMap (globals st)). \<exists>b \<in> set (map_slice (l4PoolBackendMap (globals st)) svc).
        bk_name b = vs_PoolName v)"

definition l4_inv :: "gw_env \<Rightarrow> lvs \<Rightarrow> bool" where
  "l4_inv env st \<longleftrightarrow> (\<forall>p \<in> set (l4vs st). \<exists>a v. p = Ptr a v \<and> l4_ok env st v)"

lemma l4_inv_part: "l4_part st = l4_part st' \<Longrightarrow> l4_inv env st = l4_inv env st'"
  by (auto simp: l4_part_def l4_inv_def l4_ok_def)

lemma l4_part_steps [simp]:
  "l4_part (path_step ing anns n a path st) = l4_part st"
  "l4_part (redirect_path_step anns n a path st) = l4_part st"
  "get_vs n new st = (a', st') \<Longrightarrow> l4_part st' = l4_part st"
  by (auto simp: l4_part_def path_step_def get_loc_def add_condition_def redirect_path_step_def get_vs_def Let_def
      split: prod.splits option.splits)

lemma l4_part_fold [simp]: "(\<And>x s. l4_part (f x s) = l4_part s) \<Longrightarrow> l4_part (fold f xs st) = l4_part st"
  by (induction xs arbitrary: st) simp_all

lemma l4_vs_simps [simp]:
  "vs_Listening (l4_vs anns l bn proto) = [l]" "vs_PoolName (l4_vs anns l bn proto) = bn"
  "vs_Protocol (l4_vs anns l bn proto) = proto"
  by (simp_all add: l4_vs_def zero_VirtualService_def)

lemma l4_step_cases:
  assumes "l4_step env ing anns st = Some st'"
  obtains "st' = st"
  | host b proto bn where "ing_Backend ing = Some b" "L4Port (an_L4 anns) \<notin> own_ports env"
      "st' = st\<lparr>l4vs := l4vs st @ [Ptr (fresh st) (l4_vs anns (l4_listening host (L4Port (an_L4 anns)) proto) bn proto)],
               l4vsMap := map_set (l4_listening host (L4Port (an_L4 anns)) proto) (fresh st) (l4vsMap st),
               globals := (globals st)\<lparr>l4PoolMap := add_set (ib_ServiceName b) (l4PoolMap (globals st)),
                 l4PoolBackendMap := map_append (ib_ServiceName b)
                   \<lparr>bk_name = bn, bk_weight = wc_Weight (an_Weight anns), bk_hashBy = [], bk_loadBalancingType = []\<rparr>
                   (l4PoolBackendMap (globals st))\<rparr>,
               fresh := fresh st + 1\<rparr>"
  using assms by (auto simp: l4_step_def Let_def own_ports_def split: option.splits if_splits)

lemma l4_step_l4_inv:
  assumes "l4_step env ing anns st = Some st'" "l4_inv env st"
  shows "l4_inv env st'"
  using assms(1)
proof (cases rule: l4_step_cases)
  case (2 host b proto bn)
  have "l4_ok env st' v" if "l4_ok env st v" for v
    using that unfolding l4_ok_def 2(3) by (fastforce simp: split: if_splits)
  moreover have "l4_ok env st' (l4_vs anns (l4_listening host (L4Port (an_L4 anns)) proto) bn proto)"
    unfolding l4_ok_def using 2(2) by (fastforce simp: 2(3))
  ultimately show ?thesis using assms(2) by (auto simp: l4_inv_def 2(3))
qed (use assms in simp)

lemma l4_step_l7_inv:
  assumes "l4_step env ing anns st = Some st'" "vs_inv st" "loc_inv (proxy_loc {}) st" "vs_all Q st"
  shows "vs_inv st'" "loc_inv (proxy_loc {}) st'" "vs_all Q st'"
proof -
  have "vs_inv st' \<and> loc_inv (proxy_loc {}) st' \<and> vs_all Q st'"
    using assms(1)
  proof (cases rule: l4_step_cases)
    case 2
    have "loc_inv (proxy_loc {}) st'"
      by (rule loc_inv_same [OF assms(3)]) (auto simp: 2(3) proxy_loc_def registered_def)
    moreover have "vs_inv st'" by (rule vs_inv_same [OF assms(2)]) (simp_all add: 2(3))
    ultimately show ?thesis using assms(4) by (simp add: vs_all_def 2(3))
  qed (use assms in simp)
  then show "vs_inv st'" "loc_inv (proxy_loc {}) st'" "vs_all Q st'" by auto
qed

section \<open>The two passes of ListVirtualService\<close>

definition any_loc :: "lvs \<Rightarrow> string \<Rightarrow> nat \<Rightarrow> Location \<Rightarrow> bool" where
  "any_loc st n b l \<longleftrightarrow> proxy_loc {} st n b l \<or> redirect_loc l"

definition lvs_inv :: "(lvs \<Rightarrow> string \<Rightarrow> nat \<Rightarrow> Location \<Rightarrow> bool) \<Rightarrow> gw_env \<Rightarrow> lvs \<Rightarrow> bool" where
  "lvs_inv P env st \<longleftrightarrow> vs_inv st \<and> loc_inv P st \<and> vs_all tls_ok st \<and> l4_inv env st"

lemma rule_step_lvs:
  assumes "wf_ssl env" "m = hostSSL env ns tlss []"
    and "rule_step env ing anns m rule st = Some st'" "lvs_inv (proxy_loc {}) env st"
  shows "lvs_inv (proxy_loc {}) env st'"
proof -
  define n where "n = l7_name m (ir_Host rule)"
  obtain a st1 where g: "get_vs n (l7_vs env ing anns m n) st = (a, st1)" by fastforce
  obtain paths where st': "st' = fold (path_step ing anns n a) paths st1"
    using assms(3) g by (auto simp: rule_step_def Let_def n_def split: option.splits)
  have "vs_all tls_ok st1"
    using vs_all_get_vs [where Q = tls_ok, OF g] l7_vs_tls [OF assms(1,2)] assms(4) by (simp add: lvs_inv_def)
  moreover have "heads st' = heads st1" unfolding st' by (rule heads_fold) (rule heads_path_step)
  ultimately have "vs_all tls_ok st'" unfolding vs_all_heads by metis
  moreover have "l4_part st' = l4_part st" using g by (simp add: st')
  then have "l4_inv env st'" using assms(4) l4_inv_part by (metis lvs_inv_def)
  ultimately show ?thesis using rule_step_inv [OF assms(3)] assms(4) by (simp add: lvs_inv_def)
qed

lemma ingress_step_cases:
  assumes "ingress_step env ing st = Some st'"
  obtains "st' = st" | anns where "l4_step env ing anns st = Some st'"
    | anns where "foldM (rule_step env ing anns (hostSSL env (om_Namespace (ing_Meta ing)) (ing_TLS ing) []))
        (ing_Rules ing) st = Some st'"
proof (cases "ingressIsValid env ing")
  case (Some ok)
  show thesis
  proof (cases ok)
    case True
    then show thesis
    proof (cases "GetIngressAnnotations env (env_Key env (ing_Meta ing))")
      case None
      show thesis by (rule that(1)) (use assms Some True None in \<open>simp add: ingress_step_def\<close>)
    next
      case anns: (Some anns)
      show thesis
      proof (cases "is_l4 anns")
        case l4: True
        show thesis by (rule that(2)) (use assms Some True anns l4 in \<open>simp add: ingress_step_def\<close>)
      next
        case l4: False
        show thesis by (rule that(3)) (use assms Some True anns l4 in \<open>simp add: ingress_step_def Let_def\<close>)
      qed
    qed
  next
    case False
    show thesis by (rule that(1)) (use assms Some False in \<open>simp add: ingress_step_def\<close>)
  qed
qed (use assms in \<open>simp add: ingress_step_def\<close>)

lemma ingress_step_lvs:
  assumes "wf_ssl env" "ingress_step env ing st = Some st'" "lvs_inv (proxy_loc {}) env st"
  shows "lvs_inv (proxy_loc {}) env st'"
proof -
  show ?thesis
    using assms(2)
  proof (cases rule: ingress_step_cases)
    case (2 anns)
    with l4_step_l7_inv [where Q = tls_ok, OF 2] l4_step_l4_inv [OF 2] assms(3) show ?thesis by (simp add: lvs_inv_def)
  next
    case (3 anns)
    then show ?thesis using assms(3) by (rule foldM_invariant) (rule rule_step_lvs [OF assms(1) refl])
  qed (use assms in simp)
qed

lemma redirect_path_step_inv:
  assumes inv: "vs_inv st" "loc_inv any_loc st"
  shows "vs_inv (redirect_path_step anns n va path st)" "loc_inv any_loc (redirect_path_step anns n va path st)"
proof -
  let ?st = "redirect_path_step anns n va path st"
  define l where "l = \<lparr>lo_Path = hp_Path path, lo_NameCondition = [], lo_Rewrite = redirect_rewrite,
                     lo_Proxy = an_Proxy anns, lo_DisableProxyPass = True\<rparr>"
  define f where "f v = v\<lparr>vs_Locations := vs_Locations v @ [Ptr (fresh st) l]\<rparr>" for v :: VirtualService
  have "?st = st \<or> ?st = st\<lparr>l7vs := map (upd_vs va f) (l7vs st), fresh := fresh st + 1\<rparr>"
    by (simp add: redirect_path_step_def Let_def l_def f_def [abs_def])
  then have "vs_inv ?st \<and> loc_inv any_loc ?st"
  proof
    assume st': "?st = st\<lparr>l7vs := map (upd_vs va f) (l7vs st), fresh := fresh st + 1\<rparr>"
    have "vs_inv ?st" by (rule vs_inv_update [OF inv(1), of _ "upd_vs va f"]) (simp_all add: st' f_def)
    moreover have "loc_inv any_loc ?st"
      unfolding loc_inv_def
    proof (intro allI impI)
      fix a v assume "Ptr a v \<in> set (l7vs ?st)"
      then have "Ptr a v \<in> set (map (upd_vs va f) (l7vs st))" by (simp add: st')
      then obtain w where w: "Ptr a w \<in> set (l7vs st)" "v = (if a = va then f w else w)"
        by (rule Ptr_in_map_upd_vs)
      have "locs_ok (any_loc st) (fresh st) w" using inv(2) w(1) by (simp add: loc_inv_def)
      then have ok: "locs_ok (any_loc ?st) (fresh st) w"
        by (rule locs_ok_mono) (auto simp: any_loc_def proxy_loc_def st')
      have "any_loc ?st (vs_ServerName w) (fresh st) l" by (simp add: any_loc_def redirect_loc_def l_def)
      with ok w show "locs_ok (any_loc ?st) (fresh ?st) v"
        by (auto simp: f_def st' intro!: locs_ok_append intro: locs_ok_mono)
    qed
    ultimately show ?thesis by simp
  qed (use inv in simp)
  then show "vs_inv ?st" "loc_inv any_loc ?st" by auto
qed

lemma redirect_rule_step_lvs:
  assumes "redirect_rule_step env anns rule st = Some st'" "lvs_inv any_loc env st"
  shows "lvs_inv any_loc env st'"
proof -
  define n where "n = TrimSpace (ir_Host rule)"
  define new where "new = zero_VirtualService\<lparr>vs_Listening := [Itoa (lp_HTTP (env_Ports env))], vs_ServerName := n\<rparr>"
  obtain a st1 where g: "get_vs n new st = (a, st1)" by fastforce
  obtain paths where st': "st' = fold (redirect_path_step anns n a) paths st1"
    using assms(1) g by (auto simp: redirect_rule_step_def Let_def n_def new_def split: option.splits)
  have new: "vs_ServerName new = n" "vs_Locations new = []" "tls_ok (head new)"
    by (simp_all add: new_def zero_VirtualService_def tls_ok_def head_def)
  have "any_loc st m b l \<Longrightarrow> any_loc st1 m b l" for m b l
    using proxy_loc_get_vs [OF g] by (auto simp: any_loc_def)
  then have "vs_inv st1 \<and> loc_inv any_loc st1"
    using vs_inv_get_vs(1) [OF _ new(1) g] loc_inv_get_vs [OF _ new(2) g] assms(2) by (simp add: lvs_inv_def)
  then have "vs_inv st' \<and> loc_inv any_loc st'"
    unfolding st' by (induction paths arbitrary: st1) (simp_all add: redirect_path_step_inv)
  moreover have "vs_all tls_ok st1" using vs_all_get_vs [where Q = tls_ok, OF g] new(3) assms(2) by (simp add: lvs_inv_def)
  moreover have "heads st' = heads st1" unfolding st' by (rule heads_fold) (rule heads_redirect_path_step)
  moreover have "l4_part st' = l4_part st" using g by (simp add: st')
  ultimately show ?thesis using assms(2) l4_inv_part unfolding lvs_inv_def vs_all_heads by metis
qed

lemma redirect_step_lvs:
  assumes "redirect_step env ing st = Some st'" "lvs_inv any_loc env st"
  shows "lvs_inv any_loc env st'"
proof -
  obtain anns where "foldM (redirect_rule_step env anns) (ing_Rules ing) st = Some st' \<or> st' = st"
    using assms(1) unfolding redirect_step_def Let_def
    by (cases "ingressIsValid env ing") (auto split: bool.splits if_splits)
  then show ?thesis
  proof
    assume "foldM (redirect_rule_step env anns) (ing_Rules ing) st = Some st'"
    then show ?thesis using assms(2) by (rule foldM_invariant) (rule redirect_rule_step_lvs)
  qed (use assms in simp)
qed

lemma ListVirtualService_inv:
  assumes "wf_ssl env" "ListVirtualService env g a = Some st"
  shows "lvs_inv any_loc env st"
proof -
  obtain st1 where st1: "foldM (ingress_step env) (env_Ingresses env) (init_lvs g a) = Some st1"
    "foldM (redirect_step env) (env_Ingresses env) st1 = Some st"
    using assms(2) by (auto simp: ListVirtualService_def split: option.splits)
  have "lvs_inv (proxy_loc {}) env (init_lvs g a)"
    by (simp add: lvs_inv_def vs_inv_def loc_inv_def vs_all_def l4_inv_def init_lvs_def)
  with st1(1) have "lvs_inv (proxy_loc {}) env st1"
    by (rule foldM_invariant) (rule ingress_step_lvs [OF assms(1)])
  then have "lvs_inv any_loc env st1"
    unfolding lvs_inv_def by (metis any_loc_def loc_inv_same order_refl)
  with st1(2) show ?thesis by (rule foldM_invariant) (rule redirect_step_lvs)
qed

section \<open>No panic\<close>

text \<open>
  A sufficient condition: every rule has an HTTP section and an L4 ingress has a backend, as in the
  ingresses the worker makes. The API server requires neither; \<open>ing_panics\<close> below is exact.
\<close>

definition ing_ok :: "gw_env \<Rightarrow> Ingress \<Rightarrow> bool" where
  "ing_ok env ing \<longleftrightarrow> list_all (\<lambda>r. ir_HTTP r \<noteq> None) (ing_Rules ing) \<and>
     (case env_Annotations env (env_Key env (ing_Meta ing)) of
        None \<Rightarrow> True | Some anns \<Rightarrow> is_l4 anns \<longrightarrow> ing_Backend ing \<noteq> None)"

lemma firstPathKey_total: "list_all (\<lambda>r. ir_HTTP r \<noteq> None) rules \<Longrightarrow> \<exists>k. firstPathKey ns rules = Some k"
  by (induction rules) (auto split: option.splits list.splits)

lemma ingressIsValid_total: "ing_ok env ing \<Longrightarrow> \<exists>b. ingressIsValid env ing = Some b"
  using firstPathKey_total [of "ing_Rules ing"]
  by (auto simp: ing_ok_def ingressIsValid_def endpointKey_def split: option.splits)

lemma rule_step_total: "ir_HTTP rule \<noteq> None \<Longrightarrow> \<exists>st'. rule_step env ing anns m rule st = Some st'"
  by (auto simp: rule_step_def Let_def split: prod.splits)

lemma redirect_rule_step_total: "ir_HTTP rule \<noteq> None \<Longrightarrow> \<exists>st'. redirect_rule_step env anns rule st = Some st'"
  by (auto simp: redirect_rule_step_def Let_def split: prod.splits)

lemma l4_step_total: "ing_Backend ing \<noteq> None \<Longrightarrow> \<exists>st'. l4_step env ing anns st = Some st'"
  by (auto simp: l4_step_def Let_def split: option.splits)

lemma ingress_step_total:
  assumes "ing_ok env ing"
  shows "\<exists>st'. ingress_step env ing st = Some st'"
proof -
  obtain b where b: "ingressIsValid env ing = Some b" using ingressIsValid_total [OF assms] by blast
  have "\<exists>st'. foldM (rule_step env ing anns m) (ing_Rules ing) st = Some st'" for anns m
    by (rule foldM_total) (use assms in \<open>auto simp: ing_ok_def list_all_iff intro!: rule_step_total\<close>)
  then show ?thesis
    using b assms l4_step_total [of ing env _ st]
    by (auto simp: ingress_step_def ing_ok_def GetIngressAnnotations_def Let_def split: bool.splits option.splits)
qed

lemma redirect_step_total:
  assumes "ing_ok env ing"
  shows "\<exists>st'. redirect_step env ing st = Some st'"
proof -
  obtain b where b: "ingressIsValid env ing = Some b" using ingressIsValid_total [OF assms] by blast
  have "\<exists>st'. foldM (redirect_rule_step env anns) (ing_Rules ing) st = Some st'" for anns
    by (rule foldM_total) (use assms in \<open>auto simp: ing_ok_def list_all_iff intro!: redirect_rule_step_total\<close>)
  then show ?thesis using b by (auto simp: redirect_step_def Let_def split: bool.splits)
qed

lemma ListVirtualService_total:
  assumes "list_all (ing_ok env) (env_Ingresses env)"
  shows "\<exists>st. ListVirtualService env g a = Some st"
proof -
  obtain st where "foldM (ingress_step env) (env_Ingresses env) (init_lvs g a) = Some st"
    using foldM_total [of "env_Ingresses env" "ingress_step env"] ingress_step_total assms
    by (metis list_all_iff)
  moreover obtain st' where "foldM (redirect_step env) (env_Ingresses env) st = Some st'"
    using foldM_total [of "env_Ingresses env" "redirect_step env"] redirect_step_total assms
    by (metis list_all_iff)
  ultimately show ?thesis by (simp add: ListVirtualService_def)
qed

text \<open>
  The ingresses on which the listing panics, exactly: a rule without an HTTP section in front of the
  first path, when there is no default backend; or, once the ingress is valid and annotated, an L4
  ingress for this host without a default backend, or any rule without an HTTP section.
\<close>

definition no_http_first :: "IngressRule list \<Rightarrow> bool" where
  "no_http_first rules \<longleftrightarrow> (\<exists>pre r post. rules = pre @ r # post \<and> ir_HTTP r = None \<and> (\<forall>q \<in> set pre. ir_HTTP q = Some []))"

definition ing_panics :: "gw_env \<Rightarrow> Ingress \<Rightarrow> bool" where
  "ing_panics env ing \<longleftrightarrow>
     ing_Backend ing = None \<and> no_http_first (ing_Rules ing) \<or>
     ingressIsValid env ing = Some True \<and>
       (\<exists>anns. GetIngressAnnotations env (env_Key env (ing_Meta ing)) = Some anns \<and>
         (if is_l4 anns then l4_host env (L4Host (an_L4 anns)) \<noteq> None \<and> ing_Backend ing = None
          else \<exists>r \<in> set (ing_Rules ing). ir_HTTP r = None))"

lemma firstPathKey_None: "firstPathKey ns rules = None \<longleftrightarrow> no_http_first rules"
proof (induction rules)
  case (Cons r rules)
  have "no_http_first (r # rules) \<longleftrightarrow> ir_HTTP r = None \<or> ir_HTTP r = Some [] \<and> no_http_first rules" (is "_ \<longleftrightarrow> ?R")
  proof
    show ?R if "no_http_first (r # rules)"
      using that unfolding no_http_first_def Cons_eq_append_conv by fastforce
    show "no_http_first (r # rules)" if ?R
      using that
    proof
      assume "ir_HTTP r = None"
      then show ?thesis unfolding no_http_first_def by (intro exI [of _ "[]"]) auto
    next
      assume r: "ir_HTTP r = Some [] \<and> no_http_first rules"
      then obtain pre q post where "rules = pre @ q # post" "ir_HTTP q = None" "\<forall>q \<in> set pre. ir_HTTP q = Some []"
        by (auto simp: no_http_first_def)
      with r show ?thesis unfolding no_http_first_def by (intro exI [of _ "r # pre"] exI [of _ q] exI [of _ post]) auto
    qed
  qed
  with Cons show ?case by (auto split: option.splits list.splits)
qed (simp add: no_http_first_def)

lemma foldM_None:
  assumes "\<And>x s. x \<in> set xs \<Longrightarrow> f x s = None \<longleftrightarrow> P x"
  shows "foldM f xs s = None \<longleftrightarrow> (\<exists>x \<in> set xs. P x)"
  using assms
proof (induction xs arbitrary: s)
  case (Cons x xs)
  have "foldM f xs t = None \<longleftrightarrow> (\<exists>x \<in> set xs. P x)" for t by (rule Cons.IH) (simp add: Cons.prems)
  moreover have "f x s = None \<longleftrightarrow> P x" by (rule Cons.prems) simp
  ultimately show ?case by (cases "f x s") auto
qed simp

lemma ingressIsValid_None: "ingressIsValid env ing = None \<longleftrightarrow> ing_Backend ing = None \<and> no_http_first (ing_Rules ing)"
  using firstPathKey_None [of "om_Namespace (ing_Meta ing)" "ing_Rules ing"]
  by (auto simp: ingressIsValid_def endpointKey_def split: option.splits)

lemma rule_step_None: "rule_step env ing anns m rule st = None \<longleftrightarrow> ir_HTTP rule = None"
  by (auto simp: rule_step_def Let_def split: prod.splits option.splits)

lemma redirect_rule_step_None: "redirect_rule_step env anns rule st = None \<longleftrightarrow> ir_HTTP rule = None"
  by (auto simp: redirect_rule_step_def Let_def split: prod.splits option.splits)

lemma l4_step_None: "l4_step env ing anns st = None \<longleftrightarrow> l4_host env (L4Host (an_L4 anns)) \<noteq> None \<and> ing_Backend ing = None"
  by (auto simp: l4_step_def Let_def split: option.splits)

lemma ingress_step_None: "ingress_step env ing st = None \<longleftrightarrow> ing_panics env ing"
  unfolding ing_panics_def ingressIsValid_None [of env ing, symmetric]
  by (auto simp: ingress_step_def l4_step_None foldM_None [OF rule_step_None] Let_def split: option.splits bool.splits)

lemma redirect_step_None: "redirect_step env ing st = None \<Longrightarrow> ing_panics env ing"
  unfolding ing_panics_def ingressIsValid_None [of env ing, symmetric]
  by (auto simp: redirect_step_def foldM_None [OF redirect_rule_step_None] is_l4_def
      empty_ann_def zero_rewrite_def Let_def split: option.splits bool.splits if_splits)

lemma ListVirtualService_None:
  "ListVirtualService env g a = None \<longleftrightarrow> (\<exists>ing \<in> set (env_Ingresses env). ing_panics env ing)"
proof -
  have "foldM (redirect_step env) ings st = None \<Longrightarrow> \<exists>ing \<in> set ings. ing_panics env ing" for ings st
    by (induction ings arbitrary: st) (auto split: option.splits dest: redirect_step_None)
  then show ?thesis
    using foldM_None [of "env_Ingresses env" "ingress_step env" "ing_panics env" "init_lvs g a", OF ingress_step_None]
    by (auto simp: ListVirtualService_def split: option.splits)
qed

section \<open>The pools\<close>

text \<open>
  What \<open>ListPool\<close> computes, as a specification: the pool of a name has, in the order of the
  endpoints, the nodes of every backend with that name.
\<close>

definition ep_backends :: "(string, backend list) gomap \<Rightarrow> Endpoints \<Rightarrow> backend list" where
  "ep_backends bm ep = (if ep_Subsets ep \<noteq> None then map_slice bm (om_Name (ep_Meta ep)) else [])"

definition spec_nodes :: "string list \<Rightarrow> (string, backend list) gomap \<Rightarrow> Endpoints list \<Rightarrow> string \<Rightarrow> Node list" where
  "spec_nodes pm bm eps n =
     [zero_Node\<lparr>nd_Host := ip, nd_Port := port, nd_Weight := bk_weight b\<rparr>.
        ep \<leftarrow> eps, b \<leftarrow> ep_backends bm ep, bk_name b = n \<and> om_Name (ep_Meta ep) \<in> set pm,
        ss \<leftarrow> subsets ep, port \<leftarrow> ss_Ports ss, ip \<leftarrow> ss_Addresses ss]"

lemma spec_nodes_of:
  "spec_nodes pm bm eps n =
     concat (map (\<lambda>ep. concat (map (\<lambda>b. if om_Name (ep_Meta ep) \<in> set pm then nodes_of (bk_weight b) (subsets ep) else [])
                                  (filter (\<lambda>b. bk_name b = n) (ep_backends bm ep)))) eps)"
proof -
  have "concat (map (\<lambda>b. if bk_name b = n \<and> P then f b else []) bs) = concat (map (\<lambda>b. if P then f b else []) (filter (\<lambda>b. bk_name b = n) bs))"
    for P bs and f :: "backend \<Rightarrow> Node list"
    by (induction bs) auto
  then show ?thesis by (simp add: spec_nodes_def nodes_of_def cong: if_cong)
qed

definition pool_nodes :: "(string, Pool) gomap \<Rightarrow> string \<Rightarrow> Node list" where
  "pool_nodes m n = (case map_of m n of None \<Rightarrow> [] | Some p \<Rightarrow> List.map_filter ptr_val (pl_Nodes p))"

lemma alloc_simps [simp]: "length (alloc a xs) = length xs" "List.map_filter ptr_val (alloc a xs) = xs"
  "map ptr_val (alloc a xs) = map Some xs" "NilPtr \<notin> set (alloc a xs)"
  by (induction xs arbitrary: a) (auto simp: map_filter_simps)

lemma map_filter_append: "List.map_filter f (xs @ ys) = List.map_filter f xs @ List.map_filter f ys"
  by (simp add: List.map_filter_def)

definition named :: "(string, Pool) gomap \<Rightarrow> bool" where
  "named m \<longleftrightarrow> wf_map m \<and> (\<forall>n p. map_of m n = Some p \<longrightarrow> Name (pl_Meta p) = n \<and> NilPtr \<notin> set (pl_Nodes p))"

lemma pool_step_spec:
  assumes "pool_step new pm ep b (m, a) = (m', a')" "pl_Nodes (new b) = []" "Name (pl_Meta (new b)) = bk_name b"
  shows "pool_nodes m' n = pool_nodes m n @
      (if bk_name b = n \<and> om_Name (ep_Meta ep) \<in> set pm then nodes_of (bk_weight b) (subsets ep) else [])"
    and "dom (map_of m') = insert (bk_name b) (dom (map_of m))" and "named m \<Longrightarrow> named m'"
  using assms
  by (auto simp: pool_step_def Let_def pool_nodes_def map_filter_append map_filter_simps named_def split: option.splits if_splits)

lemma fold_pool_step_spec:
  assumes new: "\<And>b. pl_Nodes (new b) = []" "\<And>b. Name (pl_Meta (new b)) = bk_name b"
    and f: "fold (pool_step new pm ep) bs (m, a) = (m', a')"
  shows "pool_nodes m' n = pool_nodes m n @
      concat (map (\<lambda>b. if om_Name (ep_Meta ep) \<in> set pm then nodes_of (bk_weight b) (subsets ep) else [])
        (filter (\<lambda>b. bk_name b = n) bs))
    \<and> dom (map_of m') = bk_name ` set bs \<union> dom (map_of m) \<and> (named m \<longrightarrow> named m')"
  using f
proof (induction bs arbitrary: m a)
  case (Cons b bs)
  obtain m1 a1 where s: "pool_step new pm ep b (m, a) = (m1, a1)" by fastforce
  have "fold (pool_step new pm ep) bs (m1, a1) = (m', a')" using Cons.prems s by simp
  note IH = Cons.IH [OF this] and ps = pool_step_spec [OF s new]
  show ?case using IH ps(1) [of n] ps(2,3) by (auto simp del: dom_eq_empty_conv)
qed simp

lemma endpoints_spec:
  assumes new: "\<And>b. pl_Nodes (new b) = []" "\<And>b. Name (pl_Meta (new b)) = bk_name b"
    and f: "fold (endpoint_step new pm bm) eps (m, a) = (m', a')"
  shows "pool_nodes m' n = pool_nodes m n @ spec_nodes pm bm eps n
    \<and> dom (map_of m') = bk_name ` (\<Union>ep \<in> set eps. set (ep_backends bm ep)) \<union> dom (map_of m) \<and> (named m \<longrightarrow> named m')"
  using f
proof (induction eps arbitrary: m a)
  case (Cons ep eps)
  have e: "endpoint_step new pm bm ep s = fold (pool_step new pm ep) (ep_backends bm ep) s" for s
    by (auto simp: endpoint_step_def ep_backends_def subsets_def)
  obtain m1 a1 where s: "fold (pool_step new pm ep) (ep_backends bm ep) (m, a) = (m1, a1)" by fastforce
  have "fold (endpoint_step new pm bm) eps (m1, a1) = (m', a')" using Cons.prems s by (simp add: e)
  note IH = Cons.IH [OF this] and ps = fold_pool_step_spec [OF new s, of n]
  show ?case using IH ps by (auto simp: spec_nodes_of)
qed (simp add: spec_nodes_of)

lemma new_pool_simps [simp]:
  "pl_Nodes (new_l7_pool b) = []" "Name (pl_Meta (new_l7_pool b)) = bk_name b"
  "pl_Nodes (new_l4_pool b) = []" "Name (pl_Meta (new_l4_pool b)) = bk_name b"
  by (simp_all add: new_l7_pool_def new_l4_pool_def zero_Pool_def)

text \<open>The pools of one level as \<open>ListPool\<close> returns them.\<close>

definition pools_spec :: "string list \<Rightarrow> (string, backend list) gomap \<Rightarrow> Endpoints list \<Rightarrow> Pool list \<Rightarrow> bool" where
  "pools_spec pm bm eps ps \<longleftrightarrow>
     distinct (map (\<lambda>p. Name (pl_Meta p)) ps) \<and>
     (\<lambda>p. Name (pl_Meta p)) ` set ps = bk_name ` (\<Union>ep \<in> set eps. set (ep_backends bm ep)) \<and>
     (\<forall>p \<in> set ps. NilPtr \<notin> set (pl_Nodes p) \<and>
        List.map_filter ptr_val (pl_Nodes p) = spec_nodes pm bm eps (Name (pl_Meta p)))"

lemma named_key: "named m \<Longrightarrow> x \<in> set m \<Longrightarrow> Name (pl_Meta (snd x)) = fst x"
  unfolding named_def by (metis in_wf_map prod.collapse)

lemma pools_of_map:
  assumes "is_range rng" "fold (endpoint_step new pm bm) eps ([], a) = (m, a')"
    and new: "\<And>b. pl_Nodes (new b) = []" "\<And>b. Name (pl_Meta (new b)) = bk_name b"
  shows "pools_spec pm bm eps (map snd (rng m))"
proof -
  have n: "named m" and d: "dom (map_of m) = bk_name ` (\<Union>ep \<in> set eps. set (ep_backends bm ep))"
    and nd: "\<And>n. pool_nodes m n = spec_nodes pm bm eps n"
    using endpoints_spec [OF new assms(2)] by (auto simp: named_def pool_nodes_def)
  have sr: "set (rng m) = set m" by (rule is_range_set [OF assms(1)])
  have names: "map (\<lambda>p. Name (pl_Meta p)) (map snd (rng m)) = map fst (rng m)"
    using named_key [OF n] by (simp add: sr)
  have "wf_map (rng m)" using is_range_wf [OF assms(1)] n by (simp add: named_def)
  then have "distinct (map (\<lambda>p. Name (pl_Meta p)) (map snd (rng m)))"
    unfolding names by (simp add: wf_map_def)
  moreover have "(\<lambda>p. Name (pl_Meta p)) ` set (map snd (rng m)) = fst ` set m"
    using arg_cong [OF names, of set] by (simp add: sr image_image)
  moreover have "NilPtr \<notin> set (pl_Nodes p) \<and> List.map_filter ptr_val (pl_Nodes p) = spec_nodes pm bm eps (Name (pl_Meta p))"
    if p: "p \<in> set (map snd (rng m))" for p
  proof -
    obtain k where k: "(k, p) \<in> set m" using p unfolding set_map sr by force
    then have "map_of m k = Some p" using n by (simp add: named_def in_wf_map)
    then show ?thesis using nd [of k] named_key [OF n k] n by (simp add: pool_nodes_def named_def)
  qed
  ultimately show ?thesis by (simp add: pools_spec_def d [symmetric] dom_map_of_conv_image_fst)
qed

lemma ListPool_spec:
  assumes "is_range rng" "ListPool rng env g a = (hp, tp, a')"
  shows "NilPtr \<notin> set hp \<and> pools_spec (l7PoolMap g) (l7PoolBackendMap g) (env_Endpoints env) (List.map_filter ptr_val hp)"
    and "NilPtr \<notin> set tp \<and> pools_spec (l4PoolMap g) (l4PoolBackendMap g) (env_Endpoints env) (List.map_filter ptr_val tp)"
proof -
  obtain m1 a1 where 1: "fold (endpoint_step new_l7_pool (l7PoolMap g) (l7PoolBackendMap g)) (env_Endpoints env) ([], a) = (m1, a1)"
    by fastforce
  obtain m2 a2 where 2: "fold (endpoint_step new_l4_pool (l4PoolMap g) (l4PoolBackendMap g)) (env_Endpoints env) ([], a1) = (m2, a2)"
    by fastforce
  have "hp = alloc a2 (map snd (rng m1))" "tp = alloc (a2 + length m1) (map snd (rng m2))"
    using assms(2) 1 2 by (auto simp: ListPool_def Let_def)
  then show "NilPtr \<notin> set hp \<and> pools_spec (l7PoolMap g) (l7PoolBackendMap g) (env_Endpoints env) (List.map_filter ptr_val hp)"
    and "NilPtr \<notin> set tp \<and> pools_spec (l4PoolMap g) (l4PoolBackendMap g) (env_Endpoints env) (List.map_filter ptr_val tp)"
    using pools_of_map [OF assms(1) 1] pools_of_map [OF assms(1) 2] by simp_all
qed

end
