(* ===== verification/GwSync.thy ===== *)
theory GwSync
  imports GwStoreInv
begin

text \<open>
  The mutable part of \<open>gateway/store\<close>: the secrets an ingress refers to, the certificates made of
  them, the parsed annotations, and the handlers that \<open>New\<close> registers with the informers.

  \<^item> \<open>k8sStore\<close> is the state the handlers change: \<open>secretIngressMap\<close>, \<open>sslStore\<close>, the annotation
    lister, the certificate files and the events sent to \<open>updateCh\<close>.
  \<^item> \<open>sync_env\<close> is what they read: client-go's key function and listers, the file system's answers,
    \<open>pem.Decode\<close> and \<open>x509.ParseCertificate\<close>, and the arguments of \<open>Extract\<close>. \<open>se_WriteFile\<close> gives
    the contents of the file after a write and the error, if any.
\<close>

section \<open>State\<close>

record Secret =
  sec_Meta :: ObjectMeta
  sec_Data :: "(string, string) gomap"

datatype EventType = CreateEvent | UpdateEvent | DeleteEvent

datatype k8s_obj = ObjIngress Ingress | ObjSecret Secret | ObjEndpoints Endpoints

record Event =
  ev_kind :: EventType
  ev_obj :: k8s_obj

record k8sStore =
  secretIngressMap :: "(string, string list) gomap"
  sslStore :: "(string, SSLCert ptr) gomap"
  IngressAnnotation :: "(string, ann_Ingress) gomap"
  certFiles :: "(string, string) gomap"
  updateCh :: "Event list"
  nextAddr :: nat

record sync_env =
  se_Key :: "ObjectMeta \<Rightarrow> string"
  se_GetIngress :: "string \<Rightarrow> Ingress option"
  se_GetSecret :: "string \<Rightarrow> string + Secret option"
  se_MkdirAll :: "string option"
  se_WriteFile :: "string \<Rightarrow> string \<Rightarrow> string \<times> string option"
  se_ReadFile :: "string \<Rightarrow> string option"
  se_pemDecode :: "string \<Rightarrow> bytes option"
  se_ParseCertificate :: "bytes \<Rightarrow> string + x509_Certificate"
  se_Extract :: "Ingress \<Rightarrow> ann_Ingress"

datatype cert_error =
  LookupFailed string | SecretMissing | MkdirFailed string | WriteFailed string | ReadFailed string
| NoPemContent | ParseFailed string

section \<open>Secrets of an ingress\<close>

fun update_loop :: "string \<Rightarrow> string \<Rightarrow> IngressTLS list \<Rightarrow> (string, string list) gomap \<Rightarrow> (string, string list) gomap" where
  "update_loop ingKey ns [] v = v"
| "update_loop ingKey ns (tls # tlss) v =
     update_loop ingKey ns tlss (map_append ingKey (ns @ ''/'' @ it_SecretName tls) v)"

definition update_secretIngressMap ::
  "(ObjectMeta \<Rightarrow> string) \<Rightarrow> Ingress \<Rightarrow> (string, string list) gomap \<Rightarrow> (string, string list) gomap" where
  "update_secretIngressMap MetaNamespaceKey ing v =
     update_loop (MetaNamespaceKey (ing_Meta ing)) (om_Namespace (ing_Meta ing)) (ing_TLS ing) v"

definition getSecretKeys :: "(string, string list) gomap \<Rightarrow> string \<Rightarrow> string list" where
  "getSecretKeys v ingKey = map_slice v ingKey"

section \<open>Certificates\<close>

definition CertificatePath :: string where "CertificatePath = ''/run/nginx/conf/certificate''"

definition cert_file :: "string \<Rightarrow> string" where
  "cert_file secrKey = CertificatePath @ ''/'' @ Replace secrKey ''/'' ''-'' 1 @ ''.pem''"

definition getCertificatePem :: "sync_env \<Rightarrow> string \<Rightarrow> k8sStore \<Rightarrow> (cert_error + SSLCert ptr) \<times> k8sStore" where
  "getCertificatePem e secrKey s =
     (case se_GetSecret e secrKey of
        Inl err \<Rightarrow> (Inl (LookupFailed err), s)
      | Inr None \<Rightarrow> (Inl SecretMissing, s)
      | Inr (Some secret) \<Rightarrow>
          (let crt = map_str (sec_Data secret) ''tls.crt'';
               key = map_str (sec_Data secret) ''tls.key'';
               buffer = crt @ [CHR 0x0A] @ key;
               filename = cert_file secrKey
           in case se_MkdirAll e of
                Some err \<Rightarrow> (Inl (MkdirFailed err), s)
              | None \<Rightarrow>
                  (let (content, werr) = se_WriteFile e filename buffer;
                       s = s\<lparr>certFiles := map_set filename content (certFiles s)\<rparr>
                   in case werr of
                        Some err \<Rightarrow> (Inl (WriteFailed err), s)
                      | None \<Rightarrow>
                          (case se_ReadFile e filename of
                             Some err \<Rightarrow> (Inl (ReadFailed err), s)
                           | None \<Rightarrow>
                               (let fileContent = map_str (certFiles s) filename in
                                case se_pemDecode e fileContent of
                                  None \<Rightarrow> (Inl NoPemContent, s)
                                | Some bs \<Rightarrow>
                                    (case se_ParseCertificate e bs of
                                       Inl err \<Rightarrow> (Inl (ParseFailed err), s)
                                     | Inr certificate \<Rightarrow>
                                         (Inr (Ptr (nextAddr s)
                                            \<lparr>sc_Meta = NilPtr, sc_CertificateStr = Raw certificate,
                                             sc_Certificate = Ptr (nextAddr s + 1) certificate,
                                             sc_PrivateKey = key, sc_CertificatePem = filename,
                                             sc_CN = [CommonName certificate], sc_ExpireTime = 0\<rparr>),
                                          s\<lparr>nextAddr := nextAddr s + 2\<rparr>)))))))"

definition syncSecret :: "sync_env \<Rightarrow> string \<Rightarrow> k8sStore \<Rightarrow> k8sStore" where
  "syncSecret e secrKey s =
     (case getCertificatePem e secrKey s of
        (Inl err, s) \<Rightarrow> s
      | (Inr sslCert, s) \<Rightarrow>
          (case map_of (sslStore s) secrKey of
             Some old \<Rightarrow>
               if SSLCert_Equals sslCert old then s
               else s\<lparr>sslStore := map_set secrKey sslCert (AList.delete secrKey (sslStore s))\<rparr>
           | None \<Rightarrow> s\<lparr>sslStore := map_set secrKey sslCert (sslStore s)\<rparr>))"

definition syncSecrets :: "sync_env \<Rightarrow> Ingress \<Rightarrow> k8sStore \<Rightarrow> k8sStore" where
  "syncSecrets e ing s = fold (syncSecret e) (getSecretKeys (secretIngressMap s) (se_Key e (ing_Meta ing))) s"

definition extractAnnotations :: "sync_env \<Rightarrow> Ingress \<Rightarrow> k8sStore \<Rightarrow> k8sStore" where
  "extractAnnotations e ing s =
     (let anns = se_Extract e ing
      in s\<lparr>IngressAnnotation := map_set (se_Key e (an_Meta anns)) anns (IngressAnnotation s)\<rparr>)"

definition checkIngress :: "(string \<Rightarrow> string \<Rightarrow> bool) \<Rightarrow> Ingress option \<Rightarrow> bool" where
  "checkIngress dial ing =
     (case l4_Parse ing of
        Inl err \<Rightarrow> False
      | Inr cfg \<Rightarrow> if L4Enable cfg then \<not> dial ''tcp'' (L4Host cfg @ '':'' @ Itoa (L4Port cfg)) else True)"

section \<open>Event handlers\<close>

definition send :: "EventType \<Rightarrow> k8s_obj \<Rightarrow> k8sStore \<Rightarrow> k8sStore" where
  "send ty obj s = s\<lparr>updateCh := updateCh s @ [\<lparr>ev_kind = ty, ev_obj = obj\<rparr>]\<rparr>"

definition refresh :: "sync_env \<Rightarrow> Ingress \<Rightarrow> k8sStore \<Rightarrow> k8sStore" where
  "refresh e ing s =
     (let s = extractAnnotations e ing s;
          s = s\<lparr>secretIngressMap := update_secretIngressMap (se_Key e) ing (secretIngressMap s)\<rparr>
      in syncSecrets e ing s)"

definition ing_AddFunc :: "sync_env \<Rightarrow> Ingress \<Rightarrow> k8sStore \<Rightarrow> k8sStore" where
  "ing_AddFunc e ing s = send CreateEvent (ObjIngress ing) (refresh e ing s)"

definition ing_DeleteFunc :: "Ingress \<Rightarrow> k8sStore \<Rightarrow> k8sStore" where
  "ing_DeleteFunc ing s = send DeleteEvent (ObjIngress ing) s"

definition ing_UpdateFunc :: "sync_env \<Rightarrow> Ingress \<Rightarrow> Ingress \<Rightarrow> k8sStore \<Rightarrow> k8sStore" where
  "ing_UpdateFunc e oldIng curIng s =
     (if om_ResourceVersion (ing_Meta oldIng) = om_ResourceVersion (ing_Meta curIng) \<or> oldIng = curIng then s
      else send UpdateEvent (ObjIngress curIng) (refresh e curIng s))"

definition sync_ingresses :: "sync_env \<Rightarrow> string list \<Rightarrow> k8sStore \<Rightarrow> k8sStore" where
  "sync_ingresses e ings s =
     fold (\<lambda>ingKey s. case se_GetIngress e ingKey of None \<Rightarrow> s | Some ing \<Rightarrow> syncSecrets e ing s) ings s"

definition sec_AddFunc :: "sync_env \<Rightarrow> Secret \<Rightarrow> k8sStore \<Rightarrow> k8sStore" where
  "sec_AddFunc e sec s =
     (let ings = getSecretKeys (secretIngressMap s) (se_Key e (sec_Meta sec))
      in if length ings > 0 then send CreateEvent (ObjSecret sec) (sync_ingresses e ings s) else s)"

definition sec_UpdateFunc :: "sync_env \<Rightarrow> Secret \<Rightarrow> Secret \<Rightarrow> k8sStore \<Rightarrow> k8sStore" where
  "sec_UpdateFunc e oldSec curSec s =
     (if oldSec = curSec then s
      else if om_ResourceVersion (sec_Meta oldSec) = om_ResourceVersion (sec_Meta curSec) then s
      else (let ings = getSecretKeys (secretIngressMap s) (se_Key e (sec_Meta curSec))
            in if length ings > 0 then send UpdateEvent (ObjSecret curSec) (sync_ingresses e ings s) else s))"

text \<open>What the informer hands to \<open>DeleteFunc\<close>: a secret, a tombstone, or something else.\<close>

datatype deleted = DelSecret Secret | DelTombstone "Secret option" | DelOther

definition sec_DeleteFunc :: "sync_env \<Rightarrow> deleted \<Rightarrow> k8sStore \<Rightarrow> k8sStore" where
  "sec_DeleteFunc e obj s =
     (case (case obj of DelSecret sec \<Rightarrow> Some sec | DelTombstone x \<Rightarrow> x | DelOther \<Rightarrow> None) of
        None \<Rightarrow> s
      | Some sec \<Rightarrow>
          (let key = se_Key e (sec_Meta sec);
               s = s\<lparr>sslStore := AList.delete key (sslStore s)\<rparr>;
               ings = getSecretKeys (secretIngressMap s) key
           in if length ings > 0 then send DeleteEvent (ObjSecret sec) s else s))"

definition ep_AddFunc :: "Endpoints \<Rightarrow> k8sStore \<Rightarrow> k8sStore" where
  "ep_AddFunc ep s = send CreateEvent (ObjEndpoints ep) s"

definition ep_DeleteFunc :: "Endpoints \<Rightarrow> k8sStore \<Rightarrow> k8sStore" where
  "ep_DeleteFunc ep s = send DeleteEvent (ObjEndpoints ep) s"

definition ep_UpdateFunc :: "Endpoints \<Rightarrow> Endpoints \<Rightarrow> k8sStore \<Rightarrow> k8sStore" where
  "ep_UpdateFunc oep cep s =
     (if om_ResourceVersion (ep_Meta cep) \<noteq> om_ResourceVersion (ep_Meta oep) \<and> ep_Subsets cep \<noteq> ep_Subsets oep
      then send UpdateEvent (ObjEndpoints cep) s else s)"

definition ip_event_type :: "IPEVENTTYPE \<Rightarrow> EventType" where
  "ip_event_type t = (case t of ADD \<Rightarrow> CreateEvent | UPDATE \<Rightarrow> UpdateEvent | DEL \<Rightarrow> DeleteEvent)"

definition loopUpdateIngress_step :: "sync_env \<Rightarrow> Ingress list \<Rightarrow> IPEVENT \<Rightarrow> k8sStore \<Rightarrow> k8sStore" where
  "loopUpdateIngress_step e ings ipevent s =
     fold (\<lambda>ing s. if L4Host (an_L4 (se_Extract e ing)) = IP_String (ev_IP ipevent)
                   then send (ip_event_type (ev_Type ipevent)) (ObjIngress ing) (refresh e ing s) else s) ings s"

definition NewStore :: "nat \<Rightarrow> k8sStore" where
  "NewStore a = \<lparr>secretIngressMap = [], sslStore = [], IngressAnnotation = [], certFiles = [], updateCh = [], nextAddr = a\<rparr>"

section \<open>What a secret's certificate is\<close>

text \<open>
  The contents of a certificate, without addresses; \<open>spec_cert\<close> is what the secret, the file system
  and the parsers say it is, and does not depend on the store.
\<close>

type_synonym cert_data = "string \<times> string \<times> string \<times> string list \<times> x509_Certificate option"

definition cert_contents :: "SSLCert ptr \<Rightarrow> cert_data option" where
  "cert_contents p = map_option (\<lambda>c. (sc_CertificateStr c, sc_PrivateKey c, sc_CertificatePem c, sc_CN c,
     ptr_val (sc_Certificate c))) (ptr_val p)"

definition spec_cert :: "sync_env \<Rightarrow> string \<Rightarrow> cert_data option" where
  "spec_cert e k =
     (case se_GetSecret e k of
        Inr (Some secret) \<Rightarrow>
          (let (content, werr) = se_WriteFile e (cert_file k)
                 (map_str (sec_Data secret) ''tls.crt'' @ [CHR 0x0A] @ map_str (sec_Data secret) ''tls.key'')
           in if se_MkdirAll e = None \<and> werr = None \<and> se_ReadFile e (cert_file k) = None
              then (case se_pemDecode e content of
                      None \<Rightarrow> None
                    | Some bs \<Rightarrow>
                        (case se_ParseCertificate e bs of
                           Inl _ \<Rightarrow> None
                         | Inr c \<Rightarrow> Some (Raw c, map_str (sec_Data secret) ''tls.key'', cert_file k, [CommonName c], Some c)))
              else None)
      | _ \<Rightarrow> None)"

lemma map_str_set [simp]: "map_str (map_set k v m) k = v"
  by (simp add: map_str_def)

lemmas getCertificatePem_split = sum.split option.split prod.split

lemma getCertificatePem_frame:
  "case getCertificatePem e k s of (r, s') \<Rightarrow>
     sslStore s' = sslStore s \<and> secretIngressMap s' = secretIngressMap s \<and>
     IngressAnnotation s' = IngressAnnotation s \<and> updateCh s' = updateCh s \<and> nextAddr s \<le> nextAddr s'"
  by (simp add: getCertificatePem_def Let_def split: getCertificatePem_split)

lemma getCertificatePem_contents:
  "case fst (getCertificatePem e k s) of Inl _ \<Rightarrow> spec_cert e k = None | Inr p \<Rightarrow> spec_cert e k = cert_contents p"
  by (simp add: getCertificatePem_def spec_cert_def cert_contents_def Let_def split: getCertificatePem_split)

lemma getCertificatePem_new:
  "case getCertificatePem e k s of
     (Inl _, _) \<Rightarrow> True
   | (Inr p, s') \<Rightarrow> (\<exists>c x. p = Ptr (nextAddr s) c \<and> sc_Certificate c = Ptr (nextAddr s + 1) x \<and>
           sc_CN c = [CommonName x] \<and> nextAddr s < nextAddr s' \<and> (\<exists>bs. se_ParseCertificate e bs = Inr x))"
  by (auto simp add: getCertificatePem_def Let_def split: getCertificatePem_split)

lemma getCertificatePem_spec:
  assumes "getCertificatePem e k s = (r, s')"
  shows "sslStore s' = sslStore s" "secretIngressMap s' = secretIngressMap s"
    "IngressAnnotation s' = IngressAnnotation s" "updateCh s' = updateCh s" "nextAddr s \<le> nextAddr s'"
    and "spec_cert e k = (case r of Inl _ \<Rightarrow> None | Inr p \<Rightarrow> cert_contents p)"
    and "r = Inr p \<Longrightarrow> \<exists>c x. p = Ptr (nextAddr s) c \<and> sc_Certificate c = Ptr (nextAddr s + 1) x \<and>
           sc_CN c = [CommonName x] \<and> nextAddr s < nextAddr s' \<and> (\<exists>bs. se_ParseCertificate e bs = Inr x)"
  using getCertificatePem_frame [where e = e and k = k and s = s] getCertificatePem_contents [where e = e and k = k and s = s] getCertificatePem_new [where e = e and k = k and s = s]
  by (simp_all add: assms split: sum.splits)

text \<open>What the code relies on of \<open>x509.ParseCertificate\<close>: it keeps the bytes it parsed in \<open>Raw\<close>.\<close>

type_synonym cert_parser = "bytes \<Rightarrow> string + x509_Certificate"

definition parse_ok :: "cert_parser \<Rightarrow> bool" where
  "parse_ok parse \<longleftrightarrow> (\<forall>bs c. parse bs = Inr c \<longrightarrow> Raw c = bs)"

definition cn_of :: "cert_parser \<Rightarrow> bytes \<Rightarrow> string" where
  "cn_of parse bs = (case parse bs of Inr c \<Rightarrow> CommonName c | Inl _ \<Rightarrow> [])"

abbreviation cn_in :: "sync_env \<Rightarrow> bytes \<Rightarrow> string" where
  "cn_in e \<equiv> cn_of (se_ParseCertificate e)"

definition store_ok :: "cert_parser \<Rightarrow> k8sStore \<Rightarrow> bool" where
  "store_ok e s \<longleftrightarrow> (\<forall>k p. map_of (sslStore s) k = Some p \<longrightarrow>
     (\<exists>a c. p = Ptr a c \<and> a < nextAddr s) \<and> wf_cert (cn_of e) p)"

lemma getCertificatePem_wf:
  assumes "parse_ok (se_ParseCertificate e)" "getCertificatePem e k s = (Inr p, s')"
  shows "wf_cert (cn_in e) p"
  using getCertificatePem_spec(7) [OF assms(2) refl] assms(1)
  by (fastforce simp: wf_cert_def parse_ok_def cn_of_def)

text \<open>A certificate that could be made is stored, whatever was stored before; otherwise nothing changes.\<close>

lemma syncSecret_spec:
  assumes "parse_ok (se_ParseCertificate e)" "store_ok (se_ParseCertificate e) s"
  shows "case fst (getCertificatePem e k s) of
      Inl _ \<Rightarrow> sslStore (syncSecret e k s) = sslStore s
    | Inr p \<Rightarrow> map_of (sslStore (syncSecret e k s)) = (map_of (sslStore s))(k \<mapsto> p)"
proof -
  obtain r s' where g: "getCertificatePem e k s = (r, s')" by fastforce
  note sp = getCertificatePem_spec [OF g]
  show ?thesis
  proof (cases r)
    case (Inr p)
    show ?thesis
    proof (cases "map_of (sslStore s') k")
      case (Some old)
      have "wf_cert (cn_in e) p" using getCertificatePem_wf assms(1) g Inr by simp
      moreover have "wf_cert (cn_in e) old" "\<exists>a c. old = Ptr a c \<and> a < nextAddr s"
        using Some assms(2) sp(1) unfolding store_ok_def by metis+
      moreover have "ptr_addr old \<noteq> ptr_addr p" using calculation(3) sp(7) [OF Inr] by auto
      ultimately have "\<not> SSLCert_Equals p old" using SSLCert_Equals_ptr_eq by metis
      then show ?thesis using g Inr Some sp(1)
        by (auto simp: syncSecret_def delete_conv' fun_eq_iff)
    qed (use g Inr sp(1) in \<open>simp add: syncSecret_def\<close>)
  qed (use g sp in \<open>simp add: syncSecret_def\<close>)
qed

lemma syncSecret_keeps:
  "secretIngressMap (syncSecret e k s) = secretIngressMap s"
  "IngressAnnotation (syncSecret e k s) = IngressAnnotation s" "updateCh (syncSecret e k s) = updateCh s"
  "nextAddr s \<le> nextAddr (syncSecret e k s)"
proof -
  obtain r s' where g: "getCertificatePem e k s = (r, s')" by fastforce
  note sp = getCertificatePem_spec [OF g]
  show "secretIngressMap (syncSecret e k s) = secretIngressMap s"
    "IngressAnnotation (syncSecret e k s) = IngressAnnotation s" "updateCh (syncSecret e k s) = updateCh s"
    "nextAddr s \<le> nextAddr (syncSecret e k s)"
    using sp by (auto simp: syncSecret_def g split: sum.splits option.splits)
qed

lemma syncSecret_ok:
  assumes "parse_ok (se_ParseCertificate e)" "store_ok (se_ParseCertificate e) s"
  shows "store_ok (se_ParseCertificate e) (syncSecret e k s)"
proof -
  obtain r s' where g: "getCertificatePem e k s = (r, s')" by fastforce
  note sp = getCertificatePem_spec [OF g]
  have n: "nextAddr (syncSecret e k s) = nextAddr s'"
    by (auto simp: syncSecret_def g split: sum.splits option.splits)
  show ?thesis
  proof (cases r)
    case (Inl err)
    then show ?thesis using syncSecret_spec [OF assms, of k] assms(2) g sp(5) n
      by (fastforce simp: store_ok_def)
  next
    case (Inr p)
    then have "map_of (sslStore (syncSecret e k s)) = (map_of (sslStore s))(k \<mapsto> p)"
      using syncSecret_spec [OF assms, of k] g by simp
    then show ?thesis
      using assms(2) g sp(5) n sp(7) [OF Inr] getCertificatePem_wf [OF assms(1), of k s p s'] Inr
      by (fastforce simp: store_ok_def)
  qed
qed

section \<open>Reachable stores\<close>

text \<open>
  The store changes only through its handlers. \<open>store_step e I\<close> is one call of a handler, where \<open>I\<close>
  are the ingresses the informer has shown to it; the environment (the lister contents, the answers
  of the file system) may differ from call to call.
\<close>

inductive store_step :: "sync_env \<Rightarrow> Ingress set \<Rightarrow> k8sStore \<Rightarrow> k8sStore \<Rightarrow> bool" for e I where
  IngAdd: "ing \<in> I \<Longrightarrow> store_step e I s (ing_AddFunc e ing s)"
| IngUpdate: "ing \<in> I \<Longrightarrow> store_step e I s (ing_UpdateFunc e old ing s)"
| IngDelete: "store_step e I s (ing_DeleteFunc ing s)"
| SecAdd: "store_step e I s (sec_AddFunc e sec s)"
| SecUpdate: "store_step e I s (sec_UpdateFunc e osec sec s)"
| SecDelete: "store_step e I s (sec_DeleteFunc e d s)"
| EpAdd: "store_step e I s (ep_AddFunc ep s)"
| EpUpdate: "store_step e I s (ep_UpdateFunc oep ep s)"
| EpDelete: "store_step e I s (ep_DeleteFunc ep s)"
| IPEvent: "set ings \<subseteq> I \<Longrightarrow> store_step e I s (loopUpdateIngress_step e ings ev s)"

inductive_cases store_stepE: "store_step e I s s'"

inductive store_reach :: "sync_env set \<Rightarrow> Ingress set \<Rightarrow> k8sStore \<Rightarrow> bool" for E I where
  Start: "store_reach E I (NewStore a)"
| Step: "store_reach E I s \<Longrightarrow> e \<in> E \<Longrightarrow> store_step e I s s' \<Longrightarrow> store_reach E I s'"

text \<open>An invariant of the certificate operations and of the small updates is one of every handler.\<close>

locale store_invariant =
  fixes e :: sync_env and I :: "Ingress set" and P :: "k8sStore \<Rightarrow> bool"
  assumes sync: "P s \<Longrightarrow> P (syncSecret e k s)"
    and annotate: "P s \<Longrightarrow> P (extractAnnotations e ing s)"
    and update: "P s \<Longrightarrow> ing \<in> I \<Longrightarrow>
      P (s\<lparr>secretIngressMap := update_secretIngressMap (se_Key e) ing (secretIngressMap s)\<rparr>)"
    and send: "P s \<Longrightarrow> P (send ty obj s)"
    and delete: "P s \<Longrightarrow> P (s\<lparr>sslStore := AList.delete k (sslStore s)\<rparr>)"
begin

lemma syncs: "P s \<Longrightarrow> P (fold (syncSecret e) ks s)"
  by (induction ks arbitrary: s) (auto intro: sync)

lemma syncSecrets: "P s \<Longrightarrow> P (syncSecrets e ing s)"
  by (simp add: syncSecrets_def syncs)

lemma refresh: "P s \<Longrightarrow> ing \<in> I \<Longrightarrow> P (refresh e ing s)"
  by (simp add: refresh_def Let_def syncSecrets update annotate)

lemma sync_ingresses: "P s \<Longrightarrow> P (sync_ingresses e ks s)"
  unfolding sync_ingresses_def
  by (induction ks arbitrary: s) (auto intro: syncSecrets split: option.splits)

lemma ip_event: "P s \<Longrightarrow> set ings \<subseteq> I \<Longrightarrow> P (loopUpdateIngress_step e ings ev s)"
  unfolding loopUpdateIngress_step_def
  by (induction ings arbitrary: s) (auto intro: send refresh)

lemma step: "store_step e I s s' \<Longrightarrow> P s \<Longrightarrow> P s'"
proof (erule store_stepE, goal_cases)
  case (6 d)
  then show ?case
    by (auto simp: sec_DeleteFunc_def Let_def intro: send delete split: deleted.splits option.splits)
qed (auto simp: ing_AddFunc_def ing_UpdateFunc_def ing_DeleteFunc_def sec_AddFunc_def sec_UpdateFunc_def
      ep_AddFunc_def ep_UpdateFunc_def ep_DeleteFunc_def Let_def
    intro: send refresh sync_ingresses ip_event)

end

text \<open>The certificates of the store are non-nil, older than the next address and as built.\<close>

lemma store_ok_same: "store_ok c s \<Longrightarrow> sslStore s' = sslStore s \<Longrightarrow> nextAddr s' = nextAddr s \<Longrightarrow> store_ok c s'"
  by (simp add: store_ok_def)

definition certs_ok :: "sync_env \<Rightarrow> k8sStore \<Rightarrow> bool" where
  "certs_ok e s \<longleftrightarrow> (parse_ok (se_ParseCertificate e) \<longrightarrow> store_ok (se_ParseCertificate e) s)"

interpretation certs_inv: store_invariant e I "certs_ok e" for e I
proof unfold_locales
  fix s k assume "certs_ok e s"
  then show "certs_ok e (s\<lparr>sslStore := AList.delete k (sslStore s)\<rparr>)"
    by (auto simp: certs_ok_def store_ok_def delete_conv' split: if_splits)
next
  fix s k assume "certs_ok e s"
  then show "certs_ok e (syncSecret e k s)" by (simp add: certs_ok_def syncSecret_ok)
qed (auto elim!: store_ok_same simp: certs_ok_def extractAnnotations_def send_def Let_def)

lemma update_loop_dom: "dom (map_of (update_loop k ns tls v)) \<subseteq> insert k (dom (map_of v))"
proof (induction tls arbitrary: v)
  case (Cons t tls)
  from Cons [of "map_append k (ns @ ''/'' @ it_SecretName t) v"] show ?case
    by (auto simp: map_append_def)
qed auto

text \<open>The map from ingresses to secrets has only keys of ingresses.\<close>

definition only_ingress_keys :: "(ObjectMeta \<Rightarrow> string) \<Rightarrow> Ingress set \<Rightarrow> k8sStore \<Rightarrow> bool" where
  "only_ingress_keys key I s \<longleftrightarrow> dom (map_of (secretIngressMap s)) \<subseteq> (\<lambda>i. key (ing_Meta i)) ` I"

interpretation keys_inv: store_invariant e I "only_ingress_keys (se_Key e) I" for e I
proof unfold_locales
  fix s ing assume "only_ingress_keys (se_Key e) I s" "ing \<in> I"
  then show "only_ingress_keys (se_Key e) I
      (s\<lparr>secretIngressMap := update_secretIngressMap (se_Key e) ing (secretIngressMap s)\<rparr>)"
    using update_loop_dom [of "se_Key e (ing_Meta ing)" "om_Namespace (ing_Meta ing)" "ing_TLS ing" "secretIngressMap s"]
    by (simp add: only_ingress_keys_def update_secretIngressMap_def) blast
qed (simp_all add: only_ingress_keys_def syncSecret_keeps extractAnnotations_def send_def Let_def)

text \<open>Environments that agree on client-go's key function and on the certificate parser.\<close>

definition envs :: "(ObjectMeta \<Rightarrow> string) \<Rightarrow> cert_parser \<Rightarrow> sync_env set" where
  "envs key parse = {e. se_Key e = key \<and> se_ParseCertificate e = parse}"

lemma store_reach_ok:
  assumes "store_reach (envs key parse) I s" "parse_ok parse"
  shows "store_ok parse s"
  using assms(1)
proof induction
  case (Start a)
  show ?case by (simp add: store_ok_def NewStore_def)
next
  case (Step s e s')
  then show ?case using certs_inv.step [of e I s s'] assms(2) by (auto simp: envs_def certs_ok_def)
qed

lemma store_reach_keys:
  assumes "store_reach (envs key parse) I s"
  shows "only_ingress_keys key I s"
  using assms
proof induction
  case (Start a)
  show ?case by (simp add: only_ingress_keys_def NewStore_def)
next
  case (Step s e s')
  then show ?case using keys_inv.step [of e I s s'] by (auto simp: envs_def)
qed

section \<open>What the handlers achieve\<close>

lemma syncs_contents:
  assumes "parse_ok (se_ParseCertificate e)" "store_ok (se_ParseCertificate e) s" "spec_cert e k = Some v"
    and "k \<in> set ks \<or> (\<exists>p. map_of (sslStore s) k = Some p \<and> cert_contents p = Some v)"
  shows "\<exists>p. map_of (sslStore (fold (syncSecret e) ks s)) k = Some p \<and> cert_contents p = Some v"
  using assms(2,4)
proof (induction ks arbitrary: s)
  case (Cons k' ks)
  obtain r s1 where g: "getCertificatePem e k' s = (r, s1)" by fastforce
  note sp = getCertificatePem_spec(6) [OF g] syncSecret_spec [OF assms(1) Cons.prems(1), of k']
  have "\<exists>p. map_of (sslStore (syncSecret e k' s)) k = Some p \<and> cert_contents p = Some v" if "k' = k \<or> k \<notin> set ks"
    using that sp g Cons.prems(2) assms(3) by (auto split: sum.splits)
  then show ?case using Cons.IH [OF syncSecret_ok [OF assms(1) Cons.prems(1)], of k'] by auto
qed simp

lemma update_loop_slice: "map_slice (update_loop k ns tls v) k = map_slice v k @ map (\<lambda>t. ns @ ''/'' @ it_SecretName t) tls"
  by (induction tls arbitrary: v) simp_all

text \<open>After an ingress is handled, every secret of its TLS section that makes a certificate has it in the store.\<close>

lemma refresh_certs:
  assumes "parse_ok (se_ParseCertificate e)" "store_ok (se_ParseCertificate e) s" "t \<in> set (ing_TLS ing)"
    and "spec_cert e (om_Namespace (ing_Meta ing) @ ''/'' @ it_SecretName t) = Some v"
  shows "\<exists>p. map_of (sslStore (refresh e ing s)) (om_Namespace (ing_Meta ing) @ ''/'' @ it_SecretName t) = Some p \<and>
    cert_contents p = Some v"
proof -
  let ?s = "(extractAnnotations e ing s)\<lparr>secretIngressMap :=
    update_secretIngressMap (se_Key e) ing (secretIngressMap (extractAnnotations e ing s))\<rparr>"
  have "store_ok (se_ParseCertificate e) ?s"
    using assms(2) by (auto elim!: store_ok_same simp: extractAnnotations_def Let_def)
  moreover have "om_Namespace (ing_Meta ing) @ ''/'' @ it_SecretName t \<in>
      set (getSecretKeys (secretIngressMap ?s) (se_Key e (ing_Meta ing)))"
    using assms(3) by (auto simp: getSecretKeys_def update_secretIngressMap_def update_loop_slice)
  ultimately show ?thesis
    using syncs_contents [OF assms(1) _ assms(4)] by (simp add: refresh_def syncSecrets_def Let_def)
qed

lemma syncs_keeps:
  "IngressAnnotation (fold (syncSecret e) ks s) = IngressAnnotation s" "updateCh (fold (syncSecret e) ks s) = updateCh s"
  by (induction ks arbitrary: s) (simp_all add: syncSecret_keeps)

lemma refresh_keeps:
  "IngressAnnotation (refresh e ing s) = map_set (se_Key e (an_Meta (se_Extract e ing))) (se_Extract e ing) (IngressAnnotation s)"
  "updateCh (refresh e ing s) = updateCh s"
  by (simp_all add: refresh_def syncSecrets_def syncs_keeps extractAnnotations_def Let_def)

end
