(* ===== verification/Openresty.thy ===== *)
theory Openresty
  imports GwStore
begin

text \<open>
  \<open>gateway/controller/openresty\<close>: how a configuration of the gateway becomes nginx configuration.

  \<^item> \<open>model\<close>: the data the templates are executed on, with its validation.
  \<^item> \<open>template\<close>: the functions of the templates and the writing of the files. The file system is a map
    from paths to contents; what an operation answers is given by \<open>or_io\<close>, and \<open>nginx -t\<close> is a
    predicate of the file system. The text templates are arguments.
  \<^item> \<open>OrService\<close>: the virtual servers and backends of a configuration.
\<close>

section \<open>Paths\<close>

text \<open>\<open>path.Clean\<close>, \<open>path.Join\<close> and \<open>path.Dir\<close>.\<close>

fun clean_segs :: "bool \<Rightarrow> string list \<Rightarrow> string list \<Rightarrow> string list" where
  "clean_segs rooted acc [] = rev acc"
| "clean_segs rooted acc (s # ss) =
     (if s = [] \<or> s = ''.'' then clean_segs rooted acc ss
      else if s = ''..'' then
        (if acc \<noteq> [] \<and> hd acc \<noteq> ''..'' then clean_segs rooted (tl acc) ss
         else if rooted then clean_segs rooted acc ss
         else clean_segs rooted (''..'' # acc) ss)
      else clean_segs rooted (s # acc) ss)"

definition path_Clean :: "string \<Rightarrow> string" where
  "path_Clean p =
     (if p = [] then ''.''
      else (let rooted = (hd p = CHR ''/''); body = Join (clean_segs rooted [] (Split (CHR ''/'') p)) ''/''
            in if rooted then ''/'' @ body else if body = [] then ''.'' else body))"

definition path_Join :: "string list \<Rightarrow> string" where
  "path_Join elems =
     (let es = filter (\<lambda>e. e \<noteq> []) elems in if es = [] then [] else path_Clean (Join es ''/''))"

definition path_Dir :: "string \<Rightarrow> string" where
  "path_Dir p = path_Clean (rev (dropWhile (\<lambda>c. c \<noteq> CHR ''/'') (rev p)))"

section \<open>Model\<close>

record Time =
  tm_Num :: int
  tm_Unit :: string

record or_Config =
  oc_ListenPorts :: ListenPorts
  oc_WorkerProcesses :: int
  oc_WorkerRlimitNofile :: int
  oc_ErrorLog :: string
  oc_AccessLogPath :: string
  oc_AccessLogFormat :: string
  oc_ErrorLogLevel :: string
  oc_WorkerConnections :: int
  oc_EnableEpool :: bool
  oc_EnableMultiAccept :: bool
  oc_NginxUser :: string
  oc_ShareMemory :: nat
  oc_EnableSSLStapling :: bool

record Endpoint =
  en_Address :: string
  en_Port :: string
  en_Weight :: int

record model_Backend =
  mb_Name :: string
  mb_Endpoints :: "Endpoint list"
  mb_AffinityType :: string
  mb_CookieName :: string
  mb_UpstreamHashBy :: string
  mb_LoadBalancing :: string

definition endpoint_of :: "Node \<Rightarrow> Endpoint" where
  "endpoint_of node = \<lparr>en_Address = nd_Host node, en_Port = Itoa (nd_Port node), en_Weight = nd_Weight node\<rparr>"

text \<open>The nodes behind a slice of pointers; \<open>None\<close> is a nil dereference.\<close>

fun deref :: "'a ptr list \<Rightarrow> 'a list option" where
  "deref [] = Some []"
| "deref (NilPtr # ps) = None"
| "deref (Ptr _ v # ps) = map_option ((#) v) (deref ps)"

definition CreateBackendByPool :: "Pool \<Rightarrow> model_Backend option" where
  "CreateBackendByPool pool =
     map_option (\<lambda>nodes.
       (let backend = \<lparr>mb_Name = Name (pl_Meta pool), mb_Endpoints = [], mb_AffinityType = [], mb_CookieName = [],
                       mb_UpstreamHashBy = [], mb_LoadBalancing = []\<rparr>;
            backend = (if pl_LoadBalancingType pool = RoundRobin then backend\<lparr>mb_LoadBalancing := ''round_robin''\<rparr>
                       else if pl_LoadBalancingType pool = CookieSessionAffinity
                       then backend\<lparr>mb_AffinityType := ''cookie'', mb_CookieName := ''kato-route''\<rparr>
                       else backend)
        in backend\<lparr>mb_UpstreamHashBy := pl_UpstreamHashBy pool, mb_Endpoints := map endpoint_of nodes\<rparr>))
     (deref (pl_Nodes pool))"

record model_Location =
  ml_Path :: string
  ml_Rewrite :: rewrite_Config
  ml_EnableMetrics :: bool
  ml_DisableAccessLog :: bool
  ml_AccessLogPath :: string
  ml_DisableProxyPass :: bool
  ml_PathRewrite :: bool
  ml_NameCondition :: "(string, Condition ptr) gomap"
  ml_Proxy :: proxy_Config

record model_Server =
  ms_Listen :: string
  ms_Protocol :: string
  ms_ServerName :: string
  ms_SSLProtocols :: string
  ms_SSLCertificate :: string
  ms_SSLCertificateKey :: string
  ms_EnableSSLStapling :: bool
  ms_Locations :: "model_Location list"
  ms_OptionValue :: "(string, string) gomap"
  ms_UpstreamName :: string
  ms_ProxyStreamTimeout :: string
  ms_ProxyStreamNextUpstream :: bool
  ms_ProxyStreamNextUpstreamTimeout :: string
  ms_ProxyStreamNextUpstreamTries :: int

datatype server_error = BadServerName string | BadLocation string loc_error
  and loc_error = EmptyPath | BadProxy string proxy_error

definition Location_Validation ::
  "(string \<Rightarrow> bool) \<Rightarrow> (string \<Rightarrow> bool) \<Rightarrow> model_Location \<Rightarrow> loc_error + model_Location" where
  "Location_Validation vname vval s =
     (if ml_Path s = [] then Inl EmptyPath
      else (case proxy_Validation vname vval (ml_Proxy s) of
              Inl err \<Rightarrow> Inl (BadProxy (ml_Path s) err)
            | Inr px \<Rightarrow> Inr (s\<lparr>ml_Proxy := px\<rparr>)))"

fun validate_locations ::
  "(string \<Rightarrow> bool) \<Rightarrow> (string \<Rightarrow> bool) \<Rightarrow> model_Location list \<Rightarrow> loc_error + model_Location list" where
  "validate_locations vname vval [] = Inr []"
| "validate_locations vname vval (l # ls) =
     (case Location_Validation vname vval l of
        Inl err \<Rightarrow> Inl err
      | Inr l \<Rightarrow> (case validate_locations vname vval ls of Inl err \<Rightarrow> Inl err | Inr ls \<Rightarrow> Inr (l # ls)))"

definition Server_Validation ::
  "(string \<Rightarrow> bool) \<Rightarrow> (string \<Rightarrow> bool) \<Rightarrow> model_Server \<Rightarrow> server_error + model_Server" where
  "Server_Validation vname vval s =
     (if ms_ServerName s \<noteq> [] \<and> Contains (ms_ServerName s) '' '' then Inl (BadServerName (ms_ServerName s))
      else
        (let s = (if ms_ProxyStreamTimeout s = [] then s\<lparr>ms_ProxyStreamTimeout := ''600s''\<rparr> else s);
             s = (if ms_Protocol s = []
                  then (if ms_ServerName s \<noteq> [] then s\<lparr>ms_Protocol := ''HTTP''\<rparr> else s\<lparr>ms_Protocol := ''TCP''\<rparr>)
                  else s)
         in case validate_locations vname vval (ms_Locations s) of
              Inl err \<Rightarrow> Inl (BadLocation (ms_ServerName s) err)
            | Inr ls \<Rightarrow> Inr (s\<lparr>ms_Locations := ls\<rparr>)))"

record HTTP =
  ht_DefaultType :: string
  ht_SendFile :: bool
  ht_KeepaliveTimeout :: Time
  ht_ClientMaxBodySize :: Time
  ht_ClientBodyBufferSize :: Time
  ht_ProxyConnectTimeout :: Time
  ht_ProxySendTimeout :: Time
  ht_ProxyReadTimeout :: Time
  ht_ProxyBufferSize :: Time
  ht_ProxyBuffers :: Time
  ht_StatusPort :: int
  ht_UpstreamsDict :: Time
  ht_HTTPListen :: int
  ht_HTTPSListen :: int
  ht_AccessLogPath :: string
  ht_DisableAccessLog :: bool
  ht_AccessLogFormat :: string

definition defaultLogFormat :: string where
  "defaultLogFormat =
     ''$remote_addr - $remote_user [$time_local] '' @ [CHR 0x22] @ ''$request'' @ [CHR 0x22] @
     '' $status $body_bytes_sent '' @ [CHR 0x22] @ ''$http_referer'' @ [CHR 0x22] @ '' '' @ [CHR 0x22] @
     ''$http_user_agent'' @ [CHR 0x22] @
     '' $request_length $request_time $upstream_addr $upstream_response_length $upstream_response_time $upstream_status''"

definition NewHTTP :: "or_Config \<Rightarrow> HTTP" where
  "NewHTTP conf =
     \<lparr>ht_DefaultType = ''text/html'', ht_SendFile = True,
      ht_KeepaliveTimeout = \<lparr>tm_Num = 30, tm_Unit = ''s''\<rparr>,
      ht_ClientMaxBodySize = \<lparr>tm_Num = 10, tm_Unit = ''m''\<rparr>,
      ht_ClientBodyBufferSize = \<lparr>tm_Num = 128, tm_Unit = ''k''\<rparr>,
      ht_ProxyConnectTimeout = \<lparr>tm_Num = 75, tm_Unit = ''s''\<rparr>,
      ht_ProxySendTimeout = \<lparr>tm_Num = 75, tm_Unit = ''s''\<rparr>,
      ht_ProxyReadTimeout = \<lparr>tm_Num = 75, tm_Unit = ''s''\<rparr>,
      ht_ProxyBufferSize = \<lparr>tm_Num = 8, tm_Unit = ''k''\<rparr>,
      ht_ProxyBuffers = \<lparr>tm_Num = 32, tm_Unit = ''k''\<rparr>,
      ht_StatusPort = lp_Status (oc_ListenPorts conf),
      ht_UpstreamsDict = \<lparr>tm_Num = to_int64 (int (oc_ShareMemory conf)), tm_Unit = ''m''\<rparr>,
      ht_HTTPListen = lp_HTTP (oc_ListenPorts conf), ht_HTTPSListen = lp_HTTPS (oc_ListenPorts conf),
      ht_AccessLogPath = oc_AccessLogPath conf,
      ht_DisableAccessLog = (oc_AccessLogPath conf = []),
      ht_AccessLogFormat = (if oc_AccessLogFormat conf = [] then defaultLogFormat else oc_AccessLogFormat conf)\<rparr>"

record Nginx =
  ng_WorkerProcesses :: int
  ng_WorkerRlimitNofile :: int
  ng_ErrorLog :: string
  ng_ErrorLogLevel :: string
  ng_User :: string
  ng_WorkerConnections :: int
  ng_EnableEpoll :: bool
  ng_EnableMultiAccept :: bool
  ng_HTTP :: HTTP
  ng_StreamPort :: int

text \<open>\<open>NewNginx\<close> with the HTTP and stream parts that \<open>Start\<close> puts in; \<open>currentUser\<close> is \<open>user.Current\<close>
  (\<open>None\<close> an error) and \<open>NumCPU\<close> the number of processors.\<close>

definition NewNginx :: "string option \<Rightarrow> int \<Rightarrow> or_Config \<Rightarrow> Nginx" where
  "NewNginx currentUser NumCPU conf0 =
     (let conf = (if oc_NginxUser conf0 \<noteq> [] \<and> currentUser = Some (oc_NginxUser conf0)
                  then conf0\<lparr>oc_NginxUser := []\<rparr> else conf0);
          conf = (if oc_WorkerProcesses conf = 0 then conf\<lparr>oc_WorkerProcesses := NumCPU\<rparr> else conf)
      in \<lparr>ng_WorkerProcesses = oc_WorkerProcesses conf, ng_WorkerRlimitNofile = oc_WorkerRlimitNofile conf,
          ng_ErrorLog = oc_ErrorLog conf, ng_ErrorLogLevel = oc_ErrorLogLevel conf, ng_User = oc_NginxUser conf,
          ng_WorkerConnections = oc_WorkerConnections conf, ng_EnableEpoll = oc_EnableEpool conf,
          ng_EnableMultiAccept = oc_EnableMultiAccept conf, ng_HTTP = NewHTTP conf0,
          ng_StreamPort = lp_Stream (oc_ListenPorts conf0)\<rparr>)"

section \<open>Template functions\<close>

definition tab :: "nat \<Rightarrow> string" where "tab n = replicate n (CHR 0x09)"
definition quot :: "string \<Rightarrow> string" where "quot s = [CHR 0x22] @ s @ [CHR 0x22]"
definition lineSep :: string where "lineSep = [CHR 0x0A, CHR 0x0D]"

definition header_snippet :: "((string, string) gomap \<Rightarrow> (string, string) gomap) \<Rightarrow> string \<Rightarrow> Condition \<Rightarrow> string" where
  "header_snippet rng name c =
     (let kvs = rng (cd_Value c) in
      Join (map (\<lambda>(key, val). tab 3 @ ''local '' @ key @ '' = ngx.var.http_'' @ key) kvs @
            [tab 3 @ ''if '' @ Join (map fst kvs) '' and '' @ '' then'',
             tab 4 @ ''if '' @ Join (map (\<lambda>(key, val). key @ '' == '' @ quot val) kvs) '' and '' @ '' then'',
             tab 5 @ ''ngx.var.target = '' @ quot name,
             tab 5 @ ''else'',
             tab 7 @ ''ngx.exit(404)'',
             tab 4 @ ''end'',
             tab 3 @ ''elseif ngx.var.target == '' @ [CHR 0x27] @ ''default'' @ [CHR 0x27] @ '' then'',
             tab 4 @ ''ngx.exit(404)'',
             tab 3 @ ''end'']) lineSep)"

definition cookie_lua :: string where
  "cookie_lua =
     Join [[],
           tab 3 @ ''string.split = function(s, p)'',
           replicate 16 (CHR '' '') @ ''local rt= {}'',
           tab 4 @ ''string.gsub(s, '' @ [CHR 0x27] @ ''[^'' @ [CHR 0x27] @ ''..p..'' @ [CHR 0x27] @ '']+'' @ [CHR 0x27] @
             '', function(w) table.insert(rt, w) end )'',
           replicate 16 (CHR '' '') @ ''return rt'',
           replicate 12 (CHR '' '') @ ''end'',
           tab 3 @ ''local cookie = ngx.var.http_Cookie'',
           tab 3 @ ''if cookie then'',
           tab 4 @ ''local tbl = string.split(cookie, '' @ quot '';'' @ '')'',
           tab 4 @ ''local map = {}'',
           tab 4 @ ''for _, v in pairs(tbl) do'',
           tab 5 @ ''local list = string.split(v, '' @ quot ''='' @ '')'',
           tab 5 @ ''map[list[1]] = list[2]'',
           tab 4 @ ''end'',
           tab 3] [CHR 0x0A]"

definition cookie_snippet :: "((string, string) gomap \<Rightarrow> (string, string) gomap) \<Rightarrow> string \<Rightarrow> Condition \<Rightarrow> string" where
  "cookie_snippet rng name c =
     Join [cookie_lua,
           tab 4 @ ''if '' @ Join (map (\<lambda>(key, val). ''map['' @ quot key @ ''] == '' @ quot val) (rng (cd_Value c))) '' and '' @ '' then'',
           tab 5 @ ''ngx.var.target = '' @ quot name,
           tab 4 @ ''else'',
           tab 5 @ ''ngx.exit(404)'',
           tab 4 @ ''end'',
           tab 4 @ ''elseif ngx.var.target == '' @ [CHR 0x27] @ ''default'' @ [CHR 0x27] @ '' then'',
           tab 5 @ ''ngx.exit(404)'',
           tab 3 @ ''end''] lineSep"

definition default_snippet :: "string \<Rightarrow> string" where
  "default_snippet name = tab 3 @ ''ngx.var.target = '' @ quot name"

text \<open>The slots of \<open>priority\<close>: 0 the default backend, 1 the cookie, 2 the header. \<open>None\<close> is a nil condition.\<close>

type_synonym priority = "string \<times> string \<times> string"

definition router_step ::
  "((string, string) gomap \<Rightarrow> (string, string) gomap) \<Rightarrow> string \<times> Condition ptr \<Rightarrow> priority \<Rightarrow> priority option" where
  "router_step rng nc pr =
     (let (name, cp) = nc; (p0, p1, p2) = pr in
      case ptr_val cp of
        None \<Rightarrow> None
      | Some c \<Rightarrow>
          Some (if cd_Type c = HeaderType then (p0, p1, header_snippet rng name c)
                else if cd_Type c = CookieType then (p0, cookie_snippet rng name c, p2)
                else (default_snippet name, p1, p2)))"

definition buildLuaHeaderRouter ::
  "((string, string) gomap \<Rightarrow> (string, string) gomap) \<Rightarrow>
   ((string, Condition ptr) gomap \<Rightarrow> (string, Condition ptr) gomap) \<Rightarrow> model_Location \<Rightarrow> string option" where
  "buildLuaHeaderRouter rng crng loc =
     map_option (\<lambda>(p0, p1, p2).
       Join ([''access_by_lua_block {''] @ filter (\<lambda>p. p \<noteq> []) [p0, p1, p2] @ [tab 2 @ ''}'']) lineSep)
     (foldM (router_step rng) (crng (ml_NameCondition loc)) ([], [], []))"

definition size_regex :: "char set \<Rightarrow> string \<Rightarrow> bool" where
  \<comment> \<open>\<open>^[0-9]+[units]{0,1}$\<close>\<close>
  "size_regex units s =
     (let ds = takeWhile is_digit s; rest = dropWhile is_digit s
      in ds \<noteq> [] \<and> (rest = [] \<or> (\<exists>u \<in> units. rest = [u])))"

definition isValidByteSize :: "iface \<Rightarrow> bool \<Rightarrow> bool" where
  "isValidByteSize input isOffset =
     (case input of
        IfInt _ \<Rightarrow> True
      | IfStr s0 \<Rightarrow>
          (let s = TrimSpace s0 in
           if s = [] then False
           else if isOffset then size_regex {CHR ''k'', CHR ''K'', CHR ''m'', CHR ''M'', CHR ''g'', CHR ''G''} s
           else size_regex {CHR ''k'', CHR ''K'', CHR ''m'', CHR ''M''} s)
      | _ \<Rightarrow> False)"

definition nonIdempotent :: string where "nonIdempotent = ''non_idempotent''"

fun next_codes :: "string list \<Rightarrow> string list \<Rightarrow> bool \<Rightarrow> string list \<times> bool" where
  "next_codes [] codes retry = (codes, retry)"
| "next_codes (v # vs) codes retry =
     next_codes vs (if v \<noteq> [] \<and> v \<noteq> nonIdempotent then codes @ [v] else codes) (if v = nonIdempotent then True else retry)"

definition buildNextUpstream :: "iface \<Rightarrow> iface \<Rightarrow> string option" where
  \<comment> \<open>\<open>None\<close>: the type assertion \<open>r.(bool)\<close> panics.\<close>
  "buildNextUpstream i r =
     (case i of
        IfStr nextUpstream \<Rightarrow>
          (case r of
             IfBool retryNonIdempotent \<Rightarrow>
               (let (codes, retry) = next_codes (Split (CHR '' '') nextUpstream) [] retryNonIdempotent;
                    codes = (if retry then codes @ [nonIdempotent] else codes)
                in Some (Join codes '' ''))
           | _ \<Rightarrow> None)
      | _ \<Rightarrow> Some [])"

section \<open>Writing the files\<close>

type_synonym filesystem = "(string, string) gomap"

text \<open>An error of \<open>ioutil.ReadFile\<close>: whether it is \<open>os.ErrNotExist\<close>, its text, and \<open>os.IsNotExist\<close> of it.\<close>

record read_error =
  re_ErrNotExist :: bool
  re_Text :: string
  re_IsNotExist :: bool

record or_io =
  io_CheckAndCreateDir :: "string \<Rightarrow> string option"
  io_ReadFile :: "string \<Rightarrow> read_error option"
  io_Rename :: "string \<Rightarrow> string \<Rightarrow> string option"
  io_OpenFile :: "string \<Rightarrow> string option"
  io_Write :: "string \<Rightarrow> nat \<times> string option"
  io_Remove :: "string \<Rightarrow> string option"
  io_CheckConfig :: "(string \<rightharpoonup> string) \<Rightarrow> bool"

definition ReadFile :: "or_io \<Rightarrow> string \<Rightarrow> filesystem \<Rightarrow> read_error + string" where
  "ReadFile io f fs =
     (case io_ReadFile io f of
        Some err \<Rightarrow> Inl err
      | None \<Rightarrow>
          (case map_of fs f of
             None \<Rightarrow> Inl \<lparr>re_ErrNotExist = False, re_Text = ''open '' @ f @ '': no such file or directory'', re_IsNotExist = True\<rparr>
           | Some c \<Rightarrow> Inr c))"

definition Rename :: "or_io \<Rightarrow> string \<Rightarrow> string \<Rightarrow> filesystem \<Rightarrow> string option \<times> filesystem" where
  "Rename io f g fs =
     (case io_Rename io f g of
        Some err \<Rightarrow> (Some err, fs)
      | None \<Rightarrow> (None, map_set g (map_str fs f) (AList.delete f fs)))"

definition OpenAppend :: "or_io \<Rightarrow> string \<Rightarrow> filesystem \<Rightarrow> string option \<times> filesystem" where
  "OpenAppend io f fs =
     (case io_OpenFile io f of
        Some err \<Rightarrow> (Some err, fs)
      | None \<Rightarrow> (None, map_set f (map_str fs f) fs))"

definition WriteOnce :: "or_io \<Rightarrow> string \<Rightarrow> string \<Rightarrow> filesystem \<Rightarrow> nat \<times> string option \<times> filesystem" where
  \<comment> \<open>At most \<open>c\<close> bytes are appended.\<close>
  "WriteOnce io f body fs =
     (let (c, err) = io_Write io body; c = min c (length body)
      in (c, err, map_set f (map_str fs f @ take c body) fs))"

datatype write_error = DirError string | OldConfigError read_error | RenameError string | OpenError string
  | WriteError string | ErrorCheck

definition writeBody :: "or_io \<Rightarrow> bool \<Rightarrow> string \<Rightarrow> string \<Rightarrow> filesystem \<Rightarrow> write_error option \<times> filesystem" where
  \<comment> \<open>\<open>writeFile\<close> from \<open>os.OpenFile\<close> on.\<close>
  "writeBody io noOldConfig configBody configFile fs =
     (case OpenAppend io configFile fs of
        (Some err, fs) \<Rightarrow> (Some (OpenError err), fs)
      | (None, fs) \<Rightarrow>
          (let (c, err, fs) = WriteOnce io configFile configBody fs;
               (err, fs) = (if c < length configBody
                            then (let (_, err, fs) = WriteOnce io configFile (drop c configBody) fs in (err, fs))
                            else (err, fs))
           in case err of
                Some err \<Rightarrow> (Some (WriteError err), fs)
              | None \<Rightarrow>
                  if \<not> io_CheckConfig io (map_of fs)
                  then (Some ErrorCheck,
                        if \<not> noOldConfig then snd (Rename io (configFile @ ''.bak'') configFile fs) else fs)
                  else (None,
                        if \<not> noOldConfig \<and> io_Remove io (configFile @ ''.bak'') = None
                        then AList.delete (configFile @ ''.bak'') fs else fs)))"

definition writeFile :: "or_io \<Rightarrow> bool \<Rightarrow> string \<Rightarrow> string \<Rightarrow> filesystem \<Rightarrow> write_error option \<times> filesystem" where
  "writeFile io first configBody configFile fs =
     (case io_CheckAndCreateDir io (path_Dir configFile) of
        Some err \<Rightarrow> (Some (DirError err), fs)
      | None \<Rightarrow>
          (case ReadFile io configFile fs of
             Inl err \<Rightarrow>
               if \<not> re_ErrNotExist err \<and> Contains (re_Text err) ''no such file or directory'' \<and> \<not> re_IsNotExist err
               then (Some (OldConfigError err), fs)
               else writeBody io True configBody configFile fs
           | Inr oldBody \<Rightarrow>
               (case Rename io configFile (configFile @ ''.bak'') fs of
                  (Some err, fs) \<Rightarrow> (Some (RenameError err), fs)
                | (None, fs) \<Rightarrow>
                    writeBody io False (if \<not> first then oldBody @ configBody @ [CHR 0x0A] else configBody) configFile fs)))"

section \<open>Server files\<close>

record NginxServerContext =
  nc_Servers :: "model_Server list"
  nc_TCPBackends :: "model_Server list"
  nc_UDPBackends :: "model_Server list"

record conf_templates =
  ct_configFileDirPath :: string
  ct_nginxTmpl :: "Nginx \<Rightarrow> string + string"
  ct_serverTmpl :: "NginxServerContext \<Rightarrow> string + string"
  ct_tcpAndUDPServerTmpl :: "NginxServerContext \<Rightarrow> string + string"
  ct_vname :: "string \<Rightarrow> bool"
  ct_vval :: "string \<Rightarrow> bool"

definition serverConfigFile :: "conf_templates \<Rightarrow> string \<Rightarrow> string \<Rightarrow> string" where
  "serverConfigFile ct configtype tenant =
     path_Join [ct_configFileDirPath ct, configtype, tenant, tenant @ ''_servers.conf'']"

fun valid_servers :: "conf_templates \<Rightarrow> model_Server list \<Rightarrow> model_Server list" where
  "valid_servers ct [] = []"
| "valid_servers ct (s # ss) =
     (case Server_Validation (ct_vname ct) (ct_vval ct) s of
        Inl err \<Rightarrow> valid_servers ct ss
      | Inr s' \<Rightarrow> s' # valid_servers ct ss)"

fun server_context :: "model_Server list \<Rightarrow> NginxServerContext \<Rightarrow> NginxServerContext" where
  "server_context [] ctx = ctx"
| "server_context (s # ss) ctx =
     server_context ss
       (if ms_Protocol s = ''HTTP'' then ctx\<lparr>nc_Servers := nc_Servers ctx @ [s]\<rparr>
        else if ms_Protocol s = ''UDP'' then ctx\<lparr>nc_UDPBackends := nc_UDPBackends ctx @ [s]\<rparr>
        else if ms_Protocol s = ''TCP'' then ctx\<lparr>nc_TCPBackends := nc_TCPBackends ctx @ [s]\<rparr>
        else ctx)"

datatype conf_error = TemplateError string | FileError write_error

definition WriteServer ::
  "or_io \<Rightarrow> conf_templates \<Rightarrow> string \<Rightarrow> string \<Rightarrow> model_Server list \<Rightarrow> filesystem \<Rightarrow> conf_error option \<times> filesystem" where
  "WriteServer io ct configtype tenant servers fs =
     (let tenant = (if tenant = [] then ''default'' else tenant);
          configtype = (if configtype = [] then ''http'' else configtype);
          file = serverConfigFile ct configtype tenant;
          writeServers = valid_servers ct servers
      in if length writeServers < 1
         then (let (err, fs) = writeFile io True [] file fs in (map_option FileError err, fs))
         else
           (let ctx = server_context writeServers \<lparr>nc_Servers = [], nc_TCPBackends = [], nc_UDPBackends = []\<rparr>
            in case (if configtype = ''stream'' then ct_tcpAndUDPServerTmpl ct ctx else ct_serverTmpl ct ctx) of
                 Inl err \<Rightarrow> (Some (TemplateError err), fs)
               | Inr body \<Rightarrow> (None, snd (writeFile io True body file fs))))"

definition NewNginxTemplate ::
  "or_io \<Rightarrow> conf_templates \<Rightarrow> Nginx \<Rightarrow> filesystem \<Rightarrow> conf_error option \<times> filesystem" where
  "NewNginxTemplate io ct data fs =
     (case ct_nginxTmpl ct data of
        Inl err \<Rightarrow> (Some (TemplateError err), fs)
      | Inr body \<Rightarrow>
          (let (err, fs) = writeFile io True body (path_Join [ct_configFileDirPath ct, ''nginx.conf'']) fs
           in (map_option FileError err, fs)))"

section \<open>The service\<close>

definition location_of :: "or_Config \<Rightarrow> Location \<Rightarrow> model_Location" where
  "location_of ocfg loc =
     \<lparr>ml_Path = lo_Path loc, ml_Rewrite = lo_Rewrite loc, ml_EnableMetrics = True,
      ml_DisableAccessLog = (oc_AccessLogPath ocfg = []), ml_AccessLogPath = oc_AccessLogPath ocfg,
      ml_DisableProxyPass = lo_DisableProxyPass loc, ml_PathRewrite = False,
      ml_NameCondition = lo_NameCondition loc, ml_Proxy = lo_Proxy loc\<rparr>"

definition option_values :: "VirtualService \<Rightarrow> (string, string) gomap" where
  "option_values vs = [(''tenant_id'', Namespace (vs_Meta vs)), (''service_id'', ServiceID (vs_Meta vs))]"

definition l7_server :: "or_Config \<Rightarrow> VirtualService \<Rightarrow> model_Server option" where
  "l7_server ocfg vs =
     map_option (\<lambda>locs.
       (let server =
              \<lparr>ms_Listen = Join (vs_Listening vs) '' '', ms_Protocol = ''HTTP'',
               ms_ServerName = Replace (vs_ServerName vs) ''tls'' [] 1,
               ms_SSLProtocols = [], ms_SSLCertificate = [], ms_SSLCertificateKey = [], ms_EnableSSLStapling = False,
               ms_Locations = [], ms_OptionValue = option_values vs, ms_UpstreamName = [], ms_ProxyStreamTimeout = [],
               ms_ProxyStreamNextUpstream = True, ms_ProxyStreamNextUpstreamTimeout = ''600s'',
               ms_ProxyStreamNextUpstreamTries = 3\<rparr>;
            server = (case ptr_val (vs_SSLCert vs) of
                        None \<Rightarrow> server
                      | Some c \<Rightarrow> server\<lparr>ms_SSLProtocols := vs_SSlProtocols vs,
                                         ms_SSLCertificate := sc_CertificatePem c,
                                         ms_SSLCertificateKey := sc_CertificatePem c,
                                         ms_EnableSSLStapling := oc_EnableSSLStapling ocfg\<rparr>)
        in server\<lparr>ms_Locations := map (location_of ocfg) locs\<rparr>))
     (deref (vs_Locations vs))"

definition l4_server :: "VirtualService \<Rightarrow> model_Server" where
  "l4_server vs =
     \<lparr>ms_Listen = Join (vs_Listening vs) '' '', ms_Protocol = vs_Protocol vs, ms_ServerName = [],
      ms_SSLProtocols = [], ms_SSLCertificate = [], ms_SSLCertificateKey = [], ms_EnableSSLStapling = False,
      ms_Locations = [], ms_OptionValue = option_values vs, ms_UpstreamName = vs_PoolName vs, ms_ProxyStreamTimeout = [],
      ms_ProxyStreamNextUpstream = True, ms_ProxyStreamNextUpstreamTimeout = ''600s'',
      ms_ProxyStreamNextUpstreamTries = 3\<rparr>"

definition mapM :: "('a \<Rightarrow> 'b option) \<Rightarrow> 'a list \<Rightarrow> 'b list option" where
  "mapM f xs = foldM (\<lambda>x acc. map_option (\<lambda>y. acc @ [y]) (f x)) xs []"

definition getNgxServer :: "or_Config \<Rightarrow> Config \<Rightarrow> (model_Server list \<times> model_Server list) option" where
  "getNgxServer ocfg conf =
     (case deref (L7VS conf) of
        None \<Rightarrow> None
      | Some l7 \<Rightarrow>
          (case mapM (l7_server ocfg) l7 of
             None \<Rightarrow> None
           | Some l7srv \<Rightarrow> (case deref (L4VS conf) of None \<Rightarrow> None | Some l4 \<Rightarrow> Some (l7srv, map l4_server l4))))"

text \<open>\<open>PersistConfig\<close>: the two files and the reload, whose result is an argument; \<open>None\<close> is a panic.\<close>

definition PersistConfig ::
  "or_io \<Rightarrow> conf_templates \<Rightarrow> or_Config \<Rightarrow> string option \<Rightarrow> Config \<Rightarrow> filesystem \<Rightarrow> (string option \<times> filesystem) option" where
  "PersistConfig io ct ocfg Reload conf fs =
     map_option (\<lambda>(l7srv, l4srv).
       (let fs = snd (WriteServer io ct ''http'' [] l7srv fs);
            fs = snd (WriteServer io ct ''stream'' [] l4srv fs)
        in (Reload, fs)))
     (getNgxServer ocfg conf)"

definition stream_backend :: "Pool \<Rightarrow> model_Backend option" where
  "stream_backend pool =
     map_option (\<lambda>nodes.
       \<lparr>mb_Name = Name (pl_Meta pool),
        mb_Endpoints = map (\<lambda>node. \<lparr>en_Address = nd_Host node, en_Port = Itoa (nd_Port node), en_Weight = 0\<rparr>) nodes,
        mb_AffinityType = [], mb_CookieName = [], mb_UpstreamHashBy = [], mb_LoadBalancing = []\<rparr>)
     (deref (pl_Nodes pool))"

text \<open>
  \<open>UpdatePools\<close>: its result, what \<open>persistUpstreams\<close> sends to the stream port (an error there is only
  logged) and what \<open>updateBackends\<close> posts to the status port, with the answer \<open>post\<close>.
\<close>

definition UpdatePools ::
  "(model_Backend list \<Rightarrow> string option) \<Rightarrow> Pool ptr list \<Rightarrow> Pool ptr list \<Rightarrow>
   (string option \<times> model_Backend list list \<times> model_Backend list list) option" where
  "UpdatePools post hpools tpools =
     (case (if length tpools > 0
            then (case deref tpools of None \<Rightarrow> None | Some ps \<Rightarrow> map_option (\<lambda>b. [b]) (mapM stream_backend ps))
            else Some []) of
        None \<Rightarrow> None
      | Some sent \<Rightarrow>
          if length hpools = 0 then Some (None, sent, [])
          else (case deref hpools of
                  None \<Rightarrow> None
                | Some ps \<Rightarrow>
                    (case mapM CreateBackendByPool ps of
                       None \<Rightarrow> None
                     | Some backends \<Rightarrow> Some (post backends, sent, [backends]))))"

section \<open>Facts: the next upstream\<close>

definition next_spec :: "string \<Rightarrow> bool \<Rightarrow> string list" where
  "next_spec s r = filter (\<lambda>v. v \<noteq> [] \<and> v \<noteq> nonIdempotent) (Split (CHR '' '') s) @
     (if r \<or> nonIdempotent \<in> set (Split (CHR '' '') s) then [nonIdempotent] else [])"

lemma next_codes_spec:
  "next_codes vs codes r = (codes @ filter (\<lambda>v. v \<noteq> [] \<and> v \<noteq> nonIdempotent) vs, r \<or> nonIdempotent \<in> set vs)"
  by (induction vs codes r rule: next_codes.induct) auto

lemma buildNextUpstream_Some: "buildNextUpstream (IfStr s) (IfBool r) = Some (Join (next_spec s r) '' '')"
  by (simp add: buildNextUpstream_def next_codes_spec next_spec_def)

lemma next_spec_words: "x \<in> set (next_spec s r) \<Longrightarrow> CHR '' '' \<notin> set x \<and> x \<noteq> []"
  using set_Split [of x "CHR '' ''" s] by (auto simp: next_spec_def nonIdempotent_def split: if_splits)

lemma next_spec_idem: "next_spec (Join (next_spec s r) '' '') False = next_spec s r"
proof (cases "next_spec s r = []")
  case False
  have "Split (CHR '' '') (Join (next_spec s r) '' '') = next_spec s r"
    by (rule Split_Join [OF False]) (use next_spec_words in blast)
  then have "next_spec (Join (next_spec s r) '' '') False =
      filter (\<lambda>v. v \<noteq> [] \<and> v \<noteq> nonIdempotent) (next_spec s r) @
        (if nonIdempotent \<in> set (next_spec s r) then [nonIdempotent] else [])"
    by (subst next_spec_def) simp
  then show ?thesis by (auto simp: next_spec_def)
qed (simp add: next_spec_def nonIdempotent_def)

section \<open>Facts: writing a file\<close>

text \<open>File operations that succeed; writes take everything.\<close>

definition io_ok :: "or_io \<Rightarrow> bool" where
  "io_ok io \<longleftrightarrow> (\<forall>f g. io_CheckAndCreateDir io f = None \<and> io_ReadFile io f = None \<and> io_Rename io f g = None \<and>
     io_OpenFile io f = None \<and> io_Remove io f = None) \<and> (\<forall>b. io_Write io b = (length b, None))"

lemma io_okD:
  assumes "io_ok io"
  shows "io_CheckAndCreateDir io f = None" "io_ReadFile io f = None" "io_Rename io f g = None"
    "io_OpenFile io f = None" "io_Remove io f = None" "io_Write io b = (length b, None)"
  using assms by (auto simp: io_ok_def)

lemma map_of_map_str: "map_of fs f = Some c \<Longrightarrow> map_str fs f = c"
  by (simp add: map_str_def)

lemma bak_neq [simp]: "f @ ''.bak'' \<noteq> f" "f \<noteq> f @ ''.bak''"
  by (simp_all add: append_self_conv append_self_conv2)

lemma fs_delete [simp]: "map_of (AList.delete f fs) = (map_of fs)(f := None)"
  by (rule delete_conv')

lemma writeFile_replaces:
  assumes "io_ok io" "map_of fs f = Some old" "io_CheckConfig io ((map_of fs)(f \<mapsto> body, f @ ''.bak'' \<mapsto> old))"
  shows "fst (writeFile io True body f fs) = None"
    and "map_of (snd (writeFile io True body f fs)) = (map_of fs)(f \<mapsto> body, f @ ''.bak'' := None)"
proof -
  have u: "(map_of fs)(f := None, f @ ''.bak'' \<mapsto> old, f \<mapsto> body) = (map_of fs)(f \<mapsto> body, f @ ''.bak'' \<mapsto> old)"
    by (auto simp: fun_eq_iff)
  have v: "fst (writeFile io True body f fs) = None \<and>
      map_of (snd (writeFile io True body f fs)) = (map_of fs)(f \<mapsto> body, f @ ''.bak'' := None)"
    using assms u
    by (simp add: writeFile_def writeBody_def ReadFile_def Rename_def OpenAppend_def WriteOnce_def Let_def
        io_okD [OF assms(1)] map_str_def fun_upd_twist)
  show "fst (writeFile io True body f fs) = None" using v by blast
  show "map_of (snd (writeFile io True body f fs)) = (map_of fs)(f \<mapsto> body, f @ ''.bak'' := None)" using v by blast
qed

lemma writeFile_rolls_back:
  assumes "io_ok io" "map_of fs f = Some old" "\<not> io_CheckConfig io ((map_of fs)(f \<mapsto> body, f @ ''.bak'' \<mapsto> old))"
  shows "fst (writeFile io True body f fs) = Some ErrorCheck"
    and "map_of (snd (writeFile io True body f fs)) = (map_of fs)(f @ ''.bak'' := None)"
proof -
  have u: "(map_of fs)(f := None, f @ ''.bak'' \<mapsto> old, f \<mapsto> body) = (map_of fs)(f \<mapsto> body, f @ ''.bak'' \<mapsto> old)"
    by (auto simp: fun_eq_iff)
  have v: "fst (writeFile io True body f fs) = Some ErrorCheck \<and>
      map_of (snd (writeFile io True body f fs)) = (map_of fs)(f @ ''.bak'' := None)"
    using assms u
    by (simp add: writeFile_def writeBody_def ReadFile_def Rename_def OpenAppend_def WriteOnce_def Let_def
        io_okD [OF assms(1)] map_str_def fun_upd_twist) (auto simp: fun_eq_iff)
  show "fst (writeFile io True body f fs) = Some ErrorCheck" using v by blast
  show "map_of (snd (writeFile io True body f fs)) = (map_of fs)(f @ ''.bak'' := None)" using v by blast
qed

lemma writeFile_fresh:
  assumes "io_ok io" "map_of fs f = None"
  shows "writeFile io True body f fs =
    (if io_CheckConfig io ((map_of fs)(f \<mapsto> body)) then None else Some ErrorCheck, snd (writeFile io True body f fs))"
    and "map_of (snd (writeFile io True body f fs)) = (map_of fs)(f \<mapsto> body)"
  using assms
  by (simp_all add: writeFile_def writeBody_def ReadFile_def OpenAppend_def WriteOnce_def Let_def
      io_okD [OF assms(1)] map_str_def)

text \<open>
  Where the server files are: whatever the directory, \<open>path.Join\<close> ends in the three names, so the
  files of the two types and their backups are different files.
\<close>

definition plain :: "string \<Rightarrow> bool" where
  "plain s \<longleftrightarrow> s \<noteq> [] \<and> s \<noteq> ''.'' \<and> s \<noteq> ''..'' \<and> CHR ''/'' \<notin> set s"

lemma clean_segs_plain: "list_all plain ys \<Longrightarrow> clean_segs r acc ys = rev acc @ ys"
  by (induction ys arbitrary: acc) (auto simp: plain_def)

lemma clean_segs_append:
  "list_all plain ys \<Longrightarrow> \<exists>zs. clean_segs r acc (xs @ ys) = zs @ ys"
  by (induction r acc xs rule: clean_segs.induct) (auto simp: clean_segs_plain)

lemma Split_plain: "list_all plain ys \<Longrightarrow> ys \<noteq> [] \<Longrightarrow> Split (CHR ''/'') (Join ys ''/'') = ys"
  by (rule Split_Join) (auto simp: list_all_iff plain_def)

lemma Join_append2: "xs \<noteq> [] \<Longrightarrow> ys \<noteq> [] \<Longrightarrow> Join (xs @ ys) sep = Join xs sep @ sep @ Join ys sep"
  by (induction xs sep rule: Join.induct) (auto simp: neq_Nil_conv)

lemma Split_sep: "Split c (s @ c # t) = Split c s @ Split c t"
proof (induction s)
  case (Cons x s)
  then show ?case by (cases "Split c s") (auto dest: Split_not_Nil [THEN notE])
qed simp

lemma Join_plain_ne: "list_all plain ys \<Longrightarrow> ys \<noteq> [] \<Longrightarrow> Join ys ''/'' \<noteq> []"
  using Split_plain [of ys] by (cases ys) (auto simp: plain_def)

lemma path_Clean_suffix:
  assumes "list_all plain ys" "ys \<noteq> []" "Split (CHR ''/'') p = xs @ ys"
  shows "\<exists>pre. path_Clean p = pre @ Join ys ''/''"
proof -
  have ne: "p \<noteq> []"
  proof
    assume "p = []"
    with assms(3) have "xs @ ys = [[]]" by simp
    then have "ys = [[]]" using assms(2) by (cases xs) auto
    with assms(1) show False by (simp add: plain_def)
  qed
  define r where "r = (hd p = CHR ''/'')"
  obtain zs where z: "clean_segs r [] (xs @ ys) = zs @ ys" using clean_segs_append [OF assms(1)] by blast
  obtain pre where pre: "Join (zs @ ys) ''/'' = pre @ Join ys ''/''"
  proof (cases "zs = []")
    case False
    then show ?thesis using that [of "Join zs ''/'' @ ''/''"] Join_append2 [of zs ys] assms(2) by simp
  qed (use that [of "[]"] in simp)
  have "path_Clean p = (if r then ''/'' else []) @ pre @ Join ys ''/''"
    using ne assms(3) z pre Join_plain_ne [OF assms(1,2)] unfolding path_Clean_def Let_def by (cases r) (auto simp: r_def)
  then show ?thesis by (metis append_assoc)
qed

lemma path_Join_suffix:
  assumes "list_all plain ys" "ys \<noteq> []"
  shows "\<exists>pre. path_Join (dir # ys) = pre @ Join ys ''/''"
proof -
  have f: "filter (\<lambda>e. e \<noteq> []) ys = ys" using assms(1) by (auto simp: list_all_iff plain_def filter_id_conv)
  show ?thesis
  proof (cases "dir = []")
    case True
    then show ?thesis
      using path_Clean_suffix [OF assms, of "Join ys ''/''" "[]"] Split_plain [OF assms] f assms(2)
      by (simp add: path_Join_def Let_def)
  next
    case False
    then have "Join (dir # ys) ''/'' = dir @ CHR ''/'' # Join ys ''/''"
      using Join_append2 [of "[dir]" ys] assms(2) by simp
    then have "Split (CHR ''/'') (Join (dir # ys) ''/'') = Split (CHR ''/'') dir @ ys"
      by (simp add: Split_sep Split_plain [OF assms])
    then show ?thesis using path_Clean_suffix [OF assms] f False by (simp add: path_Join_def Let_def)
  qed
qed

section \<open>Facts: the router\<close>

definition of_type :: "(string, Condition ptr) gomap \<Rightarrow> (ConditionType \<Rightarrow> bool) \<Rightarrow> (string \<times> Condition) list" where
  "of_type m T = [(n, c). (n, p) \<leftarrow> m, c \<leftarrow> (case ptr_val p of Some c \<Rightarrow> [c] | None \<Rightarrow> []), T (cd_Type c)]"

abbreviation "is_header t \<equiv> t = HeaderType"
abbreviation "is_cookie t \<equiv> t = CookieType"
abbreviation "is_default t \<equiv> t \<noteq> HeaderType \<and> t \<noteq> CookieType"

definition slot :: "(string \<times> Condition \<Rightarrow> string) \<Rightarrow> string \<Rightarrow> (string \<times> Condition) list \<Rightarrow> string" where
  "slot f old ncs = (if ncs = [] then old else f (last ncs))"

lemma of_type_Cons:
  "of_type ((n, Ptr a c) # m) T = (if T (cd_Type c) then [(n, c)] else []) @ of_type m T"
  by (simp add: of_type_def)

lemma types_distinct [simp]: "HeaderType \<noteq> CookieType" "CookieType \<noteq> HeaderType"
  by (simp_all add: HeaderType_def CookieType_def)

lemma router_step_Ptr:
  "router_step rng (n, Ptr a c) (p0, p1, p2) =
     Some (if is_header (cd_Type c) then (p0, p1, header_snippet rng n c)
           else if is_cookie (cd_Type c) then (p0, cookie_snippet rng n c, p2)
           else (default_snippet n, p1, p2))"
  by (simp add: router_step_def)

text \<open>Each slot holds the snippet of the last condition of its type.\<close>

lemma router_slots:
  assumes "NilPtr \<notin> snd ` set m"
  shows "foldM (router_step rng) m (p0, p1, p2) =
    Some (slot (\<lambda>(n, c). default_snippet n) p0 (of_type m is_default),
          slot (\<lambda>(n, c). cookie_snippet rng n c) p1 (of_type m is_cookie),
          slot (\<lambda>(n, c). header_snippet rng n c) p2 (of_type m is_header))"
  using assms
proof (induction m arbitrary: p0 p1 p2)
  case (Cons x m)
  obtain n a c where x: "x = (n, Ptr a c)" using Cons.prems by (cases x; cases "snd x") auto
  have m: "NilPtr \<notin> snd ` set m" using Cons.prems by auto
  consider "is_header (cd_Type c)" | "is_cookie (cd_Type c)" | "is_default (cd_Type c)" by blast
  then show ?case
    by cases (simp_all add: x router_step_Ptr Cons.IH [OF m] of_type_Cons slot_def)
qed (simp add: slot_def of_type_def)

definition one_per_type :: "(string, Condition ptr) gomap \<Rightarrow> bool" where
  "one_per_type m \<longleftrightarrow> length (of_type m is_header) \<le> 1 \<and> length (of_type m is_cookie) \<le> 1 \<and> length (of_type m is_default) \<le> 1"

lemma of_type_concat: "of_type m T = concat (map (\<lambda>x. of_type [x] T) m)"
  by (induction m) (simp_all add: of_type_def)

lemma of_type_perm:
  assumes "mset m = mset m'" shows "mset (of_type m T) = mset (of_type m' T)"
proof -
  have "mset (of_type m T) = \<Sum>\<^sub># (image_mset (\<lambda>x. mset (of_type [x] T)) (mset m))" for m
    by (subst of_type_concat) (induction m; simp)
  with assms show ?thesis by metis
qed

lemma short_perm: "mset xs = mset ys \<Longrightarrow> length xs \<le> 1 \<Longrightarrow> xs = ys"
  by (cases xs) (auto simp: Suc_le_eq)

lemma buildLuaHeaderRouter_order:
  assumes "is_range crng" "one_per_type (ml_NameCondition loc)" "NilPtr \<notin> snd ` set (ml_NameCondition loc)"
  shows "buildLuaHeaderRouter rng crng loc = buildLuaHeaderRouter rng id loc"
proof -
  let ?m = "ml_NameCondition loc"
  have m: "mset ?m = mset (crng ?m)" using assms(1) by (simp add: is_range_def)
  have "of_type (crng ?m) T = of_type ?m T" if "length (of_type ?m T) \<le> 1" for T
    using short_perm [OF of_type_perm [OF m] that] by simp
  moreover have "set (crng ?m) = set ?m" using assms(1) by (rule is_range_set)
  ultimately show ?thesis
    using assms(2,3) by (simp add: buildLuaHeaderRouter_def router_slots one_per_type_def)
qed

section \<open>Facts: servers\<close>

definition wf_model_loc :: "conf_templates \<Rightarrow> model_Location \<Rightarrow> bool" where
  "wf_model_loc ct l \<longleftrightarrow> ml_Path l \<noteq> [] \<and> checkHeaders (ct_vname ct) (ct_vval ct) (px_SetHeaders (ml_Proxy l)) = None \<and>
     px_BufferSize (ml_Proxy l) \<noteq> [] \<and> px_BuffersNumber (ml_Proxy l) \<noteq> 0 \<and> px_ProxyBuffering (ml_Proxy l) \<noteq> []"

definition wf_model_server :: "conf_templates \<Rightarrow> model_Server \<Rightarrow> bool" where
  "wf_model_server ct s \<longleftrightarrow> CHR '' '' \<notin> set (ms_ServerName s) \<and> ms_Protocol s \<noteq> [] \<and> ms_ProxyStreamTimeout s \<noteq> [] \<and>
     list_all (wf_model_loc ct) (ms_Locations s)"

lemma default_nonempty:
  "be_ProxyBuffering NewDefault \<noteq> []" "be_ProxyBufferSize NewDefault \<noteq> []" "be_ProxyBuffersNumber NewDefault \<noteq> 0"
  by (simp_all add: NewDefault_def)

lemma proxy_Validation_defaults:
  assumes "proxy_Validation vname vval p = Inr p'"
  shows "px_SetHeaders p' = px_SetHeaders p" "checkHeaders vname vval (px_SetHeaders p) = None"
    "px_BufferSize p' \<noteq> []" "px_BuffersNumber p' \<noteq> 0" "px_ProxyBuffering p' \<noteq> []"
proof -
  let ?d = NewDefault
  define s1 where "s1 = (if px_ProxyBuffering p = [] then p\<lparr>px_ProxyBuffering := be_ProxyBuffering ?d\<rparr> else p)"
  define s2 where "s2 = (if px_BufferSize s1 = [] then s1\<lparr>px_BufferSize := be_ProxyBufferSize ?d\<rparr> else s1)"
  define s3 where "s3 = (if px_BuffersNumber s2 = 0 then s2\<lparr>px_BuffersNumber := be_ProxyBuffersNumber ?d\<rparr> else s2)"
  define s4 where "s4 = (if px_RequestBuffering s3 = [] then s3\<lparr>px_RequestBuffering := be_ProxyRequestBuffering ?d\<rparr> else s3)"
  define s5 where "s5 = (if px_CookieDomain s4 = [] then s4\<lparr>px_CookieDomain := be_ProxyCookieDomain ?d\<rparr> else s4)"
  define s6 where "s6 = (if px_CookiePath s5 = [] then s5\<lparr>px_CookiePath := be_ProxyCookiePath ?d\<rparr> else s5)"
  show c: "checkHeaders vname vval (px_SetHeaders p) = None"
    using assms by (auto simp: proxy_Validation_def split: option.splits)
  then have p': "p' = s6"
    using assms by (simp only: proxy_Validation_def Let_def s1_def s2_def s3_def s4_def s5_def s6_def option.case sum.inject)
  have 1: "px_SetHeaders s1 = px_SetHeaders p" "px_ProxyBuffering s1 \<noteq> []" using default_nonempty by (simp_all add: s1_def)
  then have 2: "px_SetHeaders s2 = px_SetHeaders p" "px_ProxyBuffering s2 \<noteq> []" "px_BufferSize s2 \<noteq> []"
    using default_nonempty by (simp_all add: s2_def)
  then have 3: "px_SetHeaders s3 = px_SetHeaders p" "px_ProxyBuffering s3 \<noteq> []" "px_BufferSize s3 \<noteq> []" "px_BuffersNumber s3 \<noteq> 0"
    using default_nonempty by (simp_all add: s3_def)
  then have 4: "px_SetHeaders s4 = px_SetHeaders p" "px_ProxyBuffering s4 \<noteq> []" "px_BufferSize s4 \<noteq> []" "px_BuffersNumber s4 \<noteq> 0"
    by (simp_all add: s4_def)
  then have 5: "px_SetHeaders s5 = px_SetHeaders p" "px_ProxyBuffering s5 \<noteq> []" "px_BufferSize s5 \<noteq> []" "px_BuffersNumber s5 \<noteq> 0"
    by (simp_all add: s5_def)
  then show "px_SetHeaders p' = px_SetHeaders p" "px_BufferSize p' \<noteq> []" "px_BuffersNumber p' \<noteq> 0" "px_ProxyBuffering p' \<noteq> []"
    by (simp_all add: p' s6_def)
qed

lemma Location_Validation_wf:
  assumes "Location_Validation (ct_vname ct) (ct_vval ct) l = Inr l'"
  shows "wf_model_loc ct l'"
proof -
  obtain px where "ml_Path l \<noteq> []" "proxy_Validation (ct_vname ct) (ct_vval ct) (ml_Proxy l) = Inr px" "l' = l\<lparr>ml_Proxy := px\<rparr>"
    using assms by (auto simp: Location_Validation_def split: if_splits sum.splits)
  with proxy_Validation_defaults [OF this(2)] show ?thesis by (simp add: wf_model_loc_def)
qed

lemma validate_locations_wf:
  "validate_locations (ct_vname ct) (ct_vval ct) ls = Inr ls' \<Longrightarrow> list_all (wf_model_loc ct) ls'"
  by (induction ls arbitrary: ls') (auto dest: Location_Validation_wf split: sum.splits)

lemma Server_Validation_wf:
  assumes "Server_Validation (ct_vname ct) (ct_vval ct) s = Inr s'"
  shows "wf_model_server ct s'"
  using assms
  by (auto simp: Server_Validation_def wf_model_server_def Let_def
      dest: validate_locations_wf split: if_splits sum.splits)

lemma valid_servers_wf: "s \<in> set (valid_servers ct ss) \<Longrightarrow> wf_model_server ct s"
  by (induction ss) (auto dest: Server_Validation_wf split: sum.splits)

lemma server_context_spec:
  "server_context ss ctx =
     ctx\<lparr>nc_Servers := nc_Servers ctx @ filter (\<lambda>s. ms_Protocol s = ''HTTP'') ss,
         nc_TCPBackends := nc_TCPBackends ctx @ filter (\<lambda>s. ms_Protocol s = ''TCP'') ss,
         nc_UDPBackends := nc_UDPBackends ctx @ filter (\<lambda>s. ms_Protocol s = ''UDP'') ss\<rparr>"
  by (induction ss ctx rule: server_context.induct) simp_all

lemma mapM_Some:
  "(\<And>x. x \<in> set xs \<Longrightarrow> f x = Some (g x)) \<Longrightarrow> mapM f xs = Some (map g xs)"
proof -
  assume "\<And>x. x \<in> set xs \<Longrightarrow> f x = Some (g x)"
  then have "foldM (\<lambda>x acc. map_option (\<lambda>y. acc @ [y]) (f x)) xs acc = Some (acc @ map g xs)" for acc
    by (induction xs arbitrary: acc) auto
  then show ?thesis by (simp add: mapM_def)
qed

lemma deref_Some: "NilPtr \<notin> set ps \<Longrightarrow> deref ps = Some (List.map_filter ptr_val ps)"
  by (induction ps rule: deref.induct) (auto simp: map_filter_simps)

lemma deref_no_nil: "deref ps = Some xs \<Longrightarrow> NilPtr \<notin> set ps"
  by (induction ps arbitrary: xs rule: deref.induct) auto

text \<open>The server name is the host: the prefix that marks TLS servers is taken off again.\<close>

lemma l7_server_name:
  assumes "l7_server ocfg vs = Some srv"
  shows "vs_ServerName vs = ''tls'' @ host \<Longrightarrow> ms_ServerName srv = host"
    and "\<not> sublist ''tls'' (vs_ServerName vs) \<Longrightarrow> ms_ServerName srv = vs_ServerName vs"
  using assms Replace_first_prefix [of "''tls''" host "[]"] Replace_absent [of "''tls''" "vs_ServerName vs" "[]" 1]
  by (auto simp: l7_server_def Let_def split: option.splits)

section \<open>Facts: the server files\<close>

lemma serverConfigFile_suffix:
  assumes "plain ty" "plain tn"
  shows "\<exists>pre. serverConfigFile ct ty tn = pre @ ty @ ''/'' @ tn @ ''/'' @ tn @ ''_servers.conf''"
proof -
  have "list_all plain [ty, tn, tn @ ''_servers.conf'']" using assms by (auto simp: plain_def)
  from path_Join_suffix [OF this, of "ct_configFileDirPath ct"] show ?thesis
    by (simp add: serverConfigFile_def)
qed

lemma server_files_differ:
  assumes "f = serverConfigFile ct ''http'' ''default''" "g = serverConfigFile ct ''stream'' ''default''"
  shows "f \<noteq> g" "f \<noteq> g @ ''.bak''" "g \<noteq> f @ ''.bak''"
proof -
  obtain p where p: "f = p @ ''http'' @ ''/'' @ ''default'' @ ''/'' @ ''default'' @ ''_servers.conf''"
    using serverConfigFile_suffix [of "''http''" "''default''" ct] assms(1) by (auto simp: plain_def)
  obtain q where q: "g = q @ ''stream'' @ ''/'' @ ''default'' @ ''/'' @ ''default'' @ ''_servers.conf''"
    using serverConfigFile_suffix [of "''stream''" "''default''" ct] assms(2) by (auto simp: plain_def)
  have r: "rev f \<noteq> rev g" "rev f \<noteq> rev (g @ ''.bak'')" "rev g \<noteq> rev (f @ ''.bak'')"
    unfolding p q by simp_all
  show "f \<noteq> g" "f \<noteq> g @ ''.bak''" "g \<noteq> f @ ''.bak''" using r by blast+
qed

text \<open>The text that \<open>WriteServer\<close> writes for some servers, and what is in the file after it.\<close>

definition server_body :: "conf_templates \<Rightarrow> string \<Rightarrow> model_Server list \<Rightarrow> string + string" where
  "server_body ct ty servers =
     (let ss = valid_servers ct servers;
          ctx = \<lparr>nc_Servers = filter (\<lambda>s. ms_Protocol s = ''HTTP'') ss, nc_TCPBackends = filter (\<lambda>s. ms_Protocol s = ''TCP'') ss,
                 nc_UDPBackends = filter (\<lambda>s. ms_Protocol s = ''UDP'') ss\<rparr>
      in if ss = [] then Inr [] else if ty = ''stream'' then ct_tcpAndUDPServerTmpl ct ctx else ct_serverTmpl ct ctx)"

lemma writeFile_accepted:
  assumes "io_ok io" "\<And>fs. io_CheckConfig io fs"
  shows "map_of (snd (writeFile io True body f fs)) f = Some body"
    and "g \<noteq> f \<Longrightarrow> g \<noteq> f @ ''.bak'' \<Longrightarrow> map_of (snd (writeFile io True body f fs)) g = map_of fs g"
  using writeFile_fresh(2) [OF assms(1), of fs f body] writeFile_replaces(2) [OF assms(1), of fs f _ body] assms(2)
  by (cases "map_of fs f"; simp)+

lemma WriteServer_writes:
  assumes "server_body ct ty servers = Inr body" "ty \<noteq> []"
  shows "snd (WriteServer io ct ty [] servers fs) = snd (writeFile io True body (serverConfigFile ct ty ''default'') fs)"
  using assms
  by (auto simp: WriteServer_def server_body_def Let_def server_context_spec split: if_splits prod.splits)

end
