(* ===== verification/GwController.thy ===== *)
theory GwController
  imports GwSync Openresty
begin

text \<open>
  \<open>gateway/controller\<close> and \<open>util/ingress-nginx/task\<close>: the controller that turns the contents of the
  store into a running nginx configuration, and the queue that decides when it does so.

  The rate limiter, client-go's work queue and the clock are not modelled: \<open>worker_step\<close> is what the
  worker does with the element it got from the work queue at a given time, and reports what it does
  with that element.
\<close>

section \<open>The task queue\<close>

record Element =
  el_Key :: string
  el_Timestamp :: int
  el_IsSkippable :: bool

record Queue =
  q_added :: "Element list"
  q_shutdown :: bool
  q_lastSync :: int

definition day_ns :: int where "day_ns = 24 * 60 * 60 * 1000000000"

definition enqueue :: "('o \<Rightarrow> string option) \<Rightarrow> int \<Rightarrow> 'o \<Rightarrow> bool \<Rightarrow> Queue \<Rightarrow> Queue" where
  \<comment> \<open>\<open>fn\<close> makes the key of an object (\<open>None\<close> an error), \<open>now\<close> is the time in nanoseconds.\<close>
  "enqueue fn now obj skippable q =
     (if q_shutdown q then q
      else (let ts = (if \<not> skippable then now + day_ns else now) in
            case fn obj of
              None \<Rightarrow> q
            | Some key \<Rightarrow>
                q\<lparr>q_added := q_added q @ [\<lparr>el_Key = key, el_Timestamp = ts, el_IsSkippable = False\<rparr>]\<rparr>))"

definition EnqueueTask :: "('o \<Rightarrow> string option) \<Rightarrow> int \<Rightarrow> 'o \<Rightarrow> Queue \<Rightarrow> Queue" where
  "EnqueueTask fn now obj q = enqueue fn now obj False q"

definition EnqueueSkippableTask :: "('o \<Rightarrow> string option) \<Rightarrow> int \<Rightarrow> 'o \<Rightarrow> Queue \<Rightarrow> Queue" where
  "EnqueueSkippableTask fn now obj q = enqueue fn now obj True q"

text \<open>One turn of \<open>handleEvent\<close>: an event of the store, with the time at which it is read.\<close>

definition handleEvent :: "(k8s_obj \<Rightarrow> string option) \<Rightarrow> bool \<Rightarrow> int \<Rightarrow> Event \<Rightarrow> Queue \<Rightarrow> Queue" where
  "handleEvent fn isShuttingDown now event q =
     (if isShuttingDown then q else EnqueueSkippableTask fn now (ev_obj event) q)"

datatype outcome = Skipped | Synced | Requeued Element

text \<open>One turn of \<open>worker\<close> on an element: \<open>ts\<close> is the time before the sync, \<open>now\<close> after it, \<open>ok\<close> its result.\<close>

definition worker_step :: "int \<Rightarrow> int \<Rightarrow> bool \<Rightarrow> Element \<Rightarrow> Queue \<Rightarrow> outcome \<times> Queue" where
  "worker_step ts now ok item q =
     (if q_lastSync q > el_Timestamp item then (Skipped, q)
      else if ok then (Synced, q\<lparr>q_lastSync := ts\<rparr>)
      else (Requeued \<lparr>el_Key = el_Key item, el_Timestamp = now, el_IsSkippable = False\<rparr>, q))"

text \<open>
  Runs of the worker: the log has the start times of the syncs that succeeded and the time stamps of
  the elements that were skipped.
\<close>

inductive worker_run :: "Queue \<Rightarrow> int list \<Rightarrow> Element list \<Rightarrow> Queue \<Rightarrow> bool" for q0 where
  Init: "worker_run q0 [] [] q0"
| Skip: "worker_run q0 syncs skipped q \<Longrightarrow> worker_step ts now ok item q = (Skipped, q') \<Longrightarrow>
    worker_run q0 syncs (skipped @ [item]) q'"
| Sync: "worker_run q0 syncs skipped q \<Longrightarrow> worker_step ts now ok item q = (Synced, q') \<Longrightarrow>
    worker_run q0 (syncs @ [ts]) skipped q'"
| Requeue: "worker_run q0 syncs skipped q \<Longrightarrow> worker_step ts now ok item q = (Requeued e, q') \<Longrightarrow>
    worker_run q0 syncs skipped q'"
| Add: "worker_run q0 syncs skipped q \<Longrightarrow> worker_run q0 syncs skipped (enqueue (fn :: k8s_obj \<Rightarrow> string option) now obj sk q)"

lemma worker_run_lastSync:
  assumes "worker_run q0 syncs skipped q"
  shows "q_lastSync q = (if syncs = [] then q_lastSync q0 else last syncs)"
  using assms
  by induction (auto simp: worker_step_def enqueue_def Let_def split: if_splits option.splits)

text \<open>An element is skipped only when a sync that started after its time stamp has succeeded.\<close>

lemma worker_run_skipped:
  assumes "worker_run q0 syncs skipped q" "item \<in> set skipped" "q_lastSync q0 \<le> el_Timestamp item"
  shows "\<exists>ts \<in> set syncs. el_Timestamp item < ts"
  using assms
proof induction
  case (Skip syncs skipped q ts now ok item' q')
  have l: "q_lastSync q = (if syncs = [] then q_lastSync q0 else last syncs)" by (rule worker_run_lastSync [OF Skip.hyps(1)])
  have "q_lastSync q > el_Timestamp item'" using Skip.hyps(2) by (auto simp: worker_step_def split: if_splits)
  with Skip l show ?case by (auto split: if_splits dest: last_in_set)
qed auto

section \<open>The controller\<close>

record gw_controller =
  gc_rcfg :: "Config ptr"
  gc_rrhp :: "Pool ptr list"
  gc_rrtp :: "Pool ptr list"
  gc_globals :: pool_globals
  gc_fs :: filesystem
  gc_sent :: "model_Backend list list"
  gc_posted :: "model_Backend list list"
  gc_hosts :: "string list"
  gc_removed :: "string list"
  gc_serverNum :: "nat \<times> nat"
  gc_shutdown :: bool
  gc_next :: nat

text \<open>What the service talks to: the file system and nginx, the templates, the status port.\<close>

record gw_service =
  gs_io :: or_io
  gs_templates :: conf_templates
  gs_config :: or_Config
  gs_post :: "model_Backend list \<Rightarrow> string option"
  gs_Reload :: "string option"

text \<open>A set of strings (\<open>sets.String\<close>) is a list without duplicates; \<open>List\<close> of it is sorted.\<close>

definition set_insert :: "string \<Rightarrow> string list \<Rightarrow> string list" where
  "set_insert x xs = (if x \<in> set xs then xs else xs @ [x])"

definition server_names :: "VirtualService list \<Rightarrow> string list" where
  "server_names vss = fold (\<lambda>s. set_insert (vs_ServerName s)) vss []"

fun str_less :: "string \<Rightarrow> string \<Rightarrow> bool" where
  "str_less [] [] = False"
| "str_less [] (c # cs) = True"
| "str_less (c # cs) [] = False"
| "str_less (c # cs) (d # ds) =
     (if (of_char c :: nat) < of_char d then True else if c = d then str_less cs ds else False)"

fun insert_sorted :: "string \<Rightarrow> string list \<Rightarrow> string list" where
  "insert_sorted x [] = [x]"
| "insert_sorted x (y # ys) =
     (if str_less y x then y # insert_sorted x ys else x # y # ys)"

definition sets_List :: "string list \<Rightarrow> string list" where
  "sets_List xs = fold insert_sorted xs []"

text \<open>\<open>getHosts\<close>; \<open>None\<close> is a nil virtual service.\<close>

definition getHosts :: "Config ptr \<Rightarrow> Config ptr \<Rightarrow> (string list \<times> string list) option" where
  "getHosts rucfg newcfg =
     (case (case ptr_val rucfg of None \<Rightarrow> Some [] | Some c \<Rightarrow> deref (L7VS c)) of
        None \<Rightarrow> None
      | Some old \<Rightarrow>
          (case (case ptr_val newcfg of None \<Rightarrow> Some [] | Some c \<Rightarrow> deref (L7VS c)) of
             None \<Rightarrow> None
           | Some new \<Rightarrow>
               Some (sets_List (filter (\<lambda>n. n \<notin> set (server_names new)) (server_names old)), server_names new)))"

definition syncGateway ::
  "gw_service \<Rightarrow> ((string, Pool) gomap \<Rightarrow> (string, Pool) gomap) \<Rightarrow> gw_env \<Rightarrow> gw_controller \<Rightarrow> gw_controller option" where
  "syncGateway gs rng env gwc =
     (if gc_shutdown gwc then Some gwc
      else
        (case ListVirtualService env (gc_globals gwc) (gc_next gwc) of
           None \<Rightarrow> None
         | Some st \<Rightarrow>
             (let (httpPools, tcpPools, a) = ListPool rng env (globals st) (fresh st);
                  currentConfig = Ptr a \<lparr>HTTPPools = httpPools, TCPPools = tcpPools, L7VS = l7vs st, L4VS = l4vs st\<rparr>;
                  gwc = gwc\<lparr>gc_globals := globals st, gc_next := a + 1\<rparr>
              in case UpdatePools (gs_post gs) (httpPools @ gc_rrhp gwc) (tcpPools @ gc_rrtp gwc) of
                   None \<Rightarrow> None
                 | Some (_, sent, posted) \<Rightarrow>
                     (let gwc = gwc\<lparr>gc_sent := gc_sent gwc @ sent, gc_posted := gc_posted gwc @ posted\<rparr> in
                      if Config_Equals (gc_rcfg gwc) currentConfig then Some gwc
                      else
                        (case PersistConfig (gs_io gs) (gs_templates gs) (gs_config gs) (gs_Reload gs)
                                (\<lparr>HTTPPools = httpPools, TCPPools = tcpPools, L7VS = l7vs st, L4VS = l4vs st\<rparr>) (gc_fs gwc) of
                           None \<Rightarrow> None
                         | Some (Some err, fs) \<Rightarrow> Some (gwc\<lparr>gc_fs := fs\<rparr>)
                         | Some (None, fs) \<Rightarrow>
                             (case getHosts (gc_rcfg gwc) currentConfig of
                                None \<Rightarrow> None
                              | Some (remove, hosts) \<Rightarrow>
                                  Some (gwc\<lparr>gc_fs := fs, gc_hosts := hosts, gc_removed := remove,
                                           gc_serverNum := (length httpPools + length (gc_rrhp gwc), length tcpPools + length (gc_rrtp gwc)),
                                           gc_rcfg := currentConfig\<rparr>)))))))"

section \<open>Hosts\<close>

lemma set_server_names: "set (server_names vss) = vs_ServerName ` set vss \<and> distinct (server_names vss)"
proof -
  have "set (fold (\<lambda>s. set_insert (vs_ServerName s)) vss acc) = vs_ServerName ` set vss \<union> set acc \<and>
      (distinct acc \<longrightarrow> distinct (fold (\<lambda>s. set_insert (vs_ServerName s)) vss acc))" for acc
    by (induction vss arbitrary: acc) (auto simp: set_insert_def)
  from this [of "[]"] show ?thesis by (simp add: server_names_def)
qed

lemma set_sets_List [simp]: "set (sets_List xs) = set xs"
proof -
  have i: "set (insert_sorted x ys) = insert x (set ys)" for x ys by (induction ys) auto
  have "set (fold insert_sorted xs acc) = set xs \<union> set acc" for acc by (induction xs arbitrary: acc) (auto simp: i)
  then show ?thesis by (simp add: sets_List_def)
qed

section \<open>A sync\<close>

lemma l7_server_total: "NilPtr \<notin> set (vs_Locations v) \<Longrightarrow> l7_server ocfg v \<noteq> None"
  by (simp add: l7_server_def deref_Some)

lemma map_filter_ptr_val: "x \<in> set (List.map_filter ptr_val ps) \<longleftrightarrow> (\<exists>a. Ptr a x \<in> set ps)"
proof -
  have "ptr_val p = Some x \<longleftrightarrow> (\<exists>a. p = Ptr a x)" for p by (cases p) auto
  then show ?thesis by (auto simp: List.map_filter_def image_iff) force
qed

lemma mapM_total: "(\<And>x. x \<in> set xs \<Longrightarrow> f x \<noteq> None) \<Longrightarrow> mapM f xs \<noteq> None"
  using mapM_Some [of xs f "\<lambda>x. the (f x)"] by simp

text \<open>A configuration without nil pointers, which is what the store builds.\<close>

definition no_nil :: "Config \<Rightarrow> bool" where
  "no_nil c \<longleftrightarrow> NilPtr \<notin> set (L7VS c) \<and> NilPtr \<notin> set (L4VS c) \<and>
     (\<forall>a v. Ptr a v \<in> set (L7VS c) \<longrightarrow> NilPtr \<notin> set (vs_Locations v))"

lemma getNgxServer_total:
  assumes "no_nil conf"
  shows "\<exists>r. getNgxServer ocfg conf = Some r"
proof -
  have "mapM (l7_server ocfg) (List.map_filter ptr_val (L7VS conf)) \<noteq> None"
    by (rule mapM_total) (use assms in \<open>auto simp: map_filter_ptr_val no_nil_def dest!: l7_server_total [of _ ocfg]\<close>)
  then show ?thesis using assms by (auto simp: getNgxServer_def deref_Some no_nil_def)
qed

definition pools_no_nil :: "Pool ptr list \<Rightarrow> bool" where
  "pools_no_nil ps \<longleftrightarrow> NilPtr \<notin> set ps \<and> (\<forall>a p. Ptr a p \<in> set ps \<longrightarrow> NilPtr \<notin> set (pl_Nodes p))"

lemma UpdatePools_total:
  assumes "pools_no_nil hp" "pools_no_nil tp"
  shows "\<exists>r. UpdatePools post hp tp = Some r"
proof -
  have "mapM CreateBackendByPool (List.map_filter ptr_val hp) \<noteq> None"
    by (rule mapM_total)
      (use assms(1) in \<open>auto simp: map_filter_ptr_val pools_no_nil_def CreateBackendByPool_def deref_Some\<close>)
  moreover have "mapM stream_backend (List.map_filter ptr_val tp) \<noteq> None"
    by (rule mapM_total)
      (use assms(2) in \<open>auto simp: map_filter_ptr_val pools_no_nil_def stream_backend_def deref_Some\<close>)
  ultimately show ?thesis using assms by (auto simp: UpdatePools_def deref_Some pools_no_nil_def)
qed

lemma lvs_no_nil:
  assumes "lvs_inv any_loc env st"
  shows "no_nil \<lparr>HTTPPools = hp, TCPPools = tp, L7VS = l7vs st, L4VS = l4vs st\<rparr>"
proof -
  have "NilPtr \<notin> set (vs_Locations v)" if "Ptr a v \<in> set (l7vs st)" for a v
    using that assms unfolding lvs_inv_def loc_inv_def locs_ok_def by (metis ptr.distinct(1))
  moreover have "NilPtr \<notin> set (l7vs st)" using assms unfolding lvs_inv_def vs_inv_def by blast
  moreover have "NilPtr \<notin> set (l4vs st)" using assms unfolding lvs_inv_def l4_inv_def by (metis ptr.distinct(1))
  ultimately show ?thesis by (simp add: no_nil_def)
qed

lemma pools_spec_no_nil:
  "NilPtr \<notin> set hp \<and> pools_spec pm bm eps (List.map_filter ptr_val hp) \<Longrightarrow> pools_no_nil hp"
  by (auto simp: pools_no_nil_def pools_spec_def map_filter_ptr_val)

lemma pools_no_nil_append: "pools_no_nil (ps @ qs) \<longleftrightarrow> pools_no_nil ps \<and> pools_no_nil qs"
  by (auto simp: pools_no_nil_def)

definition wf_controller :: "gw_controller \<Rightarrow> bool" where
  "wf_controller gwc \<longleftrightarrow> pools_no_nil (gc_rrhp gwc) \<and> pools_no_nil (gc_rrtp gwc) \<and>
     (\<forall>c. ptr_val (gc_rcfg gwc) = Some c \<longrightarrow> no_nil c)"

text \<open>A sync whose listing returns does not panic, and keeps the controller well formed.\<close>

lemma syncGateway_listed:
  assumes "wf_controller gwc" "is_range rng" "wf_ssl env"
    and st: "ListVirtualService env (gc_globals gwc) (gc_next gwc) = Some st"
  shows "\<exists>gwc'. syncGateway gs rng env gwc = Some gwc' \<and> wf_controller gwc'"
proof (cases "gc_shutdown gwc")
  case False
  obtain hp tp a where lp: "ListPool rng env (globals st) (fresh st) = (hp, tp, a)" by (cases "ListPool rng env (globals st) (fresh st)")
  have n: "no_nil \<lparr>HTTPPools = hp, TCPPools = tp, L7VS = l7vs st, L4VS = l4vs st\<rparr>"
    by (rule lvs_no_nil [OF ListVirtualService_inv [OF assms(3) st]])
  have "pools_no_nil (hp @ gc_rrhp gwc)" "pools_no_nil (tp @ gc_rrtp gwc)"
    using ListPool_spec [OF assms(2) lp, THEN pools_spec_no_nil] assms(1) by (simp_all add: pools_no_nil_append wf_controller_def)
  then obtain e s p where u: "UpdatePools (gs_post gs) (hp @ gc_rrhp gwc) (tp @ gc_rrtp gwc) = Some (e, s, p)"
    using UpdatePools_total by (metis prod_cases3)
  obtain l7 l4 where ng: "getNgxServer (gs_config gs) \<lparr>HTTPPools = hp, TCPPools = tp, L7VS = l7vs st, L4VS = l4vs st\<rparr> = Some (l7, l4)"
    using getNgxServer_total [OF n, of "gs_config gs"] by auto
  have d: "deref (l7vs st) = Some (List.map_filter ptr_val (l7vs st))" using n by (simp add: no_nil_def deref_Some)
  have o: "\<exists>old. (case ptr_val (gc_rcfg gwc) of None \<Rightarrow> Some [] | Some c \<Rightarrow> deref (L7VS c)) = Some old"
    using assms(1) by (cases "ptr_val (gc_rcfg gwc)") (auto simp: wf_controller_def no_nil_def deref_Some)
  show ?thesis
    using False st lp u ng d o n assms(1)
    by (cases "gs_Reload gs") (auto simp: syncGateway_def Let_def PersistConfig_def getHosts_def wf_controller_def)
qed (use assms in \<open>simp add: syncGateway_def\<close>)

lemma syncGateway_total:
  assumes "wf_controller gwc" "is_range rng" "wf_ssl env" "list_all (ing_ok env) (env_Ingresses env)"
  shows "\<exists>gwc'. syncGateway gs rng env gwc = Some gwc' \<and> wf_controller gwc'"
  using syncGateway_listed [OF assms(1-3)] ListVirtualService_total [OF assms(4)] by blast

lemma syncGateway_None:
  assumes "wf_controller gwc" "is_range rng" "wf_ssl env"
  shows "syncGateway gs rng env gwc = None \<longleftrightarrow> \<not> gc_shutdown gwc \<and> (\<exists>ing \<in> set (env_Ingresses env). ing_panics env ing)"
proof (cases "ListVirtualService env (gc_globals gwc) (gc_next gwc)")
  case None
  then have "\<exists>ing \<in> set (env_Ingresses env). ing_panics env ing" using ListVirtualService_None by blast
  with None show ?thesis by (simp add: syncGateway_def)
next
  case (Some st)
  then have "\<not> (\<exists>ing \<in> set (env_Ingresses env). ing_panics env ing)"
    using ListVirtualService_None [of env "gc_globals gwc" "gc_next gwc"] by simp
  then show ?thesis using syncGateway_listed [OF assms Some, of gs] by auto
qed

end
