(* ===== verification/GwServed.thy ===== *)
theory GwServed
  imports GwStoreInv
begin

text \<open>
  Completeness of the listing: whatever path of a valid ingress has been entered stays there until
  \<open>ListVirtualService\<close> returns. Listings grow: \<open>lvs_le\<close> is the order in which every step of the loops
  goes up, and the locale \<open>growing\<close> what follows for loops of such steps.
\<close>

section \<open>Loops of steps that go up in an order\<close>

locale growing =
  fixes le :: "'s \<Rightarrow> 's \<Rightarrow> bool"
  assumes le_refl: "le s s"
    and le_trans: "le s t \<Longrightarrow> le t u \<Longrightarrow> le s u"
begin

lemma fold_le: "(\<And>x s. x \<in> set xs \<Longrightarrow> le s (f x s)) \<Longrightarrow> le s (fold f xs s)"
  by (induction xs arbitrary: s) (auto intro: le_refl le_trans)

lemma foldM_le:
  assumes "foldM f xs s = Some t" "\<And>x s s'. f x s = Some s' \<Longrightarrow> le s s'"
  shows "le s t"
  using assms(1)
proof (induction xs arbitrary: s)
  case (Cons x xs)
  then obtain s' where "f x s = Some s'" "foldM f xs s' = Some t" by (auto split: option.splits)
  then show ?case using Cons.IH assms(2) le_trans by blast
qed (simp add: le_refl)

text \<open>What one step of a loop establishes, and the order keeps, holds at the end.\<close>

lemma foldM_reaches:
  assumes "foldM f xs s = Some t" "x \<in> set xs" "I s"
    and "\<And>x s s'. x \<in> set xs \<Longrightarrow> I s \<Longrightarrow> f x s = Some s' \<Longrightarrow> I s'"
    and "\<And>x s s'. f x s = Some s' \<Longrightarrow> le s s'"
    and "\<And>s s'. I s \<Longrightarrow> f x s = Some s' \<Longrightarrow> P s'"
    and "\<And>s s'. P s \<Longrightarrow> le s s' \<Longrightarrow> P s'"
  shows "P t"
proof -
  obtain ys zs where xs: "xs = ys @ x # zs" using assms(2) by (meson split_list)
  then obtain s1 s2 where s: "foldM f ys s = Some s1" "f x s1 = Some s2" "foldM f zs s2 = Some t"
    using assms(1) by (auto simp: foldM_append split: option.splits)
  have "I s1" by (rule foldM_invariant [where I = I, OF s(1)]) (use assms(3,4) xs in auto)
  then have "P s2" using assms(6) s(2) by blast
  then show ?thesis using assms(7) foldM_le [OF s(3)] assms(5) by blast
qed

end

section \<open>The order on listings\<close>

definition loc_le :: "Location \<Rightarrow> Location \<Rightarrow> bool" where
  "loc_le l l' \<longleftrightarrow> lo_Path l' = lo_Path l \<and> lo_DisableProxyPass l' = lo_DisableProxyPass l \<and>
     fst ` set (lo_NameCondition l) \<subseteq> fst ` set (lo_NameCondition l')"

definition vs_le :: "VirtualService \<Rightarrow> VirtualService \<Rightarrow> bool" where
  "vs_le v v' \<longleftrightarrow> head v' = head v \<and>
     (\<forall>b l. Ptr b l \<in> set (vs_Locations v) \<longrightarrow> (\<exists>l'. Ptr b l' \<in> set (vs_Locations v') \<and> loc_le l l'))"

definition l4_le :: "lvs \<Rightarrow> lvs \<Rightarrow> bool" where
  "l4_le st st' \<longleftrightarrow> set (l4vs st) \<subseteq> set (l4vs st') \<and> set (l4PoolMap (globals st)) \<subseteq> set (l4PoolMap (globals st')) \<and>
     (\<forall>svc. set (map_slice (l4PoolBackendMap (globals st)) svc) \<subseteq> set (map_slice (l4PoolBackendMap (globals st')) svc))"

definition lvs_le :: "lvs \<Rightarrow> lvs \<Rightarrow> bool" where
  "lvs_le st st' \<longleftrightarrow> (\<forall>a v. Ptr a v \<in> set (l7vs st) \<longrightarrow> (\<exists>v'. Ptr a v' \<in> set (l7vs st') \<and> vs_le v v')) \<and>
     pool_le (globals st) (globals st') \<and> l4_le st st'"

lemma loc_le_refl [simp]: "loc_le l l"
  by (simp add: loc_le_def)

lemma vs_le_refl [simp]: "vs_le v v"
  unfolding vs_le_def using loc_le_refl by blast

lemma loc_le_trans: "loc_le l m \<Longrightarrow> loc_le m k \<Longrightarrow> loc_le l k"
  by (auto simp: loc_le_def)

lemma vs_le_trans: "vs_le v w \<Longrightarrow> vs_le w u \<Longrightarrow> vs_le v u"
  unfolding vs_le_def by (metis loc_le_trans)

lemma pool_le_refl [simp]: "pool_le g g"
  by (simp add: pool_le_def)

interpretation lvs_grow: growing lvs_le
proof
  show "lvs_le s s" for s unfolding lvs_le_def l4_le_def using vs_le_refl by auto
  show "lvs_le s u" if "lvs_le s t" "lvs_le t u" for s t u
  proof -
    have "\<exists>v'. Ptr a v' \<in> set (l7vs u) \<and> vs_le v v'" if v: "Ptr a v \<in> set (l7vs s)" for a v
      using v \<open>lvs_le s t\<close> \<open>lvs_le t u\<close> unfolding lvs_le_def by (metis vs_le_trans)
    moreover have "pool_le (globals s) (globals u)" using that by (force simp: lvs_le_def pool_le_def)
    moreover have "l4_le s u" using that unfolding lvs_le_def l4_le_def by (meson order_trans)
    ultimately show ?thesis by (simp add: lvs_le_def)
  qed
qed

lemma lvs_le_update:
  assumes "l7vs st' = map h (l7vs st)" "pool_le (globals st) (globals st')" "l4_le st st'"
    and "\<And>a v. \<exists>v'. h (Ptr a v) = Ptr a v' \<and> vs_le v v'"
  shows "lvs_le st st'"
  unfolding lvs_le_def assms(1)
proof (intro conjI allI impI)
  fix a v assume v: "Ptr a v \<in> set (l7vs st)"
  obtain v' where "h (Ptr a v) = Ptr a v'" "vs_le v v'" using assms(4) by blast
  with v show "\<exists>v'. Ptr a v' \<in> set (map h (l7vs st)) \<and> vs_le v v'" by force
qed (use assms in simp_all)

lemma l4_le_part: "l4_part st' = l4_part st \<Longrightarrow> l4_le st st'"
  by (simp add: l4_part_def l4_le_def)

lemma vs_le_append: "vs_le v (v\<lparr>vs_Locations := vs_Locations v @ ls\<rparr>)"
  unfolding vs_le_def head_def using loc_le_refl by force

lemma upd_loc_le:
  assumes "\<And>l. loc_le l (g l)"
  shows "\<exists>v'. upd_loc a g (Ptr b v) = Ptr b v' \<and> vs_le v v'"
proof -
  have "\<exists>l'. Ptr c l' \<in> set (map (upd_loc_ptr a g) (vs_Locations v)) \<and> loc_le l l'" if "Ptr c l \<in> set (vs_Locations v)" for c l
    using that assms by (intro exI [of _ "if c = a then g l else l"]) force
  then show ?thesis by (simp add: vs_le_def head_def)
qed

section \<open>Every step goes up\<close>

lemma get_vs_le:
  assumes "get_vs n new st = (a, st')"
  shows "lvs_le st st'"
proof -
  have l: "set (l7vs st) \<subseteq> set (l7vs st')" "globals st' = globals st"
    using assms by (auto simp: get_vs_def split: option.splits)
  have "l4_part st' = l4_part st" using assms by simp
  then show ?thesis
    unfolding lvs_le_def l(2) using l(1) vs_le_refl l4_le_part by auto
qed

lemma get_loc_le:
  assumes "get_loc anns k va path st = (loc, st')"
  shows "lvs_le st st'"
proof (cases "map_of (srvLocMap st) k")
  case None
  define f where "f v = v\<lparr>vs_Locations := vs_Locations v @ [Ptr (fresh st) \<lparr>lo_Path = path, lo_NameCondition = [],
      lo_Rewrite = zero_rewrite, lo_Proxy = an_Proxy anns, lo_DisableProxyPass = False\<rparr>]\<rparr>" for v :: VirtualService
  have s: "l7vs st' = map (upd_vs va f) (l7vs st)" "globals st' = globals st" "l4vs st' = l4vs st"
    using assms None by (auto simp: get_loc_def f_def [abs_def] Let_def)
  have "vs_le v (f v)" for v by (simp add: f_def vs_le_append)
  then show ?thesis using s by (intro lvs_le_update [OF s(1)]) (simp_all add: l4_le_def)
qed (use assms lvs_grow.le_refl in \<open>auto simp: get_loc_def\<close>)

lemma add_condition_le: "lvs_le st (add_condition bn anns svc loc st)"
proof -
  define g where "g l = l\<lparr>lo_NameCondition := map_set bn (Ptr (fresh st) (condition_of anns)) (lo_NameCondition l)\<rparr>"
    for l :: Location
  have "loc_le l (g l)" for l
    using keys_map_set [of bn "Ptr (fresh st) (condition_of anns)" "lo_NameCondition l"] by (auto simp: loc_le_def g_def)
  then show ?thesis
    by (intro lvs_le_update [of _ "upd_loc loc g"] upd_loc_le)
      (auto simp: add_condition_def g_def [abs_def] Let_def pool_le_def l4_le_def)
qed

lemma path_step_le: "lvs_le st (path_step ing anns n va path st)"
proof -
  define st1 where "st1 = st\<lparr>globals := (globals st)\<lparr>l7PoolMap :=
      add_set (ib_ServiceName (hp_Backend path)) (l7PoolMap (globals st))\<rparr>\<rparr>"
  obtain loc st2 where g: "get_loc anns (n @ ''_'' @ hp_Path path) va (hp_Path path) st1 = (loc, st2)" by fastforce
  have "lvs_le st st1" by (rule lvs_le_update [of _ "\<lambda>p. p"]) (auto simp: st1_def pool_le_def l4_le_def)
  then have "lvs_le st st2" using get_loc_le [OF g] lvs_grow.le_trans by blast
  then show ?thesis
    using g add_condition_le lvs_grow.le_trans by (auto simp: path_step_def st1_def Let_def)
qed

lemma rule_step_le: "rule_step env ing anns m rule st = Some st' \<Longrightarrow> lvs_le st st'"
  unfolding rule_step_def Let_def
  by (auto split: prod.splits option.splits intro: lvs_grow.le_trans [OF get_vs_le] lvs_grow.fold_le path_step_le)

lemma l4_step_le: "l4_step env ing anns st = Some st' \<Longrightarrow> lvs_le st st'"
  by (erule l4_step_cases)
    (auto simp: lvs_grow.le_refl pool_le_def l4_le_def intro!: lvs_le_update [of _ "\<lambda>p. p"])

lemma ingress_step_le: "ingress_step env ing st = Some st' \<Longrightarrow> lvs_le st st'"
  by (erule ingress_step_cases) (auto simp: lvs_grow.le_refl intro: l4_step_le lvs_grow.foldM_le rule_step_le)

lemma redirect_path_step_le: "lvs_le st (redirect_path_step anns n va path st)"
proof (cases "map_of (srvLocMap st) (n @ ''_'' @ hp_Path path)")
  case None
  define f where "f v = v\<lparr>vs_Locations := vs_Locations v @ [Ptr (fresh st) \<lparr>lo_Path = hp_Path path, lo_NameCondition = [],
      lo_Rewrite = redirect_rewrite, lo_Proxy = an_Proxy anns, lo_DisableProxyPass = True\<rparr>]\<rparr>" for v :: VirtualService
  have s: "redirect_path_step anns n va path st = st\<lparr>l7vs := map (upd_vs va f) (l7vs st), fresh := fresh st + 1\<rparr>"
    using None by (simp add: redirect_path_step_def f_def [abs_def] Let_def)
  have "vs_le v (f v)" for v by (simp add: f_def vs_le_append)
  then show ?thesis unfolding s by (intro lvs_le_update [of _ "upd_vs va f"]) (simp_all add: l4_le_def)
qed (simp add: redirect_path_step_def Let_def lvs_grow.le_refl)

lemma redirect_rule_step_le: "redirect_rule_step env anns rule st = Some st' \<Longrightarrow> lvs_le st st'"
  unfolding redirect_rule_step_def Let_def
  by (auto split: prod.splits option.splits intro: lvs_grow.le_trans [OF get_vs_le] lvs_grow.fold_le redirect_path_step_le)

lemma redirect_step_le: "redirect_step env ing st = Some st' \<Longrightarrow> lvs_le st st'"
  unfolding redirect_step_def Let_def
  by (auto simp: lvs_grow.le_refl split: option.splits bool.splits if_splits
      intro: lvs_grow.foldM_le redirect_rule_step_le)

section \<open>Where a path is entered\<close>

text \<open>
  The keys of \<open>srvLocMap\<close> join the name of the server and the path by an underscore. They determine
  both for host names without a slash and absolute paths, as the API server admits them.
\<close>

definition key_ok :: "string \<Rightarrow> string \<Rightarrow> bool" where
  "key_ok n p \<longleftrightarrow> CHR ''/'' \<notin> set n \<and> prefix ''/'' p"

lemma key_ok_inject:
  assumes "key_ok n p" "key_ok m q" "n @ ''_'' @ p = m @ ''_'' @ q"
  shows "n = m \<and> p = q"
proof -
  have t: "takeWhile (\<lambda>c. c \<noteq> CHR ''/'') (n @ ''_'' @ p) = n @ ''_''" if k: "key_ok n p" for n p
  proof -
    obtain r where "p = CHR ''/'' # r" using k by (auto simp: key_ok_def prefix_def)
    then show ?thesis using k by (auto simp: key_ok_def takeWhile_append)
  qed
  have "n @ ''_'' = m @ ''_''" using t [OF assms(1)] t [OF assms(2)] assms(3) by simp
  then have "n = m" by simp
  with assms(3) show ?thesis by simp
qed

definition loc_at :: "lvs \<Rightarrow> string \<Rightarrow> string \<Rightarrow> nat \<Rightarrow> bool" where
  "loc_at st n path b \<longleftrightarrow> (\<exists>a v l. Ptr a v \<in> set (l7vs st) \<and> vs_ServerName v = n \<and> Ptr b l \<in> set (vs_Locations v) \<and>
     lo_Path l = path \<and> \<not> lo_DisableProxyPass l)"

definition srv_inv :: "lvs \<Rightarrow> bool" where
  "srv_inv st \<longleftrightarrow> (\<forall>k b. map_of (srvLocMap st) k = Some b \<longrightarrow>
     (\<exists>n p. k = n @ ''_'' @ p \<and> key_ok n p \<and> loc_at st n p b))"

text \<open>A path of a server is served: its location passes requests to an upstream that is handed to the
  pools as a backend of the service, with its weight.\<close>

definition served :: "lvs \<Rightarrow> string \<Rightarrow> string \<Rightarrow> string \<Rightarrow> string \<Rightarrow> int \<Rightarrow> bool" where
  "served st n path bn svc w \<longleftrightarrow> (\<exists>a v b l. Ptr a v \<in> set (l7vs st) \<and> vs_ServerName v = n \<and> Ptr b l \<in> set (vs_Locations v) \<and>
     lo_Path l = path \<and> \<not> lo_DisableProxyPass l \<and> bn \<in> fst ` set (lo_NameCondition l)) \<and>
     svc \<in> set (l7PoolMap (globals st)) \<and>
     (\<exists>bk \<in> set (map_slice (l7PoolBackendMap (globals st)) svc). bk_name bk = bn \<and> bk_weight bk = w)"

lemma vs_le_name: "vs_le v v' \<Longrightarrow> vs_ServerName v' = vs_ServerName v"
proof -
  assume "vs_le v v'"
  then have "vs_ServerName (head v') = vs_ServerName (head v)" by (simp add: vs_le_def)
  then show ?thesis by (simp add: head_def)
qed

lemma lvs_le_loc:
  assumes "lvs_le st st'" "Ptr a v \<in> set (l7vs st)" "Ptr b l \<in> set (vs_Locations v)"
  obtains v' l' where "Ptr a v' \<in> set (l7vs st')" "vs_ServerName v' = vs_ServerName v" "Ptr b l' \<in> set (vs_Locations v')" "loc_le l l'"
proof -
  obtain v' where v': "Ptr a v' \<in> set (l7vs st')" "vs_le v v'" using assms(1,2) by (auto simp: lvs_le_def)
  then obtain l' where "Ptr b l' \<in> set (vs_Locations v')" "loc_le l l'" using assms(3) by (auto simp: vs_le_def)
  with v' vs_le_name that show thesis by blast
qed

lemma loc_at_mono: "loc_at st n p b \<Longrightarrow> lvs_le st st' \<Longrightarrow> loc_at st' n p b"
proof -
  assume "loc_at st n p b" and le: "lvs_le st st'"
  then obtain a v l where v: "Ptr a v \<in> set (l7vs st)" "vs_ServerName v = n" "Ptr b l \<in> set (vs_Locations v)"
     "lo_Path l = p" "\<not> lo_DisableProxyPass l"
    unfolding loc_at_def by blast
  obtain v' l' where v': "Ptr a v' \<in> set (l7vs st')" "vs_ServerName v' = vs_ServerName v" "Ptr b l' \<in> set (vs_Locations v')" "loc_le l l'"
    by (rule lvs_le_loc [OF le v(1,3)])
  then have "lo_Path l' = p" "\<not> lo_DisableProxyPass l'" using v(4,5) by (auto simp: loc_le_def)
  with v(2) v' show ?thesis unfolding loc_at_def by blast
qed

lemma srv_inv_mono: "srv_inv st \<Longrightarrow> lvs_le st st' \<Longrightarrow> srvLocMap st' = srvLocMap st \<Longrightarrow> srv_inv st'"
  unfolding srv_inv_def by (metis loc_at_mono)

lemma served_mono:
  assumes "served st n path bn svc w" "lvs_le st st'"
  shows "served st' n path bn svc w"
proof -
  obtain a v b l where v: "Ptr a v \<in> set (l7vs st)" "vs_ServerName v = n" "Ptr b l \<in> set (vs_Locations v)"
     "lo_Path l = path" "\<not> lo_DisableProxyPass l" "bn \<in> fst ` set (lo_NameCondition l)"
    using assms(1) unfolding served_def by blast
  obtain v' l' where v': "Ptr a v' \<in> set (l7vs st')" "vs_ServerName v' = vs_ServerName v" "Ptr b l' \<in> set (vs_Locations v')" "loc_le l l'"
    by (rule lvs_le_loc [OF assms(2) v(1,3)])
  then have "lo_Path l' = path" "\<not> lo_DisableProxyPass l'" "bn \<in> fst ` set (lo_NameCondition l')"
    using v(4-6) by (auto simp: loc_le_def)
  with v(2) v' have "\<exists>a v b l. Ptr a v \<in> set (l7vs st') \<and> vs_ServerName v = n \<and> Ptr b l \<in> set (vs_Locations v) \<and>
     lo_Path l = path \<and> \<not> lo_DisableProxyPass l \<and> bn \<in> fst ` set (lo_NameCondition l)"
    by blast
  moreover have "pool_le (globals st) (globals st')" using assms(2) by (simp add: lvs_le_def)
  ultimately show ?thesis using assms(1) unfolding served_def pool_le_def by blast
qed

lemma get_loc_at:
  assumes inv: "vs_inv st" "srv_inv st" and k: "key_ok n path" and va: "map_of (l7vsMap st) n = Some va"
    and g: "get_loc anns (n @ ''_'' @ path) va path st = (loc, st')"
  shows "srv_inv st'" "loc_at st' n path loc"
proof -
  have "srv_inv st' \<and> loc_at st' n path loc"
  proof (cases "map_of (srvLocMap st) (n @ ''_'' @ path)")
    case (Some b)
    then obtain m q where "n @ ''_'' @ path = m @ ''_'' @ q" "key_ok m q" "loc_at st m q b"
      using inv(2) unfolding srv_inv_def by blast
    then have "loc_at st n path b" using key_ok_inject [OF k] by blast
    then show ?thesis using g Some inv(2) by (auto simp: get_loc_def)
  next
    case None
    define l where "l = \<lparr>lo_Path = path, lo_NameCondition = [], lo_Rewrite = zero_rewrite,
                    lo_Proxy = an_Proxy anns, lo_DisableProxyPass = False\<rparr>"
    have st': "loc = fresh st" "srvLocMap st' = map_set (n @ ''_'' @ path) (fresh st) (srvLocMap st)"
        "l7vs st' = map (upd_vs va (\<lambda>v. v\<lparr>vs_Locations := vs_Locations v @ [Ptr (fresh st) l]\<rparr>)) (l7vs st)"
      using g None by (auto simp: get_loc_def l_def Let_def)
    obtain v where v: "Ptr va v \<in> set (l7vs st)" "vs_ServerName v = n" using get_vs_lookup [OF inv(1) va] by blast
    then have "Ptr va (v\<lparr>vs_Locations := vs_Locations v @ [Ptr (fresh st) l]\<rparr>) \<in> set (l7vs st')"
      unfolding st' by force
    with v have at: "loc_at st' n path loc" unfolding loc_at_def st' by (fastforce simp: l_def)
    have "\<exists>m q. j = m @ ''_'' @ q \<and> key_ok m q \<and> loc_at st' m q b" if j: "map_of (srvLocMap st') j = Some b" for j b
    proof (cases "j = n @ ''_'' @ path")
      case True
      with j at k show ?thesis by (auto simp: st')
    next
      case False
      then have "map_of (srvLocMap st) j = Some b" using j by (simp add: st')
      then show ?thesis using inv(2) loc_at_mono [OF _ get_loc_le [OF g]] unfolding srv_inv_def by blast
    qed
    with at show ?thesis unfolding srv_inv_def by blast
  qed
  then show "srv_inv st'" "loc_at st' n path loc" by auto
qed

lemma add_condition_served:
  assumes "loc_at st n path loc" "svc \<in> set (l7PoolMap (globals st))"
  shows "served (add_condition bn anns svc loc st) n path bn svc (wc_Weight (an_Weight anns))"
proof -
  let ?st = "add_condition bn anns svc loc st"
  define g where "g l = l\<lparr>lo_NameCondition := map_set bn (Ptr (fresh st) (condition_of anns)) (lo_NameCondition l)\<rparr>"
    for l :: Location
  have l7: "l7vs ?st = map (upd_loc loc g) (l7vs st)" by (simp add: add_condition_def g_def [abs_def] Let_def)
  obtain a v l where v: "Ptr a v \<in> set (l7vs st)" "vs_ServerName v = n" "Ptr loc l \<in> set (vs_Locations v)"
     "lo_Path l = path" "\<not> lo_DisableProxyPass l"
    using assms(1) by (auto simp: loc_at_def)
  have "Ptr a (v\<lparr>vs_Locations := map (upd_loc_ptr loc g) (vs_Locations v)\<rparr>) \<in> set (l7vs ?st)"
    using v(1) unfolding l7 by force
  moreover have "Ptr loc (g l) \<in> set (map (upd_loc_ptr loc g) (vs_Locations v))" using v(3) by force
  moreover have "bn \<in> fst ` set (lo_NameCondition (g l))"
    using keys_map_set [of bn "Ptr (fresh st) (condition_of anns)" "lo_NameCondition l"] by (simp add: g_def)
  ultimately have "\<exists>a v b l. Ptr a v \<in> set (l7vs ?st) \<and> vs_ServerName v = n \<and> Ptr b l \<in> set (vs_Locations v) \<and>
     lo_Path l = path \<and> \<not> lo_DisableProxyPass l \<and> bn \<in> fst ` set (lo_NameCondition l)"
    using v by (intro exI [of _ a] exI [of _ "v\<lparr>vs_Locations := map (upd_loc_ptr loc g) (vs_Locations v)\<rparr>"] exI [of _ loc] exI [of _ "g l"])
      (simp add: g_def)
  then show ?thesis using assms(2) unfolding served_def by (auto simp: add_condition_def Let_def)
qed

definition entry_inv :: "lvs \<Rightarrow> bool" where
  "entry_inv st \<longleftrightarrow> vs_inv st \<and> loc_inv (proxy_loc {}) st \<and> srv_inv st"

lemma path_step_entry:
  assumes inv: "entry_inv st" and va: "map_of (l7vsMap st) n = Some va" and k: "key_ok n (hp_Path path)"
  shows "entry_inv (path_step ing anns n va path st)" "l7vsMap (path_step ing anns n va path st) = l7vsMap st"
    "served (path_step ing anns n va path st) n (hp_Path path) (l7_backendName ing anns (n @ ''_'' @ hp_Path path))
       (ib_ServiceName (hp_Backend path)) (wc_Weight (an_Weight anns))"
proof -
  let ?svc = "ib_ServiceName (hp_Backend path)"
  define st1 where "st1 = st\<lparr>globals := (globals st)\<lparr>l7PoolMap := add_set ?svc (l7PoolMap (globals st))\<rparr>\<rparr>"
  have 1: "vs_inv st1" by (rule vs_inv_same [of st]) (use inv in \<open>simp_all add: st1_def entry_inv_def\<close>)
  have "lvs_le st st1" by (rule lvs_le_update [of _ "\<lambda>p. p"]) (auto simp: st1_def pool_le_def l4_le_def)
  then have 2: "srv_inv st1" using inv srv_inv_mono [of st st1] by (simp add: st1_def entry_inv_def)
  obtain loc st2 where g: "get_loc anns (n @ ''_'' @ hp_Path path) va (hp_Path path) st1 = (loc, st2)" by fastforce
  have va1: "map_of (l7vsMap st1) n = Some va" using va by (simp add: st1_def)
  note at = get_loc_at [OF 1 2 k va1 g]
  have p: "path_step ing anns n va path st = add_condition (l7_backendName ing anns (n @ ''_'' @ hp_Path path)) anns ?svc loc st2"
    using g by (simp add: path_step_def st1_def Let_def)
  have "globals st2 = globals st1" using g by (auto simp: get_loc_def Let_def split: option.splits)
  then have svc: "?svc \<in> set (l7PoolMap (globals st2))" by (simp add: st1_def)
  show "served (path_step ing anns n va path st) n (hp_Path path) (l7_backendName ing anns (n @ ''_'' @ hp_Path path)) ?svc
      (wc_Weight (an_Weight anns))"
    unfolding p by (rule add_condition_served [OF at(2) svc])
  have "srv_inv (path_step ing anns n va path st)"
    unfolding p by (rule srv_inv_mono [OF at(1) add_condition_le]) (simp add: add_condition_def Let_def)
  then show "entry_inv (path_step ing anns n va path st)"
    using path_step_inv [OF _ _ va] inv by (simp add: entry_inv_def)
  show "l7vsMap (path_step ing anns n va path st) = l7vsMap st"
    using path_step_inv [OF _ _ va] inv by (simp add: entry_inv_def)
qed

lemma fold_path_step_entry:
  assumes "entry_inv st" "map_of (l7vsMap st) n = Some va" "\<And>p. p \<in> set paths \<Longrightarrow> key_ok n (hp_Path p)"
  shows "entry_inv (fold (path_step ing anns n va) paths st) \<and>
    (\<forall>p \<in> set paths. served (fold (path_step ing anns n va) paths st) n (hp_Path p)
       (l7_backendName ing anns (n @ ''_'' @ hp_Path p)) (ib_ServiceName (hp_Backend p)) (wc_Weight (an_Weight anns)))"
  using assms
proof (induction paths arbitrary: st)
  case (Cons q paths)
  note ps = path_step_entry [OF Cons.prems(1,2), of q ing anns]
  have k: "key_ok n (hp_Path q)" using Cons.prems(3) by simp
  let ?st = "path_step ing anns n va q st"
  have IH: "entry_inv (fold (path_step ing anns n va) paths ?st) \<and>
    (\<forall>p \<in> set paths. served (fold (path_step ing anns n va) paths ?st) n (hp_Path p)
       (l7_backendName ing anns (n @ ''_'' @ hp_Path p)) (ib_ServiceName (hp_Backend p)) (wc_Weight (an_Weight anns)))"
    using Cons.IH [of ?st] ps(1,2) [OF k] Cons.prems(2,3) by simp
  have "lvs_le ?st (fold (path_step ing anns n va) paths ?st)" by (rule lvs_grow.fold_le) (rule path_step_le)
  with served_mono [OF ps(3) [OF k]] IH show ?case by simp
qed simp

section \<open>Every valid path is served\<close>

definition rule_ok :: "IngressRule \<Rightarrow> bool" where
  "rule_ok r \<longleftrightarrow> CHR ''/'' \<notin> set (ir_Host r) \<and> (\<forall>ps. ir_HTTP r = Some ps \<longrightarrow> list_all (\<lambda>p. prefix ''/'' (hp_Path p)) ps)"

lemma l7_name_no_slash: "CHR ''/'' \<notin> set h \<Longrightarrow> CHR ''/'' \<notin> set (l7_name m h)"
  by (auto simp: l7_name_def Let_def Replace_char DefVirSrvName_def)

lemma get_vs_entry:
  assumes "entry_inv st" "vs_ServerName new = n" "vs_Locations new = []" "get_vs n new st = (a, st')"
  shows "entry_inv st'" "map_of (l7vsMap st') n = Some a"
proof -
  have "srvLocMap st' = srvLocMap st" using assms(4) by (auto simp: get_vs_def split: option.splits)
  then have "srv_inv st'" using assms(1) srv_inv_mono [OF _ get_vs_le [OF assms(4)]] by (simp add: entry_inv_def)
  moreover have "loc_inv (proxy_loc {}) st'"
    using loc_inv_get_vs [OF _ assms(3,4)] proxy_loc_get_vs [OF assms(4)] assms(1) by (simp add: entry_inv_def)
  ultimately show "entry_inv st'" using vs_inv_get_vs(1) [OF _ assms(2,4)] assms(1) by (simp add: entry_inv_def)
  show "map_of (l7vsMap st') n = Some a" using vs_inv_get_vs(2) [OF _ assms(2,4)] assms(1) by (simp add: entry_inv_def)
qed

lemma rule_step_entry:
  assumes "rule_step env ing anns m rule st = Some st'" "entry_inv st" "rule_ok rule"
  shows "entry_inv st'"
    and "ir_HTTP rule = Some ps \<Longrightarrow> p \<in> set ps \<Longrightarrow>
      served st' (l7_name m (ir_Host rule)) (hp_Path p) (l7_backendName ing anns (l7_name m (ir_Host rule) @ ''_'' @ hp_Path p))
        (ib_ServiceName (hp_Backend p)) (wc_Weight (an_Weight anns))"
proof -
  define n where "n = l7_name m (ir_Host rule)"
  obtain a st1 where g: "get_vs n (l7_vs env ing anns m n) st = (a, st1)" by fastforce
  obtain qs where qs: "ir_HTTP rule = Some qs" "st' = fold (path_step ing anns n a) qs st1"
    using assms(1) g by (auto simp: rule_step_def Let_def n_def split: option.splits)
  have k: "key_ok n (hp_Path p)" if "p \<in> set qs" for p
    using assms(3) that l7_name_no_slash qs(1) by (auto simp: rule_ok_def key_ok_def n_def list_all_iff)
  note e = get_vs_entry [OF assms(2) _ _ g]
  note f = fold_path_step_entry [OF e(1) e(2), of qs ing anns]
  show "entry_inv st'" using f k by (simp add: qs)
  show "served st' (l7_name m (ir_Host rule)) (hp_Path p) (l7_backendName ing anns (l7_name m (ir_Host rule) @ ''_'' @ hp_Path p))
        (ib_ServiceName (hp_Backend p)) (wc_Weight (an_Weight anns))"
    if "ir_HTTP rule = Some ps" "p \<in> set ps"
    using f k that by (simp add: qs n_def [symmetric])
qed

lemma l4_step_entry: "l4_step env ing anns st = Some st' \<Longrightarrow> entry_inv st \<Longrightarrow> entry_inv st'"
proof -
  assume s: "l4_step env ing anns st = Some st'" and inv: "entry_inv st"
  have "srvLocMap st' = srvLocMap st" by (rule l4_step_cases [OF s]) simp_all
  then show "entry_inv st'"
    using l4_step_l7_inv [where Q = "\<lambda>_. True", OF s] inv srv_inv_mono [OF _ l4_step_le [OF s]] by (simp add: entry_inv_def vs_all_def)
qed

lemma ingress_step_entry:
  assumes "ingress_step env ing st = Some st'" "entry_inv st" "list_all rule_ok (ing_Rules ing)"
  shows "entry_inv st'"
  using assms(1)
proof (cases rule: ingress_step_cases)
  case (2 anns)
  then show ?thesis using assms(2) by (rule l4_step_entry)
next
  case (3 anns)
  then show ?thesis using assms(2)
    by (rule foldM_invariant) (use assms(3) in \<open>auto simp: list_all_iff intro: rule_step_entry(1)\<close>)
qed (use assms in simp)

text \<open>The annotations and the certificates with which an ingress is listed as an HTTP ingress.\<close>

definition listed_l7 :: "gw_env \<Rightarrow> Ingress \<Rightarrow> ann_Ingress \<Rightarrow> bool" where
  "listed_l7 env ing anns \<longleftrightarrow> ing \<in> set (env_Ingresses env) \<and> ingressIsValid env ing = Some True \<and>
     GetIngressAnnotations env (env_Key env (ing_Meta ing)) = Some anns \<and> \<not> is_l4 anns"

abbreviation ing_ssl :: "gw_env \<Rightarrow> Ingress \<Rightarrow> (string, SSLCert ptr) gomap" where
  "ing_ssl env ing \<equiv> hostSSL env (om_Namespace (ing_Meta ing)) (ing_TLS ing) []"

lemma ingress_step_served:
  assumes "ingress_step env ing st = Some st'" "entry_inv st" "list_all rule_ok (ing_Rules ing)" "listed_l7 env ing anns"
    and "r \<in> set (ing_Rules ing)" "ir_HTTP r = Some ps" "p \<in> set ps"
  shows "served st' (l7_name (ing_ssl env ing) (ir_Host r)) (hp_Path p)
    (l7_backendName ing anns (l7_name (ing_ssl env ing) (ir_Host r) @ ''_'' @ hp_Path p))
    (ib_ServiceName (hp_Backend p)) (wc_Weight (an_Weight anns))"
proof -
  have f: "foldM (rule_step env ing anns (ing_ssl env ing)) (ing_Rules ing) st = Some st'"
    using assms(1,4) by (simp add: ingress_step_def listed_l7_def Let_def)
  have ok: "rule_ok x" if "x \<in> set (ing_Rules ing)" for x using that assms(3) by (simp add: list_all_iff)
  show ?thesis
    by (rule lvs_grow.foldM_reaches [where I = entry_inv, OF f assms(5,2)])
      (erule rule_step_entry rule_step_le served_mono | use ok assms(5-7) in blast)+
qed

lemma ListVirtualService_passes:
  assumes "ListVirtualService env g a = Some st"
  obtains st1 where "foldM (ingress_step env) (env_Ingresses env) (init_lvs g a) = Some st1" "lvs_le st1 st"
proof -
  obtain st1 where "foldM (ingress_step env) (env_Ingresses env) (init_lvs g a) = Some st1"
      "foldM (redirect_step env) (env_Ingresses env) st1 = Some st"
    using assms by (auto simp: ListVirtualService_def split: option.splits)
  with lvs_grow.foldM_le redirect_step_le that show thesis by blast
qed

lemma ListVirtualService_served:
  assumes "ListVirtualService env g a = Some st" "\<And>ing. ing \<in> set (env_Ingresses env) \<Longrightarrow> list_all rule_ok (ing_Rules ing)"
    and "listed_l7 env ing anns" "r \<in> set (ing_Rules ing)" "ir_HTTP r = Some ps" "p \<in> set ps"
  shows "served st (l7_name (ing_ssl env ing) (ir_Host r)) (hp_Path p)
    (l7_backendName ing anns (l7_name (ing_ssl env ing) (ir_Host r) @ ''_'' @ hp_Path p))
    (ib_ServiceName (hp_Backend p)) (wc_Weight (an_Weight anns))" (is "?P st")
proof -
  obtain st1 where f: "foldM (ingress_step env) (env_Ingresses env) (init_lvs g a) = Some st1" "lvs_le st1 st"
    using ListVirtualService_passes [OF assms(1)] by blast
  have i: "ing \<in> set (env_Ingresses env)" using assms(3) by (simp add: listed_l7_def)
  have e: "entry_inv (init_lvs g a)"
    by (simp add: entry_inv_def vs_inv_def loc_inv_def srv_inv_def init_lvs_def)
  have "?P st1"
    by (rule lvs_grow.foldM_reaches [where I = entry_inv, OF f(1) i e])
      (erule ingress_step_entry ingress_step_served ingress_step_le served_mono | use assms(2-) i in blast)+
  then show ?thesis using served_mono f(2) by blast
qed

section \<open>Every stream rule is listened for\<close>

text \<open>The stream server of an ingress: it listens on the address and passes connections to a pool of the
  service.\<close>

definition listening :: "lvs \<Rightarrow> string \<Rightarrow> string \<Rightarrow> string \<Rightarrow> int \<Rightarrow> bool" where
  "listening st addr bn svc w \<longleftrightarrow> (\<exists>a v. Ptr a v \<in> set (l4vs st) \<and> vs_Listening v = [addr] \<and> vs_PoolName v = bn) \<and>
     svc \<in> set (l4PoolMap (globals st)) \<and>
     (\<exists>bk \<in> set (map_slice (l4PoolBackendMap (globals st)) svc). bk_name bk = bn \<and> bk_weight bk = w)"

lemma listening_mono: "listening st addr bn svc w \<Longrightarrow> lvs_le st st' \<Longrightarrow> listening st' addr bn svc w"
  unfolding listening_def lvs_le_def l4_le_def by blast

lemma l4_step_listening:
  assumes "l4_step env ing anns st = Some st'" "l4_host env (L4Host (an_L4 anns)) = Some host" "ing_Backend ing = Some b"
    and "L4Port (an_L4 anns) \<notin> own_ports env"
    and addr: "addr = l4_listening host (L4Port (an_L4 anns))
        (GetServiceProtocol env (om_Namespace (ing_Meta ing) @ ''/'' @ ib_ServiceName b) (ib_ServicePort b))"
  shows "listening st' addr (BackendName addr (om_Namespace (ing_Meta ing))) (ib_ServiceName b) (wc_Weight (an_Weight anns))"
proof -
  define bn where "bn = BackendName addr (om_Namespace (ing_Meta ing))"
  have "st' = st\<lparr>l4vs := l4vs st @ [Ptr (fresh st) (l4_vs anns addr bn
            (GetServiceProtocol env (om_Namespace (ing_Meta ing) @ ''/'' @ ib_ServiceName b) (ib_ServicePort b)))],
         l4vsMap := map_set addr (fresh st) (l4vsMap st),
         globals := (globals st)\<lparr>l4PoolMap := add_set (ib_ServiceName b) (l4PoolMap (globals st)),
           l4PoolBackendMap := map_append (ib_ServiceName b)
             \<lparr>bk_name = bn, bk_weight = wc_Weight (an_Weight anns), bk_hashBy = [], bk_loadBalancingType = []\<rparr>
             (l4PoolBackendMap (globals st))\<rparr>,
         fresh := fresh st + 1\<rparr>"
    using assms(1-4) unfolding addr bn_def by (simp add: l4_step_def Let_def own_ports_def split: if_splits)
  then have "Ptr (fresh st) (l4_vs anns addr bn (GetServiceProtocol env (om_Namespace (ing_Meta ing) @ ''/'' @ ib_ServiceName b) (ib_ServicePort b)))
      \<in> set (l4vs st')" "ib_ServiceName b \<in> set (l4PoolMap (globals st'))"
      "\<lparr>bk_name = bn, bk_weight = wc_Weight (an_Weight anns), bk_hashBy = [], bk_loadBalancingType = []\<rparr>
         \<in> set (map_slice (l4PoolBackendMap (globals st')) (ib_ServiceName b))"
    by simp_all
  then show ?thesis unfolding listening_def bn_def [symmetric] using l4_vs_simps backend.select_convs by metis
qed

lemma ListVirtualService_listening:
  assumes "ListVirtualService env g a = Some st" "ing \<in> set (env_Ingresses env)" "ingressIsValid env ing = Some True"
    and "GetIngressAnnotations env (env_Key env (ing_Meta ing)) = Some anns" "is_l4 anns"
    and "l4_host env (L4Host (an_L4 anns)) = Some host" "ing_Backend ing = Some b" "L4Port (an_L4 anns) \<notin> own_ports env"
    and "addr = l4_listening host (L4Port (an_L4 anns))
        (GetServiceProtocol env (om_Namespace (ing_Meta ing) @ ''/'' @ ib_ServiceName b) (ib_ServicePort b))"
  shows "listening st addr (BackendName addr (om_Namespace (ing_Meta ing))) (ib_ServiceName b) (wc_Weight (an_Weight anns))"
    (is "?P st")
proof -
  obtain st1 where f: "foldM (ingress_step env) (env_Ingresses env) (init_lvs g a) = Some st1" "lvs_le st1 st"
    using ListVirtualService_passes [OF assms(1)] by blast
  have l4: "l4_step env ing anns s = Some s'" if "ingress_step env ing s = Some s'" for s s'
    using that assms(3-5) by (simp add: ingress_step_def)
  have "?P st1"
    by (rule lvs_grow.foldM_reaches [where I = "\<lambda>_. True", OF f(1) assms(2)])
      (rule TrueI | erule ingress_step_le | erule listening_mono | erule l4 [THEN l4_step_listening [OF _ assms(6-9)]] | assumption)+
  then show ?thesis using listening_mono f(2) by blast
qed

end
