(* ===== verification/GatewayProps.thy ===== *)
theory GatewayProps
  imports GwController GwServed
begin

text \<open>
  The properties of the gateway: what a listing of the store contains, how it becomes pools, server
  blocks and files, and when the controller does so. The example cluster at the start is the input of
  the instances.
\<close>

section \<open>An example cluster\<close>

definition ex_meta :: "string \<Rightarrow> ObjectMeta" where
  "ex_meta n = \<lparr>om_Name = n, om_Namespace = ''ns'', om_ResourceVersion = ''1'', om_Annotations = [],
     om_Labels = [(''service_id'', ''id'')]\<rparr>"

definition ex_path :: HTTPIngressPath where
  "ex_path = \<lparr>hp_Path = ''/'', hp_Backend = \<lparr>ib_ServiceName = ''svc'', ib_ServicePort = 80\<rparr>\<rparr>"

definition ex_web :: Ingress where
  "ex_web = \<lparr>ing_Meta = ex_meta ''web'', ing_Backend = None,
     ing_TLS = [\<lparr>it_Hosts = [''a.com''], it_SecretName = ''crt''\<rparr>],
     ing_Rules = [\<lparr>ir_Host = ''a.com'', ir_HTTP = Some [ex_path]\<rparr>]\<rparr>"

definition ex_tcp :: Ingress where
  "ex_tcp = \<lparr>ing_Meta = ex_meta ''tcp'', ing_Backend = Some \<lparr>ib_ServiceName = ''svc'', ib_ServicePort = 80\<rparr>,
     ing_TLS = [], ing_Rules = []\<rparr>"

definition ex_ep :: Endpoints where
  "ex_ep = \<lparr>ep_Meta = ex_meta ''svc'', ep_Subsets = Some [\<lparr>ss_Addresses = [''10.0.0.1'', ''10.0.0.2''], ss_Ports = [80]\<rparr>]\<rparr>"

definition ex_x509 :: x509_Certificate where
  "ex_x509 = \<lparr>Raw = ''raw'', CommonName = ''a.com''\<rparr>"

definition ex_cert :: "SSLCert ptr" where
  "ex_cert = Ptr 100 \<lparr>sc_Meta = NilPtr, sc_CertificateStr = ''raw'', sc_Certificate = Ptr 101 ex_x509,
     sc_PrivateKey = ''key'', sc_CertificatePem = ''/run/nginx/conf/certificate/ns-crt.pem'',
     sc_CN = [''a.com''], sc_ExpireTime = 0\<rparr>"

definition ex_anns :: "Ingress \<Rightarrow> ann_Ingress" where
  "ex_anns ing = (empty_ann (ing_Meta ing))\<lparr>an_Weight := \<lparr>wc_Weight = 1\<rparr>,
     an_Rewrite := zero_rewrite\<lparr>rc_ForceSSLRedirect := ing_Backend ing = None\<rparr>,
     an_L4 := (if ing_Backend ing = None then zero_l4 else \<lparr>L4Enable = True, L4Host = ''0.0.0.0'', L4Port = 5000\<rparr>)\<rparr>"

definition ex_ports :: ListenPorts where
  "ex_ports = \<lparr>lp_HTTP = 80, lp_HTTPS = 443, lp_Status = 18080, lp_Stream = 18081, lp_Health = 10254\<rparr>"

definition ex_env :: gw_env where
  "ex_env = \<lparr>env_Ingresses = [ex_web, ex_tcp], env_Endpoints = [ex_ep],
     env_EndpointByKey = (\<lambda>k. if k = ''ns/svc'' then Some ex_ep else None),
     env_Annotations = (\<lambda>k. if k = ''ns/web'' then Some (ex_anns ex_web) else if k = ''ns/tcp'' then Some (ex_anns ex_tcp) else None),
     env_ServiceByKey = (\<lambda>k. None), env_SSLStore = (\<lambda>k. if k = ''ns/crt'' then Some ex_cert else None),
     env_HostIPs = [], env_Ports = ex_ports, env_SSLProtocols = [],
     env_Key = (\<lambda>m. om_Namespace m @ ''/'' @ om_Name m)\<rparr>"

definition no_globals :: pool_globals where
  "no_globals = \<lparr>l7PoolMap = [], l7PoolBackendMap = [], l4PoolMap = [], l4PoolBackendMap = []\<rparr>"

text \<open>What its listing is: a TLS server, the redirect to it, and a TCP server.\<close>

definition ex_loc :: Location where
  "ex_loc = \<lparr>lo_Path = ''/'', lo_NameCondition = [(''ns_tlsa_com_slash_default'', Ptr 2 \<lparr>cd_Type = ''default'', cd_Value = [(''1'', ''1'')]\<rparr>)],
     lo_Rewrite = zero_rewrite, lo_Proxy = zero_proxy, lo_DisableProxyPass = False\<rparr>"

definition ex_redirect :: Location where
  "ex_redirect = \<lparr>lo_Path = ''/'', lo_NameCondition = [], lo_Rewrite = redirect_rewrite, lo_Proxy = zero_proxy, lo_DisableProxyPass = True\<rparr>"

definition ex_tls_server :: VirtualService where
  "ex_tls_server = zero_VirtualService\<lparr>vs_Meta := zero_Meta\<lparr>Namespace := ''ns'', ServiceID := ''id''\<rparr>,
     vs_Listening := [''443'', ''ssl''], vs_ServerName := ''tlsa.com'', vs_SSlProtocols := ''TLSv1.2 TLSv1.3'',
     vs_SSLCert := ex_cert, vs_Locations := [Ptr 1 ex_loc]\<rparr>"

definition ex_plain_server :: VirtualService where
  "ex_plain_server = zero_VirtualService\<lparr>vs_Listening := [''80''], vs_ServerName := ''a.com'', vs_Locations := [Ptr 5 ex_redirect]\<rparr>"

definition ex_tcp_server :: VirtualService where
  "ex_tcp_server = zero_VirtualService\<lparr>vs_Meta := zero_Meta\<lparr>Namespace := ''ns'', ServiceID := ''id''\<rparr>,
     vs_Listening := [''0.0.0.0:5000''], vs_PoolName := ''ns_0_0_0_0_5000'', vs_Protocol := ''TCP''\<rparr>"

definition ex_globals :: pool_globals where
  "ex_globals =
     \<lparr>l7PoolMap = [''svc''],
      l7PoolBackendMap = [(''svc'', [\<lparr>bk_name = ''ns_tlsa_com_slash_default'', bk_weight = 1, bk_hashBy = [], bk_loadBalancingType = []\<rparr>])],
      l4PoolMap = [''svc''],
      l4PoolBackendMap = [(''svc'', [\<lparr>bk_name = ''ns_0_0_0_0_5000'', bk_weight = 1, bk_hashBy = [], bk_loadBalancingType = []\<rparr>])]\<rparr>"

definition ex_st :: lvs where
  "ex_st = \<lparr>l7vs = [Ptr 0 ex_tls_server, Ptr 4 ex_plain_server], l4vs = [Ptr 3 ex_tcp_server],
     l7vsMap = [(''tlsa.com'', 0), (''a.com'', 4)], l4vsMap = [(''0.0.0.0:5000'', 3)],
     srvLocMap = [(''tlsa.com_/'', 1)], globals = ex_globals, fresh = 6\<rparr>"

lemmas ex_defs = ex_meta_def ex_path_def ex_web_def ex_tcp_def ex_ep_def ex_anns_def ex_ports_def ex_env_def ex_cert_def
  no_globals_def empty_ann_def zero_l4_def zero_rewrite_def

lemmas ex_st_defs = ex_loc_def ex_redirect_def ex_tls_server_def ex_plain_server_def ex_tcp_server_def ex_globals_def ex_st_def
  zero_VirtualService_def zero_Meta_def

lemmas listing_defs = ListVirtualService_def init_lvs_def ingress_step_def ingressIsValid_def endpointKey_def
  subsets_def hasReadyAddresses_def GetIngressAnnotations_def is_l4_def l4_step_def l4_host_def GetServiceProtocol_def
  l4_listening_def rule_step_def get_vs_def get_loc_def add_condition_def path_step_def condition_of_def
  redirect_step_def redirect_rule_step_def redirect_path_step_def add_set_def map_append_def map_slice_def
  l7_name_def Let_def DefVirSrvName_def TrimSpace_def is_space_def l7_vs_def l4_vs_def map_cert_def BackendName_def
  l7_backendName_def zero_VirtualService_def zero_Meta_def map_str_def DefaultType_def

lemma ex_Itoa [simp]: "Itoa 80 = ''80''" "Itoa 443 = ''443''" "Itoa 5000 = ''5000''"
  by (simp_all add: Itoa_def digits.simps char_of_def bit_0)

lemma ex_list: "ListVirtualService ex_env no_globals 0 = Some ex_st"
  by (simp add: ex_defs listing_defs ex_st_defs)

lemma ex_wf_ssl: "wf_ssl ex_env"
  by (simp add: wf_ssl_def ex_env_def ex_cert_def)

section \<open>The listing of virtual services\<close>

lemma listed_server:
  assumes "ListVirtualService env g a0 = Some st" "wf_ssl env" "Ptr a v \<in> set (l7vs st)"
  shows "locs_ok (any_loc st) (fresh st) v" "tls_ok (head v)"
  using ListVirtualService_inv [OF assms(2,1)] assms(3) by (auto simp: lvs_inv_def loc_inv_def vs_all_def)

lemma listed_location:
  assumes "ListVirtualService env g a0 = Some st" "wf_ssl env" "Ptr a v \<in> set (l7vs st)" "Ptr b l \<in> set (vs_Locations v)"
  shows "any_loc st (vs_ServerName v) b l"
  using listed_server(1) [OF assms(1-3)] assms(4) by (auto simp: locs_ok_def)

text \<open>
  C15: every virtual service of a listing is a server of its own: no pointer is nil and no two L7
  servers have the same name, however many ingresses name the same host.
\<close>

theorem listed_servers_distinct:
  assumes "ListVirtualService env g a = Some st" "wf_ssl env"
  shows "NilPtr \<notin> set (l7vs st) \<and> NilPtr \<notin> set (l4vs st) \<and>
    distinct (map (map_option vs_ServerName \<circ> ptr_val) (l7vs st))"
proof -
  have inv: "vs_inv st" "l4_inv env st"
    using ListVirtualService_inv [OF assms(2,1)] by (auto simp: lvs_inv_def)
  have "map (map_option vs_ServerName \<circ> ptr_val) (l7vs st) = map Some (map fst (map vs_entry (l7vs st)))"
    using inv(1) by (auto simp: vs_inv_def) (metis fst_conv option.simps(9) ptr.exhaust ptr_val.simps(2) vs_entry.simps(2))
  then show ?thesis
    using inv by (auto simp: vs_inv_def wf_map_def l4_inv_def distinct_map simp del: map_map)
qed

theorem listed_servers_distinct_witness:
  "ListVirtualService ex_env no_globals 0 = Some ex_st \<and> wf_ssl ex_env \<and> NilPtr \<notin> set (l7vs ex_st) \<and>
   distinct (map (map_option vs_ServerName \<circ> ptr_val) (l7vs ex_st)) \<and> length (l7vs ex_st) = 2"
  using listed_servers_distinct [OF ex_list ex_wf_ssl] ex_list ex_wf_ssl by (simp add: ex_st_def)

lemma registered_image:
  "registered g n \<longleftrightarrow> (\<exists>svc \<in> set (l7PoolMap g). n \<in> bk_name ` set (map_slice (l7PoolBackendMap g) svc))"
  by (auto simp: registered_def)

text \<open>
  C16: a location of a listing either redirects (it passes nothing on and has no condition), or it has
  at least one condition and every backend its conditions name has been handed to the pools: a
  service of \<open>l7PoolMap\<close> has that backend in \<open>l7PoolBackendMap\<close>.
\<close>

theorem listed_locations_routed:
  assumes "ListVirtualService env g a0 = Some st" "wf_ssl env"
    and "Ptr a v \<in> set (l7vs st)" "Ptr b l \<in> set (vs_Locations v)"
  shows "(lo_DisableProxyPass l \<and> lo_NameCondition l = [] \<and> lo_Rewrite l = redirect_rewrite) \<or>
    (\<not> lo_DisableProxyPass l \<and> lo_NameCondition l \<noteq> [] \<and>
     list_all (\<lambda>(n, c). \<exists>svc \<in> set (l7PoolMap (globals st)).
       n \<in> bk_name ` set (map_slice (l7PoolBackendMap (globals st)) svc)) (lo_NameCondition l))"
  using listed_location [OF assms]
  unfolding any_loc_def proxy_loc_def redirect_loc_def list_all_iff registered_image by fastforce

theorem listed_locations_routed_witness:
  "ListVirtualService ex_env no_globals 0 = Some ex_st \<and> wf_ssl ex_env \<and>
   Ptr 0 ex_tls_server \<in> set (l7vs ex_st) \<and> Ptr 1 ex_loc \<in> set (vs_Locations ex_tls_server) \<and>
   list_all (\<lambda>(n, c). \<exists>svc \<in> set (l7PoolMap (globals ex_st)).
     n \<in> bk_name ` set (map_slice (l7PoolBackendMap (globals ex_st)) svc)) (lo_NameCondition ex_loc)"
proof -
  have m: "Ptr 0 ex_tls_server \<in> set (l7vs ex_st)" "Ptr 1 ex_loc \<in> set (vs_Locations ex_tls_server)"
    by (simp_all add: ex_st_def ex_tls_server_def)
  have "\<not> lo_DisableProxyPass ex_loc" by (simp add: ex_loc_def)
  then show ?thesis using listed_locations_routed [OF ex_list ex_wf_ssl m] ex_list ex_wf_ssl m by simp
qed

lemma distinct_by_address:
  assumes "distinct (map ptr_addr ps)" "\<And>b l. Ptr b l \<in> set ps \<Longrightarrow> Q l \<Longrightarrow> K (f l) = Some b"
  shows "distinct (map f (filter Q (List.map_filter ptr_val ps)))"
  using assms
proof (induction ps)
  case (Cons p ps)
  have IH: "distinct (map f (filter Q (List.map_filter ptr_val ps)))" using Cons by simp
  show ?case
  proof (cases p)
    case (Ptr b l)
    have "f l \<noteq> f m" if "m \<in> set (List.map_filter ptr_val ps)" "Q m" "Q l" for m
    proof -
      obtain c where c: "Ptr c m \<in> set ps" using \<open>m \<in> _\<close> by (auto simp: map_filter_ptr_val)
      then have "Some b \<noteq> Some c" using Cons.prems(1) Ptr by (metis distinct.simps(2) image_eqI list.set_map list.simps(9) ptr_addr.simps(2))
      then show ?thesis using Cons.prems(2) [of b l] Cons.prems(2) [of c m] c Ptr that by auto
    qed
    then show ?thesis using IH Ptr by (auto simp: map_filter_simps)
  qed (use IH in \<open>simp add: map_filter_simps\<close>)
qed (simp add: map_filter_simps)

text \<open>
  C31: within one server, no two locations that pass requests on have the same path, so that the path
  of a request decides between them.
\<close>

theorem listed_paths_distinct:
  assumes "ListVirtualService env g a0 = Some st" "wf_ssl env" "Ptr a v \<in> set (l7vs st)"
  shows "distinct (map lo_Path (filter (\<lambda>l. \<not> lo_DisableProxyPass l) (List.map_filter ptr_val (vs_Locations v))))"
proof (rule distinct_by_address [where K = "\<lambda>p. map_of (srvLocMap st) (vs_ServerName v @ ''_'' @ p)"])
  show "distinct (map ptr_addr (vs_Locations v))" using listed_server(1) [OF assms] by (simp add: locs_ok_def)
  fix b l assume "Ptr b l \<in> set (vs_Locations v)" "\<not> lo_DisableProxyPass l"
  then show "map_of (srvLocMap st) (vs_ServerName v @ ''_'' @ lo_Path l) = Some b"
    using listed_location [OF assms] by (auto simp: any_loc_def redirect_loc_def proxy_loc_def)
qed

theorem listed_paths_distinct_witness:
  "ListVirtualService ex_env no_globals 0 = Some ex_st \<and> Ptr 0 ex_tls_server \<in> set (l7vs ex_st) \<and>
   distinct (map lo_Path (filter (\<lambda>l. \<not> lo_DisableProxyPass l) (List.map_filter ptr_val (vs_Locations ex_tls_server))))"
proof -
  have m: "Ptr 0 ex_tls_server \<in> set (l7vs ex_st)" by (simp add: ex_st_def)
  show ?thesis using listed_paths_distinct [OF ex_list ex_wf_ssl m] ex_list m by simp
qed

text \<open>
  C27: a listed server that listens with TLS has a certificate, whatever events the store has handled
  before: the certificates in it come from \<open>syncSecret\<close> and are never nil.
\<close>

theorem tls_servers_have_certificate:
  assumes "store_reach (envs key parse) I s" "parse_ok parse" "env_SSLStore env = map_of (sslStore s)"
    and "ListVirtualService env g a0 = Some st" "Ptr a v \<in> set (l7vs st)" "''ssl'' \<in> set (vs_Listening v)"
  shows "\<not> is_nil (vs_SSLCert v)"
proof -
  have "wf_ssl env" using store_reach_ok [OF assms(1,2)] assms(3) unfolding wf_ssl_def store_ok_def by fastforce
  with listed_server(2) [OF assms(4) _ assms(5)] assms(6) show ?thesis by (simp add: tls_ok_def head_def)
qed

definition ex_secret :: Secret where
  "ex_secret = \<lparr>sec_Meta = ex_meta ''crt'', sec_Data = [(''tls.crt'', ''pem''), (''tls.key'', ''key'')]\<rparr>"

definition ex_key :: "ObjectMeta \<Rightarrow> string" where
  "ex_key m = om_Namespace m @ ''/'' @ om_Name m"

definition ex_parse :: cert_parser where
  "ex_parse bs = Inr \<lparr>Raw = bs, CommonName = ''a.com''\<rparr>"

definition ex_sync :: sync_env where
  "ex_sync = \<lparr>se_Key = ex_key, se_GetIngress = (\<lambda>k. if k = ''ns/web'' then Some ex_web else None),
     se_GetSecret = (\<lambda>k. Inr (if k = ''ns/crt'' then Some ex_secret else None)), se_MkdirAll = None,
     se_WriteFile = (\<lambda>f c. (c, None)), se_ReadFile = (\<lambda>f. None), se_pemDecode = (\<lambda>c. Some ''raw''),
     se_ParseCertificate = ex_parse, se_Extract = ex_anns\<rparr>"

definition ex_store :: k8sStore where
  "ex_store = ing_AddFunc ex_sync ex_web (NewStore 100)"

lemma ex_parse_ok: "parse_ok ex_parse"
  by (simp add: parse_ok_def ex_parse_def)

lemma ex_store_ssl: "sslStore ex_store = [(''ns/crt'', ex_cert)]"
  by (simp add: ex_store_def ing_AddFunc_def refresh_def NewStore_def send_def syncSecrets_def syncSecret_def
      getCertificatePem_def extractAnnotations_def update_secretIngressMap_def getSecretKeys_def map_append_def map_slice_def
      cert_file_def CertificatePath_def ex_sync_def ex_key_def ex_parse_def ex_secret_def ex_x509_def ex_defs map_str_def Let_def)

lemma ex_reach: "store_reach (envs ex_key ex_parse) {ex_web} ex_store"
  unfolding ex_store_def
  by (rule store_reach.Step [OF store_reach.Start, of ex_sync]) (auto simp: envs_def ex_sync_def intro: store_step.IngAdd)

theorem tls_servers_have_certificate_witness:
  "store_reach (envs ex_key ex_parse) {ex_web} ex_store \<and> ListVirtualService ex_env no_globals 0 = Some ex_st \<and>
   Ptr 0 ex_tls_server \<in> set (l7vs ex_st) \<and> ''ssl'' \<in> set (vs_Listening ex_tls_server) \<and> \<not> is_nil (vs_SSLCert ex_tls_server)"
proof -
  have e: "env_SSLStore ex_env = map_of (sslStore ex_store)" by (auto simp: ex_env_def ex_store_ssl)
  have m: "Ptr 0 ex_tls_server \<in> set (l7vs ex_st)" "''ssl'' \<in> set (vs_Listening ex_tls_server)"
    by (simp_all add: ex_st_def ex_tls_server_def)
  show ?thesis
    using tls_servers_have_certificate [OF ex_reach ex_parse_ok e ex_list m] ex_reach ex_list m by simp
qed

text \<open>
  C30: a listed L4 server listens on one address, whose port is not the gateway's HTTP, HTTPS, health or
  status port, and the pool it passes connections to has been handed to the pools. (The fifth port the
  gateway uses itself, the stream port of the Lua endpoint, is not among the ports excluded.)
\<close>

theorem listed_l4_servers:
  assumes "ListVirtualService env g a0 = Some st" "wf_ssl env" "Ptr a v \<in> set (l4vs st)"
  shows "(\<exists>host port. vs_Listening v = [l4_listening host port (vs_Protocol v)] \<and>
      port \<notin> {lp_HTTP (env_Ports env), lp_HTTPS (env_Ports env), lp_Health (env_Ports env), lp_Status (env_Ports env)}) \<and>
    (\<exists>svc \<in> set (l4PoolMap (globals st)). vs_PoolName v \<in> bk_name ` set (map_slice (l4PoolBackendMap (globals st)) svc))"
proof -
  have "l4_ok env st v"
    using ListVirtualService_inv [OF assms(2,1)] assms(3) unfolding lvs_inv_def l4_inv_def by (metis ptr.inject)
  then show ?thesis unfolding l4_ok_def own_ports_def by (metis image_eqI)
qed

theorem listed_l4_servers_witness:
  "ListVirtualService ex_env no_globals 0 = Some ex_st \<and> Ptr 3 ex_tcp_server \<in> set (l4vs ex_st) \<and>
   (\<exists>svc \<in> set (l4PoolMap (globals ex_st)).
      vs_PoolName ex_tcp_server \<in> bk_name ` set (map_slice (l4PoolBackendMap (globals ex_st)) svc))"
proof -
  have m: "Ptr 3 ex_tcp_server \<in> set (l4vs ex_st)" by (simp add: ex_st_def)
  show ?thesis using listed_l4_servers [OF ex_list ex_wf_ssl m] ex_list m by blast
qed

text \<open>
  C14: nothing is dropped: every path of every rule of a valid HTTP ingress is served when the listing
  returns. There is a server with the host's name (prefixed when the ingress has a certificate), in it
  a location with the path that passes requests to the upstream of the path, and that upstream is
  handed to the pools as a backend of the path's service with the weight of the ingress, whatever
  ingresses come before or after.
\<close>

theorem valid_paths_served:
  assumes "ListVirtualService env g a0 = Some st"
    and "list_all (\<lambda>i. list_all (\<lambda>r. CHR ''/'' \<notin> set (ir_Host r) \<and>
       (\<forall>ps. ir_HTTP r = Some ps \<longrightarrow> list_all (\<lambda>p. prefix ''/'' (hp_Path p)) ps)) (ing_Rules i)) (env_Ingresses env)"
    and "ing \<in> set (env_Ingresses env)" "ingressIsValid env ing = Some True"
    and "GetIngressAnnotations env (env_Key env (ing_Meta ing)) = Some anns" "\<not> is_l4 anns"
    and "r \<in> set (ing_Rules ing)" "ir_HTTP r = Some ps" "p \<in> set ps"
    and "n = l7_name (hostSSL env (om_Namespace (ing_Meta ing)) (ing_TLS ing) []) (ir_Host r)"
  shows "served st n (hp_Path p) (l7_backendName ing anns (n @ ''_'' @ hp_Path p)) (ib_ServiceName (hp_Backend p))
    (wc_Weight (an_Weight anns))"
  unfolding assms(10)
  by (rule ListVirtualService_served [OF assms(1) _ _ assms(7-9)])
    (use assms(2-6) in \<open>simp_all add: listed_l7_def rule_ok_def [abs_def] list_all_iff\<close>)

theorem valid_paths_served_witness:
  "ListVirtualService ex_env no_globals 0 = Some ex_st \<and> served ex_st ''tlsa.com'' ''/'' ''ns_tlsa_com_slash_default'' ''svc'' 1"
proof -
  have "served ex_st ''tlsa.com'' (hp_Path ex_path) (l7_backendName ex_web (ex_anns ex_web) (''tlsa.com'' @ ''_'' @ hp_Path ex_path))
      (ib_ServiceName (hp_Backend ex_path)) (wc_Weight (an_Weight (ex_anns ex_web)))"
    by (rule valid_paths_served [OF ex_list, of ex_web _ "\<lparr>ir_Host = ''a.com'', ir_HTTP = Some [ex_path]\<rparr>" "[ex_path]"])
      (simp_all add: ex_defs ingressIsValid_def endpointKey_def subsets_def hasReadyAddresses_def GetIngressAnnotations_def is_l4_def
        l7_name_def DefVirSrvName_def Let_def)
  moreover have "l7_backendName ex_web (ex_anns ex_web) (''tlsa.com'' @ ''_'' @ ''/'') = ''ns_tlsa_com_slash_default''"
    by (simp add: l7_backendName_def BackendName_def condition_of_def DefaultType_def ex_defs Let_def)
  ultimately show ?thesis using ex_list by (simp add: ex_path_def ex_anns_def)
qed

section \<open>Pools\<close>

definition ex_hp :: "Pool ptr list" where
  "ex_hp = [Ptr 10 (zero_Pool\<lparr>pl_Meta := zero_Meta\<lparr>Name := ''ns_tlsa_com_slash_default'', Namespace := ''default''\<rparr>,
     pl_LoadBalancingType := ''round-robin'',
     pl_Nodes := [Ptr 6 (zero_Node\<lparr>nd_Host := ''10.0.0.1'', nd_Port := 80, nd_Weight := 1\<rparr>),
                  Ptr 7 (zero_Node\<lparr>nd_Host := ''10.0.0.2'', nd_Port := 80, nd_Weight := 1\<rparr>)]\<rparr>)]"

definition ex_tp :: "Pool ptr list" where
  "ex_tp = [Ptr 11 (zero_Pool\<lparr>pl_Meta := zero_Meta\<lparr>Name := ''ns_0_0_0_0_5000'', Namespace := ''default''\<rparr>,
     pl_Nodes := [Ptr 8 (zero_Node\<lparr>nd_Host := ''10.0.0.1'', nd_Port := 80, nd_Weight := 1\<rparr>),
                  Ptr 9 (zero_Node\<lparr>nd_Host := ''10.0.0.2'', nd_Port := 80, nd_Weight := 1\<rparr>)]\<rparr>)]"

lemma ex_pools: "ListPool rev ex_env (globals ex_st) (fresh ex_st) = (ex_hp, ex_tp, 12)"
  by (simp add: ListPool_def endpoint_step_def pool_step_def nodes_of_def new_l7_pool_def new_l4_pool_def subsets_def
      map_slice_def zero_Pool_def zero_Node_def GetLoadBalancingType_def RoundRobin_def Let_def
      ex_hp_def ex_tp_def ex_st_def ex_globals_def ex_defs zero_Meta_def)

lemma is_range_rev: "is_range rev"
  by (simp add: is_range_def)

text \<open>
  C29: the HTTP pools, exactly. Their names are distinct, and they are the names of the backends
  registered for a service that has an endpoints object with subsets (a backend whose service has
  none gets no pool). The nodes of a pool are, in this order, one for every endpoints object, backend
  of that name, subset, port and ready address, with the address, the port and the weight of the
  backend, where the service is in \<open>l7PoolMap\<close>.
\<close>

theorem http_pools_spec:
  assumes "is_range rng" "ListPool rng env g a = (hp, tp, a')"
  defines "pools \<equiv> List.map_filter ptr_val hp"
  shows "NilPtr \<notin> set hp \<and> distinct (map (\<lambda>p. Name (pl_Meta p)) pools) \<and>
    (\<lambda>p. Name (pl_Meta p)) ` set pools =
      {bk_name b | b ep. ep \<in> set (env_Endpoints env) \<and> ep_Subsets ep \<noteq> None \<and>
         b \<in> set (map_slice (l7PoolBackendMap g) (om_Name (ep_Meta ep)))} \<and>
    list_all (\<lambda>p. NilPtr \<notin> set (pl_Nodes p) \<and> List.map_filter ptr_val (pl_Nodes p) =
       [zero_Node\<lparr>nd_Host := ip, nd_Port := port, nd_Weight := bk_weight b\<rparr>.
          ep \<leftarrow> env_Endpoints env, ep_Subsets ep \<noteq> None,
          b \<leftarrow> map_slice (l7PoolBackendMap g) (om_Name (ep_Meta ep)),
          bk_name b = Name (pl_Meta p) \<and> om_Name (ep_Meta ep) \<in> set (l7PoolMap g),
          ss \<leftarrow> subsets ep, port \<leftarrow> ss_Ports ss, ip \<leftarrow> ss_Addresses ss]) pools"
proof -
  have nodes: "spec_nodes pm bm eps n = [zero_Node\<lparr>nd_Host := ip, nd_Port := port, nd_Weight := bk_weight b\<rparr>.
      ep \<leftarrow> eps, ep_Subsets ep \<noteq> None, b \<leftarrow> map_slice bm (om_Name (ep_Meta ep)),
      bk_name b = n \<and> om_Name (ep_Meta ep) \<in> set pm,
      ss \<leftarrow> subsets ep, port \<leftarrow> ss_Ports ss, ip \<leftarrow> ss_Addresses ss]" for pm bm eps n
    unfolding spec_nodes_def by (rule arg_cong [where f = concat], rule map_cong) (simp_all add: ep_backends_def)
  have names: "bk_name ` (\<Union>ep \<in> set eps. set (ep_backends bm ep)) =
      {bk_name b | b ep. ep \<in> set eps \<and> ep_Subsets ep \<noteq> None \<and> b \<in> set (map_slice bm (om_Name (ep_Meta ep)))}" for bm eps
    by (auto simp: ep_backends_def)
  show ?thesis
    using ListPool_spec(1) [OF assms(1,2)] unfolding pools_spec_def pools_def list_all_iff nodes names by blast
qed

theorem http_pools_spec_witness:
  "is_range (rev :: (string, Pool) gomap \<Rightarrow> _) \<and> ListPool rev ex_env (globals ex_st) (fresh ex_st) = (ex_hp, ex_tp, 12) \<and>
   NilPtr \<notin> set ex_hp \<and> distinct (map (\<lambda>p. Name (pl_Meta p)) (List.map_filter ptr_val ex_hp)) \<and>
   (\<lambda>p. Name (pl_Meta p)) ` set (List.map_filter ptr_val ex_hp) =
     {bk_name b | b ep. ep \<in> set (env_Endpoints ex_env) \<and> ep_Subsets ep \<noteq> None \<and>
        b \<in> set (map_slice (l7PoolBackendMap (globals ex_st)) (om_Name (ep_Meta ep)))}"
  using http_pools_spec [OF is_range_rev ex_pools] is_range_rev ex_pools by blast

text \<open>
  The stream pools are exactly the pools of the registered L4 backends, with the same nodes.
\<close>

theorem stream_pools_spec:
  assumes "is_range rng" "ListPool rng env g a = (hp, tp, a')"
  defines "pools \<equiv> List.map_filter ptr_val tp"
  shows "NilPtr \<notin> set tp \<and> distinct (map (\<lambda>p. Name (pl_Meta p)) pools) \<and>
    (\<lambda>p. Name (pl_Meta p)) ` set pools = bk_name ` (\<Union>ep \<in> set (env_Endpoints env). set (ep_backends (l4PoolBackendMap g) ep)) \<and>
    list_all (\<lambda>p. NilPtr \<notin> set (pl_Nodes p) \<and> List.map_filter ptr_val (pl_Nodes p) =
       spec_nodes (l4PoolMap g) (l4PoolBackendMap g) (env_Endpoints env) (Name (pl_Meta p))) pools"
  using ListPool_spec(2) [OF assms(1,2)] unfolding pools_spec_def pools_def list_all_iff by blast

theorem stream_pools_spec_witness:
  "is_range (rev :: (string, Pool) gomap \<Rightarrow> _) \<and> ListPool rev ex_env (globals ex_st) (fresh ex_st) = (ex_hp, ex_tp, 12) \<and>
   NilPtr \<notin> set ex_tp \<and> distinct (map (\<lambda>p. Name (pl_Meta p)) (List.map_filter ptr_val ex_tp))"
  using stream_pools_spec [OF is_range_rev ex_pools] is_range_rev ex_pools by blast



lemma set_Replace_char:
  "n < 0 \<Longrightarrow> set (Replace s [c] new n) = set s - {c} \<union> (if c \<in> set s then set new else {})"
  by (auto simp: Replace_char split: if_splits)

text \<open>
  The name of a backend has none of the characters that separate the parts of an address or a
  path, so that it can name an nginx upstream.
\<close>

theorem BackendName_clean:
  "set (BackendName name ns) \<inter> {CHR ''.'', CHR ''-'', CHR '':'', CHR ''/'', CHR '' ''} = {}"
  by (simp add: BackendName_def Let_def set_Replace_char disjoint_iff)

section \<open>Certificates\<close>

lemma ex_sync_env: "ex_sync \<in> envs ex_key ex_parse"
  by (simp add: envs_def ex_sync_def)

lemma ex_spec_cert: "spec_cert ex_sync ''ns/crt'' = cert_contents ex_cert"
  by (simp add: spec_cert_def cert_contents_def ex_sync_def ex_cert_def ex_secret_def ex_parse_def ex_x509_def map_str_def
      cert_file_def CertificatePath_def Let_def)

text \<open>
  \<open>syncSecret\<close> makes the certificate store follow the secret: when the secret, the file system and
  the parsers give a certificate, it is the one stored under the secret's key and every other entry
  is kept; otherwise the store does not change. This holds in every state the handlers can reach.
\<close>

theorem syncSecret_follows_secret:
  assumes "store_reach (envs key parse) I s" "parse_ok parse" "e \<in> envs key parse"
  shows "case spec_cert e k of
      None \<Rightarrow> sslStore (syncSecret e k s) = sslStore s
    | Some v \<Rightarrow> \<exists>p. map_of (sslStore (syncSecret e k s)) = (map_of (sslStore s))(k \<mapsto> p) \<and> cert_contents p = Some v"
proof -
  have e: "se_ParseCertificate e = parse" using assms(3) by (simp add: envs_def)
  obtain r s' where g: "getCertificatePem e k s = (r, s')" by fastforce
  have "spec_cert e k = (case r of Inl _ \<Rightarrow> None | Inr p \<Rightarrow> cert_contents p)" by (rule getCertificatePem_spec(6) [OF g])
  moreover have "r = Inr p \<Longrightarrow> cert_contents p \<noteq> None" for p
    using getCertificatePem_spec(7) [OF g] by (auto simp: cert_contents_def)
  moreover have "case r of Inl _ \<Rightarrow> sslStore (syncSecret e k s) = sslStore s
      | Inr p \<Rightarrow> map_of (sslStore (syncSecret e k s)) = (map_of (sslStore s))(k \<mapsto> p)"
    using syncSecret_spec [of e s k] store_reach_ok [OF assms(1,2)] assms(2) g e by simp
  ultimately show ?thesis by (auto split: sum.splits option.splits)
qed

theorem syncSecret_follows_secret_witness:
  "store_reach (envs ex_key ex_parse) {ex_web} ex_store \<and> spec_cert ex_sync ''ns/crt'' = cert_contents ex_cert \<and>
   (\<exists>p. map_of (sslStore (syncSecret ex_sync ''ns/crt'' ex_store)) = (map_of (sslStore ex_store))(''ns/crt'' \<mapsto> p) \<and>
     cert_contents p = cert_contents ex_cert)"
proof -
  obtain v where v: "cert_contents ex_cert = Some v" by (auto simp: cert_contents_def ex_cert_def)
  show ?thesis
    using syncSecret_follows_secret [OF ex_reach ex_parse_ok ex_sync_env, of "''ns/crt''"] ex_reach ex_spec_cert v by simp
qed

text \<open>
  When an ingress is added, its annotations are stored, every secret of its TLS section that makes
  a certificate has that certificate in the store, and one event goes to the controller.
\<close>

theorem ingress_added:
  assumes "store_reach (envs key parse) I s" "parse_ok parse" "e \<in> envs key parse"
  shows "map_of (IngressAnnotation (ing_AddFunc e ing s)) (key (an_Meta (se_Extract e ing))) = Some (se_Extract e ing) \<and>
    updateCh (ing_AddFunc e ing s) = updateCh s @ [\<lparr>ev_kind = CreateEvent, ev_obj = ObjIngress ing\<rparr>] \<and>
    list_all (\<lambda>t. case spec_cert e (om_Namespace (ing_Meta ing) @ ''/'' @ it_SecretName t) of
        None \<Rightarrow> True
      | Some v \<Rightarrow> \<exists>p. map_of (sslStore (ing_AddFunc e ing s)) (om_Namespace (ing_Meta ing) @ ''/'' @ it_SecretName t) = Some p \<and>
          cert_contents p = Some v) (ing_TLS ing)"
proof -
  have e: "se_ParseCertificate e = parse" "se_Key e = key" using assms(3) by (auto simp: envs_def)
  have "store_ok (se_ParseCertificate e) s" "parse_ok (se_ParseCertificate e)" using store_reach_ok [OF assms(1,2)] assms(2) e by auto
  then have "\<exists>p. map_of (sslStore (ing_AddFunc e ing s)) (om_Namespace (ing_Meta ing) @ ''/'' @ it_SecretName t) = Some p \<and> cert_contents p = Some v"
    if "t \<in> set (ing_TLS ing)" "spec_cert e (om_Namespace (ing_Meta ing) @ ''/'' @ it_SecretName t) = Some v" for t v
    using refresh_certs [OF _ _ that] unfolding ing_AddFunc_def by (simp add: send_def)
  then show ?thesis
    by (auto simp: ing_AddFunc_def send_def refresh_keeps e list_all_iff split: option.splits)
qed

theorem ingress_added_witness:
  "store_reach (envs ex_key ex_parse) {ex_web} ex_store \<and> ex_sync \<in> envs ex_key ex_parse \<and>
   length (updateCh (ing_AddFunc ex_sync ex_web ex_store)) = Suc (length (updateCh ex_store)) \<and>
   (\<exists>p. map_of (sslStore (ing_AddFunc ex_sync ex_web ex_store)) ''ns/crt'' = Some p \<and> cert_contents p = cert_contents ex_cert)"
proof -
  obtain v where v: "cert_contents ex_cert = Some v" by (auto simp: cert_contents_def ex_cert_def)
  show ?thesis
    using ingress_added [OF ex_reach ex_parse_ok ex_sync_env, of ex_web] ex_reach ex_sync_env ex_spec_cert v
    by (simp add: ex_web_def ex_meta_def)
qed

text \<open>
  The map of secrets is filled under the keys of ingresses but read under the keys of secrets: a
  secret whose key is not also the key of an ingress is ignored when it is added or updated, in
  every reachable state, although ingresses refer to it.
\<close>

theorem secret_events_ignored:
  assumes "store_reach (envs key parse) I s" "e \<in> envs key parse"
    and "key (sec_Meta sec) \<notin> (\<lambda>i. key (ing_Meta i)) ` I"
  shows "sec_AddFunc e sec s = s \<and> sec_UpdateFunc e old sec s = s"
proof -
  have "map_of (secretIngressMap s) (key (sec_Meta sec)) = None"
    using store_reach_keys [OF assms(1)] assms(3) by (auto simp: only_ingress_keys_def)
  then show ?thesis
    using assms(2) by (simp add: sec_AddFunc_def sec_UpdateFunc_def getSecretKeys_def map_slice_def envs_def Let_def)
qed

theorem secret_events_ignored_witness:
  "ing_TLS ex_web = [\<lparr>it_Hosts = [''a.com''], it_SecretName = ''crt''\<rparr>] \<and> ex_key (sec_Meta ex_secret) = ''ns/crt'' \<and>
   sec_AddFunc ex_sync ex_secret ex_store = ex_store"
proof -
  have "ex_key (sec_Meta ex_secret) \<notin> (\<lambda>i. ex_key (ing_Meta i)) ` {ex_web}"
    by (simp add: ex_key_def ex_secret_def ex_web_def ex_meta_def)
  from secret_events_ignored [OF ex_reach ex_sync_env this] show ?thesis
    by (simp add: ex_key_def ex_secret_def ex_web_def ex_meta_def)
qed

end
