(* ===== verification/GwRunning.thy ===== *)
theory GwRunning
  imports GwController GwServed
begin

text \<open>
  When \<open>syncGateway\<close> may leave the configuration files alone. The \<open>Equals\<close> methods take two pointers
  with one address for equal, so what their answer says about a running configuration and a new
  listing depends on where the objects of both live: every object of a listing is allocated after the
  objects of the configurations before it (\<open>laid_in\<close>), and then a positive answer means that the same
  servers are running already (\<open>runs\<close>).
\<close>

section \<open>Where the objects of a listing live\<close>

definition loc_in :: "nat set \<Rightarrow> Location \<Rightarrow> bool" where
  "loc_in A l \<longleftrightarrow> (\<forall>n d c. (n, Ptr d c) \<in> set (lo_NameCondition l) \<longrightarrow> d \<in> A)"

definition vs_in :: "nat set \<Rightarrow> VirtualService \<Rightarrow> bool" where
  "vs_in A v \<longleftrightarrow> (\<forall>b l. Ptr b l \<in> set (vs_Locations v) \<longrightarrow> b \<in> A \<and> loc_in A l)"

definition laid_in :: "nat set \<Rightarrow> VirtualService ptr list \<Rightarrow> bool" where
  "laid_in A vss \<longleftrightarrow> (\<forall>a v. Ptr a v \<in> set vss \<longrightarrow> a \<in> A \<and> vs_in A v)"

definition lvs_in :: "nat \<Rightarrow> lvs \<Rightarrow> bool" where
  "lvs_in lo st \<longleftrightarrow> lo \<le> fresh st \<and> laid_in {lo..<fresh st} (l7vs st) \<and> laid_in {lo..<fresh st} (l4vs st)"

lemma laid_in_append [simp]: "laid_in A (xs @ ys) \<longleftrightarrow> laid_in A xs \<and> laid_in A ys"
  by (auto simp: laid_in_def)

lemma laid_in_Nil [simp]: "laid_in A []"
  by (simp add: laid_in_def)

lemma loc_in_mono: "loc_in A l \<Longrightarrow> A \<subseteq> B \<Longrightarrow> loc_in B l"
  unfolding loc_in_def by blast

lemma vs_in_mono: "vs_in A v \<Longrightarrow> A \<subseteq> B \<Longrightarrow> vs_in B v"
  unfolding vs_in_def using loc_in_mono by blast

lemma laid_in_mono: "laid_in A vss \<Longrightarrow> A \<subseteq> B \<Longrightarrow> laid_in B vss"
  unfolding laid_in_def using vs_in_mono by blast

lemma laid_in_upd_vs:
  assumes "laid_in A vss" "A \<subseteq> B" "\<And>v. vs_in A v \<Longrightarrow> vs_in B (f v)"
  shows "laid_in B (map (upd_vs a f) vss)"
  unfolding laid_in_def
proof (intro allI impI)
  fix b v assume "Ptr b v \<in> set (map (upd_vs a f) vss)"
  then obtain w where w: "Ptr b w \<in> set vss" "v = (if b = a then f w else w)" by (rule Ptr_in_map_upd_vs)
  with assms vs_in_mono show "b \<in> B \<and> vs_in B v" unfolding laid_in_def by (metis subsetD)
qed

lemma laid_in_upd_loc:
  assumes "laid_in A vss" "A \<subseteq> B" "\<And>l. loc_in A l \<Longrightarrow> loc_in B (g l)"
  shows "laid_in B (map (upd_loc a g) vss)"
  unfolding laid_in_def
proof (intro allI impI)
  fix b v assume "Ptr b v \<in> set (map (upd_loc a g) vss)"
  then obtain w where w: "Ptr b w \<in> set vss" "v = w\<lparr>vs_Locations := map (upd_loc_ptr a g) (vs_Locations w)\<rparr>"
    by (rule Ptr_in_map_upd_loc)
  have "c \<in> B \<and> loc_in B l" if l: "Ptr c l \<in> set (vs_Locations v)" for c l
  proof -
    obtain q where q: "q \<in> set (vs_Locations w)" "Ptr c l = upd_loc_ptr a g q" using l w(2) by auto
    obtain k where "q = Ptr c k" "l = (if c = a then g k else k)" using q(2) by (cases q) auto
    with q(1) have k: "Ptr c k \<in> set (vs_Locations w)" "l = (if c = a then g k else k)" by auto
    then have "c \<in> A" "loc_in A k" using assms(1) w(1) unfolding laid_in_def vs_in_def by blast+
    with k assms(2,3) show ?thesis using loc_in_mono by auto
  qed
  with w(1) assms(1,2) show "b \<in> B \<and> vs_in B v" unfolding laid_in_def vs_in_def by blast
qed

text \<open>Every step allocates upwards, so a listing that starts at \<open>lo\<close> lies between \<open>lo\<close> and \<open>fresh\<close>.\<close>

definition fresh_at :: "nat \<Rightarrow> lvs \<Rightarrow> lvs \<Rightarrow> bool" where
  "fresh_at lo st st' \<longleftrightarrow> (lvs_in lo st \<longrightarrow> lvs_in lo st')"

interpretation fresh_grow: growing "fresh_at lo" for lo
  by unfold_locales (auto simp: fresh_at_def)

lemma fresh_atI:
  assumes "fresh st' = Suc (fresh st)"
    and "laid_in {lo..<fresh st} (l7vs st) \<Longrightarrow> lo \<le> fresh st \<Longrightarrow> laid_in {lo..<Suc (fresh st)} (l7vs st')"
    and "laid_in {lo..<fresh st} (l4vs st) \<Longrightarrow> lo \<le> fresh st \<Longrightarrow> laid_in {lo..<Suc (fresh st)} (l4vs st')"
  shows "fresh_at lo st st'"
  using assms by (simp add: fresh_at_def lvs_in_def)

lemma range_Suc: "{lo..<m} \<subseteq> {lo..<Suc m}"
  by auto

lemma laid_in_Suc: "laid_in {lo..<m} vss \<Longrightarrow> laid_in {lo..<Suc m} vss"
  by (rule laid_in_mono [OF _ range_Suc])

lemma laid_in_single: "laid_in A [Ptr a v] \<longleftrightarrow> a \<in> A \<and> vs_in A v"
  by (auto simp: laid_in_def)

lemma vs_in_no_locations: "vs_Locations v = [] \<Longrightarrow> vs_in A v"
  by (simp add: vs_in_def)

lemma vs_in_add:
  assumes "lo \<le> m" "lo_NameCondition l = []" "vs_in {lo..<m} v"
  shows "vs_in {lo..<Suc m} (v\<lparr>vs_Locations := vs_Locations v @ [Ptr m l]\<rparr>)"
proof -
  have "vs_in {lo..<Suc m} v" using assms(3) range_Suc by (rule vs_in_mono)
  then show ?thesis using assms by (auto simp: vs_in_def loc_in_def)
qed

lemma get_vs_fresh: "vs_Locations new = [] \<Longrightarrow> get_vs n new st = (a, st') \<Longrightarrow> fresh_at lo st st'"
proof (cases "map_of (l7vsMap st) n")
  case None
  assume "vs_Locations new = []" "get_vs n new st = (a, st')"
  with None show ?thesis
    by (intro fresh_atI) (auto simp: get_vs_def laid_in_single vs_in_no_locations intro: laid_in_Suc)
qed (auto simp: get_vs_def fresh_at_def)

lemma get_loc_fresh: "get_loc anns k va path st = (loc, st') \<Longrightarrow> fresh_at lo st st'"
proof (cases "map_of (srvLocMap st) k")
  case None
  assume "get_loc anns k va path st = (loc, st')"
  with None show ?thesis
    by (intro fresh_atI) (auto simp: get_loc_def Let_def intro!: laid_in_upd_vs range_Suc vs_in_add intro: laid_in_Suc)
qed (auto simp: get_loc_def fresh_at_def)

lemma loc_in_add:
  assumes "loc_in {lo..<m} l" "lo \<le> m"
  shows "loc_in {lo..<Suc m} (l\<lparr>lo_NameCondition := map_set bn (Ptr m c) (lo_NameCondition l)\<rparr>)"
  unfolding loc_in_def
proof (intro allI impI)
  fix n d x
  assume "(n, Ptr d x) \<in> set (lo_NameCondition (l\<lparr>lo_NameCondition := map_set bn (Ptr m c) (lo_NameCondition l)\<rparr>))"
  then have "(n, Ptr d x) \<in> insert (bn, Ptr m c) (set (lo_NameCondition l))"
    using set_map_set [of bn "Ptr m c" "lo_NameCondition l"] by auto
  with assms show "d \<in> {lo..<Suc m}" by (auto simp: loc_in_def less_Suc_eq)
qed

lemma add_condition_fresh: "fresh_at lo st (add_condition bn anns svc loc st)"
  by (rule fresh_atI)
    (auto simp: add_condition_def Let_def intro!: laid_in_upd_loc range_Suc loc_in_add intro: laid_in_Suc)

lemma path_step_fresh: "fresh_at lo st (path_step ing anns n va path st)"
proof -
  define st1 where "st1 = st\<lparr>globals := (globals st)\<lparr>l7PoolMap :=
      add_set (ib_ServiceName (hp_Backend path)) (l7PoolMap (globals st))\<rparr>\<rparr>"
  obtain loc st2 where g: "get_loc anns (n @ ''_'' @ hp_Path path) va (hp_Path path) st1 = (loc, st2)" by fastforce
  have "fresh_at lo st st1" by (simp add: st1_def fresh_at_def lvs_in_def)
  then have "fresh_at lo st st2" using get_loc_fresh [OF g] fresh_grow.le_trans by blast
  then show ?thesis
    using g add_condition_fresh fresh_grow.le_trans by (auto simp: path_step_def st1_def Let_def)
qed

lemma l7_vs_no_locations: "vs_Locations (l7_vs env ing anns m n) = []"
  by (simp add: l7_vs_def zero_VirtualService_def Let_def)

lemma l4_vs_no_locations: "vs_Locations (l4_vs anns l bn proto) = []"
  by (simp add: l4_vs_def zero_VirtualService_def)

lemma rule_step_fresh: "rule_step env ing anns m rule st = Some st' \<Longrightarrow> fresh_at lo st st'"
  unfolding rule_step_def Let_def
  by (auto split: prod.splits option.splits
      intro: fresh_grow.le_trans [OF get_vs_fresh [OF l7_vs_no_locations]] fresh_grow.fold_le path_step_fresh)

lemma l4_step_fresh: "l4_step env ing anns st = Some st' \<Longrightarrow> fresh_at lo st st'"
  by (erule l4_step_cases)
    (auto simp: fresh_grow.le_refl laid_in_single l4_vs_no_locations laid_in_Suc vs_in_no_locations intro!: fresh_atI)

lemma ingress_step_fresh: "ingress_step env ing st = Some st' \<Longrightarrow> fresh_at lo st st'"
  by (erule ingress_step_cases) (auto simp: fresh_grow.le_refl intro: l4_step_fresh fresh_grow.foldM_le rule_step_fresh)

lemma redirect_path_step_fresh: "fresh_at lo st (redirect_path_step anns n va path st)"
proof (cases "map_of (srvLocMap st) (n @ ''_'' @ hp_Path path)")
  case None
  then show ?thesis
    by (intro fresh_atI)
      (auto simp: redirect_path_step_def Let_def intro!: laid_in_upd_vs range_Suc vs_in_add intro: laid_in_Suc)
qed (simp add: redirect_path_step_def Let_def fresh_grow.le_refl)

lemma redirect_rule_step_fresh: "redirect_rule_step env anns rule st = Some st' \<Longrightarrow> fresh_at lo st st'"
proof -
  have n: "vs_Locations (zero_VirtualService\<lparr>vs_Listening := ls, vs_ServerName := n\<rparr>) = []" for ls n
    by (simp add: zero_VirtualService_def)
  assume "redirect_rule_step env anns rule st = Some st'"
  then show ?thesis unfolding redirect_rule_step_def Let_def
    by (auto split: prod.splits option.splits
        intro: fresh_grow.le_trans [OF get_vs_fresh [OF n]] fresh_grow.fold_le redirect_path_step_fresh)
qed

lemma redirect_step_fresh: "redirect_step env ing st = Some st' \<Longrightarrow> fresh_at lo st st'"
  unfolding redirect_step_def Let_def
  by (auto simp: fresh_grow.le_refl split: option.splits bool.splits if_splits
      intro: fresh_grow.foldM_le redirect_rule_step_fresh)

lemma ListVirtualService_laid:
  assumes "ListVirtualService env g a = Some st"
  shows "a \<le> fresh st" "laid_in {a..<fresh st} (l7vs st)" "laid_in {a..<fresh st} (l4vs st)"
proof -
  obtain s where s: "foldM (ingress_step env) (env_Ingresses env) (init_lvs g a) = Some s"
      "foldM (redirect_step env) (env_Ingresses env) s = Some st"
    using assms by (auto simp: ListVirtualService_def split: option.splits)
  have "fresh_at a (init_lvs g a) st"
    using fresh_grow.le_trans [OF fresh_grow.foldM_le [OF s(1) ingress_step_fresh] fresh_grow.foldM_le [OF s(2) redirect_step_fresh]] .
  moreover have "lvs_in a (init_lvs g a)" by (simp add: lvs_in_def init_lvs_def)
  ultimately show "a \<le> fresh st" "laid_in {a..<fresh st} (l7vs st)" "laid_in {a..<fresh st} (l4vs st)"
    by (auto simp: fresh_at_def lvs_in_def)
qed

section \<open>What it means that a server is running already\<close>

text \<open>
  \<open>loc_runs l m\<close> and \<open>vs_runs v w\<close>: what nginx was told by \<open>l\<close> (or \<open>v\<close>) is what \<open>m\<close> (or \<open>w\<close>) says,
  without regard to addresses.
\<close>

definition cond_runs :: "Condition \<Rightarrow> Condition \<Rightarrow> bool" where
  "cond_runs c d \<longleftrightarrow> cd_Type c = cd_Type d \<and> length (cd_Value c) = length (cd_Value d) \<and>
     (\<forall>(k, x) \<in> set (cd_Value d). map_of (cd_Value c) k = Some x)"

definition loc_runs :: "Location \<Rightarrow> Location \<Rightarrow> bool" where
  "loc_runs l m \<longleftrightarrow> lo_Path l = lo_Path m \<and> length (lo_NameCondition l) = length (lo_NameCondition m) \<and>
     (\<forall>n a c. (n, Ptr a c) \<in> set (lo_NameCondition l) \<longrightarrow>
        (\<exists>b d. map_of (lo_NameCondition m) n = Some (Ptr b d) \<and> cond_runs c d))"

definition vs_runs :: "VirtualService \<Rightarrow> VirtualService \<Rightarrow> bool" where
  "vs_runs v w \<longleftrightarrow> vs_ServerName v = vs_ServerName w \<and> vs_Protocol v = vs_Protocol w \<and> vs_PoolName v = vs_PoolName w \<and>
     Namespace (vs_Meta v) = Namespace (vs_Meta w) \<and> ServiceID (vs_Meta v) = ServiceID (vs_Meta w) \<and>
     is_nil (vs_SSLCert v) = is_nil (vs_SSLCert w) \<and>
     length (vs_Listening v) = length (vs_Listening w) \<and> set (vs_Listening v) \<subseteq> set (vs_Listening w) \<and>
     length (vs_Locations v) = length (vs_Locations w) \<and>
     (\<forall>a l. Ptr a l \<in> set (vs_Locations v) \<longrightarrow> (\<exists>b m. Ptr b m \<in> set (vs_Locations w) \<and> loc_runs l m))"

definition runs :: "VirtualService ptr list \<Rightarrow> VirtualService ptr list \<Rightarrow> bool" where
  "runs old new \<longleftrightarrow> length old = length new \<and>
     (\<forall>a v. Ptr a v \<in> set old \<longrightarrow> (\<exists>b w. Ptr b w \<in> set new \<and> vs_runs v w))"

lemma ptr_eq_Ptr: "ptr_eq (Ptr a x) q \<Longrightarrow> \<exists>b y. q = Ptr b y"
  by (cases q) auto

lemma Condition_Equals_runs:
  assumes "Condition_Equals q (Ptr a c)" "\<And>b d. q = Ptr b d \<Longrightarrow> b \<noteq> a"
  shows "\<exists>b d. q = Ptr b d \<and> cond_runs c d"
  using assms by (cases q) (auto simp: cond_runs_def list_all_iff)

lemma Location_Equals_runs:
  assumes "Location_Equals (Ptr a l) (Ptr b m)" "a \<noteq> b" "loc_in A l" "loc_in B m" "A \<inter> B = {}"
  shows "loc_runs l m"
proof -
  have e: "lo_Path l = lo_Path m" "length (lo_NameCondition l) = length (lo_NameCondition m)"
    and c: "\<And>n lc. (n, lc) \<in> set (lo_NameCondition l) \<Longrightarrow> \<exists>cc. map_of (lo_NameCondition m) n = Some cc \<and> Condition_Equals cc lc"
    using assms(1,2) by (auto simp: list_all_iff split: option.splits)
  have "\<exists>e d. map_of (lo_NameCondition m) n = Some (Ptr e d) \<and> cond_runs x d"
    if x: "(n, Ptr k x) \<in> set (lo_NameCondition l)" for n k x
  proof -
    obtain cc where cc: "map_of (lo_NameCondition m) n = Some cc" "Condition_Equals cc (Ptr k x)" using c [OF x] by blast
    have "k \<in> A" using x assms(3) by (auto simp: loc_in_def)
    moreover have "e \<in> B" if "cc = Ptr e d" for e d
      using that cc(1) assms(4) by (auto simp: loc_in_def dest!: map_of_SomeD)
    ultimately show ?thesis using Condition_Equals_runs [OF cc(2)] cc(1) assms(5) by blast
  qed
  with e show ?thesis by (simp add: loc_runs_def)
qed

lemma VirtualService_Equals_runs:
  assumes "VirtualService_Equals (Ptr a v) (Ptr b w)" "a \<noteq> b" "vs_in A v" "vs_in B w" "A \<inter> B = {}"
  shows "vs_runs v w"
proof -
  have "\<exists>e m. Ptr e m \<in> set (vs_Locations w) \<and> loc_runs l m" if l: "Ptr d l \<in> set (vs_Locations v)" for d l
  proof -
    have "covers Location_Equals (vs_Locations v) (vs_Locations w)" using assms(1,2) by simp
    then obtain q where q: "q \<in> set (vs_Locations w)" "Location_Equals (Ptr d l) q" using l by (auto simp: covers_iff)
    obtain e m where m: "q = Ptr e m" using q(2) by (cases q rule: ptr.exhaust) auto
    have "d \<in> A" "loc_in A l" "e \<in> B" "loc_in B m" using l q(1) m assms(3,4) by (auto simp: vs_in_def)
    then show ?thesis using Location_Equals_runs [of d l e m A B] q m assms(5) by blast
  qed
  moreover have "is_nil (vs_SSLCert v) = is_nil (vs_SSLCert w)"
    using assms(1,2) by (cases "vs_SSLCert v" rule: ptr.exhaust; cases "vs_SSLCert w" rule: ptr.exhaust) auto
  ultimately show ?thesis using assms(1,2) by (auto simp: vs_runs_def covers_iff)
qed

lemma covers_runs:
  assumes "covers VirtualService_Equals old new" "laid_in A old" "laid_in B new" "A \<inter> B = {}"
  shows "runs old new"
proof -
  have "\<exists>b w. Ptr b w \<in> set new \<and> vs_runs v w" if v: "Ptr a v \<in> set old" for a v
  proof -
    obtain q where q: "q \<in> set new" "VirtualService_Equals (Ptr a v) q" using v assms(1) by (auto simp: covers_iff)
    obtain b w where w: "q = Ptr b w" using q(2) by (cases q rule: ptr.exhaust) auto
    have "a \<in> A" "vs_in A v" "b \<in> B" "vs_in B w" using v q(1) w assms(2,3) by (auto simp: laid_in_def)
    then show ?thesis using VirtualService_Equals_runs [of a v b w A B] q w assms(4) by blast
  qed
  with assms(1) show ?thesis by (simp add: runs_def covers_iff)
qed

text \<open>When the names are distinct on both sides, the servers of the listing are all running.\<close>

definition vs_names :: "VirtualService ptr list \<Rightarrow> string option list" where
  "vs_names ps = map (map_option vs_ServerName \<circ> ptr_val) ps"

lemma runs_onto:
  assumes "runs old new" "distinct (vs_names old)" "distinct (vs_names new)" "NilPtr \<notin> set old" "Ptr b w \<in> set new"
  shows "\<exists>a v. Ptr a v \<in> set old \<and> vs_runs v w"
proof -
  have p: "\<exists>a v q. p = Ptr a v \<and> q \<in> set new \<and> (\<exists>b w. q = Ptr b w \<and> vs_runs v w \<and> vs_ServerName w = vs_ServerName v)"
    if "p \<in> set old" for p
    using that assms(1,4) by (cases p rule: ptr.exhaust) (auto simp: runs_def vs_runs_def, metis)
  have sub: "set (vs_names old) \<subseteq> set (vs_names new)"
    using p by (force simp: vs_names_def)
  have "length (vs_names old) = length (vs_names new)" using assms(1) by (simp add: vs_names_def runs_def)
  then have "set (vs_names old) = set (vs_names new)"
    using sub assms(2,3) by (metis List.finite_set card_subset_eq distinct_card)
  moreover have "Some (vs_ServerName w) \<in> set (vs_names new)" using assms(5) by (force simp: vs_names_def)
  ultimately have "Some (vs_ServerName w) \<in> (map_option vs_ServerName \<circ> ptr_val) ` set old" by (simp add: vs_names_def)
  then obtain p where q: "p \<in> set old" "map_option vs_ServerName (ptr_val p) = Some (vs_ServerName w)"
    by (auto elim!: imageE simp del: map_option_eq_Some)
  from p [OF q(1)] obtain a v c u where v: "p = Ptr a v" "Ptr c u \<in> set new" "vs_runs v u" "vs_ServerName u = vs_ServerName v"
    by blast
  have "(map_option vs_ServerName \<circ> ptr_val) (Ptr c u) = (map_option vs_ServerName \<circ> ptr_val) (Ptr b w)" using q v by simp
  moreover have "inj_on (map_option vs_ServerName \<circ> ptr_val) (set new)" using assms(3) by (simp add: vs_names_def distinct_map)
  ultimately have "Ptr c u = Ptr b w" using assms(5) v(2) by (metis inj_onD)
  with v q(1) show ?thesis by blast
qed

section \<open>The running configuration\<close>

text \<open>
  The running configuration of a controller is a former listing: it was allocated below \<open>gc_next\<close> and
  its L7 servers have different names.
\<close>

definition running_ok :: "gw_controller \<Rightarrow> bool" where
  "running_ok gwc \<longleftrightarrow> (\<forall>a c. gc_rcfg gwc = Ptr a c \<longrightarrow> a < gc_next gwc \<and>
     laid_in {..<gc_next gwc} (L7VS c) \<and> laid_in {..<gc_next gwc} (L4VS c) \<and>
     NilPtr \<notin> set (L7VS c) \<and> distinct (vs_names (L7VS c)))"

text \<open>What is running is what the listing has, by the gateway's own test of the servers.\<close>

definition up_to_date :: "gw_controller \<Rightarrow> lvs \<Rightarrow> bool" where
  "up_to_date gwc st \<longleftrightarrow> (\<exists>old. ptr_val (gc_rcfg gwc) = Some old \<and>
     covers VirtualService_Equals (L7VS old) (l7vs st) \<and> covers VirtualService_Equals (L4VS old) (l4vs st))"

interpretation addr_grow: growing "\<lambda>s t :: 'm \<times> nat. snd s \<le> snd t"
  by unfold_locales auto

lemma ListPool_up:
  assumes "ListPool rng env g a = (hp, tp, a')"
  shows "a \<le> a'"
proof -
  have p: "snd s \<le> snd (pool_step new pm ep b s)" for new pm ep b s
    by (cases s) (simp add: pool_step_def Let_def)
  have "snd s \<le> snd (endpoint_step new pm bm ep s)" for new pm bm ep s
    by (simp add: endpoint_step_def addr_grow.fold_le p)
  then have "snd s \<le> snd (fold (endpoint_step new pm bm) eps s)" for new pm bm eps s
    by (rule addr_grow.fold_le)
  from this [where s = "([], a)"] this show ?thesis
    using assms by (auto simp: ListPool_def Let_def split: prod.splits) (metis order_trans snd_conv trans_le_add1)
qed

lemma sync_cases:
  assumes "\<not> gc_shutdown gwc" "ListVirtualService env (gc_globals gwc) (gc_next gwc) = Some st" "gs_Reload gs = None"
    and "syncGateway gs rng env gwc = Some gwc'"
  obtains (Same) a conf where "L7VS conf = l7vs st" "L4VS conf = l4vs st" "fresh st \<le> a" "gc_next gwc' = a + 1"
      "Config_Equals (gc_rcfg gwc) (Ptr a conf)" "gc_rcfg gwc' = gc_rcfg gwc" "gc_fs gwc' = gc_fs gwc"
  | (Written) a conf where "L7VS conf = l7vs st" "L4VS conf = l4vs st" "fresh st \<le> a" "gc_next gwc' = a + 1"
      "\<not> Config_Equals (gc_rcfg gwc) (Ptr a conf)" "gc_rcfg gwc' = Ptr a conf"
      "PersistConfig (gs_io gs) (gs_templates gs) (gs_config gs) None conf (gc_fs gwc) = Some (None, gc_fs gwc')"
proof -
  obtain hp tp a where lp: "ListPool rng env (globals st) (fresh st) = (hp, tp, a)" by (cases "ListPool rng env (globals st) (fresh st)")
  define conf where "conf = \<lparr>HTTPPools = hp, TCPPools = tp, L7VS = l7vs st, L4VS = l4vs st\<rparr>"
  have c: "L7VS conf = l7vs st" "L4VS conf = l4vs st" by (simp_all add: conf_def)
  have up: "fresh st \<le> a" by (rule ListPool_up [OF lp])
  obtain e sent posted where u: "UpdatePools (gs_post gs) (hp @ gc_rrhp gwc) (tp @ gc_rrtp gwc) = Some (e, sent, posted)"
    using assms lp by (auto simp: syncGateway_def Let_def split: option.splits)
  show thesis
  proof (cases "Config_Equals (gc_rcfg gwc) (Ptr a conf)")
    case True
    with assms lp u have "gc_rcfg gwc' = gc_rcfg gwc" "gc_fs gwc' = gc_fs gwc" "gc_next gwc' = a + 1"
      by (auto simp: syncGateway_def Let_def conf_def)
    with True c up show thesis by (intro Same)
  next
    case False
    obtain r fs where p: "PersistConfig (gs_io gs) (gs_templates gs) (gs_config gs) (gs_Reload gs) conf (gc_fs gwc) = Some (r, fs)"
      using assms lp u False by (auto simp: syncGateway_def Let_def conf_def split: option.splits)
    then have r: "r = None" using assms(3) by (auto simp: PersistConfig_def split: prod.splits)
    obtain rem hosts where g: "getHosts (gc_rcfg gwc) (Ptr a conf) = Some (rem, hosts)"
      using assms lp u False p r by (auto simp: syncGateway_def Let_def conf_def split: option.splits)
    have "gc_rcfg gwc' = Ptr a conf \<and> gc_fs gwc' = fs \<and> gc_next gwc' = a + 1"
      using assms lp u False p r g by (auto simp: syncGateway_def Let_def conf_def)
    with False p r assms(3) c up show thesis by (intro Written) simp_all
  qed
qed

lemma Config_Equals_up_to_date:
  assumes "running_ok gwc" "gc_next gwc \<le> a" "L7VS conf = l7vs st" "L4VS conf = l4vs st"
  shows "Config_Equals (gc_rcfg gwc) (Ptr a conf) \<longleftrightarrow> up_to_date gwc st"
  using assms by (cases "gc_rcfg gwc" rule: ptr.exhaust) (auto simp: running_ok_def up_to_date_def)

lemma up_to_date_runs:
  assumes "running_ok gwc" "up_to_date gwc st" "ListVirtualService env g (gc_next gwc) = Some st"
    and "distinct (vs_names (l7vs st))"
  obtains old where "ptr_val (gc_rcfg gwc) = Some old" "runs (L7VS old) (l7vs st)" "runs (L4VS old) (l4vs st)"
    "\<And>b w. Ptr b w \<in> set (l7vs st) \<Longrightarrow> \<exists>a v. Ptr a v \<in> set (L7VS old) \<and> vs_runs v w"
proof -
  obtain old where o: "ptr_val (gc_rcfg gwc) = Some old" "covers VirtualService_Equals (L7VS old) (l7vs st)"
      "covers VirtualService_Equals (L4VS old) (l4vs st)"
    using assms(2) by (auto simp: up_to_date_def)
  then obtain a where "gc_rcfg gwc = Ptr a old" by (cases "gc_rcfg gwc" rule: ptr.exhaust) auto
  with assms(1) have r: "laid_in {..<gc_next gwc} (L7VS old)" "laid_in {..<gc_next gwc} (L4VS old)"
      "NilPtr \<notin> set (L7VS old)" "distinct (vs_names (L7VS old))"
    by (auto simp: running_ok_def)
  have d: "{..<gc_next gwc} \<inter> {gc_next gwc..<fresh st} = {}" by auto
  note l = ListVirtualService_laid [OF assms(3)]
  have "runs (L7VS old) (l7vs st)" "runs (L4VS old) (l4vs st)"
    by (rule covers_runs [OF o(2) r(1) l(2) d], rule covers_runs [OF o(3) r(2) l(3) d])
  with o(1) runs_onto [OF this(1) r(4) assms(4) r(3)] that show thesis by blast
qed

text \<open>A sync keeps the running configuration a former listing.\<close>

lemma running_ok_Same:
  "running_ok gwc \<Longrightarrow> gc_rcfg gwc' = gc_rcfg gwc \<Longrightarrow> gc_next gwc \<le> gc_next gwc' \<Longrightarrow> running_ok gwc'"
  unfolding running_ok_def by (metis laid_in_mono lessThan_subset_iff order_less_le_trans)

lemma running_ok_Written:
  assumes "gc_rcfg gwc' = Ptr a conf" "gc_next gwc' = a + 1" "L7VS conf = l7vs st" "L4VS conf = l4vs st" "fresh st \<le> a"
    and "ListVirtualService env g b = Some st" "NilPtr \<notin> set (l7vs st)" "distinct (vs_names (l7vs st))"
  shows "running_ok gwc'"
proof -
  have "{b..<fresh st} \<subseteq> {..<gc_next gwc'}" using assms(2,5) by auto
  then have "laid_in {..<gc_next gwc'} (l7vs st)" "laid_in {..<gc_next gwc'} (l4vs st)"
    using laid_in_mono ListVirtualService_laid [OF assms(6)] by blast+
  with assms show ?thesis by (simp add: running_ok_def)
qed

end
