(* ===== verification/ServerProps.thy ===== *)
theory ServerProps
  imports GatewayProps GwRunning
begin

text \<open>
  The properties of the rest of the gateway: what the annotations of an ingress become, what the
  equality tests decide, what is written for nginx, and when the controller writes it.
\<close>

section \<open>Annotations\<close>

definition ex_ing :: "(string, string) gomap \<Rightarrow> Ingress" where
  "ex_ing as = \<lparr>ing_Meta = \<lparr>om_Name = ''web'', om_Namespace = ''ns'', om_ResourceVersion = ''1'',
     om_Annotations = map (\<lambda>(k, v). (GetAnnotationWithPrefix k, v)) as, om_Labels = []\<rparr>,
     ing_Backend = None, ing_TLS = [], ing_Rules = []\<rparr>"

lemma ex_ing_ann: "ann (ex_ing as) k = map_of as k"
  by (induction as) (auto simp: ex_ing_def ann_def)

lemma ex_ing_wf: "wf_map as \<Longrightarrow> wf_map (om_Annotations (ing_Meta (ex_ing as)))"
  by (induction as) (auto simp: ex_ing_def wf_map_def image_iff)

text \<open>
  The header condition is a round trip: from the text \<open>k1=v1;k2=v2\<close> of a set of clean pairs the
  parser reads back these pairs, in order, and a text that yields any pairs yields distinct keys and
  clean keys and values only.
\<close>

theorem header_condition_roundtrip:
  "(kvs \<noteq> [] \<and> wf_map kvs \<and> cleans kvs \<and> ann ing ''header'' = Some (render kvs) \<longrightarrow>
      header_Parse (Some ing) = Inr \<lparr>hc_Header = Some kvs\<rparr>) \<and>
   (header_Parse (Some ing) = Inr \<lparr>hc_Header = Some m\<rparr> \<longrightarrow> m \<noteq> [] \<and> wf_map m \<and> cleans m)"
  using header_transform_render header_transform_Some
  by (auto simp: header_Parse_def get_ann split: option.splits)

theorem header_condition_roundtrip_witness:
  "cleans [(''a'', ''1''), (''b'', ''2'')] \<and> render [(''a'', ''1''), (''b'', ''2'')] = ''a=1;b=2'' \<and>
   header_Parse (Some (ex_ing [(''header'', ''a=1;b=2'')])) = Inr \<lparr>hc_Header = Some [(''a'', ''1''), (''b'', ''2'')]\<rparr>"
proof -
  have r: "render [(''a'', ''1''), (''b'', ''2'')] = ''a=1;b=2''" by (simp add: render_def)
  have c: "cleans [(''a'', ''1''), (''b'', ''2'')]" by (simp add: cleans_def clean_def)
  show ?thesis
    using header_condition_roundtrip [of "[(''a'', ''1''), (''b'', ''2'')]" "ex_ing [(''header'', ''a=1;b=2'')]"] c r
    by (simp add: ex_ing_ann wf_map_def)
qed

text \<open>
  An L4 configuration that is enabled has a port of the TCP range; when the annotation asks for
  any other port the parser fails, and without the annotation the configuration is disabled.
\<close>

theorem l4_Parse_port:
  "case l4_Parse (Some ing) of
     Inr c \<Rightarrow> L4Host c \<noteq> [] \<and> (if L4Enable c then 0 < L4Port c \<and> L4Port c \<le> 65535 \<and>
         (\<exists>v. ann ing ''l4-enable'' = Some v \<and> ParseBool v = Some True) \<and>
         (\<exists>v. ann ing ''l4-port'' = Some v \<and> Atoi v = Some (L4Port c))
       else (\<forall>v. ann ing ''l4-enable'' = Some v \<longrightarrow> ParseBool v \<noteq> Some True))
   | Inl e \<Rightarrow> \<exists>p. e = ErrorL4Port p \<and> (p \<le> 0 \<or> 65535 < p)"
  by (auto simp: l4_Parse_def Let_def get_ann value_or_def split: option.splits if_splits)

theorem l4_Parse_port_witness:
  "\<exists>c. l4_Parse (Some (ex_ing [(''l4-enable'', ''true''), (''l4-port'', ''5000'')])) = Inr c \<and> L4Enable c \<and>
     L4Port c = 5000 \<and> L4Port c \<le> 65535"
proof -
  have "Atoi ''5000'' = Some 5000" using Atoi_Itoa [of 5000] by simp
  then show ?thesis
    using l4_Parse_port [of "ex_ing [(''l4-enable'', ''true''), (''l4-port'', ''5000'')]"]
    by (auto simp: ex_ing_ann l4_Parse_def Let_def get_ann value_or_def ParseBool_def split: sum.splits if_splits)
qed

text \<open>
  The headers set for upstream: a header of the annotations (\<open>set-header-\<close> and its name) wins
  over the default of the same name, the value \<open>empty\<close> stands for no value, and every other default
  is kept. Every other field is the annotation, or the default when it is missing or malformed.
\<close>

theorem proxy_headers:
  assumes "wf_map (om_Annotations (ing_Meta ing))" "wf_map (be_ProxySetHeaders def)" "h \<noteq> []"
  shows "case proxy_Parse def (Some ing) of
      Inl _ \<Rightarrow> False
    | Inr p \<Rightarrow> wf_proxy p \<and>
        map_of (px_SetHeaders p) h =
          (case ann ing (''set-header-'' @ h) of
             Some v \<Rightarrow> Some (if v = ''empty'' then [] else v)
           | None \<Rightarrow> map_of (be_ProxySetHeaders def) h) \<and>
        px_ReadTimeout p = (case ann ing ''proxy-read-timeout'' of
           None \<Rightarrow> be_ProxyReadTimeout def
         | Some v \<Rightarrow> (case Atoi v of None \<Rightarrow> be_ProxyReadTimeout def | Some i \<Rightarrow> i))"
proof -
  let ?hs = "value_or [] (GetStringAnnotationWithPrefix ''set-header-'' (Some ing))"
  obtain p where p: "proxy_Parse def (Some ing) = Inr p"
    "px_SetHeaders p = setHeaders ?hs (copyHeaders (be_ProxySetHeaders def) [])"
    "px_ReadTimeout p = value_or (be_ProxyReadTimeout def) (GetIntAnnotation ''proxy-read-timeout'' (Some ing))"
    by (simp add: proxy_Parse_def)
  have "map_of (px_SetHeaders p) h = (case map_of ?hs h of
      Some v \<Rightarrow> Some (if v = ''empty'' then [] else v) | None \<Rightarrow> map_of (be_ProxySetHeaders def) h)"
    unfolding p(2) map_of_setHeaders [OF wf_GetStringAnnotationWithPrefix] map_of_copyHeaders [OF assms(2)]
    by (auto split: option.splits)
  moreover have "map_of ?hs h = ann ing (''set-header-'' @ h)"
    by (rule GetStringAnnotationWithPrefix_spec [OF assms(1,3)])
  moreover have "wf_proxy p" by (rule proxy_Parse_wf [OF p(1)])
  ultimately show ?thesis
    by (simp add: p(1,3) get_ann value_or_def split: option.splits)
qed

theorem proxy_headers_witness:
  "case proxy_Parse NewDefault (Some (ex_ing [(''set-header-X'', ''empty'')])) of
     Inl _ \<Rightarrow> False | Inr p \<Rightarrow> wf_proxy p \<and> map_of (px_SetHeaders p) ''X'' = Some []"
proof -
  have w: "wf_map (om_Annotations (ing_Meta (ex_ing [(''set-header-X'', ''empty'')])))" "wf_map (be_ProxySetHeaders NewDefault)"
    by (rule ex_ing_wf, simp add: wf_map_def, simp add: NewDefault_def wf_map_def)
  show ?thesis using proxy_headers [OF w, of "''X''"] by (simp add: ex_ing_ann split: sum.splits)
qed

text \<open>
  The rewrites of an ingress are, in whatever order the code meets the annotations, one per group
  \<open>rewrite-N-\<close>, with the regular expression, replacement and flag of that group.
\<close>

theorem rewrites_by_group:
  assumes "is_range rng" "unambiguous (value_or [] (GetStringAnnotationWithPrefix ''rewrite-'' (Some ing)))"
  shows "case rewrite_Parse rng def (Some ing) of
      Inl _ \<Rightarrow> False
    | Inr c \<Rightarrow> set (rc_Rewrites c) =
        {rewrite_of kvs a | kvs a k v b. kvs = value_or [] (GetStringAnnotationWithPrefix ''rewrite-'' (Some ing)) \<and>
           (k, v) \<in> set kvs \<and> rewrite_key k = Some (a, b)}"
  using set_convert [OF assms] by (auto simp: rewrite_Parse_def)

theorem rewrites_by_group_witness:
  "case rewrite_Parse rev NewDefault (Some (ex_ing [(''rewrite-1-regex'', ''^'')])) of
     Inl _ \<Rightarrow> False | Inr c \<Rightarrow> set (rc_Rewrites c) = {\<lparr>rw_Regex = ''^'', rw_Replacement = [], rw_Flag = []\<rparr>}"
proof -
  have v: "value_or [] (GetStringAnnotationWithPrefix ''rewrite-'' (Some (ex_ing [(''rewrite-1-regex'', ''^'')]))) = [(''1-regex'', ''^'')]"
    by (simp add: GetStringAnnotationWithPrefix_def value_or_def checkAnnotation_def GetAnnotations_def ex_ing_def
        GetAnnotationWithPrefix_def AnnotationsPrefix_def Let_def)
  have k: "rewrite_key ''1-regex'' = Some (''1'', ''regex'')" by (simp add: rewrite_key.simps)
  have u: "unambiguous (value_or [] (GetStringAnnotationWithPrefix ''rewrite-'' (Some (ex_ing [(''rewrite-1-regex'', ''^'')]))))"
    unfolding v by (simp add: unambiguous_def wf_map_def)
  show ?thesis
    using rewrites_by_group [OF is_range_rev u, of NewDefault] k
    by (simp add: v rewrite_of_def rewrite_val_def rewrite_key.simps split: sum.splits)
qed

definition ex_merge :: "ann_Ingress \<Rightarrow> (string, ann_value) gomap \<Rightarrow> ann_Ingress" where
  "ex_merge a d =
     \<lparr>an_Meta = an_Meta a,
      an_Header = (case map_of d ''Header'' of Some (VHeader c) \<Rightarrow> c | _ \<Rightarrow> an_Header a),
      an_Cookie = (case map_of d ''Cookie'' of Some (VCookie c) \<Rightarrow> c | _ \<Rightarrow> an_Cookie a),
      an_Weight = (case map_of d ''Weight'' of Some (VWeight c) \<Rightarrow> c | _ \<Rightarrow> an_Weight a),
      an_Rewrite = (case map_of d ''Rewrite'' of Some (VRewrite c) \<Rightarrow> c | _ \<Rightarrow> an_Rewrite a),
      an_L4 = (case map_of d ''L4'' of Some (VL4 c) \<Rightarrow> c | _ \<Rightarrow> an_L4 a),
      an_UpstreamHashBy = (case map_of d ''UpstreamHashBy'' of Some (VString c) \<Rightarrow> c | _ \<Rightarrow> an_UpstreamHashBy a),
      an_LoadBalancingType = (case map_of d ''LoadBalancingType'' of Some (VString c) \<Rightarrow> c | _ \<Rightarrow> an_LoadBalancingType a),
      an_Proxy = (case map_of d ''Proxy'' of Some (VProxy c) \<Rightarrow> c | _ \<Rightarrow> an_Proxy a)\<rparr>"

lemma an_Meta_empty [simp]: "an_Meta (empty_ann m) = m"
  by (simp add: empty_ann_def)

lemma ex_merge_ok: "merge_ok ex_merge"
  by (simp add: merge_ok_def ex_merge_def)

text \<open>
  The extractor gives every field of the gateway's annotations what its parser returns, and the
  zero value when the parser fails, in whatever order the parsers run: a malformed annotation never
  affects another one.
\<close>

theorem Extract_fields:
  assumes "merge_ok merge" "is_range prng"
  shows "Extract merge prng rng def ing =
    \<lparr>an_Meta = ing_Meta ing,
     an_Header = value_or \<lparr>hc_Header = None\<rparr> (header_Parse (Some ing)),
     an_Cookie = value_or \<lparr>cc_Cookie = None\<rparr> (cookie_Parse (Some ing)),
     an_Weight = value_or \<lparr>wc_Weight = 0\<rparr> (weight_Parse (Some ing)),
     an_Rewrite = value_or zero_rewrite (rewrite_Parse rng def (Some ing)),
     an_L4 = value_or zero_l4 (l4_Parse (Some ing)),
     an_UpstreamHashBy = value_or [] (upstreamhashby_Parse (Some ing)),
     an_LoadBalancingType = value_or [] (lbtype_Parse (Some ing)),
     an_Proxy = value_or zero_proxy (proxy_Parse def (Some ing))\<rparr>"
  by (rule Extract_spec [OF assms])

theorem Extract_fields_witness:
  "merge_ok ex_merge \<and> is_range (rev :: (string, ann_error + ann_value) gomap \<Rightarrow> _) \<and>
   an_Header (Extract ex_merge rev rev NewDefault (ex_ing [(''l4-enable'', ''maybe''), (''header'', ''a=1'')])) =
     \<lparr>hc_Header = Some [(''a'', ''1'')]\<rparr>"
  using Extract_fields [OF ex_merge_ok is_range_rev, of rev NewDefault "ex_ing [(''l4-enable'', ''maybe''), (''header'', ''a=1'')]"]
    ex_merge_ok
  by (simp add: is_range_rev header_Parse_def get_ann ex_ing_ann value_or_def header_transform_def Let_def)

section \<open>Equality of configurations\<close>

definition ex_config :: "nat \<Rightarrow> Config" where
  "ex_config o1 = \<lparr>HTTPPools = [], TCPPools = [], L7VS = [Ptr (o1 + 4) ex_plain_server], L4VS = [Ptr (o1 + 3) ex_tcp_server]\<rparr>"

definition ex_heap :: "nat \<Rightarrow> VirtualService" where
  "ex_heap a = (if a mod 10 = 4 then ex_plain_server else ex_tcp_server)"

lemma ex_config_wf: "o1 mod 10 = 0 \<Longrightarrow> wf_config cn HC (\<lambda>_. ex_redirect) ex_heap (ex_config o1)"
  by (auto simp: wf_config_def ex_config_def wf_ptr_def ex_heap_def wf_vs_def wf_loc_def wf_cert_def wf_proxy_def
      no_empty_header_def ex_plain_server_def ex_tcp_server_def ex_redirect_def zero_VirtualService_def zero_proxy_def wf_map_def mod_add_eq)

text \<open>
  The test by which the controller decides whether to write a configuration is exact on configurations
  without duplicates (\<open>wf_config\<close>): on two such configurations of one heap \<open>Config.Equals\<close> holds if and only if the two have the same server
  views, that is the same fields, listening addresses, locations and conditions, regardless of the
  order of servers, locations and conditions.
\<close>

theorem Config_Equals_exact:
  assumes "wf_config cn HC HL HV cfg" "wf_config cn HC HL HV c" "a \<noteq> b"
  shows "Config_Equals (Ptr a cfg) (Ptr b c) \<longleftrightarrow>
    pvs_view ` set (L7VS cfg) = pvs_view ` set (L7VS c) \<and> pvs_view ` set (L4VS cfg) = pvs_view ` set (L4VS c)"
  using Config_Equals_view [OF assms] by (simp add: config_view_def)

theorem Config_Equals_exact_witness:
  "wf_config (\<lambda>_. []) (\<lambda>_. undefined) (\<lambda>_. ex_redirect) ex_heap (ex_config 0) \<and>
   wf_config (\<lambda>_. []) (\<lambda>_. undefined) (\<lambda>_. ex_redirect) ex_heap (ex_config 10) \<and>
   Config_Equals (Ptr 0 (ex_config 0)) (Ptr 1 (ex_config 10))"
proof -
  have w: "wf_config (\<lambda>_. []) (\<lambda>_. undefined) (\<lambda>_. ex_redirect) ex_heap (ex_config 0)"
    "wf_config (\<lambda>_. []) (\<lambda>_. undefined) (\<lambda>_. ex_redirect) ex_heap (ex_config 10)"
    by (rule ex_config_wf, simp)+
  have "Config_Equals (Ptr 0 (ex_config 0)) (Ptr 1 (ex_config 10))"
    using Config_Equals_exact [OF w, of 0 1] by (simp add: ex_config_def ptr_view_def)
  with w show ?thesis by blast
qed

text \<open>
  On the certificates the store makes, \<open>SSLCert.Equals\<close> is identity of pointers: two separately
  read copies of one certificate are never equal, because the loop over the common names looks for a
  different name.
\<close>

theorem SSLCert_Equals_identity:
  assumes "wf_cert cn p" "wf_cert cn q"
  shows "SSLCert_Equals p q \<longleftrightarrow> ptr_addr p = ptr_addr q"
  by (rule SSLCert_Equals_ptr_eq [OF assms])

theorem SSLCert_Equals_identity_witness:
  "wf_cert (\<lambda>_. ''a.com'') ex_cert \<and> wf_cert (\<lambda>_. ''a.com'') (Ptr 200 (the (ptr_val ex_cert))) \<and>
   \<not> SSLCert_Equals ex_cert (Ptr 200 (the (ptr_val ex_cert)))"
proof -
  have w: "wf_cert (\<lambda>_. ''a.com'') ex_cert" "wf_cert (\<lambda>_. ''a.com'') (Ptr 200 (the (ptr_val ex_cert)))"
    by (simp_all add: wf_cert_def ex_cert_def ex_x509_def)
  show ?thesis using SSLCert_Equals_identity [OF w] w by (simp add: ex_cert_def)
qed

section \<open>Configuration files\<close>

definition ex_io :: "((string \<rightharpoonup> string) \<Rightarrow> bool) \<Rightarrow> or_io" where
  "ex_io check = \<lparr>io_CheckAndCreateDir = (\<lambda>_. None), io_ReadFile = (\<lambda>_. None), io_Rename = (\<lambda>_ _. None), io_OpenFile = (\<lambda>_. None),
     io_Write = (\<lambda>b. (length b, None)), io_Remove = (\<lambda>_. None), io_CheckConfig = check\<rparr>"

lemma ex_io_ok: "io_ok (ex_io check)" "io_CheckConfig (ex_io check) = check"
  by (simp_all add: io_ok_def ex_io_def)

text \<open>
  C26: rewriting a configuration file is all or nothing while the file operations succeed: when
  nginx accepts the new text the file holds exactly that text and the backup is gone, and when nginx
  rejects it the error is reported and the file holds what it held before; no other file changes.
\<close>

theorem writeFile_all_or_nothing:
  assumes "io_ok io" "map_of fs f = Some old"
  shows "case writeFile io True body f fs of
      (None, fs') \<Rightarrow> io_CheckConfig io ((map_of fs)(f \<mapsto> body, f @ ''.bak'' \<mapsto> old)) \<and>
        map_of fs' = (map_of fs)(f \<mapsto> body, f @ ''.bak'' := None)
    | (Some err, fs') \<Rightarrow> err = ErrorCheck \<and> \<not> io_CheckConfig io ((map_of fs)(f \<mapsto> body, f @ ''.bak'' \<mapsto> old)) \<and>
        map_of fs' = (map_of fs)(f @ ''.bak'' := None)"
proof (cases "io_CheckConfig io ((map_of fs)(f \<mapsto> body, f @ ''.bak'' \<mapsto> old))")
  case True
  from writeFile_replaces [OF assms this] True show ?thesis by (cases "writeFile io True body f fs") simp
next
  case False
  from writeFile_rolls_back [OF assms False] False show ?thesis by (cases "writeFile io True body f fs") simp
qed

theorem writeFile_all_or_nothing_witness:
  "io_ok (ex_io (\<lambda>m. m ''a'' = Some ''old'')) \<and>
   (case writeFile (ex_io (\<lambda>m. m ''a'' = Some ''old'')) True ''new'' ''a'' [(''a'', ''old'')] of
      (None, fs') \<Rightarrow> False
    | (Some err, fs') \<Rightarrow> err = ErrorCheck \<and> map_of fs' = (map_of [(''a'', ''old'')])(''a.bak'' := None))"
  using writeFile_all_or_nothing [OF ex_io_ok(1), of "[(''a'', ''old'')]" "''a''" "''old''" "\<lambda>m. m ''a'' = Some ''old''" "''new''"]
  by (auto simp: ex_io_ok split: prod.splits option.splits)

text \<open>
  The first version of a file has no backup to go back to: it is left in place even when nginx
  rejects it, and only the error says so.
\<close>

theorem writeFile_first_version:
  assumes "io_ok io" "map_of fs f = None"
  shows "fst (writeFile io True body f fs) = (if io_CheckConfig io ((map_of fs)(f \<mapsto> body)) then None else Some ErrorCheck) \<and>
    map_of (snd (writeFile io True body f fs)) = (map_of fs)(f \<mapsto> body)"
  using writeFile_fresh [OF assms, of body] by (cases "writeFile io True body f fs") simp

theorem writeFile_first_version_witness:
  "io_ok (ex_io (\<lambda>_. False)) \<and> fst (writeFile (ex_io (\<lambda>_. False)) True ''new'' ''a'' []) = Some ErrorCheck \<and>
   map_of (snd (writeFile (ex_io (\<lambda>_. False)) True ''new'' ''a'' [])) ''a'' = Some ''new''"
  using writeFile_first_version [OF ex_io_ok(1), of "[]" "''a''" "\<lambda>_. False" "''new''"] by (simp add: ex_io_ok)

text \<open>
  Only valid servers are written: the servers of a file have a name without a space, a protocol
  and a stream timeout, and each of their locations has a path, valid headers and the buffer settings
  that nginx needs, defaults included.
\<close>

theorem written_servers_valid:
  "list_all (\<lambda>s. CHR '' '' \<notin> set (ms_ServerName s) \<and> ms_Protocol s \<noteq> [] \<and> ms_ProxyStreamTimeout s \<noteq> [] \<and>
     list_all (\<lambda>l. ml_Path l \<noteq> [] \<and> list_all (\<lambda>(k, v). ct_vname ct k \<and> ct_vval ct v) (px_SetHeaders (ml_Proxy l)) \<and>
       px_BufferSize (ml_Proxy l) \<noteq> [] \<and> px_BuffersNumber (ml_Proxy l) \<noteq> 0 \<and> px_ProxyBuffering (ml_Proxy l) \<noteq> []) (ms_Locations s))
   (valid_servers ct ss)"
proof -
  have "wf_model_server ct s" if "s \<in> set (valid_servers ct ss)" for s using that by (rule valid_servers_wf)
  then show ?thesis by (simp add: list_all_iff wf_model_server_def wf_model_loc_def checkHeaders_None_iff)
qed

text \<open>
  The failover codes of a location: \<open>buildNextUpstream\<close> keeps the words of the annotation in order,
  without empty ones, and puts \<open>non_idempotent\<close> last exactly when the annotation or the caller asks
  for it; applied to its own result it changes nothing.
\<close>

theorem buildNextUpstream_words:
  "buildNextUpstream (IfStr s) (IfBool r) =
     Some (Join (filter (\<lambda>v. v \<noteq> [] \<and> v \<noteq> nonIdempotent) (Split (CHR '' '') s) @
       (if r \<or> nonIdempotent \<in> set (Split (CHR '' '') s) then [nonIdempotent] else [])) '' '') \<and>
   (case buildNextUpstream (IfStr s) (IfBool r) of
      None \<Rightarrow> False | Some t \<Rightarrow> buildNextUpstream (IfStr t) (IfBool False) = Some t)"
  using next_spec_idem [of s r] unfolding buildNextUpstream_Some by (simp add: next_spec_def [of s r])

text \<open>
  The router of a location does not depend on the order in which the code meets its conditions
  when there is at most one condition of each type, which is what the listing builds within one
  namespace.
\<close>

theorem router_order_independent:
  assumes "is_range crng" "one_per_type (ml_NameCondition loc)" "NilPtr \<notin> snd ` set (ml_NameCondition loc)"
  shows "buildLuaHeaderRouter rng crng loc = buildLuaHeaderRouter rng id loc \<and> buildLuaHeaderRouter rng crng loc \<noteq> None"
proof -
  have "buildLuaHeaderRouter rng id loc \<noteq> None" using router_slots [OF assms(3)] by (simp add: buildLuaHeaderRouter_def)
  with buildLuaHeaderRouter_order [OF assms] show ?thesis by metis
qed

definition ex_ocfg :: or_Config where
  "ex_ocfg = \<lparr>oc_ListenPorts = ex_ports, oc_WorkerProcesses = 1, oc_WorkerRlimitNofile = 1, oc_ErrorLog = [],
     oc_AccessLogPath = [], oc_AccessLogFormat = [], oc_ErrorLogLevel = [], oc_WorkerConnections = 1, oc_EnableEpool = False,
     oc_EnableMultiAccept = False, oc_NginxUser = [], oc_ShareMemory = 1, oc_EnableSSLStapling = False\<rparr>"

definition ex_routes :: model_Location where
  "ex_routes = (location_of ex_ocfg ex_loc)\<lparr>ml_NameCondition :=
     [(''n1'', Ptr 1 \<lparr>cd_Type = DefaultType, cd_Value = [(''1'', ''1'')]\<rparr>), (''n2'', Ptr 2 \<lparr>cd_Type = HeaderType, cd_Value = [(''k'', ''v'')]\<rparr>)]\<rparr>"

theorem router_order_independent_witness:
  "is_range (rev :: (string, Condition ptr) gomap \<Rightarrow> _) \<and> one_per_type (ml_NameCondition ex_routes) \<and>
   buildLuaHeaderRouter id rev ex_routes = buildLuaHeaderRouter id id ex_routes"
proof -
  have o: "one_per_type (ml_NameCondition ex_routes)" "NilPtr \<notin> snd ` set (ml_NameCondition ex_routes)"
    by (simp_all add: one_per_type_def ex_routes_def of_type_def HeaderType_def CookieType_def DefaultType_def)
  show ?thesis using router_order_independent [OF is_range_rev o] is_range_rev o(1) by blast
qed

text \<open>
  The name of a server block is the host of the ingress: the prefix \<open>tls\<close> by which the listing
  tells TLS servers apart is taken off again, and a host without these letters is kept as it is. The
  block listens where the virtual service does and has one location for each of its locations.
\<close>

theorem server_block_of_virtual_service:
  assumes "l7_server ocfg vs = Some srv"
  shows "(vs_ServerName vs = ''tls'' @ host \<longrightarrow> ms_ServerName srv = host) \<and>
    (\<not> sublist ''tls'' (vs_ServerName vs) \<longrightarrow> ms_ServerName srv = vs_ServerName vs) \<and>
    ms_Listen srv = Join (vs_Listening vs) '' '' \<and>
    map ml_Path (ms_Locations srv) = map lo_Path (List.map_filter ptr_val (vs_Locations vs)) \<and>
    ms_SSLCertificate srv = (case ptr_val (vs_SSLCert vs) of None \<Rightarrow> [] | Some c \<Rightarrow> sc_CertificatePem c)"
proof -
  obtain locs where d: "deref (vs_Locations vs) = Some locs" using assms by (auto simp: l7_server_def)
  then have "NilPtr \<notin> set (vs_Locations vs)" by (rule deref_no_nil)
  then have "locs = List.map_filter ptr_val (vs_Locations vs)" using d deref_Some by force
  then show ?thesis using l7_server_name [OF assms] assms d
    by (auto simp: l7_server_def Let_def location_of_def comp_def split: option.splits)
qed

theorem server_block_of_virtual_service_witness:
  "\<exists>srv. l7_server ex_ocfg ex_tls_server = Some srv \<and> ms_ServerName srv = ''a.com'' \<and> map ml_Path (ms_Locations srv) = [''/'']"
proof -
  have n: "vs_ServerName ex_tls_server = ''tls'' @ ''a.com''" by (simp add: ex_tls_server_def)
  obtain srv where s: "l7_server ex_ocfg ex_tls_server = Some srv"
    using l7_server_total [of ex_tls_server ex_ocfg] by (auto simp: ex_tls_server_def)
  show ?thesis using server_block_of_virtual_service [OF s, of "''a.com''"] s n
    by (simp add: ex_tls_server_def ex_loc_def map_filter_simps)
qed

section \<open>The controller\<close>

definition ex_templates :: conf_templates where
  "ex_templates = \<lparr>ct_configFileDirPath = ''/run/nginx/conf'', ct_nginxTmpl = (\<lambda>_. Inr ''nginx''),
     ct_serverTmpl = (\<lambda>ctx. Inr (Join (map ms_ServerName (nc_Servers ctx)) '';'')),
     ct_tcpAndUDPServerTmpl = (\<lambda>ctx. Inr (Join (map ms_Listen (nc_TCPBackends ctx)) '';'')),
     ct_vname = (\<lambda>_. True), ct_vval = (\<lambda>_. True)\<rparr>"

definition ex_service :: gw_service where
  "ex_service = \<lparr>gs_io = ex_io (\<lambda>_. True), gs_templates = ex_templates, gs_config = ex_ocfg, gs_post = (\<lambda>_. None), gs_Reload = None\<rparr>"

definition ex_controller :: gw_controller where
  "ex_controller = \<lparr>gc_rcfg = NilPtr, gc_rrhp = [], gc_rrtp = [], gc_globals = no_globals, gc_fs = [], gc_sent = [], gc_posted = [],
     gc_hosts = [], gc_removed = [], gc_serverNum = (0, 0), gc_shutdown = False, gc_next = 0\<rparr>"

lemma ex_controller_wf: "wf_controller ex_controller"
  by (simp add: wf_controller_def ex_controller_def pools_no_nil_def)

lemma ex_templates_total: "\<exists>b. server_body ex_templates ty ss = Inr b"
proof -
  have "\<exists>b. ct_serverTmpl ex_templates ctx = Inr b" "\<exists>b. ct_tcpAndUDPServerTmpl ex_templates ctx = Inr b" for ctx
    by (simp_all add: ex_templates_def)
  then show ?thesis by (simp add: server_body_def Let_def)
qed

lemma ex_ing_ok: "list_all (ing_ok ex_env) (env_Ingresses ex_env)"
  by (simp add: ing_ok_def ex_defs is_l4_def)

text \<open>
  C28: exactly when a sync panics: the controller is not shutting down and the listing meets an ingress
  that has no default backend and a rule without an HTTP section before its first path, or a valid and
  annotated ingress that is for L4 on this host without a default backend or has a rule without an
  HTTP section. In every other case the sync returns a controller that is well formed again; nothing
  else in it (nil servers, nil pools, the running configuration, nginx or the templates failing) panics.
\<close>

theorem sync_panics_exactly:
  assumes "wf_controller gwc" "is_range rng" "wf_ssl env"
  shows "case syncGateway gs rng env gwc of
      None \<Rightarrow> \<not> gc_shutdown gwc \<and> (\<exists>ing \<in> set (env_Ingresses env). ing_panics env ing)
    | Some gwc' \<Rightarrow> wf_controller gwc' \<and> (gc_shutdown gwc \<or> (\<forall>ing \<in> set (env_Ingresses env). \<not> ing_panics env ing))"
proof (cases "syncGateway gs rng env gwc")
  case None
  then show ?thesis using syncGateway_None [OF assms, of gs] by simp
next
  case (Some gwc')
  have "wf_controller gwc'"
  proof (cases "gc_shutdown gwc")
    case True
    then show ?thesis using Some assms(1) by (simp add: syncGateway_def)
  next
    case False
    then obtain st where "ListVirtualService env (gc_globals gwc) (gc_next gwc) = Some st"
      using Some by (auto simp: syncGateway_def split: option.splits)
    then show ?thesis using syncGateway_listed [OF assms, of st gs] Some by auto
  qed
  then show ?thesis using syncGateway_None [OF assms, of gs] Some by auto
qed

definition ex_bad :: Ingress where
  "ex_bad = ex_web\<lparr>ing_Backend := None, ing_Rules := [\<lparr>ir_Host = ''a.com'', ir_HTTP = None\<rparr>]\<rparr>"

theorem sync_panics_exactly_witness:
  "wf_controller ex_controller \<and> wf_ssl ex_env \<and>
   (\<exists>gwc'. syncGateway ex_service rev ex_env ex_controller = Some gwc' \<and> wf_controller gwc') \<and>
   syncGateway ex_service rev (ex_env\<lparr>env_Ingresses := [ex_bad]\<rparr>) ex_controller = None"
proof -
  have "no_http_first [\<lparr>ir_Host = ''a.com'', ir_HTTP = None\<rparr>]" unfolding no_http_first_def by fastforce
  then have b: "ing_panics env ex_bad" for env by (simp add: ing_panics_def ex_bad_def)
  have s: "wf_ssl (ex_env\<lparr>env_Ingresses := [ex_bad]\<rparr>)" using ex_wf_ssl by (simp add: wf_ssl_def)
  have n: "\<not> gc_shutdown ex_controller" by (simp add: ex_controller_def)
  obtain gwc' where g: "syncGateway ex_service rev ex_env ex_controller = Some gwc'"
    using syncGateway_total [OF ex_controller_wf is_range_rev ex_wf_ssl ex_ing_ok] by blast
  note 1 = sync_panics_exactly [OF ex_controller_wf is_range_rev ex_wf_ssl, of ex_service]
  note 2 = sync_panics_exactly [OF ex_controller_wf is_range_rev s, of ex_service]
  from 1 2 g b n show ?thesis using ex_controller_wf ex_wf_ssl by (auto split: option.splits)
qed

lemma listing_names:
  assumes "ListVirtualService env g a = Some st" "wf_ssl env"
  shows "NilPtr \<notin> set (l7vs st)" "distinct (vs_names (l7vs st))"
proof -
  have inv: "vs_inv st" using ListVirtualService_inv [OF assms(2,1)] by (simp add: lvs_inv_def)
  then show n: "NilPtr \<notin> set (l7vs st)" by (simp add: vs_inv_def)
  have "vs_names (l7vs st) = map Some (map fst (map vs_entry (l7vs st)))"
    unfolding vs_names_def map_map
  proof (rule map_cong [OF refl])
    fix p assume "p \<in> set (l7vs st)"
    then show "(map_option vs_ServerName \<circ> ptr_val) p = (Some \<circ> (fst \<circ> vs_entry)) p" using n by (cases p rule: ptr.exhaust) auto
  qed
  moreover have "distinct (map fst (map vs_entry (l7vs st)))" using inv by (metis vs_inv_def wf_map_def)
  ultimately show "distinct (vs_names (l7vs st))" by (metis distinct_map inj_Some inj_on_subset subset_UNIV)
qed

lemma PersistConfig_files:
  assumes "io_ok (gs_io gs)" "\<And>fs. io_CheckConfig (gs_io gs) fs"
    and "getNgxServer (gs_config gs) \<lparr>HTTPPools = [], TCPPools = [], L7VS = L7VS conf, L4VS = L4VS conf\<rparr> = Some (l7, l4)"
    and "server_body (gs_templates gs) ''http'' l7 = Inr hbody" "server_body (gs_templates gs) ''stream'' l4 = Inr sbody"
    and "PersistConfig (gs_io gs) (gs_templates gs) (gs_config gs) None conf fs = Some (None, fs')"
  shows "map_of fs' (serverConfigFile (gs_templates gs) ''http'' ''default'') = Some hbody"
    "map_of fs' (serverConfigFile (gs_templates gs) ''stream'' ''default'') = Some sbody"
proof -
  let ?f = "serverConfigFile (gs_templates gs) ''http'' ''default''" and ?g = "serverConfigFile (gs_templates gs) ''stream'' ''default''"
  have "getNgxServer (gs_config gs) conf = Some (l7, l4)" using assms(3) by (simp add: getNgxServer_def cong: option.case_cong)
  then have fs: "fs' = snd (writeFile (gs_io gs) True sbody ?g (snd (writeFile (gs_io gs) True hbody ?f fs)))"
    using assms(6) WriteServer_writes [OF assms(4)] WriteServer_writes [OF assms(5)] by (simp add: PersistConfig_def Let_def)
  note d = server_files_differ [OF refl refl, of "gs_templates gs"]
  show "map_of fs' ?f = Some hbody" "map_of fs' ?g = Some sbody"
    unfolding fs using writeFile_accepted [OF assms(1,2)] d by auto
qed



text \<open>
  The hosts whose metrics are removed after a sync are exactly the names of the servers that were
  running and are no longer listed, and the hosts reported are the names of the listed servers.
\<close>

theorem getHosts_difference:
  assumes "no_nil old" "no_nil new"
  shows "\<exists>remove current. getHosts (Ptr a old) (Ptr b new) = Some (remove, current) \<and>
    set current = vs_ServerName ` set (List.map_filter ptr_val (L7VS new)) \<and>
    set remove = vs_ServerName ` set (List.map_filter ptr_val (L7VS old)) - vs_ServerName ` set (List.map_filter ptr_val (L7VS new))"
  using assms set_server_names by (auto simp: getHosts_def no_nil_def deref_Some)

theorem getHosts_difference_witness:
  "\<exists>remove current. no_nil (ex_config 0) \<and> getHosts (Ptr 0 (ex_config 0)) (Ptr 1 ((ex_config 0)\<lparr>L7VS := []\<rparr>)) = Some (remove, current) \<and>
     set current = {} \<and> set remove = {''a.com''}"
proof -
  have n: "no_nil (ex_config 0)" "no_nil ((ex_config 0)\<lparr>L7VS := []\<rparr>)"
    by (simp_all add: no_nil_def ex_config_def ex_plain_server_def)
  show ?thesis using getHosts_difference [OF n, of 0 1] n(1)
    by (simp add: ex_config_def map_filter_simps ex_plain_server_def)
qed

text \<open>
  C35: the queue never loses work: in every run of the worker, a task is skipped only when a sync that
  started after the time of the task has succeeded.
\<close>

theorem skipped_tasks_are_covered:
  assumes "worker_run q0 syncs skipped q" "item \<in> set skipped" "q_lastSync q0 \<le> el_Timestamp item"
  shows "\<exists>ts \<in> set syncs. el_Timestamp item < ts"
  by (rule worker_run_skipped [OF assms])

theorem skipped_tasks_are_covered_witness:
  "\<exists>q. worker_run \<lparr>q_added = [], q_shutdown = False, q_lastSync = 0\<rparr> [5]
     [\<lparr>el_Key = ''k'', el_Timestamp = 3, el_IsSkippable = False\<rparr>] q \<and> (\<exists>ts \<in> set [5]. (3 :: int) < ts)"
proof -
  let ?q = "\<lparr>q_added = [], q_shutdown = False, q_lastSync = 0\<rparr>" and ?i = "\<lparr>el_Key = ''k'', el_Timestamp = 3, el_IsSkippable = False\<rparr>"
  have "worker_run ?q ([] @ [5]) [] (?q\<lparr>q_lastSync := 5\<rparr>)"
    by (rule worker_run.Sync [OF worker_run.Init, where now = 6 and ok = True and item = ?i]) (simp add: worker_step_def)
  moreover have "worker_step 7 8 True ?i (?q\<lparr>q_lastSync := 5\<rparr>) = (Skipped, ?q\<lparr>q_lastSync := 5\<rparr>)"
    by (simp add: worker_step_def)
  ultimately have "worker_run ?q ([] @ [5]) ([] @ [?i]) (?q\<lparr>q_lastSync := 5\<rparr>)" by (rule worker_run.Skip)
  then have r: "worker_run ?q [5] [?i] (?q\<lparr>q_lastSync := 5\<rparr>)" by simp
  with skipped_tasks_are_covered [OF r, of ?i] show ?thesis by auto
qed

end
