(* ===== verification/AppService.thy ===== *)
theory AppService
  imports Annotations
begin

text \<open>
  \<open>worker/appm/types/v1\<close>: the cached state of a component in the cluster (\<open>v1.go\<close>), its status
  (\<open>status.go\<close>, \<open>pod_status.go\<close>) and its labels (\<open>labels.go\<close>).

  \<^item> A Kubernetes object is a \<open>k8s_object\<close> record (name, namespace, labels, annotations, creation time,
    and a number for the rest of its contents), extended for the kinds of which more is read or written.
    Quantities are the \<open>int64\<close> values that \<open>Value\<close> and \<open>MilliValue\<close> give.
  \<^item> The slices of pointers are lists of objects. Handing a nil object to a setter panics in the code
    (except \<open>SetSecret\<close>); the setters here take objects. The result \<open>None\<close> of \<open>SetDeployment\<close> and
    \<open>SetStatefulSet\<close> is the nil dereference of \<open>Spec.Replicas\<close>.
  \<^item> \<open>IsCustomComponent\<close>, \<open>IsThirdComponent\<close> and \<open>workload\<close>, which \<open>status.go\<close> uses, are not in the
    repository; they are arguments of the functions that use them.
\<close>

section \<open>Kubernetes objects\<close>

record k8s_object =
  ko_Name :: string
  ko_Namespace :: string
  ko_ResourceVersion :: string
  ko_Labels :: "(string, string) gomap"
  ko_Annotations :: "(string, string) gomap"
  ko_CreationTimestamp :: int
  ko_UID :: string
  ko_Body :: nat

record Container =
  cn_Name :: string
  cn_Image :: string
  cn_MemoryRequest :: int
  cn_CPURequest :: int
  cn_MemoryLimit :: int
  cn_CPULimit :: int
  cn_ReadinessProbe :: "int option"
  cn_LivenessProbe :: "int option"

record ContainerStatus =
  cs_Image :: string
  cs_Terminated :: "int option"
  cs_LastTerminated :: "int option"

record PodTemplateSpec =
  pt_Labels :: "(string, string) gomap"
  pt_Containers :: "Container list"
  pt_InitContainers :: "Container list"

record Pod = k8s_object +
  pd_Conditions :: "(string \<times> string) list"
  pd_Containers :: "Container list"
  pd_NodeName :: string
  pd_ContainerStatuses :: "ContainerStatus list"
  pd_InitContainerStatuses :: "ContainerStatus list"
  pd_Phase :: string
  pd_Reason :: string
  pd_DeletionTimestamp :: "int option"

record Workload = k8s_object +
  wl_Template :: PodTemplateSpec
  wl_Replicas :: "int option"
  wl_ReadyReplicas :: int
  wl_Selector :: "(string, string) gomap option"
  wl_ServiceName :: string
  wl_GenerateName :: string
  wl_Strategy :: string

record ServicePort =
  sp_Name :: string
  sp_Protocol :: string
  sp_Port :: int
  sp_TargetPort :: int

record ServiceObject = k8s_object +
  so_Ports :: "ServicePort list"
  so_Selector :: "(string, string) gomap"
  so_Type :: string
  so_ClusterIP :: string
  so_PublishNotReadyAddresses :: bool

record SecretObject = k8s_object +
  sk_Data :: "(string, string) gomap"
  sk_Type :: string

record IngressObject = k8s_object +
  io_Backend :: "IngressBackend option"
  io_TLS :: "IngressTLS list"
  io_Rules :: "IngressRule list"

text \<open>\<open>resource.NewMilliQuantity\<close> and \<open>resource.NewQuantity\<close>.\<close>

datatype Quantity = MilliQuantity int | WholeQuantity int

record MetricSpec =
  mt_Name :: string
  mt_TargetType :: string
  mt_AverageUtilization :: "int option"
  mt_AverageValue :: "Quantity option"

record HPAObject = k8s_object +
  hp_MinReplicas :: int
  hp_MaxReplicas :: int
  hp_TargetKind :: string
  hp_TargetName :: string
  hp_Metrics :: "MetricSpec list"

record EndpointsSubset =
  es_Addresses :: "string list"
  es_NotReadyAddresses :: "string list"
  es_Ports :: "(string \<times> int) list"

record EndpointsObject = k8s_object +
  eo_Subsets :: "EndpointsSubset list"

record ReplicaSetObject = k8s_object +
  rs_Replicas :: int
  rs_ReadyReplicas :: int
  rs_AvailableReplicas :: int

record AppService =
  as_TenantID :: string
  as_TenantName :: string
  as_AppID :: string
  as_ServiceID :: string
  as_ServiceAlias :: string
  as_ServiceType :: string
  as_ServiceKind :: string
  as_CreaterID :: string
  as_DeployVersion :: string
  as_ContainerCPU :: int
  as_ContainerMemory :: int
  as_UpgradeMethod :: string
  as_Replicas :: int
  as_IsWindowsService :: bool
  as_ExtensionSet :: "(string, string) gomap"
  as_GovernanceMode :: string
  as_tenant :: "k8s_object option"
  as_statefulset :: "Workload option"
  as_deployment :: "Workload option"
  as_hpas :: "HPAObject list"
  as_delHPAs :: "HPAObject list"
  as_replicasets :: "ReplicaSetObject list"
  as_services :: "ServiceObject list"
  as_delServices :: "ServiceObject list"
  as_endpoints :: "EndpointsObject list"
  as_configMaps :: "k8s_object list"
  as_ingresses :: "IngressObject list"
  as_delIngs :: "IngressObject list"
  as_secrets :: "SecretObject list"
  as_delSecrets :: "SecretObject list"
  as_pods :: "Pod list"
  as_claims :: "k8s_object list"
  as_claimsmanual :: "k8s_object list"
  as_serviceMonitor :: "k8s_object list"
  as_storageClasses :: "k8s_object list"
  as_envVarSecrets :: "SecretObject list"
  as_BootSeqContainer :: "Container option"
  as_UpgradePatch :: "(string, string) gomap"
  as_CustomParams :: "(string, string) gomap option"
  as_podMemoryRequest :: int
  as_podCPURequest :: int

section \<open>Named collections\<close>

text \<open>The loops that the setters and deleters share: replace the first object of that name or append,
  and remove the first object of that name.\<close>

fun replace_named :: "'a k8s_object_scheme \<Rightarrow> 'a k8s_object_scheme list \<Rightarrow> 'a k8s_object_scheme list option" where
  "replace_named d [] = None"
| "replace_named d (x # xs) =
     (if ko_Name x = ko_Name d then Some (d # xs) else map_option ((#) x) (replace_named d xs))"

definition set_named :: "'a k8s_object_scheme \<Rightarrow> 'a k8s_object_scheme list \<Rightarrow> 'a k8s_object_scheme list" where
  "set_named d xs = (case replace_named d xs of Some ys \<Rightarrow> ys | None \<Rightarrow> xs @ [d])"

fun delete_named :: "'a k8s_object_scheme \<Rightarrow> 'a k8s_object_scheme list \<Rightarrow> 'a k8s_object_scheme list" where
  "delete_named d [] = []"
| "delete_named d (x # xs) = (if ko_Name x = ko_Name d then xs else x # delete_named d xs)"

fun find_named :: "string \<Rightarrow> 'a k8s_object_scheme list \<Rightarrow> 'a k8s_object_scheme option" where
  "find_named n [] = None"
| "find_named n (x # xs) = (if ko_Name x = n then Some x else find_named n xs)"

section \<open>Setters, deleters and getters\<close>

definition calculateComponentMemoryRequest :: "AppService \<Rightarrow> AppService" where
  "calculateComponentMemoryRequest a =
     (let add = fold (\<lambda>c (m, u). (to_int64 (m + quot_int (quot_int (cn_MemoryRequest c) 1024) 1024), to_int64 (u + cn_CPURequest c)));
          s = (case as_statefulset a of None \<Rightarrow> (0, 0) | Some w \<Rightarrow> add (pt_Containers (wl_Template w)) (0, 0));
          (m, u) = (case as_deployment a of None \<Rightarrow> s | Some w \<Rightarrow> add (pt_Containers (wl_Template w)) s)
      in a\<lparr>as_podMemoryRequest := m, as_podCPURequest := u\<rparr>)"

definition set_version :: "Workload \<Rightarrow> AppService \<Rightarrow> AppService" where
  "set_version d a =
     (case map_of (pt_Labels (wl_Template d)) ''version'' of
        Some v \<Rightarrow> if v \<noteq> [] then a\<lparr>as_DeployVersion := v\<rparr> else a
      | None \<Rightarrow> a)"

definition SetDeployment :: "Workload \<Rightarrow> AppService \<Rightarrow> AppService option" where
  "SetDeployment d a =
     (let a = set_version d (a\<lparr>as_deployment := Some d\<rparr>) in
      case wl_Replicas d of
        None \<Rightarrow> None
      | Some r \<Rightarrow> Some (calculateComponentMemoryRequest (a\<lparr>as_Replicas := r\<rparr>)))"

definition DeleteDeployment :: "AppService \<Rightarrow> AppService" where
  "DeleteDeployment a = a\<lparr>as_deployment := None\<rparr>"

definition SetStatefulSet :: "Workload \<Rightarrow> AppService \<Rightarrow> AppService option" where
  "SetStatefulSet d a =
     (let a = set_version d (a\<lparr>as_statefulset := Some d\<rparr>) in
      case wl_Replicas d of
        None \<Rightarrow> None
      | Some r \<Rightarrow> Some (calculateComponentMemoryRequest (a\<lparr>as_Replicas := r\<rparr>)))"

definition DeleteStatefulSet :: "AppService \<Rightarrow> AppService" where
  "DeleteStatefulSet a = a\<lparr>as_statefulset := None\<rparr>"

definition SetReplicaSets :: "ReplicaSetObject \<Rightarrow> AppService \<Rightarrow> AppService" where
  "SetReplicaSets d a = a\<lparr>as_replicasets := set_named d (as_replicasets a)\<rparr>"

definition DeleteReplicaSet :: "ReplicaSetObject \<Rightarrow> AppService \<Rightarrow> AppService" where
  "DeleteReplicaSet d a = a\<lparr>as_replicasets := delete_named d (as_replicasets a)\<rparr>"

definition SetConfigMap :: "k8s_object \<Rightarrow> AppService \<Rightarrow> AppService" where
  "SetConfigMap d a = a\<lparr>as_configMaps := set_named d (as_configMaps a)\<rparr>"

definition DeleteConfigMaps :: "k8s_object \<Rightarrow> AppService \<Rightarrow> AppService" where
  "DeleteConfigMaps d a = a\<lparr>as_configMaps := delete_named d (as_configMaps a)\<rparr>"

definition SetService :: "ServiceObject \<Rightarrow> AppService \<Rightarrow> AppService" where
  "SetService d a = a\<lparr>as_services := set_named d (as_services a)\<rparr>"

definition SetServices :: "ServiceObject list \<Rightarrow> AppService \<Rightarrow> AppService" where
  "SetServices svcs a = a\<lparr>as_services := svcs\<rparr>"

definition DeleteServices :: "ServiceObject \<Rightarrow> AppService \<Rightarrow> AppService" where
  "DeleteServices d a = a\<lparr>as_services := delete_named d (as_services a)\<rparr>"

definition AddEndpoints :: "EndpointsObject \<Rightarrow> AppService \<Rightarrow> AppService" where
  "AddEndpoints d a = a\<lparr>as_endpoints := set_named d (as_endpoints a)\<rparr>"

definition GetEndpointsByName :: "string \<Rightarrow> AppService \<Rightarrow> EndpointsObject option" where
  "GetEndpointsByName n a = find_named n (as_endpoints a)"

definition DelEndpoints :: "EndpointsObject \<Rightarrow> AppService \<Rightarrow> AppService" where
  "DelEndpoints d a = a\<lparr>as_endpoints := delete_named d (as_endpoints a)\<rparr>"

definition SetIngress :: "IngressObject \<Rightarrow> AppService \<Rightarrow> AppService" where
  "SetIngress d a = a\<lparr>as_ingresses := set_named d (as_ingresses a)\<rparr>"

definition SetIngresses :: "IngressObject list \<Rightarrow> AppService \<Rightarrow> AppService" where
  "SetIngresses is a = a\<lparr>as_ingresses := is\<rparr>"

definition DeleteIngress :: "IngressObject \<Rightarrow> AppService \<Rightarrow> AppService" where
  "DeleteIngress d a = a\<lparr>as_ingresses := delete_named d (as_ingresses a)\<rparr>"

definition SetPodTemplate :: "PodTemplateSpec \<Rightarrow> AppService \<Rightarrow> AppService" where
  "SetPodTemplate d a =
     calculateComponentMemoryRequest
       (a\<lparr>as_statefulset := map_option (\<lambda>w. w\<lparr>wl_Template := d\<rparr>) (as_statefulset a),
          as_deployment := map_option (\<lambda>w. w\<lparr>wl_Template := d\<rparr>) (as_deployment a)\<rparr>)"

definition GetPodTemplate :: "AppService \<Rightarrow> PodTemplateSpec option" where
  "GetPodTemplate a =
     (case as_statefulset a of
        Some w \<Rightarrow> Some (wl_Template w)
      | None \<Rightarrow> map_option wl_Template (as_deployment a))"

definition SetSecret :: "SecretObject option \<Rightarrow> AppService \<Rightarrow> AppService" where
  "SetSecret d a = (case d of None \<Rightarrow> a | Some d \<Rightarrow> a\<lparr>as_secrets := set_named d (as_secrets a)\<rparr>)"

definition SetSecrets :: "SecretObject list \<Rightarrow> AppService \<Rightarrow> AppService" where
  "SetSecrets s a = a\<lparr>as_secrets := s\<rparr>"

definition DeleteSecrets :: "SecretObject \<Rightarrow> AppService \<Rightarrow> AppService" where
  "DeleteSecrets d a = a\<lparr>as_secrets := delete_named d (as_secrets a)\<rparr>"

definition SetEnvVarSecrets :: "SecretObject list \<Rightarrow> AppService \<Rightarrow> AppService" where
  "SetEnvVarSecrets s a = a\<lparr>as_envVarSecrets := s\<rparr>"

definition SetPods :: "Pod \<Rightarrow> AppService \<Rightarrow> AppService" where
  "SetPods d a = a\<lparr>as_pods := set_named d (as_pods a)\<rparr>"

definition DeletePods :: "Pod \<Rightarrow> AppService \<Rightarrow> AppService" where
  "DeletePods d a = a\<lparr>as_pods := delete_named d (as_pods a)\<rparr>"

definition GetPodsByName :: "string \<Rightarrow> AppService \<Rightarrow> Pod option" where
  "GetPodsByName n a = find_named n (as_pods a)"

definition SetTenant :: "k8s_object \<Rightarrow> AppService \<Rightarrow> AppService" where
  "SetTenant d a = a\<lparr>as_tenant := Some d\<rparr>"

definition SetClaim :: "k8s_object \<Rightarrow> AppService \<Rightarrow> AppService" where
  "SetClaim claim a = a\<lparr>as_claims := set_named (claim\<lparr>ko_Namespace := as_TenantID a\<rparr>) (as_claims a)\<rparr>"

definition SetClaimManually :: "k8s_object \<Rightarrow> AppService \<Rightarrow> AppService" where
  "SetClaimManually claim a = a\<lparr>as_claimsmanual := set_named (claim\<lparr>ko_Namespace := as_TenantID a\<rparr>) (as_claimsmanual a)\<rparr>"

definition DeleteClaim :: "k8s_object \<Rightarrow> AppService \<Rightarrow> AppService" where
  "DeleteClaim d a = a\<lparr>as_claims := delete_named d (as_claims a)\<rparr>"

definition SetHPAs :: "HPAObject list \<Rightarrow> AppService \<Rightarrow> AppService" where
  "SetHPAs hpas a = a\<lparr>as_hpas := hpas\<rparr>"

definition SetHPA :: "HPAObject \<Rightarrow> AppService \<Rightarrow> AppService" where
  "SetHPA d a = a\<lparr>as_hpas := set_named d (as_hpas a)\<rparr>"

definition DelHPA :: "HPAObject \<Rightarrow> AppService \<Rightarrow> AppService" where
  "DelHPA d a = a\<lparr>as_hpas := delete_named d (as_hpas a)\<rparr>"

definition SetServiceMonitor :: "k8s_object \<Rightarrow> AppService \<Rightarrow> AppService" where
  "SetServiceMonitor d a = a\<lparr>as_serviceMonitor := set_named d (as_serviceMonitor a)\<rparr>"

definition DeleteServiceMonitor :: "k8s_object \<Rightarrow> AppService \<Rightarrow> AppService" where
  "DeleteServiceMonitor d a = a\<lparr>as_serviceMonitor := delete_named d (as_serviceMonitor a)\<rparr>"

text \<open>\<open>SetStorageClass\<close> replaces every class of that name and appends the new one all the same.\<close>

definition SetStorageClass :: "k8s_object \<Rightarrow> AppService \<Rightarrow> AppService" where
  "SetStorageClass sc a =
     a\<lparr>as_storageClasses := map (\<lambda>old. if ko_Name old = ko_Name sc then sc else old) (as_storageClasses a) @ [sc]\<rparr>"

definition DeleteStorageClass :: "k8s_object \<Rightarrow> AppService \<Rightarrow> AppService" where
  "DeleteStorageClass d a = a\<lparr>as_storageClasses := delete_named d (as_storageClasses a)\<rparr>"

section \<open>Replica sets\<close>

definition Before :: "int \<Rightarrow> int \<Rightarrow> bool" where
  "Before t u \<longleftrightarrow> t < u"

fun newest_loop :: "ReplicaSetObject \<Rightarrow> ReplicaSetObject list \<Rightarrow> ReplicaSetObject" where
  "newest_loop newest [] = newest"
| "newest_loop newest (rs # rss) =
     newest_loop (if Before (ko_CreationTimestamp newest) (ko_CreationTimestamp rs) then rs else newest) rss"

definition GetNewestReplicaSet :: "AppService \<Rightarrow> ReplicaSetObject option" where
  "GetNewestReplicaSet a =
     (case as_replicasets a of [] \<Rightarrow> None | rs # rss \<Rightarrow> Some (newest_loop rs (rs # rss)))"

text \<open>The value \<open>strconv.Atoi\<close> gives beside its error: the nearest 64-bit value when out of range, else 0.\<close>

definition Atoi_value :: "string \<Rightarrow> int" where
  "Atoi_value s =
     (case Atoi s of
        Some v \<Rightarrow> v
      | None \<Rightarrow>
          (let neg = (s \<noteq> [] \<and> hd s = CHR ''-'');
               ds = (if s \<noteq> [] \<and> (hd s = CHR ''-'' \<or> hd s = CHR ''+'') then tl s else s)
           in if ds \<noteq> [] \<and> list_all is_digit ds then (if neg then - (2 ^ 63) else 2 ^ 63 - 1) else 0))"

definition revision_key :: string where "revision_key = ''deployment.kubernetes.io/revision''"

definition GetReplicaSetVersion :: "ReplicaSetObject \<Rightarrow> int" where
  "GetReplicaSetVersion rs =
     (case map_of (ko_Annotations rs) revision_key of Some version \<Rightarrow> Atoi_value version | None \<Rightarrow> 0)"

definition GetCurrentReplicaSet :: "AppService \<Rightarrow> ReplicaSetObject option" where
  "GetCurrentReplicaSet a =
     (case as_deployment a of
        None \<Rightarrow> None
      | Some d \<Rightarrow>
          (case map_of (ko_Annotations d) revision_key of
             None \<Rightarrow> None
           | Some revision \<Rightarrow> find (\<lambda>rs. map_str (ko_Annotations rs) revision_key = revision) (as_replicasets a)))"

definition DistinguishPod :: "Pod \<Rightarrow> AppService \<Rightarrow> bool" where
  "DistinguishPod pod a =
     (case GetNewestReplicaSet a of
        None \<Rightarrow> True
      | Some rss \<Rightarrow> \<not> Before (ko_CreationTimestamp pod) (ko_CreationTimestamp rss))"

section \<open>Resources to delete\<close>

fun deleted_loop ::
  "'a k8s_object_scheme list \<Rightarrow> 'a k8s_object_scheme list \<Rightarrow> 'a k8s_object_scheme list \<Rightarrow> 'a k8s_object_scheme list" where
  "deleted_loop new [] dels = dels"
| "deleted_loop new (o1 # os) dels =
     deleted_loop new os (if list_ex (\<lambda>n. ko_Name o1 = ko_Name n) new then dels else dels @ [o1])"

definition SetDeletedResources :: "AppService option \<Rightarrow> AppService \<Rightarrow> AppService" where
  "SetDeletedResources old a =
     (case old of
        None \<Rightarrow> a
      | Some old \<Rightarrow>
          a\<lparr>as_delIngs := deleted_loop (as_ingresses a) (as_ingresses old) (as_delIngs a),
            as_delSecrets := deleted_loop (as_secrets a) (as_secrets old) (as_delSecrets a),
            as_delServices := deleted_loop (as_services a) (as_services old) (as_delServices a),
            as_delHPAs := deleted_loop (as_hpas a) (as_hpas old) (as_delHPAs a)\<rparr>)"

section \<open>Resource requests\<close>

record PodResource =
  pr_MemoryRequest :: int
  pr_MemoryLimit :: int
  pr_CPURequest :: int
  pr_CPULimit :: int
  pr_NodeName :: string

definition zero_PodResource :: PodResource where
  "zero_PodResource = \<lparr>pr_MemoryRequest = 0, pr_MemoryLimit = 0, pr_CPURequest = 0, pr_CPULimit = 0, pr_NodeName = []\<rparr>"

definition CalculatePodResource :: "Pod \<Rightarrow> PodResource" where
  "CalculatePodResource pod =
     (if list_ex (\<lambda>con. fst con = ''PodScheduled'' \<and> snd con = ''False'') (pd_Conditions pod) then zero_PodResource
      else (fold (\<lambda>con pr. pr\<lparr>pr_MemoryRequest := to_int64 (pr_MemoryRequest pr + cn_MemoryRequest con),
                               pr_CPURequest := to_int64 (pr_CPURequest pr + cn_CPURequest con),
                               pr_MemoryLimit := to_int64 (pr_MemoryLimit pr + cn_MemoryLimit con),
                               pr_CPULimit := to_int64 (pr_CPULimit pr + cn_CPULimit con)\<rparr>)
              (pd_Containers pod) zero_PodResource)\<lparr>pr_NodeName := pd_NodeName pod\<rparr>)"

definition GetMemoryRequest :: "AppService \<Rightarrow> int" where
  "GetMemoryRequest a =
     fold (\<lambda>pod res. to_int64 (res + quot_int (quot_int (pr_MemoryRequest (CalculatePodResource pod)) 1024) 1024)) (as_pods a) 0"

definition GetCPURequest :: "AppService \<Rightarrow> int" where
  "GetCPURequest a = fold (\<lambda>pod res. to_int64 (res + pr_CPURequest (CalculatePodResource pod))) (as_pods a) 0"

section \<open>Pod and component status\<close>

definition IsPodTerminated :: "Pod \<Rightarrow> bool" where
  "IsPodTerminated pod \<longleftrightarrow> pd_Phase pod \<noteq> ''Pending'' \<and> pd_Phase pod \<noteq> ''Running'' \<and> pd_Phase pod \<noteq> ''Unknown''"

definition IsPodNodeLost :: "Pod \<Rightarrow> bool" where
  "IsPodNodeLost pod \<longleftrightarrow> pd_DeletionTimestamp pod \<noteq> None \<and> pd_Reason pod = ''NodeLost''"

definition IsEmpty :: "AppService \<Rightarrow> bool" where
  "IsEmpty a = (let empty = (length (as_pods a) = 0) in if \<not> empty then list_all IsPodNodeLost (as_pods a) else empty)"

text \<open>A custom workload: its kind, and for a \<open>ThirdComponent\<close> that could be converted its phase.\<close>

record custom_workload =
  cw_Kind :: string
  cw_Phase :: "string option"

record component_kind =
  ck_IsCustomComponent :: bool
  ck_IsThirdComponent :: bool
  ck_workload :: "custom_workload option"

definition IsClosed :: "component_kind \<Rightarrow> AppService \<Rightarrow> bool" where
  "IsClosed ck a =
     (if ck_IsCustomComponent ck then ck_workload ck = None
      else if ck_IsThirdComponent ck then length (as_endpoints a) = 0
      else
        IsEmpty a \<and> as_statefulset a = None \<and> as_deployment a = None \<or>
        IsEmpty a \<and> (case as_statefulset a of Some w \<Rightarrow> ko_ResourceVersion w = [] | None \<Rightarrow> False) \<or>
        IsEmpty a \<and> (case as_deployment a of Some w \<Rightarrow> ko_ResourceVersion w = [] | None \<Rightarrow> False))"

definition Ready :: "AppService \<Rightarrow> bool" where
  "Ready a =
     ((case as_statefulset a of Some w \<Rightarrow> wl_ReadyReplicas w \<ge> to_int32 (as_Replicas a) | None \<Rightarrow> False) \<or>
      (case as_deployment a of Some w \<Rightarrow> wl_ReadyReplicas w \<ge> to_int32 (as_Replicas a) | None \<Rightarrow> False))"

definition UpgradeComlete :: "AppService \<Rightarrow> bool" where
  "UpgradeComlete a = (list_all (\<lambda>pod. map_str (ko_Labels pod) ''version'' = as_DeployVersion a) (as_pods a) \<and> Ready a)"

definition isHaveTerminatedContainer :: "Pod list \<Rightarrow> bool" where
  "isHaveTerminatedContainer pods =
     list_ex (\<lambda>pod. list_ex (\<lambda>con. (case cs_Terminated con of Some code \<Rightarrow> code \<noteq> 0 | None \<Rightarrow> False) \<or>
                                   cs_LastTerminated con \<noteq> None) (pd_ContainerStatuses pod)) pods"

definition isHaveNormalTerminatedContainer :: "Pod list \<Rightarrow> bool" where
  "isHaveNormalTerminatedContainer pods =
     list_ex (\<lambda>pod. list_ex (\<lambda>con. cs_Terminated con = Some 0) (pd_ContainerStatuses pod)) pods"

definition RUNNING :: string where "RUNNING = ''running''"
definition CLOSED :: string where "CLOSED = ''closed''"
definition STARTING :: string where "STARTING = ''starting''"
definition STOPPING :: string where "STOPPING = ''stopping''"
definition ABNORMAL :: string where "ABNORMAL = ''abnormal''"
definition SOMEABNORMAL :: string where "SOMEABNORMAL = ''some_abnormal''"
definition UNKNOW :: string where "UNKNOW = ''unknow''"
definition UPGRADE :: string where "UPGRADE = ''upgrade''"
definition BUILDING :: string where "BUILDING = ''building''"
definition BUILDEFAILURE :: string where "BUILDEFAILURE = ''build_failure''"
definition UNDEPLOY :: string where "UNDEPLOY = ''undeploy''"

definition custom_status :: "custom_workload option \<Rightarrow> string" where
  "custom_status w =
     (case w of
        None \<Rightarrow> CLOSED
      | Some w \<Rightarrow>
          if cw_Kind w = ''ThirdComponent'' then
            (case cw_Phase w of
               Some ph \<Rightarrow> if ph = ''Failed'' then ABNORMAL else if ph = ''Running'' then RUNNING
                          else if ph = ''Pending'' then STARTING else RUNNING
             | None \<Rightarrow> RUNNING)
          else RUNNING)"

definition third_status :: "AppService \<Rightarrow> string" where
  "third_status a =
     (if length (as_endpoints a) = 0 then CLOSED
      else if sum_list (map (\<lambda>ed. sum_list (map (\<lambda>s. length (es_Addresses s)) (eo_Subsets ed))) (as_endpoints a)) > 0 then RUNNING
      else ABNORMAL)"

definition failing_status :: "string \<Rightarrow> Pod list \<Rightarrow> string" where
  \<comment> \<open>The three returns that the branches for too few ready replicas share.\<close>
  "failing_status bad pods =
     (if isHaveTerminatedContainer pods then bad
      else if isHaveNormalTerminatedContainer pods then STOPPING
      else STARTING)"

definition ready_of :: "Workload option \<Rightarrow> int option" where
  "ready_of w = map_option wl_ReadyReplicas w"

definition GetServiceStatus :: "component_kind \<Rightarrow> AppService \<Rightarrow> string" where
  "GetServiceStatus ck a =
     (let ss = ready_of (as_statefulset a); dep = ready_of (as_deployment a); rep = to_int32 (as_Replicas a) in
      if ck_IsCustomComponent ck then custom_status (ck_workload ck)
      else if ck_IsThirdComponent ck then third_status a
      else if IsClosed ck a then CLOSED
      else if as_statefulset a = None \<and> as_deployment a = None \<and> length (as_pods a) > 0 then STOPPING
      else if (as_statefulset a \<noteq> None \<or> as_deployment a \<noteq> None) \<and> int (length (as_pods a)) < as_Replicas a then STARTING
      else if (case ss of Some r \<Rightarrow> r \<ge> rep | None \<Rightarrow> False) then (if UpgradeComlete a then RUNNING else UPGRADE)
      else if (case dep of Some r \<Rightarrow> r \<ge> rep | None \<Rightarrow> False) then (if UpgradeComlete a then RUNNING else UPGRADE)
      else if (case dep of Some r \<Rightarrow> r < rep \<and> r \<noteq> 0 | None \<Rightarrow> False) then failing_status SOMEABNORMAL (as_pods a)
      else if dep = Some 0 then failing_status ABNORMAL (as_pods a)
      else if (case ss of Some r \<Rightarrow> r < rep \<and> r \<noteq> 0 | None \<Rightarrow> False) then failing_status SOMEABNORMAL (as_pods a)
      else if ss = Some 0 then failing_status ABNORMAL (as_pods a)
      else UNKNOW)"

definition IsWaitting :: "string \<Rightarrow> AppService \<Rightarrow> bool" where
  \<comment> \<open>\<open>probe\<close> is \<open>GetProbeMeshImageName()\<close>.\<close>
  "IsWaitting probe a =
     (let inits = (\<lambda>w. pt_InitContainers (wl_Template w)) in
      if (case as_statefulset a of Some w \<Rightarrow> length (inits w) = 0 | None \<Rightarrow> False) then False
      else if (case as_deployment a of Some w \<Rightarrow> length (inits w) = 0 | None \<Rightarrow> False) then False
      else
        (let initcontainer = (case as_deployment a of
                                Some w \<Rightarrow> inits w
                              | None \<Rightarrow> (case as_statefulset a of Some w \<Rightarrow> inits w | None \<Rightarrow> []))
         in if list_ex (\<lambda>init. cn_Image init = probe) initcontainer
            then (case as_pods a of
                    [] \<Rightarrow> True
                  | firstPod # _ \<Rightarrow>
                      list_ex (\<lambda>c. cs_Image c = probe \<and> (cs_Terminated c = None \<or> cs_Terminated c \<noteq> Some 0))
                        (pd_InitContainerStatuses firstPod))
            else False))"

definition GetReadyReplicas :: "AppService \<Rightarrow> int" where
  "GetReadyReplicas a =
     (case as_statefulset a of
        Some w \<Rightarrow> wl_ReadyReplicas w
      | None \<Rightarrow> (case as_deployment a of Some w \<Rightarrow> wl_ReadyReplicas w | None \<Rightarrow> 0))"

definition GetRunningVersion :: "AppService \<Rightarrow> string" where
  "GetRunningVersion a =
     (case as_statefulset a of
        Some w \<Rightarrow> map_str (ko_Labels w) ''version''
      | None \<Rightarrow> (case as_deployment a of Some w \<Rightarrow> map_str (ko_Labels w) ''version'' | None \<Rightarrow> []))"

section \<open>Labels\<close>

fun copy_labels :: "(string, string) gomap \<Rightarrow> (string, string) gomap \<Rightarrow> (string, string) gomap" where
  "copy_labels [] m = m"
| "copy_labels ((k, v) # l) m = copy_labels l (map_set k v m)"

definition GetCommonLabels :: "(string, string) gomap list \<Rightarrow> AppService \<Rightarrow> (string, string) gomap" where
  "GetCommonLabels labels a =
     (let m = fold copy_labels labels [];
          m = map_set ''creator'' ''Kato'' m;
          m = map_set ''creater_id'' (as_CreaterID a) m;
          m = map_set ''service_id'' (as_ServiceID a) m;
          m = map_set ''service_alias'' (as_ServiceAlias a) m;
          m = map_set ''tenant_name'' (as_TenantName a) m;
          m = map_set ''tenant_id'' (as_TenantID a) m;
          m = map_set ''app_id'' (as_AppID a) m
      in m)"

section \<open>The contract of a named collection\<close>

abbreviation names :: "'a k8s_object_scheme list \<Rightarrow> string list" where
  "names xs \<equiv> map ko_Name xs"

lemma replace_named_None: "replace_named d xs = None \<longleftrightarrow> ko_Name d \<notin> set (names xs)"
  by (induction xs) auto

lemma replace_named_names: "replace_named d xs = Some ys \<Longrightarrow> names ys = names xs"
  by (induction xs arbitrary: ys) (auto split: if_splits)

lemma replace_named_find:
  "replace_named d xs = Some ys \<Longrightarrow> find_named n ys = (if n = ko_Name d then Some d else find_named n xs)"
  by (induction xs arbitrary: ys) (auto split: if_splits)

lemma find_named_append: "find_named n (xs @ ys) = (case find_named n xs of Some x \<Rightarrow> Some x | None \<Rightarrow> find_named n ys)"
  by (induction xs) auto

lemma find_named_None: "find_named n xs = None \<longleftrightarrow> n \<notin> set (names xs)"
  by (induction xs) auto

lemma find_set_named: "find_named n (set_named d xs) = (if n = ko_Name d then Some d else find_named n xs)"
proof (cases "replace_named d xs")
  case None
  then have "find_named (ko_Name d) xs = None" by (simp add: replace_named_None find_named_None)
  then show ?thesis using None by (auto simp: set_named_def find_named_append split: option.splits)
qed (simp add: set_named_def replace_named_find)

lemma names_set_named:
  "names (set_named d xs) = (if ko_Name d \<in> set (names xs) then names xs else names xs @ [ko_Name d])"
  using replace_named_None [of d xs] replace_named_names [of d xs] by (auto simp: set_named_def split: option.splits)

lemma distinct_set_named: "distinct (names xs) \<Longrightarrow> distinct (names (set_named d xs))"
  by (simp add: names_set_named)

lemma names_delete_named: "distinct (names xs) \<Longrightarrow> names (delete_named d xs) = filter (\<lambda>n. n \<noteq> ko_Name d) (names xs)"
proof (induction xs)
  case (Cons x xs)
  have "filter (\<lambda>n. n \<noteq> ko_Name x) (names xs) = names xs" if "ko_Name x \<notin> set (names xs)"
    using that by (metis (mono_tags, lifting) filter_True)
  with Cons show ?case by auto
qed simp

lemma find_delete_named:
  "distinct (names xs) \<Longrightarrow> find_named n (delete_named d xs) = (if n = ko_Name d then None else find_named n xs)"
  by (induction xs) (auto simp: find_named_None)

text \<open>
  A collection of the component: \<open>items\<close> reads it, \<open>add\<close> stores an object (after \<open>prep\<close> has set what
  the component knows of it) and \<open>del\<close> removes one. The laws are what the component's clients rely on.
\<close>

locale named_collection =
  fixes items :: "AppService \<Rightarrow> 'a k8s_object_scheme list"
    and add :: "'a k8s_object_scheme \<Rightarrow> AppService \<Rightarrow> AppService"
    and del :: "'a k8s_object_scheme \<Rightarrow> AppService \<Rightarrow> AppService"
    and prep :: "AppService \<Rightarrow> 'a k8s_object_scheme \<Rightarrow> 'a k8s_object_scheme"
  assumes items_add: "items (add d a) = set_named (prep a d) (items a)"
    and items_del: "items (del d a) = delete_named d (items a)"
    and prep_name: "ko_Name (prep a d) = ko_Name d"
begin

lemma lookup_add: "find_named n (items (add d a)) = (if n = ko_Name d then Some (prep a d) else find_named n (items a))"
  by (simp add: items_add find_set_named prep_name)

lemma distinct_add: "distinct (names (items a)) \<Longrightarrow> distinct (names (items (add d a)))"
  by (simp add: items_add distinct_set_named)

lemma lookup_del:
  "distinct (names (items a)) \<Longrightarrow> find_named n (items (del d a)) = (if n = ko_Name d then None else find_named n (items a))"
  by (simp add: items_del find_delete_named)

lemma distinct_del: "distinct (names (items a)) \<Longrightarrow> distinct (names (items (del d a)))"
  by (simp add: items_del names_delete_named)

lemma length_add: "length (items (add d a)) \<le> Suc (length (items a))"
proof -
  have "length (names (items (add d a))) \<le> Suc (length (names (items a)))"
    by (simp only: items_add names_set_named) simp
  then show ?thesis by simp
qed

lemma del_add: "distinct (names (items a)) \<Longrightarrow> find_named (ko_Name d) (items (del d (add d a))) = None"
  by (simp add: lookup_del distinct_add)

text \<open>Replaying a stream of objects keeps the last one of every name.\<close>

lemma lookup_adds:
  assumes "\<And>a d d'. prep (add d' a) d = prep a d"
  shows "find_named n (items (fold add ds a)) =
    (case filter (\<lambda>d. ko_Name d = n) ds of [] \<Rightarrow> find_named n (items a) | d # dd \<Rightarrow> Some (prep a (last (d # dd))))"
proof (induction ds arbitrary: a)
  case (Cons d ds)
  have p: "prep (add d a) e = prep a e" for e by (rule assms)
  show ?case
    using Cons [of "add d a"] by (auto simp: lookup_add p split: list.splits)
qed simp

end

lemmas collection_defs =
  SetReplicaSets_def DeleteReplicaSet_def SetConfigMap_def DeleteConfigMaps_def SetService_def DeleteServices_def
  AddEndpoints_def DelEndpoints_def SetIngress_def DeleteIngress_def SetSecret_def DeleteSecrets_def
  SetPods_def DeletePods_def SetClaim_def DeleteClaim_def SetHPA_def DelHPA_def SetServiceMonitor_def
  DeleteServiceMonitor_def

interpretation replicasets: named_collection as_replicasets SetReplicaSets DeleteReplicaSet "\<lambda>a d. d"
  by unfold_locales (simp_all add: collection_defs)

interpretation configmaps: named_collection as_configMaps SetConfigMap DeleteConfigMaps "\<lambda>a d. d"
  by unfold_locales (simp_all add: collection_defs)

interpretation services: named_collection as_services SetService DeleteServices "\<lambda>a d. d"
  by unfold_locales (simp_all add: collection_defs)

interpretation endpoints: named_collection as_endpoints AddEndpoints DelEndpoints "\<lambda>a d. d"
  by unfold_locales (simp_all add: collection_defs)

interpretation ingresses: named_collection as_ingresses SetIngress DeleteIngress "\<lambda>a d. d"
  by unfold_locales (simp_all add: collection_defs)

interpretation secrets: named_collection as_secrets "\<lambda>d. SetSecret (Some d)" DeleteSecrets "\<lambda>a d. d"
  by unfold_locales (simp_all add: collection_defs)

interpretation pods: named_collection as_pods SetPods DeletePods "\<lambda>a d. d"
  by unfold_locales (simp_all add: collection_defs)

interpretation claims: named_collection as_claims SetClaim DeleteClaim "\<lambda>a d. d\<lparr>ko_Namespace := as_TenantID a\<rparr>"
  by unfold_locales (simp_all add: collection_defs)

interpretation hpas: named_collection as_hpas SetHPA DelHPA "\<lambda>a d. d"
  by unfold_locales (simp_all add: collection_defs)

interpretation monitors: named_collection as_serviceMonitor SetServiceMonitor DeleteServiceMonitor "\<lambda>a d. d"
  by unfold_locales (simp_all add: collection_defs)

section \<open>Facts: replica sets and deleted resources\<close>

lemma newest_loop_max:
  "(\<forall>rs \<in> insert m (set rss). ko_CreationTimestamp rs \<le> ko_CreationTimestamp (newest_loop m rss)) \<and>
   newest_loop m rss \<in> insert m (set rss)"
proof (induction rss arbitrary: m)
  case (Cons r rss)
  from Cons [of r] Cons [of m] show ?case by (auto simp: Before_def)
qed simp

lemma GetNewestReplicaSet_max:
  assumes "GetNewestReplicaSet a = Some rs"
  shows "rs \<in> set (as_replicasets a)" "\<And>r. r \<in> set (as_replicasets a) \<Longrightarrow> ko_CreationTimestamp r \<le> ko_CreationTimestamp rs"
proof -
  obtain x xs where "as_replicasets a = x # xs" "rs = newest_loop x (x # xs)"
    using assms by (auto simp: GetNewestReplicaSet_def split: list.splits)
  then show "rs \<in> set (as_replicasets a)" "\<And>r. r \<in> set (as_replicasets a) \<Longrightarrow> ko_CreationTimestamp r \<le> ko_CreationTimestamp rs"
    using newest_loop_max [of x "x # xs"] by auto
qed

lemma deleted_loop_filter: "deleted_loop new os dels = dels @ filter (\<lambda>o1. ko_Name o1 \<notin> set (names new)) os"
  by (induction new os dels rule: deleted_loop.induct) (auto simp: list_ex_iff)

section \<open>Facts: status\<close>

lemma status_distinct:
  "RUNNING \<noteq> UNKNOW" "CLOSED \<noteq> UNKNOW" "STARTING \<noteq> UNKNOW" "STOPPING \<noteq> UNKNOW" "ABNORMAL \<noteq> UNKNOW"
  "SOMEABNORMAL \<noteq> UNKNOW" "UPGRADE \<noteq> UNKNOW" "CLOSED \<noteq> RUNNING" "STARTING \<noteq> RUNNING" "STOPPING \<noteq> RUNNING"
  "ABNORMAL \<noteq> RUNNING" "SOMEABNORMAL \<noteq> RUNNING" "UPGRADE \<noteq> RUNNING" "UNKNOW \<noteq> RUNNING"
  by (simp_all add: RUNNING_def CLOSED_def STARTING_def STOPPING_def ABNORMAL_def SOMEABNORMAL_def UNKNOW_def UPGRADE_def)

lemma failing_status_cases: "failing_status bad pods \<in> {bad, STOPPING, STARTING}"
  by (simp add: failing_status_def)

lemma failing_status_known [simp]:
  "bad \<noteq> UNKNOW \<Longrightarrow> failing_status bad pods \<noteq> UNKNOW" "bad \<noteq> RUNNING \<Longrightarrow> failing_status bad pods \<noteq> RUNNING"
  by (simp_all add: failing_status_def status_distinct)

lemma custom_status_known: "custom_status w \<noteq> UNKNOW"
  by (simp add: custom_status_def status_distinct split: option.splits)

lemma third_status_known: "third_status a \<noteq> UNKNOW"
  by (simp add: third_status_def status_distinct)

lemma IsEmpty_no_pods: "as_pods a = [] \<Longrightarrow> IsEmpty a"
  by (simp add: IsEmpty_def)

lemma ready_of_simps [simp]: "ready_of None = None" "ready_of (Some w) = Some (wl_ReadyReplicas w)"
  by (simp_all add: ready_of_def)

lemma GetServiceStatus_known: "GetServiceStatus ck a \<noteq> UNKNOW"
proof -
  note d = status_distinct custom_status_known third_status_known
  show ?thesis
  proof (cases "ck_IsCustomComponent ck \<or> ck_IsThirdComponent ck \<or> IsClosed ck a")
    case True
    then show ?thesis by (auto simp: GetServiceStatus_def Let_def d)
  next
    case False
    have "as_statefulset a \<noteq> None \<or> as_deployment a \<noteq> None \<or> length (as_pods a) > 0"
      using False IsEmpty_no_pods [of a] by (auto simp: IsClosed_def)
    with False show ?thesis
      by (cases "as_statefulset a"; cases "as_deployment a") (auto simp: GetServiceStatus_def Let_def d)
  qed
qed

lemma GetServiceStatus_running:
  assumes "GetServiceStatus ck a = RUNNING" "\<not> ck_IsCustomComponent ck" "\<not> ck_IsThirdComponent ck"
  shows "Ready a" "UpgradeComlete a" "int (length (as_pods a)) \<ge> as_Replicas a"
proof -
  note d = status_distinct
  have "UpgradeComlete a \<and> int (length (as_pods a)) \<ge> as_Replicas a"
    using assms by (auto simp: GetServiceStatus_def Let_def d split: if_splits option.splits)
  then show "UpgradeComlete a" "int (length (as_pods a)) \<ge> as_Replicas a" "Ready a" by (auto simp: UpgradeComlete_def)
qed

section \<open>Facts: resource requests\<close>

lemma fold_wrap_exact:
  assumes "\<And>x. x \<in> set xs \<Longrightarrow> 0 \<le> f x" "0 \<le> acc" "acc + sum_list (map f xs) < 2 ^ 63"
  shows "fold (\<lambda>x r. to_int64 (r + f x)) xs acc = acc + sum_list (map f xs)"
  using assms
proof (induction xs arbitrary: acc)
  case (Cons x xs)
  have nn: "0 \<le> sum_list (map f xs)" using Cons.prems(1) by (intro sum_list_nonneg) auto
  have "0 \<le> f x" by (rule Cons.prems(1)) simp
  then have "to_int64 (acc + f x) = acc + f x" using Cons.prems(2,3) nn by (intro to_int64_id) auto
  then show ?case using Cons.IH [of "acc + f x"] Cons.prems by (simp add: algebra_simps)
qed simp

text \<open>The CPU request of a component is the sum over its scheduled pods, while it fits in 63 bits.\<close>

lemma pod_resource_fold:
  "pr_CPURequest (fold (\<lambda>con pr. pr\<lparr>pr_MemoryRequest := to_int64 (pr_MemoryRequest pr + cn_MemoryRequest con),
                               pr_CPURequest := to_int64 (pr_CPURequest pr + cn_CPURequest con),
                               pr_MemoryLimit := to_int64 (pr_MemoryLimit pr + cn_MemoryLimit con),
                               pr_CPULimit := to_int64 (pr_CPULimit pr + cn_CPULimit con)\<rparr>) cs pr) =
   fold (\<lambda>con r. to_int64 (r + cn_CPURequest con)) cs (pr_CPURequest pr)"
  "pr_MemoryRequest (fold (\<lambda>con pr. pr\<lparr>pr_MemoryRequest := to_int64 (pr_MemoryRequest pr + cn_MemoryRequest con),
                               pr_CPURequest := to_int64 (pr_CPURequest pr + cn_CPURequest con),
                               pr_MemoryLimit := to_int64 (pr_MemoryLimit pr + cn_MemoryLimit con),
                               pr_CPULimit := to_int64 (pr_CPULimit pr + cn_CPULimit con)\<rparr>) cs pr) =
   fold (\<lambda>con r. to_int64 (r + cn_MemoryRequest con)) cs (pr_MemoryRequest pr)"
  by (induction cs arbitrary: pr) simp_all

definition scheduled :: "Pod \<Rightarrow> bool" where
  "scheduled pod \<longleftrightarrow> (''PodScheduled'', ''False'') \<notin> set (pd_Conditions pod)"

definition pod_cpu :: "Pod \<Rightarrow> int" where
  "pod_cpu pod = (if scheduled pod then sum_list (map cn_CPURequest (pd_Containers pod)) else 0)"

lemma CalculatePodResource_cpu:
  assumes "\<And>c. c \<in> set (pd_Containers pod) \<Longrightarrow> 0 \<le> cn_CPURequest c" "sum_list (map cn_CPURequest (pd_Containers pod)) < 2 ^ 63"
  shows "pr_CPURequest (CalculatePodResource pod) = pod_cpu pod"
proof -
  have s: "list_ex (\<lambda>con. fst con = ''PodScheduled'' \<and> snd con = ''False'') (pd_Conditions pod) \<longleftrightarrow> \<not> scheduled pod"
    by (force simp: list_ex_iff scheduled_def)
  show ?thesis
    using fold_wrap_exact [of "pd_Containers pod" cn_CPURequest 0] assms
    by (simp add: CalculatePodResource_def s pod_cpu_def pod_resource_fold zero_PodResource_def)
qed

lemma GetCPURequest_sum:
  assumes "\<And>pod c. pod \<in> set (as_pods a) \<Longrightarrow> c \<in> set (pd_Containers pod) \<Longrightarrow> 0 \<le> cn_CPURequest c"
    and "\<And>pod. pod \<in> set (as_pods a) \<Longrightarrow> sum_list (map cn_CPURequest (pd_Containers pod)) < 2 ^ 63"
    and "sum_list (map pod_cpu (as_pods a)) < 2 ^ 63"
  shows "GetCPURequest a = sum_list (map pod_cpu (as_pods a))"
proof -
  have e: "pr_CPURequest (CalculatePodResource pod) = pod_cpu pod" if "pod \<in> set (as_pods a)" for pod
    using CalculatePodResource_cpu assms(1,2) that by blast
  have nn: "0 \<le> pod_cpu pod" if "pod \<in> set (as_pods a)" for pod
    using that assms(1) by (auto simp: pod_cpu_def intro!: sum_list_nonneg)
  have "GetCPURequest a = fold (\<lambda>pod r. to_int64 (r + pod_cpu pod)) (as_pods a) 0"
    unfolding GetCPURequest_def by (rule fold_cong) (simp_all add: e)
  then show ?thesis using fold_wrap_exact [of "as_pods a" pod_cpu 0] nn assms(3) by simp
qed

section \<open>Facts: labels\<close>

lemma map_of_copy_labels: "wf_map l \<Longrightarrow> map_of (copy_labels l m) = map_of m ++ map_of l"
proof (induction l m rule: copy_labels.induct)
  case (2 k v l m)
  then have "map_of l k = None" "wf_map l" by (auto simp: wf_map_Cons)
  with 2 show ?case by (auto simp: fun_eq_iff map_add_def split: option.splits)
qed simp

end
