(* ===== verification/EventStore.thy ===== *)
theory EventStore
  imports GoBase
begin

text \<open>
  \<open>eventlog/store\<close>: the stores of the event log. Messages of an event are collected in a barrel and
  persisted in batches (\<open>barrel.go\<close>, \<open>handle_message_store.go\<close>), the logs of containers likewise
  (\<open>docker_log_store.go\<close>), and readers subscribe to the messages of an event
  (\<open>read_message_store.go\<close>).

  \<^item> A channel is the list of what was sent; \<open>cap\<close> is its capacity. A send in a \<open>select\<close> with a
    \<open>default\<close> is dropped when the channel is full; a plain send is delivered (the code waits).
  \<^item> \<open>saved\<close> is what the plugin has stored; \<open>SaveMessage\<close> says whether a batch is accepted. What
    \<open>sync.Pool.Get\<close> returns is an argument.
  \<^item> \<open>InsertMessage\<close> first looks the barrel up under the read lock (\<open>insert_known\<close>) and then creates
    one under the write lock (\<open>insert_new\<close>). A definition says what the code does when nothing else
    runs between its lines: two calls of \<open>insertMessage\<close> for one event both hold the read lock and
    may overlap inside \<open>barrel.insert\<close>, and between the two halves of \<open>InsertMessage\<close> the lock is
    released. The runs \<open>es_run\<close> are those whose inserts do not overlap; what an overlap between the
    two halves loses is shown separately.
  \<^item> The readers of an event are modelled with their interleavings: the append and the sends of
    \<open>insertMessage\<close> and the goroutine of a subscription are steps of their own (\<open>read_step\<close>).
\<close>

section \<open>Barrels\<close>

record EventLogMessage =
  lm_EventID :: string
  lm_Step :: string
  lm_Status :: string
  lm_Message :: string
  lm_Level :: string
  lm_Time :: string
  lm_Content :: "string option"

record EventBarrel =
  eb_eventID :: string
  eb_barrel :: "EventLogMessage list"
  eb_persistenceBarrel :: "EventLogMessage list"
  eb_needPersistence :: bool
  eb_maxNumber :: int
  eb_cacheNumber :: int
  eb_size :: int
  eb_isCallback :: bool
  eb_updateTime :: int

record events =
  ch_events :: "string list list"
  ch_cap :: nat

definition try_send :: "string list \<Rightarrow> events \<Rightarrow> events" where
  "try_send ev ch = (if length (ch_events ch) < ch_cap ch then ch\<lparr>ch_events := ch_events ch @ [ev]\<rparr> else ch)"

definition send_event :: "string list \<Rightarrow> events \<Rightarrow> events" where
  "send_event ev ch = ch\<lparr>ch_events := ch_events ch @ [ev]\<rparr>"

definition barrel_persistence :: "EventBarrel \<Rightarrow> events \<Rightarrow> EventBarrel \<times> events" where
  "barrel_persistence e ch =
     (e\<lparr>eb_needPersistence := True, eb_persistenceBarrel := eb_persistenceBarrel e @ eb_barrel e, eb_barrel := []\<rparr>,
      try_send [''persistence'', eb_eventID e] ch)"

definition analysis :: "EventLogMessage \<Rightarrow> EventBarrel \<Rightarrow> events \<Rightarrow> EventBarrel \<times> events" where
  "analysis m e ch =
     (let (e, ch) = (if lm_Step m = ''last'' \<or> lm_Step m = ''callback''
                     then (let (e, ch) = barrel_persistence e ch
                           in (e, send_event [''callback'', eb_eventID e, lm_Status m, lm_Message m] ch))
                     else (e, ch));
          ch = (if lm_Step m = ''code-version'' then send_event [''code-version'', eb_eventID e, lm_Message m] ch else ch)
      in (e, ch))"

definition barrel_insert :: "int \<Rightarrow> EventLogMessage \<Rightarrow> EventBarrel \<Rightarrow> events \<Rightarrow> (string + EventBarrel) \<times> events" where
  "barrel_insert now m e ch =
     (if eb_size e > eb_maxNumber e
      then (Inl ''received message number more than peer event max message number'', ch)
      else if lm_Step m = ''progress'' then (Inr e, ch)
      else
        (let e = e\<lparr>eb_barrel := eb_barrel e @ [m], eb_size := eb_size e + 1\<rparr>;
             (e, ch) = analysis m e ch;
             (e, ch) = (if int (length (eb_barrel e)) \<ge> eb_cacheNumber e then barrel_persistence e ch else (e, ch))
         in (Inr (e\<lparr>eb_updateTime := now\<rparr>), ch)))"

definition barrel_empty :: "EventBarrel \<Rightarrow> EventBarrel" where
  "barrel_empty e =
     e\<lparr>eb_size := 0, eb_eventID := [], eb_barrel := [], eb_persistenceBarrel := [], eb_needPersistence := False,
       eb_isCallback := False\<rparr>"

definition gcPersistence :: "EventBarrel \<Rightarrow> EventBarrel" where
  "gcPersistence e =
     e\<lparr>eb_needPersistence := True, eb_persistenceBarrel := eb_persistenceBarrel e @ eb_barrel e, eb_barrel := []\<rparr>"

definition new_barrel :: "int \<Rightarrow> int \<Rightarrow> EventBarrel" where
  "new_barrel maxNumber cacheNumber =
     \<lparr>eb_eventID = [], eb_barrel = [], eb_persistenceBarrel = [], eb_needPersistence = False, eb_maxNumber = maxNumber,
      eb_cacheNumber = cacheNumber, eb_size = 0, eb_isCallback = False, eb_updateTime = 0\<rparr>"

section \<open>The store of operation events\<close>

record handleMessageStore =
  hs_barrels :: "(string, EventBarrel) gomap"
  hs_garbage :: "EventLogMessage list"
  hs_saved :: "EventLogMessage list"
  hs_file :: string
  hs_chan :: events
  hs_size :: int
  hs_allLogCount :: nat
  hs_allBarrel :: nat
  hs_stopGarbage :: bool

definition InsertGarbageMessage :: "EventLogMessage list \<Rightarrow> handleMessageStore \<Rightarrow> handleMessageStore" where
  "InsertGarbageMessage ms h = h\<lparr>hs_garbage := hs_garbage h @ ms\<rparr>"

definition insert_known :: "int \<Rightarrow> EventLogMessage \<Rightarrow> handleMessageStore \<Rightarrow> bool \<times> handleMessageStore" where
  "insert_known now m h =
     (case map_of (hs_barrels h) (lm_EventID m) of
        None \<Rightarrow> (False, h)
      | Some b \<Rightarrow>
          (case barrel_insert now m b (hs_chan h) of
             (Inl err, ch) \<Rightarrow> (True, InsertGarbageMessage [m] (h\<lparr>hs_chan := ch\<rparr>))
           | (Inr b', ch) \<Rightarrow> (True, h\<lparr>hs_barrels := map_set (lm_EventID m) b' (hs_barrels h), hs_chan := ch\<rparr>)))"

definition insert_new :: "int \<Rightarrow> EventBarrel \<Rightarrow> EventLogMessage \<Rightarrow> handleMessageStore \<Rightarrow> handleMessageStore" where
  \<comment> \<open>\<open>pooled\<close> is what the object pool returns.\<close>
  "insert_new now pooled m h =
     (let b = pooled\<lparr>eb_eventID := lm_EventID m\<rparr>;
          (r, ch) = barrel_insert now m b (hs_chan h);
          h = h\<lparr>hs_chan := ch\<rparr>;
          h = (case r of Inl err \<Rightarrow> InsertGarbageMessage [m] h | Inr _ \<Rightarrow> h);
          b = (case r of Inl err \<Rightarrow> b | Inr b' \<Rightarrow> b')
      in h\<lparr>hs_barrels := map_set (lm_EventID m) b (hs_barrels h), hs_allBarrel := hs_allBarrel h + 1\<rparr>)"

definition InsertMessage ::
  "int \<Rightarrow> EventBarrel \<Rightarrow> EventLogMessage option \<Rightarrow> handleMessageStore \<Rightarrow> handleMessageStore" where
  "InsertMessage now pooled message h =
     (case message of
        None \<Rightarrow> h
      | Some m \<Rightarrow>
          if lm_EventID m = [] then h
          else
            (let h = h\<lparr>hs_size := hs_size h + 1, hs_allLogCount := hs_allLogCount h + 1\<rparr>
             in case insert_known now m h of
                  (True, h) \<Rightarrow> h
                | (False, h) \<Rightarrow> insert_new now pooled m h))"

definition save :: "(EventLogMessage list \<Rightarrow> bool) \<Rightarrow> EventLogMessage list \<Rightarrow> handleMessageStore \<Rightarrow> handleMessageStore" where
  "save SaveMessage ms h =
     (if SaveMessage ms then h\<lparr>hs_saved := hs_saved h @ ms\<rparr> else InsertGarbageMessage ms h)"

definition saveBeforeGc ::
  "(EventLogMessage list \<Rightarrow> bool) \<Rightarrow> string \<Rightarrow> handleMessageStore \<Rightarrow> handleMessageStore" where
  "saveBeforeGc SaveMessage k h =
     (case map_of (hs_barrels h) k of
        None \<Rightarrow> h
      | Some b \<Rightarrow>
          (let b = gcPersistence b;
               h = (if length (eb_persistenceBarrel b) > 0 then save SaveMessage (eb_persistenceBarrel b) h else h)
           in h\<lparr>hs_barrels := map_set k (b\<lparr>eb_persistenceBarrel := []\<rparr>) (hs_barrels h)\<rparr>))"

definition second :: int where "second = 1000000000"

definition gcRun ::
  "((string, EventBarrel) gomap \<Rightarrow> (string, EventBarrel) gomap) \<Rightarrow> (EventLogMessage list \<Rightarrow> bool) \<Rightarrow> int \<Rightarrow>
   handleMessageStore \<Rightarrow> handleMessageStore" where
  "gcRun rng SaveMessage now h =
     (if length (hs_barrels h) = 0 then h
      else
        (let gcEvent = map fst (filter (\<lambda>(k, v). eb_updateTime v + 30 * second < now) (rng (hs_barrels h)));
             h = fold (saveBeforeGc SaveMessage) gcEvent h
         in h\<lparr>hs_barrels := fold AList.delete gcEvent (hs_barrels h)\<rparr>))"

text \<open>
  \<open>stop\<close> closes \<open>stopGarbage\<close> after it has saved the barrels (\<open>None\<close>: closing it again panics); the
  goroutine \<open>handleGarbageMessage\<close> then saves the garbage and ends.
\<close>

definition stop ::
  "((string, EventBarrel) gomap \<Rightarrow> (string, EventBarrel) gomap) \<Rightarrow> (EventLogMessage list \<Rightarrow> bool) \<Rightarrow>
   handleMessageStore \<Rightarrow> handleMessageStore option" where
  "stop rng SaveMessage h =
     (let h = fold (saveBeforeGc SaveMessage) (map fst (rng (hs_barrels h))) h
      in if hs_stopGarbage h then None else Some (h\<lparr>hs_stopGarbage := True\<rparr>))"

definition persistence :: "(EventLogMessage list \<Rightarrow> bool) \<Rightarrow> string \<Rightarrow> handleMessageStore \<Rightarrow> handleMessageStore" where
  "persistence SaveMessage k h =
     (case map_of (hs_barrels h) k of
        None \<Rightarrow> h
      | Some b \<Rightarrow>
          if eb_needPersistence b
          then (let h = save SaveMessage (eb_persistenceBarrel b) h
                in h\<lparr>hs_barrels := map_set k (b\<lparr>eb_persistenceBarrel := [], eb_needPersistence := False\<rparr>) (hs_barrels h)\<rparr>)
          else h)"

definition garbage_line :: "EventLogMessage \<Rightarrow> string" where
  "garbage_line m =
     (case lm_Content m of
        None \<Rightarrow> []
      | Some _ \<Rightarrow> ''('' @ lm_Step m @ ''-'' @ lm_Level m @ '') '' @ lm_Time m @ '': '' @ lm_Message m @ [CHR 0x0A])"

definition saveGarbageMessage :: "bool \<Rightarrow> handleMessageStore \<Rightarrow> handleMessageStore" where
  "saveGarbageMessage appendOk h =
     (let content = concat (map garbage_line (hs_garbage h));
          h = (if appendOk then h\<lparr>hs_file := hs_file h @ content\<rparr> else h)
      in h\<lparr>hs_garbage := []\<rparr>)"

text \<open>One turn of \<open>handleGarbageMessage\<close>: the ticker, the channel \<open>garbageGC\<close>, or the closed \<open>stopGarbage\<close>.\<close>

datatype garbage_wakeup = GarbageTick | GarbageGC | StopGarbage

definition handleGarbageMessage_turn :: "garbage_wakeup \<Rightarrow> bool \<Rightarrow> handleMessageStore \<Rightarrow> handleMessageStore" where
  "handleGarbageMessage_turn w appendOk h =
     (case w of
        GarbageTick \<Rightarrow> if length (hs_garbage h) > 0 then saveGarbageMessage appendOk h else h
      | GarbageGC \<Rightarrow> saveGarbageMessage appendOk h
      | StopGarbage \<Rightarrow> if hs_stopGarbage h then saveGarbageMessage appendOk h else h)"

text \<open>The history of an event: \<open>None\<close> is a panic (no such event, or a negative slice bound).\<close>

definition GetHistoryMessage :: "string \<Rightarrow> int \<Rightarrow> handleMessageStore \<Rightarrow> string list option" where
  "GetHistoryMessage eventID len h =
     (case map_of (hs_barrels h) eventID of
        None \<Rightarrow> None
      | Some b \<Rightarrow>
          (let re = map (\<lambda>m. case lm_Content m of Some c \<Rightarrow> c | None \<Rightarrow> []) (eb_barrel b)
           in if int (length re) > len \<and> len \<noteq> 0
              then (if len - 1 < 0 then None else Some (take (nat (len - 1)) re))
              else Some re))"

section \<open>Conservation of messages\<close>

definition barrel_msgs :: "EventBarrel \<Rightarrow> EventLogMessage multiset" where
  "barrel_msgs b = mset (eb_persistenceBarrel b) + mset (eb_barrel b)"

definition map_sum_of :: "('v \<Rightarrow> 'm multiset) \<Rightarrow> ('k, 'v) gomap \<Rightarrow> 'm multiset" where
  "map_sum_of f m = sum_list (map (f \<circ> snd) m)"

lemma map_sum_of_absent: "map_of m k = None \<Longrightarrow> map_sum_of f (map_set k v m) = map_sum_of f m + f v"
  by (induction m) (auto simp: map_sum_of_def split: if_splits)

lemma map_sum_of_present:
  "wf_map m \<Longrightarrow> map_of m k = Some v \<Longrightarrow> map_sum_of f (map_set k w m) + f v = map_sum_of f m + f w"
  by (induction m) (auto simp: map_sum_of_def wf_map_def split: if_splits)

lemma wf_map_delete [simp]: "wf_map m \<Longrightarrow> wf_map (AList.delete k m)"
  by (simp add: wf_map_def distinct_delete)

lemma map_sum_of_delete: "wf_map m \<Longrightarrow> map_of m k = Some v \<Longrightarrow> map_sum_of f (AList.delete k m) + f v = map_sum_of f m"
proof (induction m)
  case (Cons x m)
  obtain k' v' where x: "x = (k', v')" by (cases x)
  show ?case
  proof (cases "k' = k")
    case True
    have "k \<notin> fst ` set m" using Cons.prems x True by (simp add: wf_map_def)
    then have "AList.delete k m = m" by simp
    then show ?thesis using Cons.prems x True by (simp add: map_sum_of_def add.commute)
  next
    case False
    then show ?thesis using Cons x by (simp add: map_sum_of_def wf_map_def add.assoc)
  qed
qed simp

lemma map_sum_of_empty: "(\<And>x. x \<in> set m \<Longrightarrow> f (snd x) = {#}) \<Longrightarrow> map_sum_of f m = {#}"
  by (induction m) (auto simp: map_sum_of_def)

text \<open>Every message the store has accepted: stored, waiting as garbage, or in a barrel.\<close>

definition content :: "handleMessageStore \<Rightarrow> EventLogMessage multiset" where
  "content h = mset (hs_saved h) + mset (hs_garbage h) + map_sum_of barrel_msgs (hs_barrels h)"

lemma analysis_msgs: "analysis m e ch = (e', ch') \<Longrightarrow> barrel_msgs e' = barrel_msgs e \<and> eb_size e' = eb_size e \<and> eb_maxNumber e' = eb_maxNumber e \<and> eb_cacheNumber e' = eb_cacheNumber e"
  by (auto simp: analysis_def barrel_persistence_def barrel_msgs_def Let_def split: if_splits)

lemma barrel_insert_msgs:
  assumes "barrel_insert now m e ch = (Inr e', ch')"
  shows "barrel_msgs e' = barrel_msgs e + (if lm_Step m = ''progress'' then {#} else {#m#})"
    and "eb_size e' = (if lm_Step m = ''progress'' then eb_size e else eb_size e + 1)" "eb_maxNumber e' = eb_maxNumber e"
    and "eb_size e \<le> eb_maxNumber e"
proof -
  obtain e1 ch1 where a: "analysis m (e\<lparr>eb_barrel := eb_barrel e @ [m], eb_size := eb_size e + 1\<rparr>) ch = (e1, ch1)" by fastforce
  note sp = analysis_msgs [OF a]
  have p: "barrel_msgs y = barrel_msgs x \<and> eb_size y = eb_size x \<and> eb_maxNumber y = eb_maxNumber x"
    if "barrel_persistence x c = (y, c')" for x c y c'
    using that by (auto simp: barrel_persistence_def barrel_msgs_def)
  have u: "barrel_msgs (x\<lparr>eb_updateTime := t\<rparr>) = barrel_msgs x" for x t by (simp add: barrel_msgs_def)
  have i: "barrel_msgs (e\<lparr>eb_barrel := eb_barrel e @ [m], eb_size := eb_size e + 1\<rparr>) = barrel_msgs e + {#m#}"
    by (simp add: barrel_msgs_def)
  show "barrel_msgs e' = barrel_msgs e + (if lm_Step m = ''progress'' then {#} else {#m#})"
    and "eb_size e' = (if lm_Step m = ''progress'' then eb_size e else eb_size e + 1)" "eb_maxNumber e' = eb_maxNumber e"
    and "eb_size e \<le> eb_maxNumber e"
    using assms a sp i u by (auto simp: barrel_insert_def Let_def dest: p split: if_splits prod.splits)
qed

definition wf_store :: "handleMessageStore \<Rightarrow> bool" where
  "wf_store h \<longleftrightarrow> wf_map (hs_barrels h) \<and> (\<forall>k b. map_of (hs_barrels h) k = Some b \<longrightarrow> eb_size b \<le> eb_maxNumber b + 1)"

text \<open>A barrel as the pool gives it: new, or emptied.\<close>

definition pool_barrel :: "EventBarrel \<Rightarrow> bool" where
  "pool_barrel b \<longleftrightarrow> barrel_msgs b = {#} \<and> eb_size b = 0 \<and> 0 \<le> eb_maxNumber b"

lemma barrel_empty_pool: "0 \<le> eb_maxNumber b \<Longrightarrow> pool_barrel (barrel_empty b)"
  by (simp add: pool_barrel_def barrel_empty_def barrel_msgs_def)

lemma new_barrel_pool: "0 \<le> n \<Longrightarrow> pool_barrel (new_barrel n c)"
  by (simp add: pool_barrel_def new_barrel_def barrel_msgs_def)

definition added :: "EventLogMessage \<Rightarrow> EventBarrel option \<Rightarrow> EventLogMessage multiset" where
  \<comment> \<open>A progress message is not kept, unless the barrel is full and it becomes garbage.\<close>
  "added m b = (if lm_Step m = ''progress'' \<and> (case b of Some b \<Rightarrow> eb_size b \<le> eb_maxNumber b | None \<Rightarrow> True) then {#} else {#m#})"

lemma insert_known_content:
  assumes "wf_store h" "insert_known now m h = (True, h')"
  shows "content h' = content h + added m (map_of (hs_barrels h) (lm_EventID m))" "wf_store h'"
proof -
  obtain b where b: "map_of (hs_barrels h) (lm_EventID m) = Some b"
    using assms(2) by (auto simp: insert_known_def split: option.splits)
  obtain r ch where i: "barrel_insert now m b (hs_chan h) = (r, ch)" by fastforce
  show "content h' = content h + added m (map_of (hs_barrels h) (lm_EventID m))"
  proof (cases r)
    case (Inl err)
    then have "eb_size b > eb_maxNumber b" using i by (auto simp: barrel_insert_def Let_def split: if_splits prod.splits)
    then show ?thesis using assms b i Inl by (auto simp: insert_known_def content_def InsertGarbageMessage_def added_def)
  next
    case (Inr b')
    note bi = barrel_insert_msgs [OF i [unfolded Inr]]
    have "map_sum_of barrel_msgs (map_set (lm_EventID m) b' (hs_barrels h)) + barrel_msgs b =
        map_sum_of barrel_msgs (hs_barrels h) + barrel_msgs b'"
      by (rule map_sum_of_present [OF _ b]) (use assms(1) in \<open>simp add: wf_store_def\<close>)
    then have "map_sum_of barrel_msgs (map_set (lm_EventID m) b' (hs_barrels h)) =
        map_sum_of barrel_msgs (hs_barrels h) + added m (Some b)"
      using bi(1,4) by (simp add: added_def split: if_splits)
    then show ?thesis using assms(2) b i Inr by (auto simp: insert_known_def content_def)
  qed
  show "wf_store h'"
    using assms b i barrel_insert_msgs [of now m b "hs_chan h"]
    by (cases r) (auto simp: insert_known_def wf_store_def InsertGarbageMessage_def split: if_splits)
qed

lemma insert_new_content:
  assumes "wf_store h" "pool_barrel pooled" "map_of (hs_barrels h) (lm_EventID m) = None"
  shows "content (insert_new now pooled m h) = content h + added m None" "wf_store (insert_new now pooled m h)"
proof -
  let ?b = "pooled\<lparr>eb_eventID := lm_EventID m\<rparr>"
  have sz: "eb_size ?b \<le> eb_maxNumber ?b" "barrel_msgs ?b = {#}" using assms(2) by (auto simp: pool_barrel_def barrel_msgs_def)
  obtain r ch where i: "barrel_insert now m ?b (hs_chan h) = (r, ch)" by fastforce
  obtain b' where r: "r = Inr b'"
    using i sz(1) by (auto simp: barrel_insert_def Let_def split: if_splits prod.splits)
  note bi = barrel_insert_msgs [OF i [unfolded r]]
  have n: "insert_new now pooled m h =
      h\<lparr>hs_chan := ch, hs_barrels := map_set (lm_EventID m) b' (hs_barrels h), hs_allBarrel := hs_allBarrel h + 1\<rparr>"
    using i r by (simp add: insert_new_def Let_def)
  show "content (insert_new now pooled m h) = content h + added m None"
    using bi(1) sz(2) map_sum_of_absent [OF assms(3), of barrel_msgs b'] by (simp add: n content_def added_def)
  show "wf_store (insert_new now pooled m h)"
    using assms(1) bi(2-4) by (auto simp: n wf_store_def)
qed

lemma InsertMessage_content:
  assumes "wf_store h" "pool_barrel pooled" "lm_EventID m \<noteq> []"
  shows "content (InsertMessage now pooled (Some m) h) = content h + added m (map_of (hs_barrels h) (lm_EventID m))"
    and "wf_store (InsertMessage now pooled (Some m) h)"
proof -
  let ?h = "h\<lparr>hs_size := hs_size h + 1, hs_allLogCount := hs_allLogCount h + 1\<rparr>"
  have c: "content ?h = content h" "wf_store ?h" using assms(1) by (simp_all add: content_def wf_store_def)
  obtain f h' where k: "insert_known now m ?h = (f, h')" by fastforce
  have nf: "f = False \<longleftrightarrow> map_of (hs_barrels h) (lm_EventID m) = None" "f = False \<Longrightarrow> h' = ?h"
    using k by (auto simp: insert_known_def split: option.splits prod.splits sum.splits)
  have "content (InsertMessage now pooled (Some m) h) = content h + added m (map_of (hs_barrels h) (lm_EventID m)) \<and>
      wf_store (InsertMessage now pooled (Some m) h)"
  proof (cases f)
    case True
    then show ?thesis using insert_known_content [OF c(2), of now m h'] k assms(3) c(1) by (simp add: InsertMessage_def Let_def)
  next
    case False
    then have "InsertMessage now pooled (Some m) h = insert_new now pooled m ?h" "map_of (hs_barrels ?h) (lm_EventID m) = None"
      using k nf assms(3) by (simp_all add: InsertMessage_def Let_def)
    then show ?thesis using insert_new_content [OF c(2) assms(2)] c(1) by simp
  qed
  then show "content (InsertMessage now pooled (Some m) h) = content h + added m (map_of (hs_barrels h) (lm_EventID m))"
    and "wf_store (InsertMessage now pooled (Some m) h)" by auto
qed

lemma save_content: "content (save S ms h) = content h + mset ms" "hs_barrels (save S ms h) = hs_barrels h"
  by (simp_all add: save_def content_def InsertGarbageMessage_def)

lemma content_set_barrel:
  assumes "wf_map (hs_barrels h)" "map_of (hs_barrels h) k = Some b"
  shows "content (h\<lparr>hs_barrels := map_set k b' (hs_barrels h)\<rparr>) + barrel_msgs b = content h + barrel_msgs b'"
  using map_sum_of_present [OF assms, of barrel_msgs b'] by (simp add: content_def ac_simps)

lemma saveBeforeGc_content:
  assumes "wf_store h"
  shows "content (saveBeforeGc S k h) = content h" "wf_store (saveBeforeGc S k h)"
    and "k' \<noteq> k \<Longrightarrow> map_of (hs_barrels (saveBeforeGc S k h)) k' = map_of (hs_barrels h) k'"
    and "dom (map_of (hs_barrels (saveBeforeGc S k h))) = dom (map_of (hs_barrels h))"
    and "\<forall>b. map_of (hs_barrels (saveBeforeGc S k h)) k = Some b \<longrightarrow> barrel_msgs b = {#}"
proof -
  have "content (saveBeforeGc S k h) = content h \<and> wf_store (saveBeforeGc S k h)"
  proof (cases "map_of (hs_barrels h) k")
    case (Some b)
    define ms where "ms = eb_persistenceBarrel b @ eb_barrel b"
    define h1 where "h1 = (if length ms > 0 then save S ms h else h)"
    define b' where "b' = (gcPersistence b)\<lparr>eb_persistenceBarrel := []\<rparr>"
    have g: "saveBeforeGc S k h = h1\<lparr>hs_barrels := map_set k b' (hs_barrels h1)\<rparr>"
      using Some by (simp add: saveBeforeGc_def gcPersistence_def Let_def h1_def b'_def ms_def)
    have h1: "content h1 = content h + mset ms" "hs_barrels h1 = hs_barrels h" by (auto simp: h1_def save_content)
    have "content (h1\<lparr>hs_barrels := map_set k b' (hs_barrels h1)\<rparr>) + barrel_msgs b = content h1 + barrel_msgs b'"
      by (rule content_set_barrel) (use assms Some h1 in \<open>auto simp: wf_store_def\<close>)
    moreover have "barrel_msgs b' = {#}" "barrel_msgs b = mset ms" by (simp_all add: barrel_msgs_def b'_def gcPersistence_def ms_def)
    moreover have "wf_store (h1\<lparr>hs_barrels := map_set k b' (hs_barrels h1)\<rparr>)"
      using assms Some h1(2) by (auto simp: wf_store_def b'_def gcPersistence_def)
    ultimately show ?thesis using g h1(1) by simp
  qed (use assms in \<open>simp add: saveBeforeGc_def\<close>)
  then show "content (saveBeforeGc S k h) = content h" "wf_store (saveBeforeGc S k h)" by auto
  show "k' \<noteq> k \<Longrightarrow> map_of (hs_barrels (saveBeforeGc S k h)) k' = map_of (hs_barrels h) k'"
    and "dom (map_of (hs_barrels (saveBeforeGc S k h))) = dom (map_of (hs_barrels h))"
    and "\<forall>b. map_of (hs_barrels (saveBeforeGc S k h)) k = Some b \<longrightarrow> barrel_msgs b = {#}"
    by (auto simp: saveBeforeGc_def Let_def save_content barrel_msgs_def gcPersistence_def split: option.splits)
qed

definition drained :: "handleMessageStore \<Rightarrow> string \<Rightarrow> bool" where
  "drained h k \<longleftrightarrow> (\<forall>b. map_of (hs_barrels h) k = Some b \<longrightarrow> barrel_msgs b = {#})"

lemma saveBeforeGc_drained: "wf_store h \<Longrightarrow> j = k \<or> drained h j \<Longrightarrow> drained (saveBeforeGc S k h) j"
  using saveBeforeGc_content(3) [where h = h and S = S and k = k and k' = j]
    saveBeforeGc_content(5) [where h = h and S = S and k = k]
  by (cases "j = k") (auto simp: drained_def)

lemma saves_content:
  assumes "wf_store h"
  shows "content (fold (saveBeforeGc S) ks h) = content h \<and> wf_store (fold (saveBeforeGc S) ks h)"
  using assms by (induction ks arbitrary: h) (simp_all add: saveBeforeGc_content)

lemma saves_drained:
  assumes "wf_store h" "k \<in> set ks \<or> drained h k"
  shows "drained (fold (saveBeforeGc S) ks h) k"
  using assms
  by (induction ks arbitrary: h) (auto simp: saveBeforeGc_content(2) saveBeforeGc_drained)

lemma delete_drained:
  assumes "wf_store h" "\<forall>k \<in> set ks. drained h k"
  shows "content (h\<lparr>hs_barrels := fold AList.delete ks (hs_barrels h)\<rparr>) = content h"
    and "wf_store (h\<lparr>hs_barrels := fold AList.delete ks (hs_barrels h)\<rparr>)"
proof -
  have "content (h\<lparr>hs_barrels := fold AList.delete ks (hs_barrels h)\<rparr>) = content h \<and>
      wf_store (h\<lparr>hs_barrels := fold AList.delete ks (hs_barrels h)\<rparr>)"
    using assms
  proof (induction ks arbitrary: h)
    case (Cons k ks)
    let ?h = "h\<lparr>hs_barrels := AList.delete k (hs_barrels h)\<rparr>"
    have w: "wf_store ?h" using Cons.prems(1) by (auto simp: wf_store_def delete_conv' split: if_splits)
    have d: "\<forall>j \<in> set ks. drained ?h j" using Cons.prems(2) by (auto simp: drained_def delete_conv' split: if_splits)
    have "content ?h = content h"
    proof (cases "map_of (hs_barrels h) k")
      case None
      then have "AList.delete k (hs_barrels h) = hs_barrels h" by (simp add: map_of_eq_None_iff)
      then show ?thesis by simp
    next
      case (Some b)
      then have "barrel_msgs b = {#}" using Cons.prems(2) by (simp add: drained_def)
      then show ?thesis
        using map_sum_of_delete [OF _ Some, of barrel_msgs] Cons.prems(1) by (simp add: content_def wf_store_def)
    qed
    with Cons.IH [OF w d] show ?case by simp
  qed simp
  then show "content (h\<lparr>hs_barrels := fold AList.delete ks (hs_barrels h)\<rparr>) = content h"
    and "wf_store (h\<lparr>hs_barrels := fold AList.delete ks (hs_barrels h)\<rparr>)" by auto
qed

lemma gcRun_content:
  assumes "wf_store h"
  shows "content (gcRun rng S now h) = content h" "wf_store (gcRun rng S now h)"
proof -
  define ks where "ks = map fst (filter (\<lambda>(k, v). eb_updateTime v + 30 * second < now) (rng (hs_barrels h)))"
  let ?h = "fold (saveBeforeGc S) ks h"
  have w: "wf_store ?h" "content ?h = content h" using saves_content [OF assms] by auto
  have d: "\<forall>k \<in> set ks. drained ?h k" using saves_drained [OF assms] by blast
  have "gcRun rng S now h = h \<or> gcRun rng S now h = ?h\<lparr>hs_barrels := fold AList.delete ks (hs_barrels ?h)\<rparr>"
    by (simp add: gcRun_def Let_def ks_def)
  then show "content (gcRun rng S now h) = content h" "wf_store (gcRun rng S now h)"
    using delete_drained [OF w(1) d] w(2) assms by auto
qed

lemma persistence_content:
  assumes "wf_store h"
  shows "content (persistence S k h) = content h" "wf_store (persistence S k h)"
proof -
  have "content (persistence S k h) = content h \<and> wf_store (persistence S k h)"
  proof (cases "\<exists>b. map_of (hs_barrels h) k = Some b \<and> eb_needPersistence b")
    case True
    then obtain b where b: "map_of (hs_barrels h) k = Some b" "eb_needPersistence b" by blast
    define h1 where "h1 = save S (eb_persistenceBarrel b) h"
    define b' where "b' = b\<lparr>eb_persistenceBarrel := [], eb_needPersistence := False\<rparr>"
    have p: "persistence S k h = h1\<lparr>hs_barrels := map_set k b' (hs_barrels h1)\<rparr>"
      using b by (simp add: persistence_def Let_def h1_def b'_def)
    have h1: "content h1 = content h + mset (eb_persistenceBarrel b)" "hs_barrels h1 = hs_barrels h"
      by (simp_all add: h1_def save_content)
    have "content (h1\<lparr>hs_barrels := map_set k b' (hs_barrels h1)\<rparr>) + barrel_msgs b = content h1 + barrel_msgs b'"
      by (rule content_set_barrel) (use assms b h1 in \<open>auto simp: wf_store_def\<close>)
    then show ?thesis using assms b h1 by (auto simp: p wf_store_def barrel_msgs_def b'_def)
  qed (use assms in \<open>auto simp: persistence_def split: option.splits\<close>)
  then show "content (persistence S k h) = content h" "wf_store (persistence S k h)" by auto
qed

lemma saves_stopGarbage: "hs_stopGarbage (fold (saveBeforeGc S) ks h) = hs_stopGarbage h"
proof -
  have "hs_stopGarbage (saveBeforeGc S k h) = hs_stopGarbage h" for k h
    by (simp add: saveBeforeGc_def save_def InsertGarbageMessage_def Let_def split: option.split)
  then show ?thesis by (induction ks arbitrary: h) simp_all
qed

lemma saves_file: "hs_file (fold (saveBeforeGc S) ks h) = hs_file h"
proof -
  have "hs_file (saveBeforeGc S k h) = hs_file h" for k h
    by (simp add: saveBeforeGc_def save_def InsertGarbageMessage_def Let_def split: option.split)
  then show ?thesis by (induction ks arbitrary: h) simp_all
qed

lemma stop_Some: "stop rng S h = Some h' \<longleftrightarrow>
    \<not> hs_stopGarbage h \<and> h' = (fold (saveBeforeGc S) (map fst (rng (hs_barrels h))) h)\<lparr>hs_stopGarbage := True\<rparr>"
  by (auto simp: stop_def Let_def saves_stopGarbage)

lemma stop_content:
  assumes "wf_store h" "stop rng S h = Some h'"
  shows "content h' = content h" "wf_store h'" "hs_file h' = hs_file h"
  using assms saves_content [OF assms(1), of S "map fst (rng (hs_barrels h))"]
  by (auto simp: stop_Some content_def wf_store_def saves_file)

lemma stop_drains:
  assumes "wf_store h" "is_range rng" "stop rng S h = Some h'"
  shows "map_sum_of barrel_msgs (hs_barrels h') = {#}"
proof -
  let ?ks = "map fst (rng (hs_barrels h))" and ?h = "fold (saveBeforeGc S) (map fst (rng (hs_barrels h))) h"
  have h': "hs_barrels h' = hs_barrels ?h" using assms(3) by (simp add: stop_Some)
  have w: "wf_store ?h" using saves_content [OF assms(1)] by blast
  have dom: "dom (map_of (hs_barrels (fold (saveBeforeGc S) ks g))) = dom (map_of (hs_barrels g))" if "wf_store g" for ks g
    using that by (induction ks arbitrary: g) (simp_all add: saveBeforeGc_content(2,4))
  have "barrel_msgs (snd x) = {#}" if "x \<in> set (hs_barrels ?h)" for x
  proof -
    have m: "map_of (hs_barrels ?h) (fst x) = Some (snd x)" using that w by (metis in_wf_map prod.collapse wf_store_def)
    then have "fst x \<in> dom (map_of (hs_barrels h))" using dom [OF assms(1), of ?ks] by (metis domI)
    then have "fst x \<in> set ?ks" using is_range_set [OF assms(2)] by (auto simp: dom_map_of_conv_image_fst)
    then have "drained ?h (fst x)" using saves_drained [OF assms(1)] by blast
    with m show ?thesis by (simp add: drained_def)
  qed
  then show ?thesis unfolding h' by (rule map_sum_of_empty)
qed

section \<open>Runs of the store\<close>

text \<open>
  A run of the store whose inserts do not overlap: the messages inserted, the messages written to the
  garbage file, the messages dropped by the goroutine that writes it, and the state. The object pool
  gives empty barrels; the plugin accepts or refuses each batch, and the file each append, as it likes.
  A turn that saves the garbage writes the messages that have a content, if the append succeeds; the
  others, or all of them if it fails, are dropped.
\<close>

definition new_store :: "nat \<Rightarrow> handleMessageStore" where
  "new_store cap = \<lparr>hs_barrels = [], hs_garbage = [], hs_saved = [], hs_file = [], hs_chan = \<lparr>ch_events = [], ch_cap = cap\<rparr>,
     hs_size = 0, hs_allLogCount = 0, hs_allBarrel = 0, hs_stopGarbage = False\<rparr>"

definition has_content :: "EventLogMessage \<Rightarrow> bool" where
  "has_content m \<longleftrightarrow> lm_Content m \<noteq> None"

inductive es_run ::
  "EventLogMessage list \<Rightarrow> EventLogMessage list \<Rightarrow> EventLogMessage multiset \<Rightarrow> handleMessageStore \<Rightarrow> bool" where
  Start: "es_run [] [] {#} (new_store cap)"
| Insert: "es_run ms filed lost h \<Longrightarrow> pool_barrel pooled \<Longrightarrow> lm_EventID m \<noteq> [] \<Longrightarrow>
    es_run (ms @ [m]) filed lost (InsertMessage now pooled (Some m) h)"
| Persist: "es_run ms filed lost h \<Longrightarrow> es_run ms filed lost (persistence S k h)"
| Gc: "es_run ms filed lost h \<Longrightarrow> es_run ms filed lost (gcRun rng S now h)"
| Stop: "es_run ms filed lost h \<Longrightarrow> stop rng S h = Some h' \<Longrightarrow> es_run ms filed lost h'"
| Idle: "es_run ms filed lost h \<Longrightarrow> handleGarbageMessage_turn w ok h = h \<Longrightarrow> es_run ms filed lost h"
| Appended: "es_run ms filed lost h \<Longrightarrow> handleGarbageMessage_turn w True h = h' \<Longrightarrow> h' \<noteq> h \<Longrightarrow>
    es_run ms (filed @ filter has_content (hs_garbage h)) (lost + mset (filter (\<lambda>m. \<not> has_content m) (hs_garbage h))) h'"
| Failed: "es_run ms filed lost h \<Longrightarrow> handleGarbageMessage_turn w False h = h' \<Longrightarrow> h' \<noteq> h \<Longrightarrow>
    es_run ms filed (lost + mset (hs_garbage h)) h'"

lemma garbage_turn:
  assumes "handleGarbageMessage_turn w ok h = h'" "h' \<noteq> h"
  shows "h' = saveGarbageMessage ok h"
  using assms by (auto simp: handleGarbageMessage_turn_def split: garbage_wakeup.splits if_splits)

lemma saveGarbage_content:
  "wf_store h \<Longrightarrow> content (saveGarbageMessage ok h) + mset (hs_garbage h) = content h"
  "wf_store h \<Longrightarrow> wf_store (saveGarbageMessage ok h)"
  by (simp_all add: saveGarbageMessage_def content_def wf_store_def Let_def)

lemma saveGarbage_file:
  "hs_file (saveGarbageMessage ok h) = hs_file h @ (if ok then concat (map garbage_line (filter has_content (hs_garbage h))) else [])"
proof -
  have "concat (map garbage_line ms) = concat (map garbage_line (filter has_content ms))" for ms
    by (induction ms) (auto simp: garbage_line_def has_content_def split: option.splits)
  then show ?thesis by (simp add: saveGarbageMessage_def Let_def)
qed

lemma mset_split: "mset (filter P xs) + mset (filter (\<lambda>x. \<not> P x) xs) = mset xs"
  by (simp flip: multiset_partition)

lemma steps_file [simp]:
  "hs_file (InsertMessage now pooled m h) = hs_file h" "hs_file (persistence S k h) = hs_file h" "hs_file (gcRun rng S now h) = hs_file h"
  by (simp_all add: InsertMessage_def insert_known_def insert_new_def InsertGarbageMessage_def persistence_def save_def gcRun_def saves_file Let_def
      split: option.split prod.split sum.split)

definition kept :: "EventLogMessage \<Rightarrow> bool" where
  "kept m \<longleftrightarrow> lm_Step m \<noteq> ''progress''"

lemma kept_added: "filter_mset kept (added m b) = filter_mset kept {#m#}"
  by (simp add: added_def kept_def)

lemma es_run_content:
  assumes "es_run ms filed lost h"
  shows "wf_store h \<and> filter_mset kept (content h + mset filed + lost) = filter_mset kept (mset ms) \<and>
    hs_file h = concat (map garbage_line filed)"
  using assms
proof induction
  case (Start cap)
  show ?case by (simp add: new_store_def wf_store_def content_def map_sum_of_def wf_map_def)
next
  case (Insert ms filed lost h pooled m now)
  then show ?case using InsertMessage_content [of h pooled m now] by (simp add: kept_added ac_simps)
next
  case (Stop ms filed lost h rng S h')
  then show ?case using stop_content by metis
next
  case (Appended ms filed lost h w h')
  note h' = garbage_turn [OF Appended.hyps(2,3)]
  have "content h + mset filed + lost = content h' + mset (filed @ filter has_content (hs_garbage h)) +
      (lost + mset (filter (\<lambda>m. \<not> has_content m) (hs_garbage h)))"
    using saveGarbage_content(1) [of h True] mset_split [of has_content "hs_garbage h"] Appended.IH
    by (simp add: h' ac_simps)
  then have "filter_mset kept (content h' + mset (filed @ filter has_content (hs_garbage h)) +
      (lost + mset (filter (\<lambda>m. \<not> has_content m) (hs_garbage h)))) = filter_mset kept (mset ms)"
    using Appended.IH by metis
  then show ?case using Appended.IH saveGarbage_content(2) [of h True] saveGarbage_file [of True h] by (simp add: h')
next
  case (Failed ms filed lost h w h')
  note h' = garbage_turn [OF Failed.hyps(2,3)]
  have "content h + mset filed + lost = content h' + mset filed + (lost + mset (hs_garbage h))"
    using saveGarbage_content(1) [of h False] Failed.IH by (simp add: h' ac_simps)
  then have "filter_mset kept (content h' + mset filed + (lost + mset (hs_garbage h))) = filter_mset kept (mset ms)"
    using Failed.IH by metis
  then show ?case using Failed.IH saveGarbage_content(2) [of h False] saveGarbage_file [of False h] by (simp add: h')
qed (simp_all add: persistence_content gcRun_content)

section \<open>Two first messages at the same time\<close>

text \<open>
  Two goroutines that insert the first messages of an event may both find no barrel; the second of
  them then replaces the barrel of the first, whose message is gone.
\<close>

lemma insert_race_loses:
  assumes "wf_store h" "pool_barrel p1" "pool_barrel p2" "map_of (hs_barrels h) i = None"
    and "lm_EventID m1 = i" "lm_EventID m2 = i" "lm_Step m1 \<noteq> ''progress''" "lm_Step m2 \<noteq> ''progress''"
  shows "insert_known t1 m1 h = (False, h)" "insert_known t2 m2 h = (False, h)"
    and "content (insert_new t2 p2 m2 (insert_new t1 p1 m1 h)) = content h + {#m2#}"
proof -
  show "insert_known t1 m1 h = (False, h)" "insert_known t2 m2 h = (False, h)"
    using assms(4-6) by (simp_all add: insert_known_def)
  obtain h1 where h1: "h1 = insert_new t1 p1 m1 h" by blast
  have w: "wf_store h1" "content h1 = content h + {#m1#}"
    using insert_new_content [OF assms(1,2), of m1 t1] assms(4,5,7) by (simp_all add: h1 added_def)
  have fit: "eb_size (p\<lparr>eb_eventID := i\<rparr>) \<le> eb_maxNumber (p\<lparr>eb_eventID := i\<rparr>)" "barrel_msgs (p\<lparr>eb_eventID := i\<rparr>) = {#}"
    if "pool_barrel p" for p using that by (auto simp: pool_barrel_def barrel_msgs_def)
  have new: "\<exists>b ch. insert_new t p m g = g\<lparr>hs_chan := ch, hs_barrels := map_set i b (hs_barrels g), hs_allBarrel := hs_allBarrel g + 1\<rparr>
      \<and> barrel_msgs b = {#m#}" if p: "pool_barrel p" and m: "lm_EventID m = i" "lm_Step m \<noteq> ''progress''" for t p m g
  proof -
    obtain r ch where r: "barrel_insert t m (p\<lparr>eb_eventID := i\<rparr>) (hs_chan g) = (r, ch)" by fastforce
    obtain b where b: "r = Inr b"
      using r fit(1) [OF p] by (auto simp: barrel_insert_def Let_def split: if_splits prod.splits)
    have "barrel_msgs b = {#m#}" using barrel_insert_msgs(1) [OF r [unfolded b]] fit(2) [OF p] m(2) by simp
    with r b m(1) show ?thesis by (auto simp: insert_new_def Let_def)
  qed
  obtain b1 ch1 where b1: "h1 = h\<lparr>hs_chan := ch1, hs_barrels := map_set i b1 (hs_barrels h), hs_allBarrel := hs_allBarrel h + 1\<rparr>"
      "barrel_msgs b1 = {#m1#}" using new [OF assms(2,5,7), of t1 h] h1 by auto
  obtain b2 ch2 where b2: "insert_new t2 p2 m2 h1 = h1\<lparr>hs_chan := ch2, hs_barrels := map_set i b2 (hs_barrels h1), hs_allBarrel := hs_allBarrel h1 + 1\<rparr>"
      "barrel_msgs b2 = {#m2#}" using new [OF assms(3,6,8), of t2 h1] by auto
  have "map_of (hs_barrels h1) i = Some b1" by (simp add: b1)
  then have "map_sum_of barrel_msgs (map_set i b2 (hs_barrels h1)) + {#m1#} = map_sum_of barrel_msgs (hs_barrels h1) + {#m2#}"
    using map_sum_of_present [of "hs_barrels h1" i b1 barrel_msgs b2] w(1) b1(2) b2(2) by (simp add: wf_store_def)
  moreover have "content h1 = mset (hs_saved h1) + mset (hs_garbage h1) + map_sum_of barrel_msgs (hs_barrels h1)"
    by (simp add: content_def)
  ultimately have "content (insert_new t2 p2 m2 h1) + {#m1#} = content h1 + {#m2#}"
    by (simp add: b2 content_def)
  with w(2) show "content (insert_new t2 p2 m2 (insert_new t1 p1 m1 h)) = content h + {#m2#}" by (simp add: h1)
qed

section \<open>Readers\<close>

text \<open>
  \<open>readEventBarrel\<close>. A subscription channel holds at most ten messages: a new message is dropped when
  it is full, while the goroutine \<open>pushCashMessage\<close>, which sends the messages so far before it
  registers the channel, waits. \<open>taken\<close> is what the reader has received.

  The calls of one store hold its lock, but \<open>insertMessage\<close> appends to the barrel outside \<open>subLock\<close>
  and sends inside it, and \<open>addSubChan\<close> only starts the goroutine. So a message that is appended and
  not yet sent is \<open>rb_inflight\<close>, and \<open>rb_pending\<close> are the subscriptions whose goroutine has not yet
  taken \<open>subLock\<close>.
\<close>

record sub_chan =
  sc_buf :: "EventLogMessage list"
  sc_taken :: "EventLogMessage list"
  sc_closed :: bool

record readEventBarrel =
  rb_barrel :: "EventLogMessage list"
  rb_subs :: "(string, sub_chan) gomap"
  rb_updateTime :: int
  rb_inflight :: "EventLogMessage option"
  rb_pending :: "string list"

definition chan_cap :: nat where "chan_cap = 10"

definition offer :: "EventLogMessage \<Rightarrow> sub_chan \<Rightarrow> sub_chan" where
  "offer m c = (if length (sc_buf c) < chan_cap then c\<lparr>sc_buf := sc_buf c @ [m]\<rparr> else c)"

definition read_append :: "int \<Rightarrow> EventLogMessage \<Rightarrow> readEventBarrel \<Rightarrow> readEventBarrel" where
  \<comment> \<open>The lines of \<open>insertMessage\<close> before \<open>subLock\<close>.\<close>
  "read_append now m r = r\<lparr>rb_barrel := rb_barrel r @ [m], rb_updateTime := now, rb_inflight := Some m\<rparr>"

definition read_offer :: "readEventBarrel \<Rightarrow> readEventBarrel" where
  \<comment> \<open>The lines of \<open>insertMessage\<close> under \<open>subLock\<close>.\<close>
  "read_offer r =
     (case rb_inflight r of
        None \<Rightarrow> r
      | Some m \<Rightarrow> r\<lparr>rb_subs := map (\<lambda>(k, c). (k, offer m c)) (rb_subs r), rb_inflight := None\<rparr>)"

definition read_insertMessage :: "int \<Rightarrow> EventLogMessage \<Rightarrow> readEventBarrel \<Rightarrow> readEventBarrel" where
  "read_insertMessage now m r = read_offer (read_append now m r)"

definition pushCashMessage :: "string \<Rightarrow> readEventBarrel \<Rightarrow> readEventBarrel" where
  \<comment> \<open>The reader takes what does not fit in the channel while the goroutine sends; the loop ranges over
     the barrel as it is when it begins, and nobody else gets \<open>subLock\<close> until the channel is registered.\<close>
  "pushCashMessage subID r =
     (if subID \<in> set (rb_pending r)
      then (let n = length (rb_barrel r) - chan_cap
            in r\<lparr>rb_subs := map_set subID
                   \<lparr>sc_buf = drop n (rb_barrel r), sc_taken = take n (rb_barrel r), sc_closed = False\<rparr> (rb_subs r),
                 rb_pending := remove1 subID (rb_pending r)\<rparr>)
      else r)"

definition addSubChan :: "string \<Rightarrow> readEventBarrel \<Rightarrow> readEventBarrel" where
  "addSubChan subID r =
     (if map_of (rb_subs r) subID \<noteq> None then r else r\<lparr>rb_pending := rb_pending r @ [subID]\<rparr>)"

definition delSubChan :: "string \<Rightarrow> readEventBarrel \<Rightarrow> readEventBarrel" where
  "delSubChan subID r = r\<lparr>rb_subs := AList.delete subID (rb_subs r)\<rparr>"

definition receive :: "string \<Rightarrow> readEventBarrel \<Rightarrow> readEventBarrel" where
  \<comment> \<open>The reader takes one message.\<close>
  "receive subID r =
     (case map_of (rb_subs r) subID of
        None \<Rightarrow> r
      | Some c \<Rightarrow>
          (case sc_buf c of
             [] \<Rightarrow> r
           | m # ms \<Rightarrow> r\<lparr>rb_subs := map_set subID (c\<lparr>sc_buf := ms, sc_taken := sc_taken c @ [m]\<rparr>) (rb_subs r)\<rparr>))"

definition read_empty :: "readEventBarrel \<Rightarrow> readEventBarrel" where
  "read_empty r = r\<lparr>rb_barrel := [], rb_subs := []\<rparr>"

type_synonym readMessageStore = "(string, readEventBarrel) gomap"

definition read_InsertMessage ::
  "int \<Rightarrow> readEventBarrel \<Rightarrow> EventLogMessage option \<Rightarrow> readMessageStore \<Rightarrow> readMessageStore" where
  "read_InsertMessage now pooled message h =
     (case message of
        None \<Rightarrow> h
      | Some m \<Rightarrow>
          if lm_EventID m = [] then h
          else (case map_of h (lm_EventID m) of
                  Some ba \<Rightarrow> map_set (lm_EventID m) (read_insertMessage now m ba) h
                | None \<Rightarrow> map_set (lm_EventID m) (read_insertMessage now m pooled) h))"

definition SubChan :: "int \<Rightarrow> readEventBarrel \<Rightarrow> string \<Rightarrow> string \<Rightarrow> readMessageStore \<Rightarrow> readMessageStore" where
  "SubChan now pooled eventID subID h =
     (case map_of h eventID of
        Some ba \<Rightarrow> map_set eventID (addSubChan subID ba) h
      | None \<Rightarrow> map_set eventID (addSubChan subID (pooled\<lparr>rb_updateTime := now\<rparr>)) h)"

definition RealseSubChan :: "string \<Rightarrow> string \<Rightarrow> readMessageStore \<Rightarrow> readMessageStore" where
  "RealseSubChan eventID subID h =
     (case map_of h eventID of Some ba \<Rightarrow> map_set eventID (delSubChan subID ba) h | None \<Rightarrow> h)"

definition read_gc :: "int \<Rightarrow> readMessageStore \<Rightarrow> readMessageStore" where
  "read_gc now h = filter (\<lambda>(k, v). \<not> rb_updateTime v + 2 * 60 * second < now) h"

text \<open>
  The steps on one barrel while it is in use, in every order the locks allow: the store's lock
  serialises the inserts, the subscriptions and the cancellations; goroutines and readers interleave.
\<close>

inductive read_step :: "readEventBarrel \<Rightarrow> readEventBarrel \<Rightarrow> bool" where
  Append: "rb_inflight r = None \<Longrightarrow> read_step r (read_append now m r)"
| Offer: "read_step r (read_offer r)"
| Sub: "rb_inflight r = None \<Longrightarrow> read_step r (addSubChan s r)"
| Push: "read_step r (pushCashMessage s r)"
| Del: "rb_inflight r = None \<Longrightarrow> read_step r (delSubChan s r)"
| Receive: "read_step r (receive s r)"

inductive_cases read_stepE: "read_step r r'"

text \<open>
  What a subscriber has and will get: the messages of the event when its channel was registered, and
  then, in order, messages from the last of these on. A message that is appended and not yet sent when
  the channel is registered is the last of them, and is sent again.
\<close>

definition gets :: "EventLogMessage list \<Rightarrow> EventLogMessage list \<Rightarrow> EventLogMessage list \<Rightarrow> bool" where
  "gets barrel sent xs \<longleftrightarrow> (\<exists>p zs. xs = p @ zs \<and> prefix p barrel \<and> subseq zs (drop (length p - 1) sent))"

definition sent_msgs :: "readEventBarrel \<Rightarrow> EventLogMessage list" where
  "sent_msgs r = (case rb_inflight r of None \<Rightarrow> rb_barrel r | Some _ \<Rightarrow> butlast (rb_barrel r))"

lemma sent_msgs_cong [simp]:
  "sent_msgs (r\<lparr>rb_subs := x\<rparr>) = sent_msgs r" "sent_msgs (r\<lparr>rb_pending := y\<rparr>) = sent_msgs r"
  by (simp_all add: sent_msgs_def split: option.split)

definition subs_ok :: "readEventBarrel \<Rightarrow> bool" where
  "subs_ok r \<longleftrightarrow> wf_map (rb_subs r) \<and> (\<forall>m. rb_inflight r = Some m \<longrightarrow> (\<exists>ms. rb_barrel r = ms @ [m])) \<and>
     (\<forall>k c. map_of (rb_subs r) k = Some c \<longrightarrow>
        gets (rb_barrel r) (sent_msgs r) (sc_taken c @ sc_buf c) \<and> length (sc_buf c) \<le> chan_cap)"

lemma map_of_map_val: "map_of (map (\<lambda>(k, c). (k, f c)) m) k = map_option f (map_of m k)"
  by (induction m) auto

lemma wf_map_map_val: "wf_map (map (\<lambda>(k, c). (k, f c)) m) \<longleftrightarrow> wf_map m"
  by (simp add: wf_map_def o_def case_prod_unfold)

lemma subseq_snoc: "subseq xs ys \<Longrightarrow> subseq (xs @ [m]) (ys @ [m])" "subseq xs ys \<Longrightarrow> subseq xs (ys @ [m])"
  by (auto intro: list_emb_append_mono subseq_rev_drop_many)

lemma gets_append: "gets barrel sent xs \<Longrightarrow> gets (barrel @ [m]) sent xs"
  by (auto simp: gets_def)

lemma gets_offer:
  assumes "gets (ms @ [m]) ms xs"
  shows "gets (ms @ [m]) (ms @ [m]) (xs @ [m])" "gets (ms @ [m]) (ms @ [m]) xs"
proof -
  obtain p zs where p: "xs = p @ zs" "prefix p (ms @ [m])" "subseq zs (drop (length p - 1) ms)"
    using assms by (auto simp: gets_def)
  then have "length p - 1 \<le> length ms" by (auto dest: prefix_length_le)
  then have d: "drop (length p - 1) (ms @ [m]) = drop (length p - 1) ms @ [m]" by simp
  show "gets (ms @ [m]) (ms @ [m]) (xs @ [m])"
    unfolding gets_def using p(1,2) subseq_snoc(1) [OF p(3), of m] d by (metis append_assoc)
  show "gets (ms @ [m]) (ms @ [m]) xs"
    unfolding gets_def using p(1,2) subseq_snoc(2) [OF p(3), of m] d by metis
qed

lemma gets_all: "gets barrel sent barrel"
  unfolding gets_def by (intro exI [of _ barrel] exI [of _ "[]"]) simp

lemma subs_ok_append: "subs_ok r \<Longrightarrow> rb_inflight r = None \<Longrightarrow> subs_ok (read_append now m r)"
  by (auto simp: subs_ok_def read_append_def sent_msgs_def intro: gets_append)

lemma subs_ok_offer:
  assumes "subs_ok r"
  shows "subs_ok (read_offer r)"
proof (cases "rb_inflight r")
  case (Some m)
  then obtain ms where b: "rb_barrel r = ms @ [m]" using assms by (auto simp: subs_ok_def)
  have s: "sent_msgs r = ms" by (simp add: sent_msgs_def Some b)
  have "gets (ms @ [m]) (ms @ [m]) (sc_taken (offer m c) @ sc_buf (offer m c)) \<and> length (sc_buf (offer m c)) \<le> chan_cap"
    if "gets (ms @ [m]) ms (sc_taken c @ sc_buf c)" "length (sc_buf c) \<le> chan_cap" for c
    using that gets_offer [OF that(1)] by (auto simp: offer_def)
  then show ?thesis
    using assms Some b s by (auto simp: subs_ok_def read_offer_def sent_msgs_def map_of_map_val wf_map_map_val)
qed (use assms in \<open>simp add: read_offer_def\<close>)

lemma subs_ok_push: "subs_ok r \<Longrightarrow> subs_ok (pushCashMessage subID r)"
  by (auto simp: subs_ok_def pushCashMessage_def gets_all Let_def)

lemma subs_ok_add: "subs_ok r \<Longrightarrow> subs_ok (addSubChan subID r)"
  by (auto simp: subs_ok_def addSubChan_def)

lemma subs_ok_del: "subs_ok r \<Longrightarrow> subs_ok (delSubChan subID r)"
  by (auto simp: subs_ok_def delSubChan_def delete_conv' split: if_splits)

lemma subs_ok_receive:
  assumes "subs_ok r"
  shows "subs_ok (receive subID r)"
proof (cases "\<exists>c m ms. map_of (rb_subs r) subID = Some c \<and> sc_buf c = m # ms")
  case True
  then obtain c m ms where c: "map_of (rb_subs r) subID = Some c" "sc_buf c = m # ms" by blast
  then have "gets (rb_barrel r) (sent_msgs r) (sc_taken c @ sc_buf c) \<and> length (sc_buf c) \<le> chan_cap"
    using assms unfolding subs_ok_def by blast
  then have "gets (rb_barrel r) (sent_msgs r) (sc_taken c @ m # ms) \<and> Suc (length ms) \<le> chan_cap" by (simp add: c)
  with assms c show ?thesis by (auto simp: subs_ok_def receive_def)
qed (use assms in \<open>auto simp: receive_def split: option.splits list.splits\<close>)

lemma read_reach_ok: "read_step\<^sup>*\<^sup>* r r' \<Longrightarrow> subs_ok r \<Longrightarrow> subs_ok r'"
  by (induction rule: rtranclp_induct)
    (auto elim!: read_stepE intro: subs_ok_append subs_ok_offer subs_ok_add subs_ok_push subs_ok_del subs_ok_receive)

section \<open>Container logs\<close>

record dockerLogEventBarrel =
  db_name :: string
  db_barrel :: "EventLogMessage list"
  db_subs :: "(string, sub_chan) gomap"
  db_updateTime :: int
  db_size :: int
  db_cacheSize :: int
  db_persistenceTime :: int
  db_needPersistence :: bool
  db_persistenceBarrel :: "EventLogMessage list"

definition docker_cap :: nat where "docker_cap = 100"

definition docker_offer :: "EventLogMessage \<Rightarrow> sub_chan \<Rightarrow> sub_chan" where
  "docker_offer m c = (if length (sc_buf c) < docker_cap then c\<lparr>sc_buf := sc_buf c @ [m]\<rparr> else c)"

definition docker_barrel_persistence :: "int \<Rightarrow> dockerLogEventBarrel \<Rightarrow> events \<Rightarrow> dockerLogEventBarrel \<times> events" where
  "docker_barrel_persistence now r ch =
     (let r = r\<lparr>db_needPersistence := True, db_persistenceBarrel := db_persistenceBarrel r @ db_barrel r, db_barrel := []\<rparr>
      in if length (ch_events ch) < ch_cap ch
         then (r\<lparr>db_persistenceTime := now\<rparr>, ch\<lparr>ch_events := ch_events ch @ [[''persistence'', db_name r]]\<rparr>)
         else (r, ch))"

definition docker_barrel_insert :: "int \<Rightarrow> EventLogMessage \<Rightarrow> dockerLogEventBarrel \<Rightarrow> events \<Rightarrow> dockerLogEventBarrel \<times> events" where
  "docker_barrel_insert now m r ch =
     (let r = r\<lparr>db_barrel := db_barrel r @ [m]\<rparr>;
          r = (if db_name r = [] then r\<lparr>db_name := lm_EventID m\<rparr> else r);
          r = r\<lparr>db_updateTime := now, db_subs := map (\<lambda>(k, c). (k, docker_offer m c)) (db_subs r), db_size := db_size r + 1\<rparr>
      in if int (length (db_barrel r)) \<ge> db_cacheSize r then docker_barrel_persistence now r ch else (r, ch))"

definition docker_gcPersistence :: "dockerLogEventBarrel \<Rightarrow> dockerLogEventBarrel" where
  "docker_gcPersistence r =
     r\<lparr>db_needPersistence := True, db_persistenceBarrel := db_persistenceBarrel r @ db_barrel r, db_barrel := []\<rparr>"

record dockerLogStore =
  dl_barrels :: "(string, dockerLogEventBarrel) gomap"
  dl_saved :: "EventLogMessage list"
  dl_chan :: events
  dl_LogSizePeerM :: int
  dl_LogSize :: int
  dl_barrelSize :: int

definition docker_InsertMessage ::
  "int \<Rightarrow> dockerLogEventBarrel \<Rightarrow> EventLogMessage option \<Rightarrow> dockerLogStore \<Rightarrow> dockerLogStore" where
  "docker_InsertMessage now pooled message h =
     (case message of
        None \<Rightarrow> h
      | Some m \<Rightarrow>
          if lm_EventID m = [] then h
          else
            (let h = h\<lparr>dl_LogSize := dl_LogSize h + 1\<rparr> in
             case map_of (dl_barrels h) (lm_EventID m) of
               Some ba \<Rightarrow>
                 (let (ba, ch) = docker_barrel_insert now m ba (dl_chan h)
                  in h\<lparr>dl_barrels := map_set (lm_EventID m) ba (dl_barrels h), dl_chan := ch\<rparr>)
             | None \<Rightarrow>
                 (let (ba, ch) = docker_barrel_insert now m (pooled\<lparr>db_name := lm_EventID m, db_persistenceTime := now\<rparr>) (dl_chan h)
                  in h\<lparr>dl_barrels := map_set (lm_EventID m) ba (dl_barrels h), dl_chan := ch,
                       dl_barrelSize := dl_barrelSize h + 1\<rparr>)))"

text \<open>A batch that the file plugin refuses is gone: \<open>InsertGarbageMessage\<close> of this store does nothing.\<close>

definition docker_saveBeforeGc :: "(EventLogMessage list \<Rightarrow> bool) \<Rightarrow> string \<Rightarrow> dockerLogStore \<Rightarrow> dockerLogStore" where
  "docker_saveBeforeGc SaveMessage k h =
     (case map_of (dl_barrels h) k of
        None \<Rightarrow> h
      | Some b \<Rightarrow>
          (let b = docker_gcPersistence b;
               ms = db_persistenceBarrel b;
               h = (if length ms > 0 \<and> SaveMessage ms then h\<lparr>dl_saved := dl_saved h @ ms\<rparr> else h)
           in h\<lparr>dl_barrels := map_set k (b\<lparr>db_persistenceBarrel := []\<rparr>) (dl_barrels h)\<rparr>))"

definition docker_persistence :: "(EventLogMessage list \<Rightarrow> bool) \<Rightarrow> string list \<Rightarrow> dockerLogStore \<Rightarrow> dockerLogStore" where
  "docker_persistence SaveMessage event h =
     (if length event = 2
      then (let eventID = event ! 1 in
            case map_of (dl_barrels h) eventID of
              None \<Rightarrow> h
            | Some b \<Rightarrow>
                if db_needPersistence b
                then (let ms = db_persistenceBarrel b;
                          h = (if SaveMessage ms then h\<lparr>dl_saved := dl_saved h @ ms\<rparr> else h)
                      in h\<lparr>dl_barrels := map_set eventID (b\<lparr>db_persistenceBarrel := [], db_needPersistence := False\<rparr>) (dl_barrels h)\<rparr>)
                else h)
      else h)"

text \<open>The history of a container: what is in memory, and from the file plugin what is missing.\<close>

definition docker_GetHistoryMessage ::
  "(string \<Rightarrow> int \<Rightarrow> string list option) \<Rightarrow> string \<Rightarrow> int \<Rightarrow> dockerLogStore \<Rightarrow> string list" where
  "docker_GetHistoryMessage GetMessages eventID len h =
     (let re = (case map_of (dl_barrels h) eventID of
                  None \<Rightarrow> []
                | Some b \<Rightarrow> filter (\<lambda>c. length c > 0)
                              (map (\<lambda>m. case lm_Content m of Some c \<Rightarrow> c | None \<Rightarrow> []) (db_barrel b)))
      in if int (length re) \<ge> len \<and> len > 0 then take (nat (len - 1)) re
         else (let filelength = (if len - int (length re) > 0 then len - int (length re) else 0) in
               case GetMessages eventID filelength of
                 None \<Rightarrow> re
               | Some result \<Rightarrow> result @ re))"

definition docker_msgs :: "dockerLogEventBarrel \<Rightarrow> EventLogMessage multiset" where
  "docker_msgs b = mset (db_persistenceBarrel b) + mset (db_barrel b)"

definition docker_content :: "dockerLogStore \<Rightarrow> EventLogMessage multiset" where
  "docker_content h = mset (dl_saved h) + map_sum_of docker_msgs (dl_barrels h)"

lemma docker_barrel_insert_msgs:
  "docker_barrel_insert now m r ch = (r', ch') \<Longrightarrow> docker_msgs r' = docker_msgs r + {#m#}"
  by (auto simp: docker_barrel_insert_def docker_barrel_persistence_def docker_msgs_def Let_def split: if_splits)

lemma docker_InsertMessage_content:
  assumes "wf_map (dl_barrels h)" "docker_msgs pooled = {#}" "lm_EventID m \<noteq> []"
  shows "docker_content (docker_InsertMessage now pooled (Some m) h) = docker_content h + {#m#}"
proof (cases "map_of (dl_barrels h) (lm_EventID m)")
  case None
  let ?p = "pooled\<lparr>db_name := lm_EventID m, db_persistenceTime := now\<rparr>"
  obtain r ch where i: "docker_barrel_insert now m ?p (dl_chan h) = (r, ch)" by fastforce
  have "docker_msgs ?p = {#}" using assms(2) by (simp add: docker_msgs_def)
  then have "docker_msgs r = {#m#}" using docker_barrel_insert_msgs [OF i] by simp
  then show ?thesis
    using None i assms(3) map_sum_of_absent [OF None, of docker_msgs r] by (simp add: docker_InsertMessage_def docker_content_def Let_def)
next
  case (Some b)
  obtain r ch where i: "docker_barrel_insert now m b (dl_chan h) = (r, ch)" by fastforce
  have "map_sum_of docker_msgs (map_set (lm_EventID m) r (dl_barrels h)) = map_sum_of docker_msgs (dl_barrels h) + {#m#}"
    using map_sum_of_present [OF assms(1) Some, of docker_msgs r] docker_barrel_insert_msgs [OF i] by (simp add: ac_simps)
  then show ?thesis using Some i assms(3) by (simp add: docker_InsertMessage_def docker_content_def Let_def)
qed

end
