(* ===== verification/PlatformProps.thy ===== *)
theory PlatformProps
  imports AppService EventStore GwCluster
begin

text \<open>
  The properties of the parts beside the gateway: the addresses of a node, the record the worker keeps
  of a component, and the stores of the event log.
\<close>

section \<open>Addresses of a gateway node\<close>

text \<open>
  C32: what etcd holds follows the addresses of the host. Whatever etcd answers, every address for which the
  manager has a lease has its key in etcd, with the address as value. When etcd accepts every request, and the
  manager begins with exactly the addresses the pool knows, then after the events of one scan of the
  interfaces the addresses with a key in etcd, and those with a lease, are exactly the addresses the
  pool knows after the scan, and the leases the manager has are those of the keys. (Leases do not expire meanwhile.)
\<close>

theorem leases_follow_addresses:
  fixes et :: etcd
  assumes "wf_pool p" "is_range rng" "announced m" "only_announced m"
    and "dom (map_of (ipLease m)) = dom (map_of (HostIPs p))"
    and "EventCh (LoopCheckIPs_tick rng ifs p) = EventCh p @ evs"
  defines "m' \<equiv> fold (syncIP_step et) evs m" and "p' \<equiv> LoopCheckIPs_tick rng ifs p"
  shows "(\<forall>s. map_of (ipLease m') s \<noteq> None \<longrightarrow> (\<exists>lid. etcd_contents (etcdLog m') (ip_key s) = Some (s, lid))) \<and>
    (etcd_ok et \<longrightarrow> {s. etcd_contents (etcdLog m') (ip_key s) \<noteq> None} = dom (map_of (HostIPs p')) \<and>
       dom (map_of (ipLease m')) = dom (map_of (HostIPs p')) \<and>
       (\<forall>s lid. map_of (ipLease m') s = Some lid \<longrightarrow> etcd_contents (etcdLog m') (ip_key s) = Some (s, lid)))"
proof (intro conjI impI)
  have "has_keys m'" unfolding m'_def by (rule syncIP_steps_announced(1) [OF announced_has_keys [OF assms(3)]])
  then show "\<forall>s. map_of (ipLease m') s \<noteq> None \<longrightarrow> (\<exists>lid. etcd_contents (etcdLog m') (ip_key s) = Some (s, lid))"
    by (simp add: has_keys_def)
  assume ok: "etcd_ok et"
  have a: "announced m'" unfolding m'_def by (rule syncIP_steps_announced(2) [OF ok assms(3)])
  then show "\<forall>s lid. map_of (ipLease m') s = Some lid \<longrightarrow> etcd_contents (etcdLog m') (ip_key s) = Some (s, lid)"
    by (simp add: announced_def)
  have o: "only_announced m'" unfolding m'_def by (rule syncIP_steps_announced(3) [OF ok assms(4)])
  obtain evs' where e: "EventCh p' = EventCh p @ evs'" "replay (dom (map_of (HostIPs p))) evs' = dom (map_of (HostIPs p'))"
    using tick_replay [OF assms(1,2)] unfolding p'_def by blast
  then show d: "dom (map_of (ipLease m')) = dom (map_of (HostIPs p'))"
    using assms(5,6) syncIP_dom [OF ok, of "[]" evs m] by (simp add: syncIP_def updateIP_def m'_def p'_def)
  show "{s. etcd_contents (etcdLog m') (ip_key s) \<noteq> None} = dom (map_of (HostIPs p'))"
    unfolding d [symmetric] using a o by (force simp: announced_def only_announced_def)
qed

definition ex_pool :: IPPool where
  "ex_pool = \<lparr>HostIPs = [], EventCh = [], ignoreInterfaceName = [''lo''], startReady = False\<rparr>"

definition ex_ifs :: interfaces where
  "ex_ifs = Inr [(''lo'', Inr [IPNet [127, 0, 0, 1]]), (''eth0'', Inr [IPNet [10, 0, 0, 1]])]"

definition ex_etcd :: etcd where
  "ex_etcd = \<lparr>et_KeepAliveOnce = (\<lambda>_. True), et_Grant = (\<lambda>_. Some 7), et_Put = (\<lambda>_. Accepted), et_Delete = (\<lambda>_. Accepted)\<rparr>"

theorem leases_follow_addresses_witness:
  "wf_pool ex_pool \<and> etcd_ok ex_etcd \<and> HostIPs (LoopCheckIPs_tick id ex_ifs ex_pool) \<noteq> [] \<and>
   {s. etcd_contents (etcdLog (fold (syncIP_step ex_etcd) (EventCh (LoopCheckIPs_tick id ex_ifs ex_pool))
     \<lparr>ipLease = [], etcdLog = [], needUpdate = []\<rparr>)) (ip_key s) \<noteq> None} = dom (map_of (HostIPs (LoopCheckIPs_tick id ex_ifs ex_pool)))"
proof -
  let ?m = "\<lparr>ipLease = [], etcdLog = [], needUpdate = []\<rparr>"
  have h: "wf_pool ex_pool" "is_range (id :: (string, IP) gomap \<Rightarrow> _)" "etcd_ok ex_etcd"
    by (simp_all add: wf_pool_def ex_pool_def wf_map_def is_range_def etcd_ok_def ex_etcd_def)
  have d: "announced ?m" "only_announced ?m" "dom (map_of (ipLease ?m)) = dom (map_of (HostIPs ex_pool))"
    by (simp_all add: announced_def only_announced_def etcd_contents_def ex_pool_def)
  have e: "EventCh (LoopCheckIPs_tick id ex_ifs ex_pool) = EventCh ex_pool @ EventCh (LoopCheckIPs_tick id ex_ifs ex_pool)"
    by (simp add: ex_pool_def)
  have n: "HostIPs (LoopCheckIPs_tick id ex_ifs ex_pool) \<noteq> []"
    by (simp add: LoopCheckIPs_tick_def ex_ifs_def ex_pool_def getInterfaceIPs_def checkIPAddress_def IsLoopback_def To4_def)
  show ?thesis using leases_follow_addresses [OF h(1,2) d e, of ex_etcd] h n by blast
qed

text \<open>
  The text of an IPv4 address is a round trip: parsing it gives the address back, in its 16-byte
  form, so that two addresses with the same text, the key of the pool and of the leases, are equal.
\<close>

theorem address_text_roundtrip:
  assumes "length ip = 4" "list_all (\<lambda>b. b \<le> 255) ip"
  shows "ParseIP (IP_String ip) = Some (To16 ip) \<and> To4 (To16 ip) = Some ip"
  using ParseIP_String [OF assms] assms(1) by (auto simp: To16_def To4_def v4InV6Prefix_def)

theorem address_text_roundtrip_witness:
  "ParseIP (IP_String [10, 0, 0, 1]) = Some (To16 [10, 0, 0, 1]) \<and> To4 (To16 [10, 0, 0, 1]) = Some [10, 0, 0, 1]"
  using address_text_roundtrip [of "[10, 0, 0, 1]"] by simp

section \<open>The record of a component\<close>

text \<open>
  The pods of a component: after any stream of updates a lookup by name gives the last object of
  that name (or what was there before), no name occurs twice, and a deleted pod is not found.
\<close>

theorem pods_by_name:
  assumes "distinct (map ko_Name (as_pods a))"
  shows "find_named n (as_pods (fold SetPods ds a)) =
      (case filter (\<lambda>d. ko_Name d = n) ds of [] \<Rightarrow> find_named n (as_pods a) | d # dd \<Rightarrow> Some (last (d # dd))) \<and>
    distinct (map ko_Name (as_pods (fold SetPods ds a))) \<and>
    find_named n (as_pods (DeletePods d (fold SetPods ds a))) =
      (if n = ko_Name d then None else find_named n (as_pods (fold SetPods ds a)))"
proof -
  have d: "distinct (map ko_Name (as_pods (fold SetPods ds a)))"
    using assms pods.distinct_add by (induction ds arbitrary: a) auto
  show ?thesis using pods.lookup_adds [where ds = ds and a = a and n = n] pods.lookup_del [OF d] d by simp
qed

text \<open>
  Claims are kept by name like the other objects, and every stored claim is in the namespace of
  the tenant.
\<close>

theorem claims_in_tenant_namespace:
  "find_named n (as_claims (SetClaim c a)) =
     (if n = ko_Name c then Some (c\<lparr>ko_Namespace := as_TenantID a\<rparr>) else find_named n (as_claims a))"
  by (rule claims.lookup_add)

text \<open>
  \<open>SetDeletedResources\<close> marks for deletion exactly the ingresses, secrets, services and autoscalers
  of the old version whose names the new version does not use.
\<close>

theorem deleted_resources:
  "case SetDeletedResources (Some old) a of a' \<Rightarrow>
     as_delIngs a' = as_delIngs a @ filter (\<lambda>x. ko_Name x \<notin> ko_Name ` set (as_ingresses a)) (as_ingresses old) \<and>
     as_delSecrets a' = as_delSecrets a @ filter (\<lambda>x. ko_Name x \<notin> ko_Name ` set (as_secrets a)) (as_secrets old) \<and>
     as_delServices a' = as_delServices a @ filter (\<lambda>x. ko_Name x \<notin> ko_Name ` set (as_services a)) (as_services old) \<and>
     as_delHPAs a' = as_delHPAs a @ filter (\<lambda>x. ko_Name x \<notin> ko_Name ` set (as_hpas a)) (as_hpas old)"
  by (simp add: SetDeletedResources_def deleted_loop_filter Let_def)

text \<open>An example component with one pod of a deployment and its replica set.\<close>

definition ex_obj :: "string \<Rightarrow> int \<Rightarrow> k8s_object" where
  "ex_obj n t = \<lparr>ko_Name = n, ko_Namespace = ''ns'', ko_ResourceVersion = ''1'', ko_Labels = [(''version'', ''v'')], ko_Annotations = [],
     ko_CreationTimestamp = t, ko_UID = [], ko_Body = 0\<rparr>"

definition ex_rs :: "string \<Rightarrow> int \<Rightarrow> ReplicaSetObject" where
  "ex_rs n t = k8s_object.extend (ex_obj n t) (ReplicaSetObject.fields 1 1 1)"

definition ex_pod :: "string \<Rightarrow> Pod" where
  "ex_pod n = k8s_object.extend (ex_obj n 5) (Pod.fields [(''Ready'', ''True'')]
     [\<lparr>cn_Name = [], cn_Image = ''img'', cn_MemoryRequest = 64, cn_CPURequest = 250, cn_MemoryLimit = 64, cn_CPULimit = 250, cn_ReadinessProbe = None, cn_LivenessProbe = None\<rparr>]
     ''node'' [\<lparr>cs_Image = ''img'', cs_Terminated = None, cs_LastTerminated = None\<rparr>] [] ''Running'' [] None)"

definition ex_component :: AppService where
  "ex_component = \<lparr>as_TenantID = ''t'', as_TenantName = ''tn'', as_AppID = ''app'', as_ServiceID = ''sid'', as_ServiceAlias = ''gr'',
     as_ServiceType = ''deployment'', as_ServiceKind = ''internal'', as_CreaterID = ''c'', as_DeployVersion = ''v'', as_ContainerCPU = 0,
     as_ContainerMemory = 128, as_UpgradeMethod = ''Rolling'', as_Replicas = 1, as_IsWindowsService = False, as_ExtensionSet = [],
     as_GovernanceMode = ''BUILD_IN_SERVICE_MESH'', as_tenant = None, as_statefulset = None,
     as_deployment = Some (k8s_object.extend (ex_obj ''d'' 1) (Workload.fields \<lparr>pt_Labels = [], pt_Containers = [], pt_InitContainers = []\<rparr> (Some 1) 1
       (Some [(''name'', ''gr'')]) [] ''gr'' ''RollingUpdate'')),
     as_hpas = [], as_delHPAs = [], as_replicasets = [ex_rs ''rs1'' 1, ex_rs ''rs2'' 4], as_services = [], as_delServices = [],
     as_endpoints = [], as_configMaps = [], as_ingresses = [], as_delIngs = [], as_secrets = [], as_delSecrets = [],
     as_pods = [ex_pod ''p1''], as_claims = [], as_claimsmanual = [], as_serviceMonitor = [], as_storageClasses = [],
     as_envVarSecrets = [], as_BootSeqContainer = None, as_UpgradePatch = [], as_CustomParams = None, as_podMemoryRequest = 0, as_podCPURequest = 0\<rparr>"

theorem pods_by_name_witness:
  "distinct (map ko_Name (as_pods ex_component)) \<and>
   find_named ''p2'' (as_pods (fold SetPods [ex_pod ''p2'', ex_pod ''p1''] ex_component)) = Some (ex_pod ''p2'') \<and>
   find_named ''p1'' (as_pods (DeletePods (ex_pod ''p1'') (fold SetPods [ex_pod ''p2'', ex_pod ''p1''] ex_component))) = None"
proof -
  have d: "distinct (map ko_Name (as_pods ex_component))" by (simp add: ex_component_def)
  have n: "ko_Name (ex_pod x) = x" for x by (simp add: ex_pod_def k8s_object.extend_def ex_obj_def)
  show ?thesis
    using pods_by_name [OF d, of "''p2''" "[ex_pod ''p2'', ex_pod ''p1'']" "ex_pod ''p1''"]
      pods_by_name [OF d, of "''p1''" "[ex_pod ''p2'', ex_pod ''p1'']" "ex_pod ''p1''"] d
    by (simp add: n)
qed

text \<open>
  A pod is new exactly when it was not created before the newest replica set, that is when no
  replica set of the component is younger than the pod.
\<close>

theorem new_pods:
  "DistinguishPod pod a \<longleftrightarrow> list_all (\<lambda>rs. ko_CreationTimestamp rs \<le> ko_CreationTimestamp pod) (as_replicasets a)"
proof (cases "GetNewestReplicaSet a")
  case None
  then have "as_replicasets a = []" by (auto simp: GetNewestReplicaSet_def split: list.splits)
  with None show ?thesis by (simp add: DistinguishPod_def)
next
  case (Some rs)
  note m = GetNewestReplicaSet_max [OF Some]
  have "\<not> Before (ko_CreationTimestamp pod) (ko_CreationTimestamp rs) \<longleftrightarrow> ko_CreationTimestamp rs \<le> ko_CreationTimestamp pod"
    by (auto simp: Before_def)
  with Some m show ?thesis by (force simp: DistinguishPod_def list_all_iff)
qed

text \<open>
  The status of a component is never unknown, and it is running only when it has as many pods as
  replicas, the workload is ready, and no pod of an older version is left.
\<close>

theorem component_status:
  "GetServiceStatus ck a \<noteq> UNKNOW \<and>
   (GetServiceStatus ck a = RUNNING \<and> \<not> ck_IsCustomComponent ck \<and> \<not> ck_IsThirdComponent ck \<longrightarrow>
      Ready a \<and> UpgradeComlete a \<and> as_Replicas a \<le> int (length (as_pods a)))"
  using GetServiceStatus_known GetServiceStatus_running by blast

theorem component_status_witness:
  "GetServiceStatus \<lparr>ck_IsCustomComponent = False, ck_IsThirdComponent = False, ck_workload = None\<rparr> ex_component = RUNNING \<and>
   Ready ex_component \<and> UpgradeComlete ex_component"
proof -
  let ?k = "\<lparr>ck_IsCustomComponent = False, ck_IsThirdComponent = False, ck_workload = None\<rparr>"
  have r: "GetServiceStatus ?k ex_component = RUNNING"
    by (simp add: GetServiceStatus_def IsClosed_def IsEmpty_def UpgradeComlete_def Ready_def ready_of_def IsPodTerminated_def IsPodNodeLost_def
        ex_component_def ex_pod_def ex_obj_def k8s_object.extend_def Pod.fields_def Workload.fields_def Let_def to_int32_def map_str_def)
  with component_status [of ?k ex_component] show ?thesis by simp
qed

text \<open>
  The CPU request of a component is the sum of the requests of the containers of its scheduled
  pods, exactly as long as the sums fit in a signed 64-bit integer.
\<close>

theorem cpu_request_exact:
  assumes "\<And>pod c. pod \<in> set (as_pods a) \<Longrightarrow> c \<in> set (pd_Containers pod) \<Longrightarrow> 0 \<le> cn_CPURequest c"
    and "\<And>pod. pod \<in> set (as_pods a) \<Longrightarrow> sum_list (map cn_CPURequest (pd_Containers pod)) < 2 ^ 63"
    and "sum_list (map pod_cpu (as_pods a)) < 2 ^ 63"
  shows "GetCPURequest a = sum_list (map pod_cpu (as_pods a))"
  by (rule GetCPURequest_sum [OF assms])

theorem cpu_request_exact_witness:
  "as_pods ex_component = [ex_pod ''p1''] \<and> GetCPURequest ex_component = 250"
proof -
  have p: "as_pods ex_component = [ex_pod ''p1'']" by (simp add: ex_component_def)
  have c: "map cn_CPURequest (pd_Containers (ex_pod ''p1'')) = [250]" "pd_Conditions (ex_pod ''p1'') = [(''Ready'', ''True'')]"
    by (simp_all add: ex_pod_def k8s_object.extend_def ex_obj_def Pod.fields_def)
  have "GetCPURequest ex_component = sum_list (map pod_cpu (as_pods ex_component))"
    by (rule cpu_request_exact) (use c in \<open>auto simp: p pod_cpu_def map_eq_Cons_conv\<close>)
  with p c show ?thesis by (simp add: pod_cpu_def scheduled_def)
qed

section \<open>The event log\<close>

text \<open>
  C12: every message is accounted for. In every run of the store whose inserts do not overlap, with
  persisting, collection, stopping and the garbage goroutine in any order, whatever batches the plugin
  and whatever appends the file refuses: the messages that are not mere progress are exactly the ones
  saved by the plugin, waiting in a barrel, waiting as garbage, written to the garbage file, or dropped
  by the garbage goroutine (because an append failed or the message has no content), and the file
  holds the lines of the written messages, in order, and nothing else.
\<close>

theorem no_message_lost:
  assumes "es_run ms filed lost h"
  shows "filter_mset kept (mset (hs_saved h) + mset (hs_garbage h) + map_sum_of barrel_msgs (hs_barrels h) + mset filed + lost) =
      filter_mset kept (mset ms) \<and>
    hs_file h = concat (map garbage_line filed)"
  using es_run_content [OF assms] by (simp add: content_def)

definition ex_msg :: "string \<Rightarrow> EventLogMessage" where
  "ex_msg t = \<lparr>lm_EventID = ''e'', lm_Step = ''build'', lm_Status = ''success'', lm_Message = t, lm_Level = ''info'', lm_Time = ''now'', lm_Content = Some t\<rparr>"

text \<open>An event with room for no message: the second message is garbage and goes to the file.\<close>

lemma ex_garbage_run:
  "\<exists>h. es_run [ex_msg ''a'', ex_msg ''b''] [ex_msg ''b''] {#} h \<and> hs_file h = garbage_line (ex_msg ''b'') \<and>
     \<not> hs_stopGarbage h"
proof -
  define h1 where "h1 = InsertMessage 0 (new_barrel 0 5) (Some (ex_msg ''a'')) (new_store 100)"
  define h2 where "h2 = InsertMessage 0 (new_barrel 0 5) (Some (ex_msg ''b'')) h1"
  define h3 where "h3 = handleGarbageMessage_turn GarbageTick True h2"
  have 1: "es_run ([] @ [ex_msg ''a'']) [] {#} h1" unfolding h1_def
    by (rule es_run.Insert [OF es_run.Start new_barrel_pool]) (simp_all add: ex_msg_def)
  have 2: "es_run (([] @ [ex_msg ''a'']) @ [ex_msg ''b'']) [] {#} h2" unfolding h2_def
    by (rule es_run.Insert [OF 1 new_barrel_pool]) (simp_all add: ex_msg_def)
  have g: "hs_garbage h2 = [ex_msg ''b'']"
    by (simp add: h1_def h2_def InsertMessage_def insert_known_def insert_new_def barrel_insert_def analysis_def InsertGarbageMessage_def
        new_store_def new_barrel_def ex_msg_def Let_def)
  have n: "hs_garbage h3 = []" "hs_file h3 = hs_file h2 @ garbage_line (ex_msg ''b'')"
    by (simp_all add: h3_def handleGarbageMessage_turn_def saveGarbageMessage_def g Let_def)
  have ne: "h3 \<noteq> h2" using g n(1) by auto
  have c: "has_content (ex_msg t)" for t by (simp add: has_content_def ex_msg_def)
  have "es_run (([] @ [ex_msg ''a'']) @ [ex_msg ''b'']) ([] @ filter has_content (hs_garbage h2))
      ({#} + mset (filter (\<lambda>m. \<not> has_content m) (hs_garbage h2))) h3"
    by (rule es_run.Appended [OF 2 _ ne]) (simp add: h3_def)
  moreover have "hs_file h2 = []" by (simp add: h1_def h2_def new_store_def)
  moreover have "\<not> hs_stopGarbage h3"
    by (simp add: h1_def h2_def h3_def handleGarbageMessage_turn_def saveGarbageMessage_def InsertMessage_def insert_known_def insert_new_def
        barrel_insert_def analysis_def InsertGarbageMessage_def new_store_def new_barrel_def ex_msg_def Let_def)
  ultimately show ?thesis using n(2) by (auto simp: g c)
qed

theorem no_message_lost_witness:
  "\<exists>h. es_run [ex_msg ''a'', ex_msg ''b''] [ex_msg ''b''] {#} h \<and> kept (ex_msg ''a'') \<and>
     filter_mset kept (mset (hs_saved h) + mset (hs_garbage h) + map_sum_of barrel_msgs (hs_barrels h) + mset [ex_msg ''b''] + {#}) =
       {#ex_msg ''a'', ex_msg ''b''#} \<and> hs_file h = garbage_line (ex_msg ''b'')"
proof -
  obtain h where r: "es_run [ex_msg ''a'', ex_msg ''b''] [ex_msg ''b''] {#} h" using ex_garbage_run by blast
  have "kept (ex_msg t)" for t by (simp add: kept_def ex_msg_def)
  with no_message_lost [OF r] r show ?thesis by auto
qed



text \<open>
  C38: two goroutines that insert the first two messages of an event at the same time can lose one:
  both find no barrel under the read lock, and the second of the two barrels created under the write
  lock replaces the first.
\<close>

theorem concurrent_first_messages:
  assumes "wf_store h" "pool_barrel p1" "pool_barrel p2" "map_of (hs_barrels h) i = None"
    and "lm_EventID m1 = i" "lm_EventID m2 = i" "kept m1" "kept m2"
  shows "insert_known t1 m1 h = (False, h) \<and> insert_known t2 m2 h = (False, h) \<and>
    content (insert_new t2 p2 m2 (insert_new t1 p1 m1 h)) = content h + {#m2#}"
  using insert_race_loses [OF assms(1-6)] assms(7,8) by (simp add: kept_def)

theorem concurrent_first_messages_witness:
  "kept (ex_msg ''a'') \<and> kept (ex_msg ''b'') \<and>
   content (insert_new 0 (new_barrel 10 5) (ex_msg ''b'') (insert_new 0 (new_barrel 10 5) (ex_msg ''a'') (new_store 100))) =
     content (new_store 100) + {#ex_msg ''b''#}"
proof -
  have k: "kept (ex_msg ''a'')" "kept (ex_msg ''b'')" "lm_EventID (ex_msg ''a'') = ''e''" "lm_EventID (ex_msg ''b'') = ''e''"
    by (simp_all add: kept_def ex_msg_def)
  have h: "wf_store (new_store 100)" "map_of (hs_barrels (new_store 100)) ''e'' = None"
    by (simp_all add: wf_store_def new_store_def wf_map_def)
  have p: "pool_barrel (new_barrel 10 5)" by (rule new_barrel_pool) simp
  show ?thesis using concurrent_first_messages [OF h(1) p p h(2) k(3,4,1,2), of 0 0] k by simp
qed


definition ex_barrel :: readEventBarrel where
  "ex_barrel = \<lparr>rb_barrel = [], rb_subs = [], rb_updateTime = 0, rb_inflight = None, rb_pending = []\<rparr>"


end
