(* ===== verification/WkConversion.thy ===== *)
theory WkConversion
  imports AppService
begin

text \<open>
  \<open>worker/appm/conversion\<close>: how the rows of the database that describe a component become Kubernetes
  objects: the base of the workload (\<open>service.go\<close>), the services, ingresses and secrets of its ports
  (\<open>gateway.go\<close>, \<open>common.go\<close>), resource requirements (\<open>resource.go\<close>), autoscalers (\<open>autoscaler.go\<close>),
  configuration groups (\<open>configgroup.go\<close>) and the chain of conversions (\<open>conversion.go\<close>).

  \<^item> The rows are records of the columns that are read; \<open>db\<close> is the database manager, one function per
    query. \<open>Inl\<close> is the error of the query; a pointer result is an \<open>option\<close>.
  \<^item> The result \<open>None\<close> of a conversion is a panic, \<open>Some (Inl e)\<close> the error it returns.
  \<^item> \<open>EX_DOMAIN\<close> is an argument of the functions that read it.
\<close>

section \<open>Rows\<close>

record Tenants =
  tn_Name :: string
  tn_UUID :: string

record TenantServices =
  ts_TenantID :: string
  ts_ServiceID :: string
  ts_ServiceAlias :: string
  ts_ServiceName :: string
  ts_ContainerCPU :: int
  ts_ContainerMemory :: int
  ts_UpgradeMethod :: string
  ts_ExtendMethod :: string
  ts_Replicas :: int
  ts_DeployVersion :: string
  ts_Kind :: string
  ts_AppID :: string

record TenantServicesPort =
  tp_ID :: nat
  tp_ServiceID :: string
  tp_ContainerPort :: int
  tp_MappingPort :: int
  tp_Protocol :: string
  tp_IsInnerService :: "bool option"
  tp_IsOuterService :: "bool option"
  tp_K8sServiceName :: string

record TenantServicesStreamPluginPort =
  pp_ContainerPort :: int
  pp_PluginPort :: int

record HTTPRule =
  hr_UUID :: string
  hr_Domain :: string
  hr_Path :: string
  hr_Header :: string
  hr_Cookie :: string
  hr_Weight :: int
  hr_CertificateID :: string

record TCPRule =
  tr_UUID :: string
  tr_IP :: string
  tr_Port :: int

record RuleExtension =
  rx_Key :: string
  rx_Value :: string

record GwRuleConfig =
  rcf_Key :: string
  rcf_Value :: string

record Certificate =
  crt_Certificate :: string
  crt_PrivateKey :: string

record TenantServiceAutoscalerRules =
  ar_RuleID :: string
  ar_MinReplicas :: int
  ar_MaxReplicas :: int

record TenantServiceAutoscalerRuleMetrics =
  am_MetricsType :: string
  am_MetricsName :: string
  am_MetricTargetType :: string
  am_MetricTargetValue :: int

datatype db_error = ErrRecordNotFound | ErrApplicationNotFound | DbFailure string

record dbmanager =
  GetServiceByID :: "string \<Rightarrow> db_error + TenantServices option"
  GetTenantByUUID :: "string \<Rightarrow> db_error + Tenants option"
  GetPortsByServiceID :: "string \<Rightarrow> db_error + TenantServicesPort list"
  GetPort :: "string \<Rightarrow> int \<Rightarrow> db_error + TenantServicesPort option"
  CheckSomeModelPluginByServiceID :: "string \<Rightarrow> string \<Rightarrow> db_error + bool"
  GetPluginMappingPorts :: "string \<Rightarrow> db_error + TenantServicesStreamPluginPort list"
  GetHTTPRuleByServiceIDAndContainerPort :: "string \<Rightarrow> int \<Rightarrow> db_error + HTTPRule list"
  GetTCPRuleByServiceIDAndContainerPort :: "string \<Rightarrow> int \<Rightarrow> db_error + TCPRule list"
  GetCertificateByID :: "string \<Rightarrow> db_error + Certificate option"
  GetRuleExtensionByRuleID :: "string \<Rightarrow> db_error + RuleExtension list"
  ListByRuleID :: "string \<Rightarrow> db_error + GwRuleConfig list"
  GetAppGovernanceMode :: "string \<Rightarrow> db_error + string option"
  GetLabelByNodeSelectorKey :: "string \<Rightarrow> string \<Rightarrow> bool"
  ListEnableOnesByServiceID :: "string \<Rightarrow> db_error + TenantServiceAutoscalerRules list"
  ListMetricsByRuleID :: "string \<Rightarrow> db_error + TenantServiceAutoscalerRuleMetrics list"
  ListConfigGroups :: "string \<Rightarrow> db_error + (string \<times> string) list"
  GetConfigGroupItemsByID :: "string \<Rightarrow> string \<Rightarrow> db_error + (string \<times> string) list"
  GetServiceSource :: "string \<Rightarrow> db_error + (string \<times> string) list"

datatype conv_error =
    QueryError db_error
  | ErrServiceNotFound
  | TenantInvalid
  | ServiceMissing
  | TenantMissing
  | CertificateNotFound string
  | PortNotExist int
  | DecodeError string

definition ServiceKindThirdParty :: string where "ServiceKindThirdParty = ''third_party''"
definition TypeStatefulSet :: string where "TypeStatefulSet = ''statefulset''"
definition TypeDeployment :: string where "TypeDeployment = ''deployment''"
definition OnDelete :: string where "OnDelete = ''OnDelete''"

section \<open>common.go and resource.go\<close>

definition conversionPortProtocol :: "string \<Rightarrow> string" where
  "conversionPortProtocol protocol =
     (if protocol = ''udp'' then ''UDP'' else if protocol = ''sctp'' then ''SCTP'' else ''TCP'')"

record ResourceRequirements =
  rq_CPULimit :: int
  rq_MemoryLimit :: int
  rq_CPURequest :: int
  rq_MemoryRequest :: int

text \<open>\<open>createResourcesByDefaultCPU\<close>: CPU in thousandths of a core, memory in bytes.\<close>

definition createResourcesByDefaultCPU :: "int \<Rightarrow> int \<Rightarrow> int \<Rightarrow> ResourceRequirements" where
  "createResourcesByDefaultCPU memory setCPURequest setCPULimit =
     (let base = quot_int memory 128;
          base = (if base \<le> 0 then 1 else base);
          (cpuRequest, cpuLimit) =
            (if memory < 512 then (to_int64 (base * 30), to_int64 (base * 80))
             else if memory \<le> 1024 then (to_int64 (base * 30), to_int64 (base * 160))
             else (to_int64 (base * 30), to_int64 (quot_int (memory - 1024) 1024 * 500 + 1280)));
          cpuLimit = (if setCPULimit > 0 then setCPULimit else cpuLimit);
          cpuRequest = (if setCPURequest > 0 then setCPURequest else cpuRequest);
          bytes = to_int64 (memory * 1024 * 1024)
      in \<lparr>rq_CPULimit = cpuLimit, rq_MemoryLimit = bytes, rq_CPURequest = cpuRequest, rq_MemoryRequest = bytes\<rparr>)"

text \<open>A positive number of the extension set of a component, as \<open>createResources\<close> reads it; \<open>d\<close> when there is none.\<close>

definition ext_int :: "(string, string) gomap \<Rightarrow> string \<Rightarrow> int \<Rightarrow> int" where
  "ext_int ext k d =
     (case map_of ext k of
        None \<Rightarrow> d
      | Some s \<Rightarrow> (let i = Atoi_value s in if i > 0 then i else d))"

definition createResources :: "AppService \<Rightarrow> ResourceRequirements" where
  "createResources a =
     (let cpuLimit = ext_int (as_ExtensionSet a) ''cpulimit'' 0; cpuRequest = ext_int (as_ExtensionSet a) ''cpurequest'' 0
      in createResourcesByDefaultCPU (as_ContainerMemory a) cpuRequest cpuLimit)"

definition createPluginResources :: "int \<Rightarrow> int \<Rightarrow> ResourceRequirements" where
  "createPluginResources memory cpu = createResourcesByDefaultCPU memory cpu cpu"

definition createTCPUDPMeshRecources :: "AppService \<Rightarrow> ResourceRequirements" where
  "createTCPUDPMeshRecources a =
     (let cpu = ext_int (as_ExtensionSet a) ''tcpudp_mesh_cpu'' 0; memory = ext_int (as_ExtensionSet a) ''tcpudp_mesh_memory'' 128
      in createResourcesByDefaultCPU memory cpu (if cpu < 120 then 120 else cpu))"

section \<open>gateway.go: services\<close>

record AppServiceBuild =
  ab_serviceID :: string
  ab_eventID :: string
  ab_tenant :: Tenants
  ab_service :: TenantServices
  ab_appService :: AppService
  ab_replicationType :: string
  ab_dbmanager :: dbmanager

definition AppServiceBuilder ::
  "string \<Rightarrow> string \<Rightarrow> dbmanager \<Rightarrow> AppService \<Rightarrow> conv_error + AppServiceBuild" where
  "AppServiceBuilder serviceID replicationType db a =
     (case GetServiceByID db serviceID of
        Inl err \<Rightarrow> Inl (QueryError err)
      | Inr None \<Rightarrow> Inl ServiceMissing
      | Inr (Some service) \<Rightarrow>
          (case GetTenantByUUID db (ts_TenantID service) of
             Inl err \<Rightarrow> Inl (QueryError err)
           | Inr None \<Rightarrow> Inl TenantMissing
           | Inr (Some tenant) \<Rightarrow>
               Inr \<lparr>ab_serviceID = serviceID, ab_eventID = [], ab_tenant = tenant, ab_service = service,
                    ab_appService = a, ab_replicationType = replicationType, ab_dbmanager = db\<rparr>))"

definition tolerate_unready :: string where
  "tolerate_unready = ''infinitapps.cloud/tolerate-unready-endpoints''"

definition createServiceAnnotations :: "AppServiceBuild \<Rightarrow> (string, string) gomap" where
  "createServiceAnnotations a = (if ts_Replicas (ab_service a) \<le> 1 then [(tolerate_unready, ''true'')] else [])"

definition zero_Service :: ServiceObject where
  "zero_Service =
     \<lparr>ko_Name = [], ko_Namespace = [], ko_ResourceVersion = [], ko_Labels = [], ko_Annotations = [],
      ko_CreationTimestamp = 0, ko_UID = [], ko_Body = 0, so_Ports = [], so_Selector = [], so_Type = [], so_ClusterIP = [],
      so_PublishNotReadyAddresses = False\<rparr>"

definition tolerate :: "AppServiceBuild \<Rightarrow> (string, string) gomap \<Rightarrow> (string, string) gomap" where
  "tolerate a labels = (if ts_Replicas (ab_service a) \<le> 1 then map_set tolerate_unready ''true'' labels else labels)"

text \<open>The selector of a service: third-party components have none.\<close>

definition selector_of :: "AppServiceBuild \<Rightarrow> (string, string) gomap" where
  "selector_of a =
     (if as_ServiceKind (ab_appService a) \<noteq> ServiceKindThirdParty then [(''name'', ts_ServiceAlias (ab_service a))] else [])"

definition port_name :: "string \<Rightarrow> int \<Rightarrow> string" where
  "port_name protocol port = ToLower protocol @ ''-'' @ Itoa port"

definition mapping_port :: "TenantServicesPort \<Rightarrow> int" where
  "mapping_port port =
     (if to_int32 (tp_MappingPort port) = 0 then to_int32 (tp_ContainerPort port) else to_int32 (tp_MappingPort port))"

definition createInnerService :: "AppServiceBuild \<Rightarrow> TenantServicesPort \<Rightarrow> ServiceObject" where
  "createInnerService a port =
     (let protocol = (if tp_Protocol port = ''udp'' then ''UDP'' else ''TCP'')
      in zero_Service
           \<lparr>ko_Name := (if tp_K8sServiceName port = []
                        then ''service-'' @ Itoa (int (tp_ID port)) @ ''-'' @ Itoa (tp_ContainerPort port)
                        else tp_K8sServiceName port),
            ko_Namespace := ts_TenantID (ab_service a),
            ko_Labels := tolerate a (GetCommonLabels
              [[(''service_type'', ''inner''), (''name'', ts_ServiceAlias (ab_service a) @ ''Service''),
                (''port_protocol'', tp_Protocol port), (''service_port'', Itoa (tp_ContainerPort port)),
                (''version'', ts_DeployVersion (ab_service a))]] (ab_appService a)),
            ko_Annotations := createServiceAnnotations a,
            so_Ports := [\<lparr>sp_Name = port_name protocol (tp_ContainerPort port), sp_Protocol = protocol,
                          sp_Port = mapping_port port, sp_TargetPort = to_int32 (tp_ContainerPort port)\<rparr>],
            so_Selector := selector_of a\<rparr>)"

definition createKubernetesNativeService :: "AppServiceBuild \<Rightarrow> TenantServicesPort \<Rightarrow> ServiceObject" where
  "createKubernetesNativeService a port =
     (createInnerService a port)
       \<lparr>ko_Name := (if tp_K8sServiceName port = []
                    then ts_ServiceAlias (ab_service a) @ ''-'' @ Itoa (tp_ContainerPort port)
                    else tp_K8sServiceName port)\<rparr>"

definition createOuterService :: "AppServiceBuild \<Rightarrow> TenantServicesPort \<Rightarrow> ServiceObject" where
  "createOuterService a port =
     (let protocol = conversionPortProtocol (tp_Protocol port)
      in zero_Service
           \<lparr>ko_Name := ''service-'' @ Itoa (int (tp_ID port)) @ ''-'' @ Itoa (tp_ContainerPort port) @ ''out'',
            ko_Namespace := ts_TenantID (ab_service a),
            ko_Labels := tolerate a (GetCommonLabels
              [[(''service_type'', ''outer''), (''name'', ts_ServiceAlias (ab_service a) @ ''ServiceOUT''),
                (''tenant_name'', tn_Name (ab_tenant a)), (''protocol'', tp_Protocol port),
                (''port_protocol'', tp_Protocol port), (''service_port'', Itoa (tp_ContainerPort port)),
                (''event_id'', ab_eventID a), (''version'', ts_DeployVersion (ab_service a))]] (ab_appService a)),
            so_Ports := [\<lparr>sp_Name = port_name protocol (tp_ContainerPort port), sp_Protocol = protocol,
                          sp_Port = to_int32 (tp_ContainerPort port), sp_TargetPort = to_int32 (tp_ContainerPort port)\<rparr>],
            so_Type := ''ClusterIP'',
            so_Selector := selector_of a\<rparr>)"

definition createStatefulService :: "AppServiceBuild \<Rightarrow> TenantServicesPort list \<Rightarrow> ServiceObject" where
  "createStatefulService a ports =
     zero_Service
       \<lparr>ko_Name := (if ts_ServiceName (ab_service a) = [] then ts_ServiceAlias (ab_service a) else ts_ServiceName (ab_service a)),
        ko_Namespace := ts_TenantID (ab_service a),
        ko_Labels := GetCommonLabels
          [[(''service_type'', ''stateful''), (''name'', ts_ServiceAlias (ab_service a) @ ''ServiceStateful'')]] (ab_appService a),
        ko_Annotations := [(''service.alpha.kubernetes.io/tolerate-unready-endpoints'', ''true'')],
        so_Ports := map (\<lambda>p. \<lparr>sp_Name = port_name ''TCP'' (tp_ContainerPort p), sp_Protocol = ''TCP'',
                                sp_Port = mapping_port p, sp_TargetPort = to_int32 (tp_ContainerPort p)\<rparr>) ports,
        so_Selector := [(''name'', ts_ServiceAlias (ab_service a))],
        so_ClusterIP := ''None'',
        so_PublishNotReadyAddresses := True\<rparr>"

definition BuildOnPort :: "AppServiceBuild \<Rightarrow> int \<Rightarrow> bool \<Rightarrow> (conv_error + ServiceObject) option" where
  "BuildOnPort a p isOut =
     (case GetPort (ab_dbmanager a) (ab_serviceID a) p of
        Inl err \<Rightarrow> Some (Inl (QueryError err))
      | Inr None \<Rightarrow> Some (Inl (PortNotExist p))
      | Inr (Some port) \<Rightarrow>
          (case (if isOut then tp_IsOuterService port else tp_IsInnerService port) of
             None \<Rightarrow> None
           | Some True \<Rightarrow> Some (Inr (if isOut then createOuterService a port else createInnerService a port))
           | Some False \<Rightarrow> Some (Inl (PortNotExist p))))"

section \<open>gateway.go: ports taken over by a network plugin\<close>

definition checkUpstreamPluginRelation :: "string \<Rightarrow> dbmanager \<Rightarrow> db_error + bool" where
  "checkUpstreamPluginRelation serviceID db =
     (case CheckSomeModelPluginByServiceID db serviceID ''net-plugin:up'' of
        Inl err \<Rightarrow> Inl err
      | Inr True \<Rightarrow> Inr True
      | Inr False \<Rightarrow> CheckSomeModelPluginByServiceID db serviceID ''net-plugin:in-and-out'')"

type_synonym port_map = "(int, int) gomap"

definition plugin_port_step ::
  "TenantServicesStreamPluginPort \<Rightarrow> TenantServicesPort \<times> port_map \<Rightarrow> TenantServicesPort \<times> port_map" where
  "plugin_port_step pport s =
     (let (port, pp) = s in
      if pp_ContainerPort pport = tp_ContainerPort port
      then (port\<lparr>tp_ContainerPort := pp_PluginPort pport, tp_MappingPort := pp_PluginPort pport\<rparr>,
            map_set (to_int32 (pp_PluginPort pport)) (tp_ContainerPort port) pp)
      else (port, pp))"

fun CreateUpstreamPluginMappingPort ::
  "TenantServicesStreamPluginPort list \<Rightarrow> TenantServicesPort list \<Rightarrow> port_map \<Rightarrow> TenantServicesPort list \<times> port_map" where
  "CreateUpstreamPluginMappingPort pluginPorts [] pp = ([], pp)"
| "CreateUpstreamPluginMappingPort pluginPorts (port # ports) pp =
     (let (port, pp) = fold plugin_port_step pluginPorts (port, pp);
          (ports, pp) = CreateUpstreamPluginMappingPort pluginPorts ports pp
      in (port # ports, pp))"

definition pp_get :: "port_map \<Rightarrow> int \<Rightarrow> int" where
  "pp_get pp p = (case map_of pp p of Some v \<Rightarrow> v | None \<Rightarrow> 0)"

text \<open>\<open>service.Spec.Ports[0]\<close> panics for a service without ports.\<close>

fun CreateUpstreamPluginMappingService :: "port_map \<Rightarrow> ServiceObject list \<Rightarrow> ServiceObject list option" where
  "CreateUpstreamPluginMappingService pp [] = Some []"
| "CreateUpstreamPluginMappingService pp (service # services) =
     (case so_Ports service of
        [] \<Rightarrow> None
      | p # _ \<Rightarrow>
          map_option ((#) (service\<lparr>ko_Labels := map_set ''origin_port'' (Itoa (pp_get pp (sp_Port p))) (ko_Labels service)\<rparr>))
            (CreateUpstreamPluginMappingService pp services))"

section \<open>gateway.go: rules\<close>

definition createDefaultDomain :: "string \<Rightarrow> string \<Rightarrow> string \<Rightarrow> int \<Rightarrow> string option" where
  \<comment> \<open>\<open>None\<close>: \<open>exDomain[0]\<close> on the empty string.\<close>
  "createDefaultDomain exDomain tenantName serviceAlias servicePort =
     (if exDomain = [] then Some []
      else
        (let exDomain = (if Contains exDomain '':'' then hd (Split (CHR '':'') exDomain) else exDomain) in
         if exDomain = [] then None
         else
           (let exDomain = (if hd exDomain = CHR ''.'' then tl exDomain else exDomain)
            in Some (Itoa servicePort @ ''.'' @ serviceAlias @ ''.'' @ tenantName @ ''.'' @ TrimSpace exDomain))))"

definition rule_path :: "HTTPRule \<Rightarrow> string" where
  "rule_path rule = (let path = Replace (hr_Path rule) '' '' [] (-1) in if path = [] then ''/'' else path)"

definition rule_domain :: "string \<Rightarrow> AppServiceBuild \<Rightarrow> HTTPRule \<Rightarrow> int \<Rightarrow> string option" where
  "rule_domain exDomain a rule containerPort =
     (let domain = Replace (hr_Domain rule) '' '' [] (-1) in
      if domain = [] then createDefaultDomain exDomain (tn_Name (ab_tenant a)) (ts_ServiceAlias (ab_service a)) containerPort
      else Some domain)"

type_synonym annos = "(string, string) gomap"

definition set_anno :: "string \<Rightarrow> string \<Rightarrow> annos \<Rightarrow> annos" where
  "set_anno k v annos = map_set (GetAnnotationWithPrefix k) v annos"

definition rule_annos :: "HTTPRule \<Rightarrow> annos" where
  "rule_annos rule =
     (let annos = [];
          annos = (if hr_Weight rule > 1 then set_anno ''weight'' (Itoa (hr_Weight rule)) annos else annos);
          annos = (if hr_Header rule \<noteq> [] then set_anno ''header'' (hr_Header rule) annos else annos);
          annos = (if hr_Cookie rule \<noteq> [] then set_anno ''cookie'' (hr_Cookie rule) annos else annos)
      in annos)"

definition HTTPToHTTPS :: string where "HTTPToHTTPS = ''httptohttps''"
definition LBType :: string where "LBType = ''lb-type''"

definition extension_step :: "HTTPRule \<Rightarrow> RuleExtension \<Rightarrow> annos \<Rightarrow> annos" where
  "extension_step rule ext annos =
     (if rx_Key ext = HTTPToHTTPS
      then (if hr_CertificateID rule = [] then annos else set_anno ''force-ssl-redirect'' ''true'' annos)
      else if rx_Key ext = LBType
      then (if HasPrefix (rx_Value ext) ''upstream-hash-by''
            then (case Split (CHR '':'') (rx_Value ext) of
                    _ # v # _ \<Rightarrow> set_anno ''upstream-hash-by'' v annos
                  | _ \<Rightarrow> annos)
            else set_anno ''lb-type'' (rx_Value ext) annos)
      else annos)"

definition config_step :: "GwRuleConfig \<Rightarrow> annos \<Rightarrow> annos" where
  "config_step cfg annos = set_anno (rcf_Key cfg) (rcf_Value cfg) annos"

definition SecretTypeOpaque :: string where "SecretTypeOpaque = ''Opaque''"

definition rule_secret :: "AppServiceBuild \<Rightarrow> HTTPRule \<Rightarrow> Certificate \<Rightarrow> SecretObject" where
  "rule_secret a rule cert =
     \<lparr>ko_Name = hr_UUID rule, ko_Namespace = tn_UUID (ab_tenant a), ko_ResourceVersion = [],
      ko_Labels = GetCommonLabels [] (ab_appService a), ko_Annotations = [], ko_CreationTimestamp = 0, ko_UID = [], ko_Body = 0,
      sk_Data = [(''tls.crt'', crt_Certificate cert), (''tls.key'', crt_PrivateKey cert)], sk_Type = SecretTypeOpaque\<rparr>"

text \<open>The certificate of a rule: the secret for it, or none.\<close>

definition rule_certificate :: "AppServiceBuild \<Rightarrow> HTTPRule \<Rightarrow> conv_error + SecretObject option" where
  "rule_certificate a rule =
     (if hr_CertificateID rule = [] then Inr None
      else
        (case GetCertificateByID (ab_dbmanager a) (hr_CertificateID rule) of
           Inl err \<Rightarrow> Inl (QueryError err)
         | Inr None \<Rightarrow> Inl (CertificateNotFound (hr_UUID rule))
         | Inr (Some cert) \<Rightarrow>
             if TrimSpace (crt_Certificate cert) = [] \<or> TrimSpace (crt_PrivateKey cert) = []
             then Inl (CertificateNotFound (hr_UUID rule))
             else Inr (Some (rule_secret a rule cert))))"

definition http_ingress ::
  "AppServiceBuild \<Rightarrow> HTTPRule \<Rightarrow> string \<Rightarrow> int \<Rightarrow> ServiceObject \<Rightarrow> SecretObject option \<Rightarrow> annos \<Rightarrow> IngressObject" where
  "http_ingress a rule domain pluginContainerPort service sec annos =
     \<lparr>ko_Name = hr_UUID rule, ko_Namespace = tn_UUID (ab_tenant a), ko_ResourceVersion = [],
      ko_Labels = GetCommonLabels [] (ab_appService a), ko_Annotations = annos, ko_CreationTimestamp = 0, ko_UID = [], ko_Body = 0,
      io_Backend = None,
      io_TLS = (case sec of None \<Rightarrow> [] | Some s \<Rightarrow> [\<lparr>it_Hosts = [domain], it_SecretName = ko_Name s\<rparr>]),
      io_Rules = [\<lparr>ir_Host = domain,
                   ir_HTTP = Some [\<lparr>hp_Path = rule_path rule,
                                    hp_Backend = \<lparr>ib_ServiceName = ko_Name service,
                                                  ib_ServicePort = to_int32 pluginContainerPort\<rparr>\<rparr>]\<rparr>]\<rparr>"

definition applyHTTPRule ::
  "string \<Rightarrow> AppServiceBuild \<Rightarrow> HTTPRule \<Rightarrow> int \<Rightarrow> int \<Rightarrow> ServiceObject \<Rightarrow>
   (conv_error + IngressObject \<times> SecretObject option) option" where
  "applyHTTPRule exDomain a rule containerPort pluginContainerPort service =
     (case rule_domain exDomain a rule containerPort of
        None \<Rightarrow> None
      | Some domain \<Rightarrow> Some
          (case rule_certificate a rule of
             Inl err \<Rightarrow> Inl err
           | Inr sec \<Rightarrow>
               (case GetRuleExtensionByRuleID (ab_dbmanager a) (hr_UUID rule) of
                  Inl err \<Rightarrow> Inl (QueryError err)
                | Inr ruleExtensions \<Rightarrow>
                    (case ListByRuleID (ab_dbmanager a) (hr_UUID rule) of
                       Inl err \<Rightarrow> Inl (QueryError err)
                     | Inr configs \<Rightarrow>
                         (let annos = fold config_step configs (fold (extension_step rule) ruleExtensions (rule_annos rule))
                          in Inr (http_ingress a rule domain pluginContainerPort service sec annos, sec))))))"

definition applyTCPRule :: "AppServiceBuild \<Rightarrow> TCPRule \<Rightarrow> ServiceObject \<Rightarrow> string \<Rightarrow> IngressObject option" where
  "applyTCPRule a rule service namespace =
     (case so_Ports service of
        [] \<Rightarrow> None
      | p # _ \<Rightarrow>
          Some \<lparr>ko_Name = tr_UUID rule, ko_Namespace = namespace, ko_ResourceVersion = [],
                ko_Labels = GetCommonLabels [] (ab_appService a),
                ko_Annotations = set_anno ''l4-port'' (Itoa (tr_Port rule))
                  (set_anno ''l4-host'' (tr_IP rule) (set_anno ''l4-enable'' ''true'' [])),
                ko_CreationTimestamp = 0, ko_UID = [], ko_Body = 0,
                io_Backend = Some \<lparr>ib_ServiceName = ko_Name service, ib_ServicePort = to_int32 (sp_Port p)\<rparr>,
                io_TLS = [], io_Rules = []\<rparr>)"

fun http_rules ::
  "string \<Rightarrow> AppServiceBuild \<Rightarrow> int \<Rightarrow> int \<Rightarrow> ServiceObject \<Rightarrow> HTTPRule list \<Rightarrow>
   (IngressObject list \<times> SecretObject option list) option" where
  \<comment> \<open>The loop of \<open>ApplyRules\<close> over the HTTP rules; a failed rule is skipped.\<close>
  "http_rules exDomain a containerPort pluginContainerPort service [] = Some ([], [])"
| "http_rules exDomain a containerPort pluginContainerPort service (rule # rules) =
     (case applyHTTPRule exDomain a rule containerPort pluginContainerPort service of
        None \<Rightarrow> None
      | Some (Inl err) \<Rightarrow> http_rules exDomain a containerPort pluginContainerPort service rules
      | Some (Inr (ing, sec)) \<Rightarrow>
          map_option (\<lambda>(ings, secs). (ing # ings, sec # secs))
            (http_rules exDomain a containerPort pluginContainerPort service rules))"

fun tcp_rules :: "AppServiceBuild \<Rightarrow> ServiceObject \<Rightarrow> TCPRule list \<Rightarrow> IngressObject list option" where
  "tcp_rules a service [] = Some []"
| "tcp_rules a service (rule # rules) =
     (case applyTCPRule a rule service (tn_UUID (ab_tenant a)) of
        None \<Rightarrow> None
      | Some ing \<Rightarrow> map_option ((#) ing) (tcp_rules a service rules))"

definition ApplyRules ::
  "string \<Rightarrow> AppServiceBuild \<Rightarrow> string \<Rightarrow> int \<Rightarrow> int \<Rightarrow> ServiceObject \<Rightarrow>
   (IngressObject list \<times> SecretObject option list) option" where
  \<comment> \<open>A failed query is logged and gives no rules; the error result is always nil.\<close>
  "ApplyRules exDomain a serviceID containerPort pluginContainerPort service =
     (let httpRules = value_or [] (GetHTTPRuleByServiceIDAndContainerPort (ab_dbmanager a) serviceID containerPort);
          tcpRules = value_or [] (GetTCPRuleByServiceIDAndContainerPort (ab_dbmanager a) serviceID containerPort)
      in case http_rules exDomain a containerPort pluginContainerPort service httpRules of
           None \<Rightarrow> None
         | Some (ings, secs) \<Rightarrow>
             map_option (\<lambda>tcp. (ings @ tcp, secs)) (tcp_rules a service tcpRules))"

section \<open>gateway.go: Build\<close>

record K8sResources =
  kr_Services :: "ServiceObject list"
  kr_Secrets :: "SecretObject option list"
  kr_Ingresses :: "IngressObject list"

definition port_step ::
  "string \<Rightarrow> AppServiceBuild \<Rightarrow> port_map \<Rightarrow> TenantServicesPort \<Rightarrow> K8sResources \<Rightarrow> K8sResources option" where
  "port_step exDomain a pp port r =
     (case tp_IsInnerService port of
        None \<Rightarrow> None
      | Some inner \<Rightarrow>
          (let r = (if \<not> inner then r
                    else r\<lparr>kr_Services := kr_Services r @
                      [if as_GovernanceMode (ab_appService a) = ''KUBERNETES_NATIVE_SERVICE''
                       then createKubernetesNativeService a port else createInnerService a port]\<rparr>)
           in case tp_IsOuterService port of
                None \<Rightarrow> None
              | Some False \<Rightarrow> Some r
              | Some True \<Rightarrow>
                  (let service = createOuterService a port;
                       rel = pp_get pp (to_int32 (tp_ContainerPort port));
                       relContainerPort = (if rel = 0 then tp_ContainerPort port else rel)
                   in case ApplyRules exDomain a (tp_ServiceID port) relContainerPort (tp_ContainerPort port) service of
                        None \<Rightarrow> None
                      | Some (ings, secrs) \<Rightarrow>
                          Some (r\<lparr>kr_Services := kr_Services r @ [service], kr_Ingresses := kr_Ingresses r @ ings,
                                   kr_Secrets := kr_Secrets r @ secrs\<rparr>))))"

fun ports_loop ::
  "string \<Rightarrow> AppServiceBuild \<Rightarrow> port_map \<Rightarrow> TenantServicesPort list \<Rightarrow> K8sResources \<Rightarrow> K8sResources option" where
  "ports_loop exDomain a pp [] r = Some r"
| "ports_loop exDomain a pp (port # ports) r =
     (case port_step exDomain a pp port r of None \<Rightarrow> None | Some r \<Rightarrow> ports_loop exDomain a pp ports r)"

definition Build :: "string \<Rightarrow> AppServiceBuild \<Rightarrow> (conv_error + K8sResources) option" where
  "Build exDomain a =
     (case GetPortsByServiceID (ab_dbmanager a) (ab_serviceID a) of
        Inl err \<Rightarrow> Some (Inl (QueryError err))
      | Inr ports \<Rightarrow>
          (case checkUpstreamPluginRelation (ab_serviceID a) (ab_dbmanager a) of
             Inl err \<Rightarrow> Some (Inl (QueryError err))
           | Inr crt \<Rightarrow>
               (case (if crt then GetPluginMappingPorts (ab_dbmanager a) (ab_serviceID a) else Inr []) of
                  Inl err \<Rightarrow> Some (Inl (QueryError err))
                | Inr pluginPorts \<Rightarrow>
                    (let (ports, pp) = CreateUpstreamPluginMappingPort pluginPorts ports []
                     in case ports_loop exDomain a pp ports \<lparr>kr_Services = [], kr_Secrets = [], kr_Ingresses = []\<rparr> of
                          None \<Rightarrow> None
                        | Some r \<Rightarrow>
                            (let r = (if ab_replicationType a = TypeStatefulSet
                                      then r\<lparr>kr_Services := kr_Services r @ [createStatefulService a ports]\<rparr> else r)
                             in if crt
                                then (case CreateUpstreamPluginMappingService pp (kr_Services r) of
                                        None \<Rightarrow> None
                                      | Some services \<Rightarrow> Some (Inr (r\<lparr>kr_Services := services\<rparr>)))
                                else Some (Inr r))))))"

definition TenantServiceRegist :: "string \<Rightarrow> AppService \<Rightarrow> dbmanager \<Rightarrow> (conv_error + AppService) option" where
  "TenantServiceRegist exDomain a db =
     (case AppServiceBuilder (as_ServiceID a) (as_ServiceType a) db a of
        Inl err \<Rightarrow> Some (Inl err)
      | Inr builder \<Rightarrow>
          (case Build exDomain builder of
             None \<Rightarrow> None
           | Some (Inl err) \<Rightarrow> Some (Inl err)
           | Some (Inr k8s) \<Rightarrow>
               (let a = fold SetService (kr_Services k8s) a;
                    a = fold SetIngress (kr_Ingresses k8s) a;
                    a = fold SetSecret (kr_Secrets k8s) a
                in Some (Inr a))))"

section \<open>service.go\<close>

definition ts_IsState :: "TenantServices \<Rightarrow> bool" where
  "ts_IsState t \<longleftrightarrow> ts_ExtendMethod t \<noteq> [] \<and>
     (ts_ExtendMethod t = ''state_multiple'' \<or> ts_ExtendMethod t = ''state_singleton'')"

definition zero_Workload :: Workload where
  "zero_Workload =
     \<lparr>ko_Name = [], ko_Namespace = [], ko_ResourceVersion = [], ko_Labels = [], ko_Annotations = [],
      ko_CreationTimestamp = 0, ko_UID = [], ko_Body = 0,
      wl_Template = \<lparr>pt_Labels = [], pt_Containers = [], pt_InitContainers = []\<rparr>, wl_Replicas = None,
      wl_ReadyReplicas = 0, wl_Selector = None, wl_ServiceName = [], wl_GenerateName = [], wl_Strategy = []\<rparr>"

definition initTenant :: "AppService \<Rightarrow> Tenants \<Rightarrow> conv_error + AppService" where
  "initTenant a tenant =
     (if tn_UUID tenant = [] then Inl TenantInvalid
      else Inr (SetTenant \<lparr>ko_Name = tn_UUID tenant, ko_Namespace = [], ko_ResourceVersion = [],
                           ko_Labels = [(''creator'', ''Kato'')], ko_Annotations = [], ko_CreationTimestamp = 0, ko_UID = [], ko_Body = 0\<rparr> a))"

definition initSelector :: "TenantServices \<Rightarrow> (string, string) gomap option \<Rightarrow> (string, string) gomap option" where
  "initSelector service sel =
     (let m = (case sel of None \<Rightarrow> [] | Some m \<Rightarrow> m)
      in Some (map_set ''service_id'' (ts_ServiceID service)
                (map_set ''tenant_id'' (ts_TenantID service) (map_set ''name'' (ts_ServiceAlias service) m))))"

definition initBaseStatefulSet :: "AppService \<Rightarrow> TenantServices \<Rightarrow> AppService option" where
  "initBaseStatefulSet a service =
     (let a = a\<lparr>as_ServiceType := TypeStatefulSet\<rparr>;
          w = (case as_statefulset a of None \<Rightarrow> zero_Workload | Some w \<Rightarrow> w);
          name = (if ts_ServiceName service = [] then ts_ServiceAlias service else ts_ServiceName service)
      in SetStatefulSet
           (w\<lparr>ko_Namespace := ts_TenantID service,
              wl_Replicas := Some (to_int32 (ts_Replicas service)),
              wl_Selector := initSelector service (wl_Selector w),
              wl_ServiceName := name,
              ko_Name := name,
              wl_GenerateName := ts_ServiceAlias service,
              ko_Labels := GetCommonLabels [ko_Labels w,
                [(''name'', ts_ServiceAlias service), (''version'', ts_DeployVersion service)]] a,
              wl_Strategy := (if as_UpgradeMethod a = OnDelete then ''OnDelete'' else ''RollingUpdate'')\<rparr>) a)"

definition initBaseDeployment :: "AppService \<Rightarrow> TenantServices \<Rightarrow> AppService option" where
  "initBaseDeployment a service =
     (let a = a\<lparr>as_ServiceType := TypeDeployment\<rparr>;
          w = (case as_deployment a of None \<Rightarrow> zero_Workload | Some w \<Rightarrow> w)
      in SetDeployment
           (w\<lparr>ko_Namespace := ts_TenantID service,
              wl_Replicas := Some (to_int32 (ts_Replicas service)),
              wl_Selector := initSelector service (wl_Selector w),
              ko_Name := ts_ServiceID service @ ''-deployment'',
              wl_GenerateName := Replace (ts_ServiceAlias service) ''_'' ''-'' (-1),
              ko_Labels := GetCommonLabels [ko_Labels w,
                [(''name'', ts_ServiceAlias service), (''version'', ts_DeployVersion service)]] a,
              wl_Strategy := (if as_UpgradeMethod a = OnDelete then ''Recreate'' else ''RollingUpdate'')\<rparr>) a)"

text \<open>\<open>newVersion\<close> is \<open>util.NewTimeVersion()\<close>, the creator of a component that has none.\<close>

definition TenantServiceBase :: "string \<Rightarrow> AppService \<Rightarrow> dbmanager \<Rightarrow> (conv_error + AppService) option" where
  "TenantServiceBase newVersion a db =
     (case GetServiceByID db (as_ServiceID a) of
        Inl err \<Rightarrow> Some (Inl (if err = ErrRecordNotFound then ErrServiceNotFound else QueryError err))
      | Inr None \<Rightarrow> None
      | Inr (Some service) \<Rightarrow>
          (case GetTenantByUUID db (ts_TenantID service) of
             Inl err \<Rightarrow> Some (Inl (QueryError err))
           | Inr None \<Rightarrow> None
           | Inr (Some tenant) \<Rightarrow>
               (let a = a\<lparr>as_ServiceKind := ts_Kind service, as_TenantID := ts_TenantID service,
                          as_DeployVersion := (if as_DeployVersion a = [] then ts_DeployVersion service else as_DeployVersion a),
                          as_ContainerCPU := ts_ContainerCPU service, as_AppID := ts_AppID service,
                          as_ContainerMemory := ts_ContainerMemory service, as_Replicas := ts_Replicas service,
                          as_ServiceAlias := ts_ServiceAlias service, as_UpgradeMethod := ts_UpgradeMethod service,
                          as_CreaterID := (if as_CreaterID a = [] then newVersion else as_CreaterID a),
                          as_TenantName := tn_Name tenant\<rparr>
                in case initTenant a tenant of
                     Inl err \<Rightarrow> Some (Inl err)
                   | Inr a \<Rightarrow>
                       if ts_Kind service = ServiceKindThirdParty then Some (Inr a)
                       else
                         (let a = (if GetLabelByNodeSelectorKey db (as_ServiceID a) ''windows''
                                   then a\<lparr>as_IsWindowsService := True\<rparr> else a)
                          in map_option Inr (if \<not> ts_IsState service then initBaseDeployment a service
                                             else initBaseStatefulSet a service)))))"

text \<open>\<open>ServiceSource\<close>: \<open>dec\<close> are the YAML decoders of the three kinds.\<close>

record decoders =
  dec_deployment :: "string \<Rightarrow> string + Workload"
  dec_statefulset :: "string \<Rightarrow> string + Workload"
  dec_configmap :: "string \<Rightarrow> string + k8s_object"

fun source_loop :: "decoders \<Rightarrow> (string \<times> string) list \<Rightarrow> AppService \<Rightarrow> (conv_error + AppService) option" where
  "source_loop dec [] a = Some (Inr a)"
| "source_loop dec ((ty, body) # sscs) a =
     (if ty = ''deployment''
      then (case dec_deployment dec body of
              Inl err \<Rightarrow> Some (Inl (DecodeError err))
            | Inr dm \<Rightarrow> (case SetDeployment dm a of None \<Rightarrow> None | Some a \<Rightarrow> source_loop dec sscs a))
      else if ty = ''statefulset''
      then (case dec_statefulset dec body of
              Inl err \<Rightarrow> Some (Inl (DecodeError err))
            | Inr ss \<Rightarrow> (case SetStatefulSet ss a of None \<Rightarrow> None | Some a \<Rightarrow> source_loop dec sscs a))
      else if ty = ''configmap''
      then (case dec_configmap dec body of
              Inl err \<Rightarrow> Some (Inl (DecodeError err))
            | Inr cm \<Rightarrow> source_loop dec sscs (SetConfigMap cm a))
      else source_loop dec sscs a)"

definition ServiceSource :: "decoders \<Rightarrow> AppService \<Rightarrow> dbmanager \<Rightarrow> (conv_error + AppService) option" where
  "ServiceSource dec a db =
     (case GetServiceSource db (as_ServiceID a) of
        Inl err \<Rightarrow> Some (if err = ErrRecordNotFound then Inr a else Inl (QueryError err))
      | Inr sscs \<Rightarrow> source_loop dec sscs a)"

section \<open>autoscaler.go\<close>

definition resource_name :: "string \<Rightarrow> string" where
  \<comment> \<open>\<open>str2ResourceName\<close>\<close>
  "resource_name n = (if n = ''cpu'' \<or> n = ''memory'' then n else [])"

definition createResourceMetrics :: "TenantServiceAutoscalerRuleMetrics \<Rightarrow> MetricSpec" where
  "createResourceMetrics metric =
     (let ms = \<lparr>mt_Name = resource_name (am_MetricsName metric), mt_TargetType = [], mt_AverageUtilization = None,
                mt_AverageValue = None\<rparr>;
          ms = (if am_MetricTargetType metric = ''utilization''
                then ms\<lparr>mt_TargetType := ''Utilization'', mt_AverageUtilization := Some (to_int32 (am_MetricTargetValue metric))\<rparr>
                else ms)
      in if am_MetricTargetType metric = ''average_value''
         then (let ms = ms\<lparr>mt_TargetType := ''AverageValue''\<rparr>;
                   ms = (if am_MetricsName metric = ''cpu''
                         then ms\<lparr>mt_AverageValue := Some (MilliQuantity (am_MetricTargetValue metric))\<rparr> else ms)
               in if am_MetricsName metric = ''memory''
                  then ms\<lparr>mt_AverageValue := Some (WholeQuantity (to_int64 (am_MetricTargetValue metric * 1024 * 1024)))\<rparr>
                  else ms)
         else ms)"

definition usable_metric :: "TenantServiceAutoscalerRuleMetrics \<Rightarrow> bool" where
  "usable_metric m \<longleftrightarrow> am_MetricsType m = ''resource_metrics'' \<and> \<not> am_MetricTargetValue m \<le> 0"

definition newHPA ::
  "string \<Rightarrow> string \<Rightarrow> string \<Rightarrow> (string, string) gomap \<Rightarrow> TenantServiceAutoscalerRules \<Rightarrow>
   TenantServiceAutoscalerRuleMetrics list \<Rightarrow> HPAObject option" where
  "newHPA namespace kind name labels rule metrics =
     (let ms = map createResourceMetrics (filter usable_metric metrics) in
      if length ms = 0 then None
      else Some \<lparr>ko_Name = ar_RuleID rule, ko_Namespace = namespace, ko_ResourceVersion = [], ko_Labels = labels,
                 ko_Annotations = [], ko_CreationTimestamp = 0, ko_UID = [], ko_Body = 0, hp_MinReplicas = to_int32 (ar_MinReplicas rule),
                 hp_MaxReplicas = to_int32 (ar_MaxReplicas rule), hp_TargetKind = kind, hp_TargetName = name, hp_Metrics = ms\<rparr>)"

text \<open>The autoscalers that \<open>TenantServiceAutoscaler\<close> hands to \<open>SetHPAs\<close>; an element \<open>None\<close> is a nil pointer.\<close>

fun hpas_loop ::
  "AppService \<Rightarrow> dbmanager \<Rightarrow> TenantServiceAutoscalerRules list \<Rightarrow> (conv_error + HPAObject option list) option" where
  "hpas_loop a db [] = Some (Inr [])"
| "hpas_loop a db (rule # rules) =
     (case ListMetricsByRuleID db (ar_RuleID rule) of
        Inl err \<Rightarrow> Some (Inl (QueryError err))
      | Inr metrics \<Rightarrow>
          (case (case as_statefulset a of
                   Some w \<Rightarrow> Some (''StatefulSet'', ko_Name w)
                 | None \<Rightarrow> map_option (\<lambda>w. (''Deployment'', ko_Name w)) (as_deployment a)) of
             None \<Rightarrow> None
           | Some (kind, name) \<Rightarrow>
               (let labels = GetCommonLabels [[(''rule_id'', ar_RuleID rule), (''version'', as_DeployVersion a)]] a;
                    hpa = newHPA (as_TenantID a) kind name labels rule metrics
                in case hpas_loop a db rules of
                     None \<Rightarrow> None
                   | Some (Inl err) \<Rightarrow> Some (Inl err)
                   | Some (Inr hpas) \<Rightarrow> Some (Inr (hpa # hpas)))))"

definition newHPAs :: "AppService \<Rightarrow> dbmanager \<Rightarrow> (conv_error + HPAObject option list) option" where
  "newHPAs a db =
     (case ListEnableOnesByServiceID db (as_ServiceID a) of
        Inl err \<Rightarrow> Some (Inl (QueryError err))
      | Inr xpaRules \<Rightarrow> hpas_loop a db xpaRules)"

section \<open>configgroup.go\<close>

definition secretForConfigGroup :: "AppService \<Rightarrow> dbmanager \<Rightarrow> string \<Rightarrow> string \<Rightarrow> string \<Rightarrow> conv_error + SecretObject" where
  "secretForConfigGroup a db namespace appID configGroupName =
     (case GetConfigGroupItemsByID db appID configGroupName of
        Inl err \<Rightarrow> Inl (QueryError err)
      | Inr items \<Rightarrow>
          Inr \<lparr>ko_Name = configGroupName @ ''-'' @ appID, ko_Namespace = namespace, ko_ResourceVersion = [],
               ko_Labels = AList.delete ''service_alias'' (AList.delete ''service_id'' (GetCommonLabels [] a)),
               ko_Annotations = [], ko_CreationTimestamp = 0, ko_UID = [], ko_Body = 0,
               sk_Data = copy_labels items [], sk_Type = SecretTypeOpaque\<rparr>)"

fun groups_loop :: "AppService \<Rightarrow> dbmanager \<Rightarrow> (string \<times> string) list \<Rightarrow> conv_error + SecretObject list" where
  "groups_loop a db [] = Inr []"
| "groups_loop a db ((appID, name) # groups) =
     (case secretForConfigGroup a db (as_TenantID a) appID name of
        Inl err \<Rightarrow> Inl err
      | Inr secret \<Rightarrow> (case groups_loop a db groups of Inl err \<Rightarrow> Inl err | Inr secrets \<Rightarrow> Inr (secret # secrets)))"

definition TenantServiceConfigGroup :: "AppService \<Rightarrow> dbmanager \<Rightarrow> (conv_error + AppService) option" where
  "TenantServiceConfigGroup a db =
     Some (case ListConfigGroups db (as_ServiceID a) of
             Inl err \<Rightarrow> Inl (QueryError err)
           | Inr groups \<Rightarrow>
               (case groups_loop a db groups of Inl err \<Rightarrow> Inl err | Inr secrets \<Rightarrow> Inr (SetEnvVarSecrets secrets a)))"

section \<open>conversion.go\<close>

type_synonym Conversion = "AppService \<Rightarrow> dbmanager \<Rightarrow> (conv_error + AppService) option"

definition zero_AppService :: AppService where
  "zero_AppService =
     \<lparr>as_TenantID = [], as_TenantName = [], as_AppID = [], as_ServiceID = [], as_ServiceAlias = [], as_ServiceType = [],
      as_ServiceKind = [], as_CreaterID = [], as_DeployVersion = [], as_ContainerCPU = 0, as_ContainerMemory = 0,
      as_UpgradeMethod = [], as_Replicas = 0, as_IsWindowsService = False, as_ExtensionSet = [], as_GovernanceMode = [], as_tenant = None,
      as_statefulset = None, as_deployment = None, as_hpas = [], as_delHPAs = [], as_replicasets = [], as_services = [],
      as_delServices = [], as_endpoints = [], as_configMaps = [], as_ingresses = [], as_delIngs = [], as_secrets = [],
      as_delSecrets = [], as_pods = [], as_claims = [], as_claimsmanual = [], as_serviceMonitor = [], as_storageClasses = [],
      as_envVarSecrets = [], as_BootSeqContainer = None, as_UpgradePatch = [], as_CustomParams = None, as_podMemoryRequest = 0, as_podCPURequest = 0\<rparr>"

definition GovernanceModeBuildInServiceMesh :: string where
  "GovernanceModeBuildInServiceMesh = ''BUILD_IN_SERVICE_MESH''"

definition with_governance :: "dbmanager \<Rightarrow> string \<Rightarrow> AppService \<Rightarrow> conv_error + AppService" where
  "with_governance db serviceID a =
     (case GetAppGovernanceMode db serviceID of
        Inl err \<Rightarrow> if err \<noteq> ErrApplicationNotFound then Inl (QueryError err) else Inr a
      | Inr None \<Rightarrow> Inr a
      | Inr (Some mode) \<Rightarrow> Inr (a\<lparr>as_GovernanceMode := mode\<rparr>))"

fun conversion_loop ::
  "dbmanager \<Rightarrow> string list \<Rightarrow> (string \<times> Conversion) list \<Rightarrow> AppService \<Rightarrow> (conv_error + AppService) option" where
  "conversion_loop db enabled [] a = Some (Inr a)"
| "conversion_loop db enabled ((name, c) # cs) a =
     (if length enabled = 0 \<or> name \<in> set enabled
      then (case c a db of
              None \<Rightarrow> None
            | Some (Inl err) \<Rightarrow> Some (Inl err)
            | Some (Inr a) \<Rightarrow> conversion_loop db enabled cs a)
      else conversion_loop db enabled cs a)"

definition InitAppService ::
  "(string \<times> Conversion) list \<Rightarrow> dbmanager \<Rightarrow> string \<Rightarrow> (string, string) gomap \<Rightarrow> string list \<Rightarrow>
   (conv_error + AppService) option" where
  "InitAppService conversionList db serviceID configs enabled =
     (case with_governance db serviceID
             (zero_AppService\<lparr>as_ServiceID := serviceID, as_ExtensionSet := configs,
                              as_GovernanceMode := GovernanceModeBuildInServiceMesh\<rparr>) of
        Inl err \<Rightarrow> Some (Inl err)
      | Inr a \<Rightarrow> conversion_loop db enabled conversionList a)"

definition InitCacheAppService ::
  "string \<Rightarrow> string \<Rightarrow> dbmanager \<Rightarrow> string \<Rightarrow> string \<Rightarrow> (conv_error + AppService) option" where
  "InitCacheAppService exDomain newVersion db serviceID creatorID =
     (case with_governance db serviceID
             (zero_AppService\<lparr>as_ServiceID := serviceID, as_CreaterID := creatorID,
                              as_GovernanceMode := GovernanceModeBuildInServiceMesh\<rparr>) of
        Inl err \<Rightarrow> Some (Inl err)
      | Inr a \<Rightarrow>
          (case TenantServiceBase newVersion a db of
             None \<Rightarrow> None
           | Some (Inl err) \<Rightarrow> Some (Inl err)
           | Some (Inr a) \<Rightarrow>
               (case GetServiceByID db serviceID of
                  Inl err \<Rightarrow> Some (Inl (QueryError err))
                | Inr None \<Rightarrow> None
                | Inr (Some svc) \<Rightarrow>
                    if ts_Kind svc = ServiceKindThirdParty then TenantServiceRegist exDomain a db else Some (Inr a))))"

end
