(* ===== verification/ConvFacts.thy ===== *)
theory ConvFacts
  imports WkConversion GwServed
begin

text \<open>
  What the conversion of a component gives the gateway: how the annotations that \<open>applyHTTPRule\<close> and
  \<open>applyTCPRule\<close> write are read by the gateway's parsers, which port of the component a rule belongs to
  when a network plugin takes the port over, and when building the services can panic.
\<close>

section \<open>An ingress of the worker as the gateway sees it\<close>

definition to_ingress :: "IngressObject \<Rightarrow> Ingress" where
  "to_ingress i =
     \<lparr>ing_Meta = \<lparr>om_Name = ko_Name i, om_Namespace = ko_Namespace i, om_ResourceVersion = ko_ResourceVersion i,
                  om_Annotations = ko_Annotations i, om_Labels = ko_Labels i\<rparr>,
      ing_Backend = io_Backend i, ing_TLS = io_TLS i, ing_Rules = io_Rules i\<rparr>"

lemma ann_to_ingress: "ann (to_ingress i) k = map_of (ko_Annotations i) (GetAnnotationWithPrefix k)"
  by (simp add: ann_def to_ingress_def)

lemma map_of_set_anno [simp]:
  "map_of (set_anno k v m) (GetAnnotationWithPrefix j) = (if j = k then Some v else map_of m (GetAnnotationWithPrefix j))"
  by (simp add: set_anno_def)

text \<open>The last configuration of a key wins, and hides what the rule and its extensions set.\<close>

definition config_value :: "GwRuleConfig list \<Rightarrow> string \<Rightarrow> string option" where
  "config_value cfgs k = map_of (rev (map (\<lambda>c. (rcf_Key c, rcf_Value c)) cfgs)) k"

lemma map_of_configs:
  "map_of (fold config_step cfgs m) (GetAnnotationWithPrefix k) =
     (case config_value cfgs k of Some v \<Rightarrow> Some v | None \<Rightarrow> map_of m (GetAnnotationWithPrefix k))"
proof (induction cfgs arbitrary: m)
  case (Cons c cfgs)
  then show ?case by (auto simp: config_value_def config_step_def map_add_def split: option.splits)
qed (simp add: config_value_def)

lemma config_value_None: "k \<notin> rcf_Key ` set cfgs \<Longrightarrow> config_value cfgs k = None"
  by (auto simp: config_value_def map_of_eq_None_iff)

definition ext_keys :: "string set" where
  "ext_keys = {''force-ssl-redirect'', ''upstream-hash-by'', ''lb-type''}"

lemma extension_step_other:
  "k \<notin> ext_keys \<Longrightarrow> map_of (extension_step rule ext m) (GetAnnotationWithPrefix k) = map_of m (GetAnnotationWithPrefix k)"
  by (auto simp: extension_step_def ext_keys_def split: list.splits)

lemma map_of_extensions_other:
  "k \<notin> ext_keys \<Longrightarrow> map_of (fold (extension_step rule) exts m) (GetAnnotationWithPrefix k) = map_of m (GetAnnotationWithPrefix k)"
  by (induction exts arbitrary: m) (simp_all add: extension_step_other)

lemma extension_step_redirect:
  "map_of (extension_step rule e m) (GetAnnotationWithPrefix ''force-ssl-redirect'') =
     (if hr_CertificateID rule \<noteq> [] \<and> rx_Key e = HTTPToHTTPS then Some ''true''
      else map_of m (GetAnnotationWithPrefix ''force-ssl-redirect''))"
  by (auto simp: extension_step_def LBType_def HTTPToHTTPS_def split: list.splits)

lemma map_of_extensions_redirect:
  "map_of (fold (extension_step rule) exts m) (GetAnnotationWithPrefix ''force-ssl-redirect'') =
     (if hr_CertificateID rule \<noteq> [] \<and> HTTPToHTTPS \<in> rx_Key ` set exts then Some ''true''
      else map_of m (GetAnnotationWithPrefix ''force-ssl-redirect''))"
  by (induction exts arbitrary: m) (auto simp: extension_step_redirect)

lemma map_of_rule_annos:
  "map_of (rule_annos rule) (GetAnnotationWithPrefix k) =
     (if k = ''cookie'' \<and> hr_Cookie rule \<noteq> [] then Some (hr_Cookie rule)
      else if k = ''header'' \<and> hr_Header rule \<noteq> [] then Some (hr_Header rule)
      else if k = ''weight'' \<and> hr_Weight rule > 1 then Some (Itoa (hr_Weight rule)) else None)"
  by (simp add: rule_annos_def Let_def)

lemma applyHTTPRule_Some:
  assumes "applyHTTPRule ex a rule cp pcp svc = Some (Inr (ing, sec))"
  obtains domain exts cfgs where "rule_domain ex a rule cp = Some domain" "rule_certificate a rule = Inr sec"
    "GetRuleExtensionByRuleID (ab_dbmanager a) (hr_UUID rule) = Inr exts" "ListByRuleID (ab_dbmanager a) (hr_UUID rule) = Inr cfgs"
    "ing = http_ingress a rule domain pcp svc sec (fold config_step cfgs (fold (extension_step rule) exts (rule_annos rule)))"
  using assms by (auto simp: applyHTTPRule_def Let_def split: option.splits sum.splits)

lemma http_ingress_simps [simp]:
  "ko_Annotations (http_ingress a rule d p svc sec m) = m"
  "io_Backend (http_ingress a rule d p svc sec m) = None"
  "ko_Name (http_ingress a rule d p svc sec m) = hr_UUID rule"
  "ko_Namespace (http_ingress a rule d p svc sec m) = tn_UUID (ab_tenant a)"
  "io_TLS (http_ingress a rule d p svc sec m) = (case sec of None \<Rightarrow> [] | Some s \<Rightarrow> [\<lparr>it_Hosts = [d], it_SecretName = ko_Name s\<rparr>])"
  "io_Rules (http_ingress a rule d p svc sec m) = [\<lparr>ir_Host = d, ir_HTTP = Some [\<lparr>hp_Path = rule_path rule,
     hp_Backend = \<lparr>ib_ServiceName = ko_Name svc, ib_ServicePort = to_int32 p\<rparr>\<rparr>]\<rparr>]"
  by (simp_all add: http_ingress_def)

section \<open>What the gateway reads\<close>

definition rule_weight :: "HTTPRule \<Rightarrow> int" where
  "rule_weight rule = (if hr_Weight rule > 1 then hr_Weight rule else 1)"

text \<open>The annotations with a meaning of their own, which the configurations of a rule must not set.\<close>

definition reserved_keys :: "string set" where
  "reserved_keys = {''weight'', ''header'', ''cookie'', ''force-ssl-redirect'', ''l4-enable''}"

lemma transform_empty [simp]: "header_transform [] = None" "cookie_transform [] = None"
  by (simp_all add: header_transform_def cookie_transform_def Let_def)

lemma Itoa_nonempty [simp]: "Itoa i \<noteq> []"
  by (simp add: Itoa_def)

lemma rule_ann:
  assumes "reserved_keys \<inter> rcf_Key ` set cfgs = {}" "k \<in> reserved_keys"
  shows "ann (to_ingress (http_ingress a rule d p svc sec (fold config_step cfgs (fold (extension_step rule) exts (rule_annos rule))))) k =
    (if k = ''force-ssl-redirect''
     then if hr_CertificateID rule \<noteq> [] \<and> HTTPToHTTPS \<in> rx_Key ` set exts then Some ''true'' else None
     else map_of (rule_annos rule) (GetAnnotationWithPrefix k))"
proof -
  have c: "config_value cfgs k = None" using assms by (intro config_value_None) auto
  show ?thesis
  proof (cases "k = ''force-ssl-redirect''")
    case True
    have "map_of (rule_annos rule) (GetAnnotationWithPrefix ''force-ssl-redirect'') = None" by (simp add: map_of_rule_annos)
    with True c show ?thesis by (simp add: ann_to_ingress map_of_configs map_of_extensions_redirect)
  next
    case False
    then have "k \<notin> ext_keys" using assms(2) by (auto simp: reserved_keys_def ext_keys_def)
    with False c show ?thesis by (simp add: ann_to_ingress map_of_configs map_of_extensions_other)
  qed
qed

lemma http_rule_extract:
  assumes "merge_ok merge" "is_range prng" "reserved_keys \<inter> rcf_Key ` set cfgs = {}" "hr_Weight rule < 2 ^ 63"
    and i: "i = to_ingress (http_ingress a rule d p svc sec (fold config_step cfgs (fold (extension_step rule) exts (rule_annos rule))))"
    and X: "X = Extract merge prng rng def i"
  shows "an_Weight X = \<lparr>wc_Weight = rule_weight rule\<rparr>" "an_Header X = \<lparr>hc_Header = header_transform (hr_Header rule)\<rparr>"
    "an_Cookie X = \<lparr>cc_Cookie = cookie_transform (hr_Cookie rule)\<rparr>"
    "rc_ForceSSLRedirect (an_Rewrite X) =
       (if hr_CertificateID rule \<noteq> [] \<and> HTTPToHTTPS \<in> rx_Key ` set exts then True else be_ForceSSLRedirect def)"
    "\<not> is_l4 X"
proof -
  note ra = rule_ann [OF assms(3)]
  have keys: "''weight'' \<in> reserved_keys" "''header'' \<in> reserved_keys" "''cookie'' \<in> reserved_keys"
    "''force-ssl-redirect'' \<in> reserved_keys" "''l4-enable'' \<in> reserved_keys" by (simp_all add: reserved_keys_def)
  have w: "ann i ''weight'' = (if hr_Weight rule > 1 then Some (Itoa (hr_Weight rule)) else None)"
    and h: "ann i ''header'' = (if hr_Header rule \<noteq> [] then Some (hr_Header rule) else None)"
    and c: "ann i ''cookie'' = (if hr_Cookie rule \<noteq> [] then Some (hr_Cookie rule) else None)"
    and f: "ann i ''force-ssl-redirect'' = (if hr_CertificateID rule \<noteq> [] \<and> HTTPToHTTPS \<in> rx_Key ` set exts then Some ''true'' else None)"
    and l: "ann i ''l4-enable'' = None"
    unfolding i using ra keys by (simp_all add: map_of_rule_annos)
  have at: "Atoi (Itoa (hr_Weight rule)) = Some (hr_Weight rule)" if "hr_Weight rule > 1"
    using that assms(4) by (intro Atoi_Itoa) auto
  note X' = X [unfolded Extract_spec [OF assms(1,2)]]
  show "an_Weight X = \<lparr>wc_Weight = rule_weight rule\<rparr>"
    using at by (auto simp: X' weight_Parse_def get_ann w value_or_def rule_weight_def)
  show "an_Header X = \<lparr>hc_Header = header_transform (hr_Header rule)\<rparr>"
    by (auto simp: X' header_Parse_def get_ann h value_or_def)
  show "an_Cookie X = \<lparr>cc_Cookie = cookie_transform (hr_Cookie rule)\<rparr>"
    by (auto simp: X' cookie_Parse_def get_ann c value_or_def)
  show "rc_ForceSSLRedirect (an_Rewrite X) =
       (if hr_CertificateID rule \<noteq> [] \<and> HTTPToHTTPS \<in> rx_Key ` set exts then True else be_ForceSSLRedirect def)"
    by (simp add: X' rewrite_Parse_def get_ann f value_or_def ParseBool_def)
  show "\<not> is_l4 X"
    by (simp add: X' is_l4_def l4_Parse_def get_ann l value_or_def Let_def)
qed

section \<open>The HTTP rules of a component are served\<close>

text \<open>The name of the server of a rule: the domain, and a prefix when the gateway has the certificate.\<close>

definition server_name :: "gw_env \<Rightarrow> AppServiceBuild \<Rightarrow> HTTPRule \<Rightarrow> string \<Rightarrow> string" where
  "server_name env a rule domain =
     (let host = Replace domain '' '' [] (-1);
          host = (if host = [] then ''_'' else host)
      in if hr_CertificateID rule \<noteq> [] \<and> env_SSLStore env (tn_UUID (ab_tenant a) @ ''/'' @ hr_UUID rule) \<noteq> None
         then ''tls'' @ host else host)"

lemma rule_certificate_Inr:
  assumes "rule_certificate a rule = Inr sec"
  shows "sec = None \<longleftrightarrow> hr_CertificateID rule = []" "\<And>s. sec = Some s \<Longrightarrow> ko_Name s = hr_UUID rule"
  using assms by (auto simp: rule_certificate_def rule_secret_def split: if_splits sum.splits option.splits)

lemma tls_hosts_nonempty: "m \<noteq> [] \<or> hs \<noteq> [] \<Longrightarrow> tls_hosts hs c m \<noteq> []"
proof (induction hs arbitrary: m)
  case (Cons h hs)
  have "map_set h c m \<noteq> []" using keys_map_set [of h c m] by auto
  then show ?case using Cons.IH by simp
qed simp

lemma server_name_l7:
  assumes "rule_certificate a rule = Inr sec"
  shows "l7_name (ing_ssl env (to_ingress (http_ingress a rule d p svc sec m))) d = server_name env a rule d"
proof (cases sec)
  case None
  then show ?thesis using rule_certificate_Inr [OF assms]
    by (simp add: to_ingress_def l7_name_def server_name_def DefVirSrvName_def Let_def)
next
  case (Some s)
  then have c: "hr_CertificateID rule \<noteq> []" "ko_Name s = hr_UUID rule" using rule_certificate_Inr [OF assms] by auto
  show ?thesis
  proof (cases "env_SSLStore env (tn_UUID (ab_tenant a) @ ''/'' @ hr_UUID rule)")
    case (Some cert)
    have "tls_hosts [d] cert [] \<noteq> []" by (rule tls_hosts_nonempty) simp
    then have "ing_ssl env (to_ingress (http_ingress a rule d p svc sec m)) \<noteq> []"
      using Some \<open>sec = Some s\<close> c(2) by (simp add: to_ingress_def Let_def)
    then show ?thesis using Some c by (simp add: l7_name_def server_name_def DefVirSrvName_def Let_def)
  next
    case None
    then show ?thesis using \<open>sec = Some s\<close> c
      by (simp add: to_ingress_def l7_name_def server_name_def DefVirSrvName_def Let_def)
  qed
qed

lemma http_rule_is_served:
  assumes rule: "applyHTTPRule ex a rule cp pcp svc = Some (Inr (ing, sec))" "rule_domain ex a rule cp = Some domain"
    and cfg: "ListByRuleID (ab_dbmanager a) (hr_UUID rule) = Inr cfgs" "reserved_keys \<inter> rcf_Key ` set cfgs = {}" "hr_Weight rule < 2 ^ 63"
    and ext: "merge_ok merge" "is_range prng"
    and env: "to_ingress ing \<in> set (env_Ingresses env)" "ingressIsValid env (to_ingress ing) = Some True"
      "env_Annotations env (env_Key env (ing_Meta (to_ingress ing))) = Some (Extract merge prng rng def (to_ingress ing))"
    and ok: "\<And>i. i \<in> set (env_Ingresses env) \<Longrightarrow> list_all rule_ok (ing_Rules i)"
    and st: "ListVirtualService env g a0 = Some st"
  shows "\<exists>bn. served st (server_name env a rule domain) (rule_path rule) bn (ko_Name svc) (rule_weight rule)"
proof -
  obtain exts where c: "rule_certificate a rule = Inr sec"
    and i: "ing = http_ingress a rule domain pcp svc sec (fold config_step cfgs (fold (extension_step rule) exts (rule_annos rule)))"
    using applyHTTPRule_Some [OF rule(1)] rule(2) cfg(1) by (metis option.inject sum.inject(2))
  let ?X = "Extract merge prng rng def (to_ingress ing)"
  have X: "an_Weight ?X = \<lparr>wc_Weight = rule_weight rule\<rparr>" "\<not> is_l4 ?X"
    using http_rule_extract(1,5) [OF ext cfg(2,3) refl refl, of rng def a domain pcp svc sec exts] by (simp_all add: i)
  have l: "listed_l7 env (to_ingress ing) ?X" using env X(2) by (simp add: listed_l7_def GetIngressAnnotations_def)
  let ?r = "\<lparr>ir_Host = domain, ir_HTTP = Some [\<lparr>hp_Path = rule_path rule,
     hp_Backend = \<lparr>ib_ServiceName = ko_Name svc, ib_ServicePort = to_int32 pcp\<rparr>\<rparr>]\<rparr>"
  have r: "?r \<in> set (ing_Rules (to_ingress ing))" by (simp add: to_ingress_def i)
  have n: "l7_name (ing_ssl env (to_ingress ing)) domain = server_name env a rule domain"
    using server_name_l7 [OF c] by (simp add: i)
  show ?thesis
    using ListVirtualService_served [OF st ok l r, of "[\<lparr>hp_Path = rule_path rule,
     hp_Backend = \<lparr>ib_ServiceName = ko_Name svc, ib_ServicePort = to_int32 pcp\<rparr>\<rparr>]"] n X(1) by auto
qed

section \<open>The stream rules of a component are listened for\<close>

lemma tcp_rule_extract:
  assumes "merge_ok merge" "is_range prng" "applyTCPRule a rule svc ns = Some ing" "0 < tr_Port rule" "tr_Port rule \<le> 65535"
    and X: "X = Extract merge prng rng def (to_ingress ing)"
  shows "an_L4 X = \<lparr>L4Enable = True, L4Host = (if tr_IP rule = [] then ''0.0.0.0'' else tr_IP rule), L4Port = tr_Port rule\<rparr>"
    "an_Weight X = \<lparr>wc_Weight = 1\<rparr>"
proof -
  have n: "ann (to_ingress ing) ''l4-enable'' = Some ''true''" "ann (to_ingress ing) ''l4-host'' = Some (tr_IP rule)"
    "ann (to_ingress ing) ''l4-port'' = Some (Itoa (tr_Port rule))" "ann (to_ingress ing) ''weight'' = None"
    using assms(3) by (auto simp: applyTCPRule_def ann_to_ingress split: list.splits)
  have at: "Atoi (Itoa (tr_Port rule)) = Some (tr_Port rule)" using assms(4,5) by (intro Atoi_Itoa) auto
  note X' = X [unfolded Extract_spec [OF assms(1,2)]]
  show "an_L4 X = \<lparr>L4Enable = True, L4Host = (if tr_IP rule = [] then ''0.0.0.0'' else tr_IP rule), L4Port = tr_Port rule\<rparr>"
    using assms(4,5) by (simp add: X' l4_Parse_def get_ann n at value_or_def ParseBool_def Let_def)
  show "an_Weight X = \<lparr>wc_Weight = 1\<rparr>" by (simp add: X' weight_Parse_def get_ann n value_or_def)
qed

lemma tcp_rule_is_listening:
  assumes rule: "applyTCPRule a rule svc ns = Some ing" "so_Ports svc = p # ps" "0 < tr_Port rule" "tr_Port rule \<le> 65535" "tr_Port rule \<notin> own_ports env"
    and ext: "merge_ok merge" "is_range prng"
    and host: "l4_host env (if tr_IP rule = [] then ''0.0.0.0'' else tr_IP rule) = Some host"
    and env: "to_ingress ing \<in> set (env_Ingresses env)" "ingressIsValid env (to_ingress ing) = Some True"
      "env_Annotations env (env_Key env (ing_Meta (to_ingress ing))) = Some (Extract merge prng rng def (to_ingress ing))"
    and st: "ListVirtualService env g a0 = Some st"
    and addr: "addr = l4_listening host (tr_Port rule) (GetServiceProtocol env (ns @ ''/'' @ ko_Name svc) (to_int32 (sp_Port p)))"
  shows "listening st addr (BackendName addr ns) (ko_Name svc) 1"
proof -
  let ?X = "Extract merge prng rng def (to_ingress ing)"
  note X = tcp_rule_extract [OF ext rule(1,3,4) refl, of rng def]
  have i: "ing_Backend (to_ingress ing) = Some \<lparr>ib_ServiceName = ko_Name svc, ib_ServicePort = to_int32 (sp_Port p)\<rparr>"
    "om_Namespace (ing_Meta (to_ingress ing)) = ns"
    using rule(1,2) by (auto simp: applyTCPRule_def to_ingress_def)
  have l4: "is_l4 ?X" using rule(3) by (simp add: is_l4_def X)
  show ?thesis
    using ListVirtualService_listening [OF st env(1,2) _ l4 _ i(1), of host addr] env(3) host rule(5) addr
    by (simp add: X i GetIngressAnnotations_def)
qed

section \<open>Ports taken over by a plugin\<close>

text \<open>What the plugin ports of a component look like: each port of the component is taken over at most
  once, by a port of its own outside the ports of the component.\<close>

definition plugin_ok :: "TenantServicesStreamPluginPort list \<Rightarrow> TenantServicesPort list \<Rightarrow> bool" where
  "plugin_ok pps ports \<longleftrightarrow> distinct (map pp_ContainerPort pps) \<and> distinct (map pp_PluginPort pps) \<and>
     pp_PluginPort ` set pps \<inter> (pp_ContainerPort ` set pps \<union> tp_ContainerPort ` set ports) = {} \<and>
     pp_PluginPort ` set pps \<union> pp_ContainerPort ` set pps \<subseteq> {1..65535}"

definition taken_over :: "TenantServicesStreamPluginPort list \<Rightarrow> TenantServicesPort \<Rightarrow> TenantServicesPort \<Rightarrow> bool" where
  "taken_over pps p p' \<longleftrightarrow>
     (if tp_ContainerPort p \<in> pp_ContainerPort ` set pps
      then \<exists>q \<in> set pps. pp_ContainerPort q = tp_ContainerPort p \<and>
        p' = p\<lparr>tp_ContainerPort := pp_PluginPort q, tp_MappingPort := pp_PluginPort q\<rparr>
      else p' = p)"

definition good_map :: "TenantServicesStreamPluginPort list \<Rightarrow> port_map \<Rightarrow> bool" where
  "good_map pps pp \<longleftrightarrow> (\<forall>k v. map_of pp k = Some v \<longrightarrow>
     (\<exists>q \<in> set pps. k = to_int32 (pp_PluginPort q) \<and> v = pp_ContainerPort q))"

lemma plugin_fold_other:
  "tp_ContainerPort port \<notin> pp_ContainerPort ` set pps \<Longrightarrow> fold plugin_port_step pps (port, pp) = (port, pp)"
  by (induction pps) (auto simp: plugin_port_step_def)

lemma plugin_fold_match:
  assumes "plugin_ok pps ports" "q \<in> set pps" "pp_ContainerPort q = tp_ContainerPort port"
  shows "fold plugin_port_step pps (port, pp) =
    (port\<lparr>tp_ContainerPort := pp_PluginPort q, tp_MappingPort := pp_PluginPort q\<rparr>,
     map_set (to_int32 (pp_PluginPort q)) (tp_ContainerPort port) pp)"
proof -
  obtain xs ys where s: "pps = xs @ q # ys" using assms(2) by (meson split_list)
  have "tp_ContainerPort port \<notin> pp_ContainerPort ` set xs" using assms(1,3) by (force simp: s plugin_ok_def)
  moreover have "pp_PluginPort q \<notin> pp_ContainerPort ` set ys" using assms(1) by (auto simp: s plugin_ok_def)
  ultimately show ?thesis
    using plugin_fold_other [of port xs pp]
      plugin_fold_other [of "port\<lparr>tp_ContainerPort := pp_PluginPort q, tp_MappingPort := pp_PluginPort q\<rparr>" ys]
    by (simp add: s plugin_port_step_def assms(3))
qed

lemma plugin_ports_spec:
  assumes "plugin_ok pps all" "good_map pps pp" "CreateUpstreamPluginMappingPort pps ports pp = (ports', pp')"
  shows "list_all2 (taken_over pps) ports ports' \<and> good_map pps pp' \<and> dom (map_of pp) \<subseteq> dom (map_of pp') \<and>
    (\<forall>p \<in> set ports. \<forall>q \<in> set pps. pp_ContainerPort q = tp_ContainerPort p \<longrightarrow> to_int32 (pp_PluginPort q) \<in> dom (map_of pp'))"
  using assms(2,3)
proof (induction ports arbitrary: pp ports')
  case (Cons port ports)
  obtain port1 pp1 where f: "fold plugin_port_step pps (port, pp) = (port1, pp1)" by fastforce
  obtain ports2 where r: "CreateUpstreamPluginMappingPort pps ports pp1 = (ports2, pp')" "ports' = port1 # ports2"
    using Cons.prems(2) f by (auto split: prod.splits)
  have s: "taken_over pps port port1 \<and> good_map pps pp1 \<and> dom (map_of pp) \<subseteq> dom (map_of pp1) \<and>
    (\<forall>q \<in> set pps. pp_ContainerPort q = tp_ContainerPort port \<longrightarrow> to_int32 (pp_PluginPort q) \<in> dom (map_of pp1))"
  proof (cases "tp_ContainerPort port \<in> pp_ContainerPort ` set pps")
    case True
    then obtain q where q: "q \<in> set pps" "pp_ContainerPort q = tp_ContainerPort port" by auto
    note m = plugin_fold_match [OF assms(1) q, of pp]
    have u: "r = q" if "r \<in> set pps" "pp_ContainerPort r = tp_ContainerPort port" for r
      using that q assms(1) unfolding plugin_ok_def by (metis distinct_map inj_on_def)
    have p1: "port1 = port\<lparr>tp_ContainerPort := pp_PluginPort q, tp_MappingPort := pp_PluginPort q\<rparr>"
      "map_of pp1 = (map_of pp)(to_int32 (pp_PluginPort q) \<mapsto> pp_ContainerPort q)"
      using m f q(2) by simp_all
    have "good_map pps pp1" using Cons.prems(1) q(1) unfolding good_map_def p1(2) by (metis fun_upd_apply option.inject)
    moreover have "taken_over pps port port1" using True q p1(1) unfolding taken_over_def by metis
    moreover have "to_int32 (pp_PluginPort r) \<in> dom (map_of pp1)" if "r \<in> set pps" "pp_ContainerPort r = tp_ContainerPort port" for r
      using u [OF that] by (simp add: p1(2))
    moreover have "dom (map_of pp) \<subseteq> dom (map_of pp1)" by (auto simp: p1(2))
    ultimately show ?thesis by blast
  next
    case False
    then have "port1 = port" "pp1 = pp" using plugin_fold_other [OF False, of pp] f by simp_all
    with False Cons.prems(1) show ?thesis by (simp add: taken_over_def image_iff) metis
  qed
  then have "good_map pps pp1" by blast
  from Cons.IH [OF this r(1)] s show ?case unfolding r(2) by (simp add: subset_iff)
qed auto

text \<open>The rules of a port are looked up by the port the component itself listens on, whether or not a
  plugin took it over.\<close>

lemma plugin_rel_port:
  assumes ok: "plugin_ok pps ports" and m: "CreateUpstreamPluginMappingPort pps ports [] = (ports', pp)" "i < length ports"
    and range: "tp_ContainerPort (ports ! i) \<in> {1..65535}"
  shows "(let rel = pp_get pp (to_int32 (tp_ContainerPort (ports' ! i))) in
      if rel = 0 then tp_ContainerPort (ports' ! i) else rel) = tp_ContainerPort (ports ! i)"
proof -
  have g0: "good_map pps []" by (simp add: good_map_def)
  note sp = plugin_ports_spec [OF ok g0 m(1)]
  let ?p = "ports ! i" and ?p' = "ports' ! i"
  have t: "taken_over pps ?p ?p'" using sp m(2) by (simp add: list_all2_conv_all_nth)
  have id: "to_int32 (pp_PluginPort q) = pp_PluginPort q" if q: "q \<in> set pps" for q
  proof -
    have "pp_PluginPort q \<in> {1..65535}" using ok q unfolding plugin_ok_def by blast
    then show ?thesis by (intro to_int32_id) auto
  qed
  show ?thesis
  proof (cases "tp_ContainerPort ?p \<in> pp_ContainerPort ` set pps")
    case True
    then obtain q where q: "q \<in> set pps" "pp_ContainerPort q = tp_ContainerPort ?p" "tp_ContainerPort ?p' = pp_PluginPort q"
      using t unfolding taken_over_def by force
    have "?p \<in> set ports" using m(2) by simp
    then have "to_int32 (pp_PluginPort q) \<in> dom (map_of pp)" using sp q(1,2) by blast
    then obtain v where v: "map_of pp (pp_PluginPort q) = Some v" using id [OF q(1)] by auto
    then obtain r where r: "r \<in> set pps" "pp_PluginPort q = to_int32 (pp_PluginPort r)" "v = pp_ContainerPort r"
      using sp unfolding good_map_def by blast
    have "r = q" using id [OF r(1)] r(1,2) q(1) ok unfolding plugin_ok_def by (metis distinct_map inj_on_def)
    then have "pp_get pp (to_int32 (tp_ContainerPort ?p')) = tp_ContainerPort ?p"
      using v r(3) q(2,3) id [OF q(1)] by (simp add: pp_get_def)
    then show ?thesis using range by simp
  next
    case False
    then have p: "?p' = ?p" using t by (simp add: taken_over_def)
    have "to_int32 (tp_ContainerPort ?p) = tp_ContainerPort ?p" using range by (intro to_int32_id) auto
    moreover have "map_of pp (tp_ContainerPort ?p) = None"
    proof (rule ccontr)
      assume "map_of pp (tp_ContainerPort ?p) \<noteq> None"
      then obtain q where q: "q \<in> set pps" "tp_ContainerPort ?p = to_int32 (pp_PluginPort q)"
        using sp unfolding good_map_def by blast
      then have "tp_ContainerPort ?p \<in> pp_PluginPort ` set pps" using id by auto
      moreover have "tp_ContainerPort ?p \<in> tp_ContainerPort ` set ports" using m(2) by simp
      ultimately show False using ok unfolding plugin_ok_def by blast
    qed
    ultimately show ?thesis by (simp add: p pp_get_def)
  qed
qed

section \<open>When building panics\<close>

lemma rule_domain_total: "\<not> prefix '':'' ex \<Longrightarrow> \<exists>d. rule_domain ex a rule cp = Some d"
proof -
  assume ex: "\<not> prefix '':'' ex"
  have "hd (Split (CHR '':'') ex) \<noteq> []" if "ex \<noteq> []" "CHR '':'' \<in> set ex"
    using ex that by (cases ex) (auto split: list.splits)
  then show ?thesis by (auto simp: rule_domain_def createDefaultDomain_def Let_def)
qed

lemma applyHTTPRule_total: "\<not> prefix '':'' ex \<Longrightarrow> \<exists>r. applyHTTPRule ex a rule cp pcp svc = Some r"
  using rule_domain_total [of ex a rule cp] by (auto simp: applyHTTPRule_def)

lemma http_rules_total: "\<not> prefix '':'' ex \<Longrightarrow> \<exists>r. http_rules ex a cp pcp svc rules = Some r"
proof (induction rules)
  case (Cons rule rules)
  obtain r where "applyHTTPRule ex a rule cp pcp svc = Some r" using applyHTTPRule_total [OF Cons.prems] by blast
  with Cons show ?case by (cases r) auto
qed simp

lemma tcp_rules_total: "so_Ports svc \<noteq> [] \<Longrightarrow> \<exists>r. tcp_rules a svc rules = Some r"
  by (induction rules) (auto simp: applyTCPRule_def split: list.splits)

lemma createOuterService_ports: "so_Ports (createOuterService a port) \<noteq> []"
  by (simp add: createOuterService_def Let_def)

lemma ApplyRules_total: "\<not> prefix '':'' ex \<Longrightarrow> \<exists>r. ApplyRules ex a sid cp pcp (createOuterService a port) = Some r"
proof -
  let ?svc = "createOuterService a port"
  assume ex: "\<not> prefix '':'' ex"
  obtain ings secs where "http_rules ex a cp pcp ?svc (value_or [] (GetHTTPRuleByServiceIDAndContainerPort (ab_dbmanager a) sid cp)) = Some (ings, secs)"
    using http_rules_total [OF ex] by (metis surj_pair)
  moreover obtain t where "tcp_rules a ?svc (value_or [] (GetTCPRuleByServiceIDAndContainerPort (ab_dbmanager a) sid cp)) = Some t"
    using tcp_rules_total [OF createOuterService_ports] by blast
  ultimately show ?thesis by (simp add: ApplyRules_def)
qed

definition flags_set :: "TenantServicesPort \<Rightarrow> bool" where
  "flags_set p \<longleftrightarrow> tp_IsInnerService p \<noteq> None \<and> tp_IsOuterService p \<noteq> None"

lemma port_step_total:
  assumes "\<not> prefix '':'' ex" "flags_set port" "\<And>s. s \<in> set (kr_Services r) \<Longrightarrow> so_Ports s \<noteq> []"
  shows "\<exists>r'. port_step ex a pp port r = Some r' \<and> (\<forall>s \<in> set (kr_Services r'). so_Ports s \<noteq> [])"
proof -
  obtain inner where inner: "tp_IsInnerService port = Some inner" using assms(2) by (auto simp: flags_set_def)
  define r1 where "r1 = (if \<not> inner then r
      else r\<lparr>kr_Services := kr_Services r @ [if as_GovernanceMode (ab_appService a) = ''KUBERNETES_NATIVE_SERVICE''
                 then createKubernetesNativeService a port else createInnerService a port]\<rparr>)"
  have i: "so_Ports (createInnerService a port) \<noteq> []" "so_Ports (createKubernetesNativeService a port) \<noteq> []"
    by (simp_all add: createKubernetesNativeService_def createInnerService_def Let_def)
  have s1: "so_Ports s \<noteq> []" if "s \<in> set (kr_Services r1)" for s
    using that assms(3) i by (auto simp: r1_def split: if_splits)
  obtain b where b: "tp_IsOuterService port = Some b" using assms(2) by (auto simp: flags_set_def)
  have p: "port_step ex a pp port r =
      (case tp_IsOuterService port of None \<Rightarrow> None | Some False \<Rightarrow> Some r1
       | Some True \<Rightarrow> (let service = createOuterService a port; rel = pp_get pp (to_int32 (tp_ContainerPort port));
             relContainerPort = (if rel = 0 then tp_ContainerPort port else rel)
         in case ApplyRules ex a (tp_ServiceID port) relContainerPort (tp_ContainerPort port) service of
              None \<Rightarrow> None
            | Some (ings, secrs) \<Rightarrow> Some (r1\<lparr>kr_Services := kr_Services r1 @ [service], kr_Ingresses := kr_Ingresses r1 @ ings,
                                   kr_Secrets := kr_Secrets r1 @ secrs\<rparr>)))"
    by (simp add: port_step_def inner Let_def r1_def [symmetric] cong: option.case_cong bool.case_cong)
  show ?thesis
  proof (cases b)
    case True
    obtain ings secrs where "ApplyRules ex a (tp_ServiceID port)
        (if pp_get pp (to_int32 (tp_ContainerPort port)) = 0 then tp_ContainerPort port else pp_get pp (to_int32 (tp_ContainerPort port)))
        (tp_ContainerPort port) (createOuterService a port) = Some (ings, secrs)"
      using ApplyRules_total [OF assms(1)] by (metis surj_pair)
    with True b s1 createOuterService_ports show ?thesis by (auto simp: p Let_def)
  qed (use b s1 in \<open>auto simp: p\<close>)
qed

lemma ports_loop_total:
  assumes "\<not> prefix '':'' ex" "list_all flags_set ports" "\<And>s. s \<in> set (kr_Services r) \<Longrightarrow> so_Ports s \<noteq> []"
  shows "\<exists>r'. ports_loop ex a pp ports r = Some r' \<and> (\<forall>s \<in> set (kr_Services r'). so_Ports s \<noteq> [])"
  using assms(2,3)
proof (induction ports arbitrary: r)
  case (Cons port ports)
  then obtain r1 where r1: "port_step ex a pp port r = Some r1" "\<forall>s \<in> set (kr_Services r1). so_Ports s \<noteq> []"
    using port_step_total [OF assms(1), of port r a pp] by auto
  with Cons.IH [of r1] Cons.prems(1) show ?case by simp
qed simp

lemma mapping_service_total:
  "(\<And>s. s \<in> set services \<Longrightarrow> so_Ports s \<noteq> []) \<Longrightarrow> \<exists>r. CreateUpstreamPluginMappingService pp services = Some r"
proof (induction services)
  case (Cons s services)
  obtain p ps where "so_Ports s = p # ps" using Cons.prems [of s] by (cases "so_Ports s") auto
  with Cons show ?case by auto
qed simp

lemma plugin_port_step_flags: "flags_set (fst (plugin_port_step q s)) = flags_set (fst s)"
  by (auto simp: plugin_port_step_def flags_set_def split: prod.splits)

lemma plugin_fold_flags: "flags_set (fst (fold plugin_port_step pps s)) = flags_set (fst s)"
  by (induction pps arbitrary: s) (simp_all add: plugin_port_step_flags)

lemma plugin_ports_flags:
  "CreateUpstreamPluginMappingPort pps ports pp = (ports', pp') \<Longrightarrow>
     length ports' = length ports \<and> (list_all flags_set ports \<longrightarrow> list_all flags_set ports')"
proof (induction ports arbitrary: pp ports')
  case (Cons port ports)
  obtain port1 pp1 where f: "fold plugin_port_step pps (port, pp) = (port1, pp1)" by fastforce
  obtain ports2 where r: "CreateUpstreamPluginMappingPort pps ports pp1 = (ports2, pp')" "ports' = port1 # ports2"
    using Cons.prems f by (auto split: prod.splits)
  show ?case using Cons.IH [OF r(1)] r(2) plugin_fold_flags [of pps "(port, pp)"] f by simp
qed simp

lemma Build_no_panic:
  assumes ex: "\<not> prefix '':'' ex"
    and ports: "\<And>ports. GetPortsByServiceID (ab_dbmanager a) (ab_serviceID a) = Inr ports \<Longrightarrow>
      list_all flags_set ports \<and>
      (checkUpstreamPluginRelation (ab_serviceID a) (ab_dbmanager a) = Inr True \<longrightarrow>
         ports \<noteq> [] \<or> ab_replicationType a \<noteq> TypeStatefulSet)"
  shows "\<exists>r. Build ex a = Some r"
proof (cases "GetPortsByServiceID (ab_dbmanager a) (ab_serviceID a)")
  case gp: (Inr ports)
  note ok = ports [OF gp]
  show ?thesis
  proof (cases "checkUpstreamPluginRelation (ab_serviceID a) (ab_dbmanager a)")
    case crt: (Inr crt)
    show ?thesis
    proof (cases "if crt then GetPluginMappingPorts (ab_dbmanager a) (ab_serviceID a) else Inr []")
      case pl: (Inr pps)
      obtain ports' pp where m: "CreateUpstreamPluginMappingPort pps ports [] = (ports', pp)" by fastforce
      note fl = plugin_ports_flags [OF m]
      obtain r where r: "ports_loop ex a pp ports' \<lparr>kr_Services = [], kr_Secrets = [], kr_Ingresses = []\<rparr> = Some r"
        "\<forall>s \<in> set (kr_Services r). so_Ports s \<noteq> []"
        using ports_loop_total [OF ex, of ports' "\<lparr>kr_Services = [], kr_Secrets = [], kr_Ingresses = []\<rparr>" a pp] fl ok by auto
      define r2 where "r2 = (if ab_replicationType a = TypeStatefulSet
          then r\<lparr>kr_Services := kr_Services r @ [createStatefulService a ports']\<rparr> else r)"
      have "\<exists>x. CreateUpstreamPluginMappingService pp (kr_Services r2) = Some x" if crt
        by (rule mapping_service_total) (use r(2) ok that crt fl in \<open>auto simp: r2_def createStatefulService_def split: if_splits\<close>)
      then show ?thesis
        using gp crt pl m r(1) r2_def by (auto simp: Build_def Let_def simp del: split_paired_Ex)
    qed (use gp crt in \<open>simp add: Build_def\<close>)
  qed (use gp in \<open>simp add: Build_def\<close>)
qed (simp add: Build_def)

section \<open>What is registered\<close>

lemma find_last:
  assumes "distinct (map ko_Name ds)" "d \<in> set ds"
  shows "filter (\<lambda>x. ko_Name x = ko_Name d) ds = [d]"
  using assms
proof (induction ds)
  case (Cons x ds)
  show ?case
  proof (cases "d = x")
    case True
    have "ko_Name y \<noteq> ko_Name x" if "y \<in> set ds" for y using Cons.prems(1) that by (metis distinct.simps(2) image_eqI list.set_map list.simps(9))
    then show ?thesis using True by (simp add: filter_empty_conv)
  next
    case False
    then have "d \<in> set ds" using Cons.prems(2) by simp
    moreover from this have "ko_Name x \<noteq> ko_Name d" using Cons.prems(1) by (metis distinct.simps(2) image_eqI list.set_map list.simps(9))
    ultimately show ?thesis using Cons by simp
  qed
qed simp

lemma fold_SetIngress_find:
  assumes "distinct (map ko_Name ds)" "d \<in> set ds"
  shows "find_named (ko_Name d) (as_ingresses (fold SetIngress ds a)) = Some d"
  using ingresses.lookup_adds [where ds = ds and a = a and n = "ko_Name d"] find_last [OF assms] by simp

lemma fold_SetService_find:
  assumes "distinct (map ko_Name ds)" "d \<in> set ds"
  shows "find_named (ko_Name d) (as_services (fold SetService ds a)) = Some d"
  using services.lookup_adds [where ds = ds and a = a and n = "ko_Name d"] find_last [OF assms] by simp

lemma fold_keeps:
  "as_ingresses (fold SetService ss a) = as_ingresses a" "as_services (fold SetIngress is a) = as_services a"
  "as_ingresses (fold SetSecret cs a) = as_ingresses a" "as_services (fold SetSecret cs a) = as_services a"
proof -
  show "as_ingresses (fold SetService ss a) = as_ingresses a"
    by (induction ss arbitrary: a) (simp_all add: SetService_def)
  show "as_services (fold SetIngress is a) = as_services a"
    by (induction "is" arbitrary: a) (simp_all add: SetIngress_def)
  have "as_ingresses (SetSecret c b) = as_ingresses b \<and> as_services (SetSecret c b) = as_services b" for c b
    by (cases c) (simp_all add: SetSecret_def)
  then show "as_ingresses (fold SetSecret cs a) = as_ingresses a" "as_services (fold SetSecret cs a) = as_services a"
    by (induction cs arbitrary: a) simp_all
qed

lemma regist_finds:
  assumes "TenantServiceRegist ex a db = Some (Inr a')"
  obtains b r where "AppServiceBuilder (as_ServiceID a) (as_ServiceType a) db a = Inr b" "Build ex b = Some (Inr r)"
    "distinct (map ko_Name (kr_Ingresses r)) \<Longrightarrow> i \<in> set (kr_Ingresses r) \<Longrightarrow> find_named (ko_Name i) (as_ingresses a') = Some i"
    "distinct (map ko_Name (kr_Services r)) \<Longrightarrow> s \<in> set (kr_Services r) \<Longrightarrow> find_named (ko_Name s) (as_services a') = Some s"
proof -
  obtain b r where b: "AppServiceBuilder (as_ServiceID a) (as_ServiceType a) db a = Inr b" "Build ex b = Some (Inr r)"
    "a' = fold SetSecret (kr_Secrets r) (fold SetIngress (kr_Ingresses r) (fold SetService (kr_Services r) a))"
    using assms by (auto simp: TenantServiceRegist_def Let_def split: sum.splits option.splits)
  show thesis
    by (rule that [OF b(1,2)]) (simp_all add: b(3) fold_keeps fold_SetIngress_find fold_SetService_find)
qed

section \<open>Resources\<close>

lemma quot_int_nonneg: "0 \<le> x \<Longrightarrow> 0 < y \<Longrightarrow> quot_int x y = x div y"
  by (cases "x = 0") (simp_all add: quot_int_def)

text \<open>The CPU request that a component of some memory gets by default.\<close>

definition default_request :: "int \<Rightarrow> int" where
  "default_request memory = 30 * max 1 (memory div 128)"

definition default_limit :: "int \<Rightarrow> int" where
  "default_limit memory =
     (if memory < 512 then 80 * max 1 (memory div 128) else if memory \<le> 1024 then 160 * (memory div 128)
      else (memory - 1024) div 1024 * 500 + 1280)"

lemma resources_exact:
  assumes "0 \<le> memory" "memory < 2 ^ 43"
  shows "createResourcesByDefaultCPU memory req lim =
    \<lparr>rq_CPULimit = (if lim > 0 then lim else default_limit memory), rq_MemoryLimit = memory * 2 ^ 20,
     rq_CPURequest = (if req > 0 then req else default_request memory), rq_MemoryRequest = memory * 2 ^ 20\<rparr>"
proof -
  define base where "base = (if memory div 128 \<le> 0 then 1 else memory div 128)"
  have b: "1 \<le> base" "base \<le> 2 ^ 36" "base = max 1 (memory div 128)" using assms(1,2) by (auto simp: base_def)
  have w: "to_int64 (base * 30) = base * 30" "to_int64 (base * 80) = base * 80" "to_int64 (base * 160) = base * 160"
    using b by (auto intro!: to_int64_id)
  have l: "quot_int (memory - 1024) 1024 = (memory - 1024) div 1024" if "1024 < memory" using that by (simp add: quot_int_nonneg)
  have w2: "to_int64 ((memory - 1024) div 1024 * 500 + 1280) = (memory - 1024) div 1024 * 500 + 1280" if "1024 < memory"
    using that assms(2) by (intro to_int64_id) auto
  have m: "to_int64 (memory * 1024 * 1024) = memory * 2 ^ 20" using assms(1,2) by (subst to_int64_id) auto
  have d: "default_request memory = base * 30"
    "default_limit memory = (if memory < 512 then base * 80 else if memory \<le> 1024 then base * 160 else (memory - 1024) div 1024 * 500 + 1280)"
    by (auto simp: default_request_def default_limit_def b(3))
  have bq: "(if quot_int memory 128 \<le> 0 then 1 else quot_int memory 128) = base" using assms(1) by (simp add: base_def quot_int_nonneg)
  show ?thesis
    unfolding d createResourcesByDefaultCPU_def m Let_def bq using w l w2 by auto
qed

lemma default_request_le: "0 \<le> memory \<Longrightarrow> 30 \<le> default_request memory \<and> default_request memory \<le> default_limit memory"
proof (cases "1024 < memory")
  case True
  then have "1 \<le> memory div 128" by simp
  with True show ?thesis by (simp add: default_request_def default_limit_def)
qed (auto simp: default_request_def default_limit_def)

end
