(* ===== verification/ConvProps.thy ===== *)
theory ConvProps
  imports ConvFacts
begin

text \<open>
  The properties of the conversion of a component: resource requirements, panics of the builder, the
  ports a network plugin takes over, and what is registered with the component.
\<close>

section \<open>An example component\<close>

definition wk_port :: TenantServicesPort where
  "wk_port = \<lparr>tp_ID = 1, tp_ServiceID = ''sid'', tp_ContainerPort = 80, tp_MappingPort = 0, tp_Protocol = ''http'',
     tp_IsInnerService = Some False, tp_IsOuterService = Some True, tp_K8sServiceName = []\<rparr>"

definition wk_rule :: HTTPRule where
  "wk_rule = \<lparr>hr_UUID = ''r1'', hr_Domain = ''a.com'', hr_Path = [], hr_Header = ''a=1'', hr_Cookie = [], hr_Weight = 3,
     hr_CertificateID = []\<rparr>"

definition wk_tcp :: TCPRule where
  "wk_tcp = \<lparr>tr_UUID = ''r2'', tr_IP = [], tr_Port = 5000\<rparr>"

definition wk_row :: TenantServices where
  "wk_row = \<lparr>ts_TenantID = ''t'', ts_ServiceID = ''sid'', ts_ServiceAlias = ''gr'', ts_ServiceName = [], ts_ContainerCPU = 0,
     ts_ContainerMemory = 512, ts_UpgradeMethod = ''Rolling'', ts_ExtendMethod = ''state_singleton'', ts_Replicas = 1,
     ts_DeployVersion = ''v'', ts_Kind = ''internal'', ts_AppID = ''app''\<rparr>"

definition wk_db :: "TenantServicesPort list \<Rightarrow> bool \<Rightarrow> dbmanager" where
  "wk_db ports plugin =
     \<lparr>GetServiceByID = (\<lambda>_. Inr (Some wk_row)), GetTenantByUUID = (\<lambda>_. Inr (Some \<lparr>tn_Name = ''tn'', tn_UUID = ''t''\<rparr>)),
      GetPortsByServiceID = (\<lambda>_. Inr ports), GetPort = (\<lambda>_ _. Inr None),
      CheckSomeModelPluginByServiceID = (\<lambda>_ _. Inr plugin),
      GetPluginMappingPorts = (\<lambda>_. Inr [\<lparr>pp_ContainerPort = 80, pp_PluginPort = 65301\<rparr>]),
      GetHTTPRuleByServiceIDAndContainerPort = (\<lambda>_ p. Inr (if p = 80 then [wk_rule] else [])),
      GetTCPRuleByServiceIDAndContainerPort = (\<lambda>_ p. Inr (if p = 80 then [wk_tcp] else [])),
      GetCertificateByID = (\<lambda>_. Inr None), GetRuleExtensionByRuleID = (\<lambda>_. Inr []),
      ListByRuleID = (\<lambda>_. Inr [\<lparr>rcf_Key = ''proxy-read-timeout'', rcf_Value = ''75''\<rparr>]),
      GetAppGovernanceMode = (\<lambda>_. Inl ErrApplicationNotFound), GetLabelByNodeSelectorKey = (\<lambda>_ _. False),
      ListEnableOnesByServiceID = (\<lambda>_. Inr []), ListMetricsByRuleID = (\<lambda>_. Inr []), ListConfigGroups = (\<lambda>_. Inr []),
      GetConfigGroupItemsByID = (\<lambda>_ _. Inr []), GetServiceSource = (\<lambda>_. Inr [])\<rparr>"

definition wk_app :: AppService where
  "wk_app = zero_AppService\<lparr>as_ServiceID := ''sid'', as_TenantID := ''t'', as_ServiceType := TypeStatefulSet\<rparr>"

definition wk_build :: "TenantServicesPort list \<Rightarrow> bool \<Rightarrow> AppServiceBuild" where
  "wk_build ports plugin =
     \<lparr>ab_serviceID = ''sid'', ab_eventID = [], ab_tenant = \<lparr>tn_Name = ''tn'', tn_UUID = ''t''\<rparr>, ab_service = wk_row,
      ab_appService = wk_app, ab_replicationType = TypeStatefulSet, ab_dbmanager = wk_db ports plugin\<rparr>"

lemmas wk_defs = wk_port_def wk_rule_def wk_tcp_def wk_row_def wk_db_def wk_app_def wk_build_def

section \<open>Resources\<close>

text \<open>
  The resource requirements of a component of less than 2 to the 43 megabytes are exact: the memory
  is requested and limited in bytes without overflow, the CPU request is 30 thousandths per 128
  megabytes, and without explicit settings the request never exceeds the limit.
\<close>

theorem default_resources:
  assumes "0 \<le> as_ContainerMemory a" "as_ContainerMemory a < 2 ^ 43" "as_ExtensionSet a = []"
  shows "rq_MemoryRequest (createResources a) = as_ContainerMemory a * 2 ^ 20 \<and>
    rq_MemoryLimit (createResources a) = as_ContainerMemory a * 2 ^ 20 \<and>
    rq_CPURequest (createResources a) = 30 * max 1 (as_ContainerMemory a div 128) \<and>
    rq_CPURequest (createResources a) \<le> rq_CPULimit (createResources a)"
  using resources_exact [OF assms(1,2), of 0 0] default_request_le [OF assms(1)] assms(3)
  by (simp add: createResources_def ext_int_def Let_def default_request_def)

theorem default_resources_witness:
  "rq_CPURequest (createResources (zero_AppService\<lparr>as_ContainerMemory := 512\<rparr>)) = 120 \<and>
   120 \<le> rq_CPULimit (createResources (zero_AppService\<lparr>as_ContainerMemory := 512\<rparr>))"
  using default_resources [of "zero_AppService\<lparr>as_ContainerMemory := 512\<rparr>"] by (simp add: zero_AppService_def)

text \<open>
  An explicit CPU limit does not lower the default request: with \<open>cpulimit\<close> alone, the request
  exceeds the limit exactly when the limit is below the default request, and Kubernetes refuses a
  container with such requirements.
\<close>

theorem cpu_limit_below_request:
  assumes "0 \<le> as_ContainerMemory a" "as_ContainerMemory a < 2 ^ 43" "0 < limit" "limit < 2 ^ 63"
    and "as_ExtensionSet a = [(''cpulimit'', Itoa limit)]"
  shows "rq_CPULimit (createResources a) = limit \<and>
    (rq_CPULimit (createResources a) < rq_CPURequest (createResources a) \<longleftrightarrow>
       limit < 30 * max 1 (as_ContainerMemory a div 128))"
proof -
  have "Atoi_value (Itoa limit) = limit" using Atoi_Itoa [of limit] assms(3,4) by (simp add: Atoi_value_def)
  then show ?thesis
    using resources_exact [OF assms(1,2), of 0 limit] assms(3,5)
    by (simp add: createResources_def ext_int_def Let_def default_request_def)
qed

theorem cpu_limit_below_request_witness:
  "rq_CPULimit (createResources (zero_AppService\<lparr>as_ContainerMemory := 512, as_ExtensionSet := [(''cpulimit'', Itoa 50)]\<rparr>)) <
   rq_CPURequest (createResources (zero_AppService\<lparr>as_ContainerMemory := 512, as_ExtensionSet := [(''cpulimit'', Itoa 50)]\<rparr>))"
  using cpu_limit_below_request [of "zero_AppService\<lparr>as_ContainerMemory := 512, as_ExtensionSet := [(''cpulimit'', Itoa 50)]\<rparr>" 50] by simp

section \<open>Building the services of a component\<close>

text \<open>
  Building the services, ingresses and secrets of a component never panics when every port says
  whether it is open inside and outside, \<open>EX_DOMAIN\<close> does not begin with a colon, and a stateful
  component with a network plugin has a port.
\<close>

theorem build_never_panics:
  assumes "\<not> prefix '':'' exDomain"
    and "\<And>ports. GetPortsByServiceID (ab_dbmanager a) (ab_serviceID a) = Inr ports \<Longrightarrow>
      list_all (\<lambda>p. tp_IsInnerService p \<noteq> None \<and> tp_IsOuterService p \<noteq> None) ports \<and>
      (checkUpstreamPluginRelation (ab_serviceID a) (ab_dbmanager a) = Inr True \<longrightarrow>
         ports \<noteq> [] \<or> ab_replicationType a \<noteq> TypeStatefulSet)"
  shows "\<exists>r. Build exDomain a = Some r"
  by (rule Build_no_panic [OF assms(1)]) (use assms(2) in \<open>simp add: flags_set_def [abs_def]\<close>)

theorem build_never_panics_witness:
  "\<exists>r. Build ''example.com:80'' (wk_build [wk_port] True) = Some r"
  by (rule build_never_panics) (auto simp: wk_defs)

text \<open>
  A stateful component without ports that has a network plugin for incoming traffic makes the
  builder panic: the headless service has no ports, and its first port is read.
\<close>

theorem stateful_without_ports_panics:
  assumes "GetPortsByServiceID (ab_dbmanager a) (ab_serviceID a) = Inr []" "ab_replicationType a = TypeStatefulSet"
    and "checkUpstreamPluginRelation (ab_serviceID a) (ab_dbmanager a) = Inr True"
    and "GetPluginMappingPorts (ab_dbmanager a) (ab_serviceID a) = Inr pluginPorts"
  shows "Build exDomain a = None"
  using assms by (simp add: Build_def createStatefulService_def)

theorem stateful_without_ports_panics_witness:
  "Build [] (wk_build [] True) = None"
  by (rule stateful_without_ports_panics) (simp_all add: wk_defs checkUpstreamPluginRelation_def)

text \<open>
  When a network plugin takes over ports of a component, the gateway rules of every port are still
  looked up by the port the component itself listens on, while the services use the plugin's port.
\<close>

theorem rules_of_taken_over_ports:
  assumes "distinct (map pp_ContainerPort pps)" "distinct (map pp_PluginPort pps)"
    and "pp_PluginPort ` set pps \<inter> (pp_ContainerPort ` set pps \<union> tp_ContainerPort ` set ports) = {}"
    and "pp_PluginPort ` set pps \<union> pp_ContainerPort ` set pps \<subseteq> {1..65535}"
    and "CreateUpstreamPluginMappingPort pps ports [] = (ports', pp)" "i < length ports" "tp_ContainerPort (ports ! i) \<in> {1..65535}"
  shows "(let rel = pp_get pp (to_int32 (tp_ContainerPort (ports' ! i))) in
      if rel = 0 then tp_ContainerPort (ports' ! i) else rel) = tp_ContainerPort (ports ! i)"
  by (rule plugin_rel_port [OF _ assms(5-7)]) (use assms(1-4) in \<open>simp add: plugin_ok_def\<close>)

theorem rules_of_taken_over_ports_witness:
  "CreateUpstreamPluginMappingPort [\<lparr>pp_ContainerPort = 80, pp_PluginPort = 65301\<rparr>] [wk_port] [] =
     ([wk_port\<lparr>tp_ContainerPort := 65301, tp_MappingPort := 65301\<rparr>], [(65301, 80)]) \<and>
   (let rel = pp_get [(65301, 80)] (to_int32 65301) in if rel = 0 then 65301 else rel) = 80"
proof -
  have c: "CreateUpstreamPluginMappingPort [\<lparr>pp_ContainerPort = 80, pp_PluginPort = 65301\<rparr>] [wk_port] [] =
     ([wk_port\<lparr>tp_ContainerPort := 65301, tp_MappingPort := 65301\<rparr>], [(65301, 80)])"
    by (simp add: wk_port_def plugin_port_step_def to_int32_def)
  have "(let rel = pp_get [(65301, 80)] (to_int32 (tp_ContainerPort ([wk_port\<lparr>tp_ContainerPort := 65301, tp_MappingPort := 65301\<rparr>] ! 0))) in
      if rel = 0 then tp_ContainerPort ([wk_port\<lparr>tp_ContainerPort := 65301, tp_MappingPort := 65301\<rparr>] ! 0) else rel) = tp_ContainerPort ([wk_port] ! 0)"
    by (rule rules_of_taken_over_ports [OF _ _ _ _ c]) (simp_all add: wk_port_def)
  then have "(let rel = pp_get [(65301, 80)] (to_int32 65301) in if rel = 0 then 65301 else rel) = 80"
    by (simp only: nth_Cons_0 TenantServicesPort.simps wk_port_def)
  with c show ?thesis by simp
qed

text \<open>
  What is built is what the component registers: with ingresses and services of different names,
  each of them is found under its name in the record of the component.
\<close>

theorem built_objects_registered:
  assumes "TenantServiceRegist exDomain a db = Some (Inr a')"
    and "AppServiceBuilder (as_ServiceID a) (as_ServiceType a) db a = Inr b" "Build exDomain b = Some (Inr r)"
    and "distinct (map ko_Name (kr_Ingresses r))" "distinct (map ko_Name (kr_Services r))"
  shows "list_all (\<lambda>i. find_named (ko_Name i) (as_ingresses a') = Some i) (kr_Ingresses r) \<and>
    list_all (\<lambda>s. find_named (ko_Name s) (as_services a') = Some s) (kr_Services r)"
  unfolding list_all_iff
proof (intro conjI ballI)
  fix i assume i: "i \<in> set (kr_Ingresses r)"
  show "find_named (ko_Name i) (as_ingresses a') = Some i"
    by (rule regist_finds [OF assms(1), of i]) (use assms(2-4) i in auto)
next
  fix s assume s: "s \<in> set (kr_Services r)"
  show "find_named (ko_Name s) (as_services a') = Some s"
    by (rule regist_finds [OF assms(1), of _ s]) (use assms(2,3,5) s in auto)
qed

lemma wk_Itoa [simp]: "Itoa 1 = ''1''" "Itoa 80 = ''80''" "Itoa 5000 = ''5000''" "Itoa 3 = ''3''"
  by (simp_all add: Itoa_def digits.simps char_of_def bit_0)

text \<open>What is built for the example component.\<close>

definition wk_svc :: ServiceObject where
  "wk_svc = createOuterService (wk_build [wk_port] False) wk_port"

definition wk_ing :: IngressObject where
  "wk_ing = http_ingress (wk_build [wk_port] False) wk_rule ''a.com'' 80 wk_svc None
     (set_anno ''proxy-read-timeout'' ''75'' (rule_annos wk_rule))"

definition wk_tcp_ing :: IngressObject where
  "wk_tcp_ing = the (applyTCPRule (wk_build [wk_port] False) wk_tcp wk_svc ''t'')"

lemma wk_apply: "applyHTTPRule [] (wk_build [wk_port] False) wk_rule 80 80 wk_svc = Some (Inr (wk_ing, None))"
  by (simp add: applyHTTPRule_def rule_domain_def rule_certificate_def wk_ing_def config_step_def wk_db_def wk_build_def wk_rule_def Let_def)

lemma wk_apply_tcp: "applyTCPRule (wk_build [wk_port] False) wk_tcp wk_svc ''t'' = Some wk_tcp_ing"
  by (simp add: wk_tcp_ing_def applyTCPRule_def wk_svc_def createOuterService_def Let_def)

lemma wk_Build:
  "Build [] (wk_build [wk_port] False) =
     Some (Inr \<lparr>kr_Services = [wk_svc, createStatefulService (wk_build [wk_port] False) [wk_port]], kr_Secrets = [None],
                kr_Ingresses = [wk_ing, wk_tcp_ing]\<rparr>)"
proof -
  have "ApplyRules [] (wk_build [wk_port] False) ''sid'' 80 80 wk_svc = Some ([wk_ing, wk_tcp_ing], [None])"
    using wk_apply wk_apply_tcp by (simp add: ApplyRules_def value_or_def wk_build_def [of _ False] wk_db_def [of _ False])
  moreover have "tp_ServiceID wk_port = ''sid''" "tp_ContainerPort wk_port = 80" "tp_IsInnerService wk_port = Some False"
    "tp_IsOuterService wk_port = Some True" by (simp_all add: wk_port_def)
  ultimately have "ports_loop [] (wk_build [wk_port] False) [] [wk_port] \<lparr>kr_Services = [], kr_Secrets = [], kr_Ingresses = []\<rparr> =
      Some \<lparr>kr_Services = [wk_svc], kr_Secrets = [None], kr_Ingresses = [wk_ing, wk_tcp_ing]\<rparr>"
    by (simp add: port_step_def pp_get_def wk_svc_def [symmetric] Let_def)
  moreover have "GetPortsByServiceID (ab_dbmanager (wk_build [wk_port] False)) (ab_serviceID (wk_build [wk_port] False)) = Inr [wk_port]"
    "checkUpstreamPluginRelation (ab_serviceID (wk_build [wk_port] False)) (ab_dbmanager (wk_build [wk_port] False)) = Inr False"
    "ab_replicationType (wk_build [wk_port] False) = TypeStatefulSet"
    by (simp_all add: wk_build_def wk_db_def checkUpstreamPluginRelation_def)
  ultimately show ?thesis by (simp add: Build_def)
qed

theorem built_objects_registered_witness:
  "\<exists>a'. TenantServiceRegist [] wk_app (wk_db [wk_port] False) = Some (Inr a') \<and>
     find_named ''r1'' (as_ingresses a') = Some wk_ing \<and> find_named ''service-1-80out'' (as_services a') = Some wk_svc"
proof -
  have b: "AppServiceBuilder (as_ServiceID wk_app) (as_ServiceType wk_app) (wk_db [wk_port] False) wk_app = Inr (wk_build [wk_port] False)"
    by (simp add: AppServiceBuilder_def wk_build_def wk_db_def wk_app_def wk_row_def)
  let ?r = "\<lparr>kr_Services = [wk_svc, createStatefulService (wk_build [wk_port] False) [wk_port]], kr_Secrets = [None],
                kr_Ingresses = [wk_ing, wk_tcp_ing]\<rparr>"
  obtain a' where a': "TenantServiceRegist [] wk_app (wk_db [wk_port] False) = Some (Inr a')"
    using b wk_Build by (simp add: TenantServiceRegist_def)
  have n: "ko_Name wk_ing = ''r1''" "ko_Name wk_tcp_ing = ''r2''" "ko_Name wk_svc = ''service-1-80out''"
    "ko_Name (createStatefulService (wk_build [wk_port] False) [wk_port]) = ''gr''"
    by (simp_all add: wk_ing_def wk_tcp_ing_def applyTCPRule_def wk_svc_def createOuterService_def createStatefulService_def wk_defs Let_def)
  have d: "distinct (map ko_Name (kr_Ingresses ?r))" "distinct (map ko_Name (kr_Services ?r))" by (simp_all add: n)
  show ?thesis using built_objects_registered [OF a' b wk_Build d] a' n by simp
qed

text \<open>
  The base of a workload: a successful conversion of a component that is not of a third party sets
  the deployment of a stateless and the stateful set of a stateful component, with the replicas of
  the row, and its selector matches the selector of the services built for the component.
\<close>

theorem base_workload:
  assumes "TenantServiceBase v a db = Some (Inr a')" "GetServiceByID db (as_ServiceID a) = Inr (Some row)"
    and "ts_Kind row \<noteq> ServiceKindThirdParty" "- (2 ^ 31) \<le> ts_Replicas row" "ts_Replicas row < 2 ^ 31"
  shows "\<exists>w sel. (if ts_IsState row then as_statefulset a' else as_deployment a') = Some w \<and>
    as_Replicas a' = ts_Replicas row \<and> wl_Selector w = Some sel \<and>
    map_of sel ''name'' = Some (ts_ServiceAlias row) \<and> map_of sel ''service_id'' = Some (ts_ServiceID row)"
proof -
  have r: "to_int32 (ts_Replicas row) = ts_Replicas row" using assms(4,5) by simp
  have set: "as_statefulset (calculateComponentMemoryRequest x) = as_statefulset x" "as_deployment (calculateComponentMemoryRequest x) = as_deployment x"
    "as_Replicas (calculateComponentMemoryRequest x) = as_Replicas x"
    "as_statefulset (set_version w x) = as_statefulset x" "as_deployment (set_version w x) = as_deployment x" for x w
    by (simp_all add: calculateComponentMemoryRequest_def set_version_def Let_def split: prod.splits option.splits)
  obtain b where b: "(if \<not> ts_IsState row then initBaseDeployment b row else initBaseStatefulSet b row) = Some a'"
    using assms(1-3) by (auto simp: TenantServiceBase_def Let_def split: sum.splits option.splits if_splits)
  show ?thesis
  proof (cases "ts_IsState row")
    case True
    with b have "initBaseStatefulSet b row = Some a'" by simp
    then show ?thesis using True by (auto simp: initBaseStatefulSet_def SetStatefulSet_def initSelector_def set r Let_def)
  next
    case False
    with b have "initBaseDeployment b row = Some a'" by simp
    then show ?thesis using False by (auto simp: initBaseDeployment_def SetDeployment_def initSelector_def set r Let_def)
  qed
qed

theorem base_workload_witness:
  "\<exists>a' w. TenantServiceBase ''1'' (zero_AppService\<lparr>as_ServiceID := ''sid''\<rparr>) (wk_db [wk_port] False) = Some (Inr a') \<and>
     as_statefulset a' = Some w \<and> as_Replicas a' = 1"
proof -
  let ?a = "zero_AppService\<lparr>as_ServiceID := ''sid''\<rparr>"
  have "\<exists>a'. TenantServiceBase ''1'' ?a (wk_db [wk_port] False) = Some (Inr a')"
    by (simp add: TenantServiceBase_def initTenant_def initBaseStatefulSet_def SetStatefulSet_def ts_IsState_def wk_db_def wk_row_def
        ServiceKindThirdParty_def zero_AppService_def Let_def)
  then obtain a' where a': "TenantServiceBase ''1'' ?a (wk_db [wk_port] False) = Some (Inr a')" by blast
  have "GetServiceByID (wk_db [wk_port] False) (as_ServiceID ?a) = Inr (Some wk_row)" by (simp add: wk_db_def)
  from base_workload [OF a' this] a' show ?thesis
    by (auto simp: ts_IsState_def wk_row_def ServiceKindThirdParty_def)
qed

end
