(* ===== verification/WkStore.thy ===== *)
theory WkStore
  imports WkConversion
begin

text \<open>
  \<open>worker/appm/store\<close>: the cache of the components that run in the cluster (\<open>store.go\<close>) and of the
  resources their pods use (\<open>resource.go\<close>). The informers of Kubernetes call the handlers below; each of
  them finds the component an object belongs to by its labels, creates it from the database when it is
  not known, and stores the object in it.

  \<^item> \<open>appServices\<close> maps the identity of a component to its record; a handler that changes a component
    through its pointer writes the changed record back under that key.
  \<^item> What the handlers ask the Kubernetes API and the database to do is the list \<open>ss_effects\<close>, what they
    send on \<open>probeCh\<close> the list \<open>ss_probes\<close>. The caches of the informers are functions of \<open>store_env\<close>.
  \<^item> \<open>SetWorkload\<close> and \<open>DeleteWorkload\<close> of a custom component are not in the repository; they are
    fields of \<open>store_env\<close>, as is what \<open>IsCustomComponent\<close> and \<open>IsThirdComponent\<close> say of a component.
  \<^item> The result \<open>None\<close> is a panic.
\<close>

section \<open>Objects, environment and state\<close>

record StorageClassObject = k8s_object +
  sc_Provisioner :: string
  sc_ReclaimPolicy :: "string option"

text \<open>The types of object that the handlers tell apart; \<open>DeletedFinalStateUnknown\<close> is what an informer
  hands to a delete handler when it missed the deletion.\<close>

datatype kobj =
    KThirdComponent k8s_object
  | KDeployment Workload
  | KStatefulSet Workload
  | KReplicaSet ReplicaSetObject
  | KSecret SecretObject
  | KService ServiceObject
  | KIngress IngressObject
  | KConfigMap k8s_object
  | KHPA HPAObject
  | KStorageClass StorageClassObject
  | KClaim k8s_object
  | KServiceMonitor k8s_object
  | KEndpoints EndpointsObject
  | KPod Pod
  | DeletedFinalStateUnknown

datatype client_kind =
    Deployments | StatefulSets | ReplicaSets | Secrets | Services | Ingresses | ConfigMaps
  | HorizontalPodAutoscalers | PersistentVolumeClaims | ServiceMonitors | Pods

datatype effect =
    ClientDelete client_kind string string
  | DeleteVolumeType string
  | CreateSecret SecretObject
  | UpdateSecret SecretObject

datatype 'a lister_result = Found 'a | NotFound | ListerError

record store_env =
  se_db :: dbmanager
  se_exDomain :: string
  se_newVersion :: string
  se_kind :: "AppService \<Rightarrow> component_kind"
  se_SetWorkload :: "k8s_object \<Rightarrow> AppService \<Rightarrow> AppService"
  se_DeleteWorkload :: "k8s_object \<Rightarrow> AppService \<Rightarrow> AppService"
  se_ServiceMonitorClient :: bool
  se_GetVersionByServiceID :: "string \<Rightarrow> db_error + string list"
  se_ListByAppID :: "string \<Rightarrow> db_error + string list"
  se_DeleteModelByVolumeTypes :: "string \<Rightarrow> db_error option"
  se_StatefulSet :: "string \<Rightarrow> string \<Rightarrow> Workload lister_result"
  se_Deployment :: "string \<Rightarrow> string \<Rightarrow> Workload lister_result"
  se_Service :: "string \<Rightarrow> string \<Rightarrow> ServiceObject lister_result"
  se_Ingress :: "string \<Rightarrow> string \<Rightarrow> IngressObject lister_result"
  se_Secret :: "string \<Rightarrow> string \<Rightarrow> SecretObject lister_result"
  se_Pod :: "string \<Rightarrow> string \<Rightarrow> Pod lister_result"
  se_HPA :: "string \<Rightarrow> string \<Rightarrow> HPAObject lister_result"
  se_Pods :: "string list \<Rightarrow> db_error + Pod list"

record ProbeInfo =
  pi_Sid :: string
  pi_UUID :: string
  pi_IP :: string
  pi_Port :: int

datatype probe_event = ProbeCreate "ProbeInfo list" | ProbeUpdate "ProbeInfo list" | ProbeDelete "string list"

record TenantServiceVolumeType =
  vt_VolumeType :: string
  vt_NameShow :: string
  vt_Provisioner :: string
  vt_ReclaimPolicy :: string
  vt_AccessMode :: string
  vt_BackupPolicy :: string
  vt_SharePolicy :: string
  vt_Sort :: int
  vt_Enable :: bool

text \<open>A channel of which only sends that do not wait are modelled: its capacity and what it holds.\<close>

record 'a channel =
  gc_cap :: nat
  gc_buf :: "'a list"

definition send_default :: "'a \<Rightarrow> 'a channel \<Rightarrow> 'a channel" where
  "send_default x c = (if length (gc_buf c) < gc_cap c then c\<lparr>gc_buf := gc_buf c @ [x]\<rparr> else c)"

type_synonym NamespaceResource = "(string, PodResource) gomap"

record appRuntimeStore =
  ss_appServices :: "(string, AppService) gomap"
  ss_appCount :: int
  ss_resources :: "(string, NamespaceResource) gomap"
  ss_podUpdateListeners :: "(string, Pod channel) gomap"
  ss_volumeTypeListeners :: "(string, TenantServiceVolumeType channel) gomap"
  ss_probes :: "probe_event list"
  ss_effects :: "effect list"

definition new_appRuntimeStore :: appRuntimeStore where
  "new_appRuntimeStore =
     \<lparr>ss_appServices = [], ss_appCount = 0, ss_resources = [], ss_podUpdateListeners = [], ss_volumeTypeListeners = [],
      ss_probes = [], ss_effects = []\<rparr>"

definition emit :: "effect \<Rightarrow> appRuntimeStore \<Rightarrow> appRuntimeStore" where
  "emit e st = st\<lparr>ss_effects := ss_effects st @ [e]\<rparr>"

section \<open>resource.go\<close>

record TenantResource =
  tr_Namespace :: string
  tr_MemoryRequest :: int
  tr_MemoryLimit :: int
  tr_CPURequest :: int
  tr_CPULimit :: int

definition SetPodResource :: "Pod \<Rightarrow> appRuntimeStore \<Rightarrow> appRuntimeStore" where
  "SetPodResource pod st =
     (let re = CalculatePodResource pod;
          nr = (case map_of (ss_resources st) (ko_Namespace pod) of Some nr \<Rightarrow> nr | None \<Rightarrow> [])
      in st\<lparr>ss_resources := map_set (ko_Namespace pod) (map_set (ko_Name pod) re nr) (ss_resources st)\<rparr>)"

definition RemovePod :: "Pod \<Rightarrow> appRuntimeStore \<Rightarrow> appRuntimeStore" where
  "RemovePod pod st =
     (case map_of (ss_resources st) (ko_Namespace pod) of
        Some nr \<Rightarrow> st\<lparr>ss_resources := map_set (ko_Namespace pod) (AList.delete (ko_Name pod) nr) (ss_resources st)\<rparr>
      | None \<Rightarrow> st)"

text \<open>The sums are taken in the order in which the map is met.\<close>

definition zero_TenantResource :: TenantResource where
  "zero_TenantResource = \<lparr>tr_Namespace = [], tr_MemoryRequest = 0, tr_MemoryLimit = 0, tr_CPURequest = 0, tr_CPULimit = 0\<rparr>"

definition getTenantResource :: "NamespaceResource option \<Rightarrow> TenantResource" where
  "getTenantResource nr =
     (case nr of
        None \<Rightarrow> zero_TenantResource
      | Some m \<Rightarrow>
          fold (\<lambda>(k, v) tr. tr\<lparr>tr_CPULimit := to_int64 (tr_CPULimit tr + pr_CPULimit v),
                                tr_MemoryLimit := to_int64 (tr_MemoryLimit tr + pr_MemoryLimit v),
                                tr_CPURequest := to_int64 (tr_CPURequest tr + pr_CPURequest v),
                                tr_MemoryRequest := to_int64 (tr_MemoryRequest tr + pr_MemoryRequest v)\<rparr>) m zero_TenantResource)"

definition GetTenantResource :: "(NamespaceResource \<Rightarrow> NamespaceResource) \<Rightarrow> string \<Rightarrow> appRuntimeStore \<Rightarrow> TenantResource" where
  "GetTenantResource rng namespace st =
     (getTenantResource (map_option rng (map_of (ss_resources st) namespace)))\<lparr>tr_Namespace := namespace\<rparr>"

definition GetAllTenantResource ::
  "(NamespaceResource \<Rightarrow> NamespaceResource) \<Rightarrow> ((string, NamespaceResource) gomap \<Rightarrow> (string, NamespaceResource) gomap) \<Rightarrow>
   appRuntimeStore \<Rightarrow> TenantResource list" where
  "GetAllTenantResource rng rngs st = map (\<lambda>(k, nr). (getTenantResource (Some (rng nr)))\<lparr>tr_Namespace := k\<rparr>) (rngs (ss_resources st))"

section \<open>Components\<close>

definition RegistAppService :: "AppService \<Rightarrow> appRuntimeStore \<Rightarrow> appRuntimeStore" where
  "RegistAppService app st =
     st\<lparr>ss_appServices := map_set (as_ServiceID app) app (ss_appServices st), ss_appCount := to_int32 (ss_appCount st + 1)\<rparr>"

text \<open>The body of \<open>DeleteAppService\<close> is commented out.\<close>

definition DeleteAppService :: "AppService \<Rightarrow> appRuntimeStore \<Rightarrow> appRuntimeStore" where
  "DeleteAppService app st = st"

definition DeleteAppServiceByKey :: "string \<Rightarrow> appRuntimeStore \<Rightarrow> appRuntimeStore" where
  "DeleteAppServiceByKey key st =
     st\<lparr>ss_appServices := AList.delete key (ss_appServices st), ss_appCount := to_int32 (ss_appCount st - 1)\<rparr>"

definition GetAppService :: "string \<Rightarrow> appRuntimeStore \<Rightarrow> AppService option" where
  "GetAppService serviceID st = map_of (ss_appServices st) serviceID"

definition put_app :: "string \<Rightarrow> AppService \<Rightarrow> appRuntimeStore \<Rightarrow> appRuntimeStore" where
  "put_app serviceID app st = st\<lparr>ss_appServices := map_set serviceID app (ss_appServices st)\<rparr>"

definition getAppService ::
  "store_env \<Rightarrow> string \<Rightarrow> string \<Rightarrow> bool \<Rightarrow> appRuntimeStore \<Rightarrow> ((conv_error + AppService option) \<times> appRuntimeStore) option" where
  "getAppService env serviceID createrID creator st =
     (case GetAppService serviceID st of
        Some app \<Rightarrow> Some (Inr (Some app), st)
      | None \<Rightarrow>
          if creator
          then (case InitCacheAppService (se_exDomain env) (se_newVersion env) (se_db env) serviceID createrID of
                  None \<Rightarrow> None
                | Some (Inl err) \<Rightarrow> Some (Inl err, st)
                | Some (Inr app) \<Rightarrow> Some (Inr (Some app), RegistAppService app st))
          else Some (Inr None, st))"

section \<open>Handlers: what they share\<close>

definition label :: "'a k8s_object_scheme \<Rightarrow> string \<Rightarrow> string" where
  "label x k = map_str (ko_Labels x) k"

text \<open>The condition on the labels: most kinds need no version.\<close>

definition owned :: "bool \<Rightarrow> 'a k8s_object_scheme \<Rightarrow> bool" where
  "owned needVersion x \<longleftrightarrow>
     label x ''service_id'' \<noteq> [] \<and> (needVersion \<longrightarrow> label x ''version'' \<noteq> []) \<and> label x ''creater_id'' \<noteq> []"

text \<open>An object whose component is not in the database is deleted from the cluster.\<close>

definition delete_orphan :: "client_kind option \<Rightarrow> 'a k8s_object_scheme \<Rightarrow> appRuntimeStore \<Rightarrow> appRuntimeStore" where
  "delete_orphan client x st =
     (case client of None \<Rightarrow> st | Some k \<Rightarrow> emit (ClientDelete k (ko_Namespace x) (ko_Name x)) st)"

text \<open>The branch of an object in \<open>OnAdd\<close>: \<open>store\<close> puts it into the component.\<close>

definition add_object ::
  "store_env \<Rightarrow> bool \<Rightarrow> client_kind option \<Rightarrow> 'a k8s_object_scheme \<Rightarrow> (AppService \<Rightarrow> AppService option) \<Rightarrow>
   (AppService \<Rightarrow> effect list) \<Rightarrow> appRuntimeStore \<Rightarrow> appRuntimeStore option" where
  "add_object env needVersion orphan x store after st =
     (if owned needVersion x
      then (case getAppService env (label x ''service_id'') (label x ''creater_id'') True st of
              None \<Rightarrow> None
            | Some (Inl err, st) \<Rightarrow> Some (if err = ErrServiceNotFound then delete_orphan orphan x st else st)
            | Some (Inr None, st) \<Rightarrow> Some st
            | Some (Inr (Some app), st) \<Rightarrow>
                (case store app of
                   None \<Rightarrow> None
                 | Some app \<Rightarrow> Some (fold emit (after app) (put_app (label x ''service_id'') app st))))
      else Some st)"

text \<open>The branch of an object in \<open>OnDeletes\<close>; the second result says that the function returned.\<close>

definition del_object ::
  "store_env \<Rightarrow> bool \<Rightarrow> bool \<Rightarrow> bool \<Rightarrow> 'a k8s_object_scheme \<Rightarrow> (AppService \<Rightarrow> AppService) \<Rightarrow> appRuntimeStore \<Rightarrow>
   (appRuntimeStore \<times> bool) option" where
  "del_object env needVersion creator checkClosed x del st =
     (if owned needVersion x
      then (case getAppService env (label x ''service_id'') (label x ''creater_id'') creator st of
              None \<Rightarrow> None
            | Some (Inr (Some app), st) \<Rightarrow>
                (let app = del app; st = put_app (label x ''service_id'') app st
                 in Some (if checkClosed \<and> IsClosed (se_kind env app) app then DeleteAppService app st else st, True))
            | Some (_, st) \<Rightarrow> Some (st, False))
      else Some (st, False))"

section \<open>OnAdd, OnUpdate and OnDelete\<close>

definition checkReplicasetWhetherDelete :: "ReplicaSetObject \<Rightarrow> AppService \<Rightarrow> effect list" where
  "checkReplicasetWhetherDelete rs app =
     (case GetCurrentReplicaSet app of
        None \<Rightarrow> []
      | Some current \<Rightarrow>
          if ko_Name current \<noteq> ko_Name rs \<and> GetReplicaSetVersion current > GetReplicaSetVersion rs \<and>
             rs_Replicas rs = 0 \<and> rs_ReadyReplicas rs = 0 \<and> rs_AvailableReplicas rs = 0
          then [ClientDelete ReplicaSets (ko_Namespace rs) (ko_Name rs)] else [])"

text \<open>\<open>TransStorageClass2RBDVolumeType\<close> of \<open>worker/util/volumetype.go\<close>, without the two fields that hold JSON.\<close>

definition zero_VolumeType :: TenantServiceVolumeType where
  "zero_VolumeType =
     \<lparr>vt_VolumeType = [], vt_NameShow = [], vt_Provisioner = [], vt_ReclaimPolicy = [], vt_AccessMode = [], vt_BackupPolicy = [],
      vt_SharePolicy = [], vt_Sort = 0, vt_Enable = False\<rparr>"

definition TransStorageClass2RBDVolumeType :: "StorageClassObject \<Rightarrow> TenantServiceVolumeType" where
  "TransStorageClass2RBDVolumeType sc =
     (if ko_Name sc = ''katosssc'' then zero_VolumeType\<lparr>vt_VolumeType := ''share-file''\<rparr>
      else if ko_Name sc = ''katoslsc'' then zero_VolumeType\<lparr>vt_VolumeType := ''local''\<rparr>
      else
        \<lparr>vt_VolumeType = ko_Name sc,
         vt_NameShow = (case map_of (ko_Annotations sc) ''rbd_volume_name'' of Some name \<Rightarrow> name | None \<Rightarrow> ko_Name sc),
         vt_Provisioner = sc_Provisioner sc,
         vt_ReclaimPolicy = (case sc_ReclaimPolicy sc of Some p \<Rightarrow> p | None \<Rightarrow> ''Retain''),
         vt_AccessMode = ''RWO'', vt_BackupPolicy = ''exclusive'', vt_SharePolicy = ''exclusive'', vt_Sort = 999, vt_Enable = True\<rparr>)"

fun OnAdd :: "store_env \<Rightarrow> kobj \<Rightarrow> appRuntimeStore \<Rightarrow> appRuntimeStore option" where
  "OnAdd env (KThirdComponent x) st = add_object env False None x (\<lambda>a. Some (se_SetWorkload env x a)) (\<lambda>_. []) st"
| "OnAdd env (KDeployment x) st = add_object env True (Some Deployments) x (SetDeployment x) (\<lambda>_. []) st"
| "OnAdd env (KStatefulSet x) st = add_object env True (Some StatefulSets) x (SetStatefulSet x) (\<lambda>_. []) st"
| "OnAdd env (KReplicaSet x) st =
     \<comment> \<open>An orphaned replica set deletes the deployment of its name.\<close>
     add_object env True (Some Deployments) x (\<lambda>a. Some (SetReplicaSets x a)) (checkReplicasetWhetherDelete x) st"
| "OnAdd env (KSecret x) st = add_object env False (Some Secrets) x (\<lambda>a. Some (SetSecret (Some x) a)) (\<lambda>_. []) st"
| "OnAdd env (KService x) st = add_object env False (Some Services) x (\<lambda>a. Some (SetService x a)) (\<lambda>_. []) st"
| "OnAdd env (KIngress x) st = add_object env False (Some Ingresses) x (\<lambda>a. Some (SetIngress x a)) (\<lambda>_. []) st"
| "OnAdd env (KConfigMap x) st = add_object env False (Some ConfigMaps) x (\<lambda>a. Some (SetConfigMap x a)) (\<lambda>_. []) st"
| "OnAdd env (KHPA x) st = add_object env True (Some HorizontalPodAutoscalers) x (\<lambda>a. Some (SetHPA x a)) (\<lambda>_. []) st"
| "OnAdd env (KStorageClass x) st =
     (let vt = TransStorageClass2RBDVolumeType x
      in Some (st\<lparr>ss_volumeTypeListeners := map (\<lambda>(k, ch). (k, send_default vt ch)) (ss_volumeTypeListeners st)\<rparr>))"
| "OnAdd env (KClaim x) st = add_object env False (Some PersistentVolumeClaims) x (\<lambda>a. Some (SetClaim x a)) (\<lambda>_. []) st"
| "OnAdd env (KServiceMonitor x) st =
     add_object env False (if se_ServiceMonitorClient env then Some ServiceMonitors else None) x
       (\<lambda>a. Some (SetServiceMonitor x a)) (\<lambda>_. []) st"
| "OnAdd env _ st = Some st"

definition OnUpdate :: "store_env \<Rightarrow> kobj \<Rightarrow> kobj \<Rightarrow> appRuntimeStore \<Rightarrow> appRuntimeStore option" where
  "OnUpdate env oldObj newObj st =
     (case newObj of
        KIngress ingress \<Rightarrow>
          (case oldObj of
             KIngress oldIngress \<Rightarrow>
               if label oldIngress ''service_id'' \<noteq> label ingress ''service_id''
               then (case getAppService env (label oldIngress ''service_id'') (label oldIngress ''creater_id'') True st of
                       None \<Rightarrow> None
                     | Some (Inr (Some app), st) \<Rightarrow>
                         OnAdd env newObj (put_app (label oldIngress ''service_id'') (DeleteIngress oldIngress app) st)
                     | Some (_, st) \<Rightarrow> OnAdd env newObj st)
               else OnAdd env newObj st
           | _ \<Rightarrow> None)
      | _ \<Rightarrow> OnAdd env newObj st)"

fun delete_one :: "store_env \<Rightarrow> kobj \<Rightarrow> appRuntimeStore \<Rightarrow> (appRuntimeStore \<times> bool) option" where
  \<comment> \<open>The body of the loop of \<open>OnDeletes\<close>.\<close>
  "delete_one env (KThirdComponent x) st = del_object env True True True x (se_DeleteWorkload env x) st"
| "delete_one env (KDeployment x) st = del_object env True False True x DeleteDeployment st"
| "delete_one env (KStatefulSet x) st = del_object env True False True x DeleteStatefulSet st"
| "delete_one env (KReplicaSet x) st = del_object env True False True x (DeleteReplicaSet x) st"
| "delete_one env (KSecret x) st = del_object env False False True x (DeleteSecrets x) st"
| "delete_one env (KService x) st = del_object env False False True x (DeleteServices x) st"
| "delete_one env (KIngress x) st = del_object env False False True x (DeleteIngress x) st"
| "delete_one env (KConfigMap x) st = del_object env False False True x (DeleteConfigMaps x) st"
| "delete_one env (KHPA x) st = del_object env True False True x (DelHPA x) st"
| "delete_one env (KStorageClass x) st =
     Some (emit (DeleteVolumeType (ko_Name x)) st, se_DeleteModelByVolumeTypes env (ko_Name x) \<noteq> None)"
| "delete_one env (KClaim x) st = del_object env False False True x (DeleteClaim x) st"
| "delete_one env (KServiceMonitor x) st = del_object env False True False x (DeleteServiceMonitor x) st"
| "delete_one env _ st = Some (st, False)"

fun OnDeletes :: "store_env \<Rightarrow> kobj list \<Rightarrow> appRuntimeStore \<Rightarrow> appRuntimeStore option" where
  "OnDeletes env [] st = Some st"
| "OnDeletes env (obj # objs) st =
     (case delete_one env obj st of
        None \<Rightarrow> None
      | Some (st, returned) \<Rightarrow> if returned then Some st else OnDeletes env objs st)"

definition store_OnDelete :: "store_env \<Rightarrow> kobj \<Rightarrow> appRuntimeStore \<Rightarrow> appRuntimeStore option" where
  "store_OnDelete env obj st = OnDeletes env [obj] st"

section \<open>The handlers of endpoints\<close>

definition isThirdParty :: "EndpointsObject \<Rightarrow> bool" where
  "isThirdParty ep \<longleftrightarrow> label ep ''service-kind'' = ServiceKindThirdParty"

definition addProbe :: "ProbeInfo \<Rightarrow> ProbeInfo list \<Rightarrow> ProbeInfo list" where
  "addProbe p probeInfos =
     (if list_ex (\<lambda>c. pi_IP c = pi_IP p \<and> pi_Port c = pi_Port p) probeInfos then probeInfos else probeInfos @ [p])"

definition probe_of :: "string \<Rightarrow> int \<Rightarrow> string \<Rightarrow> ProbeInfo" where
  "probe_of sid port host = \<lparr>pi_Sid = sid, pi_UUID = host @ ''_'' @ Itoa port, pi_IP = host, pi_Port = port\<rparr>"

text \<open>The ports of the subsets in order, each with the addresses of its subset.\<close>

definition probe_steps :: "EndpointsSubset list \<Rightarrow> (int \<times> string list) list" where
  "probe_steps subsets =
     concat (map (\<lambda>s. map (\<lambda>port. (snd port, es_NotReadyAddresses s @ es_Addresses s)) (es_Ports s)) subsets)"

definition listProbeInfos :: "EndpointsObject \<Rightarrow> string \<Rightarrow> ProbeInfo list" where
  "listProbeInfos ep sid =
     (let steps = probe_steps (eo_Subsets ep); domain = map_str (ko_Annotations ep) ''domain''
      in case steps of
           [] \<Rightarrow> []
         | (port, _) # _ \<Rightarrow>
             if domain \<noteq> [] then [probe_of sid port domain]
             else fold (\<lambda>(port, hosts). fold (\<lambda>host. addProbe (probe_of sid port host)) hosts) steps [])"

definition probe :: "probe_event \<Rightarrow> appRuntimeStore \<Rightarrow> appRuntimeStore" where
  "probe e st = st\<lparr>ss_probes := ss_probes st @ [e]\<rparr>"

definition ep_add :: "store_env \<Rightarrow> EndpointsObject \<Rightarrow> (string \<Rightarrow> appRuntimeStore \<Rightarrow> appRuntimeStore) \<Rightarrow> appRuntimeStore \<Rightarrow> appRuntimeStore option" where
  \<comment> \<open>What \<open>AddFunc\<close> and \<open>UpdateFunc\<close> of \<open>epEventHandler\<close> share; \<open>after\<close> sends the probes.\<close>
  "ep_add env ep after st =
     (if owned False ep
      then (case getAppService env (label ep ''service_id'') (label ep ''creater_id'') True st of
              None \<Rightarrow> None
            | Some (Inr (Some app), st) \<Rightarrow>
                Some (after (label ep ''service_id'') (put_app (label ep ''service_id'') (AddEndpoints ep app) st))
            | Some (_, st) \<Rightarrow> Some st)
      else Some st)"

definition endpoints_AddFunc :: "store_env \<Rightarrow> EndpointsObject \<Rightarrow> appRuntimeStore \<Rightarrow> appRuntimeStore option" where
  "endpoints_AddFunc env ep st =
     ep_add env ep (\<lambda>sid st. if isThirdParty ep \<and> length (eo_Subsets ep) > 0
                             then probe (ProbeCreate (listProbeInfos ep sid)) st else st) st"

definition endpoints_UpdateFunc :: "store_env \<Rightarrow> EndpointsObject \<Rightarrow> appRuntimeStore \<Rightarrow> appRuntimeStore option" where
  "endpoints_UpdateFunc env cep st =
     ep_add env cep (\<lambda>sid st. if isThirdParty cep then probe (ProbeUpdate (listProbeInfos cep sid)) st else st) st"

text \<open>\<open>item.Ports[0]\<close> panics for a subset without ports.\<close>

definition first_ports :: "EndpointsSubset list \<Rightarrow> string list option" where
  "first_ports subsets =
     (if list_all (\<lambda>s. es_Ports s \<noteq> []) subsets then Some (map (\<lambda>s. fst (hd (es_Ports s))) subsets) else None)"

definition endpoints_DeleteFunc :: "store_env \<Rightarrow> EndpointsObject \<Rightarrow> appRuntimeStore \<Rightarrow> appRuntimeStore option" where
  "endpoints_DeleteFunc env ep st =
     (case del_object env False False True ep (DelEndpoints ep) st of
        None \<Rightarrow> None
      | Some (st, False) \<Rightarrow> Some st
      | Some (st, True) \<Rightarrow>
          if isThirdParty ep
          then map_option (\<lambda>uuids. probe (ProbeDelete uuids) st) (first_ports (eo_Subsets ep))
          else Some st)"

section \<open>The handlers of pods\<close>

definition pod_AddFunc :: "store_env \<Rightarrow> Pod \<Rightarrow> appRuntimeStore \<Rightarrow> appRuntimeStore option" where
  "pod_AddFunc env pod st =
     add_object env True (Some Pods) pod (\<lambda>a. Some (SetPods pod a)) (\<lambda>_. []) (SetPodResource pod st)"

definition pod_DeleteFunc :: "store_env \<Rightarrow> Pod \<Rightarrow> appRuntimeStore \<Rightarrow> appRuntimeStore option" where
  "pod_DeleteFunc env pod st =
     map_option fst (del_object env True False True pod (DeletePods pod) (RemovePod pod st))"

definition notify_pod :: "Pod \<Rightarrow> appRuntimeStore \<Rightarrow> appRuntimeStore" where
  "notify_pod pod st = st\<lparr>ss_podUpdateListeners := map (\<lambda>(k, ch). (k, send_default pod ch)) (ss_podUpdateListeners st)\<rparr>"

definition pod_UpdateFunc :: "store_env \<Rightarrow> Pod \<Rightarrow> appRuntimeStore \<Rightarrow> appRuntimeStore option" where
  "pod_UpdateFunc env pod st =
     map_option (notify_pod pod)
       (add_object env True (Some Pods) pod (\<lambda>a. Some (SetPods pod a)) (\<lambda>_. []) (SetPodResource pod st))"

definition RegistPodUpdateListener :: "string \<Rightarrow> Pod channel \<Rightarrow> appRuntimeStore \<Rightarrow> appRuntimeStore" where
  "RegistPodUpdateListener name ch st = st\<lparr>ss_podUpdateListeners := map_set name ch (ss_podUpdateListeners st)\<rparr>"

definition UnRegistPodUpdateListener :: "string \<Rightarrow> appRuntimeStore \<Rightarrow> appRuntimeStore" where
  "UnRegistPodUpdateListener name st = st\<lparr>ss_podUpdateListeners := AList.delete name (ss_podUpdateListeners st)\<rparr>"

definition RegisterVolumeTypeListener :: "string \<Rightarrow> TenantServiceVolumeType channel \<Rightarrow> appRuntimeStore \<Rightarrow> appRuntimeStore" where
  "RegisterVolumeTypeListener name ch st = st\<lparr>ss_volumeTypeListeners := map_set name ch (ss_volumeTypeListeners st)\<rparr>"

definition UnRegisterVolumeTypeListener :: "string \<Rightarrow> appRuntimeStore \<Rightarrow> appRuntimeStore" where
  "UnRegisterVolumeTypeListener name st = st\<lparr>ss_volumeTypeListeners := AList.delete name (ss_volumeTypeListeners st)\<rparr>"

section \<open>The events of the informers\<close>

text \<open>\<open>NewStore\<close> registers the handlers: pods and endpoints have their own, all other kinds the store
  itself.\<close>

datatype kevent = Added kobj | Updated kobj kobj | Deleted kobj

fun handle :: "store_env \<Rightarrow> kevent \<Rightarrow> appRuntimeStore \<Rightarrow> appRuntimeStore option" where
  "handle env (Added (KPod pod)) st = pod_AddFunc env pod st"
| "handle env (Added (KEndpoints ep)) st = endpoints_AddFunc env ep st"
| "handle env (Added x) st = OnAdd env x st"
| "handle env (Updated old (KPod pod)) st = pod_UpdateFunc env pod st"
| "handle env (Updated old (KEndpoints ep)) st = endpoints_UpdateFunc env ep st"
| "handle env (Updated old x) st = OnUpdate env old x st"
| "handle env (Deleted (KPod pod)) st = pod_DeleteFunc env pod st"
| "handle env (Deleted (KEndpoints ep)) st = endpoints_DeleteFunc env ep st"
| "handle env (Deleted x) st = store_OnDelete env x st"

section \<open>Reading the cache\<close>

text \<open>The loops of \<open>UpdateGetAppService\<close>: an object the lister does not find is dropped, one it finds
  replaces the cached one.\<close>

definition refresh_object ::
  "(string \<Rightarrow> string \<Rightarrow> 'a k8s_object_scheme lister_result) \<Rightarrow> ('a k8s_object_scheme \<Rightarrow> AppService \<Rightarrow> AppService) \<Rightarrow>
   ('a k8s_object_scheme \<Rightarrow> AppService \<Rightarrow> AppService) \<Rightarrow> 'a k8s_object_scheme \<Rightarrow> AppService \<Rightarrow> AppService" where
  "refresh_object get del set1 x app =
     (case get (ko_Namespace x) (ko_Name x) of Found y \<Rightarrow> set1 y app | NotFound \<Rightarrow> del x app | ListerError \<Rightarrow> app)"

definition refresh_workload ::
  "(string \<Rightarrow> string \<Rightarrow> Workload lister_result) \<Rightarrow> (AppService \<Rightarrow> AppService) \<Rightarrow> (Workload \<Rightarrow> AppService \<Rightarrow> AppService option) \<Rightarrow>
   Workload option \<Rightarrow> AppService \<Rightarrow> AppService option" where
  "refresh_workload get del set1 w app =
     (case w of
        None \<Rightarrow> Some app
      | Some w \<Rightarrow>
          (case get (ko_Namespace w) (ko_Name w) of Found y \<Rightarrow> set1 y app | NotFound \<Rightarrow> Some (del app) | ListerError \<Rightarrow> Some app))"

definition refresh_collections :: "store_env \<Rightarrow> AppService \<Rightarrow> AppService" where
  "refresh_collections env app =
     (let app = fold (refresh_object (se_Service env) DeleteServices SetService) (as_services app) app;
          app = fold (refresh_object (se_Ingress env) DeleteIngress SetIngress) (as_ingresses app) app;
          app = fold (refresh_object (se_Secret env) DeleteSecrets (\<lambda>s. SetSecret (Some s))) (as_secrets app) app;
          app = fold (refresh_object (se_Pod env) DeletePods SetPods) (as_pods app) app
      in app)"

definition UpdateGetAppService :: "store_env \<Rightarrow> string \<Rightarrow> appRuntimeStore \<Rightarrow> (AppService option \<times> appRuntimeStore) option" where
  "UpdateGetAppService env serviceID st =
     (case GetAppService serviceID st of
        None \<Rightarrow> Some (None, st)
      | Some app \<Rightarrow>
          (case refresh_workload (se_StatefulSet env) DeleteStatefulSet SetStatefulSet (as_statefulset app) app of
             None \<Rightarrow> None
           | Some app \<Rightarrow>
               (case refresh_workload (se_Deployment env) DeleteDeployment SetDeployment (as_deployment app) app of
                  None \<Rightarrow> None
                | Some app \<Rightarrow>
                    (let app = refresh_collections env app in Some (Some app, put_app serviceID app st)))))"

definition GetAllAppServices ::
  "((string, AppService) gomap \<Rightarrow> (string, AppService) gomap) \<Rightarrow> appRuntimeStore \<Rightarrow> AppService list" where
  "GetAllAppServices rng st = map snd (rng (ss_appServices st))"

definition GetTenantRunningApp ::
  "((string, AppService) gomap \<Rightarrow> (string, AppService) gomap) \<Rightarrow> store_env \<Rightarrow> string \<Rightarrow> appRuntimeStore \<Rightarrow> AppService list" where
  "GetTenantRunningApp rng env tenantID st =
     filter (\<lambda>a. (as_TenantID a = tenantID \<or> tenantID = []) \<and> \<not> IsClosed (se_kind env a) a) (GetAllAppServices rng st)"

section \<open>Status\<close>

text \<open>A component that has never been deployed has no versions.\<close>

definition undeployed :: "store_env \<Rightarrow> string \<Rightarrow> string" where
  "undeployed env serviceID =
     (case se_GetVersionByServiceID env serviceID of Inl _ \<Rightarrow> UNDEPLOY | Inr versions \<Rightarrow> if length versions = 0 then UNDEPLOY else CLOSED)"

definition GetAppServiceStatus :: "store_env \<Rightarrow> string \<Rightarrow> appRuntimeStore \<Rightarrow> (string \<times> appRuntimeStore) option" where
  "GetAppServiceStatus env serviceID st =
     (case GetAppService serviceID st of
        None \<Rightarrow>
          Some (case value_or None (GetServiceByID (se_db env) serviceID) of
                  None \<Rightarrow> UNKNOW
                | Some component \<Rightarrow> if ts_Kind component = ServiceKindThirdParty then CLOSED else undeployed env serviceID, st)
      | Some app \<Rightarrow>
          (let status = GetServiceStatus (se_kind env app) app in
           if status = UNKNOW
           then (case UpdateGetAppService env serviceID st of
                   None \<Rightarrow> None
                 | Some (None, st) \<Rightarrow> Some (undeployed env serviceID, st)
                 | Some (Some app, st) \<Rightarrow> Some (GetServiceStatus (se_kind env app) app, st))
           else Some (status, st)))"

fun statuses_loop :: "store_env \<Rightarrow> string list \<Rightarrow> (string, string) gomap \<Rightarrow> appRuntimeStore \<Rightarrow> ((string, string) gomap \<times> appRuntimeStore) option" where
  "statuses_loop env [] m st = Some (m, st)"
| "statuses_loop env (sid # sids) m st =
     (case GetAppServiceStatus env sid st of
        None \<Rightarrow> None
      | Some (status, st) \<Rightarrow> statuses_loop env sids (map_set sid status m) st)"

definition GetAppServicesStatus ::
  "((string, AppService) gomap \<Rightarrow> (string, AppService) gomap) \<Rightarrow> store_env \<Rightarrow> string list \<Rightarrow> appRuntimeStore \<Rightarrow>
   ((string, string) gomap \<times> appRuntimeStore) option" where
  "GetAppServicesStatus rng env serviceIDs st =
     statuses_loop env (if length serviceIDs = 0 then map as_ServiceID (GetAllAppServices rng st) else serviceIDs) [] st"

definition isClosedStatus :: "string \<Rightarrow> bool" where
  "isClosedStatus s \<longleftrightarrow> s = BUILDEFAILURE \<or> s = CLOSED \<or> s = UNDEPLOY \<or> s = BUILDING \<or> s = UNKNOW"

fun billing_loop :: "store_env \<Rightarrow> string list \<Rightarrow> (string, string) gomap \<Rightarrow> appRuntimeStore \<Rightarrow> ((string, string) gomap \<times> appRuntimeStore) option" where
  "billing_loop env [] m st = Some (m, st)"
| "billing_loop env (sid # sids) m st =
     (case GetAppServiceStatus env sid st of
        None \<Rightarrow> None
      | Some (status, st) \<Rightarrow> billing_loop env sids (if \<not> isClosedStatus status then map_set sid status m else m) st)"

definition GetNeedBillingStatus ::
  "((string, AppService) gomap \<Rightarrow> (string, AppService) gomap) \<Rightarrow> store_env \<Rightarrow> string list \<Rightarrow> appRuntimeStore \<Rightarrow>
   ((string, string) gomap \<times> appRuntimeStore) option" where
  "GetNeedBillingStatus rng env serviceIDs st =
     billing_loop env (if length serviceIDs = 0 then map as_ServiceID (GetAllAppServices rng st) else serviceIDs) [] st"

datatype AppStatus = AppStatus_NIL | AppStatus_RUNNING | AppStatus_CLOSED | AppStatus_ABNORMAL | AppStatus_STARTING | AppStatus_STOPPING

definition appNil :: "string list \<Rightarrow> bool" where
  "appNil statuses = list_all (\<lambda>s. s = UNDEPLOY) statuses"

definition appClosed :: "string list \<Rightarrow> bool" where
  "appClosed statuses = list_all (\<lambda>s. s = CLOSED) statuses"

definition appAbnormal :: "string list \<Rightarrow> bool" where
  "appAbnormal statuses = list_ex (\<lambda>s. s = ABNORMAL \<or> s = SOMEABNORMAL) statuses"

definition appStarting :: "string list \<Rightarrow> bool" where
  "appStarting statuses = list_ex (\<lambda>s. s = STARTING) statuses"

fun stopping_loop :: "bool \<Rightarrow> string list \<Rightarrow> bool" where
  "stopping_loop stopping [] = stopping"
| "stopping_loop stopping (s # ss) =
     (if s = STOPPING then stopping_loop True ss else if s = CLOSED then stopping_loop stopping ss else False)"

definition appStopping :: "string list \<Rightarrow> bool" where
  "appStopping statuses = stopping_loop False statuses"

definition getAppStatus :: "(string, string) gomap \<Rightarrow> AppStatus" where
  "getAppStatus componentStatuses =
     (let statuses = filter (\<lambda>s. s \<noteq> UNDEPLOY) (map snd componentStatuses) in
      if length statuses = 0 \<or> appNil statuses then AppStatus_NIL
      else if appClosed statuses then AppStatus_CLOSED
      else if appAbnormal statuses then AppStatus_ABNORMAL
      else if appStarting statuses then AppStatus_STARTING
      else if appStopping statuses then AppStatus_STOPPING
      else AppStatus_RUNNING)"

text \<open>\<open>rngs\<close> is the order in which \<open>getAppStatus\<close> meets the map.\<close>

definition GetAppStatus ::
  "((string, string) gomap \<Rightarrow> (string, string) gomap) \<Rightarrow> store_env \<Rightarrow> string \<Rightarrow> appRuntimeStore \<Rightarrow>
   ((db_error option \<times> AppStatus) \<times> appRuntimeStore) option" where
  "GetAppStatus rngs env appID st =
     (case se_ListByAppID env appID of
        Inl err \<Rightarrow> Some ((Some err, AppStatus_NIL), st)
      | Inr serviceIDs \<Rightarrow>
          if length serviceIDs = 0 then Some ((None, AppStatus_NIL), st)
          else map_option (\<lambda>(m, st). ((None, getAppStatus (rngs m)), st)) (GetAppServicesStatus id env serviceIDs st))"

definition GetAppResources :: "store_env \<Rightarrow> string \<Rightarrow> db_error + int \<times> int" where
  "GetAppResources env appID =
     (case se_ListByAppID env appID of
        Inl err \<Rightarrow> Inl err
      | Inr serviceIDs \<Rightarrow>
          (case (if length serviceIDs = 0 then Inr [] else se_Pods env serviceIDs) of
             Inl err \<Rightarrow> Inl err
           | Inr pods \<Rightarrow>
               Inr (fold (\<lambda>c (cpu, memory). (to_int64 (cpu + cn_CPURequest c),
                            to_int64 (memory + quot_int (quot_int (cn_MemoryLimit c) 1024) 1024)))
                      (concat (map pd_Containers pods)) (0, 0))))"

section \<open>Scaling records and image pull secrets\<close>

record KubeEvent =
  ke_Name :: string
  ke_Kind :: string
  ke_ObjNamespace :: string
  ke_ObjName :: string
  ke_Count :: int
  ke_Reason :: string
  ke_Message :: string
  ke_ResourceVersion :: string
  ke_LastTimestamp :: int

record TenantServiceScalingRecords =
  sr_ServiceID :: string
  sr_RuleID :: string
  sr_EventName :: string
  sr_RecordType :: string
  sr_Count :: int
  sr_Reason :: string
  sr_Description :: string
  sr_Operator :: string
  sr_LastTime :: int

definition rc2RecordType :: "string \<Rightarrow> string option" where
  "rc2RecordType kind =
     (if kind = ''Deployment'' \<or> kind = ''Statefulset'' then Some ''mumaul''
      else if kind = ''HorizontalPodAutoscaler'' then Some ''hpa'' else None)"

definition scaling_labels :: "'a k8s_object_scheme lister_result \<Rightarrow> string \<times> string" where
  "scaling_labels r = (case r of Found x \<Rightarrow> (label x ''service_id'', label x ''rule_id'') | _ \<Rightarrow> ([], []))"

definition scalingRecordServiceAndRuleID :: "store_env \<Rightarrow> KubeEvent \<Rightarrow> string \<times> string" where
  "scalingRecordServiceAndRuleID env evt =
     (let ns = ke_ObjNamespace evt; n = ke_ObjName evt in
      if ke_Kind evt = ''Deployment'' then scaling_labels (se_Deployment env ns n)
      else if ke_Kind evt = ''Statefulset'' then scaling_labels (se_StatefulSet env ns n)
      else if ke_Kind evt = ''HorizontalPodAutoscaler'' then scaling_labels (se_HPA env ns n)
      else ([], []))"

definition scaling_record :: "store_env \<Rightarrow> string \<Rightarrow> KubeEvent \<Rightarrow> TenantServiceScalingRecords option" where
  \<comment> \<open>The record that both handlers of events hand to \<open>UpdateOrCreate\<close>.\<close>
  "scaling_record env operator evt =
     (case rc2RecordType (ke_Kind evt) of
        None \<Rightarrow> None
      | Some recordType \<Rightarrow>
          (let (serviceID, ruleID) = scalingRecordServiceAndRuleID env evt in
           if serviceID = [] \<or> ruleID = [] then None
           else Some \<lparr>sr_ServiceID = serviceID, sr_RuleID = ruleID, sr_EventName = ke_Name evt, sr_RecordType = recordType,
                      sr_Count = ke_Count evt, sr_Reason = ke_Reason evt, sr_Description = ke_Message evt, sr_Operator = operator,
                      sr_LastTime = ke_LastTimestamp evt\<rparr>))"

definition evt_AddFunc :: "store_env \<Rightarrow> KubeEvent \<Rightarrow> TenantServiceScalingRecords option" where
  "evt_AddFunc env evt = scaling_record env ''system'' evt"

definition evt_UpdateFunc :: "store_env \<Rightarrow> KubeEvent \<Rightarrow> KubeEvent \<Rightarrow> TenantServiceScalingRecords option" where
  "evt_UpdateFunc env oevt cevt =
     (if ke_ResourceVersion oevt = ke_ResourceVersion cevt then None else scaling_record env [] cevt)"

definition isImagePullSecretEqual :: "SecretObject \<Rightarrow> SecretObject \<Rightarrow> bool" where
  "isImagePullSecretEqual a b =
     (if length (sk_Data a) \<noteq> length (sk_Data b) then False
      else list_all (\<lambda>(key, av). map_of (sk_Data b) key = Some av) (sk_Data a))"

definition filterOutNotKatoNamespace :: "k8s_object \<Rightarrow> bool" where
  "filterOutNotKatoNamespace ns \<longleftrightarrow> label ns ''creator'' = ''Kato'' \<or> length (ko_Name ns) = 32"

text \<open>\<open>name\<close> is the value of the environment variable for the secret's name, \<open>rbd\<close> the namespace of the
  platform; the result is what is asked of the API, \<open>None\<close> an error.\<close>

definition createOrUpdateImagePullSecret :: "store_env \<Rightarrow> string \<Rightarrow> string \<Rightarrow> string \<Rightarrow> effect list option" where
  "createOrUpdateImagePullSecret env name rbd ns =
     (if name = [] then Some []
      else
        (case se_Secret env rbd name of
           Found rawSecret \<Rightarrow>
             (case se_Secret env ns name of
                NotFound \<Rightarrow>
                  Some [CreateSecret \<lparr>ko_Name = ko_Name rawSecret, ko_Namespace = ns, ko_ResourceVersion = [], ko_Labels = [],
                          ko_Annotations = [], ko_CreationTimestamp = 0, ko_UID = [], ko_Body = 0, sk_Data = sk_Data rawSecret,
                          sk_Type = sk_Type rawSecret\<rparr>]
              | ListerError \<Rightarrow> None
              | Found curSecret \<Rightarrow>
                  if isImagePullSecretEqual rawSecret curSecret then Some []
                  else Some [UpdateSecret (curSecret\<lparr>sk_Data := sk_Data rawSecret\<rparr>)])
         | _ \<Rightarrow> None))"

definition ns_UpdateFunc :: "store_env \<Rightarrow> string \<Rightarrow> string \<Rightarrow> k8s_object \<Rightarrow> bool \<Rightarrow> appRuntimeStore \<Rightarrow> appRuntimeStore" where
  "ns_UpdateFunc env name rbd ns terminating st =
     (if \<not> filterOutNotKatoNamespace ns then st
      else if terminating then st
      else (case createOrUpdateImagePullSecret env name rbd (ko_Name ns) of None \<Rightarrow> st | Some es \<Rightarrow> fold emit es st))"

end
