(* ===== verification/WkStoreFacts.thy ===== *)
theory WkStoreFacts
  imports WkStore
begin

text \<open>
  Facts on the cache of components: what a handler does to one collection of one component, and from it
  that the cache mirrors the objects of the cluster (\<open>mirrored\<close>).
\<close>

section \<open>Components of the database\<close>

text \<open>A component of the database that is deployed by the platform, in the namespace of its tenant.\<close>

definition component_row :: "store_env \<Rightarrow> string \<Rightarrow> TenantServices option" where
  "component_row env sid = (case GetServiceByID (se_db env) sid of Inr r \<Rightarrow> r | Inl _ \<Rightarrow> None)"

definition known :: "store_env \<Rightarrow> string \<Rightarrow> bool" where
  "known env sid =
     (case component_row env sid of
        None \<Rightarrow> False
      | Some row \<Rightarrow>
          ts_Kind row \<noteq> ServiceKindThirdParty \<and>
          (case GetTenantByUUID (se_db env) (ts_TenantID row) of Inr (Some t) \<Rightarrow> tn_UUID t \<noteq> [] | _ \<Rightarrow> False) \<and>
          (case GetAppGovernanceMode (se_db env) sid of Inl err \<Rightarrow> err = ErrApplicationNotFound | Inr _ \<Rightarrow> True))"

definition home :: "store_env \<Rightarrow> string \<Rightarrow> string" where
  "home env sid = (case component_row env sid of Some row \<Rightarrow> ts_TenantID row | None \<Rightarrow> [])"

definition collections ::
  "AppService \<Rightarrow> ServiceObject list \<times> IngressObject list \<times> SecretObject list \<times> k8s_object list \<times> Pod list \<times> HPAObject list \<times>
     ReplicaSetObject list \<times> EndpointsObject list" where
  "collections a =
     (as_services a, as_ingresses a, as_secrets a, as_configMaps a, as_pods a, as_hpas a, as_replicasets a, as_endpoints a)"

lemma calculate_fields [simp]:
  "collections (calculateComponentMemoryRequest a) = collections a"
  "as_ServiceID (calculateComponentMemoryRequest a) = as_ServiceID a"
  by (simp_all add: calculateComponentMemoryRequest_def collections_def Let_def split: prod.splits option.splits)

lemma set_version_fields [simp]: "collections (set_version d a) = collections a" "as_ServiceID (set_version d a) = as_ServiceID a"
  by (simp_all add: set_version_def collections_def split: option.splits)

lemma collections_upd [simp]:
  "collections (a\<lparr>as_deployment := d\<rparr>) = collections a" "collections (a\<lparr>as_statefulset := d\<rparr>) = collections a"
  "collections (a\<lparr>as_Replicas := r\<rparr>) = collections a" "collections (a\<lparr>as_ServiceType := t\<rparr>) = collections a"
  "collections (a\<lparr>as_IsWindowsService := w\<rparr>) = collections a" "collections (a\<lparr>as_tenant := n\<rparr>) = collections a"
  "collections (a\<lparr>as_GovernanceMode := m\<rparr>) = collections a" "collections (a\<lparr>as_TenantName := m\<rparr>) = collections a"
  "collections (a\<lparr>as_CreaterID := m\<rparr>) = collections a" "collections (a\<lparr>as_UpgradeMethod := m\<rparr>) = collections a"
  "collections (a\<lparr>as_ServiceAlias := m\<rparr>) = collections a" "collections (a\<lparr>as_ContainerMemory := i\<rparr>) = collections a"
  "collections (a\<lparr>as_ContainerCPU := i\<rparr>) = collections a" "collections (a\<lparr>as_AppID := m\<rparr>) = collections a"
  "collections (a\<lparr>as_DeployVersion := m\<rparr>) = collections a" "collections (a\<lparr>as_TenantID := m\<rparr>) = collections a"
  "collections (a\<lparr>as_ServiceKind := m\<rparr>) = collections a" "collections (a\<lparr>as_ServiceID := m\<rparr>) = collections a"
  by (simp_all add: collections_def)

lemma SetDeployment_frame: "SetDeployment d a = Some a' \<Longrightarrow> collections a' = collections a \<and> as_ServiceID a' = as_ServiceID a"
  by (auto simp: SetDeployment_def Let_def split: option.splits)

lemma SetStatefulSet_frame: "SetStatefulSet d a = Some a' \<Longrightarrow> collections a' = collections a \<and> as_ServiceID a' = as_ServiceID a"
  by (auto simp: SetStatefulSet_def Let_def split: option.splits)

lemma initBase_frame:
  "initBaseDeployment a row = Some a' \<Longrightarrow> collections a' = collections a \<and> as_ServiceID a' = as_ServiceID a"
  "initBaseStatefulSet a row = Some a' \<Longrightarrow> collections a' = collections a \<and> as_ServiceID a' = as_ServiceID a"
  using SetDeployment_frame SetStatefulSet_frame by (fastforce simp: initBaseDeployment_def initBaseStatefulSet_def Let_def)+

lemma initBase_total: "initBaseDeployment a row \<noteq> None" "initBaseStatefulSet a row \<noteq> None"
  by (simp_all add: initBaseDeployment_def initBaseStatefulSet_def SetDeployment_def SetStatefulSet_def Let_def)

lemma with_governance_ok:
  assumes "\<And>err. GetAppGovernanceMode db sid = Inl err \<Longrightarrow> err = ErrApplicationNotFound"
  shows "\<exists>a'. with_governance db sid a = Inr a' \<and> collections a' = collections a \<and> as_ServiceID a' = as_ServiceID a"
  using assms by (auto simp: with_governance_def split: sum.splits option.splits)

lemma TenantServiceBase_ok:
  assumes "GetServiceByID db (as_ServiceID a) = Inr (Some row)" "ts_Kind row \<noteq> ServiceKindThirdParty"
    and "GetTenantByUUID db (ts_TenantID row) = Inr (Some t)" "tn_UUID t \<noteq> []"
  shows "\<exists>a'. TenantServiceBase nv a db = Some (Inr a') \<and> collections a' = collections a \<and> as_ServiceID a' = as_ServiceID a"
proof -
  define i where "i b = (if \<not> ts_IsState row then initBaseDeployment b row else initBaseStatefulSet b row)" for b
  have i: "\<exists>a'. i b = Some a'" "i b = Some a' \<Longrightarrow> collections a' = collections b \<and> as_ServiceID a' = as_ServiceID b" for b a'
    using initBase_total initBase_frame by (auto simp: i_def split: if_splits)
  obtain b where b: "TenantServiceBase nv a db = map_option Inr (i b)" "collections b = collections a" "as_ServiceID b = as_ServiceID a"
    using assms by (simp add: TenantServiceBase_def initTenant_def SetTenant_def Let_def i_def)
  with i [of b] show ?thesis by auto
qed

lemma InitCacheAppService_ok:
  assumes "known env sid"
  shows "\<exists>a. InitCacheAppService ex nv (se_db env) sid cid = Some (Inr a) \<and> as_ServiceID a = sid \<and>
     collections a = ([], [], [], [], [], [], [], [])"
proof -
  obtain row t where row: "GetServiceByID (se_db env) sid = Inr (Some row)" "ts_Kind row \<noteq> ServiceKindThirdParty"
      "GetTenantByUUID (se_db env) (ts_TenantID row) = Inr (Some t)" "tn_UUID t \<noteq> []"
    and g: "\<And>err. GetAppGovernanceMode (se_db env) sid = Inl err \<Longrightarrow> err = ErrApplicationNotFound"
    using assms by (auto simp: known_def component_row_def split: option.splits sum.splits)
  obtain a1 where a1: "with_governance (se_db env) sid
       (zero_AppService\<lparr>as_ServiceID := sid, as_CreaterID := cid, as_GovernanceMode := GovernanceModeBuildInServiceMesh\<rparr>) = Inr a1"
      "as_ServiceID a1 = sid" "collections a1 = ([], [], [], [], [], [], [], [])"
    using with_governance_ok [of "se_db env" sid "zero_AppService\<lparr>as_ServiceID := sid, as_CreaterID := cid, as_GovernanceMode := GovernanceModeBuildInServiceMesh\<rparr>"] g
    by (auto simp: collections_def zero_AppService_def)
  then show ?thesis
    using TenantServiceBase_ok [of "se_db env" a1 row t nv] row by (auto simp: InitCacheAppService_def)
qed

lemma TenantServiceBase_id: "TenantServiceBase nv a db = Some (Inr a') \<Longrightarrow> as_ServiceID a' = as_ServiceID a"
  using initBase_frame
  by (fastforce simp: TenantServiceBase_def initTenant_def SetTenant_def Let_def split: sum.splits option.splits if_splits)

lemma fold_setters_id:
  "as_ServiceID (fold SetService l a) = as_ServiceID a" "as_ServiceID (fold SetIngress is a) = as_ServiceID a"
  "as_ServiceID (fold SetSecret ss a) = as_ServiceID a"
proof -
  show "as_ServiceID (fold SetService l a) = as_ServiceID a" by (induction l arbitrary: a) (simp_all add: SetService_def)
  show "as_ServiceID (fold SetIngress is a) = as_ServiceID a" by (induction "is" arbitrary: a) (simp_all add: SetIngress_def)
  show "as_ServiceID (fold SetSecret ss a) = as_ServiceID a" by (induction ss arbitrary: a) (simp_all add: SetSecret_def split: option.splits)
qed

lemma TenantServiceRegist_id: "TenantServiceRegist ex a db = Some (Inr a') \<Longrightarrow> as_ServiceID a' = as_ServiceID a"
  by (auto simp: TenantServiceRegist_def fold_setters_id Let_def split: sum.splits option.splits)

lemma InitCacheAppService_id:
  assumes "InitCacheAppService ex nv db sid cid = Some (Inr a)"
  shows "as_ServiceID a = sid"
proof -
  have g: "with_governance db sid b = Inr a1 \<Longrightarrow> as_ServiceID a1 = as_ServiceID b" for a1 b
    by (auto simp: with_governance_def split: sum.splits option.splits if_splits)
  show ?thesis
    using assms by (auto simp: InitCacheAppService_def dest!: g TenantServiceBase_id TenantServiceRegist_id split: sum.splits option.splits if_splits)
qed

section \<open>One collection of one component\<close>

definition items_at :: "(AppService \<Rightarrow> 'i list) \<Rightarrow> appRuntimeStore \<Rightarrow> string \<Rightarrow> 'i list" where
  "items_at items st sid = (case map_of (ss_appServices st) sid of None \<Rightarrow> [] | Some a \<Rightarrow> items a)"

lemma items_at_frame [simp]:
  "items_at items (emit e st) sid = items_at items st sid"
  "items_at items (SetPodResource pod st) sid = items_at items st sid"
  "items_at items (RemovePod pod st) sid = items_at items st sid"
  "items_at items (notify_pod pod st) sid = items_at items st sid"
  "items_at items (probe pe st) sid = items_at items st sid"
  "items_at items (delete_orphan k x st) sid = items_at items st sid"
  by (simp_all add: items_at_def emit_def SetPodResource_def RemovePod_def notify_pod_def probe_def delete_orphan_def Let_def split: option.splits)

lemma items_at_effects [simp]: "items_at items (fold emit es st) sid = items_at items st sid"
  by (induction es arbitrary: st) simp_all

lemma items_at_put [simp]: "items_at items (put_app i a st) sid = (if sid = i then items a else items_at items st sid)"
  by (simp add: items_at_def put_app_def)

text \<open>A new component has empty collections.\<close>

definition fresh_items :: "store_env \<Rightarrow> (AppService \<Rightarrow> 'i list) \<Rightarrow> bool" where
  "fresh_items env items \<longleftrightarrow>
     (\<forall>sid cid a. known env sid \<longrightarrow> InitCacheAppService (se_exDomain env) (se_newVersion env) (se_db env) sid cid = Some (Inr a) \<longrightarrow> items a = [])"

lemma getAppService_known:
  assumes "known env i" "fresh_items env items" "getAppService env i cid creator st = Some (r, st1)"
  shows "items_at items st1 sid = items_at items st sid \<and>
    (case r of Inr (Some a) \<Rightarrow> items a = items_at items st i | Inr None \<Rightarrow> \<not> creator \<and> items_at items st i = [] | Inl _ \<Rightarrow> False)"
proof (cases "map_of (ss_appServices st) i")
  case (Some a)
  then show ?thesis using assms(3) by (auto simp: getAppService_def GetAppService_def items_at_def)
next
  case None
  obtain a where a: "InitCacheAppService (se_exDomain env) (se_newVersion env) (se_db env) i cid = Some (Inr a)" "as_ServiceID a = i"
    using InitCacheAppService_ok [OF assms(1)] by blast
  moreover from a assms(1,2) have "items a = []" unfolding fresh_items_def by blast
  ultimately show ?thesis
    using None assms(3) by (cases creator) (auto simp: getAppService_def GetAppService_def items_at_def RegistAppService_def)
qed

lemma getAppService_other:
  assumes "known env sid" "fresh_items env items" "getAppService env i cid creator st = Some (r, st1)"
  shows "items_at items st1 sid = items_at items st sid"
proof (cases "i = sid")
  case True
  then show ?thesis using getAppService_known [OF assms(1,2)] assms(3) by blast
next
  case False
  show ?thesis
  proof (cases "\<exists>a. InitCacheAppService (se_exDomain env) (se_newVersion env) (se_db env) i cid = Some (Inr a)")
    case True
    then obtain a where a: "InitCacheAppService (se_exDomain env) (se_newVersion env) (se_db env) i cid = Some (Inr a)" by blast
    then have "as_ServiceID a = i" by (rule InitCacheAppService_id)
    with a False assms(3) show ?thesis
      by (auto simp: getAppService_def GetAppService_def items_at_def RegistAppService_def split: option.splits if_splits)
  next
    case no: False
    with False assms(3) show ?thesis
      by (auto simp: getAppService_def GetAppService_def split: option.splits if_splits sum.splits)
  qed
qed

text \<open>The two branches: what they do to the collection of a component of the platform.\<close>

lemma add_object_items:
  assumes "add_object env nv orphan x store after st = Some st'" "known env sid" "fresh_items env items"
    and "\<And>a a'. store a = Some a' \<Longrightarrow> items a' = f (items a)" "owned nv x \<Longrightarrow> known env (label x ''service_id'')"
  shows "items_at items st' sid = (if owned nv x \<and> label x ''service_id'' = sid then f (items_at items st sid) else items_at items st sid)"
proof (cases "owned nv x")
  case True
  obtain r st1 where r: "getAppService env (label x ''service_id'') (label x ''creater_id'') True st = Some (r, st1)"
    using True assms(1) by (auto simp: add_object_def split: option.splits)
  note k = getAppService_known [OF assms(5) [OF True] assms(3) r]
  obtain a a' where a: "r = Inr (Some a)" "store a = Some a'" "st' = fold emit (after a') (put_app (label x ''service_id'') a' st1)"
    using True assms(1) r k [of sid] by (auto simp: add_object_def split: option.splits sum.splits)
  from k have "items a = items_at items st (label x ''service_id'')" "items_at items st1 sid = items_at items st sid" by (auto simp: a)
  with True assms(4) [OF a(2)] show ?thesis by (auto simp: a(3))
next
  case False
  then show ?thesis using assms(1) by (simp add: add_object_def)
qed

lemma del_object_items:
  assumes "del_object env nv creator closed x del st = Some (st', b)" "known env sid" "fresh_items env items"
    and "\<And>a. items (del a) = f (items a)" "f [] = []" "owned nv x \<Longrightarrow> known env (label x ''service_id'')"
  shows "items_at items st' sid = (if owned nv x \<and> label x ''service_id'' = sid then f (items_at items st sid) else items_at items st sid)"
proof (cases "owned nv x")
  case True
  obtain r st1 where r: "getAppService env (label x ''service_id'') (label x ''creater_id'') creator st = Some (r, st1)"
    using True assms(1) by (auto simp: del_object_def split: option.splits)
  note k = getAppService_known [OF assms(6) [OF True] assms(3) r]
  show ?thesis
  proof (cases "\<exists>a. r = Inr (Some a)")
    case some: True
    then obtain a where a: "r = Inr (Some a)" "st' = put_app (label x ''service_id'') (del a) st1"
      using True assms(1) r by (auto simp: del_object_def DeleteAppService_def Let_def)
    from k have "items a = items_at items st (label x ''service_id'')" "items_at items st1 sid = items_at items st sid" by (auto simp: a)
    with True assms(4) [of a] show ?thesis by (auto simp: a(2))
  next
    case none: False
    with k [of sid] have e: "items_at items st (label x ''service_id'') = []" "items_at items st1 sid = items_at items st sid" "r = Inr None"
      by (auto split: sum.splits option.splits)
    then have "st' = st1" using True assms(1) r by (simp add: del_object_def)
    with True e assms(5) show ?thesis by auto
  qed
next
  case False
  then show ?thesis using assms(1) by (simp add: del_object_def)
qed

section \<open>The objects of the cluster\<close>

fun kind_name :: "kobj \<Rightarrow> string" where
  "kind_name (KThirdComponent x) = ''ThirdComponent''"
| "kind_name (KDeployment x) = ''Deployment''"
| "kind_name (KStatefulSet x) = ''StatefulSet''"
| "kind_name (KReplicaSet x) = ''ReplicaSet''"
| "kind_name (KSecret x) = ''Secret''"
| "kind_name (KService x) = ''Service''"
| "kind_name (KIngress x) = ''Ingress''"
| "kind_name (KConfigMap x) = ''ConfigMap''"
| "kind_name (KHPA x) = ''HorizontalPodAutoscaler''"
| "kind_name (KStorageClass x) = ''StorageClass''"
| "kind_name (KClaim x) = ''PersistentVolumeClaim''"
| "kind_name (KServiceMonitor x) = ''ServiceMonitor''"
| "kind_name (KEndpoints x) = ''Endpoints''"
| "kind_name (KPod x) = ''Pod''"
| "kind_name DeletedFinalStateUnknown = []"

fun meta :: "kobj \<Rightarrow> k8s_object" where
  "meta (KThirdComponent x) = k8s_object.truncate x"
| "meta (KDeployment x) = k8s_object.truncate x"
| "meta (KStatefulSet x) = k8s_object.truncate x"
| "meta (KReplicaSet x) = k8s_object.truncate x"
| "meta (KSecret x) = k8s_object.truncate x"
| "meta (KService x) = k8s_object.truncate x"
| "meta (KIngress x) = k8s_object.truncate x"
| "meta (KConfigMap x) = k8s_object.truncate x"
| "meta (KHPA x) = k8s_object.truncate x"
| "meta (KStorageClass x) = (k8s_object.truncate x)\<lparr>ko_Labels := []\<rparr>"
| "meta (KClaim x) = k8s_object.truncate x"
| "meta (KServiceMonitor x) = k8s_object.truncate x"
| "meta (KEndpoints x) = k8s_object.truncate x"
| "meta (KPod x) = k8s_object.truncate x"
| "meta DeletedFinalStateUnknown =
     \<lparr>ko_Name = [], ko_Namespace = [], ko_ResourceVersion = [], ko_Labels = [], ko_Annotations = [], ko_CreationTimestamp = 0, ko_UID = [], ko_Body = 0\<rparr>"

fun needs_version :: "kobj \<Rightarrow> bool" where
  "needs_version (KDeployment x) = True"
| "needs_version (KStatefulSet x) = True"
| "needs_version (KReplicaSet x) = True"
| "needs_version (KHPA x) = True"
| "needs_version (KPod x) = True"
| "needs_version _ = False"

definition obj_key :: "kobj \<Rightarrow> string \<times> string \<times> string" where
  "obj_key x = (kind_name x, ko_Namespace (meta x), ko_Name (meta x))"

definition owner :: "kobj \<Rightarrow> string" where
  "owner x = label (meta x) ''service_id''"

definition owned_obj :: "kobj \<Rightarrow> bool" where
  "owned_obj x = owned (needs_version x) (meta x)"

lemma label_truncate [simp]: "label (k8s_object.truncate x) k = label x k"
  by (simp add: label_def k8s_object.truncate_def)

lemma owned_truncate [simp]: "owned nv (k8s_object.truncate x) = owned nv x"
  by (simp add: owned_def)

lemma truncate_meta [simp]:
  "ko_Name (k8s_object.truncate x) = ko_Name x" "ko_Namespace (k8s_object.truncate x) = ko_Namespace x"
  by (simp_all add: k8s_object.truncate_def)

lemma owned_owner: "owned_obj x \<Longrightarrow> owner x \<noteq> []"
  by (simp add: owned_obj_def owned_def owner_def)

text \<open>What a component's labels promise: it is in the database and the object is in its namespace.\<close>

definition valid_obj :: "store_env \<Rightarrow> kobj \<Rightarrow> bool" where
  "valid_obj env x \<longleftrightarrow> owner x \<noteq> [] \<longrightarrow> known env (owner x) \<and> ko_Namespace (meta x) = home env (owner x)"

text \<open>Objects keep their owner, apart from ingresses, which may move to another component.\<close>

definition same_owner :: "kobj \<Rightarrow> kobj \<Rightarrow> bool" where
  "same_owner old x \<longleftrightarrow> owner old = owner x \<and> owned_obj old = owned_obj x"

inductive store_run :: "store_env \<Rightarrow> kobj set \<Rightarrow> appRuntimeStore \<Rightarrow> bool" for env where
  start: "store_run env {} new_appRuntimeStore"
| added: "store_run env (insert x c) st'"
    if "store_run env c st" "obj_key x \<notin> obj_key ` c" "valid_obj env x" "handle env (Added x) st = Some st'"
| updated: "store_run env (insert x (c - {old})) st'"
    if "store_run env c st" "old \<in> c" "obj_key old = obj_key x" "valid_obj env x"
      "same_owner old x \<or> kind_name x = ''Ingress'' \<and> owner old \<noteq> owner x" "handle env (Updated old x) st = Some st'"
| deleted: "store_run env (c - {x}) st'"
    if "store_run env c st" "x \<in> c" "handle env (Deleted x) st = Some st'"

text \<open>The setters and deleters by kind.\<close>

fun store_of :: "store_env \<Rightarrow> kobj \<Rightarrow> AppService \<Rightarrow> AppService option" where
  "store_of env (KThirdComponent x) a = Some (se_SetWorkload env x a)"
| "store_of env (KDeployment x) a = SetDeployment x a"
| "store_of env (KStatefulSet x) a = SetStatefulSet x a"
| "store_of env (KReplicaSet x) a = Some (SetReplicaSets x a)"
| "store_of env (KSecret x) a = Some (SetSecret (Some x) a)"
| "store_of env (KService x) a = Some (SetService x a)"
| "store_of env (KIngress x) a = Some (SetIngress x a)"
| "store_of env (KConfigMap x) a = Some (SetConfigMap x a)"
| "store_of env (KHPA x) a = Some (SetHPA x a)"
| "store_of env (KClaim x) a = Some (SetClaim x a)"
| "store_of env (KServiceMonitor x) a = Some (SetServiceMonitor x a)"
| "store_of env (KEndpoints x) a = Some (AddEndpoints x a)"
| "store_of env (KPod x) a = Some (SetPods x a)"
| "store_of env _ a = Some a"

fun drop_of :: "store_env \<Rightarrow> kobj \<Rightarrow> AppService \<Rightarrow> AppService" where
  "drop_of env (KThirdComponent x) a = se_DeleteWorkload env x a"
| "drop_of env (KDeployment x) a = DeleteDeployment a"
| "drop_of env (KStatefulSet x) a = DeleteStatefulSet a"
| "drop_of env (KReplicaSet x) a = DeleteReplicaSet x a"
| "drop_of env (KSecret x) a = DeleteSecrets x a"
| "drop_of env (KService x) a = DeleteServices x a"
| "drop_of env (KIngress x) a = DeleteIngress x a"
| "drop_of env (KConfigMap x) a = DeleteConfigMaps x a"
| "drop_of env (KHPA x) a = DelHPA x a"
| "drop_of env (KClaim x) a = DeleteClaim x a"
| "drop_of env (KServiceMonitor x) a = DeleteServiceMonitor x a"
| "drop_of env (KEndpoints x) a = DelEndpoints x a"
| "drop_of env (KPod x) a = DeletePods x a"
| "drop_of env _ a = a"

text \<open>The setters of custom workloads, which are not in the repository, leave the collections alone.\<close>

definition workloads_apart :: "store_env \<Rightarrow> bool" where
  "workloads_apart env \<longleftrightarrow>
     (\<forall>x a. collections (se_SetWorkload env x a) = collections a \<and> collections (se_DeleteWorkload env x a) = collections a)"

lemma ep_add_items:
  assumes "ep_add env ep after st = Some st'" "known env sid" "fresh_items env items"
    and "\<And>a. items (AddEndpoints ep a) = f (items a)" "owned False ep \<Longrightarrow> known env (label ep ''service_id'')"
    and "\<And>i st. items_at items (after i st) sid = items_at items st sid"
  shows "items_at items st' sid = (if owned False ep \<and> label ep ''service_id'' = sid then f (items_at items st sid) else items_at items st sid)"
proof (cases "owned False ep")
  case True
  obtain r st1 where r: "getAppService env (label ep ''service_id'') (label ep ''creater_id'') True st = Some (r, st1)"
    using True assms(1) by (auto simp: ep_add_def split: option.splits)
  note k = getAppService_known [OF assms(5) [OF True] assms(3) r]
  obtain a where a: "r = Inr (Some a)" "st' = after (label ep ''service_id'') (put_app (label ep ''service_id'') (AddEndpoints ep a) st1)"
    using True assms(1) r k [of sid] by (auto simp: ep_add_def split: option.splits sum.splits)
  from k have "items a = items_at items st (label ep ''service_id'')" "items_at items st1 sid = items_at items st sid" by (auto simp: a)
  with True assms(4) [of a] show ?thesis by (auto simp: a(2) assms(6))
next
  case False
  then show ?thesis using assms(1) by (simp add: ep_add_def)
qed

text \<open>The branches of \<open>OnAdd\<close> and \<open>OnDeletes\<close> in one form.\<close>

fun orphan_of :: "store_env \<Rightarrow> kobj \<Rightarrow> client_kind option" where
  "orphan_of env (KDeployment x) = Some Deployments"
| "orphan_of env (KStatefulSet x) = Some StatefulSets"
| "orphan_of env (KReplicaSet x) = Some Deployments"
| "orphan_of env (KSecret x) = Some Secrets"
| "orphan_of env (KService x) = Some Services"
| "orphan_of env (KIngress x) = Some Ingresses"
| "orphan_of env (KConfigMap x) = Some ConfigMaps"
| "orphan_of env (KHPA x) = Some HorizontalPodAutoscalers"
| "orphan_of env (KClaim x) = Some PersistentVolumeClaims"
| "orphan_of env (KServiceMonitor x) = (if se_ServiceMonitorClient env then Some ServiceMonitors else None)"
| "orphan_of env _ = None"

fun after_of :: "kobj \<Rightarrow> AppService \<Rightarrow> effect list" where
  "after_of (KReplicaSet x) a = checkReplicasetWhetherDelete x a"
| "after_of _ a = []"

definition own_handler :: "kobj \<Rightarrow> bool" where
  "own_handler x \<longleftrightarrow> kind_name x \<in> {''Pod'', ''Endpoints'', ''StorageClass'', []}"

lemma add_object_truncate [simp]: "add_object env nv k (k8s_object.truncate x) store after st = add_object env nv k x store after st"
  unfolding add_object_def label_truncate owned_truncate delete_orphan_def truncate_meta ..

lemma del_object_truncate [simp]: "del_object env nv cr cl (k8s_object.truncate x) del st = del_object env nv cr cl x del st"
  unfolding del_object_def label_truncate owned_truncate ..

lemma OnAdd_uniform:
  "\<not> own_handler x \<Longrightarrow> OnAdd env x st = add_object env (needs_version x) (orphan_of env x) (meta x) (store_of env x) (after_of x) st"
  by (cases x) (simp_all add: own_handler_def fun_eq_iff [symmetric] store_of.simps [abs_def] after_of.simps [abs_def])

lemma OnAdd_items:
  assumes "OnAdd env x st = Some st'" "known env sid" "fresh_items env items" "valid_obj env x"
    and "\<And>a a'. store_of env x a = Some a' \<Longrightarrow> items a' = f (items a)" "kind_name x \<noteq> ''Pod''" "kind_name x \<noteq> ''Endpoints''"
  shows "items_at items st' sid = (if owned_obj x \<and> owner x = sid then f (items_at items st sid) else items_at items st sid)"
proof (cases "own_handler x")
  case False
  have k: "owned_obj x \<Longrightarrow> known env (owner x)" using assms(4) owned_owner by (auto simp: valid_obj_def)
  show ?thesis
    unfolding owned_obj_def owner_def
    by (rule add_object_items [OF assms(1) [unfolded OnAdd_uniform [OF False]] assms(2,3)]) (use assms(5) k in \<open>auto simp: owned_obj_def owner_def\<close>)
next
  case True
  then have "(\<exists>y. x = KStorageClass y) \<or> x = DeletedFinalStateUnknown" using assms(6,7) by (cases x) (simp_all add: own_handler_def)
  then show ?thesis using assms(1) by (auto simp: items_at_def owned_obj_def owned_def label_def map_str_def Let_def)
qed

lemma Added_items:
  assumes "handle env (Added x) st = Some st'" "known env sid" "fresh_items env items" "valid_obj env x"
    and "\<And>a a'. store_of env x a = Some a' \<Longrightarrow> items a' = f (items a)"
  shows "items_at items st' sid = (if owned_obj x \<and> owner x = sid then f (items_at items st sid) else items_at items st sid)"
proof -
  have k: "owned_obj x \<Longrightarrow> known env (owner x)" using assms(4) owned_owner by (auto simp: valid_obj_def)
  show ?thesis
  proof (cases "kind_name x = ''Pod'' \<or> kind_name x = ''Endpoints''")
    case False
    then have "OnAdd env x st = Some st'" using assms(1) by (cases x) simp_all
    then show ?thesis by (rule OnAdd_items [OF _ assms(2-4)]) (use assms(5) False in auto)
  next
    case True
    then show ?thesis
    proof (cases x)
      case (KPod p)
      have "items_at items st' sid = (if owned True p \<and> label p ''service_id'' = sid then f (items_at items (SetPodResource p st) sid)
          else items_at items (SetPodResource p st) sid)"
        by (rule add_object_items [OF _ assms(2,3)]) (use assms(1,5) k in \<open>auto simp: KPod pod_AddFunc_def owned_obj_def owner_def\<close>)
      then show ?thesis by (simp add: KPod owned_obj_def owner_def)
    next
      case (KEndpoints ep)
      have "items_at items st' sid = (if owned False ep \<and> label ep ''service_id'' = sid then f (items_at items st sid) else items_at items st sid)"
        by (rule ep_add_items [OF assms(1) [unfolded KEndpoints handle.simps endpoints_AddFunc_def] assms(2,3)])
          (use assms(5) k in \<open>auto simp: KEndpoints owned_obj_def owner_def\<close>)
      then show ?thesis by (simp add: KEndpoints owned_obj_def owner_def)
    qed simp_all
  qed
qed

text \<open>An update stores the new object, after it has left the old component.\<close>

lemma Updated_items:
  assumes "handle env (Updated old x) st = Some st'" "known env sid" "fresh_items env items" "valid_obj env x"
    and "\<And>a a'. store_of env x a = Some a' \<Longrightarrow> items a' = f (items a)" "\<not> (kind_name x = ''Ingress'' \<and> owner old \<noteq> owner x)"
    and "kind_name old = kind_name x"
  shows "items_at items st' sid = (if owned_obj x \<and> owner x = sid then f (items_at items st sid) else items_at items st sid)"
proof -
  have k: "owned_obj x \<Longrightarrow> known env (owner x)" using assms(4) owned_owner by (auto simp: valid_obj_def)
  show ?thesis
  proof (cases "kind_name x = ''Pod'' \<or> kind_name x = ''Endpoints''")
    case False
    have "OnAdd env x st = Some st'"
    proof (cases "kind_name x = ''Ingress''")
      case True
      then obtain i o1 where "x = KIngress i" "old = KIngress o1" using assms(7) by (cases x; simp; cases old; simp)
      then show ?thesis using assms(1,6) True by (simp add: OnUpdate_def owner_def)
    next
      case no: False
      then show ?thesis using assms(1) False by (cases x) (simp_all add: OnUpdate_def)
    qed
    then show ?thesis by (rule OnAdd_items [OF _ assms(2-4)]) (use assms(5) False in auto)
  next
    case True
    then show ?thesis
    proof (cases x)
      case (KPod p)
      obtain st1 where st1: "add_object env True (Some Pods) p (\<lambda>a. Some (SetPods p a)) (\<lambda>_. []) (SetPodResource p st) = Some st1" "st' = notify_pod p st1"
        using assms(1) by (auto simp: KPod pod_UpdateFunc_def)
      have "items_at items st1 sid = (if owned True p \<and> label p ''service_id'' = sid then f (items_at items (SetPodResource p st) sid)
          else items_at items (SetPodResource p st) sid)"
        by (rule add_object_items [OF st1(1) assms(2,3)]) (use assms(5) k in \<open>auto simp: KPod owned_obj_def owner_def\<close>)
      then show ?thesis by (simp add: KPod owned_obj_def owner_def st1)
    next
      case (KEndpoints ep)
      have "items_at items st' sid = (if owned False ep \<and> label ep ''service_id'' = sid then f (items_at items st sid) else items_at items st sid)"
        by (rule ep_add_items [OF assms(1) [unfolded KEndpoints handle.simps endpoints_UpdateFunc_def] assms(2,3)])
          (use assms(5) k in \<open>auto simp: KEndpoints owned_obj_def owner_def\<close>)
      then show ?thesis by (simp add: KEndpoints owned_obj_def owner_def)
    qed simp_all
  qed
qed

lemma Moved_items:
  assumes "handle env (Updated (KIngress old) (KIngress x)) st = Some st'" "known env sid" "fresh_items env items"
    and "valid_obj env (KIngress old)" "valid_obj env (KIngress x)" "owner (KIngress old) \<noteq> owner (KIngress x)"
    and "\<And>a. items (SetIngress x a) = f (items a)" "\<And>a. items (DeleteIngress old a) = g (items a)" "g [] = []"
  shows "items_at items st' sid =
    (let l = (if owner (KIngress old) = sid then g (items_at items st sid) else items_at items st sid)
     in if owned_obj (KIngress x) \<and> owner (KIngress x) = sid then f l else l)"
proof -
  have ne: "label old ''service_id'' \<noteq> label x ''service_id''" using assms(6) by (simp add: owner_def)
  obtain r st1 where r: "getAppService env (label old ''service_id'') (label old ''creater_id'') True st = Some (r, st1)"
    using assms(1) ne by (auto simp: OnUpdate_def split: option.splits)
  have o: "items_at items st1 sid = items_at items st sid" by (rule getAppService_other [OF assms(2,3) r])
  define st2 where "st2 = (case r of Inr (Some app) \<Rightarrow> put_app (label old ''service_id'') (DeleteIngress old app) st1 | _ \<Rightarrow> st1)"
  have add: "OnAdd env (KIngress x) st2 = Some st'"
    using assms(1) ne r by (auto simp: OnUpdate_def st2_def split: sum.splits option.splits)
  have "items_at items st2 sid = (if owner (KIngress old) = sid then g (items_at items st sid) else items_at items st sid)"
  proof (cases "label old ''service_id'' = sid")
    case True
    with getAppService_known [OF _ assms(3) r, of sid] assms(2) o show ?thesis
      by (auto simp: st2_def owner_def assms(8) split: sum.splits option.splits)
  next
    case False
    then show ?thesis using o by (auto simp: st2_def owner_def split: sum.splits option.splits)
  qed
  moreover have "items_at items st' sid =
      (if owned_obj (KIngress x) \<and> owner (KIngress x) = sid then f (items_at items st2 sid) else items_at items st2 sid)"
    by (rule OnAdd_items [OF add assms(2,3,5)]) (simp_all add: assms(7) [symmetric])
  ultimately show ?thesis by (simp add: Let_def)
qed

lemma delete_one_uniform:
  "\<not> own_handler x \<Longrightarrow> kind_name x \<noteq> ''ThirdComponent'' \<Longrightarrow>
   delete_one env x st = del_object env (needs_version x) (kind_name x = ''ServiceMonitor'') (kind_name x \<noteq> ''ServiceMonitor'') (meta x) (drop_of env x) st"
  by (cases x) (simp_all add: own_handler_def fun_eq_iff [symmetric] drop_of.simps [abs_def])

lemma store_OnDelete_eq: "store_OnDelete env x st = map_option fst (delete_one env x st)"
  by (simp add: store_OnDelete_def split: option.splits)

lemma Deleted_items:
  assumes "handle env (Deleted x) st = Some st'" "known env sid" "fresh_items env items" "valid_obj env x"
    and "\<And>a. items (drop_of env x a) = f (items a)" "f [] = []" "kind_name x = ''ThirdComponent'' \<Longrightarrow> f = id"
  shows "items_at items st' sid = (if owned_obj x \<and> owner x = sid then f (items_at items st sid) else items_at items st sid)"
proof -
  have k: "owned_obj x \<Longrightarrow> known env (owner x)" using assms(4) owned_owner by (auto simp: valid_obj_def)
  note d = del_object_items [OF _ assms(2,3), where f = f, OF _ _ assms(6)]
  show ?thesis
  proof (cases "own_handler x \<or> kind_name x = ''ThirdComponent''")
    case False
    then have "store_OnDelete env x st = Some st'" using assms(1) by (cases x) (simp_all add: own_handler_def)
    then obtain b where b: "del_object env (needs_version x) (kind_name x = ''ServiceMonitor'') (kind_name x \<noteq> ''ServiceMonitor'') (meta x) (drop_of env x) st = Some (st', b)"
      using False by (auto simp: store_OnDelete_eq delete_one_uniform)
    show ?thesis
      unfolding owned_obj_def owner_def by (rule d [OF b]) (use assms(5) k in \<open>auto simp: owned_obj_def owner_def\<close>)
  next
    case True
    then show ?thesis
    proof (cases x)
      case (KThirdComponent y)
      obtain b where b: "del_object env True True True y (se_DeleteWorkload env y) st = Some (st', b)"
        using assms(1) by (auto simp: KThirdComponent store_OnDelete_eq)
      have "items_at items st' sid = (if owned True y \<and> label y ''service_id'' = sid then f (items_at items st sid) else items_at items st sid)"
        by (rule d [OF b]) (use assms(5) k in \<open>auto simp: KThirdComponent owned_obj_def owner_def owned_def\<close>)
      then show ?thesis using assms(7) by (simp add: KThirdComponent)
    next
      case (KPod p)
      obtain b where b: "del_object env True False True p (DeletePods p) (RemovePod p st) = Some (st', b)"
        using assms(1) by (auto simp: KPod pod_DeleteFunc_def)
      have "items_at items st' sid = (if owned True p \<and> label p ''service_id'' = sid then f (items_at items (RemovePod p st) sid) else items_at items (RemovePod p st) sid)"
        by (rule d [OF b]) (use assms(5) k in \<open>auto simp: KPod owned_obj_def owner_def\<close>)
      then show ?thesis by (simp add: KPod owned_obj_def owner_def)
    next
      case (KEndpoints ep)
      obtain b st1 where b: "del_object env False False True ep (DelEndpoints ep) st = Some (st1, b)"
        and st1: "items_at items st' sid = items_at items st1 sid"
        using assms(1) by (auto simp: KEndpoints endpoints_DeleteFunc_def split: option.splits bool.splits if_splits)
      have "items_at items st1 sid = (if owned False ep \<and> label ep ''service_id'' = sid then f (items_at items st sid) else items_at items st sid)"
        by (rule d [OF b]) (use assms(5) k in \<open>auto simp: KEndpoints owned_obj_def owner_def\<close>)
      then show ?thesis by (simp add: KEndpoints owned_obj_def owner_def st1)
    next
      case (KStorageClass y)
      then show ?thesis using assms(1) by (auto simp: store_OnDelete_eq owned_obj_def owned_def label_def map_str_def)
    next
      case DeletedFinalStateUnknown
      then show ?thesis using assms(1) by (simp add: store_OnDelete_eq owned_obj_def owned_def label_def map_str_def)
    qed (simp_all add: own_handler_def)
  qed
qed

section \<open>The cache mirrors the cluster\<close>

lemma set_set_named:
  "distinct (names xs) \<Longrightarrow> set (set_named d xs) = insert d {x \<in> set xs. ko_Name x \<noteq> ko_Name d}"
proof -
  have r: "distinct (names xs) \<Longrightarrow> replace_named d xs = Some ys \<Longrightarrow> set ys = insert d {x \<in> set xs. ko_Name x \<noteq> ko_Name d}" for ys
  proof (induction xs arbitrary: ys)
    case (Cons x xs)
    show ?case
    proof (cases "ko_Name x = ko_Name d")
      case True
      with Cons.prems have "ko_Name d \<notin> ko_Name ` set xs" by simp
      then have "\<forall>y \<in> set xs. ko_Name y \<noteq> ko_Name d" by (metis imageI)
      with True Cons.prems show ?thesis by auto
    next
      case False
      with Cons show ?thesis by auto
    qed
  qed simp
  assume d: "distinct (names xs)"
  show ?thesis
  proof (cases "replace_named d xs")
    case None
    then have "ko_Name d \<notin> ko_Name ` set xs" by (simp add: replace_named_None)
    then have "\<forall>y \<in> set xs. ko_Name y \<noteq> ko_Name d" by (metis imageI)
    with None show ?thesis by (auto simp: set_named_def)
  next
    case (Some ys)
    with r d show ?thesis by (simp add: set_named_def)
  qed
qed

lemma set_delete_named:
  "distinct (names xs) \<Longrightarrow> set (delete_named d xs) = {x \<in> set xs. ko_Name x \<noteq> ko_Name d}"
  by (induction xs) (auto simp: image_iff split: if_splits)

lemma distinct_delete_named: "distinct (names xs) \<Longrightarrow> distinct (names (delete_named d xs))"
  by (simp add: names_delete_named)

lemma store_run_wf:
  assumes "store_run env c st"
  shows "inj_on obj_key c \<and> (\<forall>x \<in> c. valid_obj env x)"
  using assms
proof induction
  case (updated c st old x st')
  then have "obj_key x \<notin> obj_key ` (c - {old})" by (metis (no_types, lifting) inj_on_image_set_diff DiffD2 Diff_subset empty_subsetI image_insert insertI1 insert_subset)
  with updated show ?case by (auto intro: inj_on_subset)
qed (auto intro: inj_on_subset simp: inj_on_insert)

locale mirrored =
  fixes items :: "AppService \<Rightarrow> 'a k8s_object_scheme list" and inj :: "'a k8s_object_scheme \<Rightarrow> kobj"
    and sel :: "kobj \<Rightarrow> 'a k8s_object_scheme option" and kind :: string and nv :: bool
  assumes sel: "sel x = Some d \<longleftrightarrow> x = inj d"
    and meta: "meta (inj d) = k8s_object.truncate d" and version: "needs_version (inj d) = nv"
    and kind: "kind_name x = kind \<longleftrightarrow> sel x \<noteq> None" "kind \<noteq> ''ThirdComponent''"
    and fresh: "collections a = ([], [], [], [], [], [], [], []) \<Longrightarrow> items a = []"
    and stored: "workloads_apart env \<Longrightarrow> store_of env x a = Some a' \<Longrightarrow>
      items a' = (case sel x of Some d \<Rightarrow> set_named d (items a) | None \<Rightarrow> items a)"
    and dropped: "workloads_apart env \<Longrightarrow>
      items (drop_of env x a) = (case sel x of Some d \<Rightarrow> delete_named d (items a) | None \<Rightarrow> items a)"
begin

lemma fresh_items: "fresh_items env items"
  unfolding fresh_items_def
proof (intro allI impI)
  fix sid cid a
  assume "known env sid" "InitCacheAppService (se_exDomain env) (se_newVersion env) (se_db env) sid cid = Some (Inr a)"
  with InitCacheAppService_ok [of env sid "se_exDomain env" "se_newVersion env" cid] show "items a = []"
    using fresh [of a] by auto
qed

lemma owned_inj [simp]: "owned_obj (inj d) = owned nv d" "owner (inj d) = label d ''service_id''"
  by (simp_all add: owned_obj_def owner_def meta version)

lemma inj_eq [simp]: "inj d = inj d' \<longleftrightarrow> d = d'"
  using sel by (metis option.inject)

lemma sel_inj [simp]: "sel (inj d) = Some d"
  by (simp add: sel)

lemma key_inj: "obj_key (inj d) = (kind, ko_Namespace d, ko_Name d)"
  using kind(1) [of "inj d"] by (simp add: obj_key_def meta)

lemma same_key:
  assumes "store_run env c st" "inj y \<in> c" "inj z \<in> c" "label y ''service_id'' = sid" "label z ''service_id'' = sid" "sid \<noteq> []"
    and "ko_Name y = ko_Name z"
  shows "y = z"
proof -
  note w = store_run_wf [OF assms(1)]
  have "ko_Namespace y = home env sid" "ko_Namespace z = home env sid"
    using w assms(2-6) unfolding valid_obj_def by (metis owned_inj(2) meta truncate_meta(2))+
  then have "obj_key (inj y) = obj_key (inj z)" using assms(7) by (simp add: key_inj)
  then show ?thesis using w assms(2,3) by (auto dest: inj_onD)
qed

definition objects :: "kobj set \<Rightarrow> string \<Rightarrow> 'a k8s_object_scheme set" where
  "objects c sid = {d. inj d \<in> c \<and> owned nv d \<and> label d ''service_id'' = sid}"

lemma mirror_added:
  assumes run: "store_run env c st" and m: "distinct (names (items_at items st sid))" "set (items_at items st sid) = objects c sid"
    and st': "handle env (Added x) st = Some st'" "known env sid" "sid \<noteq> []" "valid_obj env x" "obj_key x \<notin> obj_key ` c" "workloads_apart env"
  shows "distinct (names (items_at items st' sid)) \<and> set (items_at items st' sid) = objects (insert x c) sid"
proof -
  note i = Added_items [OF st'(1,2) fresh_items st'(4), where f = "\<lambda>l. case sel x of Some d \<Rightarrow> set_named d l | None \<Rightarrow> l", OF stored [OF st'(6)]]
  show ?thesis
  proof (cases "sel x")
    case None
    then have "objects (insert x c) sid = objects c sid" by (auto simp: objects_def)
    with i None m show ?thesis by simp
  next
    case (Some d)
    then have x: "x = inj d" by (simp add: sel)
    have new: "ko_Name y \<noteq> ko_Name d" if "y \<in> objects c sid" "label d ''service_id'' = sid" for y
    proof
      assume "ko_Name y = ko_Name d"
      moreover have "ko_Namespace y = home env sid" "ko_Namespace d = home env sid"
        using that st'(3,4) store_run_wf [OF run] unfolding objects_def x valid_obj_def mem_Collect_eq by (metis owned_inj(2) meta truncate_meta(2))+
      ultimately have "obj_key x = obj_key (inj y)" by (simp add: x key_inj)
      then show False using st'(5) that by (auto simp: objects_def)
    qed
    have "objects (insert x c) sid = (if owned nv d \<and> label d ''service_id'' = sid then insert d (objects c sid) else objects c sid)"
      by (auto simp: objects_def x)
    with i m new show ?thesis by (auto simp: x set_set_named distinct_set_named)
  qed
qed

lemma mirror_deleted:
  assumes run: "store_run env c st" and m: "distinct (names (items_at items st sid))" "set (items_at items st sid) = objects c sid"
    and st': "handle env (Deleted x) st = Some st'" "known env sid" "sid \<noteq> []" "x \<in> c" "workloads_apart env"
  shows "distinct (names (items_at items st' sid)) \<and> set (items_at items st' sid) = objects (c - {x}) sid"
proof -
  have v: "valid_obj env x" using store_run_wf [OF run] st'(4) by blast
  have third: "sel x = None" if "kind_name x = ''ThirdComponent''" using that kind by metis
  have i: "items_at items st' sid = (if owned_obj x \<and> owner x = sid then (case sel x of Some d \<Rightarrow> delete_named d (items_at items st sid) | None \<Rightarrow> items_at items st sid)
      else items_at items st sid)"
    using Deleted_items [OF st'(1,2) fresh_items v, where f = "\<lambda>l. case sel x of Some d \<Rightarrow> delete_named d l | None \<Rightarrow> l", OF dropped [OF st'(5)]] third
    by (auto simp: fun_eq_iff split: option.splits)
  show ?thesis
  proof (cases "sel x")
    case None
    then have "objects (c - {x}) sid = objects c sid" by (auto simp: objects_def)
    with i None m show ?thesis by simp
  next
    case (Some d)
    then have x: "x = inj d" by (simp add: sel)
    have "ko_Name y \<noteq> ko_Name d \<or> y = d" if "y \<in> objects c sid" "label d ''service_id'' = sid" for y
      using same_key [OF run, of y d sid] that st'(3,4) by (auto simp: objects_def x)
    moreover have "objects (c - {x}) sid = objects c sid - {d}" by (auto simp: objects_def x)
    ultimately show ?thesis
      using i m by (auto simp: x set_delete_named distinct_delete_named) (auto simp: objects_def)
  qed
qed

lemma mirror_stays:
  assumes run: "store_run env c st" and m: "distinct (names (items_at items st sid))" "set (items_at items st sid) = objects c sid"
    and st': "handle env (Updated old x) st = Some st'" "known env sid" "sid \<noteq> []" "valid_obj env x" "old \<in> c" "obj_key old = obj_key x"
      "same_owner old x" "workloads_apart env"
  shows "distinct (names (items_at items st' sid)) \<and> set (items_at items st' sid) = objects (insert x (c - {old})) sid"
proof -
  have kinds: "kind_name old = kind_name x" using st'(6) by (simp add: obj_key_def)
  have "items_at items st' sid = (if owned_obj x \<and> owner x = sid then (case sel x of Some d \<Rightarrow> set_named d (items_at items st sid) | None \<Rightarrow> items_at items st sid)
      else items_at items st sid)"
    by (rule Updated_items [OF st'(1,2) fresh_items st'(4), where f = "\<lambda>l. case sel x of Some d \<Rightarrow> set_named d l | None \<Rightarrow> l"]) (use stored [OF st'(8)] kinds st'(7) in \<open>auto simp: same_owner_def\<close>)
  note i = this
  show ?thesis
  proof (cases "sel x")
    case None
    then have "sel old = None" using kinds kind(1) by metis
    with None have "objects (insert x (c - {old})) sid = objects c sid" by (auto simp: objects_def)
    with i None m show ?thesis by simp
  next
    case (Some d)
    then have x: "x = inj d" by (simp add: sel)
    obtain o' where o: "old = inj o'" using kinds kind(1) Some sel by (metis option.exhaust option.distinct(1))
    have same: "owned nv o' = owned nv d" "label o' ''service_id'' = label d ''service_id''" "ko_Name o' = ko_Name d"
      using st'(6,7) by (simp_all add: same_owner_def x o key_inj)
    have "ko_Name y \<noteq> ko_Name d \<or> y = o'" if "y \<in> objects c sid" "label d ''service_id'' = sid" for y
      using same_key [OF run, of y o' sid] that st'(3,5) same by (auto simp: objects_def o)
    moreover have "objects (insert x (c - {old})) sid =
        (if owned nv d \<and> label d ''service_id'' = sid then insert d (objects c sid - {o'}) else objects c sid)"
      using same by (auto simp: objects_def x o)
    ultimately show ?thesis
      using i m same by (auto simp: x set_set_named distinct_set_named)
  qed
qed

lemma mirror_moved:
  assumes run: "store_run env c st" and m: "distinct (names (items_at items st sid))" "set (items_at items st sid) = objects c sid"
    and st': "handle env (Updated old x) st = Some st'" "known env sid" "sid \<noteq> []" "valid_obj env x" "old \<in> c" "obj_key old = obj_key x"
      "kind_name x = ''Ingress''" "owner old \<noteq> owner x" "workloads_apart env"
  shows "distinct (names (items_at items st' sid)) \<and> set (items_at items st' sid) = objects (insert x (c - {old})) sid"
proof -
  obtain o1 x1 where ox: "old = KIngress o1" "x = KIngress x1"
    using st'(6,7) by (cases old; cases x) (simp_all add: obj_key_def)
  have v: "valid_obj env old" using store_run_wf [OF run] st'(5) by blast
  let ?l = "items_at items st sid"
  have i: "items_at items st' sid =
      (let l = (if owner old = sid then (case sel old of Some d \<Rightarrow> delete_named d ?l | None \<Rightarrow> ?l) else ?l)
       in if owned_obj x \<and> owner x = sid then (case sel x of Some d \<Rightarrow> set_named d l | None \<Rightarrow> l) else l)"
    unfolding ox
    by (rule Moved_items [OF st'(1) [unfolded ox] st'(2) fresh_items v [unfolded ox] st'(4) [unfolded ox] st'(8) [unfolded ox]])
      (use stored [OF st'(9), of x] dropped [OF st'(9), of old] in \<open>auto simp: ox split: option.splits\<close>)
  show ?thesis
  proof (cases "sel x")
    case None
    then have "sel old = None" using kind(1) by (metis kind_name.simps(7) ox)
    with None have "objects (insert x (c - {old})) sid = objects c sid" by (auto simp: objects_def)
    with i None m \<open>sel old = None\<close> show ?thesis by (simp add: Let_def)
  next
    case (Some d)
    then have x: "x = inj d" by (simp add: sel)
    obtain o' where o: "old = inj o'" using kind(1) Some sel ox by (metis kind_name.simps(7) option.exhaust option.distinct(1))
    have same: "ko_Name o' = ko_Name d" "label o' ''service_id'' \<noteq> label d ''service_id''" using st'(6,8) by (simp_all add: x o key_inj)
    have new: "ko_Name y \<noteq> ko_Name d" if "y \<in> objects c sid" "label d ''service_id'' = sid" for y
    proof
      assume n: "ko_Name y = ko_Name d"
      moreover have "ko_Namespace y = home env sid" "ko_Namespace d = home env sid"
        using that st'(3,4) store_run_wf [OF run] unfolding objects_def x valid_obj_def mem_Collect_eq by (metis owned_inj(2) meta truncate_meta(2))+
      ultimately have "obj_key (inj y) = obj_key old" using st'(6) by (simp add: x key_inj)
      then have "inj y = old" using store_run_wf [OF run] that st'(5) by (auto simp: objects_def dest: inj_onD)
      then show False using that same by (auto simp: objects_def o)
    qed
    have old: "ko_Name y \<noteq> ko_Name d \<or> y = o'" if "y \<in> objects c sid" "label o' ''service_id'' = sid" for y
      using same_key [OF run, of y o' sid] that st'(3,5) same by (auto simp: objects_def o)
    have "objects (insert x (c - {old})) sid =
        (if owned nv d \<and> label d ''service_id'' = sid then insert d (objects c sid - {o'}) else objects c sid - {o'})"
      by (auto simp: objects_def x o)
    moreover have "label o' ''service_id'' \<noteq> sid \<Longrightarrow> o' \<notin> objects c sid" by (simp add: objects_def)
    ultimately show ?thesis
      using i m same old new by (auto simp: x o set_set_named distinct_set_named set_delete_named distinct_delete_named Let_def)
  qed
qed

lemma mirror:
  assumes "store_run env c st" "workloads_apart env" "known env sid" "sid \<noteq> []"
  shows "distinct (names (items_at items st sid)) \<and>
    set (items_at items st sid) = {d. inj d \<in> c \<and> owned nv d \<and> label d ''service_id'' = sid}"
proof -
  have "distinct (names (items_at items st sid)) \<and> set (items_at items st sid) = objects c sid"
    using assms(1)
  proof induction
    case start
    then show ?case by (simp add: items_at_def new_appRuntimeStore_def objects_def)
  next
    case (added c st x st')
    then show ?case using mirror_added assms(2-4) by blast
  next
    case (updated c st old x st')
    note m = updated.IH [THEN conjunct1] updated.IH [THEN conjunct2]
    from updated.hyps(5) show ?case
    proof
      assume "same_owner old x"
      then show ?thesis by (rule mirror_stays [OF updated.hyps(1) m updated.hyps(6) assms(3,4) updated.hyps(4,2,3) _ assms(2)])
    next
      assume "kind_name x = ''Ingress'' \<and> owner old \<noteq> owner x"
      then show ?thesis
        by (intro mirror_moved [OF updated.hyps(1) m updated.hyps(6) assms(3,4) updated.hyps(4,2,3) _ _ assms(2)]) simp_all
    qed
  next
    case (deleted c st x st')
    then show ?case using mirror_deleted assms(2-4) by blast
  qed
  then show ?thesis by (simp add: objects_def)
qed

end

text \<open>The setters and deleters, seen from each collection.\<close>

lemma collections_store:
  assumes "workloads_apart env" "store_of env x a = Some a'"
  shows "collections a' = (case x of
      KService d \<Rightarrow> (case collections a of (sv, r) \<Rightarrow> (set_named d sv, r))
    | KIngress d \<Rightarrow> (case collections a of (sv, i, r) \<Rightarrow> (sv, set_named d i, r))
    | KSecret d \<Rightarrow> (case collections a of (sv, i, sk, r) \<Rightarrow> (sv, i, set_named d sk, r))
    | KConfigMap d \<Rightarrow> (case collections a of (sv, i, sk, cm, r) \<Rightarrow> (sv, i, sk, set_named d cm, r))
    | KPod d \<Rightarrow> (case collections a of (sv, i, sk, cm, pd, r) \<Rightarrow> (sv, i, sk, cm, set_named d pd, r))
    | KHPA d \<Rightarrow> (case collections a of (sv, i, sk, cm, pd, hp, r) \<Rightarrow> (sv, i, sk, cm, pd, set_named d hp, r))
    | KReplicaSet d \<Rightarrow> (case collections a of (sv, i, sk, cm, pd, hp, rs, r) \<Rightarrow> (sv, i, sk, cm, pd, hp, set_named d rs, r))
    | KEndpoints d \<Rightarrow> (case collections a of (sv, i, sk, cm, pd, hp, rs, ep) \<Rightarrow> (sv, i, sk, cm, pd, hp, rs, set_named d ep))
    | _ \<Rightarrow> collections a)"
proof (cases x)
  case (KDeployment d)
  then show ?thesis using assms(2) SetDeployment_frame by auto
next
  case (KStatefulSet d)
  then show ?thesis using assms(2) SetStatefulSet_frame by auto
next
  case (KThirdComponent d)
  then show ?thesis using assms by (auto simp: workloads_apart_def)
qed (use assms(2) in \<open>auto simp: collections_def SetReplicaSets_def SetSecret_def SetService_def SetIngress_def SetConfigMap_def SetHPA_def
    SetClaim_def SetServiceMonitor_def AddEndpoints_def SetPods_def\<close>)

lemma stored_items:
  assumes "workloads_apart env" "store_of env x a = Some a'"
  shows
    "as_services a' = (case x of KService d \<Rightarrow> set_named d (as_services a) | _ \<Rightarrow> as_services a)"
    "as_ingresses a' = (case x of KIngress d \<Rightarrow> set_named d (as_ingresses a) | _ \<Rightarrow> as_ingresses a)"
    "as_secrets a' = (case x of KSecret d \<Rightarrow> set_named d (as_secrets a) | _ \<Rightarrow> as_secrets a)"
    "as_configMaps a' = (case x of KConfigMap d \<Rightarrow> set_named d (as_configMaps a) | _ \<Rightarrow> as_configMaps a)"
    "as_pods a' = (case x of KPod d \<Rightarrow> set_named d (as_pods a) | _ \<Rightarrow> as_pods a)"
    "as_hpas a' = (case x of KHPA d \<Rightarrow> set_named d (as_hpas a) | _ \<Rightarrow> as_hpas a)"
    "as_replicasets a' = (case x of KReplicaSet d \<Rightarrow> set_named d (as_replicasets a) | _ \<Rightarrow> as_replicasets a)"
    "as_endpoints a' = (case x of KEndpoints d \<Rightarrow> set_named d (as_endpoints a) | _ \<Rightarrow> as_endpoints a)"
  using collections_store [OF assms] unfolding collections_def by (cases x; simp)+

lemma dropped_items:
  assumes "workloads_apart env"
  shows
    "as_services (drop_of env x a) = (case x of KService d \<Rightarrow> delete_named d (as_services a) | _ \<Rightarrow> as_services a)"
    "as_ingresses (drop_of env x a) = (case x of KIngress d \<Rightarrow> delete_named d (as_ingresses a) | _ \<Rightarrow> as_ingresses a)"
    "as_secrets (drop_of env x a) = (case x of KSecret d \<Rightarrow> delete_named d (as_secrets a) | _ \<Rightarrow> as_secrets a)"
    "as_configMaps (drop_of env x a) = (case x of KConfigMap d \<Rightarrow> delete_named d (as_configMaps a) | _ \<Rightarrow> as_configMaps a)"
    "as_pods (drop_of env x a) = (case x of KPod d \<Rightarrow> delete_named d (as_pods a) | _ \<Rightarrow> as_pods a)"
    "as_hpas (drop_of env x a) = (case x of KHPA d \<Rightarrow> delete_named d (as_hpas a) | _ \<Rightarrow> as_hpas a)"
    "as_replicasets (drop_of env x a) = (case x of KReplicaSet d \<Rightarrow> delete_named d (as_replicasets a) | _ \<Rightarrow> as_replicasets a)"
    "as_endpoints (drop_of env x a) = (case x of KEndpoints d \<Rightarrow> delete_named d (as_endpoints a) | _ \<Rightarrow> as_endpoints a)"
  using assms unfolding workloads_apart_def collections_def
  by (cases x; simp add: DeleteDeployment_def DeleteStatefulSet_def DeleteReplicaSet_def DeleteSecrets_def DeleteServices_def
      DeleteIngress_def DeleteConfigMaps_def DelHPA_def DeleteClaim_def DeleteServiceMonitor_def DelEndpoints_def DeletePods_def)+

interpretation m_services: mirrored as_services KService "\<lambda>x. case x of KService d \<Rightarrow> Some d | _ \<Rightarrow> None" "''Service''" False
  by unfold_locales (auto simp: stored_items dropped_items collections_def split: kobj.splits)

interpretation m_ingresses: mirrored as_ingresses KIngress "\<lambda>x. case x of KIngress d \<Rightarrow> Some d | _ \<Rightarrow> None" "''Ingress''" False
  by unfold_locales (auto simp: stored_items dropped_items collections_def split: kobj.splits)

interpretation m_secrets: mirrored as_secrets KSecret "\<lambda>x. case x of KSecret d \<Rightarrow> Some d | _ \<Rightarrow> None" "''Secret''" False
  by unfold_locales (auto simp: stored_items dropped_items collections_def split: kobj.splits)

interpretation m_configmaps: mirrored as_configMaps KConfigMap "\<lambda>x. case x of KConfigMap d \<Rightarrow> Some d | _ \<Rightarrow> None" "''ConfigMap''" False
  by unfold_locales (auto simp: stored_items dropped_items collections_def split: kobj.splits)

interpretation m_pods: mirrored as_pods KPod "\<lambda>x. case x of KPod d \<Rightarrow> Some d | _ \<Rightarrow> None" "''Pod''" True
  by unfold_locales (auto simp: stored_items dropped_items collections_def split: kobj.splits)

interpretation m_hpas: mirrored as_hpas KHPA "\<lambda>x. case x of KHPA d \<Rightarrow> Some d | _ \<Rightarrow> None" "''HorizontalPodAutoscaler''" True
  by unfold_locales (auto simp: stored_items dropped_items collections_def split: kobj.splits)

interpretation m_replicasets: mirrored as_replicasets KReplicaSet "\<lambda>x. case x of KReplicaSet d \<Rightarrow> Some d | _ \<Rightarrow> None" "''ReplicaSet''" True
  by unfold_locales (auto simp: stored_items dropped_items collections_def split: kobj.splits)

interpretation m_endpoints: mirrored as_endpoints KEndpoints "\<lambda>x. case x of KEndpoints d \<Rightarrow> Some d | _ \<Rightarrow> None" "''Endpoints''" False
  by unfold_locales (auto simp: stored_items dropped_items collections_def split: kobj.splits)

end
