(* ===== verification/WkStoreRes.thy ===== *)
theory WkStoreRes
  imports WkStoreFacts
begin

text \<open>
  Facts on the rest of the cache: the resources of the tenants, totality of the handlers, the number of
  components, status, probes and image pull secrets.
\<close>

section \<open>Resources of the tenants\<close>

lemma resources_frame [simp]:
  "ss_resources (emit e st) = ss_resources st" "ss_resources (put_app i a st) = ss_resources st"
  "ss_resources (RegistAppService a st) = ss_resources st" "ss_resources (notify_pod p st) = ss_resources st"
  "ss_resources (probe pe st) = ss_resources st" "ss_resources (delete_orphan k x st) = ss_resources st"
  by (simp_all add: emit_def put_app_def RegistAppService_def notify_pod_def probe_def delete_orphan_def split: option.splits)

lemma resources_effects [simp]: "ss_resources (fold emit es st) = ss_resources st"
  by (induction es arbitrary: st) simp_all

lemma getAppService_resources: "getAppService env i cid cr st = Some (r, st') \<Longrightarrow> ss_resources st' = ss_resources st"
  by (auto simp: getAppService_def split: option.splits sum.splits if_splits)

lemma add_object_resources: "add_object env nv k x store after st = Some st' \<Longrightarrow> ss_resources st' = ss_resources st"
  by (auto simp: add_object_def dest!: getAppService_resources split: option.splits sum.splits if_splits)

lemma del_object_resources: "del_object env nv cr cl x del st = Some (st', b) \<Longrightarrow> ss_resources st' = ss_resources st"
  by (auto simp: del_object_def DeleteAppService_def Let_def dest!: getAppService_resources split: option.splits sum.splits if_splits)

lemma ep_add_resources:
  assumes "ep_add env ep after st = Some st'" "\<And>i st. ss_resources (after i st) = ss_resources st"
  shows "ss_resources st' = ss_resources st"
  using assms by (auto simp: ep_add_def dest!: getAppService_resources split: option.splits sum.splits if_splits)

lemma OnAdd_resources: "OnAdd env x st = Some st' \<Longrightarrow> ss_resources st' = ss_resources st"
  by (cases x) (auto dest!: add_object_resources simp: Let_def)

lemma OnUpdate_resources: "OnUpdate env old x st = Some st' \<Longrightarrow> ss_resources st' = ss_resources st"
  by (auto simp: OnUpdate_def simp del: OnAdd.simps dest!: OnAdd_resources getAppService_resources split: kobj.splits if_splits option.splits sum.splits)

lemma store_OnDelete_resources: "store_OnDelete env x st = Some st' \<Longrightarrow> ss_resources st' = ss_resources st"
  by (cases x) (auto simp: store_OnDelete_eq dest!: del_object_resources)

definition resource_at :: "appRuntimeStore \<Rightarrow> string \<Rightarrow> string \<Rightarrow> PodResource option" where
  "resource_at st ns n = (case map_of (ss_resources st) ns of None \<Rightarrow> None | Some nr \<Rightarrow> map_of nr n)"

lemma resource_at_set:
  "resource_at (SetPodResource pod st) ns n =
     (if ns = ko_Namespace pod \<and> n = ko_Name pod then Some (CalculatePodResource pod) else resource_at st ns n)"
  by (auto simp: resource_at_def SetPodResource_def Let_def split: option.splits)

lemma resource_at_remove:
  "resource_at (RemovePod pod st) ns n = (if ns = ko_Namespace pod \<and> n = ko_Name pod then None else resource_at st ns n)"
  by (auto simp: resource_at_def RemovePod_def delete_conv split: option.splits)

lemma resource_at_cong: "ss_resources st' = ss_resources st \<Longrightarrow> resource_at st' = resource_at st"
  by (simp add: resource_at_def fun_eq_iff)

text \<open>Only the handlers of pods change the resources.\<close>

lemma handle_resources:
  assumes "handle env ev st = Some st'"
  shows "ss_resources st' = (case ev of
      Added (KPod pod) \<Rightarrow> ss_resources (SetPodResource pod st)
    | Updated old (KPod pod) \<Rightarrow> ss_resources (SetPodResource pod st)
    | Deleted (KPod pod) \<Rightarrow> ss_resources (RemovePod pod st)
    | _ \<Rightarrow> ss_resources st)"
proof (cases ev)
  case (Added x)
  show ?thesis
  proof (cases x)
    case (KPod p)
    then show ?thesis using assms Added by (auto simp: pod_AddFunc_def dest: add_object_resources)
  next
    case (KEndpoints e)
    then show ?thesis using assms Added by (auto simp: endpoints_AddFunc_def dest!: ep_add_resources)
  qed (use assms Added OnAdd_resources [of env x st st'] in \<open>simp_all del: OnAdd.simps\<close>)
next
  case (Updated old x)
  show ?thesis
  proof (cases x)
    case (KPod p)
    then show ?thesis using assms Updated by (auto simp: pod_UpdateFunc_def dest: add_object_resources)
  next
    case (KEndpoints e)
    then show ?thesis using assms Updated by (auto simp: endpoints_UpdateFunc_def dest!: ep_add_resources)
  qed (use assms Updated OnUpdate_resources [of env old x st st'] in simp_all)
next
  case (Deleted x)
  show ?thesis
  proof (cases x)
    case (KPod p)
    then show ?thesis using assms Deleted by (auto simp: pod_DeleteFunc_def dest: del_object_resources)
  next
    case (KEndpoints e)
    then show ?thesis using assms Deleted
      by (auto simp: endpoints_DeleteFunc_def dest!: del_object_resources split: option.splits bool.splits if_splits)
  qed (use assms Deleted store_OnDelete_resources [of env x st st'] in simp_all)
qed

definition pods_in :: "kobj set \<Rightarrow> string \<Rightarrow> Pod set" where
  "pods_in c ns = {pod. KPod pod \<in> c \<and> ko_Namespace pod = ns}"

lemma pod_key: "obj_key (KPod p) = (''Pod'', ko_Namespace p, ko_Name p)" "obj_key x = obj_key (KPod p) \<Longrightarrow> \<exists>q. x = KPod q"
  by (simp add: obj_key_def) (cases x; simp add: obj_key_def)

definition wf_resources :: "appRuntimeStore \<Rightarrow> bool" where
  "wf_resources st \<longleftrightarrow> (\<forall>ns nr. map_of (ss_resources st) ns = Some nr \<longrightarrow> wf_map nr)"

lemma wf_SetPodResource: "wf_resources st \<Longrightarrow> wf_resources (SetPodResource pod st)"
  by (auto simp: wf_resources_def SetPodResource_def wf_map_def distinct_update Let_def split: option.splits)

lemma wf_RemovePod: "wf_resources st \<Longrightarrow> wf_resources (RemovePod pod st)"
  by (auto simp: wf_resources_def RemovePod_def wf_map_def distinct_delete split: option.splits if_splits)

lemma wf_resources_cong: "ss_resources st' = ss_resources st \<Longrightarrow> wf_resources st' = wf_resources st"
  by (simp add: wf_resources_def)

lemma handle_wf_resources:
  assumes "handle env ev st = Some st'" "wf_resources st"
  shows "wf_resources st'"
proof -
  have "ss_resources st' = ss_resources st \<or> (\<exists>p. ss_resources st' = ss_resources (SetPodResource p st)) \<or> (\<exists>p. ss_resources st' = ss_resources (RemovePod p st))"
    unfolding handle_resources [OF assms(1)] by (auto split: kevent.splits kobj.splits)
  then show ?thesis using assms(2) wf_SetPodResource wf_RemovePod wf_resources_cong by metis
qed

lemma store_run_resources:
  assumes "store_run env c st"
  shows "wf_resources st \<and> (\<forall>ns n r. resource_at st ns n = Some r \<longleftrightarrow> (\<exists>pod \<in> pods_in c ns. ko_Name pod = n \<and> r = CalculatePodResource pod))"
  using assms
proof induction
  case start
  then show ?case by (simp add: wf_resources_def new_appRuntimeStore_def resource_at_def pods_in_def)
next
  case (added c st x st')
  have wf: "wf_resources st'" using handle_wf_resources added by blast
  show ?case
  proof (cases "\<exists>p. x = KPod p")
    case True
    then obtain p where x: "x = KPod p" by blast
    have "resource_at st' = resource_at (SetPodResource p st)" using handle_resources [OF added.hyps(4)] by (intro resource_at_cong) (simp add: x)
    moreover have "q \<in> pods_in c (ko_Namespace p) \<Longrightarrow> ko_Name q \<noteq> ko_Name p" for q
      using added.hyps(2) by (force simp: pods_in_def x pod_key(1))
    ultimately show ?thesis using added.IH wf by (auto simp: resource_at_set pods_in_def x)
  next
    case False
    then have "resource_at st' = resource_at st" using handle_resources [OF added.hyps(4)] by (intro resource_at_cong) (cases x; simp)
    moreover have "pods_in (insert x c) ns = pods_in c ns" for ns using False by (auto simp: pods_in_def)
    ultimately show ?thesis using added.IH wf by simp
  qed
next
  case (updated c st old x st')
  have wf: "wf_resources st'" using handle_wf_resources updated by blast
  show ?case
  proof (cases "\<exists>p. x = KPod p")
    case True
    then obtain p where x: "x = KPod p" by blast
    obtain q where q: "old = KPod q" using updated.hyps(3) pod_key(2) x by blast
    have s: "ko_Namespace q = ko_Namespace p" "ko_Name q = ko_Name p" using updated.hyps(3) by (simp_all add: x q pod_key(1))
    have "resource_at st' = resource_at (SetPodResource p st)" using handle_resources [OF updated.hyps(6)] by (intro resource_at_cong) (simp add: x)
    moreover have "y = q" if "y \<in> pods_in c (ko_Namespace p)" "ko_Name y = ko_Name p" for y
    proof -
      have "obj_key (KPod y) = obj_key old" using that s by (simp add: pods_in_def q pod_key(1))
      then show ?thesis using store_run_wf [OF updated.hyps(1)] that updated.hyps(2) q by (auto simp: pods_in_def dest: inj_onD)
    qed
    ultimately show ?thesis using updated.IH wf s by (auto simp: resource_at_set pods_in_def x q)
  next
    case False
    then have "resource_at st' = resource_at st" using handle_resources [OF updated.hyps(6)] by (intro resource_at_cong) (cases x; simp)
    moreover have "\<nexists>q. old = KPod q" using False updated.hyps(3) pod_key(2) by metis
    then have "pods_in (insert x (c - {old})) ns = pods_in c ns" for ns using False by (auto simp: pods_in_def)
    ultimately show ?thesis using updated.IH wf by simp
  qed
next
  case (deleted c st x st')
  have wf: "wf_resources st'" using handle_wf_resources deleted by blast
  show ?case
  proof (cases "\<exists>p. x = KPod p")
    case True
    then obtain p where x: "x = KPod p" by blast
    have "resource_at st' = resource_at (RemovePod p st)" using handle_resources [OF deleted.hyps(3)] by (intro resource_at_cong) (simp add: x)
    moreover have "y = p" if "y \<in> pods_in c (ko_Namespace p)" "ko_Name y = ko_Name p" for y
    proof -
      have "obj_key (KPod y) = obj_key x" using that by (simp add: pods_in_def x pod_key(1))
      then show ?thesis using store_run_wf [OF deleted.hyps(1)] that deleted.hyps(2) x by (auto simp: pods_in_def dest: inj_onD)
    qed
    ultimately show ?thesis using deleted.IH wf by (auto simp: resource_at_remove pods_in_def x)
  next
    case False
    then have "resource_at st' = resource_at st" using handle_resources [OF deleted.hyps(3)] by (intro resource_at_cong) (cases x; simp)
    moreover have "pods_in (c - {x}) ns = pods_in c ns" for ns using False by (auto simp: pods_in_def)
    ultimately show ?thesis using deleted.IH wf by simp
  qed
qed

text \<open>The sum over the map of a namespace is the sum over its pods, reduced to 64 bits.\<close>

lemma fold_wrap: "fold (\<lambda>x r. to_int64 (r + f x)) xs (to_int64 acc) = to_int64 (acc + sum_list (map f xs))"
proof (induction xs arbitrary: acc)
  case (Cons x xs)
  have "to_int64 (to_int64 acc + f x) = to_int64 (acc + f x)" by (rule to_int64_add)
  then show ?case using Cons [of "acc + f x"] by (simp add: add.assoc)
qed simp

lemma getTenantResource_sums:
  "tr_CPURequest (getTenantResource (Some m)) = to_int64 (sum_list (map (\<lambda>kv. pr_CPURequest (snd kv)) m))"
  "tr_MemoryRequest (getTenantResource (Some m)) = to_int64 (sum_list (map (\<lambda>kv. pr_MemoryRequest (snd kv)) m))"
  "tr_CPULimit (getTenantResource (Some m)) = to_int64 (sum_list (map (\<lambda>kv. pr_CPULimit (snd kv)) m))"
  "tr_MemoryLimit (getTenantResource (Some m)) = to_int64 (sum_list (map (\<lambda>kv. pr_MemoryLimit (snd kv)) m))"
proof -
  let ?step = "\<lambda>(k, v) tr. tr\<lparr>tr_CPULimit := to_int64 (tr_CPULimit tr + pr_CPULimit v),
                                tr_MemoryLimit := to_int64 (tr_MemoryLimit tr + pr_MemoryLimit v),
                                tr_CPURequest := to_int64 (tr_CPURequest tr + pr_CPURequest v),
                                tr_MemoryRequest := to_int64 (tr_MemoryRequest tr + pr_MemoryRequest v)\<rparr>"
  have "tr_CPURequest (fold ?step xs tr) = fold (\<lambda>x r. to_int64 (r + pr_CPURequest (snd x))) xs (tr_CPURequest tr)"
    "tr_MemoryRequest (fold ?step xs tr) = fold (\<lambda>x r. to_int64 (r + pr_MemoryRequest (snd x))) xs (tr_MemoryRequest tr)"
    "tr_CPULimit (fold ?step xs tr) = fold (\<lambda>x r. to_int64 (r + pr_CPULimit (snd x))) xs (tr_CPULimit tr)"
    "tr_MemoryLimit (fold ?step xs tr) = fold (\<lambda>x r. to_int64 (r + pr_MemoryLimit (snd x))) xs (tr_MemoryLimit tr)"
    for xs :: NamespaceResource and tr :: TenantResource
    by (induction xs arbitrary: tr) (simp_all add: case_prod_beta)
  note f = this [of m zero_TenantResource]
  have z: "(0 :: int) = to_int64 0" by simp
  show "tr_CPURequest (getTenantResource (Some m)) = to_int64 (sum_list (map (\<lambda>kv. pr_CPURequest (snd kv)) m))"
    "tr_MemoryRequest (getTenantResource (Some m)) = to_int64 (sum_list (map (\<lambda>kv. pr_MemoryRequest (snd kv)) m))"
    "tr_CPULimit (getTenantResource (Some m)) = to_int64 (sum_list (map (\<lambda>kv. pr_CPULimit (snd kv)) m))"
    "tr_MemoryLimit (getTenantResource (Some m)) = to_int64 (sum_list (map (\<lambda>kv. pr_MemoryLimit (snd kv)) m))"
    using f fold_wrap [of _ m 0] by (simp_all add: getTenantResource_def zero_TenantResource_def)
qed

lemma sum_by_key:
  assumes "wf_map nr" "\<And>n r. map_of nr n = Some r \<longleftrightarrow> (\<exists>pod \<in> P. ko_Name pod = n \<and> r = calc pod)" "inj_on ko_Name P"
  shows "sum_list (map (\<lambda>kv. g (snd kv)) nr) = (\<Sum>pod \<in> P. g (calc pod))"
proof -
  have d: "distinct (map fst nr)" using assms(1) by (simp add: wf_map_def)
  have keys: "set (map fst nr) = ko_Name ` P"
  proof (rule set_eqI)
    fix n
    have "n \<in> set (map fst nr) \<longleftrightarrow> map_of nr n \<noteq> None" by (simp add: map_of_eq_None_iff)
    then show "n \<in> set (map fst nr) \<longleftrightarrow> n \<in> ko_Name ` P" using assms(2) [of n] by (auto simp: image_iff)
  qed
  have "sum_list (map (\<lambda>kv. g (snd kv)) nr) = sum_list (map (\<lambda>n. g (the (map_of nr n))) (map fst nr))"
  proof -
    have "map (\<lambda>kv. g (snd kv)) nr = map (\<lambda>kv. g (the (map_of nr (fst kv)))) nr"
      by (rule map_cong) (use d in \<open>auto simp: map_of_is_SomeI\<close>)
    then show ?thesis by (simp only: map_map comp_def)
  qed
  also have "\<dots> = (\<Sum>n \<in> ko_Name ` P. g (the (map_of nr n)))"
    using d keys by (metis sum_list_distinct_conv_sum_set)
  also have "\<dots> = (\<Sum>pod \<in> P. g (the (map_of nr (ko_Name pod))))" using assms(3) by (simp add: sum.reindex)
  also have "\<dots> = (\<Sum>pod \<in> P. g (calc pod))"
  proof (rule sum.cong)
    fix pod assume "pod \<in> P"
    then have "map_of nr (ko_Name pod) = Some (calc pod)" using assms(2) by blast
    then show "g (the (map_of nr (ko_Name pod))) = g (calc pod)" by simp
  qed simp
  finally show ?thesis .
qed

lemma tenant_sums:
  assumes "store_run env c st" "is_range rng"
  shows "tr_CPURequest (GetTenantResource rng ns st) = to_int64 (\<Sum>pod \<in> pods_in c ns. pr_CPURequest (CalculatePodResource pod))"
    "tr_MemoryRequest (GetTenantResource rng ns st) = to_int64 (\<Sum>pod \<in> pods_in c ns. pr_MemoryRequest (CalculatePodResource pod))"
    "tr_CPULimit (GetTenantResource rng ns st) = to_int64 (\<Sum>pod \<in> pods_in c ns. pr_CPULimit (CalculatePodResource pod))"
    "tr_MemoryLimit (GetTenantResource rng ns st) = to_int64 (\<Sum>pod \<in> pods_in c ns. pr_MemoryLimit (CalculatePodResource pod))"
proof -
  note r = store_run_resources [OF assms(1)]
  have inj: "inj_on ko_Name (pods_in c ns)"
  proof (rule inj_onI)
    fix p q assume "p \<in> pods_in c ns" "q \<in> pods_in c ns" "ko_Name p = ko_Name q"
    then have "KPod p \<in> c" "KPod q \<in> c" "obj_key (KPod p) = obj_key (KPod q)" by (simp_all add: pods_in_def pod_key(1))
    then have "KPod p = KPod q" using store_run_wf [OF assms(1)] by (auto dest: inj_onD)
    then show "p = q" by simp
  qed
  have sums: "(case map_of (ss_resources st) ns of None \<Rightarrow> 0 | Some nr \<Rightarrow> sum_list (map (\<lambda>kv. g (snd kv)) (rng nr))) =
      (\<Sum>pod \<in> pods_in c ns. g (CalculatePodResource pod))" for g :: "PodResource \<Rightarrow> int"
  proof (cases "map_of (ss_resources st) ns")
    case None
    then have "resource_at st ns n = None" for n by (simp add: resource_at_def)
    then have "pods_in c ns = {}" using r by (metis all_not_in_conv option.distinct(1))
    with None show ?thesis by simp
  next
    case (Some nr)
    then have "wf_map nr" using r by (auto simp: wf_resources_def)
    then have m: "wf_map (rng nr)" "map_of (rng nr) = map_of nr" using assms(2) by (simp_all add: is_range_wf is_range_map_of)
    have "map_of (rng nr) n = Some v \<longleftrightarrow> (\<exists>pod \<in> pods_in c ns. ko_Name pod = n \<and> v = CalculatePodResource pod)" for n v
      using r Some m(2) by (auto simp: resource_at_def) (metis option.simps(5))+
    from sum_by_key [OF m(1) this inj] Some show ?thesis by simp
  qed
  note s = sums [of pr_CPURequest] sums [of pr_MemoryRequest] sums [of pr_CPULimit] sums [of pr_MemoryLimit]
  have none: "tr_CPURequest (getTenantResource None) = 0" "tr_MemoryRequest (getTenantResource None) = 0"
    "tr_CPULimit (getTenantResource None) = 0" "tr_MemoryLimit (getTenantResource None) = 0"
    by (simp_all add: getTenantResource_def zero_TenantResource_def)
  show "tr_CPURequest (GetTenantResource rng ns st) = to_int64 (\<Sum>pod \<in> pods_in c ns. pr_CPURequest (CalculatePodResource pod))"
    "tr_MemoryRequest (GetTenantResource rng ns st) = to_int64 (\<Sum>pod \<in> pods_in c ns. pr_MemoryRequest (CalculatePodResource pod))"
    "tr_CPULimit (GetTenantResource rng ns st) = to_int64 (\<Sum>pod \<in> pods_in c ns. pr_CPULimit (CalculatePodResource pod))"
    "tr_MemoryLimit (GetTenantResource rng ns st) = to_int64 (\<Sum>pod \<in> pods_in c ns. pr_MemoryLimit (CalculatePodResource pod))"
    unfolding s [symmetric] GetTenantResource_def
    by (cases "map_of (ss_resources st) ns"; simp add: none getTenantResource_sums)+
qed

section \<open>Handlers never panic\<close>

text \<open>What the API server guarantees of the objects it delivers: workloads have a number of replicas and
  subsets of endpoints have ports.\<close>

fun well_formed :: "kobj \<Rightarrow> bool" where
  "well_formed (KDeployment w) = (wl_Replicas w \<noteq> None)"
| "well_formed (KStatefulSet w) = (wl_Replicas w \<noteq> None)"
| "well_formed (KEndpoints ep) = list_all (\<lambda>s. es_Ports s \<noteq> []) (eo_Subsets ep)"
| "well_formed _ = True"

lemma store_of_total: "well_formed x \<Longrightarrow> store_of env x a \<noteq> None"
  by (cases x) (auto simp: SetDeployment_def SetStatefulSet_def Let_def split: option.splits)

lemma getAppService_total: "known env i \<or> \<not> creator \<Longrightarrow> getAppService env i cid creator st \<noteq> None"
  using InitCacheAppService_ok [of env i "se_exDomain env" "se_newVersion env" cid] by (auto simp: getAppService_def split: option.splits)

lemma add_object_total:
  assumes "owned nv x \<Longrightarrow> known env (label x ''service_id'')" "\<And>a. store a \<noteq> None"
  shows "add_object env nv k x store after st \<noteq> None"
  using assms getAppService_total [of env "label x ''service_id''" True "label x ''creater_id''" st]
  by (auto simp: add_object_def split: option.splits sum.splits) (metis option.distinct(1))

lemma del_object_total:
  assumes "owned nv x \<Longrightarrow> known env (label x ''service_id'') \<or> \<not> creator"
  shows "del_object env nv creator closed x del st \<noteq> None"
  using assms getAppService_total [of env "label x ''service_id''" creator "label x ''creater_id''" st]
  by (auto simp: del_object_def Let_def split: option.splits sum.splits)

lemma ep_add_total:
  assumes "owned False ep \<Longrightarrow> known env (label ep ''service_id'')"
  shows "ep_add env ep after st \<noteq> None"
  using assms getAppService_total [of env "label ep ''service_id''" True "label ep ''creater_id''" st]
  by (auto simp: ep_add_def split: option.splits sum.splits)

lemma OnAdd_total:
  assumes "valid_obj env x" "well_formed x"
  shows "OnAdd env x st \<noteq> None"
proof (cases "own_handler x")
  case False
  have "owned (needs_version x) (meta x) \<Longrightarrow> known env (label (meta x) ''service_id'')"
    using assms(1) by (auto simp: valid_obj_def owner_def owned_def)
  then show ?thesis unfolding OnAdd_uniform [OF False] using store_of_total [OF assms(2)] by (intro add_object_total) auto
next
  case True
  then show ?thesis by (cases x) (simp_all add: own_handler_def Let_def)
qed

lemma valid_owner: "valid_obj env x \<Longrightarrow> label (meta x) ''service_id'' \<noteq> [] \<Longrightarrow> known env (label (meta x) ''service_id'')"
  by (simp add: valid_obj_def owner_def)

lemma handle_added_total:
  assumes "valid_obj env x" "well_formed x"
  shows "handle env (Added x) st \<noteq> None"
proof -
  note v = valid_owner [OF assms(1)]
  show ?thesis
  proof (cases x)
    case (KPod p)
    then show ?thesis using v add_object_total [of True p env] by (auto simp: pod_AddFunc_def owned_def)
  next
    case (KEndpoints e)
    then show ?thesis using v ep_add_total [of e env] by (auto simp: endpoints_AddFunc_def owned_def)
  qed (use OnAdd_total [OF assms] in \<open>simp_all del: OnAdd.simps\<close>)
qed

lemma handle_deleted_total:
  assumes "valid_obj env x" "well_formed x"
  shows "handle env (Deleted x) st \<noteq> None"
proof -
  note v = valid_owner [OF assms(1)]
  have d: "delete_one env x st \<noteq> None"
    by (cases x; simp only: delete_one.simps; (rule del_object_total)?) (use v in \<open>auto simp: owned_def\<close>)
  show ?thesis
  proof (cases x)
    case (KPod p)
    then show ?thesis using del_object_total [of True p env False] by (simp add: pod_DeleteFunc_def)
  next
    case (KEndpoints e)
    then show ?thesis
      using del_object_total [of False e env False True "DelEndpoints e" st] assms(2)
      by (auto simp: endpoints_DeleteFunc_def first_ports_def split: option.splits bool.splits)
  qed (use d in \<open>simp_all add: store_OnDelete_eq del: delete_one.simps\<close>)
qed

lemma handle_updated_total:
  assumes "valid_obj env x" "valid_obj env old" "well_formed x" "kind_name old = kind_name x"
    and "kind_name x = ''Ingress'' \<Longrightarrow> owner old \<noteq> []"
  shows "handle env (Updated old x) st \<noteq> None"
proof -
  note v = valid_owner [OF assms(1)] valid_owner [OF assms(2)]
  show ?thesis
  proof (cases x)
    case (KPod p)
    then show ?thesis using v add_object_total [of True p env] by (auto simp: pod_UpdateFunc_def owned_def)
  next
    case (KEndpoints e)
    then show ?thesis using v ep_add_total [of e env] by (auto simp: endpoints_UpdateFunc_def owned_def)
  next
    case (KIngress i)
    obtain o1 where o1: "old = KIngress o1" using assms(4) KIngress by (cases old) simp_all
    have g: "getAppService env (label o1 ''service_id'') (label o1 ''creater_id'') True st \<noteq> None"
      using v(2) assms(5) by (intro getAppService_total) (simp add: o1 KIngress owner_def)
    show ?thesis
      using g OnAdd_total [OF assms(1,3)] by (auto simp: KIngress o1 OnUpdate_def simp del: OnAdd.simps split: option.splits sum.splits)
  qed (use OnAdd_total [OF assms(1,3)] in \<open>simp_all add: OnUpdate_def del: OnAdd.simps\<close>)
qed

section \<open>Components under their own identity\<close>

text \<open>
  Every component is cached under its identity; \<open>n\<close> is how often a component was registered that was
  cached already, which the counter counts again.
\<close>

definition keyed :: "nat \<Rightarrow> appRuntimeStore \<Rightarrow> bool" where
  "keyed n st \<longleftrightarrow> wf_map (ss_appServices st) \<and> (\<forall>i a. map_of (ss_appServices st) i = Some a \<longrightarrow> as_ServiceID a = i) \<and>
     ss_appCount st = to_int32 (int (length (ss_appServices st) + n))"

lemma keyed_frame [simp]:
  "keyed n (emit e st) = keyed n st" "keyed n (SetPodResource p st) = keyed n st" "keyed n (RemovePod p st) = keyed n st"
  "keyed n (notify_pod p st) = keyed n st" "keyed n (probe pe st) = keyed n st" "keyed n (delete_orphan k x st) = keyed n st"
  by (simp_all add: keyed_def emit_def SetPodResource_def RemovePod_def notify_pod_def probe_def delete_orphan_def Let_def split: option.splits)

lemma keyed_emits [simp]: "keyed n (fold emit es st) = keyed n st"
  by (induction es arbitrary: st) simp_all

lemma length_map_set: "wf_map m \<Longrightarrow> length (map_set k v m) = (if map_of m k = None then Suc (length m) else length m)"
proof (induction m)
  case (Cons kv m)
  then show ?case by (cases kv) (auto simp: wf_map_def)
qed simp

lemma to_int32_add: "to_int32 (to_int32 a + b) = to_int32 (a + b)"
proof -
  have "to_int32 a + b + 2 ^ 31 = (a + 2 ^ 31) mod 2 ^ 32 + b" by (simp add: to_int32_def)
  then show ?thesis unfolding to_int32_def by (simp add: mod_simps add_ac)
qed

lemma keyed_Regist:
  assumes "keyed n st"
  shows "keyed (if map_of (ss_appServices st) (as_ServiceID a) = None then n else Suc n) (RegistAppService a st)"
proof -
  have c: "to_int32 (ss_appCount st + 1) = to_int32 (int (length (ss_appServices st) + n) + 1)"
    using assms to_int32_add by (simp add: keyed_def)
  show ?thesis
    using assms c by (cases "map_of (ss_appServices st) (as_ServiceID a)")
      (auto simp: keyed_def RegistAppService_def length_map_set algebra_simps)
qed

lemma keyed_put: "keyed n st \<Longrightarrow> map_of (ss_appServices st) i \<noteq> None \<Longrightarrow> as_ServiceID a = i \<Longrightarrow> keyed n (put_app i a st)"
  by (auto simp: keyed_def put_app_def length_map_set)

lemma keyed_get:
  assumes "getAppService env i cid creator st = Some (r, st1)" "keyed n st"
  shows "keyed n st1 \<and> (\<forall>a. r = Inr (Some a) \<longrightarrow> map_of (ss_appServices st1) i = Some a \<and> as_ServiceID a = i)"
proof (cases "map_of (ss_appServices st) i")
  case (Some a)
  then show ?thesis using assms by (auto simp: getAppService_def GetAppService_def keyed_def)
next
  case None
  show ?thesis
  proof (cases "\<exists>a. InitCacheAppService (se_exDomain env) (se_newVersion env) (se_db env) i cid = Some (Inr a)")
    case True
    then obtain a where a: "InitCacheAppService (se_exDomain env) (se_newVersion env) (se_db env) i cid = Some (Inr a)" by blast
    have i: "as_ServiceID a = i" by (rule InitCacheAppService_id [OF a])
    have "keyed n (RegistAppService a st)"
      using keyed_Regist [OF assms(2), of a] None i by simp
    then show ?thesis using None assms a i by (auto simp: getAppService_def GetAppService_def RegistAppService_def split: if_splits)
  next
    case False
    then show ?thesis using None assms by (auto simp: getAppService_def GetAppService_def split: option.splits sum.splits if_splits)
  qed
qed

lemma keyed_add_object:
  assumes "add_object env nv k x store after st = Some st'" "keyed n st" "\<And>a a'. store a = Some a' \<Longrightarrow> as_ServiceID a' = as_ServiceID a"
  shows "keyed n st'"
  using assms(1,2)
  by (auto simp: add_object_def assms(3) dest!: keyed_get [where n = n] intro!: keyed_put split: option.splits sum.splits if_splits)

lemma keyed_del_object:
  assumes "del_object env nv cr cl x del st = Some (st', b)" "keyed n st" "\<And>a. as_ServiceID (del a) = as_ServiceID a"
  shows "keyed n st'"
  using assms(1,2)
  by (auto simp: del_object_def DeleteAppService_def Let_def assms(3) dest!: keyed_get [where n = n] intro!: keyed_put split: option.splits sum.splits if_splits)

lemma keyed_ep_add:
  assumes "ep_add env ep after st = Some st'" "keyed n st" "\<And>i st. keyed n (after i st) = keyed n st"
  shows "keyed n st'"
  using assms(1,2)
  by (auto simp: ep_add_def AddEndpoints_def assms(3) dest!: keyed_get [where n = n] intro!: keyed_put split: option.splits sum.splits if_splits)

definition workloads_keep_id :: "store_env \<Rightarrow> bool" where
  "workloads_keep_id env \<longleftrightarrow>
     (\<forall>x a. as_ServiceID (se_SetWorkload env x a) = as_ServiceID a \<and> as_ServiceID (se_DeleteWorkload env x a) = as_ServiceID a)"

lemma store_of_id: "workloads_keep_id env \<Longrightarrow> store_of env x a = Some a' \<Longrightarrow> as_ServiceID a' = as_ServiceID a"
  using SetDeployment_frame SetStatefulSet_frame
  by (cases x) (auto simp: workloads_keep_id_def SetReplicaSets_def SetSecret_def SetService_def SetIngress_def SetConfigMap_def SetHPA_def
      SetClaim_def SetServiceMonitor_def AddEndpoints_def SetPods_def)

lemma drop_of_id: "workloads_keep_id env \<Longrightarrow> as_ServiceID (drop_of env x a) = as_ServiceID a"
  by (cases x) (auto simp: workloads_keep_id_def DeleteDeployment_def DeleteStatefulSet_def DeleteReplicaSet_def DeleteSecrets_def DeleteServices_def
    DeleteIngress_def DeleteConfigMaps_def DelHPA_def DeleteClaim_def DeleteServiceMonitor_def DelEndpoints_def DeletePods_def)

lemma keyed_OnAdd: "OnAdd env x st = Some st' \<Longrightarrow> keyed n st \<Longrightarrow> workloads_keep_id env \<Longrightarrow> keyed n st'"
proof (cases "own_handler x")
  case False
  assume "OnAdd env x st = Some st'" "keyed n st" "workloads_keep_id env"
  then show ?thesis using keyed_add_object store_of_id unfolding OnAdd_uniform [OF False] by metis
next
  case True
  assume "OnAdd env x st = Some st'" "keyed n st"
  with True show ?thesis by (cases x) (auto simp: own_handler_def Let_def keyed_def)
qed

lemma keyed_handle:
  assumes "handle env ev st = Some st'" "keyed n st" "workloads_keep_id env"
  shows "keyed n st'"
proof (cases ev)
  case (Added x)
  show ?thesis
  proof (cases x)
    case (KPod p)
    then have "add_object env True (Some Pods) p (\<lambda>a. Some (SetPods p a)) (\<lambda>_. []) (SetPodResource p st) = Some st'"
      using assms Added by (simp add: pod_AddFunc_def)
    then show ?thesis by (rule keyed_add_object) (auto simp: assms(2) SetPods_def)
  next
    case (KEndpoints e)
    then show ?thesis using assms Added by (auto simp: endpoints_AddFunc_def elim!: keyed_ep_add [where n = n] split: if_splits)
  qed (use assms Added keyed_OnAdd [of env x st st' n] in \<open>simp_all del: OnAdd.simps\<close>)
next
  case (Updated old x)
  show ?thesis
  proof (cases x)
    case (KPod p)
    then obtain st1 where "add_object env True (Some Pods) p (\<lambda>a. Some (SetPods p a)) (\<lambda>_. []) (SetPodResource p st) = Some st1" "st' = notify_pod p st1"
      using assms Updated by (auto simp: pod_UpdateFunc_def)
    moreover from this(1) have "keyed n st1" by (rule keyed_add_object) (auto simp: assms(2) SetPods_def)
    ultimately show ?thesis by simp
  next
    case (KEndpoints e)
    then show ?thesis using assms Updated by (auto simp: endpoints_UpdateFunc_def elim!: keyed_ep_add [where n = n] split: if_splits)
  next
    case (KIngress i)
    have d: "as_ServiceID (DeleteIngress z a) = as_ServiceID a" for z a by (simp add: DeleteIngress_def)
    show ?thesis
      using assms Updated KIngress
      by (auto simp: OnUpdate_def d simp del: OnAdd.simps dest!: keyed_get [where n = n] elim!: keyed_OnAdd [where n = n] intro!: keyed_put
          split: kobj.splits if_splits option.splits sum.splits)
  qed (use assms Updated keyed_OnAdd [of env x st st' n] in \<open>simp_all add: OnUpdate_def del: OnAdd.simps\<close>)
next
  case (Deleted x)
  have d: "keyed n st''" if "delete_one env x st = Some (st'', b)" "\<not> own_handler x" for st'' b
  proof (cases "kind_name x = ''ThirdComponent''")
    case True
    then obtain y where "x = KThirdComponent y" by (cases x) simp_all
    then have "del_object env True True True y (se_DeleteWorkload env y) st = Some (st'', b)" using that(1) by simp
    then show ?thesis by (rule keyed_del_object) (use assms(2,3) in \<open>simp_all add: workloads_keep_id_def\<close>)
  next
    case False
    then show ?thesis
      using that(1) assms(2) drop_of_id [OF assms(3)] keyed_del_object [where n = n] unfolding delete_one_uniform [OF that(2) False] by metis
  qed
  show ?thesis
  proof (cases "own_handler x")
    case False
    then have "store_OnDelete env x st = Some st'" using assms Deleted by (cases x) (simp_all add: own_handler_def)
    then show ?thesis using d False by (auto simp: store_OnDelete_eq)
  next
    case True
    then show ?thesis
    proof (cases x)
      case (KPod p)
      then obtain b where "del_object env True False True p (DeletePods p) (RemovePod p st) = Some (st', b)"
        using assms Deleted by (auto simp: pod_DeleteFunc_def)
      then show ?thesis by (rule keyed_del_object) (simp_all add: assms DeletePods_def)
    next
      case (KEndpoints e)
      then obtain st1 b where "del_object env False False True e (DelEndpoints e) st = Some (st1, b)" "keyed n st' = keyed n st1"
        using assms Deleted by (auto simp: endpoints_DeleteFunc_def split: option.splits bool.splits if_splits)
      then show ?thesis using keyed_del_object [of env False False True e "DelEndpoints e" st st1 b n] assms(2) by (simp add: DelEndpoints_def)
    qed (use assms Deleted in \<open>auto simp: own_handler_def store_OnDelete_eq\<close>)
  qed
qed

end
