(* ===== verification/WkStoreProps.thy ===== *)
theory WkStoreProps
  imports ConvProps WkStoreRes
begin

text \<open>
  The properties of the worker's cache of components: it mirrors the cluster, the resources of the
  tenants are those of their pods, and the status of components and applications.
\<close>

section \<open>An example environment\<close>

definition wk_senv :: store_env where
  "wk_senv = \<lparr>se_db = wk_db [] False, se_exDomain = [], se_newVersion = ''1'',
     se_kind = (\<lambda>_. \<lparr>ck_IsCustomComponent = False, ck_IsThirdComponent = False, ck_workload = None\<rparr>),
     se_SetWorkload = (\<lambda>_ a. a), se_DeleteWorkload = (\<lambda>_ a. a), se_ServiceMonitorClient = True,
     se_GetVersionByServiceID = (\<lambda>_. Inr [''v'']), se_ListByAppID = (\<lambda>_. Inr [''sid'']), se_DeleteModelByVolumeTypes = (\<lambda>_. None),
     se_StatefulSet = (\<lambda>_ _. NotFound), se_Deployment = (\<lambda>_ _. NotFound), se_Service = (\<lambda>_ _. NotFound), se_Ingress = (\<lambda>_ _. NotFound),
     se_Secret = (\<lambda>ns n. if ns = ''rbd'' then Found \<lparr>ko_Name = n, ko_Namespace = ns, ko_ResourceVersion = ''1'', ko_Labels = [],
        ko_Annotations = [], ko_CreationTimestamp = 0, ko_UID = [], ko_Body = 0, sk_Data = [(''k'', ''v'')], sk_Type = ''Opaque''\<rparr> else NotFound),
     se_Pod = (\<lambda>_ _. NotFound), se_HPA = (\<lambda>_ _. NotFound), se_Pods = (\<lambda>_. Inr [])\<rparr>"

definition wk_labels :: "(string, string) gomap" where
  "wk_labels = [(''service_id'', ''sid''), (''creater_id'', ''c''), (''version'', ''v'')]"

definition wk_service :: ServiceObject where
  "wk_service = zero_Service\<lparr>ko_Name := ''svc'', ko_Namespace := ''t'', ko_Labels := wk_labels\<rparr>"

definition wk_pod :: Pod where
  "wk_pod = \<lparr>ko_Name = ''p'', ko_Namespace = ''t'', ko_ResourceVersion = ''1'', ko_Labels = wk_labels, ko_Annotations = [], ko_CreationTimestamp = 0,
     ko_UID = [], ko_Body = 0, pd_Conditions = [], pd_Containers = [\<lparr>cn_Name = [], cn_Image = ''i'', cn_MemoryRequest = 64, cn_CPURequest = 250, cn_MemoryLimit = 64, cn_CPULimit = 250, cn_ReadinessProbe = None, cn_LivenessProbe = None\<rparr>],
     pd_NodeName = ''n'', pd_ContainerStatuses = [], pd_InitContainerStatuses = [], pd_Phase = ''Running'', pd_Reason = [], pd_DeletionTimestamp = None\<rparr>"

lemma wk_known: "known wk_senv sid" "home wk_senv sid = ''t''"
  by (simp_all add: known_def component_row_def home_def wk_senv_def wk_db_def wk_row_def ServiceKindThirdParty_def)

lemma wk_apart: "workloads_apart wk_senv" "workloads_keep_id wk_senv"
  by (simp_all add: workloads_apart_def workloads_keep_id_def wk_senv_def)

lemma wk_owned: "owned nv wk_service" "label wk_service ''service_id'' = ''sid''" "owned nv wk_pod" "label wk_pod ''service_id'' = ''sid''"
  by (simp_all add: owned_def label_def wk_service_def wk_pod_def wk_labels_def map_str_def)

lemma wk_valid_obj: "valid_obj wk_senv (KService wk_service)" "valid_obj wk_senv (KPod wk_pod)"
  by (simp_all add: valid_obj_def wk_known) (simp_all add: wk_service_def wk_pod_def)

lemma wk_run: "\<exists>st. store_run wk_senv {KPod wk_pod, KService wk_service} st"
proof -
  obtain st1 where st1: "handle wk_senv (Added (KService wk_service)) new_appRuntimeStore = Some st1"
    using handle_added_total [OF wk_valid_obj(1), of new_appRuntimeStore] by auto
  have r: "store_run wk_senv {KService wk_service} st1"
    by (rule store_run.added [OF store_run.start _ wk_valid_obj(1) st1]) simp
  obtain st2 where st2: "handle wk_senv (Added (KPod wk_pod)) st1 = Some st2"
    using handle_added_total [OF wk_valid_obj(2), of st1] by auto
  have "store_run wk_senv {KPod wk_pod, KService wk_service} st2"
    by (rule store_run.added [OF r _ wk_valid_obj(2) st2]) (simp add: obj_key_def)
  then show ?thesis by blast
qed

section \<open>The cache mirrors the cluster\<close>

text \<open>
  C3: for a component of the database that the platform deploys (not a third-party one), along every run
  of informer events in which each object labelled with a component belongs to such a component and is
  in the namespace of its tenant, only ingresses change their component, and deletions are delivered
  with the object: the services, ingresses, secrets, config maps, pods, autoscalers, replica sets and
  endpoints in its record are exactly the objects of these eight kinds in the cluster that carry its
  labels, each name once. Workloads, claims, storage classes and monitors are not part of the
  statement; a deletion delivered as \<open>DeletedFinalStateUnknown\<close> is not one of the events.
\<close>

theorem store_mirrors_cluster:
  assumes "store_run env c st" "workloads_apart env" "known env sid" "sid \<noteq> []"
  shows "set (items_at as_services st sid) = {d. KService d \<in> c \<and> owned False d \<and> label d ''service_id'' = sid} \<and>
    set (items_at as_ingresses st sid) = {d. KIngress d \<in> c \<and> owned False d \<and> label d ''service_id'' = sid} \<and>
    set (items_at as_secrets st sid) = {d. KSecret d \<in> c \<and> owned False d \<and> label d ''service_id'' = sid} \<and>
    set (items_at as_configMaps st sid) = {d. KConfigMap d \<in> c \<and> owned False d \<and> label d ''service_id'' = sid} \<and>
    set (items_at as_pods st sid) = {d. KPod d \<in> c \<and> owned True d \<and> label d ''service_id'' = sid} \<and>
    set (items_at as_hpas st sid) = {d. KHPA d \<in> c \<and> owned True d \<and> label d ''service_id'' = sid} \<and>
    set (items_at as_replicasets st sid) = {d. KReplicaSet d \<in> c \<and> owned True d \<and> label d ''service_id'' = sid} \<and>
    set (items_at as_endpoints st sid) = {d. KEndpoints d \<in> c \<and> owned False d \<and> label d ''service_id'' = sid} \<and>
    distinct (map ko_Name (items_at as_services st sid)) \<and> distinct (map ko_Name (items_at as_ingresses st sid)) \<and>
    distinct (map ko_Name (items_at as_secrets st sid)) \<and> distinct (map ko_Name (items_at as_configMaps st sid)) \<and>
    distinct (map ko_Name (items_at as_pods st sid)) \<and> distinct (map ko_Name (items_at as_hpas st sid)) \<and>
    distinct (map ko_Name (items_at as_replicasets st sid)) \<and> distinct (map ko_Name (items_at as_endpoints st sid))"
  using m_services.mirror [OF assms] m_ingresses.mirror [OF assms] m_secrets.mirror [OF assms] m_configmaps.mirror [OF assms]
    m_pods.mirror [OF assms] m_hpas.mirror [OF assms] m_replicasets.mirror [OF assms] m_endpoints.mirror [OF assms]
  by (intro conjI) (elim conjE, assumption)+

theorem store_mirrors_cluster_witness:
  "\<exists>st. store_run wk_senv {KPod wk_pod, KService wk_service} st \<and>
     set (items_at as_services st ''sid'') = {wk_service} \<and> set (items_at as_pods st ''sid'') = {wk_pod}"
proof -
  obtain st where st: "store_run wk_senv {KPod wk_pod, KService wk_service} st" using wk_run by blast
  note m = store_mirrors_cluster [OF st wk_apart(1) wk_known(1), of "''sid''"]
  have "{d. KService d \<in> {KPod wk_pod, KService wk_service} \<and> owned False d \<and> label d ''service_id'' = ''sid''} = {wk_service}"
    "{d. KPod d \<in> {KPod wk_pod, KService wk_service} \<and> owned True d \<and> label d ''service_id'' = ''sid''} = {wk_pod}"
    by (auto simp: wk_owned)
  with m st show ?thesis by (intro exI [of _ st]) simp
qed

text \<open>
  C19: the resources of a tenant are the sums over the pods of its namespace in the cluster, reduced to 64
  bits, whatever the order in which the map of pods is met.
\<close>

theorem tenant_resources:
  assumes "store_run env c st" "is_range rng"
  shows "tr_CPURequest (GetTenantResource rng ns st) =
      to_int64 (\<Sum>pod \<in> {pod. KPod pod \<in> c \<and> ko_Namespace pod = ns}. pr_CPURequest (CalculatePodResource pod)) \<and>
    tr_MemoryRequest (GetTenantResource rng ns st) =
      to_int64 (\<Sum>pod \<in> {pod. KPod pod \<in> c \<and> ko_Namespace pod = ns}. pr_MemoryRequest (CalculatePodResource pod)) \<and>
    tr_CPULimit (GetTenantResource rng ns st) =
      to_int64 (\<Sum>pod \<in> {pod. KPod pod \<in> c \<and> ko_Namespace pod = ns}. pr_CPULimit (CalculatePodResource pod)) \<and>
    tr_MemoryLimit (GetTenantResource rng ns st) =
      to_int64 (\<Sum>pod \<in> {pod. KPod pod \<in> c \<and> ko_Namespace pod = ns}. pr_MemoryLimit (CalculatePodResource pod))"
  using tenant_sums [OF assms, of ns] unfolding pods_in_def by blast

theorem tenant_resources_witness:
  "\<exists>st. store_run wk_senv {KPod wk_pod, KService wk_service} st \<and> tr_CPURequest (GetTenantResource id ''t'' st) = 250"
proof -
  obtain st where st: "store_run wk_senv {KPod wk_pod, KService wk_service} st" using wk_run by blast
  have "is_range (id :: NamespaceResource \<Rightarrow> NamespaceResource)" by (simp add: is_range_def)
  note m = tenant_resources [OF st this, of "''t''"]
  have "{pod. KPod pod \<in> {KPod wk_pod, KService wk_service} \<and> ko_Namespace pod = ''t''} = {wk_pod}" by (auto simp: wk_pod_def)
  with m st show ?thesis by (intro exI [of _ st]) (simp add: wk_pod_def CalculatePodResource_def zero_PodResource_def)
qed

text \<open>
  The handlers return on the objects of deployed components that are well formed, when they are added,
  updated or deleted; a deletion delivered as \<open>DeletedFinalStateUnknown\<close> is not such an object.
\<close>

theorem handlers_return:
  assumes "valid_obj env x" "well_formed x"
  shows "(\<exists>st'. handle env (Added x) st = Some st') \<and> (\<exists>st'. handle env (Deleted x) st = Some st') \<and>
    (valid_obj env old \<and> kind_name old = kind_name x \<and> (kind_name x = ''Ingress'' \<longrightarrow> owner old \<noteq> []) \<longrightarrow>
       (\<exists>st'. handle env (Updated old x) st = Some st'))"
  using handle_added_total [OF assms, of st] handle_deleted_total [OF assms, of st] handle_updated_total [OF assms(1) _ assms(2), of old st]
  by (metis option.exhaust)

theorem handlers_return_witness:
  "\<exists>st'. handle wk_senv (Updated (KPod wk_pod) (KPod wk_pod)) new_appRuntimeStore = Some st'"
  using handlers_return [OF wk_valid_obj(2), of new_appRuntimeStore "KPod wk_pod"] wk_valid_obj(2) by simp

text \<open>
  Runs of the cache with both writers: the informers' events, and the controllers and task executors
  that register components (\<open>again\<close> counts the registrations of components cached already).
\<close>

inductive cache_run :: "store_env \<Rightarrow> nat \<Rightarrow> appRuntimeStore \<Rightarrow> bool" for env where
  Start: "cache_run env 0 new_appRuntimeStore"
| Informer: "cache_run env again st \<Longrightarrow> handle env ev st = Some st' \<Longrightarrow> cache_run env again st'"
| First: "cache_run env again st \<Longrightarrow> GetAppService (as_ServiceID a) st = None \<Longrightarrow> cache_run env again (RegistAppService a st)"
| Again: "cache_run env again st \<Longrightarrow> GetAppService (as_ServiceID a) st \<noteq> None \<Longrightarrow> cache_run env (again + 1) (RegistAppService a st)"

text \<open>
  C33: in every run of informer events and of registrations by controllers and executors, each component
  is cached under its own identity and no identity is cached twice, and the counter of components is
  the number of cached components plus the number of registrations of components that were cached
  already (as a 32-bit integer): it counts components only as long as none is registered again.
\<close>

theorem components_under_their_id:
  assumes "cache_run env again st" "workloads_keep_id env"
  shows "distinct (map fst (ss_appServices st)) \<and> (\<forall>i a. GetAppService i st = Some a \<longrightarrow> as_ServiceID a = i) \<and>
    ss_appCount st = to_int32 (int (length (ss_appServices st) + again))"
proof -
  have "keyed again st"
    using assms(1)
  proof induction
    case Start
    then show ?case by (simp add: keyed_def new_appRuntimeStore_def wf_map_def)
  next
    case (Informer again st ev st')
    then show ?case using keyed_handle assms(2) by blast
  next
    case (First again st a)
    then show ?case using keyed_Regist [of again st a] by (simp add: GetAppService_def)
  next
    case (Again again st a)
    then show ?case using keyed_Regist [of again st a] by (auto simp: GetAppService_def)
  qed
  then show ?thesis by (simp add: keyed_def wf_map_def GetAppService_def)
qed

theorem components_under_their_id_witness:
  "\<exists>st. cache_run wk_senv 1 st \<and> length (ss_appServices st) = 1 \<and> ss_appCount st = 2"
proof -
  define st where "st = RegistAppService zero_AppService (RegistAppService zero_AppService new_appRuntimeStore)"
  have 1: "cache_run wk_senv 0 (RegistAppService zero_AppService new_appRuntimeStore)"
    by (rule cache_run.First [OF cache_run.Start]) (simp add: GetAppService_def new_appRuntimeStore_def)
  have "cache_run wk_senv (0 + 1) st" unfolding st_def
    by (rule cache_run.Again [OF 1]) (simp add: GetAppService_def RegistAppService_def)
  then have r: "cache_run wk_senv 1 st" by simp
  have l: "length (ss_appServices st) = 1" by (simp add: st_def RegistAppService_def new_appRuntimeStore_def)
  show ?thesis using components_under_their_id [OF r wk_apart(2)] r l by (auto simp: to_int32_def)
qed

section \<open>Status\<close>

lemma undeployed_known: "undeployed env sid \<noteq> UNKNOW"
  by (simp add: undeployed_def UNDEPLOY_def CLOSED_def UNKNOW_def split: sum.splits)

text \<open>
  The status of a component is always found, without refreshing the cache, and it is unknown exactly
  when the component is neither cached nor in the database.
\<close>

theorem status_of_component:
  "\<exists>s. GetAppServiceStatus env sid st = Some (s, st) \<and>
     (s = UNKNOW \<longleftrightarrow> GetAppService sid st = None \<and> (\<forall>row. GetServiceByID (se_db env) sid \<noteq> Inr (Some row)))"
proof (cases "GetAppService sid st")
  case (Some a)
  then show ?thesis using GetServiceStatus_known by (simp add: GetAppServiceStatus_def Let_def)
next
  case None
  then show ?thesis
    using undeployed_known by (auto simp: GetAppServiceStatus_def value_or_def CLOSED_def UNKNOW_def split: option.splits sum.splits)
qed

text \<open>
  C34: the status of an application depends only on the set of statuses of its deployed components: it
  has none without such components, is closed when all are closed, abnormal as soon as one is,
  then starting as soon as one is, stopping when all the others are stopping or closed, and running
  otherwise.
\<close>

theorem application_status:
  "getAppStatus m =
     (let S = snd ` set m - {UNDEPLOY} in
      if S = {} then AppStatus_NIL else if S = {CLOSED} then AppStatus_CLOSED
      else if ABNORMAL \<in> S \<or> SOMEABNORMAL \<in> S then AppStatus_ABNORMAL
      else if STARTING \<in> S then AppStatus_STARTING
      else if S \<subseteq> {STOPPING, CLOSED} then AppStatus_STOPPING else AppStatus_RUNNING)"
proof -
  define l where "l = filter (\<lambda>s. s \<noteq> UNDEPLOY) (map snd m)"
  have S: "snd ` set m - {UNDEPLOY} = set l" by (auto simp: l_def)
  have n: "appNil l \<longleftrightarrow> l = []" by (auto simp: appNil_def l_def list_all_iff filter_empty_conv)
  have c: "l \<noteq> [] \<Longrightarrow> appClosed l \<longleftrightarrow> set l = {CLOSED}" by (cases l) (auto simp: appClosed_def list_all_iff)
  have loop: "stopping_loop b k \<longleftrightarrow> set k \<subseteq> {STOPPING, CLOSED} \<and> (b \<or> STOPPING \<in> set k)" for b k
    by (induction k arbitrary: b) (auto simp: STOPPING_def CLOSED_def)
  have st: "l \<noteq> [] \<Longrightarrow> set l \<noteq> {CLOSED} \<Longrightarrow> appStopping l \<longleftrightarrow> set l \<subseteq> {STOPPING, CLOSED}"
    by (cases l) (auto simp: appStopping_def loop)
  show ?thesis
    unfolding S getAppStatus_def l_def [symmetric] Let_def
    using n c st by (simp add: appAbnormal_def appStarting_def list_ex_iff) blast
qed

section \<open>Probes of third-party components\<close>

lemma addProbe_set:
  "distinct (map (\<lambda>p. (pi_IP p, pi_Port p)) (addProbe p l)) = distinct (map (\<lambda>p. (pi_IP p, pi_Port p)) l)"
  "(\<lambda>p. (pi_IP p, pi_Port p)) ` set (addProbe p l) = insert (pi_IP p, pi_Port p) ((\<lambda>p. (pi_IP p, pi_Port p)) ` set l)"
proof -
  let ?k = "\<lambda>p. (pi_IP p, pi_Port p)"
  have e: "list_ex (\<lambda>c. pi_IP c = pi_IP p \<and> pi_Port c = pi_Port p) l \<longleftrightarrow> ?k p \<in> ?k ` set l"
    by (simp add: list_ex_iff image_iff) metis
  show "distinct (map ?k (addProbe p l)) = distinct (map ?k l)" "?k ` set (addProbe p l) = insert (?k p) (?k ` set l)"
    unfolding addProbe_def e by (simp_all add: insert_absorb)
qed

lemma probes_of_hosts:
  "distinct (map (\<lambda>p. (pi_IP p, pi_Port p)) (fold (\<lambda>host. addProbe (probe_of sid port host)) hosts l)) = distinct (map (\<lambda>p. (pi_IP p, pi_Port p)) l)"
  "(\<lambda>p. (pi_IP p, pi_Port p)) ` set (fold (\<lambda>host. addProbe (probe_of sid port host)) hosts l) =
     (\<lambda>h. (h, port)) ` set hosts \<union> (\<lambda>p. (pi_IP p, pi_Port p)) ` set l"
  by (induction hosts arbitrary: l) (simp_all add: addProbe_set probe_of_def)

lemma probes_of_steps:
  "distinct (map (\<lambda>p. (pi_IP p, pi_Port p)) (fold (\<lambda>(port, hosts). fold (\<lambda>host. addProbe (probe_of sid port host)) hosts) steps l)) =
     distinct (map (\<lambda>p. (pi_IP p, pi_Port p)) l)"
  "(\<lambda>p. (pi_IP p, pi_Port p)) ` set (fold (\<lambda>(port, hosts). fold (\<lambda>host. addProbe (probe_of sid port host)) hosts) steps l) =
     (\<Union>(port, hosts) \<in> set steps. (\<lambda>h. (h, port)) ` set hosts) \<union> (\<lambda>p. (pi_IP p, pi_Port p)) ` set l"
  by (induction steps arbitrary: l) (simp_all add: probes_of_hosts case_prod_beta Un_assoc Un_left_commute)

text \<open>
  A third-party component without a domain is probed at every port of each of its addresses, ready
  or not, once each.
\<close>

theorem probes_of_endpoints:
  assumes "map_str (ko_Annotations ep) ''domain'' = []"
  shows "distinct (map (\<lambda>p. (pi_IP p, pi_Port p)) (listProbeInfos ep sid)) \<and>
    (\<lambda>p. (pi_IP p, pi_Port p)) ` set (listProbeInfos ep sid) =
      {(h, snd port) | h port s. s \<in> set (eo_Subsets ep) \<and> port \<in> set (es_Ports s) \<and> h \<in> set (es_NotReadyAddresses s) \<union> set (es_Addresses s)}"
proof -
  define steps where "steps = probe_steps (eo_Subsets ep)"
  have l: "listProbeInfos ep sid = fold (\<lambda>(port, hosts). fold (\<lambda>host. addProbe (probe_of sid port host)) hosts) steps []"
    using assms by (auto simp: listProbeInfos_def steps_def Let_def split: list.splits)
  have set: "set steps = (\<Union>s \<in> set (eo_Subsets ep). (\<lambda>port. (snd port, es_NotReadyAddresses s @ es_Addresses s)) ` set (es_Ports s))"
    by (simp add: steps_def probe_steps_def)
  let ?R = "{(h, snd port) | h port s. s \<in> set (eo_Subsets ep) \<and> port \<in> set (es_Ports s) \<and> h \<in> set (es_NotReadyAddresses s) \<union> set (es_Addresses s)}"
  have "(\<Union>(port, hosts) \<in> set steps. (\<lambda>h. (h, port)) ` set hosts) = ?R"
  proof (intro equalityI subsetI)
    fix z assume "z \<in> (\<Union>(port, hosts) \<in> set steps. (\<lambda>h. (h, port)) ` set hosts)"
    then obtain port hosts h where "(port, hosts) \<in> set steps" "h \<in> set hosts" "z = (h, port)" by auto
    moreover from this(1) obtain s p where "s \<in> set (eo_Subsets ep)" "p \<in> set (es_Ports s)" "port = snd p" "hosts = es_NotReadyAddresses s @ es_Addresses s"
      by (auto simp: set)
    ultimately show "z \<in> ?R" by (intro CollectI exI [of _ h] exI [of _ p] exI [of _ s]) simp
  next
    fix z assume "z \<in> ?R"
    then obtain h p s where z: "z = (h, snd p)" "s \<in> set (eo_Subsets ep)" "p \<in> set (es_Ports s)" "h \<in> set (es_NotReadyAddresses s) \<union> set (es_Addresses s)"
      by blast
    then have "(snd p, es_NotReadyAddresses s @ es_Addresses s) \<in> set steps" unfolding set by blast
    then show "z \<in> (\<Union>(port, hosts) \<in> set steps. (\<lambda>h. (h, port)) ` set hosts)" by (rule UN_I) (use z in simp)
  qed
  then show ?thesis unfolding l probes_of_steps by simp
qed

theorem probes_of_endpoints_witness:
  "(\<lambda>p. (pi_IP p, pi_Port p)) ` set (listProbeInfos \<lparr>ko_Name = ''e'', ko_Namespace = ''t'', ko_ResourceVersion = [], ko_Labels = [], ko_Annotations = [],
     ko_CreationTimestamp = 0, ko_UID = [], ko_Body = 0, eo_Subsets = [\<lparr>es_Addresses = [''1.1.1.1''], es_NotReadyAddresses = [], es_Ports = [(''p'', 80)]\<rparr>]\<rparr> ''s'') =
   {(''1.1.1.1'', 80)}"
  using probes_of_endpoints [of "\<lparr>ko_Name = ''e'', ko_Namespace = ''t'', ko_ResourceVersion = [], ko_Labels = [], ko_Annotations = [],
     ko_CreationTimestamp = 0, ko_UID = [], ko_Body = 0, eo_Subsets = [\<lparr>es_Addresses = [''1.1.1.1''], es_NotReadyAddresses = [], es_Ports = [(''p'', 80)]\<rparr>]\<rparr>" "''s''"]
  by (simp add: map_str_def)

section \<open>Image pull secrets\<close>

text \<open>What the cluster does with the requests: the lister then shows the created or updated secret.\<close>

fun apply_secret :: "effect \<Rightarrow> store_env \<Rightarrow> store_env" where
  "apply_secret (CreateSecret s) env = env\<lparr>se_Secret := (\<lambda>ns n. if ns = ko_Namespace s \<and> n = ko_Name s then Found s else se_Secret env ns n)\<rparr>"
| "apply_secret (UpdateSecret s) env = env\<lparr>se_Secret := (\<lambda>ns n. if ns = ko_Namespace s \<and> n = ko_Name s then Found s else se_Secret env ns n)\<rparr>"
| "apply_secret _ env = env"

lemma pull_secret_same: "wf_map (sk_Data a) \<Longrightarrow> sk_Data b = sk_Data a \<Longrightarrow> isImagePullSecretEqual a b"
  by (auto simp: isImagePullSecretEqual_def wf_map_def list_all_iff)

lemma pull_secret_equal:
  assumes "isImagePullSecretEqual a b" "wf_map (sk_Data a)" "wf_map (sk_Data b)"
  shows "map_of (sk_Data b) = map_of (sk_Data a)"
proof -
  have "set (sk_Data a) \<subseteq> set (sk_Data b)"
    using assms(1) by (auto simp: isImagePullSecretEqual_def list_all_iff split: if_splits dest: map_of_SomeD)
  moreover have "card (set (sk_Data a)) = card (set (sk_Data b))"
    using assms by (simp add: isImagePullSecretEqual_def wf_map_def distinct_map distinct_card split: if_splits)
  ultimately have "set (sk_Data a) = set (sk_Data b)" by (simp add: card_subset_eq)
  then show ?thesis using assms(2,3) by (metis map_of_inject_set wf_map_def)
qed

text \<open>
  The image pull secret of a namespace settles: once the cluster has done what was asked, the
  namespace has a secret with the data of the platform's secret, and nothing more is asked.
\<close>

theorem pull_secret_settles:
  assumes "createOrUpdateImagePullSecret env name rbd ns = Some es" "name \<noteq> []" "se_Secret env rbd name = Found raw" "wf_map (sk_Data raw)"
    and "\<And>ns' s. se_Secret env ns' name = Found s \<Longrightarrow> ko_Namespace s = ns' \<and> ko_Name s = name \<and> wf_map (sk_Data s)"
    and "env' = fold apply_secret es env"
  shows "(\<exists>s. se_Secret env' ns name = Found s \<and> map_of (sk_Data s) = map_of (sk_Data raw)) \<and>
    createOrUpdateImagePullSecret env' name rbd ns = Some []"
proof (cases "se_Secret env ns name")
  case NotFound
  have raw: "ko_Name raw = name" "ns \<noteq> rbd" using assms(3,5) NotFound by auto
  define new where "new = \<lparr>ko_Name = ko_Name raw, ko_Namespace = ns, ko_ResourceVersion = [], ko_Labels = [],
                          ko_Annotations = [], ko_CreationTimestamp = 0, ko_UID = [], ko_Body = 0, sk_Data = sk_Data raw, sk_Type = sk_Type raw\<rparr>"
  have "es = [CreateSecret new]" using assms(1-3) NotFound by (simp add: createOrUpdateImagePullSecret_def new_def)
  then have "se_Secret env' ns name = Found new" "se_Secret env' rbd name = Found raw"
    using raw assms(3,6) by (simp_all add: new_def)
  moreover have "sk_Data new = sk_Data raw" by (simp add: new_def)
  ultimately show ?thesis
    using assms(2) pull_secret_same [OF assms(4)] by (auto simp: createOrUpdateImagePullSecret_def)
next
  case ListerError
  then show ?thesis using assms(1-3) by (simp add: createOrUpdateImagePullSecret_def)
next
  case (Found cur)
  show ?thesis
  proof (cases "isImagePullSecretEqual raw cur")
    case True
    then have "es = []" using assms(1-3) Found by (simp add: createOrUpdateImagePullSecret_def)
    moreover have "map_of (sk_Data cur) = map_of (sk_Data raw)" using pull_secret_equal [OF True assms(4)] assms(5) [OF Found] by blast
    ultimately show ?thesis using True Found assms(2,3,6) by (auto simp: createOrUpdateImagePullSecret_def)
  next
    case False
    have "ns \<noteq> rbd" using False Found assms(3) pull_secret_same [OF assms(4)] by auto
    moreover have "es = [UpdateSecret (cur\<lparr>sk_Data := sk_Data raw\<rparr>)]"
      using assms(1-3) Found False by (simp add: createOrUpdateImagePullSecret_def)
    ultimately have "se_Secret env' ns name = Found (cur\<lparr>sk_Data := sk_Data raw\<rparr>)" "se_Secret env' rbd name = Found raw"
      using assms(3,6) assms(5) [OF Found] by auto
    then show ?thesis using assms(2) pull_secret_same [OF assms(4), of "cur\<lparr>sk_Data := sk_Data raw\<rparr>"]
      by (auto simp: createOrUpdateImagePullSecret_def)
  qed
qed

theorem pull_secret_settles_witness:
  "\<exists>es s. createOrUpdateImagePullSecret wk_senv ''hub'' ''rbd'' ''t'' = Some es \<and>
     se_Secret (fold apply_secret es wk_senv) ''t'' ''hub'' = Found s \<and> map_of (sk_Data s) ''k'' = Some ''v''"
proof -
  obtain raw where raw: "se_Secret wk_senv ''rbd'' ''hub'' = Found raw" "sk_Data raw = [(''k'', ''v'')]" by (simp add: wk_senv_def)
  obtain es where es: "createOrUpdateImagePullSecret wk_senv ''hub'' ''rbd'' ''t'' = Some es"
    by (simp add: createOrUpdateImagePullSecret_def wk_senv_def)
  have "ko_Namespace s = ns' \<and> ko_Name s = ''hub'' \<and> wf_map (sk_Data s)" if "se_Secret wk_senv ns' ''hub'' = Found s" for ns' s
    using that by (auto simp: wk_senv_def wf_map_def split: if_splits)
  then obtain s where "se_Secret (fold apply_secret es wk_senv) ''t'' ''hub'' = Found s" "map_of (sk_Data s) = map_of (sk_Data raw)"
    using pull_secret_settles [OF es _ raw(1) _ _ refl] raw(2) by (auto simp: wf_map_def)
  then show ?thesis using es raw(2) by auto
qed

section \<open>Error behaviour\<close>

text \<open>
  A replica set whose component is not in the database is not deleted; what is deleted is the
  deployment of the same name in its namespace.
\<close>

theorem orphaned_replica_set:
  assumes "GetAppService (label rs ''service_id'') st = None" "owned True rs"
    and "InitCacheAppService (se_exDomain env) (se_newVersion env) (se_db env) (label rs ''service_id'') (label rs ''creater_id'') = Some (Inl ErrServiceNotFound)"
  shows "\<exists>st'. handle env (Added (KReplicaSet rs)) st = Some st' \<and>
     ss_effects st' = ss_effects st @ [ClientDelete Deployments (ko_Namespace rs) (ko_Name rs)]"
  using assms by (simp add: add_object_def getAppService_def delete_orphan_def emit_def)

definition wk_rs :: ReplicaSetObject where
  "wk_rs = \<lparr>ko_Name = ''rs'', ko_Namespace = ''t'', ko_ResourceVersion = ''1'', ko_Labels = wk_labels, ko_Annotations = [], ko_CreationTimestamp = 0, ko_UID = [], ko_Body = 0,
     rs_Replicas = 1, rs_ReadyReplicas = 1, rs_AvailableReplicas = 1\<rparr>"

theorem orphaned_replica_set_witness:
  "\<exists>st'. handle (wk_senv\<lparr>se_db := (wk_db [] False)\<lparr>GetServiceByID := (\<lambda>_. Inl ErrRecordNotFound)\<rparr>\<rparr>) (Added (KReplicaSet wk_rs)) new_appRuntimeStore = Some st' \<and>
     ss_effects st' = [ClientDelete Deployments ''t'' ''rs'']"
proof -
  let ?env = "wk_senv\<lparr>se_db := (wk_db [] False)\<lparr>GetServiceByID := (\<lambda>_. Inl ErrRecordNotFound)\<rparr>\<rparr>"
  have "\<exists>st'. handle ?env (Added (KReplicaSet wk_rs)) new_appRuntimeStore = Some st' \<and>
     ss_effects st' = ss_effects new_appRuntimeStore @ [ClientDelete Deployments (ko_Namespace wk_rs) (ko_Name wk_rs)]"
    by (rule orphaned_replica_set)
      (simp_all add: GetAppService_def new_appRuntimeStore_def owned_def label_def wk_rs_def wk_labels_def map_str_def
        InitCacheAppService_def with_governance_def TenantServiceBase_def wk_db_def)
  then show ?thesis by (simp add: new_appRuntimeStore_def wk_rs_def)
qed

text \<open>
  \<open>OnDeletes\<close> stops at the first object whose component is cached: the objects after it are not
  looked at.
\<close>

theorem OnDeletes_stops:
  assumes "GetAppService (label d ''service_id'') st = Some a" "owned False d"
  shows "OnDeletes env (KService d # objs) st = OnDeletes env [KService d] st"
  using assms by (auto simp: del_object_def getAppService_def Let_def split: option.splits)

theorem OnDeletes_stops_witness:
  "OnDeletes wk_senv [KService wk_service, KPod wk_pod] (put_app ''sid'' wk_app new_appRuntimeStore) =
   OnDeletes wk_senv [KService wk_service] (put_app ''sid'' wk_app new_appRuntimeStore)"
  by (rule OnDeletes_stops [of _ _ wk_app]) (simp_all add: wk_owned GetAppService_def put_app_def new_appRuntimeStore_def)

text \<open>
  The scaling events of stateful sets are never recorded: the API server names the kind
  \<open>StatefulSet\<close>, the table of record types \<open>Statefulset\<close>.
\<close>

theorem stateful_scaling_unrecorded:
  "ke_Kind evt = ''StatefulSet'' \<Longrightarrow> evt_AddFunc env evt = None \<and> evt_UpdateFunc env oevt evt = None"
  by (simp add: evt_AddFunc_def evt_UpdateFunc_def scaling_record_def rc2RecordType_def)

theorem stateful_scaling_unrecorded_witness:
  "evt_AddFunc wk_senv \<lparr>ke_Name = ''e'', ke_Kind = ''StatefulSet'', ke_ObjNamespace = ''t'', ke_ObjName = ''s'', ke_Count = 1, ke_Reason = [], ke_Message = [],
     ke_ResourceVersion = ''1'', ke_LastTimestamp = 0\<rparr> = None"
  using stateful_scaling_unrecorded [of "\<lparr>ke_Name = ''e'', ke_Kind = ''StatefulSet'', ke_ObjNamespace = ''t'', ke_ObjName = ''s'', ke_Count = 1, ke_Reason = [], ke_Message = [],
     ke_ResourceVersion = ''1'', ke_LastTimestamp = 0\<rparr>" wk_senv] by simp

end
