(* ===== verification/WkKube.thy ===== *)
theory WkKube
  imports WkStore
begin

text \<open>
  \<open>worker/appm/f/function.go\<close> and \<open>worker/appm/controller/kube-controller.go\<close>: how the objects of a component
  are brought into the cluster.

  \<^item> client-go is not in the repository. A \<open>Clientset\<close> is a record of one \<open>kind_client\<close> per kind of object, whose
    methods are functions on the state \<open>'w\<close> of the cluster; a method returns an object and an error, as the
    typed clients do, which return a pointer that is not nil also with an error. What the proofs use of the
    methods is stated as hypotheses where it is used.
  \<^item> An error of the API server is the reason it carries (\<open>kube_error\<close>). Messages for the log are left out.
  \<^item> \<open>rng\<close> is the order in which a map is met.
\<close>

section \<open>The client\<close>

datatype kube_error = IsNotFound | IsAlreadyExists | IsInvalid | IsConflict | IsForbidden | OtherReason string

record ('w, 'o) kind_client =
  kc_Get :: "string \<Rightarrow> string \<Rightarrow> 'w \<Rightarrow> ('o \<times> kube_error option) \<times> 'w"
  kc_Create :: "string \<Rightarrow> 'o \<Rightarrow> 'w \<Rightarrow> ('o \<times> kube_error option) \<times> 'w"
  kc_Update :: "string \<Rightarrow> 'o \<Rightarrow> 'w \<Rightarrow> ('o \<times> kube_error option) \<times> 'w"
  kc_UpdateStatus :: "string \<Rightarrow> 'o \<Rightarrow> 'w \<Rightarrow> ('o \<times> kube_error option) \<times> 'w"
  kc_Patch :: "string \<Rightarrow> string \<Rightarrow> string \<Rightarrow> bytes \<Rightarrow> 'w \<Rightarrow> ('o \<times> kube_error option) \<times> 'w"
  kc_Delete :: "string \<Rightarrow> string \<Rightarrow> 'w \<Rightarrow> kube_error option \<times> 'w"
  kc_DeleteCollection :: "string \<Rightarrow> (string, string) gomap \<Rightarrow> 'w \<Rightarrow> kube_error option \<times> 'w"
  kc_List :: "string \<Rightarrow> (string, string) gomap \<Rightarrow> 'w \<Rightarrow> ('o list \<times> kube_error option) \<times> 'w"

text \<open>Namespaces are not in a namespace; the tenant of a component may be nil.\<close>

record 'w Clientset =
  cl_GetNamespace :: "string \<Rightarrow> 'w \<Rightarrow> kube_error option \<times> 'w"
  cl_CreateNamespace :: "k8s_object option \<Rightarrow> 'w \<Rightarrow> kube_error option \<times> 'w"
  cl_DeleteNamespace :: "string \<Rightarrow> 'w \<Rightarrow> kube_error option \<times> 'w"
  cl_ConfigMaps :: "('w, k8s_object) kind_client"
  cl_Claims :: "('w, k8s_object) kind_client"
  cl_Volumes :: "('w, k8s_object) kind_client"
  cl_StatefulSets :: "('w, Workload) kind_client"
  cl_Deployments :: "('w, Workload) kind_client"
  cl_Services :: "('w, ServiceObject) kind_client"
  cl_Secrets :: "('w, SecretObject) kind_client"
  cl_Ingresses :: "('w, IngressObject) kind_client"
  cl_HPAs :: "('w, HPAObject) kind_client"
  cl_Endpoints :: "('w, EndpointsObject) kind_client"
  cl_Pods :: "('w, Pod) kind_client"
  cl_ServiceMonitors :: "('w, k8s_object) kind_client"

text \<open>The errors of the controllers: a failed request with the words the code puts before it, and the two
  errors of the waiting loops.\<close>

datatype run_error = Failed string kube_error | ErrWaitTimeOut | ErrWaitCancel | ErrInit

section \<open>Ensuring single objects\<close>

fun persist_loop :: "'w Clientset \<Rightarrow> ServiceObject \<Rightarrow> nat \<Rightarrow> run_error option \<Rightarrow> 'w \<Rightarrow> run_error option \<times> 'w" where
  "persist_loop c service 0 err w = (err, w)"
| "persist_loop c service (Suc n) err w =
     (case kc_UpdateStatus (cl_Services c) (ko_Namespace service) service w of
        ((_, None), w) \<Rightarrow> (None, w)
      | ((_, Some e), w) \<Rightarrow>
          if e = IsNotFound then (None, w)
          else if e = IsConflict then (Some (Failed ''not persisting update to service'' e), w)
          else persist_loop c service n (Some (Failed [] e)) w)"

definition clientRetryCount :: nat where "clientRetryCount = 5"

definition persistUpdate :: "'w Clientset \<Rightarrow> ServiceObject \<Rightarrow> 'w \<Rightarrow> run_error option \<times> 'w" where
  "persistUpdate c service w = persist_loop c service clientRetryCount None w"

definition ensureService :: "'w Clientset \<Rightarrow> ServiceObject \<Rightarrow> 'w \<Rightarrow> run_error option \<times> 'w" where
  "ensureService c new w =
     (case kc_Get (cl_Services c) (ko_Namespace new) (ko_Name new) w of
        ((_, Some e), w) \<Rightarrow>
          if e = IsNotFound
          then (let (_, w) = kc_Create (cl_Services c) (ko_Namespace new) new w in (None, w))
          else (Some (Failed [] e), w)
      | ((old, None), w) \<Rightarrow>
          persistUpdate c (old\<lparr>so_Ports := so_Ports new, so_Selector := so_Selector new, so_Type := so_Type new,
            so_ClusterIP := so_ClusterIP new, so_PublishNotReadyAddresses := so_PublishNotReadyAddresses new,
            ko_Labels := ko_Labels new, ko_Annotations := ko_Annotations new\<rparr>) w)"

text \<open>\<open>ensureIngress\<close> and \<open>ensureSecret\<close>: update, and create when there is nothing to update.\<close>

definition update_or_create :: "('w, 'a k8s_object_scheme) kind_client \<Rightarrow> 'a k8s_object_scheme \<Rightarrow> 'w \<Rightarrow> 'w" where
  "update_or_create kc x w =
     (case kc_Update kc (ko_Namespace x) x w of
        ((_, None), w) \<Rightarrow> w
      | ((_, Some e), w) \<Rightarrow> if e = IsNotFound then snd (kc_Create kc (ko_Namespace x) x w) else w)"

definition ensureIngress :: "'w Clientset \<Rightarrow> IngressObject \<Rightarrow> 'w \<Rightarrow> 'w" where
  "ensureIngress c ingress w = update_or_create (cl_Ingresses c) ingress w"

definition ensureSecret :: "'w Clientset \<Rightarrow> SecretObject \<Rightarrow> 'w \<Rightarrow> 'w" where
  "ensureSecret c secret w = update_or_create (cl_Secrets c) secret w"

text \<open>Semantic equality of two labels.\<close>

definition same_map :: "('k, 'v) gomap \<Rightarrow> ('k, 'v) gomap \<Rightarrow> bool" where
  "same_map a b \<longleftrightarrow> length a = length b \<and> list_all (\<lambda>(k, v). map_of b k = Some v) a"

definition zero_Endpoints :: EndpointsObject where
  "zero_Endpoints =
     \<lparr>ko_Name = [], ko_Namespace = [], ko_ResourceVersion = [], ko_Labels = [], ko_Annotations = [], ko_CreationTimestamp = 0,
      ko_UID = [], ko_Body = 0, eo_Subsets = []\<rparr>"

definition EnsureEndpoints :: "'w Clientset \<Rightarrow> EndpointsObject \<Rightarrow> 'w \<Rightarrow> kube_error option \<times> 'w" where
  "EnsureEndpoints c ep w =
     (let kc = cl_Endpoints c; ((got, err), w) = kc_Get kc (ko_Namespace ep) (ko_Name ep) w in
      if err \<noteq> None \<and> err \<noteq> Some IsNotFound then (err, w)
      else
        let current = (if err = None then got else zero_Endpoints\<lparr>ko_Name := ko_Name ep, ko_Labels := ko_Labels ep\<rparr>);
            createEndpoints = (length (ko_ResourceVersion current) = 0)
        in if \<not> createEndpoints \<and> eo_Subsets current = eo_Subsets ep \<and> same_map (ko_Labels current) (ko_Labels ep)
           then (None, w)
           else
             let newEndpoints = current\<lparr>eo_Subsets := eo_Subsets ep, ko_Labels := ko_Labels ep\<rparr>;
                 ((_, err), w) = (if createEndpoints then kc_Create kc (ko_Namespace ep) newEndpoints w
                                  else kc_Update kc (ko_Namespace ep) newEndpoints w)
             in (err, w))"

definition EnsureHPA :: "'w Clientset \<Rightarrow> HPAObject \<Rightarrow> 'w \<Rightarrow> 'w" where
  "EnsureHPA c new w =
     (let kc = cl_HPAs c in
      case kc_Get kc (ko_Namespace new) (ko_Name new) w of
        ((_, Some e), w) \<Rightarrow> if e = IsNotFound then snd (kc_Create kc (ko_Namespace new) new w) else w
      | ((_, None), w) \<Rightarrow> snd (kc_Update kc (ko_Namespace new) new w))"

definition CreateOrUpdateSecret :: "'w Clientset \<Rightarrow> SecretObject \<Rightarrow> 'w \<Rightarrow> kube_error option \<times> 'w" where
  "CreateOrUpdateSecret c secret w =
     (let kc = cl_Secrets c in
      case kc_Get kc (ko_Namespace secret) (ko_Name secret) w of
        ((_, Some e), w) \<Rightarrow>
          if e \<noteq> IsNotFound then (Some e, w)
          else (let ((_, err), w) = kc_Create kc (ko_Namespace secret) secret w in (err, w))
      | ((old, None), w) \<Rightarrow>
          (let ((_, err), w) = kc_Update kc (ko_Namespace secret) (secret\<lparr>ko_ResourceVersion := ko_ResourceVersion old\<rparr>) w
           in (err, w)))"

section \<open>ApplyOne\<close>

definition apply_namespace :: "'w Clientset \<Rightarrow> AppService \<Rightarrow> 'w \<Rightarrow> run_error option \<times> 'w" where
  "apply_namespace c app w =
     (case cl_GetNamespace c (as_TenantID app) w of
        (None, w) \<Rightarrow> (None, w)
      | (Some e, w) \<Rightarrow>
          if e = IsNotFound
          then (case cl_CreateNamespace c (as_tenant app) w of
                  (None, w) \<Rightarrow> (None, w)
                | (Some e, w) \<Rightarrow>
                    if e \<noteq> IsAlreadyExists then (Some (Failed ''error creating namespace'' e), w)
                    else (Some (Failed ''error checking namespace'' e), w))
          else (Some (Failed ''error checking namespace'' e), w))"

text \<open>\<open>Spec.TLS[0]\<close> is the secret of an ingress.\<close>

definition apply_domain :: "'w Clientset \<Rightarrow> AppService \<Rightarrow> string \<Rightarrow> 'w \<Rightarrow> 'w" where
  "apply_domain c app domain w =
     fold (\<lambda>ing w.
       if length (io_Rules ing) > 0 \<and> ir_Host (io_Rules ing ! 0) = domain
       then ensureIngress c ing
              (if length (io_TLS ing) > 0
               then fold (\<lambda>secret w. if it_SecretName (io_TLS ing ! 0) = ko_Name secret then ensureSecret c secret w else w)
                      (as_secrets app) w
               else w)
       else w) (as_ingresses app) w"

definition apply_tcp_address :: "'w Clientset \<Rightarrow> AppService \<Rightarrow> string \<Rightarrow> 'w \<Rightarrow> 'w" where
  "apply_tcp_address c app domain w =
     fold (\<lambda>ing w.
       (case map_of (ko_Annotations ing) (GetAnnotationWithPrefix ''l4-host'') of
          None \<Rightarrow> w
        | Some host \<Rightarrow>
            if host @ '':'' @ map_str (ko_Annotations ing) (GetAnnotationWithPrefix ''l4-port'') = domain
            then ensureIngress c ing w else w)) (as_ingresses app) w"

definition apply_all :: "'w Clientset \<Rightarrow> AppService \<Rightarrow> 'w \<Rightarrow> 'w" where
  "apply_all c app w =
     (let w = fold (\<lambda>x w. snd (ensureService c x w)) (as_services app) w;
          w = fold (ensureSecret c) (as_secrets app) w;
          w = fold (\<lambda>x w. snd (EnsureEndpoints c x w)) (as_endpoints app) w
      in fold (ensureIngress c) (as_ingresses app) w)"

definition delete_objects :: "('w, 'a k8s_object_scheme) kind_client \<Rightarrow> 'a k8s_object_scheme list \<Rightarrow> 'w \<Rightarrow> 'w" where
  "delete_objects kc xs w = fold (\<lambda>x w. snd (kc_Delete kc (ko_Namespace x) (ko_Name x) w)) xs w"

definition ApplyOne :: "'w Clientset \<Rightarrow> AppService \<Rightarrow> 'w \<Rightarrow> run_error option \<times> 'w" where
  "ApplyOne c app w =
     (case apply_namespace c app w of
        (Some err, w) \<Rightarrow> (Some err, w)
      | (None, w) \<Rightarrow>
          (let w = (case as_CustomParams app of
                      None \<Rightarrow> apply_all c app w
                    | Some params \<Rightarrow>
                        (let w = (case map_of params ''domain'' of None \<Rightarrow> w | Some domain \<Rightarrow> apply_domain c app domain w)
                         in case map_of params ''tcp-address'' of None \<Rightarrow> w | Some domain \<Rightarrow> apply_tcp_address c app domain w));
               w = delete_objects (cl_Ingresses c) (as_delIngs app) w;
               w = delete_objects (cl_Secrets c) (as_delSecrets app) w;
               w = delete_objects (cl_Services c) (as_delServices app) w
           in (None, w)))"

section \<open>Upgrades of collections\<close>

text \<open>\<open>UpgradeIngress\<close>, \<open>UpgradeSecrets\<close> and \<open>UpgradeServiceMonitor\<close> have one shape: \<open>upd\<close> is what a successful
  update stores in the component (it is given the object sent and the object returned), \<open>crt\<close> what a successful
  creation stores. An object whose update fails stays in the map of old objects.\<close>

definition name_map :: "'a k8s_object_scheme list \<Rightarrow> (string, 'a k8s_object_scheme) gomap" where
  "name_map xs = fold (\<lambda>x m. map_set (ko_Name x) x m) xs []"

definition carry_over :: "'a k8s_object_scheme \<Rightarrow> 'a k8s_object_scheme \<Rightarrow> 'a k8s_object_scheme" where
  "carry_over o1 n = n\<lparr>ko_UID := ko_UID o1, ko_ResourceVersion := ko_ResourceVersion o1\<rparr>"

fun upgrade_new ::
  "('w, 'a k8s_object_scheme) kind_client \<Rightarrow> ('a k8s_object_scheme \<Rightarrow> 'a k8s_object_scheme \<Rightarrow> AppService \<Rightarrow> AppService) \<Rightarrow>
   ('a k8s_object_scheme \<Rightarrow> AppService \<Rightarrow> AppService) \<Rightarrow> (kube_error \<Rightarrow> 'e option) \<Rightarrow> 'a k8s_object_scheme list \<Rightarrow>
   (string, 'a k8s_object_scheme) gomap \<Rightarrow> AppService \<Rightarrow> 'w \<Rightarrow>
   'e option \<times> (string, 'a k8s_object_scheme) gomap \<times> AppService \<times> 'w" where
  "upgrade_new kc upd crt handleErr [] oldMap a w = (None, oldMap, a, w)"
| "upgrade_new kc upd crt handleErr (n # ns) oldMap a w =
     (case map_of oldMap (ko_Name n) of
        Some o1 \<Rightarrow>
          (case kc_Update kc (ko_Namespace n) (carry_over o1 n) w of
             ((x, Some err), w) \<Rightarrow>
               (case handleErr err of
                  Some e \<Rightarrow> (Some e, oldMap, a, w)
                | None \<Rightarrow> upgrade_new kc upd crt handleErr ns oldMap a w)
           | ((x, None), w) \<Rightarrow>
               upgrade_new kc upd crt handleErr ns (AList.delete (ko_Name o1) oldMap) (upd (carry_over o1 n) x a) w)
      | None \<Rightarrow>
          (case kc_Create kc (ko_Namespace n) n w of
             ((x, Some err), w) \<Rightarrow>
               (case handleErr err of
                  Some e \<Rightarrow> (Some e, oldMap, a, w)
                | None \<Rightarrow> upgrade_new kc upd crt handleErr ns oldMap a w)
           | ((x, None), w) \<Rightarrow> upgrade_new kc upd crt handleErr ns oldMap (crt x a) w))"

fun upgrade_old ::
  "('w, 'a k8s_object_scheme) kind_client \<Rightarrow> (kube_error \<Rightarrow> 'e option) \<Rightarrow> 'a k8s_object_scheme list \<Rightarrow> 'w \<Rightarrow> 'e option \<times> 'w" where
  "upgrade_old kc handleErr [] w = (None, w)"
| "upgrade_old kc handleErr (x # xs) w =
     (case kc_Delete kc (ko_Namespace x) (ko_Name x) w of
        (Some err, w) \<Rightarrow> (case handleErr err of Some e \<Rightarrow> (Some e, w) | None \<Rightarrow> upgrade_old kc handleErr xs w)
      | (None, w) \<Rightarrow> upgrade_old kc handleErr xs w)"

definition upgrade_collection ::
  "((string, 'a k8s_object_scheme) gomap \<Rightarrow> (string, 'a k8s_object_scheme) gomap) \<Rightarrow> ('w, 'a k8s_object_scheme) kind_client \<Rightarrow>
   ('a k8s_object_scheme \<Rightarrow> 'a k8s_object_scheme \<Rightarrow> AppService \<Rightarrow> AppService) \<Rightarrow> ('a k8s_object_scheme \<Rightarrow> AppService \<Rightarrow> AppService) \<Rightarrow>
   (kube_error \<Rightarrow> 'e option) \<Rightarrow> 'a k8s_object_scheme list \<Rightarrow> 'a k8s_object_scheme list \<Rightarrow> AppService \<Rightarrow> 'w \<Rightarrow>
   'e option \<times> AppService \<times> 'w" where
  "upgrade_collection rng kc upd crt handleErr old new a w =
     (case upgrade_new kc upd crt handleErr new (name_map old) a w of
        (Some e, _, a, w) \<Rightarrow> (Some e, a, w)
      | (None, oldMap, a, w) \<Rightarrow> (let (e, w) = upgrade_old kc handleErr (map snd (rng oldMap)) w in (e, a, w)))"

definition UpgradeIngress ::
  "((string, IngressObject) gomap \<Rightarrow> (string, IngressObject) gomap) \<Rightarrow> 'w Clientset \<Rightarrow> (kube_error \<Rightarrow> 'e option) \<Rightarrow>
   IngressObject list \<Rightarrow> IngressObject list \<Rightarrow> AppService \<Rightarrow> 'w \<Rightarrow> 'e option \<times> AppService \<times> 'w" where
  "UpgradeIngress rng c handleErr old new a w =
     upgrade_collection rng (cl_Ingresses c) (\<lambda>n x. SetIngress x) SetIngress handleErr old new a w"

definition UpgradeSecrets ::
  "((string, SecretObject) gomap \<Rightarrow> (string, SecretObject) gomap) \<Rightarrow> 'w Clientset \<Rightarrow> (kube_error \<Rightarrow> 'e option) \<Rightarrow>
   SecretObject list \<Rightarrow> SecretObject list \<Rightarrow> AppService \<Rightarrow> 'w \<Rightarrow> 'e option \<times> AppService \<times> 'w" where
  "UpgradeSecrets rng c handleErr old new a w =
     upgrade_collection rng (cl_Secrets c) (\<lambda>n x. SetSecret (Some x)) (\<lambda>x. SetSecret (Some x)) handleErr old new a w"

text \<open>A monitor that has been updated is stored as it was sent.\<close>

definition UpgradeServiceMonitor ::
  "((string, k8s_object) gomap \<Rightarrow> (string, k8s_object) gomap) \<Rightarrow> 'w Clientset \<Rightarrow> (kube_error \<Rightarrow> 'e option) \<Rightarrow>
   k8s_object list \<Rightarrow> k8s_object list \<Rightarrow> AppService \<Rightarrow> 'w \<Rightarrow> 'e option \<times> AppService \<times> 'w" where
  "UpgradeServiceMonitor rng c handleErr old new a w =
     upgrade_collection rng (cl_ServiceMonitors c) (\<lambda>n x. SetServiceMonitor n) SetServiceMonitor handleErr old new a w"

text \<open>The loop of \<open>UpgradeEndpoints\<close>. After a failed \<open>Get\<close> the function returns, whatever \<open>handleErr\<close> says and
  also after it has created the missing endpoints; the third result says so.\<close>

fun upgrade_endpoints ::
  "'w Clientset \<Rightarrow> (kube_error \<Rightarrow> 'e option) \<Rightarrow> EndpointsObject list \<Rightarrow> (string, EndpointsObject) gomap \<Rightarrow> AppService \<Rightarrow> 'w \<Rightarrow>
   'e option \<times> bool \<times> (string, EndpointsObject) gomap \<times> AppService \<times> 'w" where
  "upgrade_endpoints c handleErr [] oldMap a w = (None, False, oldMap, a, w)"
| "upgrade_endpoints c handleErr (n # ns) oldMap a w =
     (case map_of oldMap (ko_Name n) of
        Some o1 \<Rightarrow>
          (case kc_Get (cl_Endpoints c) (ko_Namespace n) (ko_Name n) w of
             ((_, Some err), w) \<Rightarrow>
               (if err = IsNotFound
                then (case kc_Create (cl_Endpoints c) (ko_Namespace n) n w of
                        ((_, Some err2), w) \<Rightarrow>
                          (case handleErr err2 of
                             Some e \<Rightarrow> (Some e, True, oldMap, a, w)
                           | None \<Rightarrow> upgrade_endpoints c handleErr ns oldMap a w)
                      | ((_, None), w) \<Rightarrow> (handleErr err, True, oldMap, a, w))
                else (handleErr err, True, oldMap, a, w))
           | ((oldEndpoint, None), w) \<Rightarrow>
               (case kc_Update (cl_Endpoints c) (ko_Namespace n) (n\<lparr>ko_ResourceVersion := ko_ResourceVersion oldEndpoint\<rparr>) w of
                  ((_, Some err), w) \<Rightarrow>
                    (case handleErr err of
                       Some e \<Rightarrow> (Some e, True, oldMap, a, w)
                     | None \<Rightarrow> upgrade_endpoints c handleErr ns oldMap a w)
                | ((ep, None), w) \<Rightarrow> upgrade_endpoints c handleErr ns (AList.delete (ko_Name o1) oldMap) (AddEndpoints ep a) w))
      | None \<Rightarrow>
          (case kc_Create (cl_Endpoints c) (ko_Namespace n) n w of
             ((_, Some err), w) \<Rightarrow>
               (case handleErr err of
                  Some e \<Rightarrow> (Some e, True, oldMap, a, w)
                | None \<Rightarrow> upgrade_endpoints c handleErr ns oldMap a w)
           | ((_, None), w) \<Rightarrow> upgrade_endpoints c handleErr ns oldMap (AddEndpoints n a) w))"

definition UpgradeEndpoints ::
  "((string, EndpointsObject) gomap \<Rightarrow> (string, EndpointsObject) gomap) \<Rightarrow> 'w Clientset \<Rightarrow> (kube_error \<Rightarrow> 'e option) \<Rightarrow>
   EndpointsObject list \<Rightarrow> EndpointsObject list \<Rightarrow> AppService \<Rightarrow> 'w \<Rightarrow> 'e option \<times> AppService \<times> 'w" where
  "UpgradeEndpoints rng c handleErr old new a w =
     (case upgrade_endpoints c handleErr new (name_map old) a w of
        (e, True, _, a, w) \<Rightarrow> (e, a, w)
      | (_, False, oldMap, a, w) \<Rightarrow>
          (let (e, w) = upgrade_old (cl_Endpoints c) handleErr (map snd (rng oldMap)) w in (e, a, w)))"

text \<open>\<open>UpgradeClaims\<close>. The claim that \<open>Get\<close> returns is never nil, so the branch that would update instead is not
  taken: what is stored is what \<open>Get\<close> returned, also when the claim has just been created.\<close>

fun upgrade_claims ::
  "'w Clientset \<Rightarrow> (kube_error \<Rightarrow> 'e option) \<Rightarrow> k8s_object list \<Rightarrow> (string, k8s_object) gomap \<Rightarrow> AppService \<Rightarrow> 'w \<Rightarrow>
   'e option \<times> bool \<times> (string, k8s_object) gomap \<times> AppService \<times> 'w" where
  "upgrade_claims c handleErr [] oldMap a w = (None, False, oldMap, a, w)"
| "upgrade_claims c handleErr (n # ns) oldMap a w =
     (case map_of oldMap (ko_Name n) of
        Some o1 \<Rightarrow>
          (case kc_Update (cl_Claims c) (ko_Namespace n) (carry_over o1 n) w of
             ((_, Some err), w) \<Rightarrow>
               (case handleErr err of
                  Some e \<Rightarrow> (Some e, True, oldMap, a, w)
                | None \<Rightarrow> upgrade_claims c handleErr ns oldMap a w)
           | ((claim, None), w) \<Rightarrow> upgrade_claims c handleErr ns (AList.delete (ko_Name o1) oldMap) (SetClaim claim a) w)
      | None \<Rightarrow>
          (case kc_Get (cl_Claims c) (ko_Namespace n) (ko_Name n) w of
             ((claim, None), w) \<Rightarrow> upgrade_claims c handleErr ns oldMap (SetClaim claim a) w
           | ((claim, Some err), w) \<Rightarrow>
               (if err = IsNotFound
                then (case kc_Create (cl_Claims c) (ko_Namespace n) n w of
                        ((_, Some err2), w) \<Rightarrow>
                          (case handleErr err2 of
                             Some e \<Rightarrow> (Some e, True, oldMap, a, w)
                           | None \<Rightarrow> upgrade_claims c handleErr ns oldMap a w)
                      | ((_, None), w) \<Rightarrow> upgrade_claims c handleErr ns oldMap (SetClaim claim a) w)
                else (handleErr err, True, oldMap, a, w))))"

definition UpgradeClaims ::
  "((string, k8s_object) gomap \<Rightarrow> (string, k8s_object) gomap) \<Rightarrow> 'w Clientset \<Rightarrow> (kube_error \<Rightarrow> 'e option) \<Rightarrow>
   k8s_object list \<Rightarrow> k8s_object list \<Rightarrow> AppService \<Rightarrow> 'w \<Rightarrow> 'e option \<times> AppService \<times> 'w" where
  "UpgradeClaims rng c handleErr old new a w =
     (case upgrade_claims c handleErr new (name_map old) a w of
        (e, True, _, a, w) \<Rightarrow> (e, a, w)
      | (_, False, oldMap, a, w) \<Rightarrow>
          (let (e, w) = upgrade_old (cl_Claims c) handleErr (map snd (rng oldMap)) w in (e, a, w)))"

section \<open>kube-controller.go\<close>

text \<open>The first attempt creates or updates each service and collects those for which that failed; the second
  attempt creates these.\<close>

fun first_attempt :: "'w Clientset \<Rightarrow> string \<Rightarrow> ServiceObject list \<Rightarrow> 'w \<Rightarrow> ServiceObject list \<times> 'w" where
  "first_attempt c ns [] w = ([], w)"
| "first_attempt c ns (s # ss) w =
     (let (failed, w) =
            (case kc_Create (cl_Services c) ns s w of
               ((_, None), w) \<Rightarrow> ([], w)
             | ((_, Some e), w) \<Rightarrow>
                 if e \<noteq> IsAlreadyExists \<and> e \<noteq> IsInvalid then ([s], w)
                 else (case kc_Update (cl_Services c) ns s w of
                         ((_, None), w) \<Rightarrow> ([], w)
                       | ((_, Some _), w) \<Rightarrow> ([s], w)));
          (retry, w) = first_attempt c ns ss w
      in (failed @ retry, w))"

fun second_attempt :: "'w Clientset \<Rightarrow> string \<Rightarrow> ServiceObject list \<Rightarrow> 'w \<Rightarrow> kube_error option \<times> 'w" where
  "second_attempt c ns [] w = (None, w)"
| "second_attempt c ns (s # ss) w =
     (case kc_Create (cl_Services c) ns s w of
        ((_, Some e), w) \<Rightarrow> if e = IsAlreadyExists then second_attempt c ns ss w else (Some e, w)
      | ((_, None), w) \<Rightarrow> second_attempt c ns ss w)"

definition CreateKubeService :: "'w Clientset \<Rightarrow> string \<Rightarrow> ServiceObject list \<Rightarrow> 'w \<Rightarrow> kube_error option \<times> 'w" where
  "CreateKubeService c ns services w =
     (let (retryService, w) = first_attempt c ns services w in second_attempt c ns retryService w)"

end
