(* ===== verification/WkController.thy ===== *)
theory WkController
  imports WkKube
begin

text \<open>
  \<open>worker/appm/controller\<close>: the controllers that start, stop, restart, scale and upgrade a component, and
  their manager.

  \<^item> The state of a running controller is a \<open>runtime\<close>: the cluster, the store of components (which the
    informers of Kubernetes keep up to date) and what has been written to the logger of the event. Of a log
    entry its level and its option are kept, not its text.
  \<^item> A controller waits in loops for the cluster. What wakes such a loop is a value of \<open>wakes\<close>, which
    says what the cluster and the store are by then: ticks, and at the end the timer or a cancellation, since the
    timer fires after finitely many ticks. \<open>ce_wakes\<close> gives them for a timeout in nanoseconds.
  \<^item> A pointer to a component of the store is read through the store, under the identity of the component, as
    long as it is registered there.
  \<^item> The result \<open>None\<close> is a panic.
\<close>

section \<open>Runtime and environment\<close>

datatype log_option = LoggerOption string | CallbackLoggerOption | TimeoutLoggerOption | LastLoggerOption

datatype log_entry = LogInfo log_option | LogError log_option | LogDebug log_option

record 'w runtime =
  rt_cluster :: 'w
  rt_store :: appRuntimeStore
  rt_log :: "log_entry list"

datatype 'w wakes = Cancelled 'w appRuntimeStore | TimedOut 'w appRuntimeStore | Ticked 'w appRuntimeStore "'w wakes"

text \<open>\<open>ce_sleep\<close> is what the rest of the system does while a controller sleeps between two polls, \<open>ce_crd\<close> and
  \<open>ce_smClient\<close> say whether the custom resource of service monitors and a client for it exist, the four last fields
  are the orders in which maps are met.\<close>

record 'w ctl_env =
  ce_client :: "'w Clientset"
  ce_store :: store_env
  ce_conversions :: "(string \<times> Conversion) list"
  ce_crd :: bool
  ce_smClient :: bool
  ce_wakes :: "int \<Rightarrow> 'w runtime \<Rightarrow> 'w wakes"
  ce_sleep :: "'w \<Rightarrow> appRuntimeStore \<Rightarrow> 'w \<times> appRuntimeStore"
  ce_configs :: "(string, k8s_object option) gomap \<Rightarrow> (string, k8s_object option) gomap"
  ce_services :: "(string, ServiceObject option) gomap \<Rightarrow> (string, ServiceObject option) gomap"
  ce_secrets :: "(string, SecretObject) gomap \<Rightarrow> (string, SecretObject) gomap"
  ce_ingresses :: "(string, IngressObject) gomap \<Rightarrow> (string, IngressObject) gomap"
  ce_monitors :: "(string, k8s_object) gomap \<Rightarrow> (string, k8s_object) gomap"

definition log_to :: "log_entry \<Rightarrow> 'w runtime \<Rightarrow> 'w runtime" where
  "log_to e rt = rt\<lparr>rt_log := rt_log rt @ [e]\<rparr>"

text \<open>A function with early returns is a list of steps, of which the first error ends it.\<close>

fun do_steps :: "('s \<Rightarrow> ('e option \<times> 's) option) list \<Rightarrow> 's \<Rightarrow> ('e option \<times> 's) option" where
  "do_steps [] s = Some (None, s)"
| "do_steps (f # fs) s =
     (case f s of
        None \<Rightarrow> None
      | Some (Some e, s) \<Rightarrow> Some (Some e, s)
      | Some (None, s) \<Rightarrow> do_steps fs s)"

definition on_cluster :: "('w \<Rightarrow> 'e option \<times> 'w) \<Rightarrow> 'w runtime \<Rightarrow> ('e option \<times> 'w runtime) option" where
  "on_cluster f rt = (let (e, w) = f (rt_cluster rt) in Some (e, rt\<lparr>rt_cluster := w\<rparr>))"

text \<open>The loops over the objects of a kind: the first error that is not tolerated ends them.\<close>

fun each_object :: "('o \<Rightarrow> 'w \<Rightarrow> kube_error option \<times> 'w) \<Rightarrow> kube_error \<Rightarrow> string \<Rightarrow> 'o list \<Rightarrow> 'w \<Rightarrow> run_error option \<times> 'w" where
  "each_object f tolerated msg [] w = (None, w)"
| "each_object f tolerated msg (x # xs) w =
     (case f x w of
        (Some e, w) \<Rightarrow> if e = tolerated then each_object f tolerated msg xs w else (Some (Failed msg e), w)
      | (None, w) \<Rightarrow> each_object f tolerated msg xs w)"

definition create_in :: "('w, 'o) kind_client \<Rightarrow> string \<Rightarrow> 'o \<Rightarrow> 'w \<Rightarrow> kube_error option \<times> 'w" where
  "create_in kc ns x w = (let ((_, e), w) = kc_Create kc ns x w in (e, w))"

definition delete_in :: "('w, 'a k8s_object_scheme) kind_client \<Rightarrow> string \<Rightarrow> 'a k8s_object_scheme \<Rightarrow> 'w \<Rightarrow> kube_error option \<times> 'w" where
  "delete_in kc ns x w = kc_Delete kc ns (ko_Name x) w"

section \<open>Waiting (status.go)\<close>

definition seconds :: "int \<Rightarrow> int" where "seconds n = n * 1000000000"

definition printLogger :: "AppService \<Rightarrow> 'w runtime \<Rightarrow> 'w runtime" where
  "printLogger a rt =
     rt\<lparr>rt_log := rt_log rt @ LogInfo (LoggerOption ''running'') #
        concat (map (\<lambda>pod. map (\<lambda>_. LogDebug (LoggerOption ''running'')) (filter (\<lambda>con. snd con = ''False'') (pd_Conditions pod)))
                  (as_pods a))\<rparr>"

definition pointee :: "AppService \<Rightarrow> appRuntimeStore \<Rightarrow> AppService" where
  "pointee a st = (case GetAppService (as_ServiceID a) st of Some b \<Rightarrow> b | None \<Rightarrow> a)"

definition observe :: "'w \<Rightarrow> appRuntimeStore \<Rightarrow> 'w runtime \<Rightarrow> 'w runtime" where
  "observe w st rt = rt\<lparr>rt_cluster := w, rt_store := st\<rparr>"

text \<open>The loop of the three waiting functions: \<open>refresh i\<close> says whether turn \<open>i\<close> reads the component again through
  \<open>UpdateGetAppService\<close>, \<open>test\<close> what is waited for.\<close>

fun wait_loop ::
  "store_env \<Rightarrow> (nat \<Rightarrow> bool) \<Rightarrow> (AppService \<Rightarrow> bool) \<Rightarrow> nat \<Rightarrow> AppService \<Rightarrow> 'w wakes \<Rightarrow> 'w runtime \<Rightarrow>
   (run_error option \<times> 'w runtime) option" where
  "wait_loop env refresh test i a wk rt =
     (case (if refresh i then UpdateGetAppService env (as_ServiceID a) (rt_store rt)
            else Some (Some (pointee a (rt_store rt)), rt_store rt)) of
        None \<Rightarrow> None
      | Some (None, _) \<Rightarrow> None
      | Some (Some a, st) \<Rightarrow>
          (let rt = rt\<lparr>rt_store := st\<rparr> in
           if test a then Some (None, rt)
           else
             (let rt = printLogger a rt in
              case wk of
                Cancelled w st \<Rightarrow> Some (Some ErrWaitCancel, observe w st rt)
              | TimedOut w st \<Rightarrow> Some (Some ErrWaitTimeOut, observe w st rt)
              | Ticked w st wk \<Rightarrow> wait_loop env refresh test (Suc i) a wk (observe w st rt))))"

definition at_least_40 :: "int \<Rightarrow> int" where
  "at_least_40 timeout = (if timeout < 40 then seconds 40 else timeout)"

definition WaitReady :: "'w ctl_env \<Rightarrow> AppService option \<Rightarrow> int \<Rightarrow> 'w runtime \<Rightarrow> (run_error option \<times> 'w runtime) option" where
  "WaitReady env a timeout rt =
     (let timeout = at_least_40 timeout; rt = log_to (LogInfo (LoggerOption ''running'')) rt in
      case a of
        None \<Rightarrow> None
      | Some a \<Rightarrow> wait_loop (ce_store env) (\<lambda>i. i > 2) Ready 0 a (ce_wakes env timeout rt) rt)"

definition WaitStop :: "'w ctl_env \<Rightarrow> AppService option \<Rightarrow> int \<Rightarrow> 'w runtime \<Rightarrow> (run_error option \<times> 'w runtime) option" where
  "WaitStop env a timeout rt =
     (case a of
        None \<Rightarrow> Some (None, rt)
      | Some a \<Rightarrow>
          (let timeout = at_least_40 timeout; rt = log_to (LogInfo (LoggerOption ''running'')) rt in
           wait_loop (ce_store env) (\<lambda>i. i > 2) (\<lambda>a. IsClosed (se_kind (ce_store env) a) a) 1 a (ce_wakes env timeout rt) rt))"

definition WaitUpgradeReady :: "'w ctl_env \<Rightarrow> AppService option \<Rightarrow> int \<Rightarrow> 'w runtime \<Rightarrow> (run_error option \<times> 'w runtime) option" where
  "WaitUpgradeReady env a timeout rt =
     (case a of
        None \<Rightarrow> Some (None, rt)
      | Some a \<Rightarrow>
          (let timeout = at_least_40 timeout; rt = log_to (LogInfo (LoggerOption ''running'')) rt in
           wait_loop (ce_store env) (\<lambda>_. False) UpgradeComlete 0 a (ce_wakes env timeout rt) rt))"

section \<open>Stopping (stop.go)\<close>

text \<open>\<open>waiting\<close> replaces the timeout when it is not zero.\<close>

definition stop_timeout :: "int \<Rightarrow> AppService option \<Rightarrow> int" where
  "stop_timeout waiting storeAppService =
     (let timeout = seconds 40;
          timeout = (case storeAppService of
                       Some a \<Rightarrow> if as_Replicas a > 0 then to_int64 (as_Replicas a * timeout) else timeout
                     | None \<Rightarrow> timeout)
      in if waiting \<noteq> 0 then waiting else timeout)"

definition stop_WaitingReady :: "'w ctl_env \<Rightarrow> int \<Rightarrow> AppService \<Rightarrow> 'w runtime \<Rightarrow> (run_error option \<times> 'w runtime) option" where
  "stop_WaitingReady env waiting app rt =
     (let storeAppService = GetAppService (as_ServiceID app) (rt_store rt)
      in WaitStop env storeAppService (stop_timeout waiting storeAppService) rt)"

definition with_name :: "'a k8s_object_scheme list \<Rightarrow> 'a k8s_object_scheme list" where
  "with_name xs = filter (\<lambda>x. ko_Name x \<noteq> []) xs"

definition delete_workload ::
  "'w ctl_env \<Rightarrow> ('w, Workload) kind_client \<Rightarrow> string \<Rightarrow> string \<Rightarrow> (Workload \<Rightarrow> kobj) \<Rightarrow> Workload \<Rightarrow> 'w runtime \<Rightarrow>
   (run_error option \<times> 'w runtime) option" where
  "delete_workload env kc ns msg obj x rt =
     (case kc_Delete kc ns (ko_Name x) (rt_cluster rt) of
        (e, w) \<Rightarrow>
          if e \<noteq> None \<and> e \<noteq> Some IsNotFound then Some (map_option (Failed msg) e, rt\<lparr>rt_cluster := w\<rparr>)
          else (case OnDeletes (ce_store env) [obj x] (rt_store rt) of
                  None \<Rightarrow> None
                | Some st \<Rightarrow> Some (None, rt\<lparr>rt_cluster := w, rt_store := st\<rparr>)))"

definition delete_monitors :: "'w ctl_env \<Rightarrow> AppService \<Rightarrow> 'w \<Rightarrow> run_error option \<times> 'w" where
  "delete_monitors env app w =
     (None, if ce_crd env \<and> length (as_serviceMonitor app) > 0 \<and> ce_smClient env
            then delete_objects (cl_ServiceMonitors (ce_client env)) (as_serviceMonitor app) w else w)"

definition stop_objects :: "'w ctl_env \<Rightarrow> AppService \<Rightarrow> ('w runtime \<Rightarrow> (run_error option \<times> 'w runtime) option) list" where
  \<comment> \<open>The steps of \<open>stopOne\<close> before it waits.\<close>
  "stop_objects env app =
     (let c = ce_client env; ns = as_TenantID app in
        [on_cluster (each_object (delete_in (cl_Services c) ns) IsNotFound ''delete service failure'' (with_name (as_services app))),
         on_cluster (each_object (delete_in (cl_Secrets c) ns) IsNotFound ''delete secret failure'' (with_name (as_secrets app))),
         on_cluster (each_object (delete_in (cl_Ingresses c) ns) IsNotFound ''delete ingress failure'' (with_name (as_ingresses app))),
         on_cluster (each_object (delete_in (cl_ConfigMaps c) ns) IsNotFound ''delete config map failure'' (with_name (as_configMaps app))),
         (\<lambda>rt. case as_statefulset app of
                 None \<Rightarrow> Some (None, rt)
               | Some x \<Rightarrow> delete_workload env (cl_StatefulSets c) ns ''delete statefulset failure'' KStatefulSet x rt),
         (\<lambda>rt. case as_deployment app of
                 None \<Rightarrow> Some (None, rt)
               | Some x \<Rightarrow>
                   if ko_Name x = [] then Some (None, rt)
                   else delete_workload env (cl_Deployments c) ns ''delete deployment failure'' KDeployment x rt),
         on_cluster (each_object (delete_in (cl_Pods c) ns) IsNotFound ''delete pod failure'' (with_name (as_pods app))),
         on_cluster (each_object (\<lambda>x. delete_in (cl_HPAs c) (ko_Namespace x) x) IsNotFound ''delete hpa'' (as_hpas app)),
         on_cluster (delete_monitors env app)])"

definition stopOne :: "'w ctl_env \<Rightarrow> int \<Rightarrow> AppService \<Rightarrow> 'w runtime \<Rightarrow> (run_error option \<times> 'w runtime) option" where
  "stopOne env waiting app rt =
     do_steps (stop_objects env app @ [\<lambda>rt. stop_WaitingReady env waiting app (log_to (LogInfo (LoggerOption ''running'')) rt)]) rt"

text \<open>What a worker logs when it ends.\<close>

definition log_result :: "run_error option \<Rightarrow> 'w runtime \<Rightarrow> 'w runtime" where
  "log_result err rt =
     log_to (case err of
               None \<Rightarrow> LogInfo LastLoggerOption
             | Some e \<Rightarrow> if e \<noteq> ErrWaitTimeOut then LogError CallbackLoggerOption else LogError TimeoutLoggerOption) rt"

definition stop_worker :: "'w ctl_env \<Rightarrow> AppService \<Rightarrow> 'w runtime \<Rightarrow> 'w runtime option" where
  "stop_worker env service rt =
     map_option (\<lambda>(err, rt). log_result err rt) (stopOne env 0 service (log_to (LogInfo (LoggerOption ''starting'')) rt))"

section \<open>Starting (start.go)\<close>

fun probe_delay :: "Container list \<Rightarrow> int" where
  "probe_delay [] = 0"
| "probe_delay (c # cs) =
     (case cn_ReadinessProbe c of
        Some d \<Rightarrow> d
      | None \<Rightarrow> (case cn_LivenessProbe c of Some d \<Rightarrow> d | None \<Rightarrow> probe_delay cs))"

definition init_delay :: "AppService \<Rightarrow> int" where
  "init_delay app = (case GetPodTemplate app of None \<Rightarrow> 0 | Some podt \<Rightarrow> probe_delay (pt_Containers podt))"

text \<open>The product is a number of nanoseconds.\<close>

definition start_timeout :: "AppService \<Rightarrow> int" where
  "start_timeout app =
     (let initTime = to_int32 (init_delay app + 40);
          timeout = to_int32 (initTime * to_int32 (as_Replicas app))
      in if timeout < seconds 40 then seconds 40 else timeout)"

definition start_WaitingReady :: "'w ctl_env \<Rightarrow> AppService \<Rightarrow> 'w runtime \<Rightarrow> (run_error option \<times> 'w runtime) option" where
  "start_WaitingReady env app rt =
     WaitReady env (GetAppService (as_ServiceID app) (rt_store rt)) (start_timeout app) rt"

definition check_namespace :: "'w Clientset \<Rightarrow> AppService \<Rightarrow> 'w \<Rightarrow> run_error option \<times> 'w" where
  "check_namespace c app w =
     (case cl_GetNamespace c (as_TenantID app) w of
        (None, w) \<Rightarrow> (None, w)
      | (Some e, w) \<Rightarrow>
          (let (err, w) = (if e = IsNotFound then cl_CreateNamespace c (as_tenant app) w else (Some e, w))
           in (map_option (Failed ''create or check namespace failure'') err, w)))"

definition create_workload :: "('w, Workload) kind_client \<Rightarrow> string \<Rightarrow> string \<Rightarrow> Workload option \<Rightarrow> 'w \<Rightarrow> run_error option \<times> 'w" where
  "create_workload kc ns msg x w =
     (case x of
        None \<Rightarrow> (None, w)
      | Some x \<Rightarrow> (let (e, w) = create_in kc ns x w in (map_option (Failed msg) e, w)))"

definition unversioned :: "'a k8s_object_scheme list \<Rightarrow> 'a k8s_object_scheme list" where
  "unversioned xs = filter (\<lambda>x. length (ko_ResourceVersion x) = 0) xs"

definition create_monitors :: "'w ctl_env \<Rightarrow> AppService \<Rightarrow> 'w \<Rightarrow> run_error option \<times> 'w" where
  "create_monitors env app w =
     (None, if ce_crd env \<and> length (as_serviceMonitor app) > 0 \<and> ce_smClient env
            then fold (\<lambda>x w. snd (create_in (cl_ServiceMonitors (ce_client env)) (ko_Namespace x) x w)) (unversioned (as_serviceMonitor app)) w
            else w)"

definition start_objects :: "'w ctl_env \<Rightarrow> AppService \<Rightarrow> ('w \<Rightarrow> run_error option \<times> 'w) list" where
  \<comment> \<open>The steps of \<open>startOne\<close> before it waits.\<close>
  "start_objects env app =
     (let c = ce_client env; ns = as_TenantID app in
        [check_namespace c app,
         each_object (create_in (cl_ConfigMaps c) ns) IsAlreadyExists ''create config map failure'' (as_configMaps app),
         each_object (create_in (cl_Claims c) ns) IsAlreadyExists ''create claims'' (as_claimsmanual app),
         create_workload (cl_StatefulSets c) ns ''create statefulset failure'' (as_statefulset app),
         create_workload (cl_Deployments c) ns ''create deployment failure'' (as_deployment app),
         (\<lambda>w. let (e, w) = CreateKubeService c ns (as_services app) w in (map_option (Failed ''Create service failure'') e, w)),
         each_object (create_in (cl_Secrets c) ns) IsAlreadyExists ''create secret failure'' (unversioned (as_secrets app @ as_envVarSecrets app)),
         each_object (create_in (cl_Ingresses c) ns) IsAlreadyExists ''create ingress failure'' (unversioned (as_ingresses app)),
         each_object (\<lambda>x. create_in (cl_HPAs c) (ko_Namespace x) x) IsAlreadyExists ''create hpa'' (unversioned (as_hpas app)),
         create_monitors env app])"

definition startOne :: "'w ctl_env \<Rightarrow> AppService \<Rightarrow> 'w runtime \<Rightarrow> (run_error option \<times> 'w runtime) option" where
  "startOne env app rt =
     do_steps (map on_cluster (start_objects env app) @ [\<lambda>rt. start_WaitingReady env app (log_to (LogInfo (LoggerOption ''running'')) rt)]) rt"

definition errorCallback :: "'w ctl_env \<Rightarrow> AppService \<Rightarrow> 'w runtime \<Rightarrow> (run_error option \<times> 'w runtime) option" where
  "errorCallback env app rt =
     (case stopOne env 0 app (log_to (LogInfo (LoggerOption ''starting'')) rt) of
        None \<Rightarrow> None
      | Some (None, rt) \<Rightarrow> Some (None, rt)
      | Some (Some e, rt) \<Rightarrow> Some (Some e, log_to (LogError (LoggerOption ''failure'')) rt))"

definition start_worker :: "'w ctl_env \<Rightarrow> AppService \<Rightarrow> 'w runtime \<Rightarrow> 'w runtime option" where
  "start_worker env service rt =
     (case startOne env service (log_to (LogInfo (LoggerOption ''starting'')) rt) of
        None \<Rightarrow> None
      | Some (err, rt) \<Rightarrow>
          (let rt = log_result err rt in
           if err \<noteq> None \<and> err \<noteq> Some ErrWaitTimeOut then map_option snd (errorCallback env service rt) else Some rt))"

text \<open>\<open>Begin\<close> keeps the address of its loop variable: after the loop every pointer is to the last component.\<close>

definition captured :: "AppService list \<Rightarrow> AppService list" where
  "captured appService = map (\<lambda>_. last appService) appService"

section \<open>Restarting (restart.go)\<close>

fun closed_loop :: "'w ctl_env \<Rightarrow> string \<Rightarrow> nat \<Rightarrow> 'w runtime \<Rightarrow> 'w runtime" where
  "closed_loop env serviceID 0 rt = rt"
| "closed_loop env serviceID (Suc n) rt =
     (case GetAppService serviceID (rt_store rt) of
        None \<Rightarrow> rt
      | Some a \<Rightarrow> if IsClosed (se_kind (ce_store env) a) a then rt
                  else (let (w, st) = ce_sleep env (rt_cluster rt) (rt_store rt) in closed_loop env serviceID n (observe w st rt)))"

definition restartOne :: "'w ctl_env \<Rightarrow> AppService \<Rightarrow> 'w runtime \<Rightarrow> (run_error option \<times> 'w runtime) option" where
  "restartOne env app rt =
     (case stopOne env (seconds 300) app rt of
        None \<Rightarrow> None
      | Some (err, rt) \<Rightarrow>
          if err \<noteq> None \<and> err \<noteq> Some ErrWaitTimeOut then Some (err, log_to (LogError CallbackLoggerOption) rt)
          else
            (let rt = (if err = None then rt else closed_loop env (as_ServiceID app) 20 rt) in
             case InitAppService (ce_conversions env) (se_db (ce_store env)) (as_ServiceID app) (as_ExtensionSet app) [] of
               None \<Rightarrow> None
             | Some (Inl _) \<Rightarrow> Some (Some ErrInit, log_to (LogError CallbackLoggerOption) rt)
             | Some (Inr newAppService) \<Rightarrow>
                 (case startOne env newAppService (rt\<lparr>rt_store := RegistAppService newAppService (rt_store rt)\<rparr>) of
                    None \<Rightarrow> None
                  | Some (err, rt) \<Rightarrow>
                      if err \<noteq> None \<and> err \<noteq> Some ErrWaitTimeOut then Some (err, log_to (LogError CallbackLoggerOption) rt)
                      else Some (None, rt))))"

definition restart_worker :: "'w ctl_env \<Rightarrow> AppService \<Rightarrow> 'w runtime \<Rightarrow> 'w runtime option" where
  "restart_worker env service rt =
     map_option (\<lambda>(err, rt). if err = None then log_to (LogInfo LastLoggerOption) rt else rt)
       (restartOne env service (log_to (LogInfo (LoggerOption ''starting'')) rt))"

end
