(* ===== verification/WkUpgrade.thy ===== *)
theory WkUpgrade
  imports WkController
begin

text \<open>
  \<open>worker/appm/controller\<close>, continued: the controllers that upgrade, scale and reconfigure a component
  (\<open>upgrade.go\<close>, \<open>scaling.go\<close>, \<open>refresh_xpa.go\<close>, \<open>apply_rule.go\<close>, \<open>apply_plugin_config.go\<close>), and the manager that
  starts controllers (\<open>controller.go\<close>).
\<close>

section \<open>Config maps\<close>

text \<open>The body that \<open>upgradeConfigMap\<close> and the \<open>Begin\<close> of \<open>apply_plugin_config.go\<close> share. An entry of the map of
  the present config maps becomes nil when it has been updated; the second update of one name panics.\<close>

definition ptr_map :: "'a k8s_object_scheme list \<Rightarrow> (string, 'a k8s_object_scheme option) gomap" where
  "ptr_map xs = fold (\<lambda>x m. map_set (ko_Name x) (Some x) m) xs []"

fun config_loop ::
  "('w, k8s_object) kind_client \<Rightarrow> string \<Rightarrow> k8s_object list \<Rightarrow> (string, k8s_object option) gomap \<Rightarrow> AppService \<Rightarrow> 'w \<Rightarrow>
   ((string, k8s_object option) gomap \<times> AppService \<times> 'w) option" where
  "config_loop kc tenant [] m nowApp w = Some (m, nowApp, w)"
| "config_loop kc tenant (n # ns) m nowApp w =
     (case map_of m (ko_Name n) of
        Some None \<Rightarrow> None
      | Some (Some nowConfig) \<Rightarrow>
          (let ((newc, _), w) = kc_Update kc tenant (n\<lparr>ko_UID := ko_UID nowConfig\<rparr>) w
           in config_loop kc tenant ns (map_set (ko_Name n) None m) (SetConfigMap newc nowApp) w)
      | None \<Rightarrow>
          (let ((newc, _), w) = kc_Create kc tenant n w
           in config_loop kc tenant ns m (SetConfigMap newc nowApp) w))"

definition delete_left :: "('w, 'a k8s_object_scheme) kind_client \<Rightarrow> string \<Rightarrow> (string, 'a k8s_object_scheme option) gomap \<Rightarrow> 'w \<Rightarrow> 'w" where
  "delete_left kc tenant m w = fold (\<lambda>(name, h) w. if h \<noteq> None then snd (kc_Delete kc tenant name w) else w) m w"

definition apply_configs :: "'w ctl_env \<Rightarrow> AppService \<Rightarrow> 'w runtime \<Rightarrow> 'w runtime option" where
  "apply_configs env newapp rt =
     (case GetAppService (as_ServiceID newapp) (rt_store rt) of
        None \<Rightarrow> None
      | Some nowApp \<Rightarrow>
          (let kc = cl_ConfigMaps (ce_client env) in
           case config_loop kc (as_TenantID nowApp) (as_configMaps newapp) (ptr_map (as_configMaps nowApp)) nowApp (rt_cluster rt) of
             None \<Rightarrow> None
           | Some (m, nowApp, w) \<Rightarrow>
               Some (rt\<lparr>rt_cluster := delete_left kc (as_TenantID nowApp) (ce_configs env m) w,
                        rt_store := put_app (as_ServiceID newapp) nowApp (rt_store rt)\<rparr>)))"

definition upgradeConfigMap :: "'w ctl_env \<Rightarrow> AppService \<Rightarrow> 'w runtime \<Rightarrow> 'w runtime option" where
  "upgradeConfigMap env newapp rt = apply_configs env newapp rt"

section \<open>Upgrading (upgrade.go)\<close>

text \<open>The present service is changed in place, so that the component keeps the change also when the request fails.\<close>

fun service_loop ::
  "'w Clientset \<Rightarrow> string \<Rightarrow> ServiceObject list \<Rightarrow> (string, ServiceObject option) gomap \<Rightarrow> AppService \<Rightarrow> 'w \<Rightarrow>
   ((string, ServiceObject option) gomap \<times> AppService \<times> 'w) option" where
  "service_loop c tenant [] m nowApp w = Some (m, nowApp, w)"
| "service_loop c tenant (n # ns) m nowApp w =
     (case map_of m (ko_Name n) of
        Some None \<Rightarrow> None
      | Some (Some now) \<Rightarrow>
          (let nowConfig = now\<lparr>so_Ports := so_Ports n, so_Type := so_Type n, ko_Labels := ko_Labels n\<rparr>;
               ((newc, _), w) = kc_Update (cl_Services c) tenant nowConfig w
           in service_loop c tenant ns (map_set (ko_Name n) None m) (SetService newc (SetService nowConfig nowApp)) w)
      | None \<Rightarrow>
          (let (_, w) = CreateKubeService c tenant [n] w
           in service_loop c tenant ns m (SetService n nowApp) w))"

definition upgradeService :: "'w ctl_env \<Rightarrow> AppService \<Rightarrow> 'w runtime \<Rightarrow> 'w runtime option" where
  "upgradeService env newapp rt =
     (case GetAppService (as_ServiceID newapp) (rt_store rt) of
        None \<Rightarrow> None
      | Some nowApp \<Rightarrow>
          (case service_loop (ce_client env) (as_TenantID nowApp) (as_services newapp) (ptr_map (as_services nowApp)) nowApp (rt_cluster rt) of
             None \<Rightarrow> None
           | Some (m, nowApp, w) \<Rightarrow>
               Some (rt\<lparr>rt_cluster := delete_left (cl_Services (ce_client env)) (as_TenantID nowApp) (ce_services env m) w,
                        rt_store := put_app (as_ServiceID newapp) nowApp (rt_store rt)\<rparr>)))"

text \<open>\<open>upgradeClaim\<close>, which no controller calls.\<close>

fun claim_loop ::
  "('w, k8s_object) kind_client \<Rightarrow> k8s_object list \<Rightarrow> (string, k8s_object) gomap \<Rightarrow> AppService \<Rightarrow> 'w \<Rightarrow> AppService \<times> 'w" where
  "claim_loop kc [] m nowApp w = (nowApp, w)"
| "claim_loop kc (n # ns) m nowApp w =
     (case map_of m (ko_Name n) of
        Some o1 \<Rightarrow>
          (case kc_Update kc (ko_Namespace n) (carry_over o1 n) w of
             ((_, Some _), w) \<Rightarrow> claim_loop kc ns m nowApp w
           | ((claim, None), w) \<Rightarrow> claim_loop kc ns (AList.delete (ko_Name o1) m) (SetClaim claim nowApp) w)
      | None \<Rightarrow>
          (case kc_Create kc (ko_Namespace n) n w of
             ((_, Some _), w) \<Rightarrow> claim_loop kc ns m nowApp w
           | ((claim, None), w) \<Rightarrow> claim_loop kc ns m (SetClaim claim nowApp) w))"

definition upgradeClaim :: "'w ctl_env \<Rightarrow> AppService \<Rightarrow> 'w runtime \<Rightarrow> 'w runtime option" where
  "upgradeClaim env newapp rt =
     (case GetAppService (as_ServiceID newapp) (rt_store rt) of
        None \<Rightarrow> None
      | Some nowApp \<Rightarrow>
          (let (nowApp, w) = claim_loop (cl_Claims (ce_client env)) (as_claims newapp) (name_map (as_claims nowApp)) nowApp (rt_cluster rt)
           in Some (rt\<lparr>rt_cluster := w, rt_store := put_app (as_ServiceID newapp) nowApp (rt_store rt)\<rparr>)))"

definition upgrade_timeout :: "AppService \<Rightarrow> AppService option \<Rightarrow> int" where
  "upgrade_timeout app storeAppService =
     (let timeout = to_int64 (seconds (to_int32 (40 + init_delay app))) in
      case storeAppService of
        Some a \<Rightarrow> if as_Replicas a \<ge> 0 then to_int64 (timeout * to_int64 (as_Replicas a * 2)) else timeout
      | None \<Rightarrow> timeout)"

definition upgrade_WaitingReady :: "'w ctl_env \<Rightarrow> AppService \<Rightarrow> 'w runtime \<Rightarrow> (run_error option \<times> 'w runtime) option" where
  "upgrade_WaitingReady env app rt =
     (let storeAppService = GetAppService (as_ServiceID app) (rt_store rt)
      in WaitUpgradeReady env storeAppService (upgrade_timeout app storeAppService) rt)"

definition patch_workload ::
  "('w, Workload) kind_client \<Rightarrow> string \<Rightarrow> string \<Rightarrow> Workload option \<Rightarrow> AppService \<Rightarrow> 'w runtime \<Rightarrow> (run_error option \<times> 'w runtime) option" where
  "patch_workload kc key msg x app rt =
     (case x of
        None \<Rightarrow> Some (None, rt)
      | Some x \<Rightarrow>
          (case kc_Patch kc (ko_Namespace x) (ko_Name x) ''application/merge-patch+json'' (map_str (as_UpgradePatch app) key) (rt_cluster rt) of
             ((_, None), w) \<Rightarrow> Some (None, rt\<lparr>rt_cluster := w\<rparr>)
           | ((_, Some e), w) \<Rightarrow> Some (Some (Failed msg e), log_to (LogError (LoggerOption ''failure'')) (rt\<lparr>rt_cluster := w\<rparr>))))"

text \<open>Errors of secrets, ingresses and monitors are ignored.\<close>

definition ignoreErr :: "kube_error \<Rightarrow> run_error option" where
  "ignoreErr e = None"

definition upgrade_rules :: "'w ctl_env \<Rightarrow> AppService \<Rightarrow> 'w runtime \<Rightarrow> (AppService \<times> 'w runtime) option" where
  \<comment> \<open>The calls of \<open>UpgradeSecrets\<close> and \<open>UpgradeIngress\<close> with the component of the store.\<close>
  "upgrade_rules env app rt =
     (case GetAppService (as_ServiceID app) (rt_store rt) of
        None \<Rightarrow> None
      | Some oldApp \<Rightarrow>
          (let c = ce_client env;
               (_, app, w) = UpgradeSecrets (ce_secrets env) c ignoreErr (as_secrets oldApp) (as_secrets app) app (rt_cluster rt);
               (_, app, w) = UpgradeIngress (ce_ingresses env) c ignoreErr (as_ingresses oldApp) (as_ingresses app) app w
           in Some (app, rt\<lparr>rt_cluster := w\<rparr>)))"

fun env_secrets :: "'w Clientset \<Rightarrow> SecretObject list \<Rightarrow> 'w \<Rightarrow> run_error option \<times> 'w" where
  "env_secrets c [] w = (None, w)"
| "env_secrets c (s # ss) w =
     (case CreateOrUpdateSecret c s w of
        (Some e, w) \<Rightarrow> (Some (Failed ''create or update secrets'' e), w)
      | (None, w) \<Rightarrow> env_secrets c ss w)"

definition upgrade_monitors :: "'w ctl_env \<Rightarrow> AppService \<Rightarrow> 'w runtime \<Rightarrow> (AppService \<times> 'w runtime) option" where
  "upgrade_monitors env app rt =
     (if ce_crd env \<and> ce_smClient env
      then (case GetAppService (as_ServiceID app) (rt_store rt) of
              None \<Rightarrow> None
            | Some oldApp \<Rightarrow>
                (let (_, app, w) = UpgradeServiceMonitor (ce_monitors env) (ce_client env) ignoreErr (as_serviceMonitor oldApp)
                                     (as_serviceMonitor app) app (rt_cluster rt)
                 in Some (app, rt\<lparr>rt_cluster := w\<rparr>)))
      else Some (app, rt))"

definition upgrade_tail :: "'w ctl_env \<Rightarrow> AppService \<Rightarrow> 'w runtime \<Rightarrow> (run_error option \<times> 'w runtime) option" where
  \<comment> \<open>\<open>upgradeOne\<close> from the call of \<open>UpgradeSecrets\<close> on.\<close>
  "upgrade_tail env app rt =
     (case upgrade_rules env app rt of
        None \<Rightarrow> None
      | Some (app, rt) \<Rightarrow>
          (case on_cluster (env_secrets (ce_client env) (as_envVarSecrets app)) rt of
             None \<Rightarrow> None
           | Some (Some e, rt) \<Rightarrow> Some (Some e, rt)
           | Some (None, rt) \<Rightarrow>
               (case upgrade_monitors env app rt of
                  None \<Rightarrow> None
                | Some (app, rt) \<Rightarrow> upgrade_WaitingReady env app rt)))"

definition upgradeOne :: "'w ctl_env \<Rightarrow> AppService \<Rightarrow> 'w runtime \<Rightarrow> (run_error option \<times> 'w runtime) option" where
  "upgradeOne env app rt =
     (let c = ce_client env in
      do_steps
        [on_cluster (check_namespace c app),
         (\<lambda>rt. map_option (Pair None) (upgradeConfigMap env app rt)),
         patch_workload (cl_Deployments c) ''deployment'' ''upgrade deployment'' (as_deployment app) app,
         on_cluster (each_object (create_in (cl_Claims c) (as_TenantID app)) IsAlreadyExists ''create claims'' (as_claimsmanual app)),
         patch_workload (cl_StatefulSets c) ''statefulset'' ''upgrade statefulset'' (as_statefulset app) app,
         (\<lambda>rt. map_option (Pair None) (upgradeService env app rt)),
         upgrade_tail env app] rt)"

definition upgrade_worker :: "'w ctl_env \<Rightarrow> AppService \<Rightarrow> 'w runtime \<Rightarrow> 'w runtime option" where
  "upgrade_worker env service rt =
     map_option (\<lambda>(err, rt). log_result err rt) (upgradeOne env service (log_to (LogInfo (LoggerOption ''starting'')) rt))"

section \<open>Scaling (scaling.go)\<close>

definition quote :: string where "quote = [CHR 0x22]"

definition Replicas :: "int \<Rightarrow> bytes" where
  "Replicas n = ''{'' @ quote @ ''spec'' @ quote @ '':{'' @ quote @ ''replicas'' @ quote @ '':'' @ Itoa n @ ''}}''"

definition patch_replicas :: "('w, Workload) kind_client \<Rightarrow> Workload option \<Rightarrow> AppService \<Rightarrow> 'w \<Rightarrow> run_error option \<times> 'w" where
  "patch_replicas kc x service w =
     (case x of
        None \<Rightarrow> (None, w)
      | Some x \<Rightarrow>
          (let ((_, e), w) = kc_Patch kc (ko_Namespace x) (ko_Name x) ''application/strategic-merge-patch+json''
                               (Replicas (as_Replicas service)) w
           in (map_option (Failed []) e, w)))"

text \<open>The timeout of a scaling: \<open>None\<close> is the panic on a template without containers or a component that is
  not in the store.\<close>

definition scaling_timeout :: "AppService \<Rightarrow> AppService option \<Rightarrow> int option" where
  "scaling_timeout app storeAppService =
     (case (case GetPodTemplate app of
              None \<Rightarrow> Some 0
            | Some podt \<Rightarrow>
                (case pt_Containers podt of
                   [] \<Rightarrow> None
                 | con # _ \<Rightarrow> Some (case cn_ReadinessProbe con of Some d \<Rightarrow> d | None \<Rightarrow> 0))) of
        None \<Rightarrow> None
      | Some initTime \<Rightarrow>
          map_option (\<lambda>a.
            (let waitingReplicas = abs (as_Replicas a - GetReadyReplicas a);
                 timeout = to_int32 (to_int32 (initTime + 40) * to_int32 waitingReplicas)
             in if timeout < seconds 40 then seconds 40 else timeout)) storeAppService)"

definition scaling_WaitingReady :: "'w ctl_env \<Rightarrow> AppService \<Rightarrow> 'w runtime \<Rightarrow> (run_error option \<times> 'w runtime) option" where
  "scaling_WaitingReady env app rt =
     (let storeAppService = GetAppService (as_ServiceID app) (rt_store rt) in
      case scaling_timeout app storeAppService of
        None \<Rightarrow> None
      | Some timeout \<Rightarrow> WaitReady env storeAppService timeout rt)"

definition scalingOne :: "'w ctl_env \<Rightarrow> AppService \<Rightarrow> 'w runtime \<Rightarrow> (run_error option \<times> 'w runtime) option" where
  "scalingOne env service rt =
     do_steps
       [on_cluster (patch_replicas (cl_StatefulSets (ce_client env)) (as_statefulset service) service),
        on_cluster (patch_replicas (cl_Deployments (ce_client env)) (as_deployment service) service),
        scaling_WaitingReady env service] rt"

definition scaling_worker :: "'w ctl_env \<Rightarrow> AppService \<Rightarrow> 'w runtime \<Rightarrow> 'w runtime option" where
  "scaling_worker env service rt =
     map_option (\<lambda>(err, rt). log_result err rt) (scalingOne env service (log_to (LogInfo (LoggerOption ''starting'')) rt))"

section \<open>Rules, plug-ins and autoscalers\<close>

definition refresh_applyOne :: "'w Clientset \<Rightarrow> AppService \<Rightarrow> 'w \<Rightarrow> 'w" where
  "refresh_applyOne c app w = delete_objects (cl_HPAs c) (as_delHPAs app) (fold (EnsureHPA c) (as_hpas app) w)"

definition refresh_worker :: "'w ctl_env \<Rightarrow> AppService \<Rightarrow> 'w runtime \<Rightarrow> 'w runtime option" where
  "refresh_worker env service rt = Some (rt\<lparr>rt_cluster := refresh_applyOne (ce_client env) service (rt_cluster rt)\<rparr>)"

definition apply_rule_worker :: "'w ctl_env \<Rightarrow> AppService \<Rightarrow> 'w runtime \<Rightarrow> 'w runtime option" where
  "apply_rule_worker env service rt = Some (rt\<lparr>rt_cluster := snd (ApplyOne (ce_client env) service (rt_cluster rt))\<rparr>)"

section \<open>The manager of the controllers (controller.go)\<close>

datatype TypeController =
    TypeStartController | TypeStopController | TypeRestartController | TypeUpgradeController | TypeScalingController
  | TypeApplyRuleController | TypeApplyConfigController | TypeControllerRefreshHPA | OtherController string

text \<open>A controller and its components; \<open>mg_begun\<close> are the identities of those whose \<open>Begin\<close> has been started, in order.\<close>

record Manager =
  mg_controllers :: "(string, TypeController \<times> AppService list) gomap"
  mg_begun :: "string list"

definition NewManager :: Manager where
  "NewManager = \<lparr>mg_controllers = [], mg_begun = []\<rparr>"

definition GetControllerSize :: "Manager \<Rightarrow> int" where
  "GetControllerSize m = int (length (mg_controllers m))"

text \<open>\<open>controllerID\<close> is the new UUID. The results are \<open>None\<close> for a panic and an error for a type that is not supported.\<close>

definition StartController :: "string \<Rightarrow> TypeController \<Rightarrow> AppService list \<Rightarrow> Manager \<Rightarrow> (bool \<times> Manager) option" where
  "StartController controllerID controllerType apps m =
     (let started = m\<lparr>mg_controllers := map_set controllerID (controllerType, apps) (mg_controllers m),
                      mg_begun := mg_begun m @ [controllerID]\<rparr>
      in case controllerType of
           OtherController _ \<Rightarrow> Some (False, m)
         | TypeApplyConfigController \<Rightarrow>
             (case apps of [] \<Rightarrow> None | app # _ \<Rightarrow>
                Some (True, m\<lparr>mg_controllers := map_set controllerID (controllerType, [app]) (mg_controllers m),
                              mg_begun := mg_begun m @ [controllerID]\<rparr>))
         | _ \<Rightarrow> Some (True, started))"

definition callback :: "string \<Rightarrow> Manager \<Rightarrow> Manager" where
  "callback controllerID m = m\<lparr>mg_controllers := AList.delete controllerID (mg_controllers m)\<rparr>"

text \<open>What the goroutine of one component does, by the type of the controller, and the components the
  goroutines of a controller get.\<close>

definition worker :: "'w ctl_env \<Rightarrow> TypeController \<Rightarrow> AppService \<Rightarrow> 'w runtime \<Rightarrow> 'w runtime option" where
  "worker env t service rt =
     (case t of
        TypeStartController \<Rightarrow> start_worker env service rt
      | TypeStopController \<Rightarrow> stop_worker env service rt
      | TypeRestartController \<Rightarrow> restart_worker env service rt
      | TypeUpgradeController \<Rightarrow> upgrade_worker env service rt
      | TypeScalingController \<Rightarrow> scaling_worker env service rt
      | TypeApplyRuleController \<Rightarrow> apply_rule_worker env service rt
      | TypeApplyConfigController \<Rightarrow> apply_configs env service rt
      | TypeControllerRefreshHPA \<Rightarrow> refresh_worker env service rt
      | OtherController _ \<Rightarrow> Some rt)"

definition worker_apps :: "TypeController \<Rightarrow> AppService list \<Rightarrow> AppService list" where
  "worker_apps t apps = (if t = TypeStartController then captured apps else apps)"

end
