(* ===== verification/WkPatch.thy ===== *)
theory WkPatch
  imports WkStore
begin

text \<open>
  \<open>worker/appm/types/v1/patch.go\<close>: the patch that turns the workload in the cluster into the one a new version of
  the component asks for.

  \<^item> A JSON text is its tree: an object with its fields in the order of the text, or the text of any other
    value. Two texts of the encoder of Go are equal when their trees are. The encoding of a workload by
    \<open>encoding/json\<close> is an argument.
  \<^item> \<open>EncodeNode\<close> keeps the text it was read from, the text of a value that is not an object, and the fields
    of an object; the zero value stands for a field that is missing.
\<close>

section \<open>Nodes\<close>

datatype json = JRaw bytes | JObj "(string \<times> json) list"

datatype EncodeNode = EncodeNode (en_body: "json option") (en_value: "bytes option") (en_Field: "(string \<times> EncodeNode) list option")

definition zero_EncodeNode :: EncodeNode where
  "zero_EncodeNode = EncodeNode None None None"

fun UnmarshalJSON :: "json \<Rightarrow> EncodeNode" where
  "UnmarshalJSON (JRaw code) = EncodeNode (Some (JRaw code)) (Some code) None"
| "UnmarshalJSON (JObj flds) = EncodeNode (Some (JObj flds)) None (Some (map (\<lambda>(k, v). (k, UnmarshalJSON v)) flds))"

text \<open>The fields are written in the order in which the loop ranges over the map, which \<open>rng\<close> gives: any order of them.\<close>

type_synonym field_order = "(string, json) gomap \<Rightarrow> (string, json) gomap"

fun MarshalJSON :: "field_order \<Rightarrow> EncodeNode \<Rightarrow> json option" and
    marshal_fields :: "field_order \<Rightarrow> (string \<times> EncodeNode) list \<Rightarrow> (string \<times> json) list option" where
  "MarshalJSON rng (EncodeNode body value flds) =
     (case value of
        Some v \<Rightarrow> Some (JRaw v)
      | None \<Rightarrow> (case flds of Some fs \<Rightarrow> map_option (\<lambda>js. JObj (rng js)) (marshal_fields rng fs) | None \<Rightarrow> None))"
| "marshal_fields rng [] = Some []"
| "marshal_fields rng ((k, v) # fs) =
     (case MarshalJSON rng v of
        None \<Rightarrow> None
      | Some j \<Rightarrow> map_option ((#) (k, j)) (marshal_fields rng fs))"

definition node_field :: "EncodeNode \<Rightarrow> string \<Rightarrow> EncodeNode" where
  "node_field n k =
     (case en_Field n of
        None \<Rightarrow> zero_EncodeNode
      | Some fs \<Rightarrow> (case map_of fs k of None \<Rightarrow> zero_EncodeNode | Some v \<Rightarrow> v))"

fun getChange :: "EncodeNode \<Rightarrow> EncodeNode \<Rightarrow> EncodeNode option" and
    change_fields :: "EncodeNode \<Rightarrow> (string \<times> EncodeNode) list \<Rightarrow> (string \<times> EncodeNode) list" where
  "getChange old (EncodeNode body value flds) =
     (if en_body old = body then None
      else if en_Field old = None \<and> flds = None \<and> en_value old \<noteq> value then Some (EncodeNode None value None)
      else Some (EncodeNode None None
                   (case flds of
                      None \<Rightarrow> None
                    | Some fs \<Rightarrow> if fs = [] then None else Some (change_fields old fs))))"
| "change_fields old [] = []"
| "change_fields old ((k, v) # fs) =
     (case getChange (node_field old k) v of
        None \<Rightarrow> change_fields old fs
      | Some c \<Rightarrow> (k, c) # change_fields old fs)"

text \<open>\<open>getchange\<close> on the encoded objects: marshalling a nil pointer gives \<open>null\<close>. The result \<open>None\<close> is the error of
  \<open>MarshalJSON\<close>.\<close>

definition json_null :: json where "json_null = JRaw ''null''"

definition getchange :: "field_order \<Rightarrow> json \<Rightarrow> json \<Rightarrow> json option" where
  "getchange rng old new =
     (case getChange (UnmarshalJSON old) (UnmarshalJSON new) of
        None \<Rightarrow> Some json_null
      | Some change \<Rightarrow> MarshalJSON rng change)"

section \<open>Workloads\<close>

definition isContainsBootSequence :: "Container list \<Rightarrow> bool" where
  "isContainsBootSequence initContainers = list_ex (\<lambda>c. Contains (cn_Name c) ''probe-mesh-'') initContainers"

definition getAllowFields :: "Workload \<Rightarrow> Workload" where
  "getAllowFields s = zero_Workload\<lparr>wl_Replicas := wl_Replicas s, wl_Template := wl_Template s, wl_Strategy := wl_Strategy s\<rparr>"

text \<open>The status of the old object is overwritten, so that it is not part of the change.\<close>

definition getStatefulsetModifiedConfiguration :: "field_order \<Rightarrow> (Workload \<Rightarrow> json) \<Rightarrow> Workload \<Rightarrow> Workload \<Rightarrow> json option \<times> Workload" where
  "getStatefulsetModifiedConfiguration rng encode old new =
     (let old = old\<lparr>wl_ReadyReplicas := wl_ReadyReplicas new\<rparr>
      in (getchange rng (encode (getAllowFields old)) (encode (getAllowFields new)), old))"

definition getDeploymentModifiedConfiguration :: "field_order \<Rightarrow> (Workload \<Rightarrow> json) \<Rightarrow> Workload \<Rightarrow> Workload \<Rightarrow> json option \<times> Workload" where
  "getDeploymentModifiedConfiguration rng encode old new =
     (let old = old\<lparr>wl_ReadyReplicas := wl_ReadyReplicas new\<rparr> in (getchange rng (encode old) (encode new), old))"

fun json_text :: "json \<Rightarrow> bytes" and fields_text :: "(string \<times> json) list \<Rightarrow> bytes" where
  "json_text (JRaw b) = b"
| "json_text (JObj fs) = ''{'' @ fields_text fs @ ''}''"
| "fields_text [] = []"
| "fields_text ((k, v) # fs) =
     [CHR 0x22] @ k @ [CHR 0x22] @ '':'' @ json_text v @ (if fs = [] then [] else '','' @ fields_text fs)"

text \<open>The startup sequence of a workload is kept when the new one has none.\<close>

definition keep_boot_sequence :: "Container option \<Rightarrow> Workload \<Rightarrow> Workload \<Rightarrow> Workload" where
  "keep_boot_sequence boot old new =
     (if isContainsBootSequence (pt_InitContainers (wl_Template old)) \<and> \<not> isContainsBootSequence (pt_InitContainers (wl_Template new))
      then (case boot of
              None \<Rightarrow> new
            | Some c \<Rightarrow> new\<lparr>wl_Template := wl_Template new\<lparr>pt_InitContainers := pt_InitContainers (wl_Template new) @ [c]\<rparr>\<rparr>)
      else new)"

definition copy_base :: "AppService \<Rightarrow> AppService \<Rightarrow> AppService" where
  \<comment> \<open>\<open>a.AppServiceBase = new.AppServiceBase\<close>\<close>
  "copy_base new a =
     a\<lparr>as_TenantID := as_TenantID new, as_TenantName := as_TenantName new, as_AppID := as_AppID new, as_ServiceID := as_ServiceID new,
       as_ServiceAlias := as_ServiceAlias new, as_ServiceType := as_ServiceType new, as_ServiceKind := as_ServiceKind new,
       as_CreaterID := as_CreaterID new, as_DeployVersion := as_DeployVersion new, as_ContainerCPU := as_ContainerCPU new,
       as_ContainerMemory := as_ContainerMemory new, as_UpgradeMethod := as_UpgradeMethod new, as_Replicas := as_Replicas new,
       as_IsWindowsService := as_IsWindowsService new, as_ExtensionSet := as_ExtensionSet new, as_GovernanceMode := as_GovernanceMode new\<rparr>"

datatype patch_error = MarshalError | NoUpgrade

text \<open>The results: the error, the component of the cache and the new component.\<close>

definition set_patch ::
  "(Workload \<Rightarrow> Workload \<Rightarrow> json option \<times> Workload) \<Rightarrow> string \<Rightarrow> Container option \<Rightarrow> Workload \<Rightarrow> Workload \<Rightarrow> (string, string) gomap \<Rightarrow>
   patch_error option \<times> Workload \<times> Workload \<times> (string, string) gomap" where
  "set_patch configuration key boot old new patches =
     (let new = keep_boot_sequence boot old new; (patch, old) = configuration old new in
      case patch of
        None \<Rightarrow> (Some MarshalError, old, new, patches)
      | Some p \<Rightarrow>
          if length (json_text p) = 0 then (Some NoUpgrade, old, new, patches)
          else (None, old, new, map_set key (json_text p) patches))"

definition patch_statefulset :: "field_order \<Rightarrow> (Workload \<Rightarrow> json) \<Rightarrow> AppService \<Rightarrow> AppService \<Rightarrow> patch_error option \<times> AppService \<times> AppService" where
  "patch_statefulset rng encode a new =
     (case (as_statefulset a, as_statefulset new) of
        (Some o1, Some n) \<Rightarrow>
          (let (e, o1, n, ps) = set_patch (getStatefulsetModifiedConfiguration rng encode) ''statefulset'' (as_BootSeqContainer new) o1 n (as_UpgradePatch new)
           in (e, a\<lparr>as_statefulset := Some o1\<rparr>, new\<lparr>as_statefulset := Some n, as_UpgradePatch := ps\<rparr>))
      | _ \<Rightarrow> (None, a, new))"

definition patch_deployment :: "field_order \<Rightarrow> (Workload \<Rightarrow> json) \<Rightarrow> AppService \<Rightarrow> AppService \<Rightarrow> patch_error option \<times> AppService \<times> AppService" where
  "patch_deployment rng encode a new =
     (case (as_deployment a, as_deployment new) of
        (Some o1, Some n) \<Rightarrow>
          (let (e, o1, n, ps) = set_patch (getDeploymentModifiedConfiguration rng encode) ''deployment'' (as_BootSeqContainer new) o1 n (as_UpgradePatch new)
           in (e, a\<lparr>as_deployment := Some o1\<rparr>, new\<lparr>as_deployment := Some n, as_UpgradePatch := ps\<rparr>))
      | _ \<Rightarrow> (None, a, new))"

definition SetUpgradePatch :: "field_order \<Rightarrow> (Workload \<Rightarrow> json) \<Rightarrow> AppService \<Rightarrow> AppService \<Rightarrow> patch_error option \<times> AppService \<times> AppService" where
  "SetUpgradePatch rng encode a new =
     (case patch_statefulset rng encode a new of
        (Some e, a, new) \<Rightarrow> (Some e, a, new)
      | (None, a, new) \<Rightarrow>
          (case patch_deployment rng encode a new of
             (Some e, a, new) \<Rightarrow> (Some e, a, new)
           | (None, a, new) \<Rightarrow> (None, copy_base new a, new)))"

section \<open>Applying a merge patch\<close>

text \<open>The merge patch of RFC 7386, which the API server applies: an object is merged field by field, \<open>null\<close>
  removes a field, any other value replaces.\<close>

fun merge_patch :: "json \<Rightarrow> json \<Rightarrow> json" and merge_fields :: "(string \<times> json) list \<Rightarrow> (string \<times> json) list \<Rightarrow> (string \<times> json) list" where
  "merge_patch target (JRaw b) = JRaw b"
| "merge_patch target (JObj ps) = JObj (merge_fields (case target of JObj fs \<Rightarrow> fs | JRaw _ \<Rightarrow> []) ps)"
| "merge_fields fs [] = fs"
| "merge_fields fs ((k, v) # ps) =
     merge_fields (if v = json_null then AList.delete k fs
                   else map_set k (merge_patch (case map_of fs k of Some t \<Rightarrow> t | None \<Rightarrow> json_null) v) fs) ps"

text \<open>The value at a path, where \<open>null\<close> counts as no value, and whether a document leaves a path to another one.\<close>

fun value_at :: "json \<Rightarrow> string list \<Rightarrow> bytes option" where
  "value_at (JRaw b) [] = (if b = ''null'' then None else Some b)"
| "value_at (JRaw b) (k # p) = None"
| "value_at (JObj fs) [] = None"
| "value_at (JObj fs) (k # p) = (case map_of fs k of None \<Rightarrow> None | Some v \<Rightarrow> value_at v p)"

fun leaves_open :: "json \<Rightarrow> string list \<Rightarrow> bool" where
  "leaves_open (JObj fs) (k # p) = (case map_of fs k of None \<Rightarrow> True | Some v \<Rightarrow> leaves_open v p)"
| "leaves_open _ _ = False"

text \<open>Field names are not repeated.\<close>

fun wf_json :: "json \<Rightarrow> bool" and wf_fields :: "(string \<times> json) list \<Rightarrow> bool" where
  "wf_json (JRaw b) = True"
| "wf_json (JObj fs) = (distinct (map fst fs) \<and> wf_fields fs)"
| "wf_fields [] = True"
| "wf_fields ((k, v) # fs) = (wf_json v \<and> wf_fields fs)"

section \<open>What the patch does\<close>

definition node_of :: "json option \<Rightarrow> EncodeNode" where
  "node_of old = (case old of None \<Rightarrow> zero_EncodeNode | Some j \<Rightarrow> UnmarshalJSON j)"

definition or_null :: "json option \<Rightarrow> json" where
  "or_null old = (case old of None \<Rightarrow> json_null | Some j \<Rightarrow> j)"

definition json_fields :: "json option \<Rightarrow> (string \<times> json) list" where
  "json_fields old = (case old of Some (JObj fs) \<Rightarrow> fs | _ \<Rightarrow> [])"

lemma node_of_body [simp]: "en_body (node_of old) = old"
  by (cases old; (cases "the old")?) (auto simp: node_of_def zero_EncodeNode_def)

lemma en_Field_Unmarshal:
  "en_Field (UnmarshalJSON j) = (case j of JRaw _ \<Rightarrow> None | JObj fs \<Rightarrow> Some (map (\<lambda>(k, v). (k, UnmarshalJSON v)) fs))"
  by (cases j) auto

lemma map_of_Unmarshal: "map_of (map (\<lambda>(k, v). (k, UnmarshalJSON v)) fs) k = map_option UnmarshalJSON (map_of fs k)"
  by (induction fs) auto

lemma node_field_of: "node_field (node_of old) k = node_of (map_of (json_fields old) k)"
  by (auto simp: node_field_def node_of_def json_fields_def zero_EncodeNode_def en_Field_Unmarshal map_of_Unmarshal
           split: option.splits json.splits)

lemma getChange_None: "getChange (node_of old) (UnmarshalJSON new) = None \<longleftrightarrow> old = Some new"
  by (cases new) (auto split: if_splits)

lemma marshal_fields_keys: "marshal_fields rng fs = Some js \<Longrightarrow> map fst js = map fst fs"
  by (induction fs arbitrary: js) (auto split: option.splits)

text \<open>The patch of one field of an object.\<close>

definition field_patch :: "field_order \<Rightarrow> json option \<Rightarrow> json \<Rightarrow> json option option" where
  \<comment> \<open>\<open>None\<close>: no entry; \<open>Some None\<close>: an error.\<close>
  "field_patch rng old new = map_option (MarshalJSON rng) (getChange (node_of old) (UnmarshalJSON new))"

lemma marshal_change_fields:
  assumes "distinct (map fst fs)"
    "marshal_fields rng (change_fields (node_of old) (map (\<lambda>(k, v). (k, UnmarshalJSON v)) fs)) = Some js"
  shows "distinct (map fst js) \<and> set (map fst js) \<subseteq> set (map fst fs) \<and>
    (\<forall>(k, v) \<in> set fs. field_patch rng (map_of (json_fields old) k) v = map_option Some (map_of js k))"
  using assms
proof (induction fs arbitrary: js)
  case Nil
  then show ?case by simp
next
  case (Cons kv fs)
  obtain k v where kv: "kv = (k, v)" by fastforce
  have k: "k \<notin> fst ` set fs" "distinct (map fst fs)" using Cons.prems(1) kv by auto
  let ?cs = "change_fields (node_of old) (map (\<lambda>(k, v). (k, UnmarshalJSON v)) fs)"
  show ?case
  proof (cases "getChange (node_of (map_of (json_fields old) k)) (UnmarshalJSON v)")
    case None
    then have "marshal_fields rng ?cs = Some js" using Cons.prems(2) kv by (simp add: node_field_of)
    note ih = Cons.IH[OF k(2) this]
    then have "map_of js k = None" using k(1) by (auto simp: map_of_eq_None_iff)
    moreover have "field_patch rng (map_of (json_fields old) k) v = None" using None by (simp add: field_patch_def)
    ultimately show ?thesis using ih kv by auto
  next
    case (Some c)
    then obtain j js' where j: "MarshalJSON rng c = Some j" "marshal_fields rng ?cs = Some js'" "js = (k, j) # js'"
      using Cons.prems(2) kv by (auto simp: node_field_of split: option.splits)
    note ih = Cons.IH[OF k(2) j(2)]
    then have "k \<notin> fst ` set js'" using k(1) by auto
    moreover have "field_patch rng (map_of (json_fields old) k) v = Some (Some j)" using Some j(1) by (simp add: field_patch_def)
    moreover have "map_of js k' = map_of js' k'" if "(k', v') \<in> set fs" for k' v' using that k(1) j(3) by force
    ultimately show ?thesis using ih kv j(3) by auto
  qed
qed

lemma wf_fields_iff: "wf_fields fs \<longleftrightarrow> (\<forall>(k, v) \<in> set fs. wf_json v)"
  by (induction fs) auto

lemma map_of_merge_fields:
  "distinct (map fst ps) \<Longrightarrow>
   map_of (merge_fields fs ps) k =
     (case map_of ps k of
        None \<Rightarrow> map_of fs k
      | Some v \<Rightarrow> if v = json_null then None else Some (merge_patch (or_null (map_of fs k)) v))"
proof (induction ps arbitrary: fs)
  case Nil
  then show ?case by simp
next
  case (Cons kv ps)
  obtain k' v where kv: "kv = (k', v)" by fastforce
  then have d: "distinct (map fst ps)" "map_of ps k' = None" using Cons.prems by (auto simp: map_of_eq_None_iff)
  show ?case using Cons.IH[OF d(1)] d(2) kv
    by (auto simp: delete_conv or_null_def json_null_def split: option.splits)
qed

lemma patch_null: "getChange (node_of old) (UnmarshalJSON new) = Some c \<Longrightarrow> MarshalJSON rng c = Some json_null \<Longrightarrow> new = json_null"
  by (cases new) (auto simp: json_null_def split: if_splits option.splits)

lemma value_at_null [simp]: "value_at json_null p = None"
  by (cases p) (auto simp: json_null_def)

lemma patch_value:
  assumes rng: "is_range rng"
  shows "wf_json new \<Longrightarrow> getChange (node_of old) (UnmarshalJSON new) = Some c \<Longrightarrow> MarshalJSON rng c = Some j \<Longrightarrow>
   value_at (merge_patch (or_null old) j) p = (if leaves_open new p then value_at (or_null old) p else value_at new p)"
proof (induction new arbitrary: old c j p)
  case (JRaw b)
  then show ?case by (cases p) (auto split: if_splits)
next
  case (JObj fs)
  let ?fs = "map (\<lambda>(k, v). (k, UnmarshalJSON v)) fs"
  have fs: "fs \<noteq> []" "c = EncodeNode None None (Some (change_fields (node_of old) ?fs))"
    using JObj.prems(2,3) by (auto split: if_splits)
  then obtain js0 where js0: "marshal_fields rng (change_fields (node_of old) ?fs) = Some js0" "j = JObj (rng js0)"
    using JObj.prems(3) by auto
  have d: "distinct (map fst fs)" using JObj.prems(1) by simp
  note m0 = marshal_change_fields[OF d js0(1)]
  define js where "js = rng js0"
  have js: "j = JObj js" "map_of js = map_of js0" "set js = set js0" "distinct (map fst js)"
    using rng m0 js0(2) is_range_wf[OF rng, of js0]
    by (simp_all add: js_def is_range_map_of is_range_set wf_map_def)
  have m: "distinct (map fst js) \<and> set (map fst js) \<subseteq> set (map fst fs) \<and>
      (\<forall>(k, v) \<in> set fs. field_patch rng (map_of (json_fields old) k) v = map_option Some (map_of js k))"
    using m0 js by simp
  have merged: "merge_patch (or_null old) j = JObj (merge_fields (json_fields old) js)"
    by (auto simp: js(1) or_null_def json_fields_def json_null_def split: option.splits json.splits)
  have old_at: "value_at (or_null old) (k # q) = (case map_of (json_fields old) k of None \<Rightarrow> None | Some v \<Rightarrow> value_at v q)" for k q
    by (auto simp: or_null_def json_fields_def json_null_def split: option.splits json.splits)
  show ?case
  proof (cases p)
    case Nil
    then show ?thesis by (simp add: merged)
  next
    case (Cons k q)
    show ?thesis
    proof (cases "map_of fs k")
      case None
      then have "map_of js k = None" using m unfolding map_of_eq_None_iff set_map by blast
      then show ?thesis using None m by (simp add: Cons merged map_of_merge_fields old_at del: merge_patch.simps)
    next
      case (Some v)
      then have kv: "(k, v) \<in> set fs" by (rule map_of_SomeD)
      then have wf: "wf_json v" using JObj.prems(1) by (auto simp: wf_fields_iff)
      have fp: "field_patch rng (map_of (json_fields old) k) v = map_option Some (map_of js k)" using m kv by blast
      show ?thesis
      proof (cases "map_of js k")
        case None
        then have "map_of (json_fields old) k = Some v" using fp by (simp add: field_patch_def getChange_None)
        then show ?thesis using None Some m by (simp add: Cons merged map_of_merge_fields old_at)
      next
        case (Some jv)
        then obtain cv where cv: "getChange (node_of (map_of (json_fields old) k)) (UnmarshalJSON v) = Some cv" "MarshalJSON rng cv = Some jv"
          using fp by (auto simp: field_patch_def)
        have ih: "value_at (merge_patch (or_null (map_of (json_fields old) k)) jv) q =
            (if leaves_open v q then value_at (or_null (map_of (json_fields old) k)) q else value_at v q)"
          using kv wf cv by (intro JObj.IH[of "(k, v)" v]) simp_all
        have old_q: "value_at (or_null (map_of (json_fields old) k)) q = value_at (or_null old) (k # q)"
          unfolding old_at by (cases "map_of (json_fields old) k") (simp_all add: or_null_def)
        show ?thesis
        proof (cases "jv = json_null")
          case True
          then have "v = json_null" using cv patch_null by simp
          then show ?thesis using True Some \<open>map_of fs k = Some v\<close> m
            by (simp add: Cons merged map_of_merge_fields json_null_def) (cases q; simp)
        next
          case False
          then show ?thesis using ih old_q Some \<open>map_of fs k = Some v\<close> m
            by (simp add: Cons merged map_of_merge_fields)
        qed
      qed
    qed
  qed
qed

text \<open>When there is no patch: the texts differ at a place where the new value is an empty object, or is not an
  object while the old one is.\<close>

fun unpatchable :: "json option \<Rightarrow> json \<Rightarrow> bool" and unpatchable_fields :: "json option \<Rightarrow> (string \<times> json) list \<Rightarrow> bool" where
  "unpatchable old (JRaw b) \<longleftrightarrow> (case old of Some (JObj _) \<Rightarrow> True | _ \<Rightarrow> False)"
| "unpatchable old (JObj fs) \<longleftrightarrow> old \<noteq> Some (JObj fs) \<and> (fs = [] \<or> unpatchable_fields old fs)"
| "unpatchable_fields old [] \<longleftrightarrow> False"
| "unpatchable_fields old ((k, v) # fs) \<longleftrightarrow> unpatchable (map_of (json_fields old) k) v \<or> unpatchable_fields old fs"

lemma not_unpatchable_same: "\<not> unpatchable (Some new) new"
  by (cases new) auto

lemma field_patch_error: "field_patch rng old new = Some None \<longleftrightarrow> unpatchable old new"
  "marshal_fields rng (change_fields (node_of old) (map (\<lambda>(k, v). (k, UnmarshalJSON v)) fs)) = None \<longleftrightarrow> unpatchable_fields old fs"
proof (induction old new and old fs rule: unpatchable_unpatchable_fields.induct)
  case (1 old b)
  have "en_Field (node_of old) = None \<longleftrightarrow> (case old of Some (JObj _) \<Rightarrow> False | _ \<Rightarrow> True)"
    "en_value (node_of old) = (case old of Some (JRaw b) \<Rightarrow> Some b | _ \<Rightarrow> None)"
    by (auto simp: node_of_def zero_EncodeNode_def split: option.splits json.splits)
  then show ?case by (auto simp: field_patch_def split: option.splits json.splits)
next
  case (2 old fs)
  then show ?case by (auto simp: field_patch_def)
next
  case (4 old k v fs)
  then show ?case by (auto simp: field_patch_def node_field_of split: option.splits)
qed simp

lemma getchange_error: "getchange rng old new = None \<longleftrightarrow> unpatchable (Some old) new"
  using field_patch_error(1)[of rng "Some old" new]
  by (auto simp: getchange_def field_patch_def node_of_def split: option.splits)

lemma getchange_same: "getchange rng old old = Some json_null"
  using getChange_None[of "Some old" old] by (simp add: getchange_def node_of_def)

lemma getchange_value:
  assumes "is_range rng" "wf_json new" "getchange rng old new = Some j" "old \<noteq> new"
  shows "value_at (merge_patch old j) p = (if leaves_open new p then value_at old p else value_at new p)"
proof -
  obtain c where "getChange (node_of (Some old)) (UnmarshalJSON new) = Some c" "MarshalJSON rng c = Some j"
    using assms(3,4) getChange_None[of "Some old" new] by (auto simp: getchange_def node_of_def split: option.splits)
  from patch_value[OF assms(1,2) this] show ?thesis by (simp add: or_null_def)
qed

end
