(* ===== verification/WkTasks.thy ===== *)
theory WkTasks
  imports WkUpgrade WkPatch
begin

text \<open>
  The tasks of the worker: their bodies (\<open>worker/discover/model\<close>), what each of them does (\<open>worker/handle/manager.go\<close>),
  the collector of what a deleted component leaves behind (\<open>worker/gc/gc.go\<close>) and the loop that takes tasks from the
  message queue (\<open>worker/discover/manager.go\<close>).

  \<^item> The result \<open>None\<close> of a task is a panic; otherwise it is an error or its absence and the new state of the
    worker. Log entries are kept with the identity of the event; releasing a logger is left out.
  \<^item> Decoding the body of a message (\<open>ffjson\<close>), the database and the queue are arguments.
\<close>

section \<open>Tasks\<close>

datatype task_body =
    StartTaskBody (body_sid: string) (body_eid: string) (body_configs: "(string, string) gomap")
  | StopTaskBody (body_sid: string) (body_eid: string) (body_configs: "(string, string) gomap")
  | RestartTaskBody (body_sid: string) (body_eid: string) (body_configs: "(string, string) gomap")
  | RollingUpgradeTaskBody (body_sid: string) (body_eid: string) (body_configs: "(string, string) gomap")
  | HorizontalScalingTaskBody (body_sid: string) (body_eid: string) string
  | VerticalScalingTaskBody (body_sid: string) (body_eid: string)
  | ApplyRuleTaskBody (body_sid: string) (body_eid: string) string int bool "(string, string) gomap option"
  | ApplyPluginConfigTaskBody (body_sid: string) (body_eid: string)
  | ServiceGCTaskBody string (body_sid: string) "string list"
  | DeleteTenantTaskBody string
  | RefreshHPATaskBody (body_sid: string) (body_eid: string)
  | RollBackTaskBody
  | GroupStartTaskBody
  | GroupStopTaskBody
  | DefaultTaskBody

text \<open>The interface \<open>TaskBody\<close> holds a structure, a pointer to one, or nil; the type assertions tell them apart.\<close>

datatype TaskBody = ByValue task_body | ByPointer task_body | NilBody

record Task =
  tsk_Type :: string
  tsk_Body :: TaskBody

text \<open>\<open>ffjson.Unmarshal\<close> into a structure: a function of the text for each structure.\<close>

record body_decoder =
  dec_Start :: "bytes \<Rightarrow> (string \<times> string \<times> (string, string) gomap) option"
  dec_Stop :: "bytes \<Rightarrow> (string \<times> string \<times> (string, string) gomap) option"
  dec_Restart :: "bytes \<Rightarrow> (string \<times> string \<times> (string, string) gomap) option"
  dec_RollingUpgrade :: "bytes \<Rightarrow> (string \<times> string \<times> (string, string) gomap) option"
  dec_HorizontalScaling :: "bytes \<Rightarrow> (string \<times> string \<times> string) option"
  dec_VerticalScaling :: "bytes \<Rightarrow> (string \<times> string) option"
  dec_ApplyRule :: "bytes \<Rightarrow> (string \<times> string \<times> string \<times> int \<times> bool \<times> (string, string) gomap option) option"
  dec_ApplyPluginConfig :: "bytes \<Rightarrow> (string \<times> string) option"
  dec_ServiceGC :: "bytes \<Rightarrow> (string \<times> string \<times> string list) option"
  dec_DeleteTenant :: "bytes \<Rightarrow> string option"
  dec_RefreshHPA :: "bytes \<Rightarrow> (string \<times> string) option"
  dec_Other :: "bytes \<Rightarrow> bool"

definition body_or_nil :: "('b \<Rightarrow> TaskBody) \<Rightarrow> 'b option \<Rightarrow> TaskBody" where
  "body_or_nil f r = (case r of None \<Rightarrow> NilBody | Some b \<Rightarrow> f b)"

definition NewTaskBody :: "body_decoder \<Rightarrow> string \<Rightarrow> bytes \<Rightarrow> TaskBody" where
  "NewTaskBody d taskType body =
     (if taskType = ''start'' then body_or_nil (\<lambda>(s, e, c). ByValue (StartTaskBody s e c)) (dec_Start d body)
      else if taskType = ''stop'' then body_or_nil (\<lambda>(s, e, c). ByValue (StopTaskBody s e c)) (dec_Stop d body)
      else if taskType = ''restart'' then body_or_nil (\<lambda>(s, e, c). ByValue (RestartTaskBody s e c)) (dec_Restart d body)
      else if taskType = ''rolling_upgrade''
        then body_or_nil (\<lambda>(s, e, c). ByValue (RollingUpgradeTaskBody s e c)) (dec_RollingUpgrade d body)
      else if taskType = ''rollback'' then if dec_Other d body then ByValue RollBackTaskBody else NilBody
      else if taskType = ''group_start'' then if dec_Other d body then ByValue GroupStartTaskBody else NilBody
      else if taskType = ''group_stop'' then if dec_Other d body then ByValue GroupStopTaskBody else NilBody
      else if taskType = ''horizontal_scaling''
        then body_or_nil (\<lambda>(s, e, u). ByValue (HorizontalScalingTaskBody s e u)) (dec_HorizontalScaling d body)
      else if taskType = ''vertical_scaling''
        then body_or_nil (\<lambda>(s, e). ByValue (VerticalScalingTaskBody s e)) (dec_VerticalScaling d body)
      else if taskType = ''apply_rule''
        then body_or_nil (\<lambda>(s, e, a, p, i, l). ByPointer (ApplyRuleTaskBody s e a p i l)) (dec_ApplyRule d body)
      else if taskType = ''apply_plugin_config''
        then body_or_nil (\<lambda>(s, e). ByPointer (ApplyPluginConfigTaskBody s e)) (dec_ApplyPluginConfig d body)
      else if taskType = ''service_gc'' then body_or_nil (\<lambda>(t, s, es). ByValue (ServiceGCTaskBody t s es)) (dec_ServiceGC d body)
      else if taskType = ''delete_tenant'' then body_or_nil (\<lambda>t. ByPointer (DeleteTenantTaskBody t)) (dec_DeleteTenant d body)
      else if taskType = ''refreshhpa'' then body_or_nil (\<lambda>(s, e). ByPointer (RefreshHPATaskBody s e)) (dec_RefreshHPA d body)
      else ByValue DefaultTaskBody)"

record TaskMessage =
  msg_TaskType :: string
  msg_TaskBody :: bytes

definition TransTask :: "body_decoder \<Rightarrow> TaskMessage \<Rightarrow> Task" where
  "TransTask d m = \<lparr>tsk_Type = msg_TaskType m, tsk_Body = NewTaskBody d (msg_TaskType m) (msg_TaskBody m)\<rparr>"

section \<open>The state of the worker\<close>

datatype start_event = StartEvent string int bool | StopEvent string

datatype removal = DockerLogs string | EventLog string | VolumeData string string

record 'w tasks =
  tk_manager :: Manager
  tk_store :: appRuntimeStore
  tk_cluster :: 'w
  tk_log :: "(string \<times> log_entry) list"
  tk_records :: "TenantServiceScalingRecords list"
  tk_startCh :: "start_event list"
  tk_removed :: "removal list"
  tk_failedTenants :: "string list"

text \<open>\<open>te_uuid\<close> is the next new identity, \<open>te_now\<close> the present time, \<open>te_fields\<close> the order in which the fields of a patch
  are ranged over. \<open>te_UpdateTenant\<close> says whether the status of a
  tenant could be saved.\<close>

record 'w task_env =
  te_ctl :: "'w ctl_env"
  te_MaxTasks :: int
  te_StoreReady :: bool
  te_uuid :: "'w tasks \<Rightarrow> string"
  te_now :: int
  te_encode :: "Workload \<Rightarrow> json"
  te_fields :: field_order
  te_HasOpenPort :: "string \<Rightarrow> bool"
  te_DelByTenantID :: "string \<Rightarrow> db_error option"
  te_UpdateTenant :: "string \<Rightarrow> bool"

abbreviation te_store :: "'w task_env \<Rightarrow> store_env" where
  "te_store env \<equiv> ce_store (te_ctl env)"

abbreviation te_db :: "'w task_env \<Rightarrow> dbmanager" where
  "te_db env \<equiv> se_db (te_store env)"

text \<open>\<open>ErrBody\<close> is the error of an executor whose type assertion on the body of the task fails, whatever its text (that of
  \<open>horizontalScalingExec\<close> is \<open>a\<close>, like that of its next error); the other errors of the executors are their texts.\<close>

datatype task_error = ErrCallback | ErrBody | ErrTask string

type_synonym 'w task_result = "(task_error option \<times> 'w tasks) option"

definition log_event :: "string \<Rightarrow> log_entry \<Rightarrow> 'w tasks \<Rightarrow> 'w tasks" where
  "log_event eid e s = s\<lparr>tk_log := tk_log s @ [(eid, e)]\<rparr>"

definition with_store :: "(appRuntimeStore \<Rightarrow> appRuntimeStore) \<Rightarrow> 'w tasks \<Rightarrow> 'w tasks" where
  "with_store f s = s\<lparr>tk_store := f (tk_store s)\<rparr>"

definition closed :: "'w task_env \<Rightarrow> AppService option \<Rightarrow> bool" where
  \<comment> \<open>\<open>appService == nil || appService.IsClosed()\<close>\<close>
  "closed env a = (case a of None \<Rightarrow> True | Some a \<Rightarrow> IsClosed (se_kind (te_store env) a) a)"

definition init_app :: "'w task_env \<Rightarrow> string \<Rightarrow> (string, string) gomap \<Rightarrow> string list \<Rightarrow> (conv_error + AppService) option" where
  "init_app env sid configs enabled = InitAppService (ce_conversions (te_ctl env)) (te_db env) sid configs enabled"

text \<open>Starting a controller with one component, and the error and the log entries when that fails.\<close>

definition run_controller ::
  "'w task_env \<Rightarrow> TypeController \<Rightarrow> AppService \<Rightarrow> string \<Rightarrow> (string \<times> log_entry) list \<Rightarrow> 'w tasks \<Rightarrow> 'w task_result" where
  "run_controller env t app msg failure s =
     (case StartController (te_uuid env s) t [app] (tk_manager s) of
        None \<Rightarrow> None
      | Some (ok, m) \<Rightarrow>
          Some (if ok then (None, s\<lparr>tk_manager := m\<rparr>) else (Some (ErrTask msg), s\<lparr>tk_manager := m, tk_log := tk_log s @ failure\<rparr>)))"

definition merge_configs :: "(string, string) gomap \<Rightarrow> AppService \<Rightarrow> AppService" where
  "merge_configs configs a = a\<lparr>as_ExtensionSet := fold (\<lambda>(k, v) m. map_set k v m) configs (as_ExtensionSet a)\<rparr>"

section \<open>The executors of manager.go\<close>

definition checkCount :: "'w task_env \<Rightarrow> 'w tasks \<Rightarrow> bool" where
  "checkCount env s \<longleftrightarrow> GetControllerSize (tk_manager s) > te_MaxTasks env"

definition startExec :: "'w task_env \<Rightarrow> TaskBody \<Rightarrow> 'w tasks \<Rightarrow> 'w task_result" where
  "startExec env body s =
     (case body of
        ByValue (StartTaskBody sid eid configs) \<Rightarrow>
          if \<not> closed env (GetAppService sid (tk_store s)) then Some (None, log_event eid (LogInfo LastLoggerOption) s)
          else
            (case init_app env sid configs [] of
               None \<Rightarrow> None
             | Some (Inl _) \<Rightarrow> Some (Some (ErrTask ''Application init create failure''), log_event eid (LogError CallbackLoggerOption) s)
             | Some (Inr newAppService) \<Rightarrow>
                 run_controller env TypeStartController newAppService ''Application start failure'' [(eid, LogError CallbackLoggerOption)]
                   (with_store (RegistAppService newAppService) s))
      | _ \<Rightarrow> Some (Some ErrBody, s))"

text \<open>\<open>stopExec\<close> and \<open>restartExec\<close> differ in the body and the controller.\<close>

definition stop_with :: "'w task_env \<Rightarrow> TypeController \<Rightarrow> string \<Rightarrow> string \<Rightarrow> string \<Rightarrow> (string, string) gomap \<Rightarrow> 'w tasks \<Rightarrow> 'w task_result" where
  "stop_with env t msg sid eid configs s =
     (case GetAppService sid (tk_store s) of
        None \<Rightarrow> Some (None, log_event eid (LogInfo LastLoggerOption) s)
      | Some appService \<Rightarrow>
          (let appService = merge_configs configs appService
           in run_controller env t appService msg [(eid, LogInfo CallbackLoggerOption)] (with_store (put_app sid appService) s)))"

definition stopExec :: "'w task_env \<Rightarrow> TaskBody \<Rightarrow> 'w tasks \<Rightarrow> 'w task_result" where
  "stopExec env body s =
     (case body of
        ByValue (StopTaskBody sid eid configs) \<Rightarrow> stop_with env TypeStopController ''Application stop failure'' sid eid configs s
      | _ \<Rightarrow> Some (Some ErrBody, s))"

definition restartExec :: "'w task_env \<Rightarrow> TaskBody \<Rightarrow> 'w tasks \<Rightarrow> 'w task_result" where
  "restartExec env body s =
     (case body of
        ByValue (RestartTaskBody sid eid configs) \<Rightarrow> stop_with env TypeRestartController ''Application restart failure'' sid eid configs s
      | _ \<Rightarrow> Some (Some ErrBody, s))"

text \<open>The record of a scaling, without the text of its description.\<close>

definition scaling_result :: "'w task_env \<Rightarrow> string \<Rightarrow> string \<Rightarrow> bool \<Rightarrow> 'w tasks \<Rightarrow> TenantServiceScalingRecords" where
  "scaling_result env sid username ok s =
     \<lparr>sr_ServiceID = sid, sr_RuleID = [], sr_EventName = te_uuid env s, sr_RecordType = ''manual'', sr_Count = 1,
      sr_Reason = (if ok then ''SuccessfulRescale'' else ''FailedRescale''), sr_Description = [], sr_Operator = username,
      sr_LastTime = te_now env\<rparr>"

definition horizontalScalingExec :: "'w task_env \<Rightarrow> TaskBody \<Rightarrow> 'w tasks \<Rightarrow> 'w task_result" where
  "horizontalScalingExec env body s =
     (case body of
        ByValue (HorizontalScalingTaskBody sid eid username) \<Rightarrow>
          (case GetServiceByID (te_db env) sid of
             Inl _ \<Rightarrow> Some (Some (ErrTask ''a''), log_event eid (LogError CallbackLoggerOption) s)
           | Inr service \<Rightarrow>
               (case GetAppService sid (tk_store s) of
                  Some appService \<Rightarrow>
                    if closed env (Some appService) then Some (None, log_event eid (LogInfo LastLoggerOption) s)
                    else
                      (case service of
                         None \<Rightarrow> None
                       | Some service \<Rightarrow>
                           (let appService = appService\<lparr>as_Replicas := ts_Replicas service\<rparr>;
                                s = with_store (put_app sid appService) s
                            in case run_controller env TypeScalingController appService ''No support controller'' [(eid, LogInfo CallbackLoggerOption)] s of
                                 None \<Rightarrow> None
                               | Some (err, s) \<Rightarrow> Some (err, s\<lparr>tk_records := tk_records s @ [scaling_result env sid username (err = None) s]\<rparr>)))
                | None \<Rightarrow> Some (None, log_event eid (LogInfo LastLoggerOption) s)))
      | _ \<Rightarrow> Some (Some ErrBody, s))"

definition verticalScalingExec :: "'w task_env \<Rightarrow> TaskBody \<Rightarrow> 'w tasks \<Rightarrow> 'w task_result" where
  "verticalScalingExec env body s =
     (case body of
        ByValue (VerticalScalingTaskBody sid eid) \<Rightarrow>
          (case GetServiceByID (te_db env) sid of
             Inl _ \<Rightarrow> Some (Some (ErrTask ''vertical_scaling get rc error''), log_event eid (LogError CallbackLoggerOption) s)
           | Inr service \<Rightarrow>
               (case GetAppService sid (tk_store s) of
                  Some appService \<Rightarrow>
                    if closed env (Some appService) then Some (None, log_event eid (LogInfo LastLoggerOption) s)
                    else
                      (case service of
                         None \<Rightarrow> None
                       | Some service \<Rightarrow>
                           (let appService = appService\<lparr>as_ContainerCPU := ts_ContainerCPU service, as_ContainerMemory := ts_ContainerMemory service\<rparr>;
                                s = with_store (put_app sid appService) s
                            in case init_app env sid [] [] of
                                 None \<Rightarrow> None
                               | Some (Inl _) \<Rightarrow>
                                   Some (Some (ErrTask ''Application init create failure''), log_event eid (LogError CallbackLoggerOption) s)
                               | Some (Inr newAppService) \<Rightarrow>
                                   \<comment> \<open>The error of \<open>SetUpgradePatch\<close> is not looked at.\<close>
                                   (let (_, appService, newAppService) = SetUpgradePatch (te_fields env) (te_encode env) appService newAppService
                                    in run_controller env TypeUpgradeController newAppService ''Application vertical scaling(upgrade) failure'' [(eid, LogInfo CallbackLoggerOption)]
                                         (with_store (put_app sid appService) s))))
                | None \<Rightarrow> Some (None, log_event eid (LogInfo LastLoggerOption) s)))
      | _ \<Rightarrow> Some (Some ErrBody, s))"

definition rollingUpgradeExec :: "'w task_env \<Rightarrow> TaskBody \<Rightarrow> 'w tasks \<Rightarrow> 'w task_result" where
  "rollingUpgradeExec env body s =
     (case body of
        ByValue (RollingUpgradeTaskBody sid eid configs) \<Rightarrow>
          (case init_app env sid configs [] of
             None \<Rightarrow> None
           | Some (Inl _) \<Rightarrow> Some (Some (ErrTask ''Application init create failure''), log_event eid (LogError CallbackLoggerOption) s)
           | Some (Inr newAppService) \<Rightarrow>
               (case GetAppService sid (tk_store s) of
                  None \<Rightarrow>
                    run_controller env TypeStartController newAppService ''Application start failure'' [(eid, LogInfo CallbackLoggerOption)]
                      (with_store (RegistAppService newAppService) s)
                | Some oldAppService \<Rightarrow>
                    if closed env (Some oldAppService)
                    then run_controller env TypeStartController newAppService ''Application start failure'' [(eid, LogInfo CallbackLoggerOption)]
                           (with_store (RegistAppService newAppService) s)
                    else
                      (case SetUpgradePatch (te_fields env) (te_encode env) oldAppService newAppService of
                         (Some NoUpgrade, oldAppService, _) \<Rightarrow>
                           Some (None, log_event eid (LogInfo LastLoggerOption) (with_store (put_app sid oldAppService) s))
                       | (Some MarshalError, oldAppService, _) \<Rightarrow>
                           Some (None, log_event eid (LogError CallbackLoggerOption) (with_store (put_app sid oldAppService) s))
                       | (None, oldAppService, newAppService) \<Rightarrow>
                           run_controller env TypeUpgradeController newAppService ''Application upgrade failure'' [(eid, LogInfo CallbackLoggerOption)]
                             (with_store (put_app sid oldAppService) s))))
      | _ \<Rightarrow> Some (Some ErrBody, s))"

text \<open>\<open>InitOneThirdPartService\<close> of the store.\<close>

definition InitOneThirdPartService :: "'w task_env \<Rightarrow> string \<Rightarrow> 'w tasks \<Rightarrow> 'w task_result" where
  "InitOneThirdPartService env sid s =
     (if \<not> te_HasOpenPort env sid then Some (None, s)
      else
        (case InitCacheAppService (se_exDomain (te_store env)) (se_newVersion (te_store env)) (te_db env) sid ''Kato'' of
           None \<Rightarrow> None
         | Some (Inl _) \<Rightarrow> Some (Some (ErrTask ''application apply service resource failure''), s)
         | Some (Inr app) \<Rightarrow>
             (let s = with_store (RegistAppService app) s; (err, w) = ApplyOne (ce_client (te_ctl env)) app (tk_cluster s)
              in Some (if err = None then None else Some (ErrTask ''application apply service resource failure''), s\<lparr>tk_cluster := w\<rparr>))))"

definition third_party_ports :: "'w task_env \<Rightarrow> TenantServices \<Rightarrow> string \<Rightarrow> string \<Rightarrow> int \<Rightarrow> bool \<Rightarrow> bool \<Rightarrow> AppService \<Rightarrow> 'w tasks \<Rightarrow> 'w task_result" where
  \<comment> \<open>The end of \<open>applyRuleExec\<close>, for the ports of a third-party component; \<open>known\<close> says that the store had it.\<close>
  "third_party_ports env svc sid action port isInner known newAppService s =
     (let s = (if known then s else with_store (RegistAppService newAppService) s) in
      case InitOneThirdPartService env (ts_ServiceID svc) s of
        None \<Rightarrow> None
      | Some (Some err, s) \<Rightarrow> Some (Some err, s)
      | Some (None, s) \<Rightarrow>
          (let s = (if action = ''port-open'' then s\<lparr>tk_startCh := tk_startCh s @ [StartEvent sid port isInner]\<rparr> else s);
               s = (if action = ''port-close'' \<and> \<not> te_HasOpenPort env sid then s\<lparr>tk_startCh := tk_startCh s @ [StopEvent sid]\<rparr> else s)
           in Some (None, s)))"

definition applyRuleExec :: "'w task_env \<Rightarrow> TaskBody \<Rightarrow> 'w tasks \<Rightarrow> 'w task_result" where
  "applyRuleExec env body s =
     (case body of
        ByPointer (ApplyRuleTaskBody sid eid action port isInner limit) \<Rightarrow>
          (case GetServiceByID (te_db env) sid of
             Inl _ \<Rightarrow> Some (Some (ErrTask ''error get TenantServices''), s)
           | Inr None \<Rightarrow> None
           | Inr (Some svc) \<Rightarrow>
               (let third = (ts_Kind svc = ServiceKindThirdParty); isPort = HasPrefix action ''port'';
                    oldAppService = GetAppService sid (tk_store s)
                in if \<not> third \<and> \<not> isPort \<and> closed env oldAppService
                   then Some (None, log_event eid (LogInfo LastLoggerOption) s)
                   else
                     (case init_app env sid [] (if third then [''ServiceSource'', ''TenantServiceBase'', ''TenantServiceRegist''] else []) of
                        None \<Rightarrow> None
                      | Some (Inl _) \<Rightarrow> Some (Some (ErrTask ''Application init create failure''), log_event eid (LogError CallbackLoggerOption) s)
                      | Some (Inr newAppService) \<Rightarrow>
                          (let newAppService = (SetDeletedResources oldAppService newAppService)\<lparr>as_CustomParams := limit\<rparr>
                           in case run_controller env TypeApplyRuleController newAppService ''Application apply rule controller failure'' [] s of
                                None \<Rightarrow> None
                              | Some (Some err, s) \<Rightarrow> Some (Some err, s)
                              | Some (None, s) \<Rightarrow>
                                  if third \<and> isPort
                                  then third_party_ports env svc sid action port isInner (oldAppService \<noteq> None) newAppService s
                                  else Some (None, s)))))
      | _ \<Rightarrow> Some (Some ErrBody, s))"

definition applyPluginConfig :: "'w task_env \<Rightarrow> TaskBody \<Rightarrow> 'w tasks \<Rightarrow> 'w task_result" where
  "applyPluginConfig env body s =
     (case body of
        ByPointer (ApplyPluginConfigTaskBody sid eid) \<Rightarrow>
          if closed env (GetAppService sid (tk_store s)) then Some (None, s)
          else
            (case init_app env sid [] [''ServiceSource'', ''TenantServiceBase'', ''TenantServicePlugin''] of
               None \<Rightarrow> None
             | Some (Inl _) \<Rightarrow> Some (Some (ErrTask ''init''), s)
             | Some (Inr newApp) \<Rightarrow>
                 run_controller env TypeApplyConfigController newApp ''Application apply plugin config controller failure'' [] s)
      | _ \<Rightarrow> Some (Some ErrBody, s))"

section \<open>gc.go\<close>

definition listOptionsServiceID :: "string \<Rightarrow> (string, string) gomap" where
  "listOptionsServiceID serviceID = [(''creator'', ''Kato''), (''service_id'', serviceID)]"

definition DelLogFile :: "string \<Rightarrow> string list \<Rightarrow> 'w tasks \<Rightarrow> 'w tasks" where
  "DelLogFile sid eventIDs s = s\<lparr>tk_removed := tk_removed s @ DockerLogs sid # map EventLog eventIDs\<rparr>"

definition DelVolumeData :: "string \<Rightarrow> string \<Rightarrow> 'w tasks \<Rightarrow> 'w tasks" where
  "DelVolumeData tenantID sid s = s\<lparr>tk_removed := tk_removed s @ [VolumeData tenantID sid]\<rparr>"

definition DelPvPvcByServiceID :: "'w Clientset \<Rightarrow> string \<Rightarrow> string \<Rightarrow> 'w \<Rightarrow> 'w" where
  "DelPvPvcByServiceID c tenantID sid w =
     (let opts = listOptionsServiceID sid; (_, w) = kc_DeleteCollection (cl_Volumes c) [] opts w
      in snd (kc_DeleteCollection (cl_Claims c) tenantID opts w))"

definition DelKubernetesObjects :: "'w Clientset \<Rightarrow> string \<Rightarrow> string \<Rightarrow> 'w \<Rightarrow> 'w" where
  "DelKubernetesObjects c tenantID sid w =
     (let opts = listOptionsServiceID sid;
          w = snd (kc_DeleteCollection (cl_Deployments c) tenantID opts w);
          w = snd (kc_DeleteCollection (cl_StatefulSets c) tenantID opts w);
          w = snd (kc_DeleteCollection (cl_Ingresses c) tenantID opts w);
          w = snd (kc_DeleteCollection (cl_Secrets c) tenantID opts w);
          w = snd (kc_DeleteCollection (cl_ConfigMaps c) tenantID opts w);
          w = snd (kc_DeleteCollection (cl_HPAs c) tenantID opts w);
          ((services, err), w) = kc_List (cl_Services c) tenantID opts w;
          w = (if err = None then fold (\<lambda>svc w. snd (kc_Delete (cl_Services c) tenantID (ko_Name svc) w)) services w else w)
      in snd (kc_DeleteCollection (cl_Endpoints c) tenantID opts w))"

definition ExecServiceGCTask :: "'w task_env \<Rightarrow> TaskBody \<Rightarrow> 'w tasks \<Rightarrow> 'w task_result" where
  "ExecServiceGCTask env body s =
     (case body of
        ByValue (ServiceGCTaskBody tenantID sid eventIDs) \<Rightarrow>
          (let c = ce_client (te_ctl env);
               s = DelLogFile sid eventIDs s;
               s = s\<lparr>tk_cluster := DelPvPvcByServiceID c tenantID sid (tk_cluster s)\<rparr>;
               s = DelVolumeData tenantID sid s
           in Some (None, s\<lparr>tk_cluster := DelKubernetesObjects c tenantID sid (tk_cluster s)\<rparr>))
      | _ \<Rightarrow> Some (Some ErrBody, s))"

section \<open>Tenants and autoscalers\<close>

text \<open>The deferred function of \<open>deleteTenant\<close>: the error of the task becomes that of the search for the tenant, and
  the error of saving its status goes to a variable of its own.\<close>

definition delete_failed :: "'w task_env \<Rightarrow> string \<Rightarrow> 'w tasks \<Rightarrow> 'w task_result" where
  "delete_failed env tenantID s =
     (case GetTenantByUUID (te_db env) tenantID of
        Inl _ \<Rightarrow> Some (Some (ErrTask ''find tenant''), s)
      | Inr None \<Rightarrow> None
      | Inr (Some tenant) \<Rightarrow>
          Some (None, if te_UpdateTenant env tenantID then s\<lparr>tk_failedTenants := tk_failedTenants s @ [tenantID]\<rparr> else s))"

definition deleteTenant :: "'w task_env \<Rightarrow> TaskBody \<Rightarrow> 'w tasks \<Rightarrow> 'w task_result" where
  "deleteTenant env body s =
     (case body of
        ByPointer (DeleteTenantTaskBody tenantID) \<Rightarrow>
          (let (err, w) = cl_DeleteNamespace (ce_client (te_ctl env)) tenantID (tk_cluster s); s = s\<lparr>tk_cluster := w\<rparr> in
           if err \<noteq> None \<and> err \<noteq> Some IsNotFound then delete_failed env tenantID s
           else if te_DelByTenantID env tenantID \<noteq> None then delete_failed env tenantID s
           else Some (None, s))
      | _ \<Rightarrow> Some (Some ErrBody, s))"

definition ExecRefreshHPATask :: "'w task_env \<Rightarrow> TaskBody \<Rightarrow> 'w tasks \<Rightarrow> 'w task_result" where
  "ExecRefreshHPATask env body s =
     (case body of
        ByPointer (RefreshHPATaskBody sid eid) \<Rightarrow>
          (let oldAppService = GetAppService sid (tk_store s) in
           if oldAppService \<noteq> None \<and> closed env oldAppService then Some (None, log_event eid (LogInfo LastLoggerOption) s)
           else
             (case init_app env sid [] [] of
                None \<Rightarrow> None
              | Some (Inl _) \<Rightarrow> Some (Some (ErrTask ''Application init create failure''), log_event eid (LogError CallbackLoggerOption) s)
              | Some (Inr newAppService) \<Rightarrow>
                  run_controller env TypeControllerRefreshHPA (SetDeletedResources oldAppService newAppService) ''refresh hpa'' [(eid, LogError CallbackLoggerOption)] s))
      | _ \<Rightarrow> Some (Some ErrBody, s))"

section \<open>AnalystToExec and the loop of the task manager\<close>

definition exec_task :: "'w task_env \<Rightarrow> string \<Rightarrow> TaskBody \<Rightarrow> 'w tasks \<Rightarrow> 'w task_result" where
  \<comment> \<open>The \<open>switch\<close> of \<open>AnalystToExec\<close>.\<close>
  "exec_task env t body s =
     (if t = ''start'' then startExec env body s
      else if t = ''stop'' then stopExec env body s
      else if t = ''restart'' then restartExec env body s
      else if t = ''horizontal_scaling'' then horizontalScalingExec env body s
      else if t = ''vertical_scaling'' then verticalScalingExec env body s
      else if t = ''rolling_upgrade'' then rollingUpgradeExec env body s
      else if t = ''apply_rule'' then applyRuleExec env body s
      else if t = ''apply_plugin_config'' then applyPluginConfig env body s
      else if t = ''service_gc'' then ExecServiceGCTask env body s
      else if t = ''delete_tenant'' then deleteTenant env body s
      else if t = ''refreshhpa'' then ExecRefreshHPATask env body s
      else Some (None, s))"

definition AnalystToExec :: "'w task_env \<Rightarrow> Task option \<Rightarrow> 'w tasks \<Rightarrow> 'w task_result" where
  "AnalystToExec env task s =
     (case task of
        None \<Rightarrow> Some (None, s)
      | Some task \<Rightarrow>
          if checkCount env s then Some (Some ErrCallback, s)
          else if \<not> te_StoreReady env then Some (Some ErrCallback, s)
          else exec_task env (tsk_Type task) (tsk_Body task) s)"

text \<open>One turn of \<open>Do\<close> that has taken a message from the queue: a task that cannot be taken now goes back. \<open>enqueued\<close>
  says whether the queue took it. The counters are \<open>float64\<close> in the source and only ever incremented by one; as
  natural numbers they are exact, as the floating-point numbers are below \<open>2 ^ 53\<close>.\<close>

record 'w task_loop =
  tl_tasks :: "'w tasks"
  tl_queue :: "TaskMessage list"
  tl_TaskNum :: nat
  tl_TaskError :: nat

definition Do_turn :: "'w task_env \<Rightarrow> body_decoder \<Rightarrow> bool \<Rightarrow> TaskMessage \<Rightarrow> 'w task_loop \<Rightarrow> 'w task_loop option" where
  "Do_turn env d enqueued data l =
     (case AnalystToExec env (Some (TransTask d data)) (tl_tasks l) of
        None \<Rightarrow> None
      | Some (rc, s) \<Rightarrow>
          (let l = l\<lparr>tl_tasks := s\<rparr> in
           Some (case rc of
                   None \<Rightarrow> l\<lparr>tl_TaskNum := tl_TaskNum l + 1\<rparr>
                 | Some e \<Rightarrow>
                     if e \<noteq> ErrCallback then l\<lparr>tl_TaskError := tl_TaskError l + 1\<rparr>
                     else if enqueued then l\<lparr>tl_queue := tl_queue l @ [data]\<rparr> else l)))"

end
