(* ===== verification/WkCtlFacts.thy ===== *)
theory WkCtlFacts
  imports WkTasks
begin

text \<open>
  What the controllers do to the cluster. The API of Kubernetes is described by a view of the cluster, the
  objects it has by kind, namespace and name (an object that is being deleted counts as gone), and by the
  documented effect of the methods on that view: a request touches only the object it names, a creation needs
  an absent object and an update a present one, and the reasons \<open>NotFound\<close> and \<open>AlreadyExists\<close> say what they mean.
  Requests may fail for other reasons at any time, and a failed request, such as one that timed out, may or may
  not have been carried out.
\<close>

section \<open>The contract of the API\<close>

type_synonym 'w view = "'w \<Rightarrow> client_kind \<Rightarrow> string \<Rightarrow> string \<Rightarrow> kobj option"

definition view_set ::
  "client_kind \<Rightarrow> string \<Rightarrow> string \<Rightarrow> kobj option \<Rightarrow> (client_kind \<Rightarrow> string \<Rightarrow> string \<Rightarrow> kobj option) \<Rightarrow>
   (client_kind \<Rightarrow> string \<Rightarrow> string \<Rightarrow> kobj option)" where
  "view_set k ns n y v = (\<lambda>k' ns' n'. if k' = k \<and> ns' = ns \<and> n' = n then y else v k' ns' n')"

definition get_law :: "client_kind \<Rightarrow> ('a k8s_object_scheme \<Rightarrow> kobj) \<Rightarrow> 'w view \<Rightarrow> ('w, 'a k8s_object_scheme) kind_client \<Rightarrow> bool" where
  "get_law k wrap V kc \<longleftrightarrow>
     (\<forall>ns n w x e w'. kc_Get kc ns n w = ((x, e), w') \<longrightarrow>
        V w' = V w \<and> (e = None \<longrightarrow> V w k ns n = Some (wrap x)) \<and> (e = Some IsNotFound \<longrightarrow> V w k ns n = None))"

definition create_law :: "client_kind \<Rightarrow> ('a k8s_object_scheme \<Rightarrow> kobj) \<Rightarrow> 'w view \<Rightarrow> ('w, 'a k8s_object_scheme) kind_client \<Rightarrow> bool" where
  "create_law k wrap V kc \<longleftrightarrow>
     (\<forall>ns x w y e w'. kc_Create kc ns x w = ((y, e), w') \<longrightarrow>
        (e = None \<longrightarrow> V w k ns (ko_Name x) = None \<and> V w' = view_set k ns (ko_Name x) (Some (wrap y)) (V w)) \<and>
        (e \<noteq> None \<longrightarrow> V w' = V w \<or>
           V w k ns (ko_Name x) = None \<and> (\<exists>z. V w' = view_set k ns (ko_Name x) (Some (wrap z)) (V w))) \<and>
        (e = Some IsAlreadyExists \<longrightarrow> V w k ns (ko_Name x) \<noteq> None))"

definition update_law :: "client_kind \<Rightarrow> ('a k8s_object_scheme \<Rightarrow> kobj) \<Rightarrow> 'w view \<Rightarrow> ('w, 'a k8s_object_scheme) kind_client \<Rightarrow> bool" where
  "update_law k wrap V kc \<longleftrightarrow>
     (\<forall>ns x w y e w'. kc_Update kc ns x w = ((y, e), w') \<longrightarrow>
        (e = None \<longrightarrow> V w k ns (ko_Name x) \<noteq> None \<and> V w' = view_set k ns (ko_Name x) (Some (wrap y)) (V w)) \<and>
        (e \<noteq> None \<longrightarrow> V w' = V w \<or>
           V w k ns (ko_Name x) \<noteq> None \<and> (\<exists>z. V w' = view_set k ns (ko_Name x) (Some (wrap z)) (V w))) \<and>
        (e = Some IsNotFound \<longrightarrow> V w k ns (ko_Name x) = None))"

definition delete_law :: "client_kind \<Rightarrow> 'w view \<Rightarrow> ('w, 'a k8s_object_scheme) kind_client \<Rightarrow> bool" where
  "delete_law k V kc \<longleftrightarrow>
     (\<forall>ns n w e w'. kc_Delete kc ns n w = (e, w') \<longrightarrow>
        (e = None \<longrightarrow> V w' = view_set k ns n None (V w)) \<and>
        (e \<noteq> None \<longrightarrow> V w' = V w \<or> V w' = view_set k ns n None (V w)) \<and>
        (e = Some IsNotFound \<longrightarrow> V w k ns n = None))"

definition api_kind :: "client_kind \<Rightarrow> ('a k8s_object_scheme \<Rightarrow> kobj) \<Rightarrow> 'w view \<Rightarrow> ('w, 'a k8s_object_scheme) kind_client \<Rightarrow> bool" where
  "api_kind k wrap V kc \<longleftrightarrow> get_law k wrap V kc \<and> create_law k wrap V kc \<and> update_law k wrap V kc \<and> delete_law k V kc"

definition kube_api :: "'w view \<Rightarrow> 'w Clientset \<Rightarrow> bool" where
  "kube_api V c \<longleftrightarrow>
     (\<forall>n w e w'. cl_GetNamespace c n w = (e, w') \<longrightarrow> V w' = V w) \<and>
     (\<forall>x w e w'. cl_CreateNamespace c x w = (e, w') \<longrightarrow> V w' = V w) \<and>
     api_kind ConfigMaps KConfigMap V (cl_ConfigMaps c) \<and> api_kind PersistentVolumeClaims KClaim V (cl_Claims c) \<and>
     api_kind StatefulSets KStatefulSet V (cl_StatefulSets c) \<and> api_kind Deployments KDeployment V (cl_Deployments c) \<and>
     api_kind Services KService V (cl_Services c) \<and> api_kind Secrets KSecret V (cl_Secrets c) \<and>
     api_kind Ingresses KIngress V (cl_Ingresses c) \<and> api_kind HorizontalPodAutoscalers KHPA V (cl_HPAs c) \<and>
     api_kind Pods KPod V (cl_Pods c) \<and> api_kind ServiceMonitors KServiceMonitor V (cl_ServiceMonitors c)"

lemma view_set_same [simp]: "view_set k ns n y v k ns n = y"
  by (simp add: view_set_def)

text \<open>The facts the proofs use, the third of each whatever the request answered.\<close>

lemma api_Create:
  assumes "api_kind k wrap V kc" "kc_Create kc ns x w = ((y, e), w')"
  shows "e = None \<Longrightarrow> V w k ns (ko_Name x) = None" "e = None \<Longrightarrow> V w' = view_set k ns (ko_Name x) (Some (wrap y)) (V w)"
    "V w' = V w \<or> V w k ns (ko_Name x) = None \<and> (\<exists>z. V w' = view_set k ns (ko_Name x) (Some (wrap z)) (V w))"
    "e = Some IsAlreadyExists \<Longrightarrow> V w k ns (ko_Name x) \<noteq> None \<and> V w' = V w"
proof -
  have "create_law k wrap V kc" using assms(1) by (simp add: api_kind_def)
  note law = this[unfolded create_law_def, rule_format, OF assms(2)]
  show "e = None \<Longrightarrow> V w k ns (ko_Name x) = None" "e = None \<Longrightarrow> V w' = view_set k ns (ko_Name x) (Some (wrap y)) (V w)"
    using law by simp_all
  show "V w' = V w \<or> V w k ns (ko_Name x) = None \<and> (\<exists>z. V w' = view_set k ns (ko_Name x) (Some (wrap z)) (V w))"
    using law by (cases e) auto
  show "e = Some IsAlreadyExists \<Longrightarrow> V w k ns (ko_Name x) \<noteq> None \<and> V w' = V w" using law by auto
qed

lemma api_Update:
  assumes "api_kind k wrap V kc" "kc_Update kc ns x w = ((y, e), w')"
  shows "e = None \<Longrightarrow> V w k ns (ko_Name x) \<noteq> None" "e = None \<Longrightarrow> V w' = view_set k ns (ko_Name x) (Some (wrap y)) (V w)"
    "V w' = V w \<or> V w k ns (ko_Name x) \<noteq> None \<and> (\<exists>z. V w' = view_set k ns (ko_Name x) (Some (wrap z)) (V w))"
proof -
  have "update_law k wrap V kc" using assms(1) by (simp add: api_kind_def)
  note law = this[unfolded update_law_def, rule_format, OF assms(2)]
  show "e = None \<Longrightarrow> V w k ns (ko_Name x) \<noteq> None" "e = None \<Longrightarrow> V w' = view_set k ns (ko_Name x) (Some (wrap y)) (V w)"
    using law by simp_all
  show "V w' = V w \<or> V w k ns (ko_Name x) \<noteq> None \<and> (\<exists>z. V w' = view_set k ns (ko_Name x) (Some (wrap z)) (V w))"
    using law by (cases e) auto
qed

lemma api_Delete:
  assumes "api_kind k wrap V kc" "kc_Delete kc ns n w = (e, w')"
  shows "e = None \<Longrightarrow> V w' = view_set k ns n None (V w)" "e = Some IsNotFound \<Longrightarrow> V w k ns n = None"
    "V w' = V w \<or> V w' = view_set k ns n None (V w)"
proof -
  have "delete_law k V kc" using assms(1) by (simp add: api_kind_def)
  note law = this[unfolded delete_law_def, rule_format, OF assms(2)]
  show "e = None \<Longrightarrow> V w' = view_set k ns n None (V w)" "e = Some IsNotFound \<Longrightarrow> V w k ns n = None" using law by simp_all
  show "V w' = V w \<or> V w' = view_set k ns n None (V w)" using law by (cases e) auto
qed

text \<open>The objects of a list, by kind, namespace and name.\<close>

definition keys_in :: "client_kind \<Rightarrow> ('a k8s_object_scheme \<Rightarrow> string) \<Rightarrow> 'a k8s_object_scheme list \<Rightarrow> (client_kind \<times> string \<times> string) set" where
  "keys_in k g xs = (\<lambda>x. (k, g x, ko_Name x)) ` set xs"

section \<open>Sequences of steps\<close>

lemma do_steps_append:
  "do_steps (fs @ gs) s =
     (case do_steps fs s of None \<Rightarrow> None | Some (Some e, s) \<Rightarrow> Some (Some e, s) | Some (None, s) \<Rightarrow> do_steps gs s)"
  by (induction fs arbitrary: s) (auto split: option.splits prod.splits)

lemma do_steps_rel:
  assumes "do_steps fs s = Some (e, s')" "\<And>s. R s s" "\<And>s t u. R s t \<Longrightarrow> R t u \<Longrightarrow> R s u"
    "\<And>f s e s'. f \<in> set fs \<Longrightarrow> f s = Some (e, s') \<Longrightarrow> R s s'"
  shows "R s s'"
  using assms(1,4)
proof (induction fs arbitrary: s)
  case Nil
  then show ?case using assms(2) by simp
next
  case (Cons f fs)
  obtain e1 t where t: "f s = Some (e1, t)" using Cons.prems(1) by (auto split: option.splits prod.splits)
  have r: "R s t" using Cons.prems(2)[of f] t by simp
  show ?case
  proof (cases e1)
    case None
    then have "do_steps fs t = Some (e, s')" using Cons.prems(1) t by simp
    then have "R t s'" by (rule Cons.IH) (meson Cons.prems(2) list.set_intros(2))
    then show ?thesis using r assms(3) by blast
  next
    case (Some e2)
    then show ?thesis using Cons.prems(1) t r by simp
  qed
qed

lemma do_steps_post:
  assumes "do_steps fs s = Some (None, s')" "f \<in> set fs" "\<And>s s'. f s = Some (None, s') \<Longrightarrow> P s'"
    "\<And>g s s'. g \<in> set fs \<Longrightarrow> g s = Some (None, s') \<Longrightarrow> P s \<Longrightarrow> P s'"
  shows "P s'"
proof -
  have "P s \<or> f \<in> set fs \<Longrightarrow> P s'" using assms(1,4)
  proof (induction fs arbitrary: s)
    case (Cons g fs)
    then obtain t where t: "g s = Some (None, t)" "do_steps fs t = Some (None, s')"
      by (auto split: option.splits prod.splits)
    have "P t \<or> f \<in> set fs" using Cons.prems(1,3) t(1) assms(3) by auto
    then show ?case using Cons.IH[OF _ t(2)] Cons.prems(3) by auto
  qed simp
  then show ?thesis using assms(2) by simp
qed

section \<open>Creating\<close>

text \<open>Objects of a set are created, services of the set may also change, and nothing else happens; in particular nothing
  goes away.\<close>

definition grown :: "'w view \<Rightarrow> (client_kind \<times> string \<times> string) set \<Rightarrow> 'w \<Rightarrow> 'w \<Rightarrow> bool" where
  "grown V T w w' \<longleftrightarrow>
     (\<forall>k ns n. V w' k ns n = V w k ns n \<or> (k, ns, n) \<in> T \<and> V w' k ns n \<noteq> None \<and> (V w k ns n = None \<or> k = Services))"

lemma grown_refl [simp]: "V w' = V w \<Longrightarrow> grown V T w w'"
  by (simp add: grown_def)

lemma grown_trans: "grown V T w w1 \<Longrightarrow> grown V T w1 w2 \<Longrightarrow> grown V T w w2"
  unfolding grown_def by metis

lemma grown_present: "grown V T w w' \<Longrightarrow> V w k ns n \<noteq> None \<Longrightarrow> V w' k ns n \<noteq> None"
  unfolding grown_def by metis

lemma grown_kept: "grown V T w w' \<Longrightarrow> V w k ns n \<noteq> None \<Longrightarrow> k \<noteq> Services \<Longrightarrow> V w' k ns n = V w k ns n"
  unfolding grown_def by metis

lemma grown_set:
  "V w k ns n = None \<or> k = Services \<Longrightarrow> (k, ns, n) \<in> T \<Longrightarrow> V w' = view_set k ns n (Some y) (V w) \<Longrightarrow> grown V T w w'"
  by (auto simp: grown_def view_set_def)

lemma create_grown:
  assumes "api_kind k wrap V kc" "kc_Create kc ns x w = ((y, e), w')" "(k, ns, ko_Name x) \<in> T"
  shows "grown V T w w'" "e = None \<or> e = Some IsAlreadyExists \<Longrightarrow> V w' k ns (ko_Name x) \<noteq> None"
proof -
  note a = api_Create[OF assms(1,2)]
  show "grown V T w w'" using a(3) assms(3) by (auto intro: grown_set)
  show "V w' k ns (ko_Name x) \<noteq> None" if "e = None \<or> e = Some IsAlreadyExists" using that a(2,4) by auto
qed

lemma create_in_grown:
  assumes "api_kind k wrap V kc" "create_in kc ns x w = (e, w')" "(k, ns, ko_Name x) \<in> T"
  shows "grown V T w w'" "e = None \<or> e = Some IsAlreadyExists \<Longrightarrow> V w' k ns (ko_Name x) \<noteq> None"
proof -
  obtain y where "kc_Create kc ns x w = ((y, e), w')" using assms(2) by (auto simp: create_in_def split: prod.splits)
  from create_grown[OF assms(1) this assms(3)]
  show "grown V T w w'" "e = None \<or> e = Some IsAlreadyExists \<Longrightarrow> V w' k ns (ko_Name x) \<noteq> None" by auto
qed

lemma each_create:
  assumes "api_kind k wrap V kc"
  shows "each_object (\<lambda>x. create_in kc (f x) x) IsAlreadyExists msg xs w = (e, w') \<Longrightarrow> keys_in k f xs \<subseteq> T \<Longrightarrow>
    grown V T w w' \<and> (e = None \<longrightarrow> (\<forall>x \<in> set xs. V w' k (f x) (ko_Name x) \<noteq> None))"
proof (induction xs arbitrary: w)
  case (Cons x xs)
  obtain e1 w1 where c: "create_in kc (f x) x w = (e1, w1)" by fastforce
  have T: "(k, f x, ko_Name x) \<in> T" "keys_in k f xs \<subseteq> T" using Cons.prems(2) by (auto simp: keys_in_def)
  note g = create_in_grown[OF assms c T(1)]
  show ?case
  proof (cases "e1 = None \<or> e1 = Some IsAlreadyExists")
    case True
    then have "each_object (\<lambda>x. create_in kc (f x) x) IsAlreadyExists msg xs w1 = (e, w')"
      using Cons.prems(1) c by (auto split: if_splits)
    note ih = Cons.IH[OF this T(2)]
    have "V w' k (f x) (ko_Name x) \<noteq> None" by (rule grown_present[OF conjunct1[OF ih] g(2)[OF True]])
    then show ?thesis using g(1) ih grown_trans by (metis set_ConsD)
  next
    case False
    then show ?thesis using Cons.prems(1) c g(1) by (auto split: option.splits)
  qed
qed simp

lemma create_workload_grown:
  assumes "api_kind k wrap V kc" "create_workload kc ns msg x w = (e, w')" "\<And>z. x = Some z \<Longrightarrow> (k, ns, ko_Name z) \<in> T"
  shows "grown V T w w'" "e = None \<Longrightarrow> x = Some y \<Longrightarrow> V w' k ns (ko_Name y) \<noteq> None"
proof -
  have "grown V T w w' \<and> (e = None \<longrightarrow> x = Some y \<longrightarrow> V w' k ns (ko_Name y) \<noteq> None)"
  proof (cases x)
    case None
    then show ?thesis using assms(2) by (simp add: create_workload_def)
  next
    case (Some z)
    obtain e1 w1 where c: "create_in kc ns z w = (e1, w1)" by fastforce
    then show ?thesis using create_in_grown[OF assms(1) c assms(3)] assms(2) Some by (auto simp: create_workload_def)
  qed
  then show "grown V T w w'" "e = None \<Longrightarrow> x = Some y \<Longrightarrow> V w' k ns (ko_Name y) \<noteq> None" by auto
qed

lemma update_grown:
  assumes "api_kind Services wrap V kc" "kc_Update kc ns x w = ((y, e), w')" "(Services, ns, ko_Name x) \<in> T"
  shows "grown V T w w'" "e = None \<Longrightarrow> V w' Services ns (ko_Name x) \<noteq> None"
proof -
  note a = api_Update[OF assms(1,2)]
  show "grown V T w w'" using a(3) assms(3) by (auto intro: grown_set)
  show "V w' Services ns (ko_Name x) \<noteq> None" if "e = None" using that a(2) by auto
qed

lemma first_attempt_grown:
  assumes "api_kind Services KService V (cl_Services c)"
  shows "first_attempt c ns ss w = (retry, w') \<Longrightarrow> keys_in Services (\<lambda>_. ns) ss \<subseteq> T \<Longrightarrow>
    grown V T w w' \<and> (\<forall>s \<in> set ss. s \<in> set retry \<or> V w' Services ns (ko_Name s) \<noteq> None)"
proof (induction ss arbitrary: w retry)
  case (Cons s ss)
  obtain y e1 w1 where cr: "kc_Create (cl_Services c) ns s w = ((y, e1), w1)" by (metis surj_pair)
  obtain z e2 w2 where up: "kc_Update (cl_Services c) ns s w1 = ((z, e2), w2)" by (metis surj_pair)
  have T: "(Services, ns, ko_Name s) \<in> T" "keys_in Services (\<lambda>_. ns) ss \<subseteq> T" using Cons.prems(2) by (auto simp: keys_in_def)
  note g1 = create_grown[OF assms cr T(1)] and g2 = update_grown[OF assms up T(1)]
  define first where "first = (case kc_Create (cl_Services c) ns s w of
               ((_, None), w) \<Rightarrow> ([], w)
             | ((_, Some e), w) \<Rightarrow>
                 if e \<noteq> IsAlreadyExists \<and> e \<noteq> IsInvalid then ([s], w)
                 else (case kc_Update (cl_Services c) ns s w of
                         ((_, None), w) \<Rightarrow> ([], w)
                       | ((_, Some _), w) \<Rightarrow> ([s], w)))"
  obtain failed w3 where f: "first = (failed, w3)" by fastforce
  have 1: "grown V T w w3 \<and> (s \<in> set failed \<or> V w3 Services ns (ko_Name s) \<noteq> None)"
  proof (cases "e1 \<noteq> None \<and> e1 \<noteq> Some IsAlreadyExists \<and> e1 \<noteq> Some IsInvalid")
    case True
    then show ?thesis using f g1(1) by (auto simp: first_def cr)
  next
    case False
    show ?thesis
    proof (cases e1)
      case None
      then show ?thesis using f g1 by (simp add: first_def cr)
    next
      case (Some e)
      then have "first = (if e2 = None then [] else [s], w2)" using False by (cases e2) (auto simp: first_def cr up)
      then show ?thesis using f g2 grown_trans[OF g1(1) g2(1)] by (cases e2) auto
    qed
  qed
  obtain retry' where r: "first_attempt c ns ss w3 = (retry', w')" "retry = failed @ retry'"
    using Cons.prems(1) f by (simp add: first_def split: prod.splits)
  note ih = Cons.IH[OF r(1) T(2)]
  have "s \<in> set retry \<or> V w' Services ns (ko_Name s) \<noteq> None"
    using conjunct2[OF 1] grown_present[OF conjunct1[OF ih], of Services ns "ko_Name s"] r(2) by auto
  moreover have "grown V T w w'" by (rule grown_trans[OF conjunct1[OF 1] conjunct1[OF ih]])
  ultimately show ?case using ih r(2) by auto
qed simp

lemma first_attempt_retry: "first_attempt c ns ss w = (retry, w') \<Longrightarrow> set retry \<subseteq> set ss"
proof (induction ss arbitrary: w retry)
  case (Cons s ss)
  then show ?case by (fastforce split: prod.splits option.splits if_splits)
qed simp

lemma second_attempt_grown:
  assumes "api_kind Services KService V (cl_Services c)"
  shows "second_attempt c ns ss w = (e, w') \<Longrightarrow> keys_in Services (\<lambda>_. ns) ss \<subseteq> T \<Longrightarrow>
    grown V T w w' \<and> (e = None \<longrightarrow> (\<forall>s \<in> set ss. V w' Services ns (ko_Name s) \<noteq> None))"
proof (induction ss arbitrary: w)
  case (Cons s ss)
  obtain y e1 w1 where cr: "kc_Create (cl_Services c) ns s w = ((y, e1), w1)" by (metis surj_pair)
  have T: "(Services, ns, ko_Name s) \<in> T" "keys_in Services (\<lambda>_. ns) ss \<subseteq> T" using Cons.prems(2) by (auto simp: keys_in_def)
  note g = create_grown[OF assms cr T(1)]
  show ?case
  proof (cases "e1 = None \<or> e1 = Some IsAlreadyExists")
    case True
    then have "second_attempt c ns ss w1 = (e, w')" using Cons.prems(1) cr by (auto split: if_splits)
    note ih = Cons.IH[OF this T(2)]
    have "V w' Services ns (ko_Name s) \<noteq> None" by (rule grown_present[OF conjunct1[OF ih] g(2)[OF True]])
    then show ?thesis using g(1) ih grown_trans by (metis set_ConsD)
  next
    case False
    then show ?thesis using Cons.prems(1) cr g(1) by (auto split: option.splits)
  qed
qed simp

lemma CreateKubeService_grown:
  assumes "api_kind Services KService V (cl_Services c)" "CreateKubeService c ns ss w = (e, w')" "keys_in Services (\<lambda>_. ns) ss \<subseteq> T"
  shows "grown V T w w'" "e = None \<Longrightarrow> s \<in> set ss \<Longrightarrow> V w' Services ns (ko_Name s) \<noteq> None"
proof -
  obtain retry w1 where 1: "first_attempt c ns ss w = (retry, w1)" "second_attempt c ns retry w1 = (e, w')"
    using assms(2) by (auto simp: CreateKubeService_def split: prod.splits)
  have "keys_in Services (\<lambda>_. ns) retry \<subseteq> T" using assms(3) first_attempt_retry[OF 1(1)] by (auto simp: keys_in_def)
  note a = first_attempt_grown[OF assms(1) 1(1) assms(3)] and b = second_attempt_grown[OF assms(1) 1(2) this]
  show "grown V T w w'" by (rule grown_trans[OF conjunct1[OF a] conjunct1[OF b]])
  show "V w' Services ns (ko_Name s) \<noteq> None" if "e = None" "s \<in> set ss"
    using a b that grown_present[OF conjunct1[OF b], of Services ns "ko_Name s"] by auto
qed

lemma check_namespace_view: "kube_api V c \<Longrightarrow> check_namespace c app w = (e, w') \<Longrightarrow> V w' = V w"
  for app
proof -
  assume a: "kube_api V c" "check_namespace c app w = (e, w')"
  obtain e1 w1 where g: "cl_GetNamespace c (as_TenantID app) w = (e1, w1)" by fastforce
  obtain e2 w2 where n: "cl_CreateNamespace c (as_tenant app) w1 = (e2, w2)" by fastforce
  have "V w1 = V w" "V w2 = V w1" using a(1) g n by (auto simp: kube_api_def)
  then show "V w' = V w" using a(2) g n by (auto simp: check_namespace_def split: option.splits if_splits)
qed

text \<open>The objects a start creates.\<close>

definition start_keys :: "AppService \<Rightarrow> (client_kind \<times> string \<times> string) set" where
  "start_keys app =
     keys_in ConfigMaps (\<lambda>_. as_TenantID app) (as_configMaps app) \<union>
     keys_in PersistentVolumeClaims (\<lambda>_. as_TenantID app) (as_claimsmanual app) \<union>
     keys_in StatefulSets (\<lambda>_. as_TenantID app) (case as_statefulset app of None \<Rightarrow> [] | Some x \<Rightarrow> [x]) \<union>
     keys_in Deployments (\<lambda>_. as_TenantID app) (case as_deployment app of None \<Rightarrow> [] | Some x \<Rightarrow> [x]) \<union>
     keys_in Services (\<lambda>_. as_TenantID app) (as_services app) \<union>
     keys_in Secrets (\<lambda>_. as_TenantID app) (as_secrets app @ as_envVarSecrets app) \<union>
     keys_in Ingresses (\<lambda>_. as_TenantID app) (as_ingresses app) \<union> keys_in HorizontalPodAutoscalers ko_Namespace (as_hpas app) \<union>
     keys_in ServiceMonitors ko_Namespace (as_serviceMonitor app)"

lemma keys_in_unversioned: "keys_in k g xs \<subseteq> T \<Longrightarrow> keys_in k g (unversioned xs) \<subseteq> T"
  by (auto simp: keys_in_def unversioned_def)

lemma create_monitors_grown:
  assumes "kube_api V (ce_client env)" "create_monitors env app w = (e, w')" "keys_in ServiceMonitors ko_Namespace (as_serviceMonitor app) \<subseteq> T"
  shows "grown V T w w'"
proof -
  have m: "api_kind ServiceMonitors KServiceMonitor V (cl_ServiceMonitors (ce_client env))" using assms(1) by (simp add: kube_api_def)
  have "grown V T w (fold (\<lambda>x w. snd (create_in (cl_ServiceMonitors (ce_client env)) (ko_Namespace x) x w)) xs w)"
    if "keys_in ServiceMonitors ko_Namespace xs \<subseteq> T" for xs using that
  proof (induction xs arbitrary: w)
    case (Cons x xs)
    obtain e1 w1 where c: "create_in (cl_ServiceMonitors (ce_client env)) (ko_Namespace x) x w = (e1, w1)" by fastforce
    have T: "(ServiceMonitors, ko_Namespace x, ko_Name x) \<in> T" "keys_in ServiceMonitors ko_Namespace xs \<subseteq> T"
      using Cons.prems by (auto simp: keys_in_def)
    from create_in_grown(1)[OF m c T(1)] show ?case using Cons.IH[OF T(2), of w1] c grown_trans by fastforce
  qed simp
  then show ?thesis using assms(2) keys_in_unversioned[OF assms(3)] by (auto simp: create_monitors_def split: if_splits)
qed

text \<open>All steps of a start create.\<close>

lemma on_cluster_Some: "on_cluster f rt = Some (e, rt') \<longleftrightarrow> (\<exists>w. f (rt_cluster rt) = (e, w) \<and> rt' = rt\<lparr>rt_cluster := w\<rparr>)"
  by (auto simp: on_cluster_def split: prod.splits)

definition creates :: "'w view \<Rightarrow> (client_kind \<times> string \<times> string) set \<Rightarrow> ('w \<Rightarrow> 'e option \<times> 'w) \<Rightarrow> bool" where
  "creates V T f \<longleftrightarrow> (\<forall>w e w'. f w = (e, w') \<longrightarrow> grown V T w w')"

lemma createsI: "(\<And>w e w'. f w = (e, w') \<Longrightarrow> grown V T w w') \<Longrightarrow> creates V T f"
  by (simp add: creates_def)

lemma each_creates:
  "api_kind k wrap V kc \<Longrightarrow> keys_in k g xs \<subseteq> T \<Longrightarrow> creates V T (each_object (\<lambda>x. create_in kc (g x) x) IsAlreadyExists msg xs)"
  by (rule createsI) (simp add: each_create)

lemmas each_creates_in = each_creates[where g = "\<lambda>_. ns" for ns]

lemma workload_creates:
  "api_kind k wrap V kc \<Longrightarrow> keys_in k (\<lambda>_. ns) (case x of None \<Rightarrow> [] | Some y \<Rightarrow> [y]) \<subseteq> T \<Longrightarrow> creates V T (create_workload kc ns msg x)"
  by (rule createsI, rule create_workload_grown) (auto simp: keys_in_def)

lemma services_creates:
  "api_kind Services KService V (cl_Services c) \<Longrightarrow> keys_in Services (\<lambda>_. ns) xs \<subseteq> T \<Longrightarrow>
   creates V T (\<lambda>w. case CreateKubeService c ns xs w of (e, w) \<Rightarrow> (map_option (Failed msg) e, w))"
  by (rule createsI) (auto split: prod.splits dest: CreateKubeService_grown(1))

lemma start_creates:
  assumes "kube_api V (ce_client env)"
  shows "\<forall>f \<in> set (start_objects env app). creates V (start_keys app) f"
proof -
  let ?T = "start_keys app"
  have "creates V ?T (check_namespace (ce_client env) app)"
    by (rule createsI, rule grown_refl, rule check_namespace_view[OF assms])
  moreover have "creates V ?T (create_monitors env app)"
    by (rule createsI, rule create_monitors_grown[OF assms]) (auto simp: start_keys_def)
  moreover have T: "keys_in ConfigMaps (\<lambda>_. as_TenantID app) (as_configMaps app) \<subseteq> ?T" "keys_in PersistentVolumeClaims (\<lambda>_. as_TenantID app) (as_claimsmanual app) \<subseteq> ?T"
    "keys_in StatefulSets (\<lambda>_. as_TenantID app) (case as_statefulset app of None \<Rightarrow> [] | Some x \<Rightarrow> [x]) \<subseteq> ?T"
    "keys_in Deployments (\<lambda>_. as_TenantID app) (case as_deployment app of None \<Rightarrow> [] | Some x \<Rightarrow> [x]) \<subseteq> ?T"
    "keys_in Services (\<lambda>_. as_TenantID app) (as_services app) \<subseteq> ?T" "keys_in Secrets (\<lambda>_. as_TenantID app) (as_secrets app @ as_envVarSecrets app) \<subseteq> ?T"
    "keys_in Ingresses (\<lambda>_. as_TenantID app) (as_ingresses app) \<subseteq> ?T" "keys_in HorizontalPodAutoscalers ko_Namespace (as_hpas app) \<subseteq> ?T"
    by (auto simp: start_keys_def)
  ultimately show ?thesis using assms unfolding kube_api_def start_objects_def Let_def
    by (auto intro!: each_creates_in each_creates workload_creates services_creates keys_in_unversioned)
qed

lemma start_steps_grown:
  assumes "kube_api V (ce_client env)" "do_steps (map on_cluster (start_objects env app)) rt = Some (e, rt')"
  shows "grown V (start_keys app) (rt_cluster rt) (rt_cluster rt')"
  using start_creates[OF assms(1), of app]
  by (intro do_steps_rel[OF assms(2), where R = "\<lambda>rt rt'. grown V (start_keys app) (rt_cluster rt) (rt_cluster rt')"])
     (auto simp: on_cluster_Some creates_def intro: grown_trans)

lemma start_present:
  assumes "kube_api V (ce_client env)" "do_steps (map on_cluster (start_objects env app)) rt = Some (None, rt')"
    "g \<in> set (start_objects env app)" "\<And>w w'. g w = (None, w') \<Longrightarrow> V w' k ns n \<noteq> None"
  shows "V (rt_cluster rt') k ns n \<noteq> None"
proof (rule do_steps_post[OF assms(2), where f = "on_cluster g" and P = "\<lambda>rt. V (rt_cluster rt) k ns n \<noteq> None"])
  show "on_cluster g \<in> set (map on_cluster (start_objects env app))" using assms(3) by simp
  show "V (rt_cluster rt') k ns n \<noteq> None" if "on_cluster g rt = Some (None, rt')" for rt rt' :: "'a runtime"
    using that assms(4) by (auto simp: on_cluster_Some)
  show "V (rt_cluster rt') k ns n \<noteq> None"
    if f: "f \<in> set (map on_cluster (start_objects env app))" "f rt = Some (None, rt')" "V (rt_cluster rt) k ns n \<noteq> None" for f rt rt'
  proof -
    obtain h where h: "f = on_cluster h" "h \<in> set (start_objects env app)" using f(1) by auto
    obtain w where w: "h (rt_cluster rt) = (None, w)" "rt' = rt\<lparr>rt_cluster := w\<rparr>" using f(2) by (auto simp: h(1) on_cluster_Some)
    have "grown V (start_keys app) (rt_cluster rt) w" using start_creates[OF assms(1)] h(2) w(1) by (auto simp: creates_def)
    from grown_present[OF this f(3)] show ?thesis by (simp add: w(2))
  qed
qed

lemma start_present_each:
  assumes "kube_api V (ce_client env)" "do_steps (map on_cluster (start_objects env app)) rt = Some (None, rt')"
    "api_kind k wrap V kc" "each_object (\<lambda>x. create_in kc (g x) x) IsAlreadyExists msg xs \<in> set (start_objects env app)" "x \<in> set xs"
  shows "V (rt_cluster rt') k (g x) (ko_Name x) \<noteq> None"
  by (rule start_present[OF assms(1,2,4)]) (use each_create[OF assms(3), where T = UNIV] assms(5) in blast)

section \<open>Deleting\<close>

text \<open>Nothing changes but that some of the objects of a set go away.\<close>

definition gone_only :: "'w view \<Rightarrow> (client_kind \<times> string \<times> string) set \<Rightarrow> 'w \<Rightarrow> 'w \<Rightarrow> bool" where
  "gone_only V S w w' \<longleftrightarrow> (\<forall>k ns n. V w' k ns n = V w k ns n \<or> (k, ns, n) \<in> S \<and> V w' k ns n = None)"

lemma gone_only_refl [simp]: "V w' = V w \<Longrightarrow> gone_only V S w w'"
  by (simp add: gone_only_def)

lemma gone_only_trans: "gone_only V S w w1 \<Longrightarrow> gone_only V S w1 w2 \<Longrightarrow> gone_only V S w w2"
  unfolding gone_only_def by metis

lemma gone_only_mono: "gone_only V S w w' \<Longrightarrow> S \<subseteq> T \<Longrightarrow> gone_only V T w w'"
  unfolding gone_only_def by blast

lemma gone_only_absent: "gone_only V S w w' \<Longrightarrow> V w k ns n = None \<Longrightarrow> V w' k ns n = None"
  unfolding gone_only_def by metis

lemma gone_only_other: "gone_only V S w w' \<Longrightarrow> (k, ns, n) \<notin> S \<Longrightarrow> V w' k ns n = V w k ns n"
  unfolding gone_only_def by blast

lemma delete_gone:
  assumes "api_kind k wrap V kc" "kc_Delete kc ns n w = (e, w')" "(k, ns, n) \<in> S"
  shows "gone_only V S w w'" "e = None \<or> e = Some IsNotFound \<Longrightarrow> V w' k ns n = None"
proof -
  note d = api_Delete[OF assms(1,2)]
  show "gone_only V S w w'" using d(3) assms(3) by (auto simp: gone_only_def view_set_def split: if_splits)
  show "V w' k ns n = None" if "e = None \<or> e = Some IsNotFound"
    using that
  proof
    assume "e = None"
    then show ?thesis using d(1) by simp
  next
    assume "e = Some IsNotFound"
    then show ?thesis using d(2,3) by auto
  qed
qed

lemma each_delete:
  assumes "api_kind k wrap V kc"
  shows "each_object (\<lambda>x. delete_in kc (g x) x) IsNotFound msg xs w = (e, w') \<Longrightarrow> (\<lambda>x. (k, g x, ko_Name x)) ` set xs \<subseteq> S \<Longrightarrow>
    gone_only V S w w' \<and> (e = None \<longrightarrow> (\<forall>x \<in> set xs. V w' k (g x) (ko_Name x) = None))"
proof (induction xs arbitrary: w)
  case (Cons x xs)
  obtain e1 w1 where c: "delete_in kc (g x) x w = (e1, w1)" by fastforce
  have "(k, g x, ko_Name x) \<in> S" using Cons.prems(2) by auto
  note d = delete_gone[OF assms c[unfolded delete_in_def] this]
  show ?case
  proof (cases "e1 = None \<or> e1 = Some IsNotFound")
    case True
    then have "each_object (\<lambda>x. delete_in kc (g x) x) IsNotFound msg xs w1 = (e, w')"
      using Cons.prems(1) c by (auto split: if_splits)
    then have ih: "gone_only V S w1 w' \<and> (e = None \<longrightarrow> (\<forall>x \<in> set xs. V w' k (g x) (ko_Name x) = None))"
      by (rule Cons.IH) (use Cons.prems(2) in simp)
    have "gone_only V S w w'" by (rule gone_only_trans[OF d(1) conjunct1[OF ih]])
    moreover have "V w' k (g x) (ko_Name x) = None" by (rule gone_only_absent[OF conjunct1[OF ih] d(2)[OF True]])
    ultimately show ?thesis using ih by simp
  next
    case False
    then show ?thesis using Cons.prems(1) c d(1) by (auto split: option.splits)
  qed
qed simp

lemma delete_objects_gone:
  assumes "api_kind k wrap V kc"
  shows "(\<lambda>x. (k, ko_Namespace x, ko_Name x)) ` set xs \<subseteq> S \<Longrightarrow> gone_only V S w (delete_objects kc xs w)"
proof (induction xs arbitrary: w)
  case (Cons x xs)
  obtain e1 w1 where c: "kc_Delete kc (ko_Namespace x) (ko_Name x) w = (e1, w1)" by fastforce
  have "(k, ko_Namespace x, ko_Name x) \<in> S" using Cons.prems by auto
  note d = delete_gone(1)[OF assms c this]
  have "gone_only V S w1 (delete_objects kc xs w1)" using Cons by simp
  from gone_only_trans[OF d this] show ?case by (simp add: delete_objects_def c)
qed (simp add: delete_objects_def)

text \<open>The objects a stop deletes.\<close>

definition stop_keys :: "AppService \<Rightarrow> (client_kind \<times> string \<times> string) set" where
  "stop_keys app =
     keys_in Services (\<lambda>_. as_TenantID app) (as_services app) \<union> keys_in Secrets (\<lambda>_. as_TenantID app) (as_secrets app) \<union>
     keys_in Ingresses (\<lambda>_. as_TenantID app) (as_ingresses app) \<union> keys_in ConfigMaps (\<lambda>_. as_TenantID app) (as_configMaps app) \<union>
     keys_in StatefulSets (\<lambda>_. as_TenantID app) (case as_statefulset app of None \<Rightarrow> [] | Some x \<Rightarrow> [x]) \<union>
     keys_in Deployments (\<lambda>_. as_TenantID app) (case as_deployment app of None \<Rightarrow> [] | Some x \<Rightarrow> [x]) \<union>
     keys_in Pods (\<lambda>_. as_TenantID app) (as_pods app) \<union> keys_in HorizontalPodAutoscalers ko_Namespace (as_hpas app) \<union>
     keys_in ServiceMonitors ko_Namespace (as_serviceMonitor app)"

definition deletes :: "'w view \<Rightarrow> (client_kind \<times> string \<times> string) set \<Rightarrow> ('w runtime \<Rightarrow> ('e option \<times> 'w runtime) option) \<Rightarrow> bool" where
  "deletes V S f \<longleftrightarrow> (\<forall>rt e rt'. f rt = Some (e, rt') \<longrightarrow> gone_only V S (rt_cluster rt) (rt_cluster rt'))"

lemma each_deletes:
  assumes "api_kind k wrap V kc" "keys_in k g xs \<subseteq> S"
  shows "deletes V S (on_cluster (each_object (\<lambda>x. delete_in kc (g x) x) IsNotFound msg xs))"
  using each_delete[OF assms(1)] assms(2) by (auto simp: deletes_def on_cluster_Some keys_in_def)

lemma delete_workload_gone:
  assumes "api_kind k wrap V kc" "delete_workload env kc ns msg obj x rt = Some (e, rt')" "(k, ns, ko_Name x) \<in> S"
  shows "gone_only V S (rt_cluster rt) (rt_cluster rt')" "e = None \<Longrightarrow> V (rt_cluster rt') k ns (ko_Name x) = None"
proof -
  obtain e1 w1 where d: "kc_Delete kc ns (ko_Name x) (rt_cluster rt) = (e1, w1)" by fastforce
  note g = delete_gone[OF assms(1) d assms(3)]
  have "rt_cluster rt' = w1" "e = None \<Longrightarrow> e1 = None \<or> e1 = Some IsNotFound"
    using assms(2) d by (auto simp: delete_workload_def split: if_splits option.splits)
  then show "gone_only V S (rt_cluster rt) (rt_cluster rt')" "e = None \<Longrightarrow> V (rt_cluster rt') k ns (ko_Name x) = None"
    using g by auto
qed

lemma delete_monitors_gone:
  "kube_api V (ce_client env) \<Longrightarrow> deletes V (stop_keys app) (on_cluster (delete_monitors env app))"
  using delete_objects_gone[of ServiceMonitors KServiceMonitor V "cl_ServiceMonitors (ce_client env)" "as_serviceMonitor app" "stop_keys app"]
  by (auto simp: deletes_def on_cluster_Some delete_monitors_def kube_api_def stop_keys_def keys_in_def)

lemma keys_in_with_name: "keys_in k g (with_name xs) \<subseteq> keys_in k g xs"
  by (auto simp: keys_in_def with_name_def)

lemma stop_deletes:
  assumes "kube_api V (ce_client env)"
  shows "\<forall>f \<in> set (stop_objects env app). deletes V (stop_keys app) f"
proof -
  let ?c = "ce_client env" and ?S = "stop_keys app" and ?ns = "as_TenantID app"
  note k = assms[unfolded kube_api_def]
  note each = each_deletes[where g = "\<lambda>_. ?ns" and S = ?S]
  have "deletes V ?S (\<lambda>rt. case as_statefulset app of None \<Rightarrow> Some (None, rt)
          | Some x \<Rightarrow> delete_workload env (cl_StatefulSets ?c) ?ns msg KStatefulSet x rt)" for msg
    using k delete_workload_gone(1)[of StatefulSets KStatefulSet V "cl_StatefulSets ?c" env ?ns msg KStatefulSet]
    by (cases "as_statefulset app") (auto simp: deletes_def stop_keys_def keys_in_def)
  moreover have "deletes V ?S (\<lambda>rt. case as_deployment app of None \<Rightarrow> Some (None, rt)
          | Some x \<Rightarrow> if ko_Name x = [] then Some (None, rt) else delete_workload env (cl_Deployments ?c) ?ns msg KDeployment x rt)" for msg
    using k delete_workload_gone(1)[of Deployments KDeployment V "cl_Deployments ?c" env ?ns msg KDeployment]
    by (cases "as_deployment app") (auto simp: deletes_def stop_keys_def keys_in_def split: if_splits)
  moreover have "deletes V ?S (on_cluster (each_object (\<lambda>x. delete_in (cl_HPAs ?c) (ko_Namespace x) x) IsNotFound msg (as_hpas app)))" for msg
    by (rule each_deletes[of HorizontalPodAutoscalers KHPA]) (use k in \<open>auto simp: stop_keys_def\<close>)
  moreover have "deletes V ?S (on_cluster (each_object (delete_in (cl_Services ?c) ?ns) IsNotFound msg (with_name (as_services app))))" for msg
    by (rule each[of Services KService]) (use k keys_in_with_name[of Services] in \<open>auto simp: stop_keys_def\<close>)
  moreover have "deletes V ?S (on_cluster (each_object (delete_in (cl_Secrets ?c) ?ns) IsNotFound msg (with_name (as_secrets app))))" for msg
    by (rule each[of Secrets KSecret]) (use k keys_in_with_name[of Secrets] in \<open>auto simp: stop_keys_def\<close>)
  moreover have "deletes V ?S (on_cluster (each_object (delete_in (cl_Ingresses ?c) ?ns) IsNotFound msg (with_name (as_ingresses app))))" for msg
    by (rule each[of Ingresses KIngress]) (use k keys_in_with_name[of Ingresses] in \<open>auto simp: stop_keys_def\<close>)
  moreover have "deletes V ?S (on_cluster (each_object (delete_in (cl_ConfigMaps ?c) ?ns) IsNotFound msg (with_name (as_configMaps app))))" for msg
    by (rule each[of ConfigMaps KConfigMap]) (use k keys_in_with_name[of ConfigMaps] in \<open>auto simp: stop_keys_def\<close>)
  moreover have "deletes V ?S (on_cluster (each_object (delete_in (cl_Pods ?c) ?ns) IsNotFound msg (with_name (as_pods app))))" for msg
    by (rule each[of Pods KPod]) (use k keys_in_with_name[of Pods] in \<open>auto simp: stop_keys_def\<close>)
  ultimately show ?thesis using delete_monitors_gone[OF assms] unfolding stop_objects_def Let_def by simp
qed

lemma stop_steps_gone:
  assumes "kube_api V (ce_client env)" "do_steps (stop_objects env app) rt = Some (e, rt')"
  shows "gone_only V (stop_keys app) (rt_cluster rt) (rt_cluster rt')"
  by (rule do_steps_rel[OF assms(2), where R = "\<lambda>rt rt'. gone_only V (stop_keys app) (rt_cluster rt) (rt_cluster rt')"])
     (use stop_deletes[OF assms(1), of app] in \<open>auto simp: deletes_def intro: gone_only_trans\<close>)

lemma stop_absent:
  assumes "kube_api V (ce_client env)" "do_steps (stop_objects env app) rt = Some (None, rt')"
    "g \<in> set (stop_objects env app)" "\<And>rt rt'. g rt = Some (None, rt') \<Longrightarrow> V (rt_cluster rt') k ns n = None"
  shows "V (rt_cluster rt') k ns n = None"
proof (rule do_steps_post[where P = "\<lambda>rt. V (rt_cluster rt) k ns n = None", OF assms(2,3)])
  show "V (rt_cluster rt') k ns n = None" if "g rt = Some (None, rt')" for rt rt' using assms(4)[OF that] .
  show "V (rt_cluster rt') k ns n = None"
    if "f \<in> set (stop_objects env app)" "f rt = Some (None, rt')" "V (rt_cluster rt) k ns n = None" for f rt rt'
  proof (rule gone_only_absent[where V = V, OF _ that(3)])
    show "gone_only V (stop_keys app) (rt_cluster rt) (rt_cluster rt')"
      using stop_deletes[OF assms(1), of app] that(1,2) by (auto simp: deletes_def)
  qed
qed

lemma stop_absent_each:
  assumes "kube_api V (ce_client env)" "do_steps (stop_objects env app) rt = Some (None, rt')"
    "api_kind k wrap V kc" "on_cluster (each_object (\<lambda>x. delete_in kc (g x) x) IsNotFound msg xs) \<in> set (stop_objects env app)" "x \<in> set xs"
  shows "V (rt_cluster rt') k (g x) (ko_Name x) = None"
  by (rule stop_absent[OF assms(1,2,4)]) (use each_delete[OF assms(3), where S = UNIV] assms(5) in \<open>auto simp: on_cluster_Some\<close>)

end
