(* ===== verification/WkUpgradeFacts.thy ===== *)
theory WkUpgradeFacts
  imports WkCtlFacts
begin

text \<open>
  What an upgrade of a collection does to the cluster. \<open>UpgradeIngress\<close>, \<open>UpgradeSecrets\<close> and
  \<open>UpgradeServiceMonitor\<close> share one contract, the locale \<open>upgrade_function\<close>, in which the outcome is proved for each
  object, whatever the requests answer.
\<close>

lemma carry_over_simps [simp]:
  "ko_Name (carry_over o1 n) = ko_Name n" "ko_Namespace (carry_over o1 n) = ko_Namespace n"
  "ko_ResourceVersion (carry_over o1 n) = ko_ResourceVersion o1" "ko_UID (carry_over o1 n) = ko_UID o1"
  by (simp_all add: carry_over_def)

section \<open>The map of old objects\<close>

definition named_map :: "(string, 'a k8s_object_scheme) gomap \<Rightarrow> bool" where
  "named_map m \<longleftrightarrow> wf_map m \<and> (\<forall>n x. map_of m n = Some x \<longrightarrow> ko_Name x = n)"

lemma named_map_set: "named_map m \<Longrightarrow> named_map (map_set (ko_Name x) x m)"
  unfolding named_map_def by simp

lemma fold_name_map:
  "named_map m \<Longrightarrow> named_map (fold (\<lambda>x m. map_set (ko_Name x) x m) xs m)"
  by (induction xs arbitrary: m) (simp_all add: named_map_set)

lemma name_map_named: "named_map (name_map xs)"
  unfolding name_map_def by (rule fold_name_map) (simp add: named_map_def)

lemma map_of_name_map:
  assumes "distinct (names xs)"
  shows "map_of (name_map xs) n = find_named n xs"
proof -
  have "map_of (fold (\<lambda>x m. map_set (ko_Name x) x m) xs m) n = (case find_named n xs of Some x \<Rightarrow> Some x | None \<Rightarrow> map_of m n)"
    if "distinct (names xs)" for m using that
  proof (induction xs arbitrary: m)
    case (Cons x xs)
    then have "find_named (ko_Name x) xs = None" by (simp add: find_named_None)
    then show ?case using Cons by (cases "find_named n xs") auto
  qed simp
  then show ?thesis using assms by (simp add: name_map_def split: option.splits)
qed

lemma find_named_in: "distinct (names xs) \<Longrightarrow> x \<in> set xs \<Longrightarrow> find_named (ko_Name x) xs = Some x"
  by (induction xs) auto

lemma find_named_Some: "find_named n xs = Some x \<Longrightarrow> x \<in> set xs \<and> ko_Name x = n"
  by (induction xs) (auto split: if_splits)

lemma named_map_delete: "named_map m \<Longrightarrow> named_map (AList.delete n m)"
  by (auto simp: named_map_def wf_map_def delete_conv' distinct_delete split: if_splits)

section \<open>The first loop\<close>

text \<open>What happens to one new object, between the state before its request and after it.\<close>

definition turn ::
  "client_kind \<Rightarrow> 'w view \<Rightarrow> ('w, 'a k8s_object_scheme) kind_client \<Rightarrow> (string, 'a k8s_object_scheme) gomap \<Rightarrow>
   (string, 'a k8s_object_scheme) gomap \<Rightarrow> 'a k8s_object_scheme \<Rightarrow> 'w \<Rightarrow> 'w \<Rightarrow> bool" where
  "turn k V kc m m' n w w' \<longleftrightarrow>
     (\<exists>w1. V w1 k (ko_Namespace n) (ko_Name n) = V w k (ko_Namespace n) (ko_Name n) \<and>
        (case map_of m (ko_Name n) of
           Some o1 \<Rightarrow>
             (case kc_Update kc (ko_Namespace n) (carry_over o1 n) w1 of
                ((x, e), w2) \<Rightarrow> map_of m' (ko_Name n) = (if e = None then None else Some o1) \<and>
                   V w' k (ko_Namespace n) (ko_Name n) = V w2 k (ko_Namespace n) (ko_Name n))
         | None \<Rightarrow>
             (case kc_Create kc (ko_Namespace n) n w1 of
                ((x, e), w2) \<Rightarrow> map_of m' (ko_Name n) = None \<and>
                   V w' k (ko_Namespace n) (ko_Name n) = V w2 k (ko_Namespace n) (ko_Name n))))"

lemma create_elsewhere:
  assumes "api_kind k wrap V kc" "kc_Create kc ns x w = ((y, e), w')" "(k', ns', n') \<noteq> (k, ns, ko_Name x)"
  shows "V w' k' ns' n' = V w k' ns' n'"
  using api_Create(3)[OF assms(1,2)] assms(3) by (auto simp: view_set_def)

lemma update_elsewhere:
  assumes "api_kind k wrap V kc" "kc_Update kc ns x w = ((y, e), w')" "(k', ns', n') \<noteq> (k, ns, ko_Name x)"
  shows "V w' k' ns' n' = V w k' ns' n'"
  using api_Update(3)[OF assms(1,2)] assms(3) by (auto simp: view_set_def)

lemma upgrade_new_ok:
  assumes api: "api_kind k wrap V kc"
  shows "upgrade_new kc upd crt (\<lambda>_. None) new m a w = (e, m', a', w') \<Longrightarrow> distinct (names new) \<Longrightarrow> named_map m \<Longrightarrow>
    e = None \<and> named_map m' \<and> (\<forall>i. i \<notin> set (names new) \<longrightarrow> map_of m' i = map_of m i) \<and>
    (\<forall>k' ns i. (k', ns, i) \<notin> keys_in k ko_Namespace new \<longrightarrow> V w' k' ns i = V w k' ns i) \<and>
    (\<forall>n \<in> set new. turn k V kc m m' n w w')"
proof (induction new arbitrary: m a w)
  case Nil
  then show ?case by simp
next
  case (Cons n new)
  let ?here = "\<lambda>w1. \<forall>k' ns i. (k', ns, i) \<noteq> (k, ko_Namespace n, ko_Name n) \<longrightarrow> V w1 k' ns i = V w k' ns i"
  let ?mine = "\<lambda>m1 w1. case map_of m (ko_Name n) of
      Some o1 \<Rightarrow> (case kc_Update kc (ko_Namespace n) (carry_over o1 n) w of ((x, e), w2) \<Rightarrow>
         map_of m1 (ko_Name n) = (if e = None then None else Some o1) \<and> w1 = w2)
    | None \<Rightarrow> (case kc_Create kc (ko_Namespace n) n w of ((x, e), w2) \<Rightarrow> map_of m1 (ko_Name n) = None \<and> w1 = w2)"
  have "\<exists>m1 a1 w1. upgrade_new kc upd crt (\<lambda>_. None) new m1 a1 w1 = (e, m', a', w') \<and> named_map m1 \<and>
      (\<forall>i. i \<noteq> ko_Name n \<longrightarrow> map_of m1 i = map_of m i) \<and> ?here w1 \<and> ?mine m1 w1"
  proof (cases "map_of m (ko_Name n)")
    case None
    obtain y e1 w2 where c: "kc_Create kc (ko_Namespace n) n w = ((y, e1), w2)" by (metis surj_pair)
    have "?here w2" using create_elsewhere[OF api c] by blast
    then show ?thesis using None c Cons.prems(1,3)
      by (intro exI[of _ m] exI[of _ "if e1 = None then crt y a else a"] exI[of _ w2]) (simp split: option.splits)
  next
    case (Some o1)
    then have nm: "ko_Name o1 = ko_Name n" using Cons.prems(3) by (simp add: named_map_def)
    obtain y e1 w2 where c: "kc_Update kc (ko_Namespace n) (carry_over o1 n) w = ((y, e1), w2)" by (metis surj_pair)
    have "?here w2" using update_elsewhere[OF api c] by simp
    then show ?thesis using Some c nm Cons.prems(1,3)
      by (intro exI[of _ "if e1 = None then AList.delete (ko_Name n) m else m"]
            exI[of _ "if e1 = None then upd (carry_over o1 n) y a else a"] exI[of _ w2])
         (simp add: named_map_delete delete_conv' split: option.splits)
  qed
  then obtain m1 a1 w1 where step: "upgrade_new kc upd crt (\<lambda>_. None) new m1 a1 w1 = (e, m', a', w')"
    and m1: "named_map m1" "\<And>i. i \<noteq> ko_Name n \<Longrightarrow> map_of m1 i = map_of m i"
    and here: "\<And>k' ns i. (k', ns, i) \<noteq> (k, ko_Namespace n, ko_Name n) \<Longrightarrow> V w1 k' ns i = V w k' ns i" and r: "?mine m1 w1"
    by blast
  have d: "ko_Name n \<notin> set (names new)" "distinct (names new)" using Cons.prems(2) by auto
  note ih = Cons.IH[OF step d(2) m1(1)]
  have "(k, ko_Namespace n, ko_Name n) \<notin> keys_in k ko_Namespace new" using d(1) by (auto simp: keys_in_def)
  then have later: "V w' k (ko_Namespace n) (ko_Name n) = V w1 k (ko_Namespace n) (ko_Name n)" using ih by blast
  have "map_of m' (ko_Name n) = map_of m1 (ko_Name n)" using ih d(1) by blast
  then have mine: "turn k V kc m m' n w w'" unfolding turn_def using r later
    by (intro exI[of _ w]) (simp split: option.splits prod.splits)
  have others: "turn k V kc m m' x w w'" if "x \<in> set new" for x
  proof -
    have x: "ko_Name x \<noteq> ko_Name n" using d(1) that by (metis list.set_map image_eqI)
    have "turn k V kc m1 m' x w1 w'" using ih that by blast
    then show ?thesis unfolding turn_def using m1(2)[OF x] here[of k "ko_Namespace x" "ko_Name x"] x by simp
  qed
  show ?case
  proof (intro conjI allI impI ballI)
    show "e = None" "named_map m'" using ih by auto
    show "map_of m' i = map_of m i" if "i \<notin> set (names (n # new))" for i using ih m1(2) that by simp
    show "V w' k' ns i = V w k' ns i" if "(k', ns, i) \<notin> keys_in k ko_Namespace (n # new)" for k' ns i
      using ih here that by (simp add: keys_in_def)
    show "turn k V kc m m' x w w'" if "x \<in> set (n # new)" for x using that mine others by auto
  qed
qed

section \<open>The second loop\<close>

text \<open>A deletion has been asked for, and if it was answered with success, or with \<open>NotFound\<close>, the object is gone.\<close>

definition delete_asked :: "client_kind \<Rightarrow> 'w view \<Rightarrow> ('w, 'a k8s_object_scheme) kind_client \<Rightarrow> string \<Rightarrow> string \<Rightarrow> 'w \<Rightarrow> bool" where
  "delete_asked k V kc ns n w' \<longleftrightarrow>
     (\<exists>w0 e w1. kc_Delete kc ns n w0 = (e, w1) \<and> (e = None \<or> e = Some IsNotFound \<longrightarrow> V w' k ns n = None))"

lemma upgrade_old_gone:
  assumes "api_kind k wrap V kc"
  shows "upgrade_old kc (\<lambda>_. None) xs w = (e, w') \<Longrightarrow> keys_in k ko_Namespace xs \<subseteq> S \<Longrightarrow>
    gone_only V S w w' \<and> (\<forall>x \<in> set xs. delete_asked k V kc (ko_Namespace x) (ko_Name x) w') \<and> e = None"
proof (induction xs arbitrary: w)
  case (Cons x xs)
  obtain e1 w1 where c: "kc_Delete kc (ko_Namespace x) (ko_Name x) w = (e1, w1)" by fastforce
  have "(k, ko_Namespace x, ko_Name x) \<in> S" using Cons.prems(2) by (auto simp: keys_in_def)
  note g = delete_gone[OF assms(1) c this]
  have "upgrade_old kc (\<lambda>_. None) xs w1 = (e, w')" using Cons.prems(1) c by (simp split: option.splits)
  then have ih: "gone_only V S w1 w' \<and> (\<forall>x \<in> set xs. delete_asked k V kc (ko_Namespace x) (ko_Name x) w') \<and> e = None"
    by (rule Cons.IH) (use Cons.prems(2) in \<open>auto simp: keys_in_def\<close>)
  have "gone_only V S w w'" by (rule gone_only_trans[OF g(1) conjunct1[OF ih]])
  moreover have "delete_asked k V kc (ko_Namespace x) (ko_Name x) w'"
    unfolding delete_asked_def using c g(2) gone_only_absent[OF conjunct1[OF ih]] by blast
  ultimately show ?case using ih by simp
qed simp

section \<open>The whole upgrade\<close>

text \<open>The outcome for each object. A new object that the cache has is updated with the version of the cached one, and
  if the update fails the object is deleted; a new object that the cache does not have is created; a cached object
  that is not among the new ones is deleted. When a request succeeds, the cluster ends with the object that the API
  answered.\<close>

definition upgrade_outcome ::
  "client_kind \<Rightarrow> ('a k8s_object_scheme \<Rightarrow> kobj) \<Rightarrow> 'w view \<Rightarrow> ('w, 'a k8s_object_scheme) kind_client \<Rightarrow> string \<Rightarrow>
   'a k8s_object_scheme list \<Rightarrow> 'a k8s_object_scheme list \<Rightarrow> 'w \<Rightarrow> 'w \<Rightarrow> bool" where
  "upgrade_outcome k wrap V kc ns old new w w' \<longleftrightarrow>
     (\<forall>n \<in> set new. \<exists>w0 y e w1. V w0 k ns (ko_Name n) = V w k ns (ko_Name n) \<and>
        (case find_named (ko_Name n) old of
           Some o1 \<Rightarrow> kc_Update kc ns (carry_over o1 n) w0 = ((y, e), w1) \<and>
             (if e = None then V w' k ns (ko_Name n) = Some (wrap y) else delete_asked k V kc ns (ko_Name n) w')
         | None \<Rightarrow> kc_Create kc ns n w0 = ((y, e), w1) \<and>
             V w' k ns (ko_Name n) = (if e = None then Some (wrap y) else V w1 k ns (ko_Name n)))) \<and>
     (\<forall>x \<in> set old. ko_Name x \<notin> set (names new) \<longrightarrow> delete_asked k V kc ns (ko_Name x) w')"

text \<open>The outcome does not depend on the objects of other kinds.\<close>

lemma upgrade_outcome_other:
  assumes "upgrade_outcome k wrap V kc ns old new w1 w2" "\<And>n. V w k ns n = V w1 k ns n" "\<And>n. V w' k ns n = V w2 k ns n"
  shows "upgrade_outcome k wrap V kc ns old new w w'"
proof -
  have "delete_asked k V kc ns n w' \<longleftrightarrow> delete_asked k V kc ns n w2" for n
    by (simp add: delete_asked_def assms(3))
  then show ?thesis using assms(1) unfolding upgrade_outcome_def by (simp only: assms(2,3))
qed

text \<open>Both lists have one object for a name, and all are in one namespace.\<close>

definition named_in :: "string \<Rightarrow> 'a k8s_object_scheme list \<Rightarrow> bool" where
  "named_in ns xs \<longleftrightarrow> distinct (names xs) \<and> (\<forall>x \<in> set xs. ko_Namespace x = ns)"

lemma upgrade_collection_steps:
  fixes e :: "'e option"
  assumes "api_kind k wrap V kc" "is_range rng" "distinct (names new)"
    "upgrade_collection rng kc upd crt (\<lambda>_. None) old new a w = (e, a', w')"
  shows "\<exists>m' w1. e = None \<and> named_map m' \<and> (\<forall>i. i \<notin> set (names new) \<longrightarrow> map_of m' i = map_of (name_map old) i) \<and>
    (\<forall>k' ns i. (k', ns, i) \<notin> keys_in k ko_Namespace new \<longrightarrow> V w1 k' ns i = V w k' ns i) \<and>
    (\<forall>n \<in> set new. turn k V kc (name_map old) m' n w w1) \<and>
    gone_only V {(k, ko_Namespace x, ko_Name x) |x. x \<in> ran (map_of m')} w1 w' \<and>
    (\<forall>x \<in> ran (map_of m'). delete_asked k V kc (ko_Namespace x) (ko_Name x) w')"
proof -
  obtain e1 :: "'e option" and m' a1 w1 where 1: "upgrade_new kc upd crt (\<lambda>_. None) new (name_map old) a w = (e1, m', a1, w1)" by (metis surj_pair)
  note u = upgrade_new_ok[OF assms(1) 1 assms(3) name_map_named]
  then have wf: "wf_map m'" "e1 = None" by (auto simp: named_map_def)
  have r: "set (map snd (rng m')) = ran (map_of m')"
    using is_range_set[OF assms(2), of m'] wf(1) by (auto simp: ran_def wf_map_def image_iff) force+
  obtain w2 where 2: "upgrade_old kc (\<lambda>_. None) (map snd (rng m')) w1 = (e, w2)" "w' = w2"
    using assms(4) wf(2) by (auto simp: upgrade_collection_def 1 split: prod.splits)
  have "keys_in k ko_Namespace (map snd (rng m')) \<subseteq> {(k, ko_Namespace x, ko_Name x) |x. x \<in> ran (map_of m')}"
    using r by (auto simp: keys_in_def)
  note d = upgrade_old_gone[OF assms(1) 2(1) this]
  show ?thesis using u d[unfolded r] 2(2) by (intro exI[of _ m'] exI[of _ w1]) simp
qed

lemma turn_left:
  "turn k V kc m m' n w w' \<Longrightarrow> map_of m' (ko_Name n) = Some x \<Longrightarrow> map_of m (ko_Name n) = Some x"
proof -
  assume t: "turn k V kc m m' n w w'" "map_of m' (ko_Name n) = Some x"
  show ?thesis
  proof (cases "map_of m (ko_Name n)")
    case None
    then show ?thesis using t by (auto simp: turn_def split: prod.splits)
  next
    case (Some o1)
    then obtain w1 where "case kc_Update kc (ko_Namespace n) (carry_over o1 n) w1 of
        ((_, e), _) \<Rightarrow> map_of m' (ko_Name n) = (if e = None then None else Some o1)"
      using t(1) by (auto simp: turn_def split: prod.splits)
    then show ?thesis using t(2) Some by (auto split: prod.splits if_splits)
  qed
qed

lemma left_over_old:
  assumes "distinct (names old)" "named_map m'" "\<forall>i. i \<notin> set (names new) \<longrightarrow> map_of m' i = map_of (name_map old) i"
    "\<forall>n \<in> set new. turn k V kc (name_map old) m' n w w1" "map_of m' i = Some x"
  shows "x \<in> set old \<and> ko_Name x = i"
proof -
  have "map_of (name_map old) i = Some x"
  proof (cases "i \<in> set (names new)")
    case True
    then obtain n where "n \<in> set new" "i = ko_Name n" by auto
    then show ?thesis using assms(4,5) turn_left by metis
  qed (use assms(3,5) in simp)
  then show ?thesis using find_named_Some[of i old x] by (simp add: map_of_name_map[OF assms(1)])
qed

lemma upgrade_collection_outcome:
  fixes e :: "'e option"
  assumes "api_kind k wrap V kc" "is_range rng" "named_in ns old" "named_in ns new"
    "upgrade_collection rng kc upd crt (\<lambda>_. None) old new a w = (e, a', w')"
  shows "upgrade_outcome k wrap V kc ns old new w w' \<and>
    (\<forall>k' ns' i. (k', ns', i) \<notin> keys_in k (\<lambda>_. ns) (old @ new) \<longrightarrow> V w' k' ns' i = V w k' ns' i)"
proof -
  have names: "distinct (names old)" "distinct (names new)" and ns: "\<And>x. x \<in> set old \<or> x \<in> set new \<Longrightarrow> ko_Namespace x = ns"
    using assms(3,4) by (auto simp: named_in_def)
  obtain m' w1 where m': "named_map m'" "\<forall>i. i \<notin> set (names new) \<longrightarrow> map_of m' i = map_of (name_map old) i"
    and w1: "\<forall>k' ns i. (k', ns, i) \<notin> keys_in k ko_Namespace new \<longrightarrow> V w1 k' ns i = V w k' ns i"
    and turns: "\<forall>n \<in> set new. turn k V kc (name_map old) m' n w w1"
    and gone: "gone_only V {(k, ko_Namespace x, ko_Name x) |x. x \<in> ran (map_of m')} w1 w'"
    and del: "\<forall>x \<in> ran (map_of m'). delete_asked k V kc (ko_Namespace x) (ko_Name x) w'"
    using upgrade_collection_steps[OF assms(1,2) names(2) assms(5)] by blast
  have left: "x \<in> set old \<and> ko_Name x = i" if "map_of m' i = Some x" for i x
    by (rule left_over_old[OF names(1) m' turns that])
  have gone_left: "delete_asked k V kc ns i w'" if "map_of m' i = Some x" for i x
    using del ranI[of "map_of m'", OF that] left[OF that] ns by force
  have kept: "V w' k ns i = V w1 k ns i" if "map_of m' i = None" for i
    by (rule gone_only_other[OF gone]) (use that left in \<open>auto simp: ran_def\<close>)
  show ?thesis unfolding upgrade_outcome_def
  proof (intro conjI ballI allI impI)
    fix n assume n: "n \<in> set new"
    then obtain w0 where w0: "V w0 k ns (ko_Name n) = V w k ns (ko_Name n)"
      and t: "case map_of (name_map old) (ko_Name n) of
           Some o1 \<Rightarrow> (case kc_Update kc ns (carry_over o1 n) w0 of
              ((x, e), w2) \<Rightarrow> map_of m' (ko_Name n) = (if e = None then None else Some o1) \<and> V w1 k ns (ko_Name n) = V w2 k ns (ko_Name n))
         | None \<Rightarrow> (case kc_Create kc ns n w0 of
              ((x, e), w2) \<Rightarrow> map_of m' (ko_Name n) = None \<and> V w1 k ns (ko_Name n) = V w2 k ns (ko_Name n))"
      using bspec[OF turns n] ns[of n] unfolding turn_def by auto
    have q: "case find_named (ko_Name n) old of
        Some o1 \<Rightarrow> \<exists>y e w2. kc_Update kc ns (carry_over o1 n) w0 = ((y, e), w2) \<and>
          (if e = None then V w' k ns (ko_Name n) = Some (wrap y) else delete_asked k V kc ns (ko_Name n) w')
      | None \<Rightarrow> \<exists>y e w2. kc_Create kc ns n w0 = ((y, e), w2) \<and>
          V w' k ns (ko_Name n) = (if e = None then Some (wrap y) else V w2 k ns (ko_Name n))"
    proof (cases "find_named (ko_Name n) old")
      case None
      obtain y e1 w2 where c: "kc_Create kc ns n w0 = ((y, e1), w2)" by (metis surj_pair)
      then have "V w' k ns (ko_Name n) = V w2 k ns (ko_Name n)" using t None kept by (simp add: map_of_name_map[OF names(1)])
      then show ?thesis using None c api_Create(2)[OF assms(1) c] by auto
    next
      case (Some o1)
      obtain y e1 w2 where c: "kc_Update kc ns (carry_over o1 n) w0 = ((y, e1), w2)" by (metis surj_pair)
      then have u: "map_of m' (ko_Name n) = (if e1 = None then None else Some o1)" "V w1 k ns (ko_Name n) = V w2 k ns (ko_Name n)"
        using t Some by (simp_all add: map_of_name_map[OF names(1)])
      then show ?thesis using Some c api_Update(2)[OF assms(1) c] kept gone_left by auto
    qed
    show "\<exists>w0 y e w1. V w0 k ns (ko_Name n) = V w k ns (ko_Name n) \<and>
        (case find_named (ko_Name n) old of
           Some o1 \<Rightarrow> kc_Update kc ns (carry_over o1 n) w0 = ((y, e), w1) \<and>
             (if e = None then V w' k ns (ko_Name n) = Some (wrap y) else delete_asked k V kc ns (ko_Name n) w')
         | None \<Rightarrow> kc_Create kc ns n w0 = ((y, e), w1) \<and>
             V w' k ns (ko_Name n) = (if e = None then Some (wrap y) else V w1 k ns (ko_Name n)))"
    proof (cases "find_named (ko_Name n) old")
      case None
      then obtain y e1 w2 where "kc_Create kc ns n w0 = ((y, e1), w2)"
        "V w' k ns (ko_Name n) = (if e1 = None then Some (wrap y) else V w2 k ns (ko_Name n))" using q by auto
      then show ?thesis using w0 None by (intro exI[of _ w0] exI[of _ y] exI[of _ e1] exI[of _ w2]) simp
    next
      case (Some o1)
      then obtain y e1 w2 where "kc_Update kc ns (carry_over o1 n) w0 = ((y, e1), w2)"
        "if e1 = None then V w' k ns (ko_Name n) = Some (wrap y) else delete_asked k V kc ns (ko_Name n) w'" using q by auto
      then show ?thesis using w0 Some by (intro exI[of _ w0] exI[of _ y] exI[of _ e1] exI[of _ w2]) simp
    qed
  next
    fix x assume x: "x \<in> set old" "ko_Name x \<notin> set (names new)"
    then have "map_of m' (ko_Name x) = Some x" using m'(2) by (simp add: map_of_name_map[OF names(1)] find_named_in[OF names(1)])
    then show "delete_asked k V kc ns (ko_Name x) w'" by (rule gone_left)
  next
    fix k' ns' i assume o: "(k', ns', i) \<notin> keys_in k (\<lambda>_. ns) (old @ new)"
    then have "(k', ns', i) \<notin> keys_in k ko_Namespace new" using ns by (auto simp: keys_in_def)
    moreover have "(k', ns', i) \<notin> {(k, ko_Namespace x, ko_Name x) |x. x \<in> ran (map_of m')}"
      using o ns left by (auto simp: keys_in_def ran_def)
    ultimately show "V w' k' ns' i = V w k' ns' i" using w1 gone_only_other[OF gone] by simp
  qed
qed

section \<open>The contract of the three functions\<close>

text \<open>A function that upgrades the objects of one kind, with errors ignored as the upgrade of a component does.\<close>

locale upgrade_function =
  fixes upgrade :: "((string, 'a k8s_object_scheme) gomap \<Rightarrow> (string, 'a k8s_object_scheme) gomap) \<Rightarrow> 'w Clientset \<Rightarrow>
      (kube_error \<Rightarrow> 'e option) \<Rightarrow> 'a k8s_object_scheme list \<Rightarrow> 'a k8s_object_scheme list \<Rightarrow> AppService \<Rightarrow> 'w \<Rightarrow> 'e option \<times> AppService \<times> 'w"
    and client :: "'w Clientset \<Rightarrow> ('w, 'a k8s_object_scheme) kind_client"
    and kind :: client_kind
    and wrap :: "'a k8s_object_scheme \<Rightarrow> kobj"
  assumes shape: "\<exists>upd crt. \<forall>rng c h old new a w. upgrade rng c h old new a w = upgrade_collection rng (client c) upd crt h old new a w"
    and provided: "kube_api V c \<Longrightarrow> api_kind kind wrap V (client c)"
begin

lemma outcome:
  assumes "kube_api V c" "is_range rng" "named_in ns old" "named_in ns new" "upgrade rng c (\<lambda>_. None) old new a w = (e, a', w')"
  shows "upgrade_outcome kind wrap V (client c) ns old new w w' \<and>
    (\<forall>k' ns' i. (k', ns', i) \<notin> keys_in kind (\<lambda>_. ns) (old @ new) \<longrightarrow> V w' k' ns' i = V w k' ns' i)"
proof -
  obtain upd crt where "upgrade_collection rng (client c) upd crt (\<lambda>_. None) old new a w = (e, a', w')"
    using shape assms(5) by metis
  from upgrade_collection_outcome[OF provided[OF assms(1)] assms(2,3,4) this] show ?thesis .
qed

end

interpretation ing: upgrade_function UpgradeIngress cl_Ingresses Ingresses KIngress
  by unfold_locales (auto simp: UpgradeIngress_def kube_api_def)

interpretation sec: upgrade_function UpgradeSecrets cl_Secrets Secrets KSecret
  by unfold_locales (auto simp: UpgradeSecrets_def kube_api_def)

interpretation mon: upgrade_function UpgradeServiceMonitor cl_ServiceMonitors ServiceMonitors KServiceMonitor
  by unfold_locales (auto simp: UpgradeServiceMonitor_def kube_api_def)

end
