(* ===== verification/WkRunFacts.thy ===== *)
theory WkRunFacts
  imports WkUpgradeFacts
begin

text \<open>
  What the controllers write to the log of an event, the errors of a start, and the number of controllers that
  the tasks of the worker start.
\<close>

section \<open>Closing entries\<close>

text \<open>The entries that tell the platform that the event has ended: success, failure or a timeout.\<close>

definition closing :: "log_entry \<Rightarrow> bool" where
  "closing e \<longleftrightarrow>
     (case e of LogInfo o1 \<Rightarrow> o1 | LogError o1 \<Rightarrow> o1 | LogDebug o1 \<Rightarrow> o1) \<in> {LastLoggerOption, CallbackLoggerOption, TimeoutLoggerOption}"

definition closings :: "'w runtime \<Rightarrow> nat" where
  "closings rt = length (filter closing (rt_log rt))"

definition quiet :: "('w runtime \<Rightarrow> ('e option \<times> 'w runtime) option) \<Rightarrow> bool" where
  "quiet f \<longleftrightarrow> (\<forall>rt e rt'. f rt = Some (e, rt') \<longrightarrow> closings rt' = closings rt)"

lemma closing_simps [simp]:
  "\<not> closing (LogInfo (LoggerOption s))" "\<not> closing (LogError (LoggerOption s))" "\<not> closing (LogDebug (LoggerOption s))"
  "closing (LogInfo LastLoggerOption)" "closing (LogError CallbackLoggerOption)" "closing (LogError TimeoutLoggerOption)"
  by (auto simp: closing_def)

lemma closings_simps [simp]:
  "closings (log_to e rt) = closings rt + (if closing e then 1 else 0)"
  "closings (rt\<lparr>rt_cluster := w\<rparr>) = closings rt" "closings (rt\<lparr>rt_store := st\<rparr>) = closings rt"
  "closings (observe w st rt) = closings rt" "closings (printLogger a rt) = closings rt"
  "closings (rt\<lparr>rt_cluster := w, rt_store := st\<rparr>) = closings rt"
  by (auto simp: closings_def log_to_def observe_def printLogger_def filter_concat o_def filter_empty_conv)

lemma quietI: "(\<And>rt e rt'. f rt = Some (e, rt') \<Longrightarrow> closings rt' = closings rt) \<Longrightarrow> quiet f"
  by (simp add: quiet_def)

lemma quiet_steps: "\<forall>f \<in> set fs. quiet f \<Longrightarrow> quiet (do_steps fs)"
proof (rule quietI)
  fix rt rt' :: "'a runtime" and e :: "'b option"
  assume q: "\<forall>f \<in> set fs. quiet f" and d: "do_steps fs rt = Some (e, rt')"
  show "closings rt' = closings rt"
    by (rule do_steps_rel[OF d, where R = "\<lambda>rt rt'. closings rt' = closings rt"]) (use q in \<open>auto simp: quiet_def\<close>)
qed

lemma quiet_on_cluster [simp]: "quiet (on_cluster f)"
  by (rule quietI) (auto simp: on_cluster_Some)

lemma wait_loop_quiet: "wait_loop env refresh test i a wk rt = Some (e, rt') \<Longrightarrow> closings rt' = closings rt"
proof (induction wk arbitrary: i a rt)
  case (Ticked w st wk)
  then show ?case by (auto simp: Let_def split: option.splits if_splits prod.splits)
qed (auto simp: Let_def split: option.splits if_splits prod.splits)

lemma waits_quiet [simp]:
  "quiet (\<lambda>rt. stop_WaitingReady env waiting app (log_to (LogInfo (LoggerOption s)) rt))"
  "quiet (\<lambda>rt. start_WaitingReady env app (log_to (LogInfo (LoggerOption s)) rt))"
  "quiet (upgrade_WaitingReady env app)" "quiet (scaling_WaitingReady env app)"
  by (auto intro!: quietI dest!: wait_loop_quiet
      simp: stop_WaitingReady_def start_WaitingReady_def upgrade_WaitingReady_def scaling_WaitingReady_def
            WaitStop_def WaitReady_def WaitUpgradeReady_def Let_def simp del: wait_loop.simps split: option.splits)

lemma delete_workload_quiet: "delete_workload env kc ns msg obj x rt = Some (e, rt') \<Longrightarrow> closings rt' = closings rt"
  by (auto simp: delete_workload_def split: prod.splits if_splits option.splits)

lemma stopOne_quiet: "quiet (stopOne env waiting app)"
proof -
  have "quiet (\<lambda>rt. case as_statefulset app of None \<Rightarrow> Some (None, rt)
      | Some x \<Rightarrow> delete_workload env kc ns msg KStatefulSet x rt)" for kc ns msg
    by (rule quietI) (auto dest: delete_workload_quiet split: option.splits)
  moreover have "quiet (\<lambda>rt. case as_deployment app of None \<Rightarrow> Some (None, rt)
      | Some x \<Rightarrow> if ko_Name x = [] then Some (None, rt) else delete_workload env kc ns msg KDeployment x rt)" for kc ns msg
    by (rule quietI) (auto dest: delete_workload_quiet split: option.splits if_splits)
  ultimately have "\<forall>f \<in> set (stop_objects env app @ [\<lambda>rt. stop_WaitingReady env waiting app (log_to (LogInfo (LoggerOption ''running'')) rt)]). quiet f"
    unfolding stop_objects_def Let_def by simp
  from quiet_steps[OF this] show ?thesis unfolding stopOne_def .
qed

lemma startOne_quiet: "quiet (startOne env app)"
proof -
  have "\<forall>f \<in> set (map on_cluster (start_objects env app) @
      [\<lambda>rt. start_WaitingReady env app (log_to (LogInfo (LoggerOption ''running'')) rt)]). quiet f"
    by auto
  from quiet_steps[OF this] show ?thesis unfolding startOne_def .
qed

lemma patch_workload_quiet: "quiet (patch_workload kc key msg x app)"
  by (rule quietI) (auto simp: patch_workload_def split: option.splits prod.splits)

lemma scalingOne_quiet: "quiet (scalingOne env app)"
proof -
  have "\<forall>f \<in> set [on_cluster (patch_replicas (cl_StatefulSets (ce_client env)) (as_statefulset app) app),
        on_cluster (patch_replicas (cl_Deployments (ce_client env)) (as_deployment app) app), scaling_WaitingReady env app]. quiet f"
    by simp
  from quiet_steps[OF this] show ?thesis unfolding scalingOne_def .
qed

lemma upgrade_tail_quiet: "quiet (upgrade_tail env app)"
proof (rule quietI)
  fix rt e rt'
  assume t: "upgrade_tail env app rt = Some (e, rt')"
  then obtain app1 rt1 where 1: "upgrade_rules env app rt = Some (app1, rt1)" by (auto simp: upgrade_tail_def split: option.splits)
  then have "closings rt1 = closings rt" by (auto simp: upgrade_rules_def Let_def split: option.splits prod.splits)
  moreover obtain e2 rt2 where 2: "on_cluster (env_secrets (ce_client env) (as_envVarSecrets app1)) rt1 = Some (e2, rt2)"
    using t 1 by (auto simp: upgrade_tail_def split: option.splits prod.splits)
  moreover have "closings rt2 = closings rt1" using 2 by (auto simp: on_cluster_Some)
  moreover have "closings rt' = closings rt2"
  proof (cases e2)
    case None
    then obtain app3 rt3 where 3: "upgrade_monitors env app1 rt2 = Some (app3, rt3)" "upgrade_WaitingReady env app3 rt3 = Some (e, rt')"
      using t 1 2 by (auto simp: upgrade_tail_def split: option.splits prod.splits)
    have "closings rt3 = closings rt2" using 3(1)
      by (auto simp: upgrade_monitors_def Let_def split: if_splits option.splits prod.splits)
    then show ?thesis using waits_quiet(3)[of env app3] 3(2) by (auto simp: quiet_def)
  next
    case (Some e3)
    then show ?thesis using t 1 2 by (auto simp: upgrade_tail_def split: option.splits prod.splits)
  qed
  ultimately show "closings rt' = closings rt" by simp
qed

lemma upgradeOne_quiet: "quiet (upgradeOne env app)"
proof -
  have "quiet (\<lambda>rt. map_option (Pair None) (upgradeConfigMap env app rt))"
    by (rule quietI) (auto simp: upgradeConfigMap_def apply_configs_def Let_def split: option.splits prod.splits)
  moreover have "quiet (\<lambda>rt. map_option (Pair None) (upgradeService env app rt))"
    by (rule quietI) (auto simp: upgradeService_def split: option.splits prod.splits)
  ultimately show ?thesis unfolding upgradeOne_def Let_def
    by (intro quiet_steps) (simp add: patch_workload_quiet upgrade_tail_quiet)
qed

lemma log_result_closings: "closings (log_result err rt) = closings rt + 1"
  by (simp add: log_result_def split: option.splits)

lemma closed_loop_quiet: "closings (closed_loop env sid n rt) = closings rt"
  by (induction n arbitrary: rt) (auto split: option.splits prod.splits)

lemma restartOne_closings:
  assumes "restartOne env app rt = Some (err, rt')"
  shows "closings rt' = closings rt + (if err = None then 0 else 1)"
proof -
  obtain e1 rt1 where 1: "stopOne env (seconds 300) app rt = Some (e1, rt1)" using assms by (auto simp: restartOne_def split: option.splits)
  have q1: "closings rt1 = closings rt" using stopOne_quiet 1 unfolding quiet_def by blast
  show ?thesis
  proof (cases "e1 \<noteq> None \<and> e1 \<noteq> Some ErrWaitTimeOut")
    case True
    then show ?thesis using assms 1 q1 by (auto simp: restartOne_def)
  next
    case False
    define rt2 where "rt2 = (if e1 = None then rt1 else closed_loop env (as_ServiceID app) 20 rt1)"
    have q2: "closings rt2 = closings rt" using q1 by (simp add: rt2_def closed_loop_quiet)
    have eq: "restartOne env app rt =
        (case InitAppService (ce_conversions env) (se_db (ce_store env)) (as_ServiceID app) (as_ExtensionSet app) [] of
           None \<Rightarrow> None
         | Some (Inl _) \<Rightarrow> Some (Some ErrInit, log_to (LogError CallbackLoggerOption) rt2)
         | Some (Inr newAppService) \<Rightarrow>
             (case startOne env newAppService (rt2\<lparr>rt_store := RegistAppService newAppService (rt_store rt2)\<rparr>) of
                None \<Rightarrow> None
              | Some (err, rt) \<Rightarrow>
                  if err \<noteq> None \<and> err \<noteq> Some ErrWaitTimeOut then Some (err, log_to (LogError CallbackLoggerOption) rt)
                  else Some (None, rt)))"
      unfolding restartOne_def 1 option.case prod.case if_not_P[OF False] Let_def rt2_def by (rule refl)
    obtain i where i: "InitAppService (ce_conversions env) (se_db (ce_store env)) (as_ServiceID app) (as_ExtensionSet app) [] = Some i"
      using assms by (auto simp: eq split: option.splits)
    show ?thesis
    proof (cases i)
      case (Inl x)
      then show ?thesis using assms q2 i by (auto simp: eq)
    next
      case (Inr new)
      obtain e3 rt3 where 3: "startOne env new (rt2\<lparr>rt_store := RegistAppService new (rt_store rt2)\<rparr>) = Some (e3, rt3)"
        using assms Inr i by (auto simp: eq split: option.splits)
      have "closings rt3 = closings rt" using startOne_quiet[of env new] 3 q2 unfolding quiet_def by fastforce
      moreover have "Some (err, rt') = (if e3 \<noteq> None \<and> e3 \<noteq> Some ErrWaitTimeOut then Some (e3, log_to (LogError CallbackLoggerOption) rt3) else Some (None, rt3))"
        using assms Inr i 3 by (simp add: eq)
      ultimately show ?thesis by (auto split: if_splits)
    qed
  qed
qed

lemma errorCallback_quiet: "errorCallback env app rt = Some (e, rt') \<Longrightarrow> closings rt' = closings rt"
  using stopOne_quiet[of env 0 app] by (fastforce simp: errorCallback_def quiet_def split: option.splits)

lemma worker_closings:
  assumes "worker env t app rt = Some rt'"
    "t \<in> {TypeStartController, TypeStopController, TypeRestartController, TypeUpgradeController, TypeScalingController}"
  shows "closings rt' = closings rt + 1"
proof -
  let ?rt = "log_to (LogInfo (LoggerOption ''starting'')) rt"
  have one: "closings rt' = closings rt + 1" if "map_option (\<lambda>(err, rt). log_result err rt) (f ?rt) = Some rt'" "quiet f" for f
    using that by (auto simp: quiet_def log_result_closings)
  have start: "closings rt' = closings rt + 1" if w: "start_worker env app rt = Some rt'"
  proof -
    obtain err rt1 where 1: "startOne env app ?rt = Some (err, rt1)" using w by (auto simp: start_worker_def split: option.splits)
    then have "closings (log_result err rt1) = closings rt + 1" using startOne_quiet[of env app] by (auto simp: quiet_def log_result_closings)
    then show ?thesis using w 1 by (auto simp: start_worker_def Let_def dest: errorCallback_quiet split: if_splits)
  qed
  have restart: "closings rt' = closings rt + 1" if w: "restart_worker env app rt = Some rt'"
  proof -
    obtain err rt1 where 1: "restartOne env app ?rt = Some (err, rt1)" "rt' = (if err = None then log_to (LogInfo LastLoggerOption) rt1 else rt1)"
      using w by (auto simp: restart_worker_def)
    show ?thesis using restartOne_closings[OF 1(1)] 1(2) by simp
  qed
  show ?thesis using assms one[OF _ stopOne_quiet] one[OF _ upgradeOne_quiet] one[OF _ scalingOne_quiet] start restart
    by (auto simp: worker_def stop_worker_def upgrade_worker_def scaling_worker_def)
qed

section \<open>The errors of a start and a stop\<close>

lemma do_steps_error: "do_steps fs s = Some (Some e, s') \<Longrightarrow> \<exists>f \<in> set fs. \<exists>s1 s2. f s1 = Some (Some e, s2)"
  by (induction fs arbitrary: s) (auto split: option.splits prod.splits)

lemma each_object_failed: "each_object f tolerated msg xs w = (Some e, w') \<Longrightarrow> \<exists>r. e = Failed msg r"
  by (induction xs arbitrary: w) (auto split: prod.splits option.splits if_splits)

lemma start_objects_failed:
  assumes "do_steps (map on_cluster (start_objects env app)) rt = Some (Some e, rt')"
  shows "\<exists>msg r. e = Failed msg r"
proof -
  obtain f w w' where f: "f \<in> set (start_objects env app)" "f w = (Some e, w')"
    using do_steps_error[OF assms] by (auto simp: on_cluster_Some)
  then show ?thesis unfolding start_objects_def Let_def
    by (auto simp: check_namespace_def create_workload_def create_monitors_def
             dest!: each_object_failed split: option.splits prod.splits if_splits)
qed

lemma delete_workload_failed: "delete_workload env kc ns m obj x rt = Some (Some e, rt') \<Longrightarrow> \<exists>r. e = Failed m r"
  by (auto simp: delete_workload_def split: prod.splits if_splits option.splits)

lemma stop_objects_failed:
  assumes "do_steps (stop_objects env app) rt = Some (Some e, rt')"
  shows "\<exists>msg r. e = Failed msg r"
proof -
  obtain f rt1 rt2 where f: "f \<in> set (stop_objects env app)" "f rt1 = Some (Some e, rt2)"
    using do_steps_error[OF assms] by blast
  then show ?thesis unfolding stop_objects_def Let_def
    by (auto simp: on_cluster_Some delete_monitors_def dest!: each_object_failed delete_workload_failed split: option.splits if_splits)
qed

section \<open>The number of controllers\<close>

definition one_more :: "'w tasks \<Rightarrow> 'w task_result \<Rightarrow> bool" where
  "one_more s r \<longleftrightarrow> (\<forall>e s'. r = Some (e, s') \<longrightarrow> GetControllerSize (tk_manager s') \<le> GetControllerSize (tk_manager s) + 1)"

lemma length_update_le: "length (map_set k v m) \<le> length m + 1"
  by (induction m) auto

lemma StartController_size:
  assumes "StartController i t apps m = Some (ok, m')"
  shows "GetControllerSize m' \<le> GetControllerSize m + 1"
  using assms length_update_le[of i "(t, apps)" "mg_controllers m"] length_update_le[of i "(t, [hd apps])" "mg_controllers m"]
  by (auto simp: StartController_def GetControllerSize_def Let_def split: TypeController.splits list.splits)

lemma run_controller_more: "tk_manager s' = tk_manager s \<Longrightarrow> one_more s (run_controller env t app msg failure s')"
  by (auto simp: one_more_def run_controller_def dest: StartController_size split: option.splits prod.splits if_splits)

lemma manager_kept [simp]: "tk_manager (with_store f s) = tk_manager s" "tk_manager (log_event eid e s) = tk_manager s"
  by (simp_all add: with_store_def log_event_def)

lemma one_more_same: "tk_manager s' = tk_manager s \<Longrightarrow> one_more s (Some (e, s'))"
  by (simp add: one_more_def)

lemma one_more_None [simp]: "one_more s None"
  by (simp add: one_more_def)

lemmas more = run_controller_more one_more_same

lemma third_party_ports_manager:
  "third_party_ports env svc sid action port isInner known app s = Some (e, s') \<Longrightarrow> tk_manager s' = tk_manager s"
  by (auto simp: third_party_ports_def InitOneThirdPartService_def Let_def split: if_splits option.splits prod.splits sum.splits)

lemma one_more_bodies:
  "one_more s (startExec env body s)" "one_more s (stopExec env body s)" "one_more s (restartExec env body s)"
  "one_more s (applyPluginConfig env body s)" "one_more s (ExecRefreshHPATask env body s)"
  by (auto simp: startExec_def stopExec_def restartExec_def stop_with_def applyPluginConfig_def ExecRefreshHPATask_def Let_def intro!: more
           split: TaskBody.split task_body.split option.split sum.split)

lemma horizontalScalingExec_more: "one_more s (horizontalScalingExec env body s)"
proof -
  have "one_more s (case run_controller env t app msg failure s1 of None \<Rightarrow> None | Some (err, s) \<Rightarrow> Some (err, g err s))"
    if "tk_manager s1 = tk_manager s" "\<And>err s. tk_manager (g err s) = tk_manager s" for t app msg failure s1 g
    using run_controller_more[OF that(1), of env t app msg failure] that(2) by (auto simp: one_more_def split: option.splits)
  then show ?thesis
    by (auto simp: horizontalScalingExec_def Let_def intro!: one_more_same
             split: TaskBody.split task_body.split option.split sum.split)
qed

lemma verticalScalingExec_more: "one_more s (verticalScalingExec env body s)"
  by (auto simp: verticalScalingExec_def Let_def intro!: more
           split: TaskBody.split task_body.split option.split sum.split prod.split)

lemma rollingUpgradeExec_more: "one_more s (rollingUpgradeExec env body s)"
  by (auto simp: rollingUpgradeExec_def intro!: more
           split: TaskBody.split task_body.split option.split sum.split prod.split patch_error.split)

lemma ExecServiceGCTask_more: "one_more s (ExecServiceGCTask env body s)" "one_more s (deleteTenant env body s)"
  by (auto simp: ExecServiceGCTask_def DelLogFile_def DelVolumeData_def deleteTenant_def delete_failed_def Let_def intro!: more
           split: TaskBody.split task_body.split option.split sum.split prod.split)

lemma applyRuleExec_more: "one_more s (applyRuleExec env body s)"
proof -
  have "one_more s (case run_controller env t app msg failure s of
      None \<Rightarrow> None | Some (Some err, s) \<Rightarrow> Some (Some err, s)
    | Some (None, s) \<Rightarrow> if b then third_party_ports env svc sid action port isInner known app s else Some (None, s))"
    for t app msg failure b svc sid action port isInner known
    using run_controller_more[of s s env t app msg failure] third_party_ports_manager
    by (fastforce simp: one_more_def split: option.splits if_splits)
  then show ?thesis
    by (auto simp: applyRuleExec_def Let_def intro!: one_more_same
             split: TaskBody.split task_body.split option.split sum.split simp del: if_split)
qed

lemma AnalystToExec_more:
  assumes "AnalystToExec env task s = Some (e, s')" "0 \<le> te_MaxTasks env" "GetControllerSize (tk_manager s) \<le> te_MaxTasks env + 1"
  shows "GetControllerSize (tk_manager s') \<le> te_MaxTasks env + 1"
proof (cases "task = None \<or> checkCount env s \<or> \<not> te_StoreReady env")
  case True
  then have "s' = s" using assms(1) by (auto simp: AnalystToExec_def split: option.splits if_splits)
  then show ?thesis using assms(3) by simp
next
  case False
  then obtain t body where "exec_task env t body s = Some (e, s')" "\<not> checkCount env s"
    using assms(1) by (auto simp: AnalystToExec_def split: option.splits if_splits)
  moreover have "one_more s (exec_task env t body s)" unfolding exec_task_def
    by (simp add: one_more_bodies horizontalScalingExec_more verticalScalingExec_more rollingUpgradeExec_more
          ExecServiceGCTask_more applyRuleExec_more one_more_same)
  ultimately show ?thesis by (auto simp: one_more_def checkCount_def)
qed

text \<open>What happens to the worker: it takes tasks, its controllers end and report that to the manager, and the rest of
  its state changes.\<close>

inductive tasks_run :: "'w task_env \<Rightarrow> 'w tasks \<Rightarrow> bool" for env where
  worker_start: "tk_manager s = NewManager \<Longrightarrow> tasks_run env s"
| worker_task: "tasks_run env s \<Longrightarrow> AnalystToExec env task s = Some (e, s') \<Longrightarrow> tasks_run env s'"
| worker_callback: "tasks_run env s \<Longrightarrow> tasks_run env (s\<lparr>tk_manager := callback i (tk_manager s)\<rparr>)"
| worker_other: "tasks_run env s \<Longrightarrow> tk_manager s' = tk_manager s \<Longrightarrow> tasks_run env s'"

lemma length_delete_le: "length (AList.delete k m) \<le> length m"
  by (induction m) auto

lemma tasks_run_bound:
  assumes "tasks_run env s" "0 \<le> te_MaxTasks env"
  shows "GetControllerSize (tk_manager s) \<le> te_MaxTasks env + 1"
  using assms
proof induction
  case (worker_start s)
  then show ?case by (simp add: NewManager_def GetControllerSize_def)
next
  case (worker_task s task e s')
  then show ?case by (simp add: AnalystToExec_more)
next
  case (worker_callback s i)
  then show ?case using length_delete_le[of i "mg_controllers (tk_manager s)"] by (simp add: callback_def GetControllerSize_def)
next
  case (worker_other s s')
  then show ?case by simp
qed

end
