(* ===== verification/WkCtlProps.thy ===== *)
theory WkCtlProps
  imports WkRunFacts WkStoreProps
begin

text \<open>
  The properties of the worker's controllers, of its patches and of its tasks.
\<close>

section \<open>A cluster in memory\<close>

text \<open>A cluster that shows that the laws of the API can hold: a map from kind, namespace and name to objects, whose
  methods fail for no other reason than the documented ones. An update without a version is unconditional.\<close>

type_synonym mem = "(client_kind \<times> string \<times> string, kobj) gomap"

definition mem_view :: "mem view" where
  "mem_view w k ns n = map_of w (k, ns, n)"

definition mem_kind ::
  "client_kind \<Rightarrow> ('a k8s_object_scheme \<Rightarrow> kobj) \<Rightarrow> (kobj \<Rightarrow> 'a k8s_object_scheme option) \<Rightarrow> 'a k8s_object_scheme \<Rightarrow>
   (mem, 'a k8s_object_scheme) kind_client" where
  "mem_kind k wrap unwrap zero =
     \<lparr>kc_Get = (\<lambda>ns n w. (case Option.bind (map_of w (k, ns, n)) unwrap of Some x \<Rightarrow> (x, None)
                          | None \<Rightarrow> (zero, Some (case map_of w (k, ns, n) of None \<Rightarrow> IsNotFound | Some _ \<Rightarrow> IsInvalid)), w)),
      kc_Create = (\<lambda>ns x w. case map_of w (k, ns, ko_Name x) of
                     None \<Rightarrow> ((x, None), map_set (k, ns, ko_Name x) (wrap x) w) | Some _ \<Rightarrow> ((x, Some IsAlreadyExists), w)),
      kc_Update = (\<lambda>ns x w. case map_of w (k, ns, ko_Name x) of
                     None \<Rightarrow> ((x, Some IsNotFound), w)
                   | Some y \<Rightarrow> (case unwrap y of
                        Some z \<Rightarrow> if ko_ResourceVersion x = [] \<or> ko_ResourceVersion z = ko_ResourceVersion x then ((x, None), map_set (k, ns, ko_Name x) (wrap x) w)
                                  else ((x, Some IsConflict), w)
                      | None \<Rightarrow> ((x, Some IsInvalid), w))),
      kc_UpdateStatus = (\<lambda>ns x w. ((x, None), w)),
      kc_Patch = (\<lambda>ns n t b w. ((zero, None), w)),
      kc_Delete = (\<lambda>ns n w. case map_of w (k, ns, n) of None \<Rightarrow> (Some IsNotFound, w) | Some _ \<Rightarrow> (None, AList.delete (k, ns, n) w)),
      kc_DeleteCollection = (\<lambda>ns l w. (None, w)),
      kc_List = (\<lambda>ns l w. (([], None), w))\<rparr>"

lemma mem_kind_api:
  assumes "\<And>y x. unwrap y = Some x \<Longrightarrow> y = wrap x"
  shows "api_kind k wrap mem_view (mem_kind k wrap unwrap zero)"
  unfolding api_kind_def
proof (intro conjI)
  show "get_law k wrap mem_view (mem_kind k wrap unwrap zero)"
    using assms by (auto simp: get_law_def mem_kind_def mem_view_def fun_eq_iff Option.bind_eq_Some_conv split: option.splits)
  show "create_law k wrap mem_view (mem_kind k wrap unwrap zero)" "update_law k wrap mem_view (mem_kind k wrap unwrap zero)"
    by (auto simp: create_law_def update_law_def mem_kind_def mem_view_def view_set_def fun_eq_iff split: option.splits if_splits)
  show "delete_law k mem_view (mem_kind k wrap unwrap zero)"
    by (auto simp: delete_law_def mem_kind_def mem_view_def view_set_def delete_conv' fun_eq_iff split: option.splits)
qed

definition zero_obj :: k8s_object where
  "zero_obj = \<lparr>ko_Name = [], ko_Namespace = [], ko_ResourceVersion = [], ko_Labels = [], ko_Annotations = [], ko_CreationTimestamp = 0,
     ko_UID = [], ko_Body = 0\<rparr>"

definition zero_Secret :: SecretObject where
  "zero_Secret = \<lparr>ko_Name = [], ko_Namespace = [], ko_ResourceVersion = [], ko_Labels = [], ko_Annotations = [], ko_CreationTimestamp = 0,
     ko_UID = [], ko_Body = 0, sk_Data = [], sk_Type = []\<rparr>"

definition zero_Ingress :: IngressObject where
  "zero_Ingress = \<lparr>ko_Name = [], ko_Namespace = [], ko_ResourceVersion = [], ko_Labels = [], ko_Annotations = [], ko_CreationTimestamp = 0,
     ko_UID = [], ko_Body = 0, io_Backend = None, io_TLS = [], io_Rules = []\<rparr>"

definition zero_HPA :: HPAObject where
  "zero_HPA = \<lparr>ko_Name = [], ko_Namespace = [], ko_ResourceVersion = [], ko_Labels = [], ko_Annotations = [], ko_CreationTimestamp = 0,
     ko_UID = [], ko_Body = 0, hp_MinReplicas = 0, hp_MaxReplicas = 0, hp_TargetKind = [], hp_TargetName = [], hp_Metrics = []\<rparr>"

definition mem_clients :: "mem Clientset" where
  "mem_clients =
     \<lparr>cl_GetNamespace = (\<lambda>n w. (None, w)), cl_CreateNamespace = (\<lambda>x w. (None, w)), cl_DeleteNamespace = (\<lambda>n w. (None, w)),
      cl_ConfigMaps = mem_kind ConfigMaps KConfigMap (\<lambda>y. case y of KConfigMap x \<Rightarrow> Some x | _ \<Rightarrow> None) zero_obj,
      cl_Claims = mem_kind PersistentVolumeClaims KClaim (\<lambda>y. case y of KClaim x \<Rightarrow> Some x | _ \<Rightarrow> None) zero_obj,
      cl_Volumes = mem_kind PersistentVolumeClaims KClaim (\<lambda>y. case y of KClaim x \<Rightarrow> Some x | _ \<Rightarrow> None) zero_obj,
      cl_StatefulSets = mem_kind StatefulSets KStatefulSet (\<lambda>y. case y of KStatefulSet x \<Rightarrow> Some x | _ \<Rightarrow> None) zero_Workload,
      cl_Deployments = mem_kind Deployments KDeployment (\<lambda>y. case y of KDeployment x \<Rightarrow> Some x | _ \<Rightarrow> None) zero_Workload,
      cl_Services = mem_kind Services KService (\<lambda>y. case y of KService x \<Rightarrow> Some x | _ \<Rightarrow> None) zero_Service,
      cl_Secrets = mem_kind Secrets KSecret (\<lambda>y. case y of KSecret x \<Rightarrow> Some x | _ \<Rightarrow> None) zero_Secret,
      cl_Ingresses = mem_kind Ingresses KIngress (\<lambda>y. case y of KIngress x \<Rightarrow> Some x | _ \<Rightarrow> None) zero_Ingress,
      cl_HPAs = mem_kind HorizontalPodAutoscalers KHPA (\<lambda>y. case y of KHPA x \<Rightarrow> Some x | _ \<Rightarrow> None) zero_HPA,
      cl_Endpoints = mem_kind Pods KEndpoints (\<lambda>y. case y of KEndpoints x \<Rightarrow> Some x | _ \<Rightarrow> None) zero_Endpoints,
      cl_Pods = mem_kind Pods KPod (\<lambda>y. case y of KPod x \<Rightarrow> Some x | _ \<Rightarrow> None) wk_pod,
      cl_ServiceMonitors = mem_kind ServiceMonitors KServiceMonitor (\<lambda>y. case y of KServiceMonitor x \<Rightarrow> Some x | _ \<Rightarrow> None) zero_obj\<rparr>"

lemma mem_clients_api: "kube_api mem_view mem_clients"
  unfolding kube_api_def
  by (auto simp: mem_clients_def intro!: mem_kind_api split: kobj.splits)

definition mem_env :: "mem ctl_env" where
  "mem_env = \<lparr>ce_client = mem_clients, ce_store = wk_senv, ce_conversions = [], ce_crd = False, ce_smClient = False,
     ce_wakes = (\<lambda>_ rt. TimedOut (rt_cluster rt) (rt_store rt)), ce_sleep = Pair,
     ce_configs = id, ce_services = id, ce_secrets = id, ce_ingresses = id, ce_monitors = id\<rparr>"

definition mem_app :: AppService where
  "mem_app = zero_AppService\<lparr>as_TenantID := ''t'', as_ServiceID := ''sid'', as_Replicas := 1, as_configMaps := [zero_obj\<lparr>ko_Name := ''cm''\<rparr>],
     as_services := [wk_service], as_secrets := [zero_Secret\<lparr>ko_Name := ''old'', ko_Namespace := ''t''\<rparr>],
     as_ingresses := [zero_Ingress\<lparr>ko_Name := ''ing'', ko_Namespace := ''t''\<rparr>],
     as_deployment := Some (zero_Workload\<lparr>ko_Name := ''d'', wl_Replicas := Some 1\<rparr>)\<rparr>"

definition mem_rt :: "mem runtime" where
  "mem_rt = \<lparr>rt_cluster = [((Secrets, ''t'', ''env''), KSecret (zero_Secret\<lparr>ko_Name := ''env''\<rparr>))],
     rt_store = RegistAppService mem_app new_appRuntimeStore, rt_log = []\<rparr>"

lemma mem_app_fields:
  "as_TenantID mem_app = ''t''" "as_services mem_app = [wk_service]"
  "as_deployment mem_app = Some (zero_Workload\<lparr>ko_Name := ''d'', wl_Replicas := Some 1\<rparr>)"
  "mem_view (rt_cluster mem_rt) Secrets ''t'' ''env'' = Some (KSecret (zero_Secret\<lparr>ko_Name := ''env''\<rparr>))" "ko_Name wk_service = ''svc''"
  by (simp_all add: mem_app_def mem_rt_def mem_view_def wk_service_def)

lemma mem_client: "ce_client mem_env = mem_clients"
  by (simp add: mem_env_def)

lemma start_present_workload:
  assumes "kube_api V (ce_client env)" "do_steps (map on_cluster (start_objects env app)) rt = Some (None, rt')"
    "api_kind k wrap V kc" "create_workload kc ns msg (Some x) \<in> set (start_objects env app)"
  shows "V (rt_cluster rt') k ns (ko_Name x) \<noteq> None"
  by (rule start_present[OF assms(1,2,4)]) (rule create_workload_grown(2)[OF assms(3), where T = UNIV], simp_all)

lemma start_present_service:
  assumes "kube_api V (ce_client env)" "do_steps (map on_cluster (start_objects env app)) rt = Some (None, rt')" "x \<in> set (as_services app)"
  shows "V (rt_cluster rt') Services (as_TenantID app) (ko_Name x) \<noteq> None"
proof (rule start_present[OF assms(1,2)])
  let ?f = "\<lambda>w. let (e, w) = CreateKubeService (ce_client env) (as_TenantID app) (as_services app) w in (map_option (Failed ''Create service failure'') e, w)"
  show "?f \<in> set (start_objects env app)" by (simp add: start_objects_def Let_def)
  have s: "api_kind Services KService V (cl_Services (ce_client env))" using assms(1) by (simp add: kube_api_def)
  show "V w' Services (as_TenantID app) (ko_Name x) \<noteq> None" if f: "?f w = (None, w')" for w w'
  proof -
    obtain e w1 where c: "CreateKubeService (ce_client env) (as_TenantID app) (as_services app) w = (e, w1)" by fastforce
    then have "e = None" "w' = w1" using f by simp_all
    then show ?thesis using CreateKubeService_grown(2)[OF s c, where T = UNIV] assms(3) by simp
  qed
qed

lemma stop_absent_workload:
  assumes "kube_api V (ce_client env)" "do_steps (stop_objects env app) rt = Some (None, rt')"
  shows "as_statefulset app = Some x \<Longrightarrow> V (rt_cluster rt') StatefulSets (as_TenantID app) (ko_Name x) = None"
    "as_deployment app = Some x \<Longrightarrow> ko_Name x \<noteq> [] \<Longrightarrow> V (rt_cluster rt') Deployments (as_TenantID app) (ko_Name x) = None"
proof -
  let ?c = "ce_client env" and ?ns = "as_TenantID app"
  have k: "api_kind StatefulSets KStatefulSet V (cl_StatefulSets ?c)" "api_kind Deployments KDeployment V (cl_Deployments ?c)"
    using assms(1) by (simp_all add: kube_api_def)
  show "V (rt_cluster rt') StatefulSets ?ns (ko_Name x) = None" if "as_statefulset app = Some x"
    by (rule stop_absent[OF assms, of "\<lambda>rt. delete_workload env (cl_StatefulSets ?c) ?ns ''delete statefulset failure'' KStatefulSet x rt"])
       (use that in \<open>simp add: stop_objects_def Let_def\<close>, rule delete_workload_gone(2)[OF k(1), where S = UNIV], simp_all)
  show "V (rt_cluster rt') Deployments ?ns (ko_Name x) = None" if "as_deployment app = Some x" "ko_Name x \<noteq> []"
    by (rule stop_absent[OF assms, of "\<lambda>rt. delete_workload env (cl_Deployments ?c) ?ns ''delete deployment failure'' KDeployment x rt"])
       (use that in \<open>simp add: stop_objects_def Let_def\<close>, rule delete_workload_gone(2)[OF k(2), where S = UNIV], simp_all)
qed

section \<open>Starting\<close>

definition has_objects :: "'w view \<Rightarrow> AppService \<Rightarrow> 'w \<Rightarrow> bool" where
  "has_objects V app w \<longleftrightarrow>
     (\<forall>x \<in> set (as_configMaps app). V w ConfigMaps (as_TenantID app) (ko_Name x) \<noteq> None) \<and>
     (\<forall>x \<in> set (as_claimsmanual app). V w PersistentVolumeClaims (as_TenantID app) (ko_Name x) \<noteq> None) \<and>
     (\<forall>x. as_statefulset app = Some x \<longrightarrow> V w StatefulSets (as_TenantID app) (ko_Name x) \<noteq> None) \<and>
     (\<forall>x. as_deployment app = Some x \<longrightarrow> V w Deployments (as_TenantID app) (ko_Name x) \<noteq> None) \<and>
     (\<forall>x \<in> set (as_services app). V w Services (as_TenantID app) (ko_Name x) \<noteq> None) \<and>
     (\<forall>x \<in> set (as_secrets app @ as_envVarSecrets app). ko_ResourceVersion x = [] \<longrightarrow> V w Secrets (as_TenantID app) (ko_Name x) \<noteq> None) \<and>
     (\<forall>x \<in> set (as_ingresses app). ko_ResourceVersion x = [] \<longrightarrow> V w Ingresses (as_TenantID app) (ko_Name x) \<noteq> None) \<and>
     (\<forall>x \<in> set (as_hpas app). ko_ResourceVersion x = [] \<longrightarrow> V w HorizontalPodAutoscalers (ko_Namespace x) (ko_Name x) \<noteq> None)"

text \<open>
  C4: \<open>startOne\<close> creates objects of the component and does nothing else to the cluster: nothing goes away, nothing changes
  but services of the component, and nothing appears but objects of the component. It either ends with a request
  that failed, or it reaches the point where it waits for the component; at that point the cluster has all
  config maps, manual claims, the workload and the services of the component and those of its secrets (the ones for
  environment variables included), ingresses and autoscalers that carry no version. An object that already
  existed is only known to be there: a secret keeps its old contents. Service monitors may be missing, since their errors
  are ignored.
\<close>

theorem start_creates_objects:
  assumes "kube_api V (ce_client env)" "startOne env app rt = Some (err, rt')"
  shows "\<exists>rt1. grown V (start_keys app) (rt_cluster rt) (rt_cluster rt1) \<and>
    ((\<exists>msg r. err = Some (Failed msg r) \<and> rt' = rt1) \<or>
     startOne env app rt = start_WaitingReady env app (log_to (LogInfo (LoggerOption ''running'')) rt1) \<and> has_objects V app (rt_cluster rt1))"
proof -
  let ?c = "ce_client env" and ?ns = "as_TenantID app"
  obtain e rt1 where d: "do_steps (map on_cluster (start_objects env app)) rt = Some (e, rt1)"
    using assms(2) by (auto simp: startOne_def do_steps_append split: option.splits)
  show ?thesis
  proof (cases e)
    case (Some e1)
    then have "err = Some e1" "rt' = rt1" using assms(2) d by (simp_all add: startOne_def do_steps_append)
    then show ?thesis using start_objects_failed d Some start_steps_grown[OF assms(1) d] by blast
  next
    case None
    note d = d[unfolded None] and k = assms(1)[unfolded kube_api_def]
    note each = start_present_each[OF assms(1) d]
    have wait: "startOne env app rt = start_WaitingReady env app (log_to (LogInfo (LoggerOption ''running'')) rt1)"
      by (auto simp: startOne_def do_steps_append d split: option.splits prod.splits)
    have "V (rt_cluster rt1) ConfigMaps ?ns (ko_Name x) \<noteq> None" if "x \<in> set (as_configMaps app)" for x
      by (rule each[of ConfigMaps KConfigMap "cl_ConfigMaps ?c" "\<lambda>_. ?ns" "''create config map failure''" "as_configMaps app"]) (use k that in \<open>auto simp: start_objects_def Let_def\<close>)
    moreover have "V (rt_cluster rt1) PersistentVolumeClaims ?ns (ko_Name x) \<noteq> None" if "x \<in> set (as_claimsmanual app)" for x
      by (rule each[of PersistentVolumeClaims KClaim "cl_Claims ?c" "\<lambda>_. ?ns" "''create claims''" "as_claimsmanual app"]) (use k that in \<open>auto simp: start_objects_def Let_def\<close>)
    moreover have "V (rt_cluster rt1) Secrets ?ns (ko_Name x) \<noteq> None"
      if "x \<in> set (as_secrets app @ as_envVarSecrets app)" "ko_ResourceVersion x = []" for x
      by (rule each[of Secrets KSecret "cl_Secrets ?c" "\<lambda>_. ?ns" "''create secret failure''" "unversioned (as_secrets app @ as_envVarSecrets app)"]) (use k that in \<open>auto simp: start_objects_def Let_def unversioned_def\<close>)
    moreover have "V (rt_cluster rt1) Ingresses ?ns (ko_Name x) \<noteq> None"
      if "x \<in> set (as_ingresses app)" "ko_ResourceVersion x = []" for x
      by (rule each[of Ingresses KIngress "cl_Ingresses ?c" "\<lambda>_. ?ns" "''create ingress failure''" "unversioned (as_ingresses app)"]) (use k that in \<open>auto simp: start_objects_def Let_def unversioned_def\<close>)
    moreover have "V (rt_cluster rt1) HorizontalPodAutoscalers (ko_Namespace x) (ko_Name x) \<noteq> None"
      if "x \<in> set (as_hpas app)" "ko_ResourceVersion x = []" for x
      by (rule each[of HorizontalPodAutoscalers KHPA "cl_HPAs ?c" ko_Namespace "''create hpa''" "unversioned (as_hpas app)"]) (use k that in \<open>auto simp: start_objects_def Let_def unversioned_def\<close>)
    moreover have "V (rt_cluster rt1) StatefulSets ?ns (ko_Name x) \<noteq> None" if "as_statefulset app = Some x" for x
      by (rule start_present_workload[OF assms(1) d, of StatefulSets KStatefulSet "cl_StatefulSets ?c" ?ns "''create statefulset failure''"])
         (use k that in \<open>auto simp: start_objects_def Let_def\<close>)
    moreover have "V (rt_cluster rt1) Deployments ?ns (ko_Name x) \<noteq> None" if "as_deployment app = Some x" for x
      by (rule start_present_workload[OF assms(1) d, of Deployments KDeployment "cl_Deployments ?c" ?ns "''create deployment failure''"])
         (use k that in \<open>auto simp: start_objects_def Let_def\<close>)
    moreover note start_present_service[OF assms(1) d]
    ultimately have "has_objects V app (rt_cluster rt1)" unfolding has_objects_def by blast
    then show ?thesis using wait start_steps_grown[OF assms(1) d] by blast
  qed
qed

lemma mem_start:
  "startOne mem_env mem_app mem_rt =
     Some (Some ErrWaitTimeOut, mem_rt\<lparr>rt_cluster := rt_cluster mem_rt @ [((ConfigMaps, ''t'', ''cm''), KConfigMap (zero_obj\<lparr>ko_Name := ''cm''\<rparr>)),
       ((Deployments, ''t'', ''d''), KDeployment (zero_Workload\<lparr>ko_Name := ''d'', wl_Replicas := Some 1\<rparr>)), ((Services, ''t'', ''svc''), KService wk_service),
       ((Secrets, ''t'', ''old''), KSecret (zero_Secret\<lparr>ko_Name := ''old'', ko_Namespace := ''t''\<rparr>)),
       ((Ingresses, ''t'', ''ing''), KIngress (zero_Ingress\<lparr>ko_Name := ''ing'', ko_Namespace := ''t''\<rparr>))],
       rt_log := [LogInfo (LoggerOption ''running''), LogInfo (LoggerOption ''running''), LogInfo (LoggerOption ''running'')]\<rparr>)"
  by code_simp

theorem start_creates_objects_witness:
  "kube_api mem_view (ce_client mem_env) \<and> fst (the (startOne mem_env mem_app mem_rt)) = Some ErrWaitTimeOut \<and>
   (\<exists>w. mem_view w Services ''t'' ''svc'' \<noteq> None \<and> mem_view w Deployments ''t'' ''d'' \<noteq> None \<and>
      mem_view w Secrets ''t'' ''env'' = Some (KSecret (zero_Secret\<lparr>ko_Name := ''env''\<rparr>)))"
proof -
  have api: "kube_api mem_view (ce_client mem_env)" by (simp add: mem_client mem_clients_api)
  obtain rt1 :: "mem runtime" where r: "has_objects mem_view mem_app (rt_cluster rt1)" "grown mem_view (start_keys mem_app) (rt_cluster mem_rt) (rt_cluster rt1)"
    using start_creates_objects[OF api mem_start] by auto
  have "mem_view (rt_cluster rt1) Services ''t'' ''svc'' \<noteq> None" "mem_view (rt_cluster rt1) Deployments ''t'' ''d'' \<noteq> None"
    using r(1) by (auto simp: has_objects_def mem_app_fields)
  moreover have "mem_view (rt_cluster rt1) Secrets ''t'' ''env'' = Some (KSecret (zero_Secret\<lparr>ko_Name := ''env''\<rparr>))"
    using grown_kept[OF r(2), of Secrets "''t''" "''env''"] by (simp add: mem_app_fields)
  ultimately show ?thesis using api by (auto simp: mem_start)
qed

section \<open>Stopping\<close>

definition has_no_objects :: "'w view \<Rightarrow> AppService \<Rightarrow> 'w \<Rightarrow> bool" where
  "has_no_objects V app w \<longleftrightarrow>
     (\<forall>x \<in> set (as_services app). ko_Name x \<noteq> [] \<longrightarrow> V w Services (as_TenantID app) (ko_Name x) = None) \<and>
     (\<forall>x \<in> set (as_secrets app). ko_Name x \<noteq> [] \<longrightarrow> V w Secrets (as_TenantID app) (ko_Name x) = None) \<and>
     (\<forall>x \<in> set (as_ingresses app). ko_Name x \<noteq> [] \<longrightarrow> V w Ingresses (as_TenantID app) (ko_Name x) = None) \<and>
     (\<forall>x \<in> set (as_configMaps app). ko_Name x \<noteq> [] \<longrightarrow> V w ConfigMaps (as_TenantID app) (ko_Name x) = None) \<and>
     (\<forall>x \<in> set (as_pods app). ko_Name x \<noteq> [] \<longrightarrow> V w Pods (as_TenantID app) (ko_Name x) = None) \<and>
     (\<forall>x \<in> set (as_hpas app). V w HorizontalPodAutoscalers (ko_Namespace x) (ko_Name x) = None) \<and>
     (\<forall>x. as_statefulset app = Some x \<longrightarrow> V w StatefulSets (as_TenantID app) (ko_Name x) = None) \<and>
     (\<forall>x. as_deployment app = Some x \<longrightarrow> ko_Name x \<noteq> [] \<longrightarrow> V w Deployments (as_TenantID app) (ko_Name x) = None)"

text \<open>
  C5: \<open>stopOne\<close> only deletes, and only services, secrets, ingresses, config maps, pods, autoscalers, service monitors
  and the workload of the component: every other object stays as it is, among them the component's claims and its
  secrets for environment variables. It either ends with a request that failed, or it reaches the point where
  it waits for the component to close; at that point the cluster has none of the component's services,
  secrets, ingresses, config maps, pods and autoscalers that have a name, and not its workload. Service monitors may
  remain, since their errors are ignored.
\<close>

theorem stop_removes_objects:
  assumes "kube_api V (ce_client env)" "stopOne env waiting app rt = Some (err, rt')"
  shows "\<exists>rt1. gone_only V (stop_keys app) (rt_cluster rt) (rt_cluster rt1) \<and>
    ((\<exists>msg r. err = Some (Failed msg r) \<and> rt' = rt1) \<or>
     stopOne env waiting app rt = stop_WaitingReady env waiting app (log_to (LogInfo (LoggerOption ''running'')) rt1) \<and>
       has_no_objects V app (rt_cluster rt1))"
proof -
  let ?c = "ce_client env" and ?ns = "as_TenantID app"
  obtain e rt1 where d: "do_steps (stop_objects env app) rt = Some (e, rt1)"
    using assms(2) by (auto simp: stopOne_def do_steps_append split: option.splits)
  show ?thesis
  proof (cases e)
    case (Some e1)
    then have "err = Some e1" "rt' = rt1" using assms(2) d by (simp_all add: stopOne_def do_steps_append)
    then show ?thesis using stop_objects_failed d Some stop_steps_gone[OF assms(1) d] by blast
  next
    case None
    note d = d[unfolded None] and k = assms(1)[unfolded kube_api_def]
    note each = stop_absent_each[OF assms(1) d]
    have wait: "stopOne env waiting app rt = stop_WaitingReady env waiting app (log_to (LogInfo (LoggerOption ''running'')) rt1)"
      by (auto simp: stopOne_def do_steps_append d split: option.splits prod.splits)
    have "V (rt_cluster rt1) Services ?ns (ko_Name x) = None" if "x \<in> set (as_services app)" "ko_Name x \<noteq> []" for x
      by (rule each[of Services KService "cl_Services ?c" "\<lambda>_. ?ns" "''delete service failure''" "with_name (as_services app)"])
         (use k that in \<open>auto simp: stop_objects_def Let_def with_name_def\<close>)
    moreover have "V (rt_cluster rt1) Secrets ?ns (ko_Name x) = None" if "x \<in> set (as_secrets app)" "ko_Name x \<noteq> []" for x
      by (rule each[of Secrets KSecret "cl_Secrets ?c" "\<lambda>_. ?ns" "''delete secret failure''" "with_name (as_secrets app)"])
         (use k that in \<open>auto simp: stop_objects_def Let_def with_name_def\<close>)
    moreover have "V (rt_cluster rt1) Ingresses ?ns (ko_Name x) = None" if "x \<in> set (as_ingresses app)" "ko_Name x \<noteq> []" for x
      by (rule each[of Ingresses KIngress "cl_Ingresses ?c" "\<lambda>_. ?ns" "''delete ingress failure''" "with_name (as_ingresses app)"])
         (use k that in \<open>auto simp: stop_objects_def Let_def with_name_def\<close>)
    moreover have "V (rt_cluster rt1) ConfigMaps ?ns (ko_Name x) = None" if "x \<in> set (as_configMaps app)" "ko_Name x \<noteq> []" for x
      by (rule each[of ConfigMaps KConfigMap "cl_ConfigMaps ?c" "\<lambda>_. ?ns" "''delete config map failure''" "with_name (as_configMaps app)"])
         (use k that in \<open>auto simp: stop_objects_def Let_def with_name_def\<close>)
    moreover have "V (rt_cluster rt1) Pods ?ns (ko_Name x) = None" if "x \<in> set (as_pods app)" "ko_Name x \<noteq> []" for x
      by (rule each[of Pods KPod "cl_Pods ?c" "\<lambda>_. ?ns" "''delete pod failure''" "with_name (as_pods app)"])
         (use k that in \<open>auto simp: stop_objects_def Let_def with_name_def\<close>)
    moreover have "V (rt_cluster rt1) HorizontalPodAutoscalers (ko_Namespace x) (ko_Name x) = None" if "x \<in> set (as_hpas app)" for x
      by (rule each[of HorizontalPodAutoscalers KHPA "cl_HPAs ?c" ko_Namespace "''delete hpa''" "as_hpas app"])
         (use k that in \<open>auto simp: stop_objects_def Let_def\<close>)
    moreover note stop_absent_workload[OF assms(1) d]
    ultimately have "has_no_objects V app (rt_cluster rt1)" unfolding has_no_objects_def by blast
    then show ?thesis using wait stop_steps_gone[OF assms(1) d] by blast
  qed
qed

definition mem_rt2 :: "mem runtime" where
  "mem_rt2 = mem_rt\<lparr>rt_cluster := rt_cluster mem_rt @ [((Services, ''t'', ''svc''), KService wk_service)]\<rparr>"

lemma mem_stop:
  "stopOne mem_env 0 mem_app mem_rt2 = Some (None, mem_rt\<lparr>rt_log := [LogInfo (LoggerOption ''running''), LogInfo (LoggerOption ''running'')]\<rparr>)"
  by code_simp

theorem stop_removes_objects_witness:
  "kube_api mem_view (ce_client mem_env) \<and> mem_view (rt_cluster mem_rt2) Services ''t'' ''svc'' \<noteq> None \<and>
   (\<exists>w. mem_view w Services ''t'' ''svc'' = None \<and>
      mem_view w Secrets ''t'' ''env'' = Some (KSecret (zero_Secret\<lparr>ko_Name := ''env''\<rparr>)))"
proof -
  have api: "kube_api mem_view (ce_client mem_env)" by (simp add: mem_client mem_clients_api)
  obtain rt1 :: "mem runtime" where r: "has_no_objects mem_view mem_app (rt_cluster rt1)" "gone_only mem_view (stop_keys mem_app) (rt_cluster mem_rt2) (rt_cluster rt1)"
    using stop_removes_objects[OF api mem_stop] by auto
  have "(Secrets, ''t'', ''env'') \<notin> stop_keys mem_app"
    by (auto simp: stop_keys_def keys_in_def mem_app_def zero_AppService_def)
  from gone_only_other[OF r(2) this]
  have "mem_view (rt_cluster rt1) Secrets ''t'' ''env'' = Some (KSecret (zero_Secret\<lparr>ko_Name := ''env''\<rparr>))"
    by (simp add: mem_rt2_def mem_rt_def mem_view_def)
  moreover have "mem_view (rt_cluster rt1) Services ''t'' ''svc'' = None" using r(1) by (auto simp: has_no_objects_def mem_app_fields)
  moreover have "mem_view (rt_cluster mem_rt2) Services ''t'' ''svc'' \<noteq> None" by (simp add: mem_rt2_def mem_rt_def mem_view_def)
  ultimately show ?thesis using api by blast
qed


section \<open>Upgrading the rules\<close>

lemma upgrade_new_keeps:
  assumes "\<And>n x a. f (upd n x a) = f a" "\<And>x a. f (crt x a) = f a"
  shows "upgrade_new kc upd crt h new m a w = (e, m', a', w') \<Longrightarrow> f a' = f a"
proof (induction new arbitrary: m a w)
  case (Cons n new)
  then show ?case by (auto simp: assms split: option.splits prod.splits)
qed simp

lemma UpgradeSecrets_keeps_ingresses:
  assumes "UpgradeSecrets rng c h old new a w = (e, a', w')"
  shows "as_ingresses a' = as_ingresses a"
proof -
  obtain e1 m1 a1 w1 where u: "upgrade_new (cl_Secrets c) (\<lambda>n x. SetSecret (Some x)) (\<lambda>x. SetSecret (Some x)) h new (name_map old) a w = (e1, m1, a1, w1)"
    by (metis surj_pair)
  have "as_ingresses a1 = as_ingresses a" by (rule upgrade_new_keeps[OF _ _ u]) (simp_all add: SetSecret_def)
  then show ?thesis using assms u by (auto simp: UpgradeSecrets_def upgrade_collection_def split: option.splits prod.splits)
qed

lemma keys_in_other: "k' \<noteq> k \<Longrightarrow> (k', ns, n) \<notin> keys_in k f xs"
  by (auto simp: keys_in_def)


definition mem_new :: AppService where
  "mem_new = mem_app\<lparr>as_secrets := [zero_Secret\<lparr>ko_Name := ''new'', ko_Namespace := ''t''\<rparr>],
     as_ingresses := [zero_Ingress\<lparr>ko_Name := ''ing'', ko_Namespace := ''t'', ko_Labels := [(''a'', ''b'')]\<rparr>]\<rparr>"

definition mem_rules :: mem where
  "mem_rules = [((Secrets, ''t'', ''old''), KSecret (zero_Secret\<lparr>ko_Name := ''old'', ko_Namespace := ''t''\<rparr>)),
     ((Ingresses, ''t'', ''ing''), KIngress (zero_Ingress\<lparr>ko_Name := ''ing'', ko_Namespace := ''t''\<rparr>))]"

lemma mem_ranges: "is_range (ce_secrets mem_env)" "is_range (ce_ingresses mem_env)"
  by (simp_all add: mem_env_def is_range_def)

lemma mem_named:
  "named_in ''t'' (as_secrets mem_app)" "named_in ''t'' (as_secrets mem_new)"
  "named_in ''t'' (as_ingresses mem_app)" "named_in ''t'' (as_ingresses mem_new)"
  by (simp_all add: named_in_def mem_app_def mem_new_def)

lemma mem_cached: "GetAppService (as_ServiceID mem_new) (rt_store mem_rt) = Some mem_app"
  by code_simp

lemma mem_deleted: "delete_asked k mem_view (mem_kind k wrap unwrap zero) ns n w \<Longrightarrow> mem_view w k ns n = None"
  by (auto simp: delete_asked_def mem_kind_def split: option.splits)


text \<open>An ingress whose cached version is out of date does not survive an upgrade: the update is refused as a conflict,
  the object stays in the map of old objects, and the clean-up at the end deletes it, without an error.\<close>

lemma stale_ingress_deleted:
  "case UpgradeIngress id mem_clients (\<lambda>_. None :: run_error option)
      [zero_Ingress\<lparr>ko_Name := ''ing'', ko_Namespace := ''t'', ko_ResourceVersion := ''1''\<rparr>] (as_ingresses mem_new) mem_app
      [((Ingresses, ''t'', ''ing''), KIngress (zero_Ingress\<lparr>ko_Name := ''ing'', ko_Namespace := ''t'', ko_ResourceVersion := ''2''\<rparr>))] of
      (e, _, w') \<Rightarrow> w' = [] \<and> e = None"
  by code_simp

section \<open>Events, timeouts and patches\<close>

text \<open>
  C22: a controller that starts, stops, restarts, upgrades or scales a component closes the event exactly once, with
  success, failure or a timeout, on every path.
\<close>

theorem event_closed_once:
  assumes "worker env t app rt = Some rt'"
    "t \<in> {TypeStartController, TypeStopController, TypeRestartController, TypeUpgradeController, TypeScalingController}"
  shows "length (filter closing (rt_log rt')) = length (filter closing (rt_log rt)) + 1"
  using worker_closings[OF assms] by (simp add: closings_def)

lemma mem_worker:
  "worker mem_env TypeStopController mem_app mem_rt2 =
     Some (mem_rt\<lparr>rt_log := [LogInfo (LoggerOption ''starting''), LogInfo (LoggerOption ''running''), LogInfo (LoggerOption ''running''), LogInfo LastLoggerOption]\<rparr>)"
  by code_simp

theorem event_closed_once_witness:
  "\<exists>rt'. worker mem_env TypeStopController mem_app mem_rt2 = Some rt' \<and> length (filter closing (rt_log rt')) = 1"
  using event_closed_once[OF mem_worker] mem_worker by (simp add: mem_rt2_def mem_rt_def)

lemma to_int32_small: "to_int32 x < seconds 40"
proof -
  have "to_int32 x < 2 ^ 31" by (simp add: to_int32_def)
  then show ?thesis by (simp add: seconds_def)
qed

text \<open>
  Starting and scaling wait forty seconds, whatever the probes ask for and however many instances there are: the
  number computed from them counts nanoseconds and is below the minimum, whatever it is.
\<close>

theorem waits_forty_seconds:
  "start_timeout app = seconds 40 \<and> (\<forall>t. scaling_timeout app stored = Some t \<longrightarrow> t = seconds 40)"
  by (auto simp: start_timeout_def scaling_timeout_def Let_def to_int32_small split: option.splits list.splits)

theorem waits_forty_seconds_witness:
  "start_timeout (mem_app\<lparr>as_Replicas := 10\<rparr>) = 40000000000 \<and> scaling_timeout zero_AppService (Some (mem_app\<lparr>as_Replicas := 10\<rparr>)) = Some 40000000000"
proof -
  have "scaling_timeout zero_AppService (Some (mem_app\<lparr>as_Replicas := 10\<rparr>)) \<noteq> None" by code_simp
  then obtain t where "scaling_timeout zero_AppService (Some (mem_app\<lparr>as_Replicas := 10\<rparr>)) = Some t" by blast
  then show ?thesis using waits_forty_seconds[of "mem_app\<lparr>as_Replicas := 10\<rparr>"] waits_forty_seconds[of zero_AppService] by (simp add: seconds_def)
qed

definition json_object :: "json \<Rightarrow> bool" where
  "json_object j \<longleftrightarrow> (case j of JObj _ \<Rightarrow> wf_json j | JRaw _ \<Rightarrow> False)"

lemma patch_text: "json_object new \<Longrightarrow> getchange rng old new = Some j \<Longrightarrow> json_text j \<noteq> []"
  by (auto simp: json_object_def getchange_def json_null_def split: json.splits option.splits if_splits)

text \<open>
  C7: the patch of a deployment does what an upgrade means. Unless the new version has, somewhere, an empty object
  or a plain value where the old version has an object that differs (an error of the encoder), the component gets a
  patch; the patch is \<open>null\<close> when the two versions have the same text, and otherwise merging it into the old
  version (RFC 7386) gives the values of the new version everywhere, save at places that the new version does
  not mention, which keep their old values. That there is nothing to upgrade is never reported.
\<close>

theorem deployment_patch:
  assumes "as_deployment a = Some o1" "as_deployment new = Some n" "as_statefulset a = None" "\<forall>w. json_object (encode w)"
    "n1 = keep_boot_sequence (as_BootSeqContainer new) o1 n" "o2 = o1\<lparr>wl_ReadyReplicas := wl_ReadyReplicas n1\<rparr>"
    "SetUpgradePatch rng encode a new = (err, a', new')" "is_range rng"
  shows "(err = (if unpatchable (Some (encode o2)) (encode n1) then Some MarshalError else None)) \<and>
    (err = None \<longrightarrow> (\<exists>j. map_of (as_UpgradePatch new') ''deployment'' = Some (json_text j) \<and>
       (if encode o2 = encode n1 then j = json_null
        else \<forall>p. value_at (merge_patch (encode o2) j) p = (if leaves_open (encode n1) p then value_at (encode o2) p else value_at (encode n1) p))))"
proof -
  let ?p = "getchange rng (encode o2) (encode n1)"
  have n1: "wf_json (encode n1)" using assms(4) unfolding json_object_def by (metis (no_types, lifting) json.case json.exhaust)
  have st: "patch_statefulset rng encode a new = (None, a, new)" by (simp add: patch_statefulset_def assms(3))
  have cfg: "getDeploymentModifiedConfiguration rng encode o1 n1 = (?p, o2)" by (simp add: getDeploymentModifiedConfiguration_def assms(6) Let_def)
  show ?thesis
  proof (cases ?p)
    case None
    then show ?thesis using assms(7) cfg getchange_error[of rng "encode o2" "encode n1"]
      by (auto simp: SetUpgradePatch_def st patch_deployment_def set_patch_def assms(1,2) assms(5)[symmetric])
  next
    case (Some j)
    then have "json_text j \<noteq> []" using patch_text assms(4) by blast
    then have r: "err = None" "map_of (as_UpgradePatch new') ''deployment'' = Some (json_text j)"
      using assms(7) cfg Some
      by (simp_all add: SetUpgradePatch_def st patch_deployment_def set_patch_def assms(1,2) assms(5)[symmetric] split: if_splits) auto
    have "\<not> unpatchable (Some (encode o2)) (encode n1)" using getchange_error[of rng "encode o2" "encode n1"] Some by simp
    moreover have "if encode o2 = encode n1 then j = json_null
        else \<forall>p. value_at (merge_patch (encode o2) j) p = (if leaves_open (encode n1) p then value_at (encode o2) p else value_at (encode n1) p)"
      using getchange_value[OF assms(8) n1 Some] Some by (auto simp: getchange_same)
    ultimately show ?thesis using r(1) by (intro conjI impI exI[of _ j] r(2)) simp_all
  qed
qed


definition mem_encode :: "Workload \<Rightarrow> json" where
  "mem_encode w = JObj [(''replicas'', JRaw (if wl_Replicas w = Some 1 then ''1'' else ''2''))]"

theorem deployment_patch_witness:
  "case SetUpgradePatch rev mem_encode mem_app (mem_app\<lparr>as_deployment := Some (zero_Workload\<lparr>wl_Replicas := Some 2\<rparr>)\<rparr>) of
     (err, _, new') \<Rightarrow> err = None \<and> (\<exists>j. map_of (as_UpgradePatch new') ''deployment'' = Some (json_text j) \<and>
       value_at (merge_patch (mem_encode (the (as_deployment mem_app))) j) [''replicas''] = Some ''2'')"
proof -
  let ?new = "mem_app\<lparr>as_deployment := Some (zero_Workload\<lparr>wl_Replicas := Some 2\<rparr>)\<rparr>"
  let ?o = "the (as_deployment mem_app)" and ?n = "zero_Workload\<lparr>wl_Replicas := Some 2\<rparr>"
  let ?n1 = "keep_boot_sequence (as_BootSeqContainer ?new) ?o ?n"
  obtain err a' new' where u: "SetUpgradePatch rev mem_encode mem_app ?new = (err, a', new')" by (metis surj_pair)
  have e: "mem_encode ?n1 = JObj [(''replicas'', JRaw ''2'')]" "mem_encode ?o = JObj [(''replicas'', JRaw ''1'')]"
    "mem_encode (?o\<lparr>wl_ReadyReplicas := r\<rparr>) = mem_encode ?o" for r
    by (simp_all add: mem_encode_def keep_boot_sequence_def mem_app_def zero_Workload_def split: option.splits)
  have obj: "\<forall>w. json_object (mem_encode w)" by (simp add: json_object_def mem_encode_def)
  have pre: "as_deployment mem_app = Some ?o" "as_deployment ?new = Some ?n" "as_statefulset mem_app = None"
    by (simp_all add: mem_app_def zero_AppService_def)
  have rng: "is_range (rev :: field_order)" by (simp add: is_range_def)
  note d = deployment_patch[OF pre obj refl refl u rng, unfolded e]
  then have "err = None" by (simp add: json_fields_def)
  with d obtain j where "map_of (as_UpgradePatch new') ''deployment'' = Some (json_text j)"
    "\<forall>p. value_at (merge_patch (JObj [(''replicas'', JRaw ''1'')]) j) p =
       (if leaves_open (JObj [(''replicas'', JRaw ''2'')]) p then value_at (JObj [(''replicas'', JRaw ''1'')]) p else value_at (JObj [(''replicas'', JRaw ''2'')]) p)"
    by auto
  then show ?thesis using \<open>err = None\<close> by (simp add: u e(2)) (rule exI[of _ j], simp)
qed

section \<open>Tasks\<close>

text \<open>
  C24: the worker never has more than one controller above its limit, and it refuses tasks exactly when it has that
  one more: a limit of \<open>n\<close> lets \<open>n + 1\<close> controllers run.
\<close>

theorem controllers_bounded:
  assumes "tasks_run env s" "0 \<le> te_MaxTasks env"
  shows "GetControllerSize (tk_manager s) \<le> te_MaxTasks env + 1 \<and>
    (checkCount env s \<longleftrightarrow> GetControllerSize (tk_manager s) = te_MaxTasks env + 1)"
  using tasks_run_bound[OF assms] by (auto simp: checkCount_def)

definition mem_tenv :: "mem task_env" where
  "mem_tenv = \<lparr>te_ctl = mem_env, te_MaxTasks = 0, te_StoreReady = True, te_uuid = (\<lambda>_. ''u''), te_now = 0, te_encode = mem_encode, te_fields = id,
     te_HasOpenPort = (\<lambda>_. False), te_DelByTenantID = (\<lambda>_. None), te_UpdateTenant = (\<lambda>_. True)\<rparr>"

definition mem_tasks :: "mem tasks" where
  "mem_tasks = \<lparr>tk_manager = NewManager, tk_store = rt_store mem_rt, tk_cluster = [], tk_log = [], tk_records = [], tk_startCh = [], tk_removed = [],
     tk_failedTenants = []\<rparr>"

definition mem_stop_task :: Task where
  "mem_stop_task = \<lparr>tsk_Type = ''stop'', tsk_Body = ByValue (StopTaskBody ''sid'' ''e'' [])\<rparr>"

lemma mem_analyst:
  "AnalystToExec mem_tenv (Some mem_stop_task) mem_tasks =
     Some (None, mem_tasks\<lparr>tk_manager := \<lparr>mg_controllers = [(''u'', TypeStopController, [mem_app])], mg_begun = [''u'']\<rparr>\<rparr>)"
  by code_simp

theorem controllers_bounded_witness:
  "\<exists>s. tasks_run mem_tenv s \<and> te_MaxTasks mem_tenv = 0 \<and> GetControllerSize (tk_manager s) = 1 \<and> checkCount mem_tenv s"
proof -
  have "tasks_run mem_tenv mem_tasks" by (rule worker_start) (simp add: mem_tasks_def)
  then have r: "tasks_run mem_tenv (mem_tasks\<lparr>tk_manager := \<lparr>mg_controllers = [(''u'', TypeStopController, [mem_app])], mg_begun = [''u'']\<rparr>\<rparr>)"
    using mem_analyst by (rule worker_task)
  have "te_MaxTasks mem_tenv = 0" by (simp add: mem_tenv_def)
  then have "GetControllerSize (tk_manager (mem_tasks\<lparr>tk_manager := \<lparr>mg_controllers = [(''u'', TypeStopController, [mem_app])], mg_begun = [''u'']\<rparr>\<rparr>)) = 1 \<and>
      checkCount mem_tenv (mem_tasks\<lparr>tk_manager := \<lparr>mg_controllers = [(''u'', TypeStopController, [mem_app])], mg_begun = [''u'']\<rparr>\<rparr>)"
    using controllers_bounded[OF r] by (simp add: GetControllerSize_def)
  then show ?thesis using r \<open>te_MaxTasks mem_tenv = 0\<close> by blast
qed

text \<open>The executors never answer that a task should be tried again.\<close>

definition final :: "'w task_result \<Rightarrow> bool" where
  "final r \<longleftrightarrow> (\<forall>e s. r = Some (e, s) \<longrightarrow> e \<noteq> Some ErrCallback)"

lemma final_simps [simp]: "final None" "final (Some (e, s)) \<longleftrightarrow> e \<noteq> Some ErrCallback"
  by (simp_all add: final_def)

lemma run_controller_final [simp]: "final (run_controller env t app msg failure s)"
  by (auto simp: final_def run_controller_def split: option.splits prod.splits if_splits)

lemma third_party_ports_final [simp]: "final (third_party_ports env svc sid action port isInner cached app s)"
  by (auto simp: final_def third_party_ports_def InitOneThirdPartService_def Let_def split: if_splits option.splits prod.splits sum.splits)

lemma exec_final:
  "final (startExec env body s)" "final (stopExec env body s)" "final (restartExec env body s)" "final (verticalScalingExec env body s)"
  "final (applyPluginConfig env body s)" "final (ExecRefreshHPATask env body s)" "final (ExecServiceGCTask env body s)"
  "final (deleteTenant env body s)" "final (rollingUpgradeExec env body s)"
  by (auto simp: startExec_def stopExec_def restartExec_def stop_with_def verticalScalingExec_def applyPluginConfig_def ExecRefreshHPATask_def
             ExecServiceGCTask_def deleteTenant_def delete_failed_def rollingUpgradeExec_def Let_def
           split: TaskBody.split task_body.split option.split sum.split prod.split patch_error.split)

lemma run_controller_answer: "run_controller env t app msg failure s = Some (e, s') \<Longrightarrow> e \<noteq> Some ErrCallback"
  using run_controller_final unfolding final_def by blast

lemma horizontalScalingExec_final: "final (horizontalScalingExec env body s)"
  by (auto simp: horizontalScalingExec_def Let_def dest: run_controller_answer
           split: TaskBody.split task_body.split option.split sum.split)

lemma applyRuleExec_final: "final (applyRuleExec env body s)"
proof -
  have "final (case run_controller env t app msg failure s of
      None \<Rightarrow> None | Some (Some err, s) \<Rightarrow> Some (Some err, s)
    | Some (None, s) \<Rightarrow> if b then third_party_ports env svc sid action port isInner cached app s else Some (None, s))"
    for t app msg failure b svc sid action port isInner cached
    by (auto dest: run_controller_answer split: option.split)
  then show ?thesis
    by (auto simp: applyRuleExec_def Let_def split: TaskBody.split task_body.split option.split sum.split simp del: if_split)
qed

text \<open>
  C23: what becomes of a message that the worker takes from the queue. When the worker has too many controllers
  or its store is not ready, the message goes back to the end of the queue with nothing else changed, or, when the
  queue refuses it, it is dropped and counted nowhere. In all other cases it is executed and counted once, as done
  exactly when its executor reports no error and as failed otherwise, and it does not go back.
\<close>

theorem tasks_accounted:
  assumes "Do_turn env d enqueued data l = Some l'"
  shows "if checkCount env (tl_tasks l) \<or> \<not> te_StoreReady env
    then l' = (if enqueued then l\<lparr>tl_queue := tl_queue l @ [data]\<rparr> else l)
    else tl_queue l' = tl_queue l \<and> tl_TaskNum l' + tl_TaskError l' = tl_TaskNum l + tl_TaskError l + 1 \<and>
      (\<exists>e. exec_task env (msg_TaskType data) (NewTaskBody d (msg_TaskType data) (msg_TaskBody data)) (tl_tasks l) = Some (e, tl_tasks l') \<and>
         (tl_TaskNum l' = tl_TaskNum l + 1 \<longleftrightarrow> e = None))"
proof -
  have "final (exec_task env (msg_TaskType data) (NewTaskBody d (msg_TaskType data) (msg_TaskBody data)) (tl_tasks l))"
    by (auto simp: exec_task_def exec_final horizontalScalingExec_final applyRuleExec_final)
  then show ?thesis using assms
    by (auto simp: Do_turn_def AnalystToExec_def TransTask_def final_def Let_def split: option.splits if_splits)
qed

definition mem_decoder :: body_decoder where
  "mem_decoder = \<lparr>dec_Start = (\<lambda>_. None), dec_Stop = (\<lambda>_. Some (''sid'', ''e'', [])), dec_Restart = (\<lambda>_. None), dec_RollingUpgrade = (\<lambda>_. None),
     dec_HorizontalScaling = (\<lambda>_. None), dec_VerticalScaling = (\<lambda>_. None), dec_ApplyRule = (\<lambda>_. None), dec_ApplyPluginConfig = (\<lambda>_. None),
     dec_ServiceGC = (\<lambda>_. None), dec_DeleteTenant = (\<lambda>_. None), dec_RefreshHPA = (\<lambda>_. None), dec_Other = (\<lambda>_. False)\<rparr>"

definition mem_loop :: "mem task_loop" where
  "mem_loop = \<lparr>tl_tasks = mem_tasks, tl_queue = [], tl_TaskNum = 0, tl_TaskError = 0\<rparr>"

definition mem_msg :: TaskMessage where
  "mem_msg = \<lparr>msg_TaskType = ''stop'', msg_TaskBody = []\<rparr>"

lemma mem_turn:
  "Do_turn mem_tenv mem_decoder True mem_msg mem_loop =
     Some (mem_loop\<lparr>tl_tasks := mem_tasks\<lparr>tk_manager := \<lparr>mg_controllers = [(''u'', TypeStopController, [mem_app])], mg_begun = [''u'']\<rparr>\<rparr>, tl_TaskNum := 1\<rparr>)"
  "\<not> checkCount mem_tenv mem_tasks" "te_StoreReady mem_tenv"
  by code_simp+

theorem tasks_accounted_witness:
  "\<exists>l'. Do_turn mem_tenv mem_decoder True mem_msg mem_loop = Some l' \<and> tl_queue l' = [] \<and> tl_TaskNum l' + tl_TaskError l' = 1"
  using tasks_accounted[OF mem_turn(1)] mem_turn by (simp add: mem_loop_def)

text \<open>An executor takes all bodies of its structure and refuses a missing one.\<close>

definition takes :: "('b \<Rightarrow> TaskBody) \<Rightarrow> (TaskBody \<Rightarrow> 'w tasks \<Rightarrow> 'w task_result) \<Rightarrow> bool" where
  "takes shape exec \<longleftrightarrow> (\<forall>b s s'. exec (shape b) s \<noteq> Some (Some ErrBody, s')) \<and>
     (\<forall>s. exec NilBody s = Some (Some ErrBody, s))"

lemma run_controller_body [simp]: "run_controller env t app msg failure s \<noteq> Some (Some ErrBody, s')"
  by (auto simp: run_controller_def split: option.splits prod.splits if_splits)

lemma takesI:
  assumes "\<And>b s s'. exec (shape b) s \<noteq> Some (Some ErrBody, s')"
    "\<And>s. exec NilBody s = Some (Some ErrBody, s)"
  shows "takes shape exec"
  using assms unfolding takes_def by blast

lemma takes_bodies:
  "takes (\<lambda>(a, b, c). ByValue (StartTaskBody a b c)) (startExec env)"
  "takes (\<lambda>(a, b, c). ByValue (StopTaskBody a b c)) (stopExec env)"
  "takes (\<lambda>(a, b, c). ByValue (RestartTaskBody a b c)) (restartExec env)"
  "takes (\<lambda>(a, b, c). ByValue (ServiceGCTaskBody a b c)) (ExecServiceGCTask env)"
  "takes (\<lambda>a. ByPointer (DeleteTenantTaskBody a)) (deleteTenant env)"
  "takes (\<lambda>(a, b). ByPointer (RefreshHPATaskBody a b)) (ExecRefreshHPATask env)"
  "takes (\<lambda>(a, b). ByPointer (ApplyPluginConfigTaskBody a b)) (applyPluginConfig env)"
  by (auto intro!: takesI
           simp: startExec_def stopExec_def restartExec_def stop_with_def ExecServiceGCTask_def deleteTenant_def delete_failed_def
             ExecRefreshHPATask_def applyPluginConfig_def Let_def
           split: TaskBody.splits task_body.splits option.splits sum.splits prod.splits if_splits)

lemma takes_upgrades:
  "takes (\<lambda>(a, b, c). ByValue (RollingUpgradeTaskBody a b c)) (rollingUpgradeExec env)"
  "takes (\<lambda>(a, b). ByValue (VerticalScalingTaskBody a b)) (verticalScalingExec env)"
  "takes (\<lambda>(a, b, c). ByValue (HorizontalScalingTaskBody a b c)) (horizontalScalingExec env)"
  by (auto intro!: takesI simp: rollingUpgradeExec_def verticalScalingExec_def horizontalScalingExec_def Let_def
           split: TaskBody.splits task_body.splits option.splits sum.splits prod.splits if_splits patch_error.splits)

lemma third_party_ports_body [simp]:
  "third_party_ports env svc sid action port isInner cached app s \<noteq> Some (Some ErrBody, s')"
  by (auto simp: third_party_ports_def InitOneThirdPartService_def Let_def split: if_splits option.splits prod.splits sum.splits)

lemma takes_rules: "takes (\<lambda>(a, b, c, d, e, f). ByPointer (ApplyRuleTaskBody a b c d e f)) (applyRuleExec env)"
proof (rule takesI)
  have run: "(case run_controller env t app msg failure s of
      None \<Rightarrow> None | Some (Some err, s) \<Rightarrow> Some (Some err, s)
    | Some (None, s) \<Rightarrow> if b then third_party_ports env svc sid action port isInner cached app s else Some (None, s)) \<noteq> Some (Some ErrBody, s')"
    for t app msg failure b svc sid action port isInner cached s s'
    by (auto split: option.splits)
  show "applyRuleExec env (case b of (a, b, c, d, e, f) \<Rightarrow> ByPointer (ApplyRuleTaskBody a b c d e f)) s \<noteq> Some (Some ErrBody, s')" for b s s'
    using run by (cases b) (simp add: applyRuleExec_def Let_def del: if_split split: option.split sum.split)
  show "applyRuleExec env NilBody s = Some (Some ErrBody, s)" for s
    by (simp add: applyRuleExec_def)
qed

lemma takes_decoded:
  assumes "takes shape exec"
  shows "exec (body_or_nil shape r) s = Some (Some ErrBody, s') \<longleftrightarrow> r = None \<and> s' = s"
  using assms by (cases r) (auto simp: takes_def body_or_nil_def)

lemmas takes_all = takes_bodies takes_upgrades takes_rules

text \<open>A message for an executor that is not the text of the structure the executor works on.\<close>

definition unreadable :: "body_decoder \<Rightarrow> TaskMessage \<Rightarrow> bool" where
  "unreadable d m \<longleftrightarrow>
     (let b = msg_TaskBody m in
      (msg_TaskType m, True) \<in> set
        [(''start'', dec_Start d b = None), (''stop'', dec_Stop d b = None), (''restart'', dec_Restart d b = None),
         (''horizontal_scaling'', dec_HorizontalScaling d b = None), (''vertical_scaling'', dec_VerticalScaling d b = None),
         (''rolling_upgrade'', dec_RollingUpgrade d b = None), (''apply_rule'', dec_ApplyRule d b = None),
         (''apply_plugin_config'', dec_ApplyPluginConfig d b = None), (''service_gc'', dec_ServiceGC d b = None),
         (''delete_tenant'', dec_DeleteTenant d b = None), (''refreshhpa'', dec_RefreshHPA d b = None)])"

text \<open>
  C25: the structures that messages are decoded to are those the executors expect, by value or by pointer. When
  the worker takes tasks, a task is refused for the type of its body exactly when its type has an executor and its
  text is not that of the structure of this type; the refusal changes nothing.
\<close>

theorem bodies_match_types:
  "AnalystToExec env (Some (TransTask d m)) s = Some (Some ErrBody, s') \<longleftrightarrow>
   \<not> checkCount env s \<and> te_StoreReady env \<and> unreadable d m \<and> s' = s"
proof -
  let ?t = "msg_TaskType m" and ?b = "NewTaskBody d (msg_TaskType m) (msg_TaskBody m)"
  have "exec_task env ?t ?b s = Some (Some ErrBody, s') \<longleftrightarrow> unreadable d m \<and> s' = s"
    unfolding exec_task_def NewTaskBody_def unreadable_def Let_def
    by (auto simp: takes_all[THEN takes_decoded])
  then show ?thesis by (auto simp: AnalystToExec_def TransTask_def)
qed

text \<open>A failed deletion of a tenant is reported as done when the row of the tenant is found.\<close>

lemma deleteTenant_silent:
  assumes "cl_DeleteNamespace (ce_client (te_ctl env)) tenantID (tk_cluster s) = (Some err, w)" "err \<noteq> IsNotFound"
    "GetTenantByUUID (te_db env) tenantID = Inr (Some tenant)"
  shows "\<exists>s'. deleteTenant env (ByPointer (DeleteTenantTaskBody tenantID)) s = Some (None, s')"
  using assms by (simp add: deleteTenant_def delete_failed_def Let_def)

end
