(* ===== verification/MqQueue.thy ===== *)
theory MqQueue
  imports GoBase
begin

text \<open>
  The message queue: \<open>util/etcd\<close> (a queue on etcd), \<open>mq/api/mq\<close> (topics), the gRPC and REST servers and the client.

  \<^item> etcd is a parameter: the record \<open>etcd_api\<close> has the operations the code uses, each atomic on a cluster of any
    type; the result \<open>None\<close> of an operation is an error of the call.
  \<^item> Several processes work on one queue, so a process is a machine (\<open>queue_pc\<close>) that makes one operation of etcd per step;
    between the steps of one process the others go on.
  \<^item> The readings of the clock and the answers of a watch are arguments.
\<close>

section \<open>Operations of etcd\<close>

record KeyValue =
  kv_Key :: string
  kv_Value :: string
  kv_ModRevision :: int

datatype event_type = PUT | DELETE

datatype watch_response = WatchFailure | WatchEvents "(event_type \<times> KeyValue) list"

text \<open>\<open>et_Create\<close>: the transaction that puts a key with version zero; \<open>et_GetFirstRev\<close>: the keys with a prefix, the oldest
  first, limited to one, whether there are more, and the revision of the store; \<open>et_DeleteRev\<close>: the transaction that
  deletes a key with a given revision; \<open>et_Watch\<close>: what the channel of a watcher gives within thirty seconds.\<close>

record 'w etcd_api =
  et_Create :: "string \<Rightarrow> string \<Rightarrow> 'w \<Rightarrow> bool option \<times> 'w"
  et_GetFirstRev :: "string \<Rightarrow> 'w \<Rightarrow> (KeyValue list \<times> bool \<times> int) option \<times> 'w"
  et_DeleteRev :: "string \<Rightarrow> int \<Rightarrow> 'w \<Rightarrow> bool option \<times> 'w"
  et_Watch :: "string \<Rightarrow> int \<Rightarrow> 'w \<Rightarrow> watch_response list option"
  et_Count :: "string \<Rightarrow> 'w \<Rightarrow> int option"

section \<open>The queue (util/etcd)\<close>

datatype queue_error = ErrEtcd | ErrKeyExists | ErrNoUpdateForLongTime | ErrNoWatcher

definition putNewKV :: "'w etcd_api \<Rightarrow> string \<Rightarrow> string \<Rightarrow> 'w \<Rightarrow> queue_error option \<times> 'w" where
  "putNewKV E key val w =
     (case et_Create E key val w of
        (None, w) \<Rightarrow> (Some ErrEtcd, w)
      | (Some ok, w) \<Rightarrow> (if ok then None else Some ErrKeyExists, w))"

definition unique_key :: "string \<Rightarrow> int \<Rightarrow> string" where
  "unique_key keyPrefix now = keyPrefix @ ''/'' @ Itoa now"

definition deleteRevKey :: "'w etcd_api \<Rightarrow> string \<Rightarrow> int \<Rightarrow> 'w \<Rightarrow> bool option \<times> 'w" where
  "deleteRevKey E key rv w =
     (case et_DeleteRev E key rv w of
        (None, w) \<Rightarrow> (None, w)
      | (Some ok, w) \<Rightarrow> (Some ok, w))"

text \<open>\<open>i\<close> events of the list have been seen; the end of the answers is the timer.\<close>

fun match_events :: "(event_type \<times> KeyValue) list \<Rightarrow> event_type list \<Rightarrow> nat \<Rightarrow> nat + KeyValue" where
  "match_events [] evs i = Inl i"
| "match_events ((t, kv) # es) evs i =
     (if i < length evs \<and> t = evs ! i then if i + 1 = length evs then Inr kv else match_events es evs (i + 1)
      else match_events es evs i)"

fun waitEvents :: "watch_response list \<Rightarrow> event_type list \<Rightarrow> nat \<Rightarrow> KeyValue option" where
  "waitEvents [] evs i = None"
| "waitEvents (WatchFailure # rs) evs i = None"
| "waitEvents (WatchEvents es # rs) evs i =
     (if es = [] then None
      else (case match_events es evs i of Inr kv \<Rightarrow> Some kv | Inl j \<Rightarrow> waitEvents rs evs j))"

definition WaitPrefixEvents :: "'w etcd_api \<Rightarrow> string \<Rightarrow> int \<Rightarrow> event_type list \<Rightarrow> 'w \<Rightarrow> queue_error + KeyValue" where
  "WaitPrefixEvents E prfx rv evs w =
     (case et_Watch E prfx rv w of
        None \<Rightarrow> Inl ErrNoWatcher
      | Some wc \<Rightarrow> (case waitEvents wc evs 0 of Some ev \<Rightarrow> Inr ev | None \<Rightarrow> Inl ErrNoUpdateForLongTime))"

text \<open>A process: in the loop of \<open>newUniqueKV\<close>; before the \<open>Get\<close> of \<open>Dequeue\<close>; in \<open>claimFirstKey\<close> with the keys that are
  left; before \<open>WaitPrefixEvents\<close>; with an event and before \<open>deleteRevKey\<close>; returned.\<close>

datatype queue_pc =
    Enqueuing string string
  | Dequeuing string
  | Claiming string "KeyValue list" bool int
  | Waiting string int
  | Watched string KeyValue
  | Enqueued
  | Dequeued string
  | QueueFailed

definition newUniqueKV :: "'w etcd_api \<Rightarrow> string \<Rightarrow> string \<Rightarrow> int \<Rightarrow> 'w \<Rightarrow> queue_pc \<times> 'w" where
  \<comment> \<open>One turn of the loop.\<close>
  "newUniqueKV E keyPrefix val now w =
     (case putNewKV E (unique_key keyPrefix now) val w of
        (None, w) \<Rightarrow> (Enqueued, w)
      | (Some err, w) \<Rightarrow> (if err \<noteq> ErrKeyExists then QueueFailed else Enqueuing keyPrefix val, w))"

definition claimFirstKey :: "'w etcd_api \<Rightarrow> string \<Rightarrow> KeyValue list \<Rightarrow> bool \<Rightarrow> int \<Rightarrow> 'w \<Rightarrow> queue_pc \<times> 'w" where
  \<comment> \<open>One turn of the loop, and at its end what \<open>Dequeue\<close> does with the result.\<close>
  "claimFirstKey E keyPrefix kvs More rv w =
     (case kvs of
        [] \<Rightarrow> (if More then Dequeuing keyPrefix else Waiting keyPrefix rv, w)
      | k # ks \<Rightarrow>
          (case deleteRevKey E (kv_Key k) (kv_ModRevision k) w of
             (None, w) \<Rightarrow> (QueueFailed, w)
           | (Some ok, w) \<Rightarrow> (if ok then Dequeued (kv_Value k) else Claiming keyPrefix ks More rv, w)))"

definition queue_step :: "'w etcd_api \<Rightarrow> int \<Rightarrow> queue_pc \<Rightarrow> 'w \<Rightarrow> queue_pc \<times> 'w" where
  "queue_step E now pc w =
     (case pc of
        Enqueuing keyPrefix val \<Rightarrow> newUniqueKV E keyPrefix val now w
      | Dequeuing keyPrefix \<Rightarrow>
          (case et_GetFirstRev E keyPrefix w of
             (None, w) \<Rightarrow> (QueueFailed, w)
           | (Some (kvs, More, rv), w) \<Rightarrow> (Claiming keyPrefix kvs More rv, w))
      | Claiming keyPrefix kvs More rv \<Rightarrow> claimFirstKey E keyPrefix kvs More rv w
      | Waiting keyPrefix rv \<Rightarrow>
          (case WaitPrefixEvents E keyPrefix rv [PUT] w of
             Inl err \<Rightarrow> (if err = ErrNoUpdateForLongTime then Dequeuing keyPrefix else QueueFailed, w)
           | Inr ev \<Rightarrow> (Watched keyPrefix ev, w))
      | Watched keyPrefix kv \<Rightarrow>
          (case deleteRevKey E (kv_Key kv) (kv_ModRevision kv) w of
             (None, w) \<Rightarrow> (QueueFailed, w)
           | (Some ok, w) \<Rightarrow> (if ok then Dequeued (kv_Value kv) else Dequeuing keyPrefix, w))
      | _ \<Rightarrow> (pc, w))"

section \<open>Topics (mq/api/mq)\<close>

record etcdQueue =
  eq_EtcdPrefix :: string
  eq_queues :: "(string, string) gomap"
  eq_EnqueueNumber :: nat
  eq_DequeueNumber :: nat

definition NewActionMQ :: "string \<Rightarrow> etcdQueue" where
  "NewActionMQ etcdPrefix = \<lparr>eq_EtcdPrefix = etcdPrefix, eq_queues = [], eq_EnqueueNumber = 0, eq_DequeueNumber = 0\<rparr>"

definition registerTopic :: "string \<Rightarrow> etcdQueue \<Rightarrow> etcdQueue" where
  "registerTopic topic e = e\<lparr>eq_queues := map_set topic topic (eq_queues e)\<rparr>"

definition BuilderTopic :: string where "BuilderTopic = ''builder''"

definition WindowsBuilderTopic :: string where "WindowsBuilderTopic = ''windows_builder''"

definition WorkerTopic :: string where "WorkerTopic = ''worker''"

text \<open>\<open>Start\<close> after the connection: \<open>topics\<close> is the environment variable.\<close>

definition mq_Start :: "string \<Rightarrow> etcdQueue \<Rightarrow> etcdQueue" where
  "mq_Start topics e =
     (let e = (if topics \<noteq> [] then fold registerTopic (Split CHR '','' topics) e else e)
      in registerTopic WorkerTopic (registerTopic WindowsBuilderTopic (registerTopic BuilderTopic e)))"

definition TopicIsExist :: "string \<Rightarrow> etcdQueue \<Rightarrow> bool" where
  "TopicIsExist topic e \<longleftrightarrow> map_of (eq_queues e) topic \<noteq> None"

definition GetAllTopics :: "((string, string) gomap \<Rightarrow> (string, string) gomap) \<Rightarrow> etcdQueue \<Rightarrow> string list" where
  "GetAllTopics rng e = map fst (rng (eq_queues e))"

definition queueKey :: "etcdQueue \<Rightarrow> string \<Rightarrow> string" where
  "queueKey e topic = eq_EtcdPrefix e @ ''/'' @ topic"

definition mq_Enqueue :: "string \<Rightarrow> string \<Rightarrow> etcdQueue \<Rightarrow> queue_pc \<times> etcdQueue" where
  "mq_Enqueue topic value e = (Enqueuing (queueKey e topic) value, e\<lparr>eq_EnqueueNumber := eq_EnqueueNumber e + 1\<rparr>)"

definition mq_Dequeue :: "string \<Rightarrow> etcdQueue \<Rightarrow> queue_pc \<times> etcdQueue" where
  "mq_Dequeue topic e = (Dequeuing (queueKey e topic), e\<lparr>eq_DequeueNumber := eq_DequeueNumber e + 1\<rparr>)"

definition MessageQueueSize :: "'w etcd_api \<Rightarrow> etcdQueue \<Rightarrow> string \<Rightarrow> 'w \<Rightarrow> int" where
  "MessageQueueSize E e topic w = (case et_Count E (queueKey e topic) w of Some n \<Rightarrow> n | None \<Rightarrow> 0)"

section \<open>The servers and the client\<close>

record pb_TaskMessage =
  pm_TaskId :: string
  pm_TaskType :: string
  pm_CreateTime :: string
  pm_TaskBody :: bytes
  pm_User :: string

record EnqueueRequest =
  er_Topic :: string
  er_Message :: pb_TaskMessage

datatype mq_error = UnsupportedTopic | MarshalFailed | UnmarshalFailed | QueueError

text \<open>\<open>mqServer.Enqueue\<close> up to the call of the queue, and \<open>mqServer.Dequeue\<close> before and after it; \<open>proto.Marshal\<close> and
  \<open>proto.Unmarshal\<close> are arguments.\<close>

definition server_Enqueue :: "string \<Rightarrow> (pb_TaskMessage \<Rightarrow> string option) \<Rightarrow> EnqueueRequest \<Rightarrow> etcdQueue \<Rightarrow> (mq_error + queue_pc) \<times> etcdQueue" where
  "server_Enqueue newUUID marshal req e =
     (if er_Topic req = [] \<or> \<not> TopicIsExist (er_Topic req) e then (Inl UnsupportedTopic, e)
      else
        (let m = er_Message req; m = (if pm_TaskId m = [] then m\<lparr>pm_TaskId := newUUID\<rparr> else m) in
         case marshal m of
           None \<Rightarrow> (Inl MarshalFailed, e)
         | Some message \<Rightarrow> (let (pc, e) = mq_Enqueue (er_Topic req) message e in (Inr pc, e))))"

definition server_Dequeue :: "string \<Rightarrow> etcdQueue \<Rightarrow> (mq_error + queue_pc) \<times> etcdQueue" where
  "server_Dequeue topic e =
     (if topic = [] \<or> \<not> TopicIsExist topic e then (Inl UnsupportedTopic, e)
      else (let (pc, e) = mq_Dequeue topic e in (Inr pc, e)))"

definition server_answer :: "(string \<Rightarrow> pb_TaskMessage option) \<Rightarrow> queue_pc \<Rightarrow> (mq_error + pb_TaskMessage) option" where
  \<comment> \<open>\<open>None\<close>: the queue has not returned yet.\<close>
  "server_answer unmarshal pc =
     (case pc of
        Dequeued message \<Rightarrow> Some (case unmarshal message of None \<Rightarrow> Inl UnmarshalFailed | Some task \<Rightarrow> Inr task)
      | QueueFailed \<Rightarrow> Some (Inl QueueError)
      | _ \<Rightarrow> None)"

text \<open>The REST interface: the status of the answer, or the operation of the queue. \<open>body\<close> is \<open>None\<close> when it cannot be
  read; \<open>valid\<close> says whether \<open>NewTask\<close> accepts it.\<close>

definition rest_enqueue :: "string \<Rightarrow> string option \<Rightarrow> (string \<Rightarrow> bool) \<Rightarrow> etcdQueue \<Rightarrow> (int + queue_pc) \<times> etcdQueue" where
  "rest_enqueue topic body valid e =
     (if topic = [] \<or> \<not> TopicIsExist topic e then (Inl 400, e)
      else
        (case body of
           None \<Rightarrow> (Inl 500, e)
         | Some b \<Rightarrow> if \<not> valid b then (Inl 400, e) else (let (pc, e) = mq_Enqueue topic b e in (Inr pc, e))))"

definition rest_dequeue :: "string \<Rightarrow> etcdQueue \<Rightarrow> (int + queue_pc) \<times> etcdQueue" where
  "rest_dequeue topic e =
     (if topic = [] \<or> \<not> TopicIsExist topic e then (Inl 400, e)
      else (let (pc, e) = mq_Dequeue topic e in (Inr pc, e)))"

definition rest_answer :: "(string \<Rightarrow> bool) \<Rightarrow> queue_pc \<Rightarrow> int option" where
  "rest_answer valid pc =
     (case pc of
        Enqueued \<Rightarrow> Some 201
      | Dequeued v \<Rightarrow> Some (if valid v then 200 else 500)
      | QueueFailed \<Rightarrow> Some 500
      | _ \<Rightarrow> None)"

record 'b TaskStruct =
  tt_Topic :: string
  tt_TaskType :: string
  tt_TaskBody :: 'b

definition buildTask :: "('b \<Rightarrow> bytes option) \<Rightarrow> string \<Rightarrow> 'b TaskStruct \<Rightarrow> EnqueueRequest option" where
  "buildTask marshal now t =
     map_option (\<lambda>taskJSON.
       \<lparr>er_Topic = tt_Topic t,
        er_Message = \<lparr>pm_TaskId = [], pm_TaskType = tt_TaskType t, pm_CreateTime = now, pm_TaskBody = taskJSON, pm_User = ''kato''\<rparr>\<rparr>)
       (marshal (tt_TaskBody t))"

end
