(* ===== verification/MqProps.thy ===== *)
theory MqProps
  imports MqQueue
begin

text \<open>
  The queue on etcd is a queue: every step of every process either leaves the messages of a topic as they are, or
  adds the message that is enqueued at the end, or takes the first message, which is the one that is returned. This
  holds for any number of processes whose steps interleave.
\<close>

section \<open>Documented behaviour of etcd\<close>

text \<open>What a cluster holds: its revision, all keys ever put with the revision of their put, in order, and those that
  have not been deleted.\<close>

record history =
  hs_rev :: int
  hs_puts :: "KeyValue list"
  hs_live :: "KeyValue list"

definition put :: "string \<Rightarrow> string \<Rightarrow> history \<Rightarrow> history" where
  "put k v h =
     (let kv = \<lparr>kv_Key = k, kv_Value = v, kv_ModRevision = hs_rev h + 1\<rparr>
      in h\<lparr>hs_rev := hs_rev h + 1, hs_puts := hs_puts h @ [kv], hs_live := hs_live h @ [kv]\<rparr>)"

definition del :: "string \<Rightarrow> history \<Rightarrow> history" where
  "del k h = h\<lparr>hs_rev := hs_rev h + 1, hs_live := filter (\<lambda>kv. kv_Key kv \<noteq> k) (hs_live h)\<rparr>"

definition under :: "string \<Rightarrow> KeyValue list \<Rightarrow> KeyValue list" where
  "under p kvs = filter (\<lambda>kv. HasPrefix (kv_Key kv) p) kvs"

text \<open>A transaction that fails may have been applied.\<close>

definition create_ok :: "('w \<Rightarrow> history) \<Rightarrow> 'w etcd_api \<Rightarrow> bool" where
  "create_ok H E \<longleftrightarrow>
     (\<forall>k v w. case et_Create E k v w of (r, w') \<Rightarrow>
        if k \<in> kv_Key ` set (hs_live (H w)) then r \<noteq> Some True \<and> H w' = H w
        else r = Some True \<and> H w' = put k v (H w) \<or> r = None \<and> H w' \<in> {H w, put k v (H w)})"

definition get_ok :: "('w \<Rightarrow> history) \<Rightarrow> 'w etcd_api \<Rightarrow> bool" where
  "get_ok H E \<longleftrightarrow>
     (\<forall>p w. case et_GetFirstRev E p w of (r, w') \<Rightarrow>
        H w' = H w \<and>
        (r = None \<or> r = Some (take 1 (under p (hs_live (H w))), length (under p (hs_live (H w))) > 1, hs_rev (H w))))"

definition delete_ok :: "('w \<Rightarrow> history) \<Rightarrow> 'w etcd_api \<Rightarrow> bool" where
  "delete_ok H E \<longleftrightarrow>
     (\<forall>k rv w. case et_DeleteRev E k rv w of (r, w') \<Rightarrow>
        if \<exists>kv \<in> set (hs_live (H w)). kv_Key kv = k \<and> kv_ModRevision kv = rv
        then r = Some True \<and> H w' = del k (H w) \<or> r = None \<and> H w' \<in> {H w, del k (H w)}
        else r \<noteq> Some True \<and> H w' = H w)"

text \<open>The puts that a watch reports are the puts with the prefix since the revision, in order.\<close>

definition events_of :: "watch_response \<Rightarrow> (event_type \<times> KeyValue) list" where
  "events_of r = (case r of WatchFailure \<Rightarrow> [] | WatchEvents es \<Rightarrow> es)"

definition reported :: "watch_response list \<Rightarrow> KeyValue list" where
  "reported rs = map snd (filter (\<lambda>(t, kv). t = PUT) (concat (map events_of rs)))"

definition watch_ok :: "('w \<Rightarrow> history) \<Rightarrow> 'w etcd_api \<Rightarrow> bool" where
  "watch_ok H E \<longleftrightarrow>
     (\<forall>p rv w rs. et_Watch E p rv w = Some rs \<longrightarrow>
        prefix (reported rs) (filter (\<lambda>kv. rv \<le> kv_ModRevision kv) (under p (hs_puts (H w)))))"

definition queue_etcd_ok :: "('w \<Rightarrow> history) \<Rightarrow> 'w etcd_api \<Rightarrow> bool" where
  "queue_etcd_ok H E \<longleftrightarrow> create_ok H E \<and> get_ok H E \<and> delete_ok H E \<and> watch_ok H E"

section \<open>Runs\<close>

text \<open>Processes begin at any time; each step of a process is a step of the whole.\<close>

inductive queue_run :: "('w \<Rightarrow> history) \<Rightarrow> 'w etcd_api \<Rightarrow> string set \<Rightarrow> (nat \<Rightarrow> queue_pc) \<Rightarrow> 'w \<Rightarrow> bool" for H E T where
  run_begin: "hs_puts (H w) = [] \<Longrightarrow> hs_live (H w) = [] \<Longrightarrow> queue_run H E T (\<lambda>_. QueueFailed) w"
| run_enqueue: "queue_run H E T pcs w \<Longrightarrow> p \<in> T \<Longrightarrow> queue_run H E T (pcs(i := Enqueuing p v)) w"
| run_dequeue: "queue_run H E T pcs w \<Longrightarrow> p \<in> T \<Longrightarrow> queue_run H E T (pcs(i := Dequeuing p)) w"
| run_step: "queue_run H E T pcs w \<Longrightarrow> queue_step E now (pcs i) w = (pc, w') \<Longrightarrow> queue_run H E T (pcs(i := pc)) w'"

text \<open>The prefixes of the topics: no key of a topic is under the prefix of another.\<close>

definition separate :: "string set \<Rightarrow> bool" where
  "separate T \<longleftrightarrow> (\<forall>p \<in> T. \<forall>q \<in> T. HasPrefix q p \<longrightarrow> q = p)"

section \<open>The invariant\<close>

definition wf_history :: "history \<Rightarrow> bool" where
  "wf_history h \<longleftrightarrow>
     sorted_wrt (<) (map kv_ModRevision (hs_puts h)) \<and> (\<forall>kv \<in> set (hs_puts h). kv_ModRevision kv \<le> hs_rev h) \<and>
     sorted_wrt (<) (map kv_ModRevision (hs_live h)) \<and> set (hs_live h) \<subseteq> set (hs_puts h) \<and>
     distinct (map kv_Key (hs_live h))"

definition later :: "string \<Rightarrow> int \<Rightarrow> history \<Rightarrow> bool" where
  "later p r h \<longleftrightarrow> (\<forall>kv \<in> set (under p (hs_live h)). r < kv_ModRevision kv)"

definition oldest :: "string \<Rightarrow> KeyValue \<Rightarrow> history \<Rightarrow> bool" where
  "oldest p k h \<longleftrightarrow> k \<in> set (under p (hs_puts h)) \<and> (\<forall>kv \<in> set (under p (hs_live h)). kv_ModRevision k \<le> kv_ModRevision kv)"

fun pc_ok :: "history \<Rightarrow> queue_pc \<Rightarrow> bool" where
  "pc_ok h (Claiming p kvs More rv) \<longleftrightarrow> rv \<le> hs_rev h \<and> length kvs \<le> 1 \<and> (\<forall>k \<in> set kvs. oldest p k h) \<and>
     (\<not> More \<longrightarrow> (\<forall>kv \<in> set (under p (hs_live h)). rv < kv_ModRevision kv \<or> kv \<in> set kvs))"
| "pc_ok h (Waiting p rv) \<longleftrightarrow> rv \<le> hs_rev h \<and> later p rv h"
| "pc_ok h (Watched p kv) \<longleftrightarrow> oldest p kv h"
| "pc_ok h _ \<longleftrightarrow> True"

lemma puts_inj: "wf_history h \<Longrightarrow> a \<in> set (hs_puts h) \<Longrightarrow> b \<in> set (hs_puts h) \<Longrightarrow> kv_ModRevision a = kv_ModRevision b \<Longrightarrow> a = b"
  unfolding wf_history_def by (metis inj_onD distinct_map strict_sorted_iff)

lemma under_live: "wf_history h \<Longrightarrow> kv \<in> set (under p (hs_live h)) \<Longrightarrow> kv \<in> set (under p (hs_puts h)) \<and> kv_ModRevision kv \<le> hs_rev h"
  by (auto simp: wf_history_def under_def)

lemma wf_put: "wf_history h \<Longrightarrow> k \<notin> kv_Key ` set (hs_live h) \<Longrightarrow> wf_history (put k v h)"
  by (force simp: wf_history_def put_def Let_def sorted_wrt_append)

lemma wf_del: "wf_history h \<Longrightarrow> wf_history (del k h)"
  by (force simp: wf_history_def del_def sorted_wrt_map distinct_map_filter intro: sorted_wrt_filter)

lemma pc_ok_put: "wf_history h \<Longrightarrow> pc_ok h pc \<Longrightarrow> pc_ok (put k v h) pc"
  by (cases pc) (force simp: put_def Let_def under_def oldest_def later_def wf_history_def)+

lemma pc_ok_del: "pc_ok h pc \<Longrightarrow> pc_ok (del k h) pc"
  by (cases pc) (auto simp: del_def under_def oldest_def later_def)


lemma pc_ok_same: "pc_ok h pc \<Longrightarrow> h' = h \<Longrightarrow> pc_ok h' pc"
  by simp

text \<open>A key that is the oldest of its topic and still there is the first of the live keys.\<close>

lemma claim_head:
  assumes "wf_history h" "oldest p k h" "kv \<in> set (hs_live h)" "kv_Key kv = kv_Key k" "kv_ModRevision kv = kv_ModRevision k"
  shows "k \<in> set (hs_live h)" "under p (hs_live h) = k # under p (hs_live (del (kv_Key k) h))"
proof -
  have "kv \<in> set (hs_puts h)" "k \<in> set (hs_puts h)" using assms(1,2,3) by (auto simp: wf_history_def oldest_def under_def)
  then have "kv = k" using puts_inj[OF assms(1)] assms(5) by blast
  then show k: "k \<in> set (hs_live h)" using assms(3) by simp
  have ku: "k \<in> set (under p (hs_live h))" using k assms(2) by (simp add: oldest_def under_def)
  then obtain x xs where u: "under p (hs_live h) = x # xs" by (cases "under p (hs_live h)") auto
  have "sorted_wrt (<) (map kv_ModRevision (under p (hs_live h)))"
    using assms(1) by (simp add: wf_history_def under_def sorted_wrt_map sorted_wrt_filter)
  then have x: "\<forall>y \<in> set xs. kv_ModRevision x < kv_ModRevision y" by (simp add: u)
  have "kv_ModRevision k \<le> kv_ModRevision x" using assms(2) u by (simp add: oldest_def)
  then have kx: "x = k" using x ku u by force
  have d: "distinct (map kv_Key (under p (hs_live h)))" using assms(1) by (simp add: wf_history_def under_def distinct_map_filter)
  have "under p (hs_live (del (kv_Key k) h)) = filter (\<lambda>y. kv_Key y \<noteq> kv_Key k) (under p (hs_live h))"
    by (simp add: del_def under_def conj_commute)
  also have "\<dots> = xs" using d by (auto simp: u kx filter_id_conv image_iff)
  finally show "under p (hs_live h) = k # under p (hs_live (del (kv_Key k) h))" by (simp add: u kx)
qed

lemma prefix_topics: "separate T \<Longrightarrow> p \<in> T \<Longrightarrow> q \<in> T \<Longrightarrow> HasPrefix k p \<Longrightarrow> HasPrefix k q \<Longrightarrow> p = q"
  unfolding separate_def by (metis prefix_same_cases)

lemma under_unique: "separate T \<Longrightarrow> p \<in> T \<Longrightarrow> q \<in> T \<Longrightarrow> HasPrefix (unique_key q now) p \<longleftrightarrow> p = q"
  using prefix_topics[of T p q "unique_key q now"] by (auto simp: unique_key_def)

section \<open>Steps\<close>

fun taking :: "queue_pc \<Rightarrow> (string \<times> KeyValue) option" where
  "taking (Claiming p (k # ks) More rv) = Some (p, k)"
| "taking (Watched p k) = Some (p, k)"
| "taking _ = None"

fun topic_of :: "queue_pc \<Rightarrow> string option" where
  "topic_of (Enqueuing p v) = Some p"
| "topic_of (Dequeuing p) = Some p"
| "topic_of (Claiming p kvs More rv) = Some p"
| "topic_of (Waiting p rv) = Some p"
| "topic_of (Watched p kv) = Some p"
| "topic_of _ = None"

lemma match_events_PUT:
  "match_events es [PUT] 0 =
     (case map snd (filter (\<lambda>(t, kv). t = PUT) es) of [] \<Rightarrow> Inl 0 | kv # _ \<Rightarrow> Inr kv)"
  by (induction es) (auto split: list.splits)

lemma waitEvents_reported: "waitEvents rs [PUT] 0 = Some kv \<Longrightarrow> \<exists>kvs. reported rs = kv # kvs"
proof (induction rs)
  case (Cons r rs)
  then show ?case
    by (cases r) (auto simp: match_events_PUT reported_def events_of_def split: list.splits if_splits)
qed simp

lemma first_put_oldest:
  assumes "wf_history h" "later p rv h" "prefix (kv # kvs) (filter (\<lambda>kv. rv \<le> kv_ModRevision kv) (under p (hs_puts h)))"
  shows "oldest p kv h"
proof -
  let ?f = "filter (\<lambda>kv. rv \<le> kv_ModRevision kv) (under p (hs_puts h))"
  obtain ks where f: "?f = kv # ks" using assms(3) by (auto simp: prefix_def)
  have "sorted_wrt (<) (map kv_ModRevision ?f)" using assms(1) by (simp add: wf_history_def under_def sorted_wrt_map sorted_wrt_filter)
  then have "\<forall>y \<in> set ks. kv_ModRevision kv < kv_ModRevision y" by (simp add: f)
  moreover have "x \<in> set ?f" if "x \<in> set (under p (hs_live h))" for x
    using that assms(2) under_live[OF assms(1) that] by (force simp: later_def)
  moreover have "kv \<in> set (under p (hs_puts h))" using f by (metis filter_is_subset list.set_intros(1) subsetD)
  ultimately show ?thesis unfolding oldest_def f by fastforce
qed

text \<open>The history after a step: as before, with the new message, or without the oldest one.\<close>

lemma newUniqueKV_history:
  assumes "create_ok H E" "newUniqueKV E p v now w = (pc', w')"
  shows "H w' = H w \<and> pc' \<in> {Enqueuing p v, QueueFailed} \<or>
    unique_key p now \<notin> kv_Key ` set (hs_live (H w)) \<and> H w' = put (unique_key p now) v (H w) \<and> pc' \<in> {Enqueued, QueueFailed}"
proof -
  obtain r w1 where c: "et_Create E (unique_key p now) v w = (r, w1)" by fastforce
  have "if unique_key p now \<in> kv_Key ` set (hs_live (H w)) then r \<noteq> Some True \<and> H w1 = H w
      else r = Some True \<and> H w1 = put (unique_key p now) v (H w) \<or> r = None \<and> H w1 \<in> {H w, put (unique_key p now) v (H w)}"
    using spec[OF spec[OF spec[OF assms(1)[unfolded create_ok_def], of "unique_key p now"], of v], of w] by (simp only: c prod.case)
  then show ?thesis using assms(2) c
    by (auto simp: newUniqueKV_def putNewKV_def split: option.splits if_splits)
qed

lemma deleteRevKey_history:
  assumes "delete_ok H E" "wf_history (H w)" "oldest p k (H w)" "deleteRevKey E (kv_Key k) (kv_ModRevision k) w = (r, w')"
  shows "H w' = H w \<and> r \<noteq> Some True \<or> k \<in> set (hs_live (H w)) \<and> H w' = del (kv_Key k) (H w) \<and> r \<noteq> Some False"
    "r = Some False \<Longrightarrow> k \<notin> set (hs_live (H w))"
proof -
  obtain r1 w1 where c: "et_DeleteRev E (kv_Key k) (kv_ModRevision k) w = (r1, w1)" by fastforce
  then have r: "r1 = r" "w1 = w'" using assms(4) by (auto simp: deleteRevKey_def split: option.splits)
  have l: "if \<exists>kv \<in> set (hs_live (H w)). kv_Key kv = kv_Key k \<and> kv_ModRevision kv = kv_ModRevision k
      then r = Some True \<and> H w' = del (kv_Key k) (H w) \<or> r = None \<and> H w' \<in> {H w, del (kv_Key k) (H w)}
      else r \<noteq> Some True \<and> H w' = H w"
    using spec[OF spec[OF spec[OF assms(1)[unfolded delete_ok_def], of "kv_Key k"], of "kv_ModRevision k"], of w] by (simp only: c prod.case r)
  have k: "k \<in> set (hs_live (H w))" if "\<exists>kv \<in> set (hs_live (H w)). kv_Key kv = kv_Key k \<and> kv_ModRevision kv = kv_ModRevision k"
    using that claim_head(1)[OF assms(2,3)] by blast
  show "H w' = H w \<and> r \<noteq> Some True \<or> k \<in> set (hs_live (H w)) \<and> H w' = del (kv_Key k) (H w) \<and> r \<noteq> Some False"
    "r = Some False \<Longrightarrow> k \<notin> set (hs_live (H w))"
    using l k by (auto split: if_splits)
qed


definition moved :: "history \<Rightarrow> history \<Rightarrow> queue_pc \<Rightarrow> queue_pc \<Rightarrow> int \<Rightarrow> bool" where
  "moved h h' pc pc' now \<longleftrightarrow>
     h' = h \<and> (pc' = Enqueued \<longrightarrow> pc = Enqueued) \<and> (\<forall>v. pc' = Dequeued v \<longrightarrow> pc = pc') \<or>
     (\<exists>p v. pc = Enqueuing p v \<and> pc' \<in> {Enqueued, QueueFailed} \<and> unique_key p now \<notin> kv_Key ` set (hs_live h) \<and> h' = put (unique_key p now) v h) \<or>
     (\<exists>p k. taking pc = Some (p, k) \<and> pc' \<in> {Dequeued (kv_Value k), QueueFailed} \<and> oldest p k h \<and> k \<in> set (hs_live h) \<and> h' = del (kv_Key k) h)"

lemma moved_same: "h' = h \<Longrightarrow> pc' \<noteq> Enqueued \<Longrightarrow> (\<And>v. pc' \<noteq> Dequeued v) \<Longrightarrow> moved h h' pc pc' now"
  by (simp add: moved_def)

lemma claim_step:
  assumes "delete_ok H E" "wf_history (H w)" "oldest p k (H w)" "taking pc = Some (p, k)"
    "deleteRevKey E (kv_Key k) (kv_ModRevision k) w = (r, w')"
    "pc' = (case r of None \<Rightarrow> QueueFailed | Some ok \<Rightarrow> if ok then Dequeued (kv_Value k) else other)"
    "other \<noteq> Enqueued" "\<And>v. other \<noteq> Dequeued v"
  shows "moved (H w) (H w') pc pc' now"
proof -
  note d = deleteRevKey_history(1)[OF assms(1,2,3,5)]
  show ?thesis
  proof (cases "H w' = H w \<and> r \<noteq> Some True")
    case True
    then show ?thesis using assms(6,7,8) by (intro moved_same) (auto split: option.splits if_splits)
  next
    case False
    then have "k \<in> set (hs_live (H w))" "H w' = del (kv_Key k) (H w)" "r \<noteq> Some False" using d by auto
    moreover have "pc' \<in> {Dequeued (kv_Value k), QueueFailed}" using assms(6) \<open>r \<noteq> Some False\<close> by (auto split: option.splits if_splits)
    ultimately show ?thesis unfolding moved_def using assms(3,4) by blast
  qed
qed

lemma get_history:
  assumes "get_ok H E" "et_GetFirstRev E p w = (r, w')"
  shows "H w' = H w" "r = None \<or> r = Some (take 1 (under p (hs_live (H w))), length (under p (hs_live (H w))) > 1, hs_rev (H w))"
  using spec[OF spec[OF assms(1)[unfolded get_ok_def], of p], of w] by (simp_all only: assms(2) prod.case)

lemma queue_step_moved:
  assumes "queue_etcd_ok H E" "wf_history (H w)" "pc_ok (H w) pc" "queue_step E now pc w = (pc', w')"
  shows "moved (H w) (H w') pc pc' now"
proof -
  note ok = assms(1)[unfolded queue_etcd_ok_def]
  show ?thesis
  proof (cases pc)
    case (Enqueuing p v)
    then have n: "newUniqueKV E p v now w = (pc', w')" using assms(4) by (simp add: queue_step_def)
    from newUniqueKV_history[OF _ n, of H] ok have "H w' = H w \<and> pc' \<in> {Enqueuing p v, QueueFailed} \<or>
        unique_key p now \<notin> kv_Key ` set (hs_live (H w)) \<and> H w' = put (unique_key p now) v (H w) \<and> pc' \<in> {Enqueued, QueueFailed}" by blast
    then show ?thesis unfolding moved_def Enqueuing by (elim disjE conjE) auto
  next
    case (Dequeuing p)
    obtain r w1 where g: "et_GetFirstRev E p w = (r, w1)" by fastforce
    show ?thesis using assms(4) Dequeuing g get_history(1)[OF _ g] ok by (intro moved_same) (auto simp: queue_step_def split: option.splits)
  next
    case (Claiming p kvs More rv)
    show ?thesis
    proof (cases kvs)
      case Nil
      then show ?thesis using assms(4) Claiming by (intro moved_same) (auto simp: queue_step_def claimFirstKey_def split: if_splits)
    next
      case (Cons k ks)
      obtain r w1 where d: "deleteRevKey E (kv_Key k) (kv_ModRevision k) w = (r, w1)" by fastforce
      have "oldest p k (H w)" "taking pc = Some (p, k)" using assms(3) Claiming Cons by auto
      moreover have "w' = w1" "pc' = (case r of None \<Rightarrow> QueueFailed | Some ok \<Rightarrow> if ok then Dequeued (kv_Value k) else Claiming p ks More rv)"
        using assms(4) Claiming Cons d by (auto simp: queue_step_def claimFirstKey_def split: option.splits)
      ultimately show ?thesis using claim_step[where H = H and pc = pc and now = now, OF conjunct1[OF conjunct2[OF conjunct2[OF ok]]] assms(2) _ _ d] by simp
    qed
  next
    case (Waiting p rv)
    then show ?thesis using assms(4) by (intro moved_same) (auto simp: queue_step_def split: sum.splits if_splits)
  next
    case (Watched p k)
    obtain r w1 where d: "deleteRevKey E (kv_Key k) (kv_ModRevision k) w = (r, w1)" by fastforce
    have "oldest p k (H w)" "taking pc = Some (p, k)" using assms(3) Watched by auto
    moreover have "w' = w1" "pc' = (case r of None \<Rightarrow> QueueFailed | Some ok \<Rightarrow> if ok then Dequeued (kv_Value k) else Dequeuing p)"
      using assms(4) Watched d by (auto simp: queue_step_def split: option.splits)
    ultimately show ?thesis using claim_step[where H = H and pc = pc and now = now, OF conjunct1[OF conjunct2[OF conjunct2[OF ok]]] assms(2) _ _ d] by simp
  qed (use assms(4) in \<open>auto simp: queue_step_def moved_def\<close>)
qed


lemma moved_wf: "wf_history h \<Longrightarrow> moved h h' pc pc' now \<Longrightarrow> wf_history h'"
  unfolding moved_def using wf_put wf_del by blast

lemma moved_pc_ok: "wf_history h \<Longrightarrow> moved h h' pc pc' now \<Longrightarrow> pc_ok h other \<Longrightarrow> pc_ok h' other"
  unfolding moved_def using pc_ok_put pc_ok_del by blast

lemma take_one_oldest:
  assumes "wf_history h" "k \<in> set (take 1 (under p (hs_live h)))"
  shows "oldest p k h"
proof -
  obtain ks where u: "under p (hs_live h) = k # ks" using assms(2) by (cases "under p (hs_live h)") auto
  have "sorted_wrt (<) (map kv_ModRevision (under p (hs_live h)))"
    using assms(1) by (simp add: wf_history_def under_def sorted_wrt_map sorted_wrt_filter)
  then show ?thesis using under_live[OF assms(1), of k p] u by (force simp: oldest_def)
qed

lemma queue_step_pc_ok:
  assumes "queue_etcd_ok H E" "wf_history (H w)" "pc_ok (H w) pc" "queue_step E now pc w = (pc', w')"
  shows "pc_ok (H w') pc' \<and> set_option (topic_of pc') \<subseteq> set_option (topic_of pc)"
proof (cases pc)
  case (Enqueuing p v)
  then show ?thesis using assms(4) by (auto simp: queue_step_def newUniqueKV_def split: option.splits prod.splits if_splits)
next
  case (Dequeuing p)
  obtain r w1 where g: "et_GetFirstRev E p w = (r, w1)" by fastforce
  note h = get_history[OF _ g, of H]
  let ?u = "under p (hs_live (H w))"
  show ?thesis
  proof (cases r)
    case None
    then show ?thesis using assms(4) Dequeuing g by (auto simp: queue_step_def)
  next
    case (Some x)
    then have x: "x = (take 1 ?u, length ?u > 1, hs_rev (H w))" "H w1 = H w" using h assms(1) by (auto simp: queue_etcd_ok_def)
    then have "pc' = Claiming p (take 1 ?u) (length ?u > 1) (hs_rev (H w))" "w' = w1" using assms(4) Dequeuing g Some by (auto simp: queue_step_def)
    moreover have "\<not> length ?u > 1 \<Longrightarrow> take 1 ?u = ?u" by simp
    ultimately show ?thesis using x(2) take_one_oldest[OF assms(2)] Dequeuing by auto
  qed
next
  case (Claiming p kvs More rv)
  show ?thesis
  proof (cases kvs)
    case Nil
    then show ?thesis using assms(3,4) Claiming by (auto simp: queue_step_def claimFirstKey_def later_def split: if_splits)
  next
    case (Cons k ks)
    obtain r w1 where d: "deleteRevKey E (kv_Key k) (kv_ModRevision k) w = (r, w1)" by fastforce
    have k: "oldest p k (H w)" "ks = []" using assms(3) Claiming Cons by auto
    have ok: "delete_ok H E" using assms(1) by (simp add: queue_etcd_ok_def)
    note h = deleteRevKey_history[OF ok assms(2) k(1) d]
    have "pc_ok (H w1) (Claiming p [] More rv)" if "r = Some False"
      using that h assms(3) Claiming Cons k(2) by (auto simp: under_def)
    then show ?thesis using assms(4) Claiming Cons d k(2)
      by (auto simp: queue_step_def claimFirstKey_def split: option.splits if_splits)
  qed
next
  case (Waiting p rv)
  show ?thesis
  proof (cases "WaitPrefixEvents E p rv [PUT] w")
    case (Inl err)
    then show ?thesis using assms(4) Waiting by (auto simp: queue_step_def split: if_splits)
  next
    case (Inr kv)
    then obtain rs kvs where "et_Watch E p rv w = Some rs" "reported rs = kv # kvs"
      using waitEvents_reported by (fastforce simp: WaitPrefixEvents_def split: option.splits)
    then have "prefix (kv # kvs) (filter (\<lambda>kv. rv \<le> kv_ModRevision kv) (under p (hs_puts (H w))))"
      using assms(1) unfolding queue_etcd_ok_def watch_ok_def by metis
    moreover have "later p rv (H w)" using assms(3) Waiting by simp
    ultimately have "oldest p kv (H w)" using first_put_oldest[OF assms(2)] by blast
    then show ?thesis using assms(4) Waiting Inr by (auto simp: queue_step_def)
  qed
next
  case (Watched p k)
  then show ?thesis using assms(4) by (auto simp: queue_step_def split: option.splits prod.splits if_splits)
qed (use assms(4) in \<open>auto simp: queue_step_def\<close>)

lemma queue_run_ok:
  assumes "queue_run H E T pcs w" "queue_etcd_ok H E"
  shows "wf_history (H w) \<and> (\<forall>i. pc_ok (H w) (pcs i) \<and> set_option (topic_of (pcs i)) \<subseteq> T)"
  using assms
proof induction
  case (run_begin w)
  then show ?case by (simp add: wf_history_def)
next
  case (run_step pcs w now i pc w')
  then have i: "wf_history (H w)" "\<And>i. pc_ok (H w) (pcs i) \<and> set_option (topic_of (pcs i)) \<subseteq> T" by auto
  note m = queue_step_moved[OF run_step.prems i(1) conjunct1[OF i(2)] run_step.hyps(2)]
  note n = queue_step_pc_ok[OF run_step.prems i(1) conjunct1[OF i(2)] run_step.hyps(2)]
  show ?case using moved_wf[OF i(1) m] moved_pc_ok[OF i(1) m] n i(2) by (auto simp: subset_iff)
qed auto

section \<open>Every process sees one queue\<close>

definition pending :: "string \<Rightarrow> history \<Rightarrow> string list" where
  "pending p h = map kv_Value (under p (hs_live h))"

text \<open>The step of an abstract queue of topic \<open>p\<close> that a step of a process from \<open>pc\<close> to \<open>pc'\<close> stands for.\<close>

definition fifo_step :: "string \<Rightarrow> queue_pc \<Rightarrow> queue_pc \<Rightarrow> string list \<Rightarrow> string list \<Rightarrow> bool" where
  "fifo_step p pc pc' q q' \<longleftrightarrow>
     (if pc' = pc then q' = q
      else case pc' of
             Enqueued \<Rightarrow> (\<exists>v. pc = Enqueuing p v \<and> q' = q @ [v]) \<or> topic_of pc \<noteq> Some p \<and> q' = q
           | Dequeued v \<Rightarrow> if topic_of pc = Some p then q = v # q' else q' = q
           | QueueFailed \<Rightarrow> q' = q \<or> (\<exists>v. pc = Enqueuing p v \<and> q' = q @ [v]) \<or> (\<exists>v. taking pc \<noteq> None \<and> topic_of pc = Some p \<and> q = v # q')
           | _ \<Rightarrow> q' = q)"

lemma pending_put:
  assumes "separate T" "p \<in> T" "q \<in> T"
  shows "pending p (put (unique_key q now) v h) = (if p = q then pending p h @ [v] else pending p h)"
  using under_unique[OF assms] by (simp add: pending_def under_def put_def Let_def)

lemma pending_del:
  assumes "separate T" "p \<in> T" "q \<in> T" "wf_history h" "oldest q k h" "k \<in> set (hs_live h)"
  shows "pending p h = (if p = q then kv_Value k # pending p (del (kv_Key k) h) else pending p (del (kv_Key k) h))"
proof (cases "p = q")
  case True
  then show ?thesis using claim_head(2)[OF assms(4,5,6)] by (simp add: pending_def)
next
  case False
  have "HasPrefix (kv_Key k) q" using assms(5) by (simp add: oldest_def under_def)
  then have "\<not> HasPrefix (kv_Key k) p" using prefix_topics[OF assms(1,2,3)] False by blast
  then have "under p (hs_live (del (kv_Key k) h)) = under p (hs_live h)" by (auto simp: del_def under_def intro: filter_cong)
  then show ?thesis using False by (simp add: pending_def)
qed

lemma taking_topic: "taking pc = Some (p, k) \<Longrightarrow> topic_of pc = Some p"
  by (cases pc rule: taking.cases) auto

lemma moved_fifo:
  assumes "separate T" "p \<in> T" "set_option (topic_of pc) \<subseteq> T" "wf_history h" "moved h h' pc pc' now"
  shows "fifo_step p pc pc' (pending p h) (pending p h')"
  using assms(5) unfolding moved_def
proof (elim disjE exE conjE)
  fix q v assume q: "pc = Enqueuing q v" "pc' \<in> {Enqueued, QueueFailed}" "h' = put (unique_key q now) v h"
  then have "q \<in> T" using assms(3) by simp
  then show ?thesis using q pending_put[OF assms(1,2)] by (auto simp: fifo_step_def)
next
  fix q k assume k: "taking pc = Some (q, k)" "pc' \<in> {Dequeued (kv_Value k), QueueFailed}" "oldest q k h" "k \<in> set (hs_live h)" "h' = del (kv_Key k) h"
  note t = taking_topic[OF k(1)]
  then have "q \<in> T" using assms(3) by simp
  note d = pending_del[OF assms(1,2) this assms(4) k(3,4)]
  have "pc' \<noteq> pc" using k(1,2) by auto
  then show ?thesis using k(1,2,5) d t by (auto simp: fifo_step_def)
qed (auto simp: fifo_step_def split: queue_pc.split)


lemma queue_step_fifo:
  assumes "queue_etcd_ok H E" "separate T" "queue_run H E T pcs w" "queue_step E now (pcs i) w = (pc', w')" "p \<in> T"
  shows "fifo_step p (pcs i) pc' (pending p (H w)) (pending p (H w'))"
proof -
  have i: "wf_history (H w)" "pc_ok (H w) (pcs i)" "set_option (topic_of (pcs i)) \<subseteq> T"
    using queue_run_ok[OF assms(3,1)] by auto
  show ?thesis by (rule moved_fifo[OF assms(2,5) i(3,1) queue_step_moved[OF assms(1) i(1,2) assms(4)]])
qed

text \<open>
  C10: the queue on etcd refines a first-in-first-out queue per topic, for any number of processes whose steps
  interleave: a step that ends an \<open>Enqueue\<close> appends its message, a step that ends a \<open>Dequeue\<close> takes the first message and returns it, and
  every other step leaves the topic as it is. Only a call that fails may leave open whether it took effect. The
  topics must not be prefixes of one another.
\<close>

theorem queue_refines_fifo:
  assumes "queue_etcd_ok H E" "separate T" "queue_run H E T pcs w" "queue_step E now (pcs i) w = (pc', w')" "p \<in> T"
  shows "fifo_step p (pcs i) pc' (pending p (H w)) (pending p (H w'))"
  by (rule queue_step_fifo[OF assms])

text \<open>Runs in which no call fails, with the messages accepted and returned so far.\<close>

definition accepted :: "queue_pc \<Rightarrow> queue_pc \<Rightarrow> (string \<Rightarrow> string list) \<Rightarrow> string \<Rightarrow> string list" where
  "accepted pc pc' ins = (case pc of Enqueuing p v \<Rightarrow> if pc' = Enqueued then ins(p := ins p @ [v]) else ins | _ \<Rightarrow> ins)"

definition returned :: "queue_pc \<Rightarrow> queue_pc \<Rightarrow> (string \<Rightarrow> string list) \<Rightarrow> string \<Rightarrow> string list" where
  "returned pc pc' outs =
     (case topic_of pc of
        None \<Rightarrow> outs
      | Some p \<Rightarrow> (case pc' of Dequeued v \<Rightarrow> outs(p := outs p @ [v]) | _ \<Rightarrow> outs))"

inductive queue_trace ::
  "('w \<Rightarrow> history) \<Rightarrow> 'w etcd_api \<Rightarrow> string set \<Rightarrow> (nat \<Rightarrow> queue_pc) \<Rightarrow> 'w \<Rightarrow> (string \<Rightarrow> string list) \<Rightarrow> (string \<Rightarrow> string list) \<Rightarrow> bool"
  for H E T where
  trace_begin: "hs_puts (H w) = [] \<Longrightarrow> hs_live (H w) = [] \<Longrightarrow> queue_trace H E T (\<lambda>_. QueueFailed) w (\<lambda>_. []) (\<lambda>_. [])"
| trace_enqueue: "queue_trace H E T pcs w ins outs \<Longrightarrow> p \<in> T \<Longrightarrow> queue_trace H E T (pcs(i := Enqueuing p v)) w ins outs"
| trace_dequeue: "queue_trace H E T pcs w ins outs \<Longrightarrow> p \<in> T \<Longrightarrow> queue_trace H E T (pcs(i := Dequeuing p)) w ins outs"
| trace_step: "queue_trace H E T pcs w ins outs \<Longrightarrow> queue_step E now (pcs i) w = (pc, w') \<Longrightarrow> pc \<noteq> QueueFailed \<Longrightarrow>
    queue_trace H E T (pcs(i := pc)) w' (accepted (pcs i) pc ins) (returned (pcs i) pc outs)"

lemma trace_run: "queue_trace H E T pcs w ins outs \<Longrightarrow> queue_run H E T pcs w"
  by (induction rule: queue_trace.induct) (blast intro: queue_run.intros)+

lemma queue_step_kinds:
  assumes "queue_step E now pc w = (pc', w')" "pc' \<noteq> pc"
  shows "topic_of pc \<noteq> None" "pc' = Enqueued \<Longrightarrow> \<exists>t v. pc = Enqueuing t v" "pc' = Dequeued v \<Longrightarrow> pc \<noteq> Enqueuing t u"
  using assms
  by (cases pc; auto simp: queue_step_def newUniqueKV_def claimFirstKey_def split: option.splits prod.splits sum.splits if_splits list.splits)+

lemma fifo_ghosts:
  assumes "fifo_step p pc pc' q q'" "pc' \<noteq> pc" "pc' \<noteq> QueueFailed" "topic_of pc \<noteq> None"
    "pc' = Enqueued \<Longrightarrow> \<exists>t v. pc = Enqueuing t v" "\<And>v t u. pc' = Dequeued v \<Longrightarrow> pc \<noteq> Enqueuing t u" "ins p = outs p @ q"
  shows "accepted pc pc' ins p = returned pc pc' outs p @ q'"
proof (cases pc')
  case Enqueued
  then obtain t v where "pc = Enqueuing t v" using assms(5) by blast
  then show ?thesis using assms(1,7) Enqueued by (auto simp: fifo_step_def accepted_def returned_def)
next
  case (Dequeued v)
  obtain t where t: "topic_of pc = Some t" using assms(4) by blast
  have "accepted pc pc' ins = ins" using Dequeued by (simp add: accepted_def split: queue_pc.splits)
  then show ?thesis using assms(1,2,7) Dequeued t by (auto simp: fifo_step_def returned_def)
next
  case QueueFailed
  then show ?thesis using assms(3) by simp
qed (use assms(1,2,7) in \<open>auto simp: fifo_step_def accepted_def returned_def split: queue_pc.splits option.splits\<close>)

text \<open>
  C11: as long as no call fails, the messages returned for a topic, followed by those that are waiting, are the
  messages accepted for it, in order: nothing is lost, nothing is delivered twice, nothing overtakes.
\<close>

theorem queue_exactly_once:
  assumes "queue_trace H E T pcs w ins outs" "queue_etcd_ok H E" "separate T" "p \<in> T"
  shows "ins p = outs p @ pending p (H w)"
  using assms
proof induction
  case (trace_begin w)
  then show ?case by (simp add: pending_def under_def)
next
  case (trace_step pcs w ins outs now i pc w')
  then have ih: "ins p = outs p @ pending p (H w)" by simp
  note f = queue_step_fifo[OF trace_step.prems(1,2) trace_run[OF trace_step.hyps(1)] trace_step.hyps(2) trace_step.prems(3)]
  show ?case
  proof (cases "pc = pcs i")
    case True
    then have "accepted (pcs i) pc ins p = ins p" "returned (pcs i) pc outs p = outs p"
      by (auto simp: accepted_def returned_def split: queue_pc.splits option.splits)
    then show ?thesis using f ih True by (simp add: fifo_step_def)
  next
    case False
    note k = queue_step_kinds[OF trace_step.hyps(2) False]
    show ?thesis by (rule fifo_ghosts[where ins = ins and outs = outs, OF f False trace_step.hyps(3) k(1,2) _ ih]) (use k(3) in auto)
  qed
qed auto


section \<open>A cluster in memory\<close>

definition mem_etcd :: "history etcd_api" where
  "mem_etcd =
     \<lparr>et_Create = (\<lambda>k v h. if k \<in> kv_Key ` set (hs_live h) then (Some False, h) else (Some True, put k v h)),
      et_GetFirstRev = (\<lambda>p h. (Some (take 1 (under p (hs_live h)), length (under p (hs_live h)) > 1, hs_rev h), h)),
      et_DeleteRev = (\<lambda>k r h. if \<exists>kv \<in> set (hs_live h). kv_Key kv = k \<and> kv_ModRevision kv = r then (Some True, del k h) else (Some False, h)),
      et_Watch = (\<lambda>p r h. Some (map (\<lambda>kv. WatchEvents [(PUT, kv)]) (filter (\<lambda>kv. r \<le> kv_ModRevision kv) (under p (hs_puts h))))),
      et_Count = (\<lambda>p h. Some (int (length (under p (hs_live h)))))\<rparr>"

lemma mem_etcd_ok: "queue_etcd_ok id mem_etcd"
proof -
  have "concat (map (\<lambda>x. [(PUT, x)]) kvs) = map (Pair PUT) kvs" for kvs :: "KeyValue list" by (induction kvs) auto
  then have "reported (map (\<lambda>kv. WatchEvents [(PUT, kv)]) kvs) = kvs" for kvs
    by (simp add: reported_def events_of_def o_def filter_map)
  then show ?thesis by (auto simp: queue_etcd_ok_def create_ok_def get_ok_def delete_ok_def watch_ok_def mem_etcd_def)
qed

definition mem_topics :: "string set" where "mem_topics = {''/mq/builder'', ''/mq/worker''}"

lemma mem_separate: "separate mem_topics"
  by (simp add: separate_def mem_topics_def)

definition empty_history :: history where "empty_history = \<lparr>hs_rev = 1, hs_puts = [], hs_live = []\<rparr>"

definition one_message :: history where
  "one_message = put (unique_key ''/mq/worker'' 7) ''a'' empty_history"

lemma mem_steps:
  "queue_step mem_etcd 7 (Enqueuing ''/mq/worker'' ''a'') empty_history = (Enqueued, one_message)"
  "queue_step mem_etcd 8 (Dequeuing ''/mq/worker'') one_message = (Claiming ''/mq/worker'' (hs_live one_message) False 2, one_message)"
  "queue_step mem_etcd 9 (Claiming ''/mq/worker'' (hs_live one_message) False 2) one_message =
     (Dequeued ''a'', del (unique_key ''/mq/worker'' 7) one_message)"
  by (simp_all add: queue_step_def newUniqueKV_def putNewKV_def claimFirstKey_def deleteRevKey_def mem_etcd_def one_message_def empty_history_def
        put_def Let_def under_def unique_key_def)

lemma mem_run:
  "queue_run id mem_etcd mem_topics ((\<lambda>_. QueueFailed)(0 := Enqueued, 1 := Claiming ''/mq/worker'' (hs_live one_message) False 2)) one_message"
proof -
  have "queue_run id mem_etcd mem_topics (\<lambda>_. QueueFailed) empty_history" by (rule run_begin) (simp_all add: empty_history_def)
  then have "queue_run id mem_etcd mem_topics ((\<lambda>_. QueueFailed)(0 := Enqueuing ''/mq/worker'' ''a'')) empty_history"
    by (rule run_enqueue) (simp add: mem_topics_def)
  from run_step[OF this, of 7 0 Enqueued one_message] have "queue_run id mem_etcd mem_topics ((\<lambda>_. QueueFailed)(0 := Enqueued)) one_message"
    by (simp add: mem_steps)
  then have "queue_run id mem_etcd mem_topics ((\<lambda>_. QueueFailed)(0 := Enqueued, 1 := Dequeuing ''/mq/worker'')) one_message"
    by (rule run_dequeue) (simp add: mem_topics_def)
  from run_step[OF this, of 8 1] show ?thesis by (simp add: mem_steps)
qed

theorem queue_refines_fifo_witness:
  "fifo_step ''/mq/worker'' (Claiming ''/mq/worker'' (hs_live one_message) False 2) (Dequeued ''a'') [''a''] []"
proof -
  let ?pcs = "(\<lambda>_. QueueFailed)(0 := Enqueued, 1 := Claiming ''/mq/worker'' (hs_live one_message) False 2)"
  have s: "queue_step mem_etcd 9 (?pcs 1) one_message = (Dequeued ''a'', del (unique_key ''/mq/worker'' 7) one_message)" by (simp add: mem_steps)
  have "pending ''/mq/worker'' one_message = [''a'']" "pending ''/mq/worker'' (del (unique_key ''/mq/worker'' 7) one_message) = []"
    by (simp_all add: pending_def under_def del_def one_message_def put_def Let_def empty_history_def unique_key_def)
  then show ?thesis using queue_refines_fifo[OF mem_etcd_ok mem_separate mem_run s, of "''/mq/worker''"] by (simp add: mem_topics_def)
qed

theorem queue_exactly_once_witness:
  "\<exists>pcs ins outs. queue_trace id mem_etcd mem_topics pcs one_message ins outs \<and> ins ''/mq/worker'' = [''a''] \<and>
     ins ''/mq/worker'' = outs ''/mq/worker'' @ pending ''/mq/worker'' one_message"
proof -
  have "queue_trace id mem_etcd mem_topics (\<lambda>_. QueueFailed) empty_history (\<lambda>_. []) (\<lambda>_. [])"
    by (rule trace_begin) (simp_all add: empty_history_def)
  then have "queue_trace id mem_etcd mem_topics ((\<lambda>_. QueueFailed)(0 := Enqueuing ''/mq/worker'' ''a'')) empty_history (\<lambda>_. []) (\<lambda>_. [])"
    by (rule trace_enqueue) (simp add: mem_topics_def)
  from trace_step[OF this, of 7 0 Enqueued one_message]
  have "queue_trace id mem_etcd mem_topics ((\<lambda>_. QueueFailed)(0 := Enqueued)) one_message ((\<lambda>_. [])(''/mq/worker'' := [''a''])) (\<lambda>_. [])"
    by (simp add: mem_steps accepted_def returned_def)
  from this queue_exactly_once[OF this mem_etcd_ok mem_separate, of "''/mq/worker''"] show ?thesis
    by (intro exI[of _ "(\<lambda>_. QueueFailed)(0 := Enqueued)"] exI[of _ "(\<lambda>_. [])(''/mq/worker'' := [''a''])"] exI[of _ "\<lambda>_. []"]) (simp add: mem_topics_def)
qed

text \<open>A topic that is a prefix of another takes its messages.\<close>

lemma prefix_topic_steals:
  "queue_step mem_etcd 8 (Dequeuing ''/mq/work'') one_message = (Claiming ''/mq/work'' (hs_live one_message) False 2, one_message)"
  by (simp add: queue_step_def mem_etcd_def one_message_def empty_history_def put_def Let_def under_def unique_key_def)

end
