(* ===== verification/ApiTables.thy ===== *)
theory ApiTables
  imports GoBase
begin

text \<open>
  The tables of the gateway rules (\<open>db/model/gateway.go\<close>) and the data access objects on them
  (\<open>db/mysql/dao/gateway.go\<close>).

  \<^item> GORM is a parameter: the record \<open>table\<close> has the statements that the code makes on one table, each on the contents
    of the database, of any type; a condition is a predicate on rows.
  \<^item> \<open>Find\<close> into a single row reports \<open>ErrRecordNotFound\<close> when there is none.
  \<^item> A result is an \<open>op_result\<close>: a value, an error, or a panic.
\<close>

section \<open>Statements\<close>

datatype gorm_error = ErrRecordNotFound | GormError string

record ('r, 'w) table =
  tb_First :: "('r \<Rightarrow> bool) \<Rightarrow> 'w \<Rightarrow> gorm_error + 'r"
  tb_Find :: "('r \<Rightarrow> bool) \<Rightarrow> 'w \<Rightarrow> gorm_error + 'r list"
  tb_FindAsc :: "('r \<Rightarrow> int) \<Rightarrow> ('r \<Rightarrow> bool) \<Rightarrow> 'w \<Rightarrow> gorm_error + 'r list"
  tb_Create :: "'r \<Rightarrow> 'w \<Rightarrow> gorm_error option \<times> 'w"
  tb_Save :: "('r \<Rightarrow> bool) \<Rightarrow> 'r \<Rightarrow> 'w \<Rightarrow> gorm_error option \<times> 'w"
  tb_Delete :: "('r \<Rightarrow> bool) \<Rightarrow> 'w \<Rightarrow> gorm_error option \<times> 'w"

datatype rule_error =
    ErrDB gorm_error
  | ErrAlreadyExists
  | ErrNotExist
  | ErrIngressHTTPRuleNotFound
  | ErrIngressTCPRuleNotFound
  | ErrNoMorePort
  | ErrSend

datatype 'a op_result = Done 'a | Fail rule_error | Panic

type_synonym ('a, 'w) op = "'w \<Rightarrow> 'a op_result \<times> 'w"

definition give :: "'a \<Rightarrow> ('a, 'w) op" where
  "give a w = (Done a, w)"

definition raise :: "rule_error \<Rightarrow> ('a, 'w) op" where
  "raise e w = (Fail e, w)"

text \<open>The next statement unless \<open>err != nil\<close>, and a loop of such statements.\<close>

definition and_then :: "('a, 'w) op \<Rightarrow> ('a \<Rightarrow> ('b, 'w) op) \<Rightarrow> ('b, 'w) op" where
  "and_then m f w = (case m w of (Done a, w) \<Rightarrow> f a w | (Fail e, w) \<Rightarrow> (Fail e, w) | (Panic, w) \<Rightarrow> (Panic, w))"

fun each :: "('x \<Rightarrow> (unit, 'w) op) \<Rightarrow> 'x list \<Rightarrow> (unit, 'w) op" where
  "each f [] = give ()"
| "each f (x # xs) = and_then (f x) (\<lambda>_. each f xs)"

text \<open>The dereference of a pointer.\<close>

definition deref_op :: "'a option \<Rightarrow> ('a, 'w) op" where
  "deref_op p w = (case p of Some a \<Rightarrow> (Done a, w) | None \<Rightarrow> (Panic, w))"

definition exec_stmt :: "('w \<Rightarrow> gorm_error option \<times> 'w) \<Rightarrow> (unit, 'w) op" where
  "exec_stmt f w = (case f w of (None, w) \<Rightarrow> (Done (), w) | (Some e, w) \<Rightarrow> (Fail (ErrDB e), w))"

section \<open>Rows\<close>

record gateway_certificate =
  gc_ID :: nat
  gc_UUID :: string
  gc_CertificateName :: string
  gc_Certificate :: string
  gc_PrivateKey :: string

record gateway_rule_extension =
  gx_ID :: nat
  gx_UUID :: string
  gx_RuleID :: string
  gx_Key :: string
  gx_Value :: string

record gateway_http_rule =
  gh_ID :: nat
  gh_UUID :: string
  gh_ServiceID :: string
  gh_ContainerPort :: int
  gh_Domain :: string
  gh_Path :: string
  gh_Header :: string
  gh_Cookie :: string
  gh_Weight :: int
  gh_IP :: string
  gh_CertificateID :: string

record gateway_tcp_rule =
  gt_ID :: nat
  gt_UUID :: string
  gt_ServiceID :: string
  gt_ContainerPort :: int
  gt_IP :: string
  gt_Port :: int

record gateway_rule_config =
  gf_ID :: nat
  gf_RuleID :: string
  gf_Key :: string
  gf_Value :: string

record tenant_lb_mapping_port =
  lm_ID :: nat
  lm_ServiceID :: string
  lm_Port :: int
  lm_ContainerPort :: int

record tenant_services =
  sv_ServiceID :: string
  sv_DeployVersion :: string

text \<open>The database: its tables, and the end of a transaction, from the contents before it and those inside it.\<close>

record 'w gorm =
  gm_Certificate :: "(gateway_certificate, 'w) table"
  gm_RuleExtension :: "(gateway_rule_extension, 'w) table"
  gm_HTTPRule :: "(gateway_http_rule, 'w) table"
  gm_TCPRule :: "(gateway_tcp_rule, 'w) table"
  gm_GwRuleConfig :: "(gateway_rule_config, 'w) table"
  gm_LBMappingPort :: "(tenant_lb_mapping_port, 'w) table"
  gm_TenantServices :: "(tenant_services, 'w) table"
  gm_Commit :: "'w \<Rightarrow> 'w \<Rightarrow> gorm_error option \<times> 'w"
  gm_Rollback :: "'w \<Rightarrow> 'w \<Rightarrow> 'w"

section \<open>Data access\<close>

text \<open>\<open>.RecordNotFound()\<close> of a query for one row.\<close>

definition RecordNotFound :: "gorm_error + 'r \<Rightarrow> bool" where
  "RecordNotFound r \<longleftrightarrow> r = Inl ErrRecordNotFound"

definition add_if_absent :: "('r, 'w) table \<Rightarrow> ('r \<Rightarrow> bool) \<Rightarrow> 'r \<Rightarrow> (unit, 'w) op" where
  \<comment> \<open>The common body of the methods \<open>AddModel\<close>.\<close>
  "add_if_absent T cond r w =
     (if RecordNotFound (tb_First T cond w) then exec_stmt (tb_Create T r) w else (Fail ErrAlreadyExists, w))"

definition list_rows :: "('r, 'w) table \<Rightarrow> ('r \<Rightarrow> bool) \<Rightarrow> ('r list, 'w) op" where
  "list_rows T cond w = (case tb_Find T cond w of Inl e \<Rightarrow> (Fail (ErrDB e), w) | Inr rs \<Rightarrow> (Done rs, w))"

definition list_rows_or_none :: "('r, 'w) table \<Rightarrow> ('r \<Rightarrow> bool) \<Rightarrow> ('r list, 'w) op" where
  \<comment> \<open>The variant that maps \<open>ErrRecordNotFound\<close> to no rows.\<close>
  "list_rows_or_none T cond w =
     (case tb_Find T cond w of
        Inl e \<Rightarrow> (if e = ErrRecordNotFound then Done [] else Fail (ErrDB e), w)
      | Inr rs \<Rightarrow> (Done rs, w))"

definition row_or_nil :: "('r, 'w) table \<Rightarrow> ('r \<Rightarrow> bool) \<Rightarrow> ('r option, 'w) op" where
  "row_or_nil T cond w =
     (case tb_First T cond w of
        Inl e \<Rightarrow> (if e = ErrRecordNotFound then Done None else Fail (ErrDB e), w)
      | Inr r \<Rightarrow> (Done (Some r), w))"

subsection \<open>Certificates\<close>

definition cert_AddModel :: "'w gorm \<Rightarrow> gateway_certificate \<Rightarrow> (unit, 'w) op" where
  "cert_AddModel G cert = add_if_absent (gm_Certificate G) (\<lambda>c. gc_UUID c = gc_UUID cert) cert"

definition cert_UpdateModel :: "'w gorm \<Rightarrow> gateway_certificate \<Rightarrow> (unit, 'w) op" where
  "cert_UpdateModel G cert = exec_stmt (tb_Save (gm_Certificate G) (\<lambda>c. gc_UUID c = gc_UUID cert) cert)"

definition cert_AddOrUpdate :: "'w gorm \<Rightarrow> gateway_certificate \<Rightarrow> (unit, 'w) op" where
  "cert_AddOrUpdate G cert w =
     (case tb_First (gm_Certificate G) (\<lambda>c. gc_UUID c = gc_UUID cert) w of
        Inl e \<Rightarrow>
          if e = ErrRecordNotFound then exec_stmt (tb_Create (gm_Certificate G) cert) w else (Fail (ErrDB e), w)
      | Inr old \<Rightarrow>
          exec_stmt (tb_Save (gm_Certificate G) (\<lambda>c. gc_UUID c = gc_UUID cert)
            (old\<lparr>gc_Certificate := gc_Certificate cert, gc_PrivateKey := gc_PrivateKey cert\<rparr>)) w)"

definition cert_GetCertificateByID :: "'w gorm \<Rightarrow> string \<Rightarrow> (gateway_certificate option, 'w) op" where
  "cert_GetCertificateByID G certificateID = row_or_nil (gm_Certificate G) (\<lambda>c. gc_UUID c = certificateID)"

subsection \<open>Rule extensions\<close>

definition ext_AddModel :: "'w gorm \<Rightarrow> gateway_rule_extension \<Rightarrow> (unit, 'w) op" where
  "ext_AddModel G re =
     add_if_absent (gm_RuleExtension G) (\<lambda>x. gx_RuleID x = gx_RuleID re \<and> gx_Value x = gx_Value re) re"

definition ext_UpdateModel :: "gateway_rule_extension \<Rightarrow> (unit, 'w) op" where
  "ext_UpdateModel re = give ()"

definition ext_GetRuleExtensionByRuleID :: "'w gorm \<Rightarrow> string \<Rightarrow> (gateway_rule_extension list, 'w) op" where
  "ext_GetRuleExtensionByRuleID G ruleID = list_rows_or_none (gm_RuleExtension G) (\<lambda>x. gx_RuleID x = ruleID)"

definition ext_DeleteRuleExtensionByRuleID :: "'w gorm \<Rightarrow> string \<Rightarrow> (unit, 'w) op" where
  "ext_DeleteRuleExtensionByRuleID G ruleID = exec_stmt (tb_Delete (gm_RuleExtension G) (\<lambda>x. gx_RuleID x = ruleID))"

definition ext_DeleteByRuleIDs :: "'w gorm \<Rightarrow> string list \<Rightarrow> (unit, 'w) op" where
  "ext_DeleteByRuleIDs G ruleIDs = exec_stmt (tb_Delete (gm_RuleExtension G) (\<lambda>x. gx_RuleID x \<in> set ruleIDs))"

subsection \<open>HTTP rules\<close>

definition http_AddModel :: "'w gorm \<Rightarrow> gateway_http_rule \<Rightarrow> (unit, 'w) op" where
  "http_AddModel G httpRule = add_if_absent (gm_HTTPRule G) (\<lambda>h. gh_UUID h = gh_UUID httpRule) httpRule"

definition http_UpdateModel :: "'w gorm \<Rightarrow> gateway_http_rule \<Rightarrow> (unit, 'w) op" where
  "http_UpdateModel G hr = exec_stmt (tb_Save (gm_HTTPRule G) (\<lambda>_. True) hr)"

definition zero_http_rule :: gateway_http_rule where
  "zero_http_rule =
     \<lparr>gh_ID = 0, gh_UUID = [], gh_ServiceID = [], gh_ContainerPort = 0, gh_Domain = [], gh_Path = [], gh_Header = [],
      gh_Cookie = [], gh_Weight = 0, gh_IP = [], gh_CertificateID = []\<rparr>"

definition http_GetHTTPRuleByID :: "'w gorm \<Rightarrow> string \<Rightarrow> (gateway_http_rule, 'w) op" where
  \<comment> \<open>A missing rule is the zero value, without an error.\<close>
  "http_GetHTTPRuleByID G uid w =
     (case tb_First (gm_HTTPRule G) (\<lambda>h. gh_UUID h = uid) w of
        Inl e \<Rightarrow> (if e = ErrRecordNotFound then Done zero_http_rule else Fail (ErrDB e), w)
      | Inr h \<Rightarrow> (Done h, w))"

definition http_GetByServiceIDAndContainerPort :: "'w gorm \<Rightarrow> string \<Rightarrow> int \<Rightarrow> (gateway_http_rule list, 'w) op" where
  "http_GetByServiceIDAndContainerPort G serviceID containerPort =
     list_rows_or_none (gm_HTTPRule G) (\<lambda>h. gh_ServiceID h = serviceID \<and> gh_ContainerPort h = containerPort)"

definition http_GetHTTPRulesByCertificateID :: "'w gorm \<Rightarrow> string \<Rightarrow> (gateway_http_rule list, 'w) op" where
  "http_GetHTTPRulesByCertificateID G certificateID =
     list_rows_or_none (gm_HTTPRule G) (\<lambda>h. gh_CertificateID h = certificateID)"

definition http_DeleteHTTPRuleByID :: "'w gorm \<Rightarrow> string \<Rightarrow> (unit, 'w) op" where
  "http_DeleteHTTPRuleByID G uid = exec_stmt (tb_Delete (gm_HTTPRule G) (\<lambda>h. gh_UUID h = uid))"

definition http_DeleteByComponentPort :: "'w gorm \<Rightarrow> string \<Rightarrow> int \<Rightarrow> (unit, 'w) op" where
  "http_DeleteByComponentPort G componentID port w =
     (case tb_Delete (gm_HTTPRule G) (\<lambda>h. gh_ServiceID h = componentID \<and> gh_ContainerPort h = port) w of
        (None, w) \<Rightarrow> (Done (), w)
      | (Some e, w) \<Rightarrow> (Fail (if e = ErrRecordNotFound then ErrIngressHTTPRuleNotFound else ErrDB e), w))"

definition http_DeleteHTTPRuleByServiceID :: "'w gorm \<Rightarrow> string \<Rightarrow> (unit, 'w) op" where
  "http_DeleteHTTPRuleByServiceID G serviceID = exec_stmt (tb_Delete (gm_HTTPRule G) (\<lambda>h. gh_ServiceID h = serviceID))"

definition http_ListByServiceID :: "'w gorm \<Rightarrow> string \<Rightarrow> (gateway_http_rule list, 'w) op" where
  "http_ListByServiceID G serviceID = list_rows (gm_HTTPRule G) (\<lambda>h. gh_ServiceID h = serviceID)"

definition http_ListByComponentPort :: "'w gorm \<Rightarrow> string \<Rightarrow> int \<Rightarrow> (gateway_http_rule list, 'w) op" where
  "http_ListByComponentPort G componentID port =
     list_rows (gm_HTTPRule G) (\<lambda>h. gh_ServiceID h = componentID \<and> gh_ContainerPort h = port)"

definition http_ListByCertID :: "'w gorm \<Rightarrow> string \<Rightarrow> (gateway_http_rule list, 'w) op" where
  "http_ListByCertID G certID = list_rows (gm_HTTPRule G) (\<lambda>h. gh_CertificateID h = certID)"

subsection \<open>TCP rules\<close>

definition tcp_AddModel :: "'w gorm \<Rightarrow> gateway_tcp_rule \<Rightarrow> (unit, 'w) op" where
  "tcp_AddModel G tcpRule =
     add_if_absent (gm_TCPRule G)
       (\<lambda>t. gt_UUID t = gt_UUID tcpRule \<or> (gt_IP t = gt_IP tcpRule \<and> gt_Port t = gt_Port tcpRule)) tcpRule"

definition tcp_UpdateModel :: "'w gorm \<Rightarrow> gateway_tcp_rule \<Rightarrow> (unit, 'w) op" where
  "tcp_UpdateModel G tr = exec_stmt (tb_Save (gm_TCPRule G) (\<lambda>_. True) tr)"

definition tcp_GetByServiceIDAndContainerPort :: "'w gorm \<Rightarrow> string \<Rightarrow> int \<Rightarrow> (gateway_tcp_rule list, 'w) op" where
  "tcp_GetByServiceIDAndContainerPort G serviceID containerPort =
     list_rows_or_none (gm_TCPRule G) (\<lambda>t. gt_ServiceID t = serviceID \<and> gt_ContainerPort t = containerPort)"

definition tcp_GetTCPRuleByID :: "'w gorm \<Rightarrow> string \<Rightarrow> (gateway_tcp_rule option, 'w) op" where
  "tcp_GetTCPRuleByID G uid = row_or_nil (gm_TCPRule G) (\<lambda>t. gt_UUID t = uid)"

definition tcp_GetTCPRuleByServiceID :: "'w gorm \<Rightarrow> string \<Rightarrow> (gateway_tcp_rule list, 'w) op" where
  "tcp_GetTCPRuleByServiceID G sid = list_rows_or_none (gm_TCPRule G) (\<lambda>t. gt_ServiceID t = sid)"

definition tcp_DeleteByID :: "'w gorm \<Rightarrow> string \<Rightarrow> (unit, 'w) op" where
  "tcp_DeleteByID G uuid = exec_stmt (tb_Delete (gm_TCPRule G) (\<lambda>t. gt_UUID t = uuid))"

definition tcp_DeleteTCPRuleByServiceID :: "'w gorm \<Rightarrow> string \<Rightarrow> (unit, 'w) op" where
  "tcp_DeleteTCPRuleByServiceID G serviceID = exec_stmt (tb_Delete (gm_TCPRule G) (\<lambda>t. gt_ServiceID t = serviceID))"

definition tcp_DeleteByComponentPort :: "'w gorm \<Rightarrow> string \<Rightarrow> int \<Rightarrow> (unit, 'w) op" where
  "tcp_DeleteByComponentPort G componentID port w =
     (case tb_Delete (gm_TCPRule G) (\<lambda>t. gt_ServiceID t = componentID \<and> gt_ContainerPort t = port) w of
        (None, w) \<Rightarrow> (Done (), w)
      | (Some e, w) \<Rightarrow> (Fail (if e = ErrRecordNotFound then ErrIngressTCPRuleNotFound else ErrDB e), w))"

definition any_ip :: string where "any_ip = ''0.0.0.0''"

definition tcp_GetUsedPortsByIP :: "'w gorm \<Rightarrow> string \<Rightarrow> (gateway_tcp_rule list, 'w) op" where
  "tcp_GetUsedPortsByIP G ip w =
     (case tb_FindAsc (gm_TCPRule G) gt_Port (\<lambda>t. ip = any_ip \<or> gt_IP t = ip \<or> gt_IP t = any_ip) w of
        Inl e \<Rightarrow> (Fail (ErrDB e), w)
      | Inr rs \<Rightarrow> (Done rs, w))"

definition tcp_ListByServiceID :: "'w gorm \<Rightarrow> string \<Rightarrow> (gateway_tcp_rule list, 'w) op" where
  "tcp_ListByServiceID G serviceID = list_rows (gm_TCPRule G) (\<lambda>t. gt_ServiceID t = serviceID)"

subsection \<open>Rule configurations\<close>

definition cfg_AddModel :: "'w gorm \<Rightarrow> gateway_rule_config \<Rightarrow> (unit, 'w) op" where
  "cfg_AddModel G cfg =
     add_if_absent (gm_GwRuleConfig G) (\<lambda>f. gf_RuleID f = gf_RuleID cfg \<and> gf_Key f = gf_Key cfg) cfg"

definition cfg_UpdateModel :: "gateway_rule_config \<Rightarrow> (unit, 'w) op" where
  "cfg_UpdateModel cfg = give ()"

definition cfg_DeleteByRuleID :: "'w gorm \<Rightarrow> string \<Rightarrow> (unit, 'w) op" where
  "cfg_DeleteByRuleID G rid = exec_stmt (tb_Delete (gm_GwRuleConfig G) (\<lambda>f. gf_RuleID f = rid))"

definition cfg_ListByRuleID :: "'w gorm \<Rightarrow> string \<Rightarrow> (gateway_rule_config list, 'w) op" where
  "cfg_ListByRuleID G rid = list_rows (gm_GwRuleConfig G) (\<lambda>f. gf_RuleID f = rid)"

definition cfg_DeleteByRuleIDs :: "'w gorm \<Rightarrow> string list \<Rightarrow> (unit, 'w) op" where
  "cfg_DeleteByRuleIDs G ruleIDs = exec_stmt (tb_Delete (gm_GwRuleConfig G) (\<lambda>f. gf_RuleID f \<in> set ruleIDs))"

subsection \<open>Other tables\<close>

definition lb_DELServiceLBMappingPort :: "'w gorm \<Rightarrow> string \<Rightarrow> int \<Rightarrow> (unit, 'w) op" where
  "lb_DELServiceLBMappingPort G serviceID lbport =
     exec_stmt (tb_Delete (gm_LBMappingPort G) (\<lambda>m. lm_ServiceID m = serviceID \<and> lm_Port m = lbport))"

definition service_GetServiceByID :: "'w gorm \<Rightarrow> string \<Rightarrow> (tenant_services, 'w) op" where
  "service_GetServiceByID G serviceID w =
     (case tb_First (gm_TenantServices G) (\<lambda>s. sv_ServiceID s = serviceID) w of
        Inl e \<Rightarrow> (Fail (ErrDB e), w)
      | Inr s \<Rightarrow> (Done s, w))"

end
