(* ===== verification/ApiRules.thy ===== *)
theory ApiRules
  imports ApiTables GwController AppService MqQueue
begin

text \<open>
  The gateway rules of the API server: \<open>api/handler/gateway_action.go\<close> and \<open>api/controller/gateway.go\<close>.

  \<^item> The state is the database, the locked ports and the tasks that the message queue has accepted.
  \<^item> A transaction works on its own contents of the database; \<open>in_tx\<close> ends it. Transactions run one after another.
  \<^item> New identifiers, the environment variables, the readings of the clock and the answers of the queue are arguments.
    Pointers in a request that the JSON may leave nil are options.
\<close>

section \<open>Requests (api/model/gateway_model.go)\<close>

record RuleExtensionStruct =
  rs_Key :: string
  rs_Value :: string

record AddHTTPRuleStruct =
  ah_HTTPRuleID :: string
  ah_ServiceID :: string
  ah_ContainerPort :: int
  ah_Domain :: string
  ah_Path :: string
  ah_Header :: string
  ah_Cookie :: string
  ah_Weight :: int
  ah_IP :: string
  ah_CertificateID :: string
  ah_Certificate :: string
  ah_PrivateKey :: string
  ah_RuleExtensions :: "RuleExtensionStruct option list"

text \<open>The request of an update has the same fields.\<close>

type_synonym UpdateHTTPRuleStruct = AddHTTPRuleStruct

record AddTCPRuleStruct =
  at_TCPRuleID :: string
  at_ServiceID :: string
  at_ContainerPort :: int
  at_IP :: string
  at_Port :: int
  at_RuleExtensions :: "RuleExtensionStruct option list"

type_synonym UpdateTCPRuleStruct = AddTCPRuleStruct

record SetHeader =
  sh_Key :: string
  sh_Value :: string

record rule_Body =
  bd_ProxyConnectTimeout :: int
  bd_ProxySendTimeout :: int
  bd_ProxyReadTimeout :: int
  bd_ProxyBodySize :: int
  bd_SetHeaders :: "SetHeader option list"
  bd_ProxyBufferSize :: int
  bd_ProxyBufferNumbers :: int
  bd_ProxyBuffering :: string

record RuleConfigReq =
  cr_RuleID :: string
  cr_ServiceID :: string
  cr_EventID :: string
  cr_Body :: rule_Body

record UpdCertificateReq =
  uc_CertificateID :: string
  uc_CertificateName :: string
  uc_Certificate :: string
  uc_PrivateKey :: string

section \<open>State and environment\<close>

datatype body_value = BodyString string | BodyMap "(string, string) gomap"

type_synonym rule_task = "(string, body_value) gomap TaskStruct"

record 'w api_state =
  ga_db :: 'w
  ga_lockPort :: "(int, int) gomap"
  ga_tasks :: "rule_task list"

record 'w api_env =
  ev_gorm :: "'w gorm"
  ev_NewUUID :: "nat \<Rightarrow> string"
  ev_Send :: "rule_task \<Rightarrow> bool"
  ev_Getenv :: "string \<Rightarrow> string"

definition CreateGatewayManager :: "'w \<Rightarrow> 'w api_state" where
  "CreateGatewayManager w = \<lparr>ga_db = w, ga_lockPort = [], ga_tasks = []\<rparr>"

definition in_tx :: "'w gorm \<Rightarrow> ('a, 'w) op \<Rightarrow> ('a, 'w) op" where
  \<comment> \<open>A rollback after a failed commit, which all operations but \<open>DeleteHTTPRule\<close> ask for, meets a finished transaction and does nothing.\<close>
  "in_tx G body w =
     (case body w of
        (Done a, tx) \<Rightarrow>
          (case gm_Commit G w tx of
             (None, w') \<Rightarrow> (Done a, w')
           | (Some e, w') \<Rightarrow> (Fail (ErrDB e), w'))
      | (Fail e, tx) \<Rightarrow> (Fail e, gm_Rollback G w tx)
      | (Panic, tx) \<Rightarrow> (Panic, gm_Rollback G w tx))"

definition on_db :: "('a, 'w) op \<Rightarrow> ('a, 'w api_state) op" where
  "on_db m s = (case m (ga_db s) of (r, w) \<Rightarrow> (r, s\<lparr>ga_db := w\<rparr>))"

text \<open>The deferred function with \<open>recover\<close>: the function returns the zero value of its result, no error.\<close>

definition recovering :: "(unit, 's) op \<Rightarrow> (unit, 's) op" where
  "recovering m s = (case m s of (Panic, s) \<Rightarrow> (Done (), s) | r \<Rightarrow> r)"

section \<open>Tasks\<close>

definition SendTask :: "'w api_env \<Rightarrow> string \<Rightarrow> (string, body_value) gomap \<Rightarrow> (unit, 'w api_state) op" where
  \<comment> \<open>\<open>sid\<close> is the entry \<open>service_id\<close> of the map, which every caller gives as a string, and \<open>inp\<close> the others.\<close>
  "SendTask E sid inp =
     and_then (on_db (service_GetServiceByID (ev_gorm E) sid)) (\<lambda>service s.
       (let body = fold (\<lambda>(k, v). map_set k v) ((''service_id'', BodyString sid) # inp)
                     [(''deploy_version'', BodyString (sv_DeployVersion service))];
            task = \<lparr>tt_Topic = WorkerTopic, tt_TaskType = ''apply_rule'', tt_TaskBody = body\<rparr>
        in if ev_Send E task then (Done (), s\<lparr>ga_tasks := ga_tasks s @ [task]\<rparr>) else (Fail ErrSend, s)))"

text \<open>An error of \<open>SendTask\<close> is only logged.\<close>

definition notify :: "'w api_env \<Rightarrow> string \<Rightarrow> string \<Rightarrow> (string, string) gomap \<Rightarrow> (unit, 'w api_state) op" where
  "notify E sid action limit s =
     (case SendTask E sid [(''action'', BodyString action), (''limit'', BodyMap limit)] s of
        (Fail e, s) \<Rightarrow> (Done (), s) | r \<Rightarrow> r)"

definition notify_config :: "'w api_env \<Rightarrow> string \<Rightarrow> string \<Rightarrow> string \<Rightarrow> (unit, 'w api_state) op" where
  "notify_config E sid eventID domain s =
     (case SendTask E sid
             [(''action'', BodyString ''update-rule-config''), (''event_id'', BodyString eventID),
              (''limit'', BodyMap [(''domain'', domain)])] s of
        (Fail e, s) \<Rightarrow> (Done (), s) | r \<Rightarrow> r)"

definition tcp_address :: "string \<Rightarrow> int \<Rightarrow> string" where
  "tcp_address ip port = ip @ '':'' @ Itoa port"

section \<open>HTTP rules\<close>

definition slash_path :: "string \<Rightarrow> string" where
  "slash_path path = (if \<not> HasPrefix path ''/'' then ''/'' @ path else path)"

definition has_certificate :: "string \<Rightarrow> bool" where
  "has_certificate certificateID \<longleftrightarrow> Replace certificateID '' '' [] (-1) \<noteq> []"

definition cert_name :: "string \<Rightarrow> string" where
  "cert_name uuid = ''cert-'' @ take 8 uuid"

text \<open>The loops that create the extensions of a rule; the identifiers are drawn in order, from the given number on.\<close>

definition extension_row :: "string \<Rightarrow> string \<Rightarrow> string \<Rightarrow> string \<Rightarrow> gateway_rule_extension" where
  "extension_row uuid ruleID key val =
     \<lparr>gx_ID = 0, gx_UUID = uuid, gx_RuleID = ruleID, gx_Key = key, gx_Value = val\<rparr>"

fun add_http_extensions ::
  "'w api_env \<Rightarrow> nat \<Rightarrow> string \<Rightarrow> RuleExtensionStruct option list \<Rightarrow> (unit, 'w) op" where
  "add_http_extensions E n ruleID [] = give ()"
| "add_http_extensions E n ruleID (x # xs) =
     and_then (deref_op x) (\<lambda>x.
       and_then (ext_AddModel (ev_gorm E) (extension_row (ev_NewUUID E n) ruleID (rs_Key x) (rs_Value x)))
         (\<lambda>_. add_http_extensions E (Suc n) ruleID xs))"

fun AddRuleExtensions ::
  "'w api_env \<Rightarrow> nat \<Rightarrow> string \<Rightarrow> RuleExtensionStruct option list \<Rightarrow> (unit, 'w) op" where
  "AddRuleExtensions E n ruleID [] = give ()"
| "AddRuleExtensions E n ruleID (x # xs) =
     and_then (deref_op x) (\<lambda>x.
       and_then (ext_AddModel (ev_gorm E) (extension_row (ev_NewUUID E n) ruleID [] (rs_Value x)))
         (\<lambda>_. AddRuleExtensions E (Suc n) ruleID xs))"

definition http_rule_of :: "AddHTTPRuleStruct \<Rightarrow> gateway_http_rule" where
  "http_rule_of req =
     \<lparr>gh_ID = 0, gh_UUID = ah_HTTPRuleID req, gh_ServiceID = ah_ServiceID req, gh_ContainerPort = ah_ContainerPort req,
      gh_Domain = ah_Domain req, gh_Path = slash_path (ah_Path req), gh_Header = ah_Header req, gh_Cookie = ah_Cookie req,
      gh_Weight = ah_Weight req, gh_IP = ah_IP req, gh_CertificateID = ah_CertificateID req\<rparr>"

definition certificate_of :: "string \<Rightarrow> AddHTTPRuleStruct \<Rightarrow> gateway_certificate" where
  "certificate_of name req =
     \<lparr>gc_ID = 0, gc_UUID = ah_CertificateID req, gc_CertificateName = name,
      gc_Certificate = ah_Certificate req, gc_PrivateKey = ah_PrivateKey req\<rparr>"

definition CreateHTTPRule :: "'w api_env \<Rightarrow> AddHTTPRuleStruct \<Rightarrow> (unit, 'w) op" where
  "CreateHTTPRule E req =
     and_then (http_AddModel (ev_gorm E) (http_rule_of req)) (\<lambda>_.
     and_then
       (if has_certificate (ah_CertificateID req)
        then cert_AddOrUpdate (ev_gorm E) (certificate_of (cert_name (ev_NewUUID E 0)) req) else give ()) (\<lambda>_.
     add_http_extensions E 1 (ah_HTTPRuleID req) (ah_RuleExtensions req)))"

definition AddHTTPRule :: "'w api_env \<Rightarrow> AddHTTPRuleStruct \<Rightarrow> (unit, 'w api_state) op" where
  "AddHTTPRule E req =
     and_then (on_db (in_tx (ev_gorm E) (CreateHTTPRule E req))) (\<lambda>_.
     notify E (ah_ServiceID req) ''add-http-rule'' [(''domain'', ah_Domain req)])"

definition http_rule_updated :: "UpdateHTTPRuleStruct \<Rightarrow> gateway_http_rule \<Rightarrow> gateway_http_rule" where
  "http_rule_updated req rule =
     rule\<lparr>gh_CertificateID := (if has_certificate (ah_CertificateID req) then ah_CertificateID req else []),
          gh_ServiceID := (if ah_ServiceID req \<noteq> [] then ah_ServiceID req else gh_ServiceID rule),
          gh_ContainerPort := (if ah_ContainerPort req \<noteq> 0 then ah_ContainerPort req else gh_ContainerPort rule),
          gh_Domain := (if ah_Domain req \<noteq> [] then ah_Domain req else gh_Domain rule),
          gh_Path := slash_path (ah_Path req), gh_Header := ah_Header req, gh_Cookie := ah_Cookie req,
          gh_Weight := ah_Weight req, gh_IP := (if ah_IP req \<noteq> [] then ah_IP req else gh_IP rule)\<rparr>"

definition update_http_tx :: "'w api_env \<Rightarrow> UpdateHTTPRuleStruct \<Rightarrow> (gateway_http_rule, 'w) op" where
  "update_http_tx E req =
     and_then (http_GetHTTPRuleByID (ev_gorm E) (ah_HTTPRuleID req)) (\<lambda>rule.
     if gh_UUID rule = [] then raise ErrNotExist
     else
       and_then (if has_certificate (ah_CertificateID req) then cert_AddOrUpdate (ev_gorm E) (certificate_of [] req) else give ()) (\<lambda>_.
       and_then
         (if ah_RuleExtensions req \<noteq> [] then
            and_then (ext_DeleteRuleExtensionByRuleID (ev_gorm E) (gh_UUID rule))
              (\<lambda>_. add_http_extensions E 0 (gh_UUID rule) (ah_RuleExtensions req))
          else give ()) (\<lambda>_.
       and_then (http_UpdateModel (ev_gorm E) (http_rule_updated req rule)) (\<lambda>_. give (http_rule_updated req rule)))))"

definition UpdateHTTPRule :: "'w api_env \<Rightarrow> UpdateHTTPRuleStruct \<Rightarrow> (unit, 'w api_state) op" where
  "UpdateHTTPRule E req =
     recovering (and_then (on_db (in_tx (ev_gorm E) (update_http_tx E req))) (\<lambda>rule.
       notify E (gh_ServiceID rule) ''update-http-rule'' [(''domain'', ah_Domain req)]))"

definition isCertificateBeingUsed :: "'w api_env \<Rightarrow> string \<Rightarrow> (bool, 'w) op" where
  "isCertificateBeingUsed E certID =
     and_then (http_GetHTTPRulesByCertificateID (ev_gorm E) certID) (\<lambda>rules. give (rules \<noteq> []))"

definition delete_http_tx :: "'w api_env \<Rightarrow> string \<Rightarrow> (gateway_http_rule, 'w) op" where
  "delete_http_tx E ruleID =
     and_then (http_GetHTTPRuleByID (ev_gorm E) ruleID) (\<lambda>httpRule.
     and_then (http_DeleteHTTPRuleByID (ev_gorm E) (gh_UUID httpRule)) (\<lambda>_.
     and_then (ext_DeleteRuleExtensionByRuleID (ev_gorm E) (gh_UUID httpRule)) (\<lambda>_.
     give httpRule)))"

definition DeleteHTTPRule :: "'w api_env \<Rightarrow> string \<Rightarrow> (unit, 'w api_state) op" where
  "DeleteHTTPRule E ruleID =
     recovering (and_then (on_db (in_tx (ev_gorm E) (delete_http_tx E ruleID))) (\<lambda>httpRule.
       notify E (gh_ServiceID httpRule) ''delete-http-rule'' [(''domain'', gh_Domain httpRule)]))"

definition DeleteHTTPRuleByServiceIDWithTransaction :: "'w api_env \<Rightarrow> string \<Rightarrow> (unit, 'w) op" where
  "DeleteHTTPRuleByServiceIDWithTransaction E sid =
     and_then (http_ListByServiceID (ev_gorm E) sid) (\<lambda>rules.
     each (\<lambda>rule.
       and_then (ext_DeleteRuleExtensionByRuleID (ev_gorm E) (gh_UUID rule)) (\<lambda>_.
       and_then (cfg_DeleteByRuleID (ev_gorm E) (gh_UUID rule)) (\<lambda>_.
       http_DeleteHTTPRuleByID (ev_gorm E) (gh_UUID rule)))) rules)"

definition AddCertificate :: "'w api_env \<Rightarrow> AddHTTPRuleStruct \<Rightarrow> (unit, 'w) op" where
  "AddCertificate E req = cert_AddModel (ev_gorm E) (certificate_of (cert_name (ev_NewUUID E 0)) req)"

definition UpdateCertificate :: "'w api_env \<Rightarrow> AddHTTPRuleStruct \<Rightarrow> (unit, 'w) op" where
  "UpdateCertificate E req =
     and_then (cert_GetCertificateByID (ev_gorm E) (ah_CertificateID req)) (\<lambda>cert.
     case cert of
       None \<Rightarrow> raise ErrNotExist
     | Some cert \<Rightarrow>
         cert_UpdateModel (ev_gorm E)
           (cert\<lparr>gc_CertificateName := cert_name (ev_NewUUID E 0), gc_Certificate := ah_Certificate req,
                 gc_PrivateKey := ah_PrivateKey req\<rparr>))"

section \<open>TCP rules\<close>

definition tcp_rule_of :: "AddTCPRuleStruct \<Rightarrow> gateway_tcp_rule" where
  "tcp_rule_of req =
     \<lparr>gt_ID = 0, gt_UUID = at_TCPRuleID req, gt_ServiceID = at_ServiceID req, gt_ContainerPort = at_ContainerPort req,
      gt_IP = at_IP req, gt_Port = at_Port req\<rparr>"

definition CreateTCPRule :: "'w api_env \<Rightarrow> AddTCPRuleStruct \<Rightarrow> (unit, 'w) op" where
  "CreateTCPRule E req =
     and_then (tcp_AddModel (ev_gorm E) (tcp_rule_of req)) (\<lambda>_.
     AddRuleExtensions E 0 (at_TCPRuleID req) (at_RuleExtensions req))"

definition AddTCPRule :: "'w api_env \<Rightarrow> AddTCPRuleStruct \<Rightarrow> (unit, 'w api_state) op" where
  "AddTCPRule E req =
     and_then (on_db (in_tx (ev_gorm E) (CreateTCPRule E req))) (\<lambda>_.
     notify E (at_ServiceID req) ''add-tcp-rule'' [(''tcp-address'', tcp_address (at_IP req) (at_Port req))])"

definition tcp_rule_updated :: "UpdateTCPRuleStruct \<Rightarrow> gateway_tcp_rule \<Rightarrow> gateway_tcp_rule" where
  "tcp_rule_updated req rule =
     rule\<lparr>gt_ContainerPort := (if at_ContainerPort req \<noteq> 0 then at_ContainerPort req else gt_ContainerPort rule),
          gt_IP := (if at_IP req \<noteq> [] then at_IP req else gt_IP rule), gt_Port := at_Port req,
          gt_ServiceID := (if at_ServiceID req \<noteq> [] then at_ServiceID req else gt_ServiceID rule)\<rparr>"

definition update_tcp_tx :: "'w api_env \<Rightarrow> UpdateTCPRuleStruct \<Rightarrow> (gateway_tcp_rule, 'w) op" where
  \<comment> \<open>The pointer to a missing rule is nil.\<close>
  "update_tcp_tx E req =
     and_then (tcp_GetTCPRuleByID (ev_gorm E) (at_TCPRuleID req)) (\<lambda>p.
     and_then (deref_op p) (\<lambda>tcpRule.
     and_then
       (if at_RuleExtensions req \<noteq> [] then
          and_then (ext_DeleteRuleExtensionByRuleID (ev_gorm E) (gt_UUID tcpRule))
            (\<lambda>_. AddRuleExtensions E 0 (gt_UUID tcpRule) (at_RuleExtensions req))
        else give ()) (\<lambda>_.
     and_then (tcp_UpdateModel (ev_gorm E) (tcp_rule_updated req tcpRule)) (\<lambda>_. give (tcp_rule_updated req tcpRule)))))"

definition UpdateTCPRule :: "'w api_env \<Rightarrow> UpdateTCPRuleStruct \<Rightarrow> (unit, 'w api_state) op" where
  "UpdateTCPRule E req =
     recovering (and_then (on_db (in_tx (ev_gorm E) (update_tcp_tx E req))) (\<lambda>tcpRule.
       notify E (gt_ServiceID tcpRule) ''update-tcp-rule'' [(''tcp-address'', tcp_address (gt_IP tcpRule) (gt_Port tcpRule))]))"

definition delete_tcp_tx :: "'w api_env \<Rightarrow> string \<Rightarrow> (gateway_tcp_rule, 'w) op" where
  "delete_tcp_tx E ruleID =
     and_then (tcp_GetTCPRuleByID (ev_gorm E) ruleID) (\<lambda>p.
     and_then (deref_op p) (\<lambda>tcpRule.
     and_then (ext_DeleteRuleExtensionByRuleID (ev_gorm E) (gt_UUID tcpRule)) (\<lambda>_.
     and_then (tcp_DeleteByID (ev_gorm E) (gt_UUID tcpRule)) (\<lambda>_.
     and_then (lb_DELServiceLBMappingPort (ev_gorm E) (gt_ServiceID tcpRule) (gt_Port tcpRule)) (\<lambda>_.
     give tcpRule)))))"

definition DeleteTCPRule :: "'w api_env \<Rightarrow> string \<Rightarrow> (unit, 'w api_state) op" where
  "DeleteTCPRule E ruleID =
     recovering (and_then (on_db (in_tx (ev_gorm E) (delete_tcp_tx E ruleID))) (\<lambda>tcpRule.
       notify E (gt_ServiceID tcpRule) ''delete-tcp-rule'' [(''tcp-address'', tcp_address (gt_IP tcpRule) (gt_Port tcpRule))]))"

definition DeleteTCPRuleByServiceIDWithTransaction :: "'w api_env \<Rightarrow> string \<Rightarrow> (unit, 'w) op" where
  "DeleteTCPRuleByServiceIDWithTransaction E sid =
     and_then (tcp_GetTCPRuleByServiceID (ev_gorm E) sid) (\<lambda>rules.
     each (\<lambda>rule.
       and_then (ext_DeleteRuleExtensionByRuleID (ev_gorm E) (gt_UUID rule)) (\<lambda>_.
       tcp_DeleteByID (ev_gorm E) (gt_UUID rule))) rules)"

section \<open>Ports\<close>

definition minPort :: "'w api_env \<Rightarrow> int" where
  "minPort E = (let p = Atoi_value (ev_Getenv E ''MIN_LB_PORT'') in if p = 0 then 10000 else p)"

definition maxPort :: "'w api_env \<Rightarrow> int" where
  "maxPort E = (let p = Atoi_value (ev_Getenv E ''MAX_LB_PORT'') in if p = 0 then 65535 else p)"

text \<open>The loop that picks up an earlier port: \<open>Inr\<close> is the return from within it.\<close>

fun pick_port :: "int list \<Rightarrow> int \<Rightarrow> int + int" where
  "pick_port [] selectPort = Inl selectPort"
| "pick_port (p # ps) selectPort =
     (if p = selectPort then pick_port ps (selectPort + 1)
      else if p > selectPort then Inr selectPort
      else pick_port ps (selectPort + 1))"

definition selectAvailablePort :: "int \<Rightarrow> int \<Rightarrow> int list \<Rightarrow> int" where
  "selectAvailablePort lo hi used =
     (if used = [] then lo
      else
        (let ports = sort used; selectPort = max lo (last ports + 1) in
         if selectPort \<le> hi then selectPort
         else
           (case pick_port ports lo of
              Inr p \<Rightarrow> p
            | Inl p \<Rightarrow> if p \<le> hi then p else 0)))"

text \<open>The loop over the locked ports: \<open>clock i\<close> is the reading of the clock in turn \<open>i\<close>.\<close>

fun locked_ports :: "(nat \<Rightarrow> int) \<Rightarrow> nat \<Rightarrow> (int, int) gomap \<Rightarrow> (int, int) gomap \<Rightarrow> int list \<Rightarrow> (int, int) gomap \<times> int list" where
  "locked_ports clock i [] locks ports = (locks, ports)"
| "locked_ports clock i ((p, timeout) # es) locks ports =
     (if timeout < clock i then locked_ports clock (Suc i) es (AList.delete p locks) ports
      else locked_ports clock (Suc i) es locks (ports @ [p]))"

definition lock_time :: int where "lock_time = 2 * 60 * 1000000000"

definition GetAvailablePort ::
  "'w api_env \<Rightarrow> ((int, int) gomap \<Rightarrow> (int, int) gomap) \<Rightarrow> (nat \<Rightarrow> int) \<Rightarrow> string \<Rightarrow> bool \<Rightarrow> (int, 'w api_state) op" where
  "GetAvailablePort E rng clock ip lock =
     and_then (on_db (tcp_GetUsedPortsByIP (ev_gorm E) ip)) (\<lambda>roles s.
       (let (locks, ports) = locked_ports clock 0 (rng (ga_lockPort s)) (ga_lockPort s) (map gt_Port roles);
            port = selectAvailablePort (minPort E) (maxPort E) ports
        in if port \<noteq> 0 then
             (Done port,
              s\<lparr>ga_lockPort := (if lock then map_set port (clock (length (ga_lockPort s)) + lock_time) locks else locks)\<rparr>)
           else (Fail ErrNoMorePort, s\<lparr>ga_lockPort := locks\<rparr>)))"

definition TCPIPPortExists :: "'w api_env \<Rightarrow> string \<Rightarrow> int \<Rightarrow> 'w \<Rightarrow> bool" where
  \<comment> \<open>The error of the query is ignored.\<close>
  "TCPIPPortExists E host port w =
     (case tcp_GetUsedPortsByIP (ev_gorm E) host w of
        (Done roles, w) \<Rightarrow> port \<in> gt_Port ` set roles
      | _ \<Rightarrow> False)"

text \<open>The addresses of the gateway nodes with a free port each; \<open>ips\<close> are the values etcd has under \<open>/kato/gateway/ips\<close>,
  \<open>clocks j\<close> the readings of the clock in call \<open>j\<close>. An error of \<open>GetAvailablePort\<close> is ignored; the port is then 0.\<close>

definition available_or_zero ::
  "'w api_env \<Rightarrow> ((int, int) gomap \<Rightarrow> (int, int) gomap) \<Rightarrow> (nat \<Rightarrow> int) \<Rightarrow> string \<Rightarrow> 'w api_state \<Rightarrow> int \<times> 'w api_state" where
  "available_or_zero E rng clock ip s =
     (case GetAvailablePort E rng clock ip False s of (Done p, s) \<Rightarrow> (p, s) | (_, s) \<Rightarrow> (0, s))"

fun gateway_ips ::
  "'w api_env \<Rightarrow> ((int, int) gomap \<Rightarrow> (int, int) gomap) \<Rightarrow> (nat \<Rightarrow> nat \<Rightarrow> int) \<Rightarrow> nat \<Rightarrow> string list \<Rightarrow> 'w api_state \<Rightarrow>
   (string \<times> int) list \<times> 'w api_state" where
  "gateway_ips E rng clocks j [] s = ([], s)"
| "gateway_ips E rng clocks j (v # vs) s =
     (let (p, s) = available_or_zero E rng (clocks j) v s; (rest, s) = gateway_ips E rng clocks (Suc j) vs s
      in ((v, p) # rest, s))"

definition GetGatewayIPs ::
  "'w api_env \<Rightarrow> ((int, int) gomap \<Rightarrow> (int, int) gomap) \<Rightarrow> (nat \<Rightarrow> nat \<Rightarrow> int) \<Rightarrow> string list option \<Rightarrow> 'w api_state \<Rightarrow>
   (string \<times> int) list \<times> 'w api_state" where
  "GetGatewayIPs E rng clocks ips s =
     (let (p, s) = available_or_zero E rng (clocks 0) any_ip s in
      case ips of
        None \<Rightarrow> ([(any_ip, p)], s)
      | Some gatewayIps \<Rightarrow>
          (let (rest, s) = gateway_ips E rng clocks 1 (fold insert_sorted gatewayIps []) s in ((any_ip, p) # rest, s)))"

section \<open>Rule configurations and certificates\<close>

fun set_headers :: "SetHeader option list \<Rightarrow> (string, string) gomap \<Rightarrow> (string, string) gomap option" where
  "set_headers [] m = Some m"
| "set_headers (None # items) m = None"
| "set_headers (Some item # items) m =
     (if TrimSpace (sh_Key item) = [] then set_headers items m
      else set_headers items
             (map_set (''set-header-'' @ sh_Key item) (if TrimSpace (sh_Value item) = [] then ''empty'' else sh_Value item) m))"

definition body_settings :: "rule_Body \<Rightarrow> (string \<times> string) list" where
  "body_settings b =
     [(''proxy-connect-timeout'', Itoa (bd_ProxyConnectTimeout b)),
      (''proxy-send-timeout'', Itoa (bd_ProxySendTimeout b)),
      (''proxy-read-timeout'', Itoa (bd_ProxyReadTimeout b)),
      (''proxy-body-size'', Itoa (bd_ProxyBodySize b)),
      (''proxy-buffer-size'', Itoa (bd_ProxyBufferSize b) @ ''k''),
      (''proxy-buffer-numbers'', Itoa (bd_ProxyBufferNumbers b)),
      (''proxy-buffering'', bd_ProxyBuffering b)]"

definition config_row :: "string \<Rightarrow> string \<times> string \<Rightarrow> gateway_rule_config" where
  "config_row ruleID kv = \<lparr>gf_ID = 0, gf_RuleID = ruleID, gf_Key = fst kv, gf_Value = snd kv\<rparr>"

definition rule_configs ::
  "((string, string) gomap \<Rightarrow> (string, string) gomap) \<Rightarrow> RuleConfigReq \<Rightarrow> gateway_rule_config list option" where
  "rule_configs rng req =
     map_option (\<lambda>headers. map (config_row (cr_RuleID req)) (body_settings (cr_Body req) @ rng headers))
       (set_headers (bd_SetHeaders (cr_Body req)) [])"

definition rule_config_tx :: "'w api_env \<Rightarrow> string \<Rightarrow> gateway_rule_config list \<Rightarrow> (unit, 'w) op" where
  "rule_config_tx E ruleID configs =
     and_then (cfg_DeleteByRuleID (ev_gorm E) ruleID) (\<lambda>_. each (cfg_AddModel (ev_gorm E)) configs)"

definition RuleConfig ::
  "'w api_env \<Rightarrow> ((string, string) gomap \<Rightarrow> (string, string) gomap) \<Rightarrow> RuleConfigReq \<Rightarrow> (unit, 'w api_state) op" where
  "RuleConfig E rng req =
     and_then (deref_op (rule_configs rng req)) (\<lambda>configs.
     and_then (on_db (http_GetHTTPRuleByID (ev_gorm E) (cr_RuleID req))) (\<lambda>rule.
     recovering (and_then (on_db (in_tx (ev_gorm E) (rule_config_tx E (cr_RuleID req) configs))) (\<lambda>_.
       notify_config E (cr_ServiceID req) (cr_EventID req) (gh_Domain rule)))))"

definition ListHTTPRulesByCertID :: "'w api_env \<Rightarrow> string \<Rightarrow> (gateway_http_rule list, 'w) op" where
  "ListHTTPRulesByCertID E certID = http_ListByCertID (ev_gorm E) certID"

fun notify_rules :: "'w api_env \<Rightarrow> nat \<Rightarrow> gateway_http_rule list \<Rightarrow> (unit, 'w api_state) op" where
  "notify_rules E n [] = give ()"
| "notify_rules E n (rule # rules) =
     and_then (notify_config E (gh_ServiceID rule) (ev_NewUUID E n) (gh_Domain rule)) (\<lambda>_. notify_rules E (Suc n) rules)"

definition UpdCertificate :: "'w api_env \<Rightarrow> UpdCertificateReq \<Rightarrow> (unit, 'w api_state) op" where
  "UpdCertificate E req =
     and_then (on_db (cert_GetCertificateByID (ev_gorm E) (uc_CertificateID req))) (\<lambda>cert.
     case cert of
       None \<Rightarrow>
         on_db (cert_AddModel (ev_gorm E)
           \<lparr>gc_ID = 0, gc_UUID = uc_CertificateID req, gc_CertificateName = uc_CertificateName req,
            gc_Certificate = uc_Certificate req, gc_PrivateKey = uc_PrivateKey req\<rparr>)
     | Some cert \<Rightarrow>
         and_then (on_db (cert_UpdateModel (ev_gorm E)
           (cert\<lparr>gc_CertificateName := uc_CertificateName req, gc_Certificate := uc_Certificate req,
                 gc_PrivateKey := uc_PrivateKey req\<rparr>))) (\<lambda>_.
         and_then (on_db (ListHTTPRulesByCertID E (uc_CertificateID req))) (\<lambda>rules. notify_rules E 0 rules)))"

section \<open>Rules of a port\<close>

definition listHTTPRuleIDs :: "'w api_env \<Rightarrow> string \<Rightarrow> int \<Rightarrow> (string list, 'w) op" where
  "listHTTPRuleIDs E componentID port =
     and_then (http_ListByComponentPort (ev_gorm E) componentID port) (\<lambda>rules. give (map gh_UUID rules))"

definition ignoring :: "rule_error \<Rightarrow> (unit, 'w) op \<Rightarrow> (unit, 'w) op" where
  "ignoring e m w = (case m w of (Fail e', w) \<Rightarrow> (if e' = e then Done () else Fail e', w) | r \<Rightarrow> r)"

definition DeleteIngressRulesByComponentPort :: "'w api_env \<Rightarrow> 'w \<Rightarrow> string \<Rightarrow> int \<Rightarrow> (unit, 'w) op" where
  \<comment> \<open>The identifiers are read outside of the transaction, from the contents \<open>db\<close>.\<close>
  "DeleteIngressRulesByComponentPort E db componentID port tx =
     (case listHTTPRuleIDs E componentID port db of
        (Done httpRuleIDs, _) \<Rightarrow>
          and_then (cfg_DeleteByRuleIDs (ev_gorm E) httpRuleIDs) (\<lambda>_.
          and_then (ext_DeleteByRuleIDs (ev_gorm E) httpRuleIDs) (\<lambda>_.
          and_then (ignoring ErrIngressHTTPRuleNotFound (http_DeleteByComponentPort (ev_gorm E) componentID port)) (\<lambda>_.
          ignoring ErrIngressTCPRuleNotFound (tcp_DeleteByComponentPort (ev_gorm E) componentID port)))) tx
      | (Fail e, _) \<Rightarrow> (Fail e, tx)
      | (Panic, _) \<Rightarrow> (Panic, tx))"

section \<open>The controller (api/controller/gateway.go)\<close>

text \<open>The answer to a request: the fields that are invalid (status 400), the other statuses, or a panic that leaves the
  controller. \<open>req = None\<close> is a request that the validator has answered.\<close>

datatype answer = Answered | BadRequest "string list" | ServerError | Success | Crashed

definition answer_of :: "unit op_result \<times> 's \<Rightarrow> answer \<times> 's" where
  "answer_of r = (case r of (Done _, s) \<Rightarrow> (Success, s) | (Fail e, s) \<Rightarrow> (ServerError, s) | (Panic, s) \<Rightarrow> (Crashed, s))"

definition validateDomain :: "(string \<Rightarrow> string list) \<Rightarrow> (string \<Rightarrow> string list) \<Rightarrow> string \<Rightarrow> string list" where
  \<comment> \<open>The two checks of \<open>k8s.io/apimachinery\<close> are arguments.\<close>
  "validateDomain IsWildcardDNS1123Subdomain IsDNS1123Subdomain domain =
     (if TrimSpace domain = [] then []
      else if Contains domain ''*'' then IsWildcardDNS1123Subdomain domain
      else IsDNS1123Subdomain domain)"

definition certificate_fields :: "AddHTTPRuleStruct \<Rightarrow> string list" where
  "certificate_fields req =
     (if has_certificate (ah_CertificateID req)
      then (if ah_Certificate req = [] then [''certificate''] else []) @ (if ah_PrivateKey req = [] then [''private_key''] else [])
      else [])"

text \<open>The loop over the extensions; \<open>None\<close> is the dereference of a nil pointer.\<close>

fun extension_fields :: "RuleExtensionStruct option list \<Rightarrow> string list option" where
  "extension_fields [] = Some []"
| "extension_fields (None # res) = None"
| "extension_fields (Some re # res) =
     (if rs_Key re = [] then Some [''key''] else if rs_Value re = [] then Some [''value''] else extension_fields res)"

definition addHTTPRule :: "'w api_env \<Rightarrow> (string \<Rightarrow> string list) \<Rightarrow> AddHTTPRuleStruct option \<Rightarrow> 'w api_state \<Rightarrow> answer \<times> 'w api_state" where
  "addHTTPRule E validate req s =
     (case req of
        None \<Rightarrow> (Answered, s)
      | Some req \<Rightarrow>
          (let fields = (if ah_ContainerPort req = 0 then [''container_port''] else []) @ certificate_fields req @
                        (if validate (ah_Domain req) \<noteq> [] then [''domain''] else [])
           in if fields \<noteq> [] then (BadRequest fields, s) else answer_of (AddHTTPRule E req s)))"

definition updateHTTPRule :: "'w api_env \<Rightarrow> (string \<Rightarrow> string list) \<Rightarrow> UpdateHTTPRuleStruct option \<Rightarrow> 'w api_state \<Rightarrow> answer \<times> 'w api_state" where
  "updateHTTPRule E validate req s =
     (case req of
        None \<Rightarrow> (Answered, s)
      | Some req \<Rightarrow>
          (case extension_fields (ah_RuleExtensions req) of
             None \<Rightarrow> (Crashed, s)
           | Some efs \<Rightarrow>
               (let fields = certificate_fields req @ efs @ (if validate (ah_Domain req) \<noteq> [] then [''domain''] else [])
                in if fields \<noteq> [] then (BadRequest fields, s) else answer_of (UpdateHTTPRule E req s))))"

definition deleteHTTPRule :: "'w api_env \<Rightarrow> string option \<Rightarrow> 'w api_state \<Rightarrow> answer \<times> 'w api_state" where
  "deleteHTTPRule E req s = (case req of None \<Rightarrow> (Answered, s) | Some ruleID \<Rightarrow> answer_of (DeleteHTTPRule E ruleID s))"

definition addTCPRule :: "'w api_env \<Rightarrow> int \<Rightarrow> AddTCPRuleStruct option \<Rightarrow> 'w api_state \<Rightarrow> answer \<times> 'w api_state" where
  "addTCPRule E minExtPort req s =
     (case req of
        None \<Rightarrow> (Answered, s)
      | Some req \<Rightarrow>
          (case extension_fields (at_RuleExtensions req) of
             None \<Rightarrow> (Crashed, s)
           | Some efs \<Rightarrow>
               (let fields = (if at_ContainerPort req = 0 then [''container_port''] else []) @
                             (if at_Port req = 0 \<or> at_Port req \<le> minExtPort \<or> TCPIPPortExists E (at_IP req) (at_Port req) (ga_db s)
                              then [''port''] else []) @ efs
                in if fields \<noteq> [] then (BadRequest fields, s) else answer_of (AddTCPRule E req s))))"

definition updateTCPRule :: "'w api_env \<Rightarrow> int \<Rightarrow> UpdateTCPRuleStruct option \<Rightarrow> 'w api_state \<Rightarrow> answer \<times> 'w api_state" where
  "updateTCPRule E minExtPort req s =
     (case req of
        None \<Rightarrow> (Answered, s)
      | Some req \<Rightarrow>
          (case extension_fields (at_RuleExtensions req) of
             None \<Rightarrow> (Crashed, s)
           | Some efs \<Rightarrow>
               (let fields = (if at_Port req \<noteq> 0 \<and> at_Port req \<le> minExtPort then [''port''] else []) @ efs
                in if fields \<noteq> [] then (BadRequest fields, s) else answer_of (UpdateTCPRule E req s))))"

definition deleteTCPRule :: "'w api_env \<Rightarrow> string option \<Rightarrow> 'w api_state \<Rightarrow> answer \<times> 'w api_state" where
  "deleteTCPRule E req s = (case req of None \<Rightarrow> (Answered, s) | Some ruleID \<Rightarrow> answer_of (DeleteTCPRule E ruleID s))"

definition ruleConfig ::
  "'w api_env \<Rightarrow> ((string, string) gomap \<Rightarrow> (string, string) gomap) \<Rightarrow> string \<Rightarrow> string \<Rightarrow> RuleConfigReq option \<Rightarrow> 'w api_state \<Rightarrow>
   answer \<times> 'w api_state" where
  \<comment> \<open>The component and the event are taken from the context of the request.\<close>
  "ruleConfig E rng sid eventID req s =
     (case req of
        None \<Rightarrow> (Answered, s)
      | Some req \<Rightarrow> answer_of (RuleConfig E rng (req\<lparr>cr_ServiceID := sid, cr_EventID := eventID\<rparr>) s))"

definition updCertificate :: "'w api_env \<Rightarrow> UpdCertificateReq option \<Rightarrow> 'w api_state \<Rightarrow> answer \<times> 'w api_state" where
  \<comment> \<open>The handler wraps every error, so that the comparison with \<open>gorm.ErrRecordNotFound\<close> never holds.\<close>
  "updCertificate E req s = (case req of None \<Rightarrow> (Answered, s) | Some req \<Rightarrow> answer_of (UpdCertificate E req s))"

end
