(* ===== verification/ApiFacts.thy ===== *)
theory ApiFacts
  imports ApiRules
begin

text \<open>
  The documented behaviour of the database, over a view of its contents as lists of rows (\<open>gorm_ok\<close>), and the effect of
  every data access method and of the operations on rules when they succeed.
\<close>

section \<open>Documented behaviour of the database\<close>

record gateway_tables =
  vw_certs :: "gateway_certificate list"
  vw_exts :: "gateway_rule_extension list"
  vw_https :: "gateway_http_rule list"
  vw_tcps :: "gateway_tcp_rule list"
  vw_cfgs :: "gateway_rule_config list"
  vw_lbs :: "tenant_lb_mapping_port list"

text \<open>Queries give the rows that satisfy the condition; \<open>Create\<close> appends a row and gives it a new primary key; \<open>Save\<close> replaces
  the row with the same primary key; \<open>Delete\<close> removes the rows that satisfy the condition.
  Nothing is said of a statement that fails. A transaction that is rolled back leaves no trace; a commit that fails, for
  example because the connection is lost, has left no trace or has been carried out.\<close>

definition reads_ok :: "('w \<Rightarrow> 'r list) \<Rightarrow> ('r, 'w) table \<Rightarrow> bool" where
  "reads_ok R T \<longleftrightarrow>
     (\<forall>c w. tb_First T c w = Inl ErrRecordNotFound \<longrightarrow> filter c (R w) = []) \<and>
     (\<forall>c w r. tb_First T c w = Inr r \<longrightarrow> r \<in> set (R w) \<and> c r) \<and>
     (\<forall>c w. tb_Find T c w \<noteq> Inl ErrRecordNotFound) \<and> (\<forall>c w rs. tb_Find T c w = Inr rs \<longrightarrow> rs = filter c (R w)) \<and>
     (\<forall>f c w rs. tb_FindAsc T f c w = Inr rs \<longrightarrow> mset rs = mset (filter c (R w)) \<and> sorted (map f rs))"

definition writes_ok ::
  "('w \<Rightarrow> gateway_tables) \<Rightarrow> (gateway_tables \<Rightarrow> 'r list) \<Rightarrow> (('r list \<Rightarrow> 'r list) \<Rightarrow> gateway_tables \<Rightarrow> gateway_tables) \<Rightarrow>
   ('r \<Rightarrow> nat) \<Rightarrow> ((nat \<Rightarrow> nat) \<Rightarrow> 'r \<Rightarrow> 'r) \<Rightarrow> ('r, 'w) table \<Rightarrow> bool" where
  "writes_ok V rows upd key with_key T \<longleftrightarrow>
     (\<forall>r w w'. tb_Create T r w = (None, w') \<longrightarrow>
        (\<exists>n. n \<notin> key ` set (rows (V w)) \<and> V w' = upd (\<lambda>rs. rs @ [with_key (\<lambda>_. n) r]) (V w))) \<and>
     (\<forall>c r w w'. tb_Save T c r w = (None, w') \<longrightarrow> (\<exists>old \<in> set (rows (V w)). key old = key r \<and> c old) \<longrightarrow>
        V w' = upd (map (\<lambda>x. if key x = key r then r else x)) (V w)) \<and>
     (\<forall>c w w'. tb_Delete T c w = (None, w') \<longrightarrow> V w' = upd (filter (\<lambda>x. \<not> c x)) (V w))"

definition ends_ok :: "('w \<Rightarrow> gateway_tables) \<Rightarrow> 'w gorm \<Rightarrow> bool" where
  "ends_ok V G \<longleftrightarrow>
     (\<forall>w tx w'. gm_Commit G w tx = (None, w') \<longrightarrow> V w' = V tx) \<and>
     (\<forall>w tx e w'. gm_Commit G w tx = (Some e, w') \<longrightarrow> V w' = V w \<or> V w' = V tx) \<and>
     (\<forall>w tx. V (gm_Rollback G w tx) = V w)"

definition gorm_ok :: "('w \<Rightarrow> gateway_tables) \<Rightarrow> 'w gorm \<Rightarrow> bool" where
  "gorm_ok V G \<longleftrightarrow>
     reads_ok (\<lambda>w. vw_certs (V w)) (gm_Certificate G) \<and> writes_ok V vw_certs vw_certs_update gc_ID gc_ID_update (gm_Certificate G) \<and>
     reads_ok (\<lambda>w. vw_exts (V w)) (gm_RuleExtension G) \<and> writes_ok V vw_exts vw_exts_update gx_ID gx_ID_update (gm_RuleExtension G) \<and>
     reads_ok (\<lambda>w. vw_https (V w)) (gm_HTTPRule G) \<and> writes_ok V vw_https vw_https_update gh_ID gh_ID_update (gm_HTTPRule G) \<and>
     reads_ok (\<lambda>w. vw_tcps (V w)) (gm_TCPRule G) \<and> writes_ok V vw_tcps vw_tcps_update gt_ID gt_ID_update (gm_TCPRule G) \<and>
     reads_ok (\<lambda>w. vw_cfgs (V w)) (gm_GwRuleConfig G) \<and> writes_ok V vw_cfgs vw_cfgs_update gf_ID gf_ID_update (gm_GwRuleConfig G) \<and>
     writes_ok V vw_lbs vw_lbs_update lm_ID lm_ID_update (gm_LBMappingPort G) \<and> ends_ok V G"

section \<open>Sequences of statements\<close>

named_theorems op_elims \<open>what a successful operation has done\<close>

lemma and_thenE [op_elims]:
  assumes "and_then m f w = (Done b, w'')"
  obtains a w' where "m w = (Done a, w')" "f a w' = (Done b, w'')"
  using assms by (auto simp: and_then_def split: prod.splits op_result.splits)

lemma giveE [op_elims]:
  assumes "give a w = (Done b, w')"
  obtains "b = a" "w' = w"
  using assms by (simp add: give_def)

lemma raiseE [op_elims]:
  assumes "raise e w = (Done b, w')"
  obtains False
  using assms by (simp add: raise_def)

lemma deref_opE [op_elims]:
  assumes "deref_op p w = (Done a, w')"
  obtains "p = Some a" "w' = w"
  using assms by (simp add: deref_op_def split: option.splits)

lemma exec_stmtE:
  assumes "exec_stmt f w = (Done a, w')"
  obtains "f w = (None, w')"
  using assms by (auto simp: exec_stmt_def split: prod.splits option.splits)


section \<open>Statements on one table\<close>

lemma first_okD:
  assumes "reads_ok R T"
  shows "tb_First T c w = Inl ErrRecordNotFound \<Longrightarrow> filter c (R w) = []" "tb_First T c w = Inr r \<Longrightarrow> r \<in> set (R w) \<and> c r"
  using assms unfolding reads_ok_def by blast+

lemma create_okD:
  assumes "writes_ok V rows upd key with_key T" "tb_Create T r w = (None, w')"
  shows "\<exists>n. n \<notin> key ` set (rows (V w)) \<and> V w' = upd (\<lambda>rs. rs @ [with_key (\<lambda>_. n) r]) (V w)"
  using spec[OF spec[OF spec[OF conjunct1[OF assms(1)[unfolded writes_ok_def]], of r], of w], of w'] assms(2) by simp

lemma save_okD:
  assumes "writes_ok V rows upd key with_key T" "tb_Save T c r w = (None, w')" "old \<in> set (rows (V w))" "key old = key r" "c old"
  shows "V w' = upd (map (\<lambda>x. if key x = key r then r else x)) (V w)"
  using spec[OF spec[OF spec[OF spec[OF conjunct1[OF conjunct2[OF assms(1)[unfolded writes_ok_def]]], of c], of r], of w], of w'] assms(2-5) by auto

lemma delete_okD:
  assumes "writes_ok V rows upd key with_key T" "tb_Delete T c w = (None, w')"
  shows "V w' = upd (filter (\<lambda>x. \<not> c x)) (V w)"
  using spec[OF spec[OF spec[OF conjunct2[OF conjunct2[OF assms(1)[unfolded writes_ok_def]]], of c], of w], of w'] assms(2) by simp

lemma add_if_absentE:
  assumes "add_if_absent T c r w = (Done a, w')" "reads_ok (\<lambda>w. rows (V w)) T" "writes_ok V rows upd key with_key T"
  obtains n where "filter c (rows (V w)) = []" "n \<notin> key ` set (rows (V w))" "V w' = upd (\<lambda>rs. rs @ [with_key (\<lambda>_. n) r]) (V w)"
proof -
  have f: "tb_First T c w = Inl ErrRecordNotFound" and c: "tb_Create T r w = (None, w')"
    using assms(1) by (auto simp: add_if_absent_def RecordNotFound_def split: if_splits elim: exec_stmtE)
  have "filter c (rows (V w)) = []" using f assms(2) unfolding reads_ok_def by blast
  moreover obtain n where "n \<notin> key ` set (rows (V w))" "V w' = upd (\<lambda>rs. rs @ [with_key (\<lambda>_. n) r]) (V w)"
    using create_okD[OF assms(3) c] by (elim exE conjE)
  ultimately show ?thesis by (rule that)
qed

lemma deleteE:
  assumes "exec_stmt (tb_Delete T c) w = (Done a, w')" "writes_ok V rows upd key with_key T"
  obtains "V w' = upd (filter (\<lambda>x. \<not> c x)) (V w)"
  using assms(1) by (elim exec_stmtE) (rule that[OF delete_okD[OF assms(2)]])

lemma saveE:
  assumes "exec_stmt (tb_Save T c r) w = (Done a, w')" "writes_ok V rows upd key with_key T"
    "old \<in> set (rows (V w))" "key old = key r" "c old"
  obtains "V w' = upd (map (\<lambda>x. if key x = key r then r else x)) (V w)"
proof -
  have "tb_Save T c r w = (None, w')" using assms(1) by (elim exec_stmtE)
  from save_okD[where rows = rows and c = c, OF assms(2) this assms(3-5)] show ?thesis by (rule that)
qed

lemma createE:
  assumes "exec_stmt (tb_Create T r) w = (Done a, w')" "writes_ok V rows upd key with_key T"
  obtains n where "n \<notin> key ` set (rows (V w))" "V w' = upd (\<lambda>rs. rs @ [with_key (\<lambda>_. n) r]) (V w)"
  using assms(1) create_okD[OF assms(2)] that by (elim exec_stmtE) (metis (no_types))

lemma list_rowsE:
  assumes "list_rows T c w = (Done rs, w')" "reads_ok (\<lambda>w. rows (V w)) T"
  obtains "rs = filter c (rows (V w))" "w' = w"
  using assms unfolding reads_ok_def list_rows_def by (auto split: sum.splits)

lemma list_rows_or_noneE:
  assumes "list_rows_or_none T c w = (Done rs, w')" "reads_ok (\<lambda>w. rows (V w)) T"
  obtains "rs = filter c (rows (V w))" "w' = w"
proof (cases "tb_Find T c w")
  case (Inl e)
  then have "e \<noteq> ErrRecordNotFound" using assms(2) unfolding reads_ok_def by blast
  then show ?thesis using Inl assms(1) by (simp add: list_rows_or_none_def)
next
  case (Inr xs)
  then have x: "xs = filter c (rows (V w))" using assms(2) unfolding reads_ok_def by blast
  have "rs = xs" "w' = w" using Inr assms(1) by (simp_all add: list_rows_or_none_def)
  then show ?thesis using x by (intro that) simp_all
qed

lemma row_or_nilE:
  assumes "row_or_nil T c w = (Done p, w')" "reads_ok (\<lambda>w. rows (V w)) T"
  obtains "p = None" "filter c (rows (V w)) = []" "w' = w"
  | r where "p = Some r" "r \<in> set (rows (V w))" "c r" "w' = w"
proof (cases "tb_First T c w")
  case (Inl e)
  then have "e = ErrRecordNotFound" "p = None" "w' = w" using assms(1) by (auto simp: row_or_nil_def split: if_splits)
  moreover have "filter c (rows (V w)) = []" if "e = ErrRecordNotFound" using Inl that assms(2) unfolding reads_ok_def by blast
  ultimately show ?thesis using that(1) by blast
next
  case (Inr r)
  then have "p = Some r" "w' = w" using assms(1) by (auto simp: row_or_nil_def)
  moreover have "r \<in> set (rows (V w)) \<and> c r" using Inr assms(2) unfolding reads_ok_def by blast
  ultimately show ?thesis using that(2) by blast
qed

lemma gorm_okD:
  assumes "gorm_ok V G"
  shows "reads_ok (\<lambda>w. vw_certs (V w)) (gm_Certificate G)" "writes_ok V vw_certs vw_certs_update gc_ID gc_ID_update (gm_Certificate G)"
    "reads_ok (\<lambda>w. vw_exts (V w)) (gm_RuleExtension G)" "writes_ok V vw_exts vw_exts_update gx_ID gx_ID_update (gm_RuleExtension G)"
    "reads_ok (\<lambda>w. vw_https (V w)) (gm_HTTPRule G)" "writes_ok V vw_https vw_https_update gh_ID gh_ID_update (gm_HTTPRule G)"
    "reads_ok (\<lambda>w. vw_tcps (V w)) (gm_TCPRule G)" "writes_ok V vw_tcps vw_tcps_update gt_ID gt_ID_update (gm_TCPRule G)"
    "reads_ok (\<lambda>w. vw_cfgs (V w)) (gm_GwRuleConfig G)" "writes_ok V vw_cfgs vw_cfgs_update gf_ID gf_ID_update (gm_GwRuleConfig G)"
    "writes_ok V vw_lbs vw_lbs_update lm_ID lm_ID_update (gm_LBMappingPort G)" "ends_ok V G"
  using assms by (simp_all add: gorm_ok_def)

section \<open>What the data access methods do\<close>

lemma cert_AddOrUpdateE:
  assumes "cert_AddOrUpdate G cert w = (Done a, w')" "gorm_ok V G"
  obtains n where "\<forall>c \<in> set (vw_certs (V w)). gc_UUID c \<noteq> gc_UUID cert" "n \<notin> gc_ID ` set (vw_certs (V w))"
      "V w' = vw_certs_update (\<lambda>rs. rs @ [cert\<lparr>gc_ID := n\<rparr>]) (V w)"
  | old where "old \<in> set (vw_certs (V w))" "gc_UUID old = gc_UUID cert"
      "V w' = vw_certs_update (map (\<lambda>x. if gc_ID x = gc_ID old
         then old\<lparr>gc_Certificate := gc_Certificate cert, gc_PrivateKey := gc_PrivateKey cert\<rparr> else x)) (V w)"
proof (cases "tb_First (gm_Certificate G) (\<lambda>c. gc_UUID c = gc_UUID cert) w")
  case (Inl e)
  then have e: "e = ErrRecordNotFound" and x: "exec_stmt (tb_Create (gm_Certificate G) cert) w = (Done a, w')"
    using assms(1) by (auto simp: cert_AddOrUpdate_def split: if_splits)
  have "filter (\<lambda>c. gc_UUID c = gc_UUID cert) (vw_certs (V w)) = []"
    using Inl e gorm_okD(1)[OF assms(2)] unfolding reads_ok_def by blast
  then have "\<forall>c \<in> set (vw_certs (V w)). gc_UUID c \<noteq> gc_UUID cert" by (simp add: filter_empty_conv)
  then show ?thesis using createE[OF x gorm_okD(2)[OF assms(2)]] that(1) by blast
next
  case (Inr old)
  then have o: "old \<in> set (vw_certs (V w))" "gc_UUID old = gc_UUID cert"
    using gorm_okD(1)[OF assms(2)] unfolding reads_ok_def by blast+
  let ?r = "old\<lparr>gc_Certificate := gc_Certificate cert, gc_PrivateKey := gc_PrivateKey cert\<rparr>"
  have x: "exec_stmt (tb_Save (gm_Certificate G) (\<lambda>c. gc_UUID c = gc_UUID cert) ?r) w = (Done a, w')"
    using Inr assms(1) by (simp add: cert_AddOrUpdate_def)
  show ?thesis
    by (rule saveE[OF x gorm_okD(2)[OF assms(2)] o(1)]) (use o in \<open>auto intro: that(2)\<close>)
qed

lemma ext_AddModelE:
  assumes "ext_AddModel G re w = (Done a, w')" "gorm_ok V G"
  obtains n where "(gx_RuleID re, gx_Value re) \<notin> (\<lambda>x. (gx_RuleID x, gx_Value x)) ` set (vw_exts (V w))"
    "n \<notin> gx_ID ` set (vw_exts (V w))" "V w' = vw_exts_update (\<lambda>rs. rs @ [re\<lparr>gx_ID := n\<rparr>]) (V w)"
  by (rule add_if_absentE[OF assms(1)[unfolded ext_AddModel_def] gorm_okD(3,4)[OF assms(2)]])
     (use that in \<open>force simp: filter_empty_conv\<close>)

lemma cfg_AddModelE:
  assumes "cfg_AddModel G cfg w = (Done a, w')" "gorm_ok V G"
  obtains n where "(gf_RuleID cfg, gf_Key cfg) \<notin> (\<lambda>f. (gf_RuleID f, gf_Key f)) ` set (vw_cfgs (V w))"
    "n \<notin> gf_ID ` set (vw_cfgs (V w))" "V w' = vw_cfgs_update (\<lambda>rs. rs @ [cfg\<lparr>gf_ID := n\<rparr>]) (V w)"
  by (rule add_if_absentE[OF assms(1)[unfolded cfg_AddModel_def] gorm_okD(9,10)[OF assms(2)]])
     (use that in \<open>force simp: filter_empty_conv\<close>)

lemma http_AddModelE:
  assumes "http_AddModel G h w = (Done a, w')" "gorm_ok V G"
  obtains n where "gh_UUID h \<notin> gh_UUID ` set (vw_https (V w))" "n \<notin> gh_ID ` set (vw_https (V w))"
    "V w' = vw_https_update (\<lambda>rs. rs @ [h\<lparr>gh_ID := n\<rparr>]) (V w)"
  by (rule add_if_absentE[OF assms(1)[unfolded http_AddModel_def] gorm_okD(5,6)[OF assms(2)]])
     (use that in \<open>force simp: filter_empty_conv\<close>)

lemma tcp_AddModelE:
  assumes "tcp_AddModel G t w = (Done a, w')" "gorm_ok V G"
  obtains n where "gt_UUID t \<notin> gt_UUID ` set (vw_tcps (V w))" "(gt_IP t, gt_Port t) \<notin> (\<lambda>x. (gt_IP x, gt_Port x)) ` set (vw_tcps (V w))"
    "n \<notin> gt_ID ` set (vw_tcps (V w))" "V w' = vw_tcps_update (\<lambda>rs. rs @ [t\<lparr>gt_ID := n\<rparr>]) (V w)"
  by (rule add_if_absentE[OF assms(1)[unfolded tcp_AddModel_def] gorm_okD(7,8)[OF assms(2)]])
     (use that in \<open>force simp: filter_empty_conv\<close>)

lemma cert_AddModelE:
  assumes "cert_AddModel G c w = (Done a, w')" "gorm_ok V G"
  obtains n where "gc_UUID c \<notin> gc_UUID ` set (vw_certs (V w))" "n \<notin> gc_ID ` set (vw_certs (V w))"
    "V w' = vw_certs_update (\<lambda>rs. rs @ [c\<lparr>gc_ID := n\<rparr>]) (V w)"
  by (rule add_if_absentE[OF assms(1)[unfolded cert_AddModel_def] gorm_okD(1,2)[OF assms(2)]])
     (use that in \<open>force simp: filter_empty_conv\<close>)

lemma http_GetHTTPRuleByIDE:
  assumes "http_GetHTTPRuleByID G uid w = (Done h, w')" "gorm_ok V G"
  obtains "h = zero_http_rule" "uid \<notin> gh_UUID ` set (vw_https (V w))" "w' = w"
  | "h \<in> set (vw_https (V w))" "gh_UUID h = uid" "w' = w"
proof -
  note r = first_okD[OF gorm_okD(5)[OF assms(2)]]
  show ?thesis
  proof (cases "tb_First (gm_HTTPRule G) (\<lambda>h. gh_UUID h = uid) w")
    case (Inl e)
    then have e: "e = ErrRecordNotFound" "h = zero_http_rule" "w' = w"
      using assms(1) by (auto simp: http_GetHTTPRuleByID_def split: if_splits)
    have "filter (\<lambda>h. gh_UUID h = uid) (vw_https (V w)) = []" by (rule r(1)) (use Inl e(1) in simp)
    then have "uid \<notin> gh_UUID ` set (vw_https (V w))" by (auto simp: filter_empty_conv)
    then show ?thesis using e(2,3) that(1) by simp
  next
    case (Inr x)
    then have x: "x \<in> set (vw_https (V w)) \<and> gh_UUID x = uid" by (rule r(2))
    have "h = x \<and> w' = w" using Inr assms(1) by (simp add: http_GetHTTPRuleByID_def)
    then show ?thesis using x that(2) by simp
  qed
qed


lemma tcp_GetTCPRuleByID_some:
  assumes "tcp_GetTCPRuleByID G uid w = (Done (Some t), w')" "gorm_ok V G"
  shows "t \<in> set (vw_tcps (V w))" "gt_UUID t = uid" "w' = w"
  by (rule row_or_nilE[where rows = vw_tcps and V = V, OF assms(1)[unfolded tcp_GetTCPRuleByID_def] gorm_okD(7)[OF assms(2)]]; simp)+

lemma delete_effects:
  assumes "gorm_ok V G"
  shows "ext_DeleteRuleExtensionByRuleID G rid w = (Done a, w') \<Longrightarrow> V w' = vw_exts_update (filter (\<lambda>x. gx_RuleID x \<noteq> rid)) (V w)"
    and "ext_DeleteByRuleIDs G rids w = (Done a, w') \<Longrightarrow> V w' = vw_exts_update (filter (\<lambda>x. gx_RuleID x \<notin> set rids)) (V w)"
    and "http_DeleteHTTPRuleByID G rid w = (Done a, w') \<Longrightarrow> V w' = vw_https_update (filter (\<lambda>h. gh_UUID h \<noteq> rid)) (V w)"
    and "tcp_DeleteByID G rid w = (Done a, w') \<Longrightarrow> V w' = vw_tcps_update (filter (\<lambda>t. gt_UUID t \<noteq> rid)) (V w)"
    and "cfg_DeleteByRuleID G rid w = (Done a, w') \<Longrightarrow> V w' = vw_cfgs_update (filter (\<lambda>f. gf_RuleID f \<noteq> rid)) (V w)"
    and "cfg_DeleteByRuleIDs G rids w = (Done a, w') \<Longrightarrow> V w' = vw_cfgs_update (filter (\<lambda>f. gf_RuleID f \<notin> set rids)) (V w)"
    and "lb_DELServiceLBMappingPort G sid lp w = (Done a, w') \<Longrightarrow>
      V w' = vw_lbs_update (filter (\<lambda>m. \<not> (lm_ServiceID m = sid \<and> lm_Port m = lp))) (V w)"
  using gorm_okD(4,6,8,10,11)[OF assms]
  by (auto simp: ext_DeleteRuleExtensionByRuleID_def ext_DeleteByRuleIDs_def http_DeleteHTTPRuleByID_def tcp_DeleteByID_def
      cfg_DeleteByRuleID_def cfg_DeleteByRuleIDs_def lb_DELServiceLBMappingPort_def elim: deleteE)

section \<open>Unique keys\<close>

definition unique_rows :: "('r \<Rightarrow> nat) \<Rightarrow> ('r \<Rightarrow> 'k) \<Rightarrow> 'r list \<Rightarrow> bool" where
  "unique_rows key k rs \<longleftrightarrow> distinct (map key rs) \<and> distinct (map k rs)"

lemma unique_rows_filter [simp, intro]: "unique_rows key k rs \<Longrightarrow> unique_rows key k (filter P rs)"
  by (simp add: unique_rows_def distinct_map_filter)

lemma unique_rows_append:
  "unique_rows key k rs \<Longrightarrow> key r \<notin> key ` set rs \<Longrightarrow> k r \<notin> k ` set rs \<Longrightarrow> unique_rows key k (rs @ [r])"
  by (auto simp: unique_rows_def)

lemma unique_rows_replace:
  assumes "unique_rows key k rs" "old \<in> set rs" "key r = key old" "k r = k old"
  shows "unique_rows key k (map (\<lambda>x. if key x = key r then r else x) rs)"
proof -
  have "x = old" if "x \<in> set rs" "key x = key r" for x
    using assms that unfolding unique_rows_def by (metis eq_key_imp_eq_value distinct_map inj_onD)
  then have "map k (map (\<lambda>x. if key x = key r then r else x) rs) = map k rs" using assms(4) by (auto simp: comp_def)
  moreover have "map key (map (\<lambda>x. if key x = key r then r else x) rs) = map key rs" by (auto simp: comp_def)
  ultimately show ?thesis using assms(1) by (simp only: unique_rows_def)
qed

text \<open>Rules and certificates are unique by their identifier, extensions by rule and value, configurations by rule and key.\<close>

definition rules_wf :: "gateway_tables \<Rightarrow> bool" where
  "rules_wf v \<longleftrightarrow>
     unique_rows gc_ID gc_UUID (vw_certs v) \<and> unique_rows gx_ID (\<lambda>x. (gx_RuleID x, gx_Value x)) (vw_exts v) \<and>
     unique_rows gh_ID gh_UUID (vw_https v) \<and> unique_rows gt_ID gt_UUID (vw_tcps v) \<and>
     unique_rows gf_ID (\<lambda>f. (gf_RuleID f, gf_Key f)) (vw_cfgs v)"

definition keeps :: "('w \<Rightarrow> gateway_tables) \<Rightarrow> ('a, 'w) op \<Rightarrow> bool" where
  "keeps V m \<longleftrightarrow> (\<forall>w a w'. m w = (Done a, w') \<longrightarrow> rules_wf (V w) \<longrightarrow> rules_wf (V w'))"

named_theorems keeps_rules \<open>operations that keep the keys unique\<close>

lemma keeps_and_then [keeps_rules]: "keeps V m \<Longrightarrow> (\<And>a. keeps V (f a)) \<Longrightarrow> keeps V (and_then m f)"
  unfolding keeps_def by (blast elim: and_thenE)

lemma keeps_give [keeps_rules]: "keeps V (give a)" "keeps V (raise e)" "keeps V (deref_op p)"
  unfolding keeps_def by (auto elim!: giveE raiseE deref_opE)

lemma keeps_if [keeps_rules]: "keeps V m \<Longrightarrow> keeps V n \<Longrightarrow> keeps V (if b then m else n)"
  by simp

lemma keeps_each [keeps_rules]: "(\<And>x. keeps V (f x)) \<Longrightarrow> keeps V (each f xs)"
  by (induction xs) (auto intro: keeps_rules)

lemma keeps_deletes [keeps_rules]:
  assumes "gorm_ok V G"
  shows "keeps V (ext_DeleteRuleExtensionByRuleID G rid)" "keeps V (ext_DeleteByRuleIDs G rids)" "keeps V (http_DeleteHTTPRuleByID G rid)"
    "keeps V (tcp_DeleteByID G rid)" "keeps V (cfg_DeleteByRuleID G rid)" "keeps V (cfg_DeleteByRuleIDs G rids)"
    "keeps V (lb_DELServiceLBMappingPort G sid lp)"
  unfolding keeps_def by (auto dest!: delete_effects[OF assms] simp: rules_wf_def)

lemma keeps_adds [keeps_rules]:
  assumes "gorm_ok V G"
  shows "keeps V (ext_AddModel G x)" "keeps V (cfg_AddModel G f)" "keeps V (http_AddModel G h)" "keeps V (tcp_AddModel G t)" "keeps V (cert_AddModel G c)"
  unfolding keeps_def
  by (auto elim!: ext_AddModelE[OF _ assms] cfg_AddModelE[OF _ assms] http_AddModelE[OF _ assms] tcp_AddModelE[OF _ assms] cert_AddModelE[OF _ assms]
      simp: rules_wf_def intro!: unique_rows_append)

lemma keeps_cert [keeps_rules]:
  assumes "gorm_ok V G"
  shows "keeps V (cert_AddOrUpdate G c)"
  unfolding keeps_def
proof (intro allI impI)
  fix w a w' assume x: "cert_AddOrUpdate G c w = (Done a, w')" and wf: "rules_wf (V w)"
  show "rules_wf (V w')"
  proof (rule cert_AddOrUpdateE[OF x assms], goal_cases)
    case (1 n)
    then show ?case using wf by (auto simp: rules_wf_def intro!: unique_rows_append)
  next
    case (2 old)
    have "unique_rows gc_ID gc_UUID (vw_certs (V w))" using wf by (simp add: rules_wf_def)
    from unique_rows_replace[OF this 2(1), of "old\<lparr>gc_Certificate := gc_Certificate c, gc_PrivateKey := gc_PrivateKey c\<rparr>"]
    show ?case using wf 2(3) by (simp add: rules_wf_def)
  qed
qed

lemma keeps_reads [keeps_rules]:
  "keeps V (http_GetHTTPRuleByID G rid)" "keeps V (tcp_GetTCPRuleByID G rid)" "keeps V (http_ListByServiceID G sid)"
  "keeps V (tcp_GetTCPRuleByServiceID G sid)" "keeps V (cert_GetCertificateByID G cid)"
  unfolding keeps_def
  by (auto simp: http_GetHTTPRuleByID_def tcp_GetTCPRuleByID_def http_ListByServiceID_def tcp_GetTCPRuleByServiceID_def
      cert_GetCertificateByID_def row_or_nil_def list_rows_def list_rows_or_none_def split: sum.splits if_splits)

lemma keeps_extensions [keeps_rules]:
  assumes "gorm_ok V (ev_gorm E)"
  shows "keeps V (add_http_extensions E n rid xs)" "keeps V (AddRuleExtensions E n rid xs)"
  by (induction xs arbitrary: n) (auto intro!: keeps_rules assms)


section \<open>Transactions and tasks\<close>

text \<open>An operation that runs in one transaction: an error or a panic leaves the tables as they were, unless it is the
  commit that failed.\<close>

lemma in_txE:
  assumes "in_tx G m w = (r, w')" "gorm_ok V G"
  obtains a tx where "r = Done a" "m w = (Done a, tx)" "V w' = V tx"
  | "\<nexists>a. r = Done a" "V w' = V w \<or> (\<exists>e a tx. r = Fail (ErrDB e) \<and> m w = (Done a, tx) \<and> V w' = V tx)"
proof -
  note e = gorm_okD(12)[OF assms(2), unfolded ends_ok_def]
  obtain x tx where m: "m w = (x, tx)" by (cases "m w")
  have rb: "V (gm_Rollback G w t) = V w" for t using e by blast
  show ?thesis
  proof (cases x)
    case (Done a)
    obtain o' w1 where c: "gm_Commit G w tx = (o', w1)" by (cases "gm_Commit G w tx")
    show ?thesis
    proof (cases o')
      case None
      then have "V w1 = V tx" using e c by blast
      moreover have "r = Done a" "w' = w1" using assms(1) m Done c None by (simp_all add: in_tx_def)
      ultimately show ?thesis using m Done by (intro that(1)[of a tx]) simp_all
    next
      case (Some er)
      then have "V w1 = V w \<or> V w1 = V tx" using e c by blast
      moreover have "r = Fail (ErrDB er)" "w' = w1" using assms(1) m Done c Some by (simp_all add: in_tx_def)
      ultimately show ?thesis using m Done by (intro that(2)) auto
    qed
  qed (use assms(1) m rb that(2) in \<open>auto simp: in_tx_def\<close>)
qed

lemma on_dbE:
  assumes "on_db m s = (r, s')"
  obtains w where "m (ga_db s) = (r, w)" "s' = s\<lparr>ga_db := w\<rparr>"
  using assms by (auto simp: on_db_def split: prod.splits)

lemma service_read: "service_GetServiceByID G sid w = (r, w') \<Longrightarrow> w' = w \<and> r \<noteq> Panic"
  by (auto simp: service_GetServiceByID_def split: sum.splits)

text \<open>A task is sent at most once, and sending does not touch the database.\<close>

definition task_for :: "string \<Rightarrow> rule_task \<Rightarrow> bool" where
  "task_for sid t \<longleftrightarrow> tt_Topic t = WorkerTopic \<and> tt_TaskType t = ''apply_rule'' \<and> map_of (tt_TaskBody t) ''service_id'' = Some (BodyString sid)"

lemma SendTask_effect:
  assumes "SendTask E sid inp s = (r, s')" "''service_id'' \<notin> fst ` set inp"
  shows "r \<noteq> Panic \<and> (s' = s \<and> r \<noteq> Done () \<or> r = Done () \<and> (\<exists>t. task_for sid t \<and> s' = s\<lparr>ga_tasks := ga_tasks s @ [t]\<rparr>))"
proof -
  have f: "map_of (fold (\<lambda>(k, v). map_set k v) inp m) ''service_id'' = map_of m ''service_id''" for m
    using assms(2) by (induction inp arbitrary: m) auto
  obtain x w where q: "service_GetServiceByID (ev_gorm E) sid (ga_db s) = (x, w)" by (cases "service_GetServiceByID (ev_gorm E) sid (ga_db s)")
  have w: "w = ga_db s" "x \<noteq> Panic" using service_read[OF q] by simp_all
  show ?thesis
  proof (cases x)
    case (Done service)
    let ?t = "\<lparr>tt_Topic = WorkerTopic, tt_TaskType = ''apply_rule'', tt_TaskBody = fold (\<lambda>(k, v). map_set k v) inp
       (map_set ''service_id'' (BodyString sid) [(''deploy_version'', BodyString (sv_DeployVersion service))])\<rparr>"
    have "task_for sid ?t" by (simp add: task_for_def f)
    moreover have "(r, s') = (if ev_Send E ?t then (Done (), s\<lparr>ga_tasks := ga_tasks s @ [?t]\<rparr>) else (Fail ErrSend, s))"
      using assms(1) q w Done by (simp add: SendTask_def and_then_def on_db_def Let_def split: if_splits)
    ultimately show ?thesis by (auto split: if_splits simp del: update.simps)
  qed (use assms(1) q w in \<open>auto simp: SendTask_def and_then_def on_db_def\<close>)
qed

lemma notify_effect:
  assumes "notify E sid action limit s = (r, s')"
  shows "r = Done () \<and> (s' = s \<or> (\<exists>t. task_for sid t \<and> s' = s\<lparr>ga_tasks := ga_tasks s @ [t]\<rparr>))"
proof -
  obtain x s1 where q: "SendTask E sid [(''action'', BodyString action), (''limit'', BodyMap limit)] s = (x, s1)"
    by (cases "SendTask E sid [(''action'', BodyString action), (''limit'', BodyMap limit)] s")
  show ?thesis using SendTask_effect[OF q] q assms by (cases x) (auto simp: notify_def)
qed

lemma notify_config_effect:
  assumes "notify_config E sid eid domain s = (r, s')"
  shows "r = Done () \<and> (s' = s \<or> (\<exists>t. task_for sid t \<and> s' = s\<lparr>ga_tasks := ga_tasks s @ [t]\<rparr>))"
proof -
  let ?i = "[(''action'', BodyString ''update-rule-config''), (''event_id'', BodyString eid), (''limit'', BodyMap [(''domain'', domain)])]"
  obtain x s1 where q: "SendTask E sid ?i s = (x, s1)" by (cases "SendTask E sid ?i s")
  show ?thesis using SendTask_effect[OF q] q assms by (cases x) (auto simp: notify_config_def)
qed

text \<open>A transaction followed by a notification.\<close>

definition tx_then_notify :: "'w api_env \<Rightarrow> ('a, 'w) op \<Rightarrow> ('a \<Rightarrow> (unit, 'w api_state) op) \<Rightarrow> (unit, 'w api_state) op" where
  "tx_then_notify E m f = and_then (on_db (in_tx (ev_gorm E) m)) f"

definition notifies :: "(unit, 'w api_state) op \<Rightarrow> bool" where
  "notifies f \<longleftrightarrow> (\<forall>s r s'. f s = (r, s') \<longrightarrow> r = Done () \<and> (s' = s \<or> (\<exists>t sid. task_for sid t \<and> s' = s\<lparr>ga_tasks := ga_tasks s @ [t]\<rparr>)))"

lemma notifies_notify [simp, intro]: "notifies (notify E sid action limit)" "notifies (notify_config E sid eid domain)"
  unfolding notifies_def by (blast dest: notify_effect notify_config_effect)+

lemma tx_then_notifyE:
  assumes "tx_then_notify E m f s = (r, s')" "gorm_ok V (ev_gorm E)" "\<And>a. notifies (f a)"
  obtains a tx where "r = Done ()" "m (ga_db s) = (Done a, tx)" "V (ga_db s') = V tx" "ga_lockPort s' = ga_lockPort s"
      "ga_tasks s' = ga_tasks s \<or> (\<exists>t sid. task_for sid t \<and> ga_tasks s' = ga_tasks s @ [t])"
  | "r \<noteq> Done ()" "V (ga_db s') = V (ga_db s) \<or> (\<exists>e a tx. r = Fail (ErrDB e) \<and> m (ga_db s) = (Done a, tx) \<and> V (ga_db s') = V tx)"
      "ga_lockPort s' = ga_lockPort s" "ga_tasks s' = ga_tasks s"
proof -
  obtain x w1 where q: "in_tx (ev_gorm E) m (ga_db s) = (x, w1)" by (cases "in_tx (ev_gorm E) m (ga_db s)")
  show ?thesis
  proof (rule in_txE[OF q assms(2)], goal_cases)
    case (1 a tx)
    obtain y s2 where f: "f a (s\<lparr>ga_db := w1\<rparr>) = (y, s2)" by (cases "f a (s\<lparr>ga_db := w1\<rparr>)")
    then have "r = y" "s' = s2" using assms(1) q 1(1) by (simp_all add: tx_then_notify_def and_then_def on_db_def)
    then show ?case using assms(3)[of a, unfolded notifies_def, rule_format, OF f] 1 by (intro that(1)[of a tx]) auto
  next
    case 2
    then have "r \<noteq> Done ()" "s' = s\<lparr>ga_db := w1\<rparr>" "\<And>e. x = Fail e \<Longrightarrow> r = Fail e"
      using assms(1) q by (auto simp: tx_then_notify_def and_then_def on_db_def split: op_result.splits)
    then show ?case using 2 by (intro that(2)) auto
  qed
qed


section \<open>The operations on rules\<close>

text \<open>What a step of a transaction leaves alone.\<close>

lemma cert_frame:
  assumes "cert_AddOrUpdate G c w = (Done a, w')" "gorm_ok V G"
  shows "\<exists>f. V w' = vw_certs_update f (V w)"
  by (rule cert_AddOrUpdateE[OF assms]) blast+

definition ext_view :: "gateway_rule_extension \<Rightarrow> string \<times> string \<times> string" where
  "ext_view x = (gx_RuleID x, gx_Key x, gx_Value x)"

definition adds_exts :: "(string \<times> string \<times> string) list \<Rightarrow> gateway_tables \<Rightarrow> gateway_tables \<Rightarrow> bool" where
  "adds_exts xs v v' \<longleftrightarrow> (\<exists>rows. map ext_view rows = xs \<and> v' = vw_exts_update (\<lambda>rs. rs @ rows) v)"

lemma adds_exts_Nil [simp]: "adds_exts [] v v"
  by (simp add: adds_exts_def)

lemma adds_exts_Cons:
  assumes "v1 = vw_exts_update (\<lambda>rs. rs @ [r]) v" "adds_exts xs v1 v2"
  shows "adds_exts (ext_view r # xs) v v2"
proof -
  obtain rows where "map ext_view rows = xs" "v2 = vw_exts_update (\<lambda>rs. rs @ rows) v1" using assms(2) by (auto simp: adds_exts_def)
  then show ?thesis using assms(1) unfolding adds_exts_def by (intro exI[of _ "r # rows"]) (simp add: comp_def)
qed

lemma ext_AddModel_adds:
  assumes "ext_AddModel G (extension_row u rid k v) w = (Done a, w1)" "gorm_ok V G" "adds_exts xs (V w1) (V w2)"
  shows "adds_exts ((rid, k, v) # xs) (V w) (V w2)"
proof (rule ext_AddModelE[OF assms(1,2)])
  fix n assume "V w1 = vw_exts_update (\<lambda>rs. rs @ [extension_row u rid k v\<lparr>gx_ID := n\<rparr>]) (V w)"
  from adds_exts_Cons[OF this assms(3)] show ?thesis by (simp add: ext_view_def extension_row_def)
qed

lemma add_http_extensionsE:
  assumes "add_http_extensions E n rid xs w = (Done a, w')" "gorm_ok V (ev_gorm E)"
  obtains ys where "xs = map Some ys" "adds_exts (map (\<lambda>y. (rid, rs_Key y, rs_Value y)) ys) (V w) (V w')"
proof -
  have "\<exists>ys. xs = map Some ys \<and> adds_exts (map (\<lambda>y. (rid, rs_Key y, rs_Value y)) ys) (V w) (V w')"
    using assms(1)
  proof (induction xs arbitrary: n w)
    case (Cons x xs)
    then obtain y w1 u where x: "x = Some y"
      and e: "ext_AddModel (ev_gorm E) (extension_row (ev_NewUUID E n) rid (rs_Key y) (rs_Value y)) w = (Done u, w1)"
      and r: "add_http_extensions E (Suc n) rid xs w1 = (Done a, w')"
      by (auto elim!: and_thenE deref_opE)
    obtain ys where "xs = map Some ys" "adds_exts (map (\<lambda>y. (rid, rs_Key y, rs_Value y)) ys) (V w1) (V w')" using Cons.IH[OF r] by blast
    then show ?case using x ext_AddModel_adds[OF e assms(2)] by (intro exI[of _ "y # ys"]) simp
  qed (auto elim!: giveE)
  then show ?thesis using that by blast
qed

lemma AddRuleExtensionsE:
  assumes "AddRuleExtensions E n rid xs w = (Done a, w')" "gorm_ok V (ev_gorm E)"
  obtains ys where "xs = map Some ys" "adds_exts (map (\<lambda>y. (rid, [], rs_Value y)) ys) (V w) (V w')"
proof -
  have "\<exists>ys. xs = map Some ys \<and> adds_exts (map (\<lambda>y. (rid, [], rs_Value y)) ys) (V w) (V w')"
    using assms(1)
  proof (induction xs arbitrary: n w)
    case (Cons x xs)
    then obtain y w1 u where x: "x = Some y"
      and e: "ext_AddModel (ev_gorm E) (extension_row (ev_NewUUID E n) rid [] (rs_Value y)) w = (Done u, w1)"
      and r: "AddRuleExtensions E (Suc n) rid xs w1 = (Done a, w')"
      by (auto elim!: and_thenE deref_opE)
    obtain ys where "xs = map Some ys" "adds_exts (map (\<lambda>y. (rid, [], rs_Value y)) ys) (V w1) (V w')" using Cons.IH[OF r] by blast
    then show ?case using x ext_AddModel_adds[OF e assms(2)] by (intro exI[of _ "y # ys"]) simp
  qed (auto elim!: giveE)
  then show ?thesis using that by blast
qed

text \<open>An update replaces the extensions of the rule by those of the request, unless that has none.\<close>

definition replaced_exts :: "string \<Rightarrow> (string \<times> string \<times> string) list \<Rightarrow> gateway_tables \<Rightarrow> gateway_tables \<Rightarrow> bool" where
  "replaced_exts rid xs v v' \<longleftrightarrow>
     (if xs = [] then v' = v else adds_exts xs (vw_exts_update (filter (\<lambda>x. gx_RuleID x \<noteq> rid)) v) v')"

lemma replaced_frame:
  assumes "replaced_exts rid xs v v'"
  shows "vw_certs v' = vw_certs v" "vw_https v' = vw_https v" "vw_tcps v' = vw_tcps v" "vw_cfgs v' = vw_cfgs v" "vw_lbs v' = vw_lbs v"
  using assms by (auto simp: replaced_exts_def adds_exts_def split: if_splits)

lemma update_http_txE:
  assumes "update_http_tx E req w = (Done h, w')" "gorm_ok V (ev_gorm E)"
  obtains rule ys w1 w2 where "rule \<in> set (vw_https (V w))" "gh_UUID rule = ah_HTTPRuleID req" "h = http_rule_updated req rule"
    "ah_RuleExtensions req = map Some ys" "rules_wf (V w) \<longrightarrow> rules_wf (V w2)"
    "if has_certificate (ah_CertificateID req) then cert_AddOrUpdate (ev_gorm E) (certificate_of [] req) w = (Done (), w1) else w1 = w"
    "replaced_exts (ah_HTTPRuleID req) (map (\<lambda>y. (ah_HTTPRuleID req, rs_Key y, rs_Value y)) ys) (V w1) (V w2)"
    "V w' = vw_https_update (map (\<lambda>x. if gh_ID x = gh_ID h then h else x)) (V w2)"
proof -
  let ?G = "ev_gorm E" and ?id = "ah_HTTPRuleID req"
  let ?c = "if has_certificate (ah_CertificateID req) then cert_AddOrUpdate ?G (certificate_of [] req) else give ()"
  let ?x = "\<lambda>rid. if ah_RuleExtensions req \<noteq> [] then and_then (ext_DeleteRuleExtensionByRuleID ?G rid)
              (\<lambda>_. add_http_extensions E 0 rid (ah_RuleExtensions req)) else give ()"
  let ?rest = "\<lambda>rule. and_then ?c (\<lambda>_. and_then (?x (gh_UUID rule)) (\<lambda>_.
      and_then (http_UpdateModel ?G (http_rule_updated req rule)) (\<lambda>_. give (http_rule_updated req rule))))"
  obtain rule w0 where r1: "http_GetHTTPRuleByID ?G ?id w = (Done rule, w0)"
    and rest: "(if gh_UUID rule = [] then raise ErrNotExist else ?rest rule) w0 = (Done h, w')"
    using assms(1) unfolding update_http_tx_def by (elim and_thenE)
  have r: "http_GetHTTPRuleByID ?G ?id w = (Done rule, w0)" "gh_UUID rule \<noteq> []" and rest: "?rest rule w0 = (Done h, w')"
    using r1 rest by (auto elim!: raiseE split: if_splits)
  obtain u1 w1 u2 w2 u3 where c: "?c w0 = (Done u1, w1)" and x: "?x (gh_UUID rule) w1 = (Done u2, w2)"
    and s: "http_UpdateModel ?G (http_rule_updated req rule) w2 = (Done u3, w')" and h: "h = http_rule_updated req rule"
    using rest by (elim and_thenE giveE) blast
  have rule: "rule \<in> set (vw_https (V w))" "gh_UUID rule = ?id" "w0 = w"
    by (rule http_GetHTTPRuleByIDE[OF r(1) assms(2)]; use r(2) in \<open>simp add: zero_http_rule_def\<close>)+
  have cert: "if has_certificate (ah_CertificateID req) then cert_AddOrUpdate ?G (certificate_of [] req) w = (Done (), w1) else w1 = w"
    using c rule(3) by (auto elim!: giveE)
  obtain ys where ys: "ah_RuleExtensions req = map Some ys" "replaced_exts ?id (map (\<lambda>y. (?id, rs_Key y, rs_Value y)) ys) (V w1) (V w2)"
  proof (cases "ah_RuleExtensions req = []")
    case True
    then show ?thesis using x that[of "[]"] by (auto elim!: giveE simp: replaced_exts_def)
  next
    case False
    then obtain u w3 where d: "ext_DeleteRuleExtensionByRuleID ?G ?id w1 = (Done u, w3)"
      and a: "add_http_extensions E 0 ?id (ah_RuleExtensions req) w3 = (Done u2, w2)"
      using x rule(2) by (auto elim!: and_thenE)
    show ?thesis
      by (rule add_http_extensionsE[OF a assms(2)]) (use False that delete_effects(1)[OF assms(2) d] in \<open>simp add: replaced_exts_def\<close>)
  qed
  have "keeps V ?c" "keeps V (?x (gh_UUID rule))" by (auto intro!: keeps_rules assms(2))
  then have wf: "rules_wf (V w) \<longrightarrow> rules_wf (V w2)" using c x rule(3) unfolding keeps_def by blast
  have "\<exists>g. V w1 = vw_certs_update g (V w)"
    using cert by (auto dest: cert_frame[OF _ assms(2)] split: if_splits intro: exI[of _ id])
  then have "vw_https (V w2) = vw_https (V w)" using replaced_frame(2)[OF ys(2)] by auto
  then have "rule \<in> set (vw_https (V w2))" using rule(1) by simp
  from saveE[OF s[unfolded http_UpdateModel_def] gorm_okD(6)[OF assms(2)] this]
  have "V w' = vw_https_update (map (\<lambda>x. if gh_ID x = gh_ID h then h else x)) (V w2)"
    unfolding h by (simp add: http_rule_updated_def)
  with rule h wf cert ys show ?thesis by (intro that) auto
qed

end
