(* ===== verification/ApiOps.thy ===== *)
theory ApiOps
  imports ApiFacts
begin

text \<open>
  What the operations on rules do to the tables when they succeed, and the contract that all of them share
  (the locale \<open>rule_operation\<close>): an operation that reports an error has sent nothing, and changed nothing unless the error
  is one of the database; and the keys stay unique.
\<close>

section \<open>Effects of the transactions\<close>

lemma update_tcp_txE:
  assumes "update_tcp_tx E req w = (Done t, w')" "gorm_ok V (ev_gorm E)"
  obtains rule ys w2 where "rule \<in> set (vw_tcps (V w))" "gt_UUID rule = at_TCPRuleID req" "t = tcp_rule_updated req rule"
    "at_RuleExtensions req = map Some ys" "rules_wf (V w) \<longrightarrow> rules_wf (V w2)"
    "replaced_exts (at_TCPRuleID req) (map (\<lambda>y. (at_TCPRuleID req, [], rs_Value y)) ys) (V w) (V w2)"
    "V w' = vw_tcps_update (map (\<lambda>x. if gt_ID x = gt_ID t then t else x)) (V w2)"
proof -
  let ?G = "ev_gorm E" and ?id = "at_TCPRuleID req"
  let ?x = "\<lambda>rid. if at_RuleExtensions req \<noteq> [] then and_then (ext_DeleteRuleExtensionByRuleID ?G rid)
              (\<lambda>_. AddRuleExtensions E 0 rid (at_RuleExtensions req)) else give ()"
  obtain p w0 rule u2 w2 u3 where g: "tcp_GetTCPRuleByID ?G ?id w = (Done p, w0)" "p = Some rule"
    and x: "?x (gt_UUID rule) w0 = (Done u2, w2)"
    and s: "tcp_UpdateModel ?G (tcp_rule_updated req rule) w2 = (Done u3, w')" and t: "t = tcp_rule_updated req rule"
    using assms(1) unfolding update_tcp_tx_def by (elim and_thenE deref_opE giveE) blast
  have rule: "rule \<in> set (vw_tcps (V w))" "gt_UUID rule = ?id" "w0 = w"
    using tcp_GetTCPRuleByID_some[OF g(1)[unfolded g(2)] assms(2)] by simp_all
  obtain ys where ys: "at_RuleExtensions req = map Some ys" "replaced_exts ?id (map (\<lambda>y. (?id, [], rs_Value y)) ys) (V w) (V w2)"
  proof (cases "at_RuleExtensions req = []")
    case True
    then show ?thesis using x rule(3) that[of "[]"] by (auto elim!: giveE simp: replaced_exts_def)
  next
    case False
    then obtain u w3 where d: "ext_DeleteRuleExtensionByRuleID ?G ?id w = (Done u, w3)"
      and a: "AddRuleExtensions E 0 ?id (at_RuleExtensions req) w3 = (Done u2, w2)"
      using x rule(2,3) by (auto elim!: and_thenE)
    show ?thesis
      by (rule AddRuleExtensionsE[OF a assms(2)]) (use False that delete_effects(1)[OF assms(2) d] in \<open>simp add: replaced_exts_def\<close>)
  qed
  have "keeps V (?x (gt_UUID rule))" by (auto intro!: keeps_rules assms(2))
  then have wf: "rules_wf (V w) \<longrightarrow> rules_wf (V w2)" using x rule(3) unfolding keeps_def by blast
  have "rule \<in> set (vw_tcps (V w2))" using rule(1) replaced_frame(3)[OF ys(2)] by simp
  from saveE[OF s[unfolded tcp_UpdateModel_def] gorm_okD(8)[OF assms(2)] this]
  have "V w' = vw_tcps_update (map (\<lambda>x. if gt_ID x = gt_ID t then t else x)) (V w2)"
    unfolding t by (simp add: tcp_rule_updated_def)
  with rule t wf ys show ?thesis by (intro that) auto
qed

lemma delete_tcp_txE:
  assumes "delete_tcp_tx E rid w = (Done t, w')" "gorm_ok V (ev_gorm E)"
  obtains "t \<in> set (vw_tcps (V w))" "gt_UUID t = rid"
    "V w' = (V w)\<lparr>vw_exts := filter (\<lambda>x. gx_RuleID x \<noteq> rid) (vw_exts (V w)), vw_tcps := filter (\<lambda>x. gt_UUID x \<noteq> rid) (vw_tcps (V w)),
      vw_lbs := filter (\<lambda>m. \<not> (lm_ServiceID m = gt_ServiceID t \<and> lm_Port m = gt_Port t)) (vw_lbs (V w))\<rparr>"
proof -
  let ?G = "ev_gorm E"
  obtain p w0 u1 w1 u2 w2 u3 where g: "tcp_GetTCPRuleByID ?G rid w = (Done p, w0)" "p = Some t"
    and d: "ext_DeleteRuleExtensionByRuleID ?G (gt_UUID t) w0 = (Done u1, w1)" "tcp_DeleteByID ?G (gt_UUID t) w1 = (Done u2, w2)"
      "lb_DELServiceLBMappingPort ?G (gt_ServiceID t) (gt_Port t) w2 = (Done u3, w')"
    using assms(1) unfolding delete_tcp_tx_def by (elim and_thenE deref_opE giveE) blast
  have t: "t \<in> set (vw_tcps (V w))" "gt_UUID t = rid" "w0 = w"
    using tcp_GetTCPRuleByID_some[OF g(1)[unfolded g(2)] assms(2)] by simp_all
  show ?thesis
    by (rule that[OF t(1,2)]) (use t(2,3) in
      \<open>simp add: delete_effects(1)[OF assms(2) d(1)] delete_effects(4)[OF assms(2) d(2)] delete_effects(7)[OF assms(2) d(3)]\<close>)
qed

lemma delete_http_txE:
  assumes "delete_http_tx E rid w = (Done h, w')" "gorm_ok V (ev_gorm E)"
  obtains "h \<in> set (vw_https (V w)) \<and> gh_UUID h = rid \<or> h = zero_http_rule \<and> rid \<notin> gh_UUID ` set (vw_https (V w))"
    "V w' = (V w)\<lparr>vw_https := filter (\<lambda>x. gh_UUID x \<noteq> gh_UUID h) (vw_https (V w)), vw_exts := filter (\<lambda>x. gx_RuleID x \<noteq> gh_UUID h) (vw_exts (V w))\<rparr>"
proof -
  let ?G = "ev_gorm E"
  obtain w0 u1 w1 u2 where g: "http_GetHTTPRuleByID ?G rid w = (Done h, w0)"
    and d: "http_DeleteHTTPRuleByID ?G (gh_UUID h) w0 = (Done u1, w1)" "ext_DeleteRuleExtensionByRuleID ?G (gh_UUID h) w1 = (Done u2, w')"
    using assms(1) unfolding delete_http_tx_def by (elim and_thenE giveE) blast
  have h: "h \<in> set (vw_https (V w)) \<and> gh_UUID h = rid \<or> h = zero_http_rule \<and> rid \<notin> gh_UUID ` set (vw_https (V w))" "w0 = w"
    by (rule http_GetHTTPRuleByIDE[OF g assms(2)]; simp)+
  show ?thesis
    by (rule that[OF h(1)]) (use h(2) in \<open>simp add: delete_effects(3)[OF assms(2) d(1)] delete_effects(1)[OF assms(2) d(2)]\<close>)
qed

lemma CreateHTTPRuleE:
  assumes "CreateHTTPRule E req w = (Done a, w')" "gorm_ok V (ev_gorm E)"
  obtains n ys w1 w2 where "ah_HTTPRuleID req \<notin> gh_UUID ` set (vw_https (V w))" "n \<notin> gh_ID ` set (vw_https (V w))"
    "V w1 = vw_https_update (\<lambda>rs. rs @ [(http_rule_of req)\<lparr>gh_ID := n\<rparr>]) (V w)" "ah_RuleExtensions req = map Some ys"
    "if has_certificate (ah_CertificateID req) then cert_AddOrUpdate (ev_gorm E) (certificate_of (cert_name (ev_NewUUID E 0)) req) w1 = (Done (), w2) else w2 = w1"
    "adds_exts (map (\<lambda>y. (ah_HTTPRuleID req, rs_Key y, rs_Value y)) ys) (V w2) (V w')"
proof -
  let ?G = "ev_gorm E"
  let ?c = "if has_certificate (ah_CertificateID req) then cert_AddOrUpdate ?G (certificate_of (cert_name (ev_NewUUID E 0)) req) else give ()"
  obtain u1 w1 u2 w2 where h: "http_AddModel ?G (http_rule_of req) w = (Done u1, w1)" and c: "?c w1 = (Done u2, w2)"
    and x: "add_http_extensions E 1 (ah_HTTPRuleID req) (ah_RuleExtensions req) w2 = (Done a, w')"
    using assms(1) unfolding CreateHTTPRule_def by (elim and_thenE) blast
  have c': "if has_certificate (ah_CertificateID req) then cert_AddOrUpdate ?G (certificate_of (cert_name (ev_NewUUID E 0)) req) w1 = (Done (), w2) else w2 = w1"
    using c by (auto elim!: giveE)
  obtain n where n: "ah_HTTPRuleID req \<notin> gh_UUID ` set (vw_https (V w))" "n \<notin> gh_ID ` set (vw_https (V w))"
    "V w1 = vw_https_update (\<lambda>rs. rs @ [(http_rule_of req)\<lparr>gh_ID := n\<rparr>]) (V w)"
    by (rule http_AddModelE[OF h assms(2)]) (simp add: http_rule_of_def)
  show ?thesis by (rule add_http_extensionsE[OF x assms(2)]) (rule that[OF n _ c'])
qed

lemma CreateTCPRuleE:
  assumes "CreateTCPRule E req w = (Done a, w')" "gorm_ok V (ev_gorm E)"
  obtains n ys w1 where "at_TCPRuleID req \<notin> gt_UUID ` set (vw_tcps (V w))" "n \<notin> gt_ID ` set (vw_tcps (V w))"
    "(at_IP req, at_Port req) \<notin> (\<lambda>x. (gt_IP x, gt_Port x)) ` set (vw_tcps (V w))"
    "V w1 = vw_tcps_update (\<lambda>rs. rs @ [(tcp_rule_of req)\<lparr>gt_ID := n\<rparr>]) (V w)" "at_RuleExtensions req = map Some ys"
    "adds_exts (map (\<lambda>y. (at_TCPRuleID req, [], rs_Value y)) ys) (V w1) (V w')"
proof -
  obtain u1 w1 where t: "tcp_AddModel (ev_gorm E) (tcp_rule_of req) w = (Done u1, w1)"
    and x: "AddRuleExtensions E 0 (at_TCPRuleID req) (at_RuleExtensions req) w1 = (Done a, w')"
    using assms(1) unfolding CreateTCPRule_def by (elim and_thenE)
  obtain n where n: "at_TCPRuleID req \<notin> gt_UUID ` set (vw_tcps (V w))" "n \<notin> gt_ID ` set (vw_tcps (V w))"
    "(at_IP req, at_Port req) \<notin> (\<lambda>x. (gt_IP x, gt_Port x)) ` set (vw_tcps (V w))"
    "V w1 = vw_tcps_update (\<lambda>rs. rs @ [(tcp_rule_of req)\<lparr>gt_ID := n\<rparr>]) (V w)"
    by (rule tcp_AddModelE[OF t assms(2)]) (simp add: tcp_rule_of_def)
  show ?thesis by (rule AddRuleExtensionsE[OF x assms(2)]) (rule that[OF n])
qed

section \<open>The contract of the operations\<close>

lemma keeps_transactions [keeps_rules]:
  assumes "gorm_ok V (ev_gorm E)"
  shows "keeps V (CreateHTTPRule E hreq)" "keeps V (update_http_tx E hreq)" "keeps V (delete_http_tx E rid)"
    "keeps V (CreateTCPRule E treq)" "keeps V (update_tcp_tx E treq)" "keeps V (delete_tcp_tx E rid)" "keeps V (rule_config_tx E rid cfgs)"
proof -
  show "keeps V (update_http_tx E hreq)"
    unfolding keeps_def
  proof (intro allI impI)
    fix w h w' assume u: "update_http_tx E hreq w = (Done h, w')" and wf: "rules_wf (V w)"
    show "rules_wf (V w')"
    proof (rule update_http_txE[OF u assms])
      fix rule and ys :: "RuleExtensionStruct list" and w1 w2
      assume a: "rule \<in> set (vw_https (V w))" "h = http_rule_updated hreq rule" "rules_wf (V w) \<longrightarrow> rules_wf (V w2)"
        "if has_certificate (ah_CertificateID hreq) then cert_AddOrUpdate (ev_gorm E) (certificate_of [] hreq) w = (Done (), w1) else w1 = w"
        "replaced_exts (ah_HTTPRuleID hreq) (map (\<lambda>y. (ah_HTTPRuleID hreq, rs_Key y, rs_Value y)) ys) (V w1) (V w2)"
        "V w' = vw_https_update (map (\<lambda>x. if gh_ID x = gh_ID h then h else x)) (V w2)"
      have "vw_https (V w1) = vw_https (V w)" using a(4) cert_frame[OF _ assms] by (fastforce split: if_splits)
      then have "rule \<in> set (vw_https (V w2))" using a(1) replaced_frame(2)[OF a(5)] by simp
      moreover have w2: "rules_wf (V w2)" using a(3) wf by simp
      ultimately show ?thesis using a(2,6) unique_rows_replace[of gh_ID gh_UUID "vw_https (V w2)" rule h]
        by (simp add: rules_wf_def http_rule_updated_def)
    qed
  qed
  show "keeps V (update_tcp_tx E treq)"
    unfolding keeps_def
  proof (intro allI impI)
    fix w t w' assume u: "update_tcp_tx E treq w = (Done t, w')" and wf: "rules_wf (V w)"
    show "rules_wf (V w')"
    proof (rule update_tcp_txE[OF u assms])
      fix rule and ys :: "RuleExtensionStruct list" and w2
      assume a: "rule \<in> set (vw_tcps (V w))" "t = tcp_rule_updated treq rule" "rules_wf (V w) \<longrightarrow> rules_wf (V w2)"
        "replaced_exts (at_TCPRuleID treq) (map (\<lambda>y. (at_TCPRuleID treq, [], rs_Value y)) ys) (V w) (V w2)"
        "V w' = vw_tcps_update (map (\<lambda>x. if gt_ID x = gt_ID t then t else x)) (V w2)"
      have "rule \<in> set (vw_tcps (V w2))" using a(1) replaced_frame(3)[OF a(4)] by simp
      moreover have w2: "rules_wf (V w2)" using a(3) wf by simp
      ultimately show ?thesis using a(2,5) unique_rows_replace[of gt_ID gt_UUID "vw_tcps (V w2)" rule t]
        by (simp add: rules_wf_def tcp_rule_updated_def)
    qed
  qed
qed (auto simp: CreateHTTPRule_def delete_http_tx_def CreateTCPRule_def delete_tcp_tx_def rule_config_tx_def intro!: keeps_rules assms)


locale rule_operation =
  fixes operation :: "'w api_env \<Rightarrow> 'q \<Rightarrow> (unit, 'w api_state) op"
  assumes failed: "gorm_ok V (ev_gorm E) \<Longrightarrow> operation E q s = (r, s') \<Longrightarrow> r \<noteq> Done () \<Longrightarrow>
      (V (ga_db s') = V (ga_db s) \<or> (\<exists>e. r = Fail (ErrDB e))) \<and> ga_tasks s' = ga_tasks s"
    and unique: "gorm_ok V (ev_gorm E) \<Longrightarrow> operation E q s = (r, s') \<Longrightarrow> rules_wf (V (ga_db s)) \<Longrightarrow> rules_wf (V (ga_db s'))"
    and sent: "gorm_ok V (ev_gorm E) \<Longrightarrow> operation E q s = (r, s') \<Longrightarrow> ga_lockPort s' = ga_lockPort s \<and>
      (ga_tasks s' = ga_tasks s \<or> (\<exists>t sid. task_for sid t \<and> ga_tasks s' = ga_tasks s @ [t]))"
begin

text \<open>A sequence of requests: each is tried, whatever the one before has returned.\<close>

definition serve :: "'w api_env list \<Rightarrow> 'q list \<Rightarrow> 'w api_state \<Rightarrow> 'w api_state" where
  "serve Es qs s = fold (\<lambda>(E, q) s. snd (operation E q s)) (zip Es qs) s"

lemma serve_unique:
  assumes "\<And>E. E \<in> set Es \<Longrightarrow> gorm_ok V (ev_gorm E)" "rules_wf (V (ga_db s))"
  shows "rules_wf (V (ga_db (serve Es qs s)))"
proof -
  have "\<forall>(E, q) \<in> set eqs. gorm_ok V (ev_gorm E) \<Longrightarrow> rules_wf (V (ga_db s)) \<Longrightarrow>
     rules_wf (V (ga_db (fold (\<lambda>(E, q) s. snd (operation E q s)) eqs s)))" for eqs
    by (induction eqs arbitrary: s) (auto intro: unique[OF _ prod.collapse[symmetric]])
  then show ?thesis using assms unfolding serve_def by (auto dest: set_zip_leftD)
qed

lemma serve_bounded:
  assumes "\<And>E. E \<in> set Es \<Longrightarrow> gorm_ok V (ev_gorm E)"
  shows "length (ga_tasks (serve Es qs s)) \<le> length (ga_tasks s) + length qs"
proof -
  have "\<forall>(E, q) \<in> set eqs. gorm_ok V (ev_gorm E) \<Longrightarrow>
     length (ga_tasks (fold (\<lambda>(E, q) s. snd (operation E q s)) eqs s)) \<le> length (ga_tasks s) + length eqs" for eqs
  proof (induction eqs arbitrary: s)
    case (Cons e eqs)
    obtain E q where e: "e = (E, q)" by (cases e)
    have "length (ga_tasks (snd (operation E q s))) \<le> length (ga_tasks s) + 1"
      using sent[OF _ prod.collapse[symmetric], of V E q s] Cons.prems e by auto
    then show ?case using Cons.IH[of "snd (operation E q s)"] Cons.prems e by simp
  qed simp
  from this[of "zip Es qs"] have "length (ga_tasks (serve Es qs s)) \<le> length (ga_tasks s) + length (zip Es qs)"
    using assms unfolding serve_def by (auto dest: set_zip_leftD)
  then show ?thesis by simp
qed

end

lemma tx_operation:
  assumes "gorm_ok V (ev_gorm E)" "keeps V m" "\<And>a. notifies (f a)"
    and "tx_then_notify E m f s = (r, s') \<or> recovering (tx_then_notify E m f) s = (r, s')"
  shows "r \<noteq> Done () \<Longrightarrow> (V (ga_db s') = V (ga_db s) \<or> (\<exists>e. r = Fail (ErrDB e))) \<and> ga_tasks s' = ga_tasks s"
    "rules_wf (V (ga_db s)) \<Longrightarrow> rules_wf (V (ga_db s'))"
    "ga_lockPort s' = ga_lockPort s \<and> (ga_tasks s' = ga_tasks s \<or> (\<exists>t sid. task_for sid t \<and> ga_tasks s' = ga_tasks s @ [t]))"
proof -
  obtain x where x: "tx_then_notify E m f s = (x, s')" "r \<noteq> Done () \<Longrightarrow> x = r"
    using assms(4) by (auto simp: recovering_def split: prod.splits op_result.splits)
  have "(r \<noteq> Done () \<longrightarrow> (V (ga_db s') = V (ga_db s) \<or> (\<exists>e. r = Fail (ErrDB e))) \<and> ga_tasks s' = ga_tasks s) \<and>
    (rules_wf (V (ga_db s)) \<longrightarrow> rules_wf (V (ga_db s'))) \<and> ga_lockPort s' = ga_lockPort s \<and>
    (ga_tasks s' = ga_tasks s \<or> (\<exists>t sid. task_for sid t \<and> ga_tasks s' = ga_tasks s @ [t]))"
  proof (rule tx_then_notifyE[OF x(1) assms(1,3)], goal_cases)
    case (1 a tx)
    then show ?case using x(2) assms(2) unfolding keeps_def by metis
  next
    case 2
    have "rules_wf (V (ga_db s')) " if "rules_wf (V (ga_db s))"
      using 2(2) that assms(2) unfolding keeps_def by (metis (no_types))
    then show ?case using 2 x(2) by auto
  qed
  then show "r \<noteq> Done () \<Longrightarrow> (V (ga_db s') = V (ga_db s) \<or> (\<exists>e. r = Fail (ErrDB e))) \<and> ga_tasks s' = ga_tasks s"
    "rules_wf (V (ga_db s)) \<Longrightarrow> rules_wf (V (ga_db s'))"
    "ga_lockPort s' = ga_lockPort s \<and> (ga_tasks s' = ga_tasks s \<or> (\<exists>t sid. task_for sid t \<and> ga_tasks s' = ga_tasks s @ [t]))"
    by blast+
qed

lemma rule_operationI:
  fixes operation :: "'w api_env \<Rightarrow> 'q \<Rightarrow> (unit, 'w api_state) op"
  assumes "\<And>E q. \<exists>(m :: ('a, 'w) op) f. (operation E q = tx_then_notify E m f \<or> operation E q = recovering (tx_then_notify E m f)) \<and>
      (\<forall>V. gorm_ok V (ev_gorm E) \<longrightarrow> keeps V m) \<and> (\<forall>a. notifies (f a))"
  shows "rule_operation operation"
proof
  fix V E q s r s' assume g: "gorm_ok V (ev_gorm E)" and o: "operation E q s = (r, s')"
  obtain m :: "('a, 'w) op" and f where a: "operation E q = tx_then_notify E m f \<or> operation E q = recovering (tx_then_notify E m f)"
    "\<forall>V. gorm_ok V (ev_gorm E) \<longrightarrow> keeps V m" "\<forall>a. notifies (f a)" using assms[of E q] by blast
  have "tx_then_notify E m f s = (r, s') \<or> recovering (tx_then_notify E m f) s = (r, s')" using a(1) o by auto
  note t = tx_operation[OF g _ _ this, OF a(2)[rule_format, OF g] a(3)[rule_format]]
  show "r \<noteq> Done () \<Longrightarrow> (V (ga_db s') = V (ga_db s) \<or> (\<exists>e. r = Fail (ErrDB e))) \<and> ga_tasks s' = ga_tasks s" by (rule t(1))
  show "rules_wf (V (ga_db s)) \<Longrightarrow> rules_wf (V (ga_db s'))" by (rule t(2))
  show "ga_lockPort s' = ga_lockPort s \<and> (ga_tasks s' = ga_tasks s \<or> (\<exists>t sid. task_for sid t \<and> ga_tasks s' = ga_tasks s @ [t]))" by (rule t(3))
qed

interpretation add_http: rule_operation AddHTTPRule
  by (rule rule_operationI, unfold AddHTTPRule_def, fold tx_then_notify_def) (use keeps_transactions(1) in blast)

interpretation update_http: rule_operation UpdateHTTPRule
  by (rule rule_operationI, unfold UpdateHTTPRule_def, fold tx_then_notify_def) (use keeps_transactions(2) in blast)

interpretation delete_http: rule_operation DeleteHTTPRule
  by (rule rule_operationI, unfold DeleteHTTPRule_def, fold tx_then_notify_def) (use keeps_transactions(3) in blast)

interpretation add_tcp: rule_operation AddTCPRule
  by (rule rule_operationI, unfold AddTCPRule_def, fold tx_then_notify_def) (use keeps_transactions(4) in blast)

interpretation update_tcp: rule_operation UpdateTCPRule
  by (rule rule_operationI, unfold UpdateTCPRule_def, fold tx_then_notify_def) (use keeps_transactions(5) in blast)

interpretation delete_tcp: rule_operation DeleteTCPRule
  by (rule rule_operationI, unfold DeleteTCPRule_def, fold tx_then_notify_def) (use keeps_transactions(6) in blast)

text \<open>\<open>RuleConfig\<close> reads the rule before the transaction.\<close>

lemma RuleConfig_cases:
  assumes "RuleConfig E rng req s = (r, s')"
  obtains "s' = s" "r \<noteq> Done ()"
  | rule cfgs where "rule_configs rng req = Some cfgs" "http_GetHTTPRuleByID (ev_gorm E) (cr_RuleID req) (ga_db s) = (Done rule, ga_db s)"
      "recovering (tx_then_notify E (rule_config_tx E (cr_RuleID req) cfgs)
         (\<lambda>_. notify_config E (cr_ServiceID req) (cr_EventID req) (gh_Domain rule))) s = (r, s')"
proof -
  let ?g = "http_GetHTTPRuleByID (ev_gorm E) (cr_RuleID req) (ga_db s)"
  have w: "snd ?g = ga_db s" by (simp add: http_GetHTTPRuleByID_def split: sum.splits)
  show ?thesis
    using assms w that
    by (cases "rule_configs rng req"; cases ?g; cases "fst ?g")
       (auto simp: RuleConfig_def and_then_def deref_op_def on_db_def tx_then_notify_def)
qed

interpretation rule_config: rule_operation "\<lambda>E. RuleConfig E rng" for rng
proof
  fix V E q s r s' assume g: "gorm_ok V (ev_gorm E)" and o: "RuleConfig E rng q s = (r, s')"
  show "r \<noteq> Done () \<Longrightarrow> (V (ga_db s') = V (ga_db s) \<or> (\<exists>e. r = Fail (ErrDB e))) \<and> ga_tasks s' = ga_tasks s"
    by (rule RuleConfig_cases[OF o], simp) (rule tx_operation(1)[OF g keeps_transactions(7)[OF g] notifies_notify(2) disjI2]; assumption)
  show "rules_wf (V (ga_db s)) \<Longrightarrow> rules_wf (V (ga_db s'))"
    by (rule RuleConfig_cases[OF o], simp) (rule tx_operation(2)[OF g keeps_transactions(7)[OF g] notifies_notify(2) disjI2]; assumption)
  show "ga_lockPort s' = ga_lockPort s \<and> (ga_tasks s' = ga_tasks s \<or> (\<exists>t sid. task_for sid t \<and> ga_tasks s' = ga_tasks s @ [t]))"
    by (rule RuleConfig_cases[OF o], simp) (rule tx_operation(3)[OF g keeps_transactions(7)[OF g] notifies_notify(2) disjI2]; assumption)
qed

end
