(* ===== verification/ApiStore.thy ===== *)
theory ApiStore
  imports ApiOps
begin

text \<open>
  An abstract store of rules (\<open>rule_store\<close>), what each request asks of it (\<open>store_spec\<close>), and that the operations on the
  tables implement it (\<open>perform_implements\<close>).
\<close>

section \<open>An abstract store of rules\<close>

text \<open>Rules and certificates by their identifiers, the extensions and configurations of each rule in order.\<close>

record rule_store =
  st_http :: "string \<rightharpoonup> gateway_http_rule"
  st_tcp :: "string \<rightharpoonup> gateway_tcp_rule"
  st_cert :: "string \<rightharpoonup> string \<times> string"
  st_ext :: "string \<Rightarrow> (string \<times> string) list"
  st_cfg :: "string \<Rightarrow> (string \<times> string) list"

definition table_map :: "('r \<Rightarrow> 'k) \<Rightarrow> ('r \<Rightarrow> 'v) \<Rightarrow> 'r list \<Rightarrow> 'k \<rightharpoonup> 'v" where
  "table_map k f rs = map_of (map (\<lambda>r. (k r, f r)) rs)"

definition table_lists :: "('r \<Rightarrow> 'k) \<Rightarrow> ('r \<Rightarrow> 'v) \<Rightarrow> 'r list \<Rightarrow> 'k \<Rightarrow> 'v list" where
  "table_lists k f rs x = map f (filter (\<lambda>r. k r = x) rs)"

definition abs_store :: "gateway_tables \<Rightarrow> rule_store" where
  "abs_store v =
     \<lparr>st_http = table_map gh_UUID (gh_ID_update (\<lambda>_. 0)) (vw_https v), st_tcp = table_map gt_UUID (gt_ID_update (\<lambda>_. 0)) (vw_tcps v),
      st_cert = table_map gc_UUID (\<lambda>c. (gc_Certificate c, gc_PrivateKey c)) (vw_certs v),
      st_ext = table_lists gx_RuleID (\<lambda>x. (gx_Key x, gx_Value x)) (vw_exts v),
      st_cfg = table_lists gf_RuleID (\<lambda>f. (gf_Key f, gf_Value f)) (vw_cfgs v)\<rparr>"

datatype rule_request =
    ReqAddHTTP AddHTTPRuleStruct
  | ReqUpdateHTTP UpdateHTTPRuleStruct
  | ReqDeleteHTTP string
  | ReqAddTCP AddTCPRuleStruct
  | ReqUpdateTCP UpdateTCPRuleStruct
  | ReqDeleteTCP string
  | ReqConfig RuleConfigReq

fun perform ::
  "'w api_env \<Rightarrow> ((string, string) gomap \<Rightarrow> (string, string) gomap) \<Rightarrow> rule_request \<Rightarrow> (unit, 'w api_state) op" where
  "perform E rng (ReqAddHTTP req) = AddHTTPRule E req"
| "perform E rng (ReqUpdateHTTP req) = UpdateHTTPRule E req"
| "perform E rng (ReqDeleteHTTP rid) = DeleteHTTPRule E rid"
| "perform E rng (ReqAddTCP req) = AddTCPRule E req"
| "perform E rng (ReqUpdateTCP req) = UpdateTCPRule E req"
| "perform E rng (ReqDeleteTCP rid) = DeleteTCPRule E rid"
| "perform E rng (ReqConfig req) = RuleConfig E rng req"

text \<open>The extensions of a request, unless there is a nil pointer among them.\<close>

definition given_exts :: "(RuleExtensionStruct \<Rightarrow> string \<times> string) \<Rightarrow> RuleExtensionStruct option list \<Rightarrow> (string \<times> string) list" where
  "given_exts f xs = map (f \<circ> the) xs"

abbreviation ext_pair :: "RuleExtensionStruct \<Rightarrow> string \<times> string" where
  "ext_pair x \<equiv> (rs_Key x, rs_Value x)"

abbreviation ext_value :: "RuleExtensionStruct \<Rightarrow> string \<times> string" where
  "ext_value x \<equiv> ([], rs_Value x)"

definition put_cert :: "AddHTTPRuleStruct \<Rightarrow> rule_store \<Rightarrow> rule_store" where
  "put_cert req st =
     (if has_certificate (ah_CertificateID req)
      then st\<lparr>st_cert := (st_cert st)(ah_CertificateID req \<mapsto> (ah_Certificate req, ah_PrivateKey req))\<rparr> else st)"

definition put_exts :: "string \<Rightarrow> (string \<times> string) list \<Rightarrow> rule_store \<Rightarrow> rule_store" where
  "put_exts rid xs st = (if xs = [] then st else st\<lparr>st_ext := (st_ext st)(rid := xs)\<rparr>)"

text \<open>What a request asks for: \<open>None\<close> is a request that cannot be served.\<close>

fun store_spec :: "((string, string) gomap \<Rightarrow> (string, string) gomap) \<Rightarrow> rule_request \<Rightarrow> rule_store \<Rightarrow> rule_store option" where
  "store_spec rng (ReqAddHTTP req) st =
     (let rid = ah_HTTPRuleID req in
      if st_http st rid \<noteq> None \<or> None \<in> set (ah_RuleExtensions req) then None
      else Some ((put_cert req st)\<lparr>st_http := (st_http st)(rid \<mapsto> http_rule_of req),
                   st_ext := (st_ext st)(rid := st_ext st rid @ given_exts ext_pair (ah_RuleExtensions req))\<rparr>))"
| "store_spec rng (ReqUpdateHTTP req) st =
     (let rid = ah_HTTPRuleID req in
      case st_http st rid of
        None \<Rightarrow> None
      | Some rule \<Rightarrow>
          if None \<in> set (ah_RuleExtensions req) then None
          else Some ((put_exts rid (given_exts ext_pair (ah_RuleExtensions req)) (put_cert req st))
                       \<lparr>st_http := (st_http st)(rid \<mapsto> http_rule_updated req rule)\<rparr>))"
| "store_spec rng (ReqDeleteHTTP rid) st =
     (let key = (if st_http st rid = None then [] else rid) in
      Some (st\<lparr>st_http := (st_http st)(key := None), st_ext := (st_ext st)(key := [])\<rparr>))"
| "store_spec rng (ReqAddTCP req) st =
     (let rid = at_TCPRuleID req in
      if st_tcp st rid \<noteq> None \<or> (\<exists>t \<in> ran (st_tcp st). gt_IP t = at_IP req \<and> gt_Port t = at_Port req) \<or>
         None \<in> set (at_RuleExtensions req) then None
      else Some (st\<lparr>st_tcp := (st_tcp st)(rid \<mapsto> tcp_rule_of req),
                   st_ext := (st_ext st)(rid := st_ext st rid @ given_exts ext_value (at_RuleExtensions req))\<rparr>))"
| "store_spec rng (ReqUpdateTCP req) st =
     (let rid = at_TCPRuleID req in
      case st_tcp st rid of
        None \<Rightarrow> None
      | Some rule \<Rightarrow>
          if None \<in> set (at_RuleExtensions req) then None
          else Some ((put_exts rid (given_exts ext_value (at_RuleExtensions req)) st)
                       \<lparr>st_tcp := (st_tcp st)(rid \<mapsto> tcp_rule_updated req rule)\<rparr>))"
| "store_spec rng (ReqDeleteTCP rid) st =
     (if st_tcp st rid = None then None else Some (st\<lparr>st_tcp := (st_tcp st)(rid := None), st_ext := (st_ext st)(rid := [])\<rparr>))"
| "store_spec rng (ReqConfig req) st =
     map_option (\<lambda>headers. st\<lparr>st_cfg := (st_cfg st)(cr_RuleID req := body_settings (cr_Body req) @ rng headers)\<rparr>)
       (set_headers (bd_SetHeaders (cr_Body req)) [])"

section \<open>Tables as maps\<close>

lemma table_map_None: "table_map k f rs x = None \<longleftrightarrow> x \<notin> k ` set rs"
  by (simp add: table_map_def map_of_eq_None_iff image_image)

lemma table_map_append: "k r \<notin> k ` set rs \<Longrightarrow> table_map k f (rs @ [r]) = (table_map k f rs)(k r \<mapsto> f r)"
  by (induction rs) (auto simp: table_map_def)

lemma table_map_filter: "table_map k f (filter (\<lambda>r. k r \<noteq> x) rs) = (table_map k f rs)(x := None)"
  by (induction rs) (auto simp: table_map_def)

lemma table_map_in: "unique_rows key k rs \<Longrightarrow> r \<in> set rs \<Longrightarrow> table_map k f rs (k r) = Some (f r)"
  unfolding table_map_def by (rule map_of_is_SomeI) (auto simp: unique_rows_def comp_def)

lemma table_map_replace:
  assumes "unique_rows key k rs" "old \<in> set rs" "key r = key old" "k r = k old"
  shows "table_map k f (map (\<lambda>x. if key x = key r then r else x) rs) = (table_map k f rs)(k r \<mapsto> f r)"
proof
  fix y
  have k: "unique_rows key k (map (\<lambda>x. if key x = key r then r else x) rs)" by (rule unique_rows_replace[OF assms])
  have r: "r \<in> set (map (\<lambda>x. if key x = key r then r else x) rs)" using assms(2,3) by force
  have o: "x = old" if "x \<in> set rs" "k x = k r" for x
    using assms(1,2,4) that by (auto simp: unique_rows_def distinct_map dest: inj_onD)
  show "table_map k f (map (\<lambda>x. if key x = key r then r else x) rs) y = ((table_map k f rs)(k r \<mapsto> f r)) y"
  proof (cases "y = k r")
    case True
    then show ?thesis using table_map_in[OF k r, of f] by simp
  next
    case False
    show ?thesis
    proof (cases "table_map k f rs y")
      case None
      then have "y \<notin> k ` set (map (\<lambda>x. if key x = key r then r else x) rs)" using False by (auto simp: table_map_None)
      then have "table_map k f (map (\<lambda>x. if key x = key r then r else x) rs) y = None" by (simp only: table_map_None not_False_eq_True)
      then show ?thesis using None False by simp
    next
      case (Some v)
      then obtain x where x: "x \<in> set rs" "k x = y" "f x = v" by (auto simp: table_map_def dest!: map_of_SomeD)
      then have "key x \<noteq> key r" using False assms unfolding unique_rows_def by (metis distinct_map inj_onD)
      then have "x \<in> set (map (\<lambda>x. if key x = key r then r else x) rs)" using x(1) by force
      from table_map_in[OF k this, of f] show ?thesis using x False Some by simp
    qed
  qed
qed

lemma table_lists_append: "table_lists k f (rs @ rows) = (\<lambda>x. table_lists k f rs x @ table_lists k f rows x)"
  by (auto simp: table_lists_def)

lemma table_lists_filter: "table_lists k f (filter (\<lambda>r. k r \<noteq> x) rs) = (table_lists k f rs)(x := [])"
proof
  fix y show "table_lists k f (filter (\<lambda>r. k r \<noteq> x) rs) y = ((table_lists k f rs)(x := [])) y"
    by (cases "y = x") (auto simp: table_lists_def intro!: arg_cong[where f = "map f"] filter_cong)
qed

lemma table_lists_all: "\<forall>r \<in> set rows. k r = x \<Longrightarrow> table_lists k f rows = (\<lambda>_. [])(x := map f rows)"
  by (auto simp: table_lists_def fun_eq_iff)


section \<open>The effects, abstractly\<close>

lemma abs_adds_exts:
  assumes "adds_exts (map (\<lambda>y. (rid, p y)) ys) v v'"
  shows "abs_store v' = (abs_store v)\<lparr>st_ext := (st_ext (abs_store v))(rid := st_ext (abs_store v) rid @ map p ys)\<rparr>"
proof -
  obtain rows where r: "map ext_view rows = map (\<lambda>y. (rid, p y)) ys" "v' = vw_exts_update (\<lambda>rs. rs @ rows) v"
    using assms by (auto simp: adds_exts_def)
  have "map gx_RuleID rows = map (\<lambda>_. rid) ys" "map (\<lambda>x. (gx_Key x, gx_Value x)) rows = map p ys"
    using arg_cong[OF r(1), of "map fst"] arg_cong[OF r(1), of "map snd"] by (simp_all add: comp_def ext_view_def)
  moreover from this(1) have "\<forall>x \<in> set rows. gx_RuleID x = rid" by (metis (no_types) in_set_conv_nth length_map nth_map)
  ultimately have "table_lists gx_RuleID (\<lambda>x. (gx_Key x, gx_Value x)) rows = (\<lambda>_. [])(rid := map p ys)"
    using table_lists_all[of rows gx_RuleID rid "\<lambda>x. (gx_Key x, gx_Value x)"] by simp
  then show ?thesis using r(2) by (simp add: abs_store_def table_lists_append fun_eq_iff)
qed

lemma abs_replaced_exts:
  assumes "replaced_exts rid (map (\<lambda>y. (rid, p y)) ys) v v'"
  shows "abs_store v' = put_exts rid (map p ys) (abs_store v)"
proof (cases "ys = []")
  case False
  let ?v = "vw_exts_update (filter (\<lambda>x. gx_RuleID x \<noteq> rid)) v"
  have "adds_exts (map (\<lambda>y. (rid, p y)) ys) ?v v'" using assms False by (simp add: replaced_exts_def)
  from abs_adds_exts[OF this] show ?thesis using False by (simp add: put_exts_def abs_store_def table_lists_filter)
qed (use assms in \<open>simp add: replaced_exts_def put_exts_def\<close>)

lemma abs_cert:
  assumes "if has_certificate (ah_CertificateID req) then cert_AddOrUpdate G (certificate_of name req) w = (Done (), w') else w' = w"
    "gorm_ok V G" "rules_wf (V w)"
  shows "abs_store (V w') = put_cert req (abs_store (V w))"
proof (cases "has_certificate (ah_CertificateID req)")
  case True
  let ?c = "certificate_of name req"
  have k: "unique_rows gc_ID gc_UUID (vw_certs (V w))" using assms(3) by (simp add: rules_wf_def)
  have "cert_AddOrUpdate G ?c w = (Done (), w')" using assms(1) True by simp
  then show ?thesis
  proof (rule cert_AddOrUpdateE[OF _ assms(2)], goal_cases)
    case (1 n)
    then have "gc_UUID (?c\<lparr>gc_ID := n\<rparr>) \<notin> gc_UUID ` set (vw_certs (V w))" by auto
    from table_map_append[OF this, of "\<lambda>c. (gc_Certificate c, gc_PrivateKey c)"] show ?case using 1 True by (simp add: abs_store_def put_cert_def certificate_of_def)
  next
    case (2 old)
    let ?r = "old\<lparr>gc_Certificate := gc_Certificate ?c, gc_PrivateKey := gc_PrivateKey ?c\<rparr>"
    from table_map_replace[OF k 2(1), of ?r "\<lambda>c. (gc_Certificate c, gc_PrivateKey c)"] show ?case
      using 2 True by (simp add: abs_store_def put_cert_def certificate_of_def)
  qed
qed (use assms(1) in \<open>simp add: put_cert_def\<close>)

lemma given_exts_map: "given_exts f (map Some ys) = map f ys"
  by (simp add: given_exts_def)

lemma http_rule_frame [simp]:
  "gh_ID_update f (http_rule_updated req r) = http_rule_updated req (gh_ID_update f r)"
  "gt_ID_update f (tcp_rule_updated treq t) = tcp_rule_updated treq (gt_ID_update f t)"
  "(http_rule_of req)\<lparr>gh_ID := 0\<rparr> = http_rule_of req" "(tcp_rule_of treq)\<lparr>gt_ID := 0\<rparr> = tcp_rule_of treq"
  by (simp_all add: http_rule_updated_def tcp_rule_updated_def http_rule_of_def tcp_rule_of_def)

lemma CreateHTTPRule_spec:
  assumes "CreateHTTPRule E req w = (Done a, w')" "gorm_ok V (ev_gorm E)" "rules_wf (V w)"
  shows "store_spec rng (ReqAddHTTP req) (abs_store (V w)) = Some (abs_store (V w'))"
proof (rule CreateHTTPRuleE[OF assms(1,2)])
  fix n ys w1 w2
  assume n: "ah_HTTPRuleID req \<notin> gh_UUID ` set (vw_https (V w))" "n \<notin> gh_ID ` set (vw_https (V w))"
    "V w1 = vw_https_update (\<lambda>rs. rs @ [(http_rule_of req)\<lparr>gh_ID := n\<rparr>]) (V w)" "ah_RuleExtensions req = map Some ys"
    "if has_certificate (ah_CertificateID req) then cert_AddOrUpdate (ev_gorm E) (certificate_of (cert_name (ev_NewUUID E 0)) req) w1 = (Done (), w2) else w2 = w1"
    "adds_exts (map (\<lambda>y. (ah_HTTPRuleID req, rs_Key y, rs_Value y)) ys) (V w2) (V w')"
  have u: "gh_UUID (http_rule_of req) = ah_HTTPRuleID req" by (simp add: http_rule_of_def)
  have wf1: "rules_wf (V w1)" using assms(3) n(1,2) by (auto simp: rules_wf_def n(3) u intro!: unique_rows_append)
  have h1: "abs_store (V w1) = (abs_store (V w))\<lparr>st_http := (st_http (abs_store (V w)))(ah_HTTPRuleID req \<mapsto> http_rule_of req)\<rparr>"
    using table_map_append[of gh_UUID "(http_rule_of req)\<lparr>gh_ID := n\<rparr>" "vw_https (V w)" "gh_ID_update (\<lambda>_. 0)"] n(1) by (simp add: abs_store_def n(3) u)
  have "st_http (abs_store (V w)) (ah_HTTPRuleID req) = None" using n(1) by (simp add: abs_store_def table_map_None)
  then show ?thesis
    using abs_adds_exts[OF n(6)] abs_cert[OF n(5) assms(2) wf1] h1 n(4)
    by (auto simp: Let_def put_cert_def given_exts_map)
qed

lemma update_http_spec:
  assumes "update_http_tx E req w = (Done h, w')" "gorm_ok V (ev_gorm E)" "rules_wf (V w)"
  shows "store_spec rng (ReqUpdateHTTP req) (abs_store (V w)) = Some (abs_store (V w'))"
proof (rule update_http_txE[OF assms(1,2)])
  fix rule and ys :: "RuleExtensionStruct list" and w1 w2
  assume a: "rule \<in> set (vw_https (V w))" "gh_UUID rule = ah_HTTPRuleID req" "h = http_rule_updated req rule" "ah_RuleExtensions req = map Some ys"
    "rules_wf (V w) \<longrightarrow> rules_wf (V w2)"
    "if has_certificate (ah_CertificateID req) then cert_AddOrUpdate (ev_gorm E) (certificate_of [] req) w = (Done (), w1) else w1 = w"
    "replaced_exts (ah_HTTPRuleID req) (map (\<lambda>y. (ah_HTTPRuleID req, rs_Key y, rs_Value y)) ys) (V w1) (V w2)"
    "V w' = vw_https_update (map (\<lambda>x. if gh_ID x = gh_ID h then h else x)) (V w2)"
  have "vw_https (V w1) = vw_https (V w)" using a(6) cert_frame[OF _ assms(2)] by (fastforce split: if_splits)
  then have h2: "vw_https (V w2) = vw_https (V w)" using replaced_frame(2)[OF a(7)] by simp
  have k: "unique_rows gh_ID gh_UUID (vw_https (V w))" using assms(3) by (simp add: rules_wf_def)
  have old: "st_http (abs_store (V w)) (ah_HTTPRuleID req) = Some (rule\<lparr>gh_ID := 0\<rparr>)"
    using table_map_in[OF k a(1)] a(2) by (simp add: abs_store_def)
  have "gh_ID h = gh_ID rule" "gh_UUID h = gh_UUID rule" by (simp_all add: a(3) http_rule_updated_def)
  from table_map_replace[OF k a(1) this, of "gh_ID_update (\<lambda>_. 0)"] h2
  have "abs_store (V w') = (abs_store (V w2))\<lparr>st_http := (st_http (abs_store (V w)))(ah_HTTPRuleID req \<mapsto> http_rule_updated req (rule\<lparr>gh_ID := 0\<rparr>))\<rparr>"
    using a(2,3) \<open>gh_UUID h = gh_UUID rule\<close> by (simp add: abs_store_def a(8))
  then show ?thesis
    using abs_replaced_exts[OF a(7)] abs_cert[OF a(6) assms(2,3)] old a(4)
    by (auto simp: Let_def given_exts_map)
qed


lemma delete_http_spec:
  assumes "delete_http_tx E rid w = (Done h, w')" "gorm_ok V (ev_gorm E)"
  shows "store_spec rng (ReqDeleteHTTP rid) (abs_store (V w)) = Some (abs_store (V w'))"
proof (rule delete_http_txE[OF assms])
  assume h: "h \<in> set (vw_https (V w)) \<and> gh_UUID h = rid \<or> h = zero_http_rule \<and> rid \<notin> gh_UUID ` set (vw_https (V w))"
    and v: "V w' = (V w)\<lparr>vw_https := filter (\<lambda>x. gh_UUID x \<noteq> gh_UUID h) (vw_https (V w)), vw_exts := filter (\<lambda>x. gx_RuleID x \<noteq> gh_UUID h) (vw_exts (V w))\<rparr>"
  have "gh_UUID h = (if st_http (abs_store (V w)) rid = None then [] else rid)"
    using h by (auto simp: abs_store_def table_map_None zero_http_rule_def)
  then show ?thesis by (simp add: Let_def v abs_store_def table_map_filter table_lists_filter del: fun_upd_apply)
qed

lemma CreateTCPRule_spec:
  assumes "CreateTCPRule E req w = (Done a, w')" "gorm_ok V (ev_gorm E)"
  shows "store_spec rng (ReqAddTCP req) (abs_store (V w)) = Some (abs_store (V w'))"
proof (rule CreateTCPRuleE[OF assms])
  fix n ys w1
  assume n: "at_TCPRuleID req \<notin> gt_UUID ` set (vw_tcps (V w))" "n \<notin> gt_ID ` set (vw_tcps (V w))"
    "(at_IP req, at_Port req) \<notin> (\<lambda>x. (gt_IP x, gt_Port x)) ` set (vw_tcps (V w))"
    "V w1 = vw_tcps_update (\<lambda>rs. rs @ [(tcp_rule_of req)\<lparr>gt_ID := n\<rparr>]) (V w)" "at_RuleExtensions req = map Some ys"
    "adds_exts (map (\<lambda>y. (at_TCPRuleID req, [], rs_Value y)) ys) (V w1) (V w')"
  have u: "gt_UUID (tcp_rule_of req) = at_TCPRuleID req" by (simp add: tcp_rule_of_def)
  have "abs_store (V w1) = (abs_store (V w))\<lparr>st_tcp := (st_tcp (abs_store (V w)))(at_TCPRuleID req \<mapsto> tcp_rule_of req)\<rparr>"
    using table_map_append[of gt_UUID "(tcp_rule_of req)\<lparr>gt_ID := n\<rparr>" "vw_tcps (V w)" "gt_ID_update (\<lambda>_. 0)"] n(1)
    by (simp add: abs_store_def n(4) u)
  moreover have "st_tcp (abs_store (V w)) (at_TCPRuleID req) = None" using n(1) by (simp add: abs_store_def table_map_None)
  moreover have "\<not> (\<exists>t \<in> ran (st_tcp (abs_store (V w))). gt_IP t = at_IP req \<and> gt_Port t = at_Port req)"
    using n(3) by (force simp: abs_store_def table_map_def ran_def dest!: map_of_SomeD)
  ultimately show ?thesis
    using abs_adds_exts[OF n(6)] n(5) by (auto simp: Let_def given_exts_map)
qed

lemma update_tcp_spec:
  assumes "update_tcp_tx E req w = (Done t, w')" "gorm_ok V (ev_gorm E)" "rules_wf (V w)"
  shows "store_spec rng (ReqUpdateTCP req) (abs_store (V w)) = Some (abs_store (V w'))"
proof (rule update_tcp_txE[OF assms(1,2)])
  fix rule and ys :: "RuleExtensionStruct list" and w2
  assume a: "rule \<in> set (vw_tcps (V w))" "gt_UUID rule = at_TCPRuleID req" "t = tcp_rule_updated req rule" "at_RuleExtensions req = map Some ys"
    "replaced_exts (at_TCPRuleID req) (map (\<lambda>y. (at_TCPRuleID req, [], rs_Value y)) ys) (V w) (V w2)"
    "V w' = vw_tcps_update (map (\<lambda>x. if gt_ID x = gt_ID t then t else x)) (V w2)"
  have k: "unique_rows gt_ID gt_UUID (vw_tcps (V w))" using assms(3) by (simp add: rules_wf_def)
  have old: "st_tcp (abs_store (V w)) (at_TCPRuleID req) = Some (rule\<lparr>gt_ID := 0\<rparr>)"
    using table_map_in[OF k a(1)] a(2) by (simp add: abs_store_def)
  have i: "gt_ID t = gt_ID rule" "gt_UUID t = gt_UUID rule" by (simp_all add: a(3) tcp_rule_updated_def)
  from table_map_replace[OF k a(1) i, of "gt_ID_update (\<lambda>_. 0)"] replaced_frame(3)[OF a(5)]
  have "abs_store (V w') = (abs_store (V w2))\<lparr>st_tcp := (st_tcp (abs_store (V w)))(at_TCPRuleID req \<mapsto> tcp_rule_updated req (rule\<lparr>gt_ID := 0\<rparr>))\<rparr>"
    using a(2,3) i(2) by (simp add: abs_store_def a(6))
  then show ?thesis using abs_replaced_exts[OF a(5)] old a(4) by (auto simp: Let_def given_exts_map)
qed

lemma delete_tcp_spec:
  assumes "delete_tcp_tx E rid w = (Done t, w')" "gorm_ok V (ev_gorm E)"
  shows "store_spec rng (ReqDeleteTCP rid) (abs_store (V w)) = Some (abs_store (V w'))"
  by (rule delete_tcp_txE[OF assms])
     (auto simp: abs_store_def table_map_None table_map_filter table_lists_filter simp del: fun_upd_apply)

lemma add_configs:
  assumes "each (cfg_AddModel G) cfgs w = (Done a, w')" "gorm_ok V G"
  shows "\<exists>rows. map (\<lambda>f. f\<lparr>gf_ID := 0\<rparr>) rows = map (\<lambda>f. f\<lparr>gf_ID := 0\<rparr>) cfgs \<and> V w' = vw_cfgs_update (\<lambda>rs. rs @ rows) (V w)"
  using assms(1)
proof (induction cfgs arbitrary: w)
  case (Cons c cfgs)
  then obtain u w1 where c: "cfg_AddModel G c w = (Done u, w1)" and r: "each (cfg_AddModel G) cfgs w1 = (Done a, w')"
    by (auto elim!: and_thenE)
  obtain rows where rows: "map (\<lambda>f. f\<lparr>gf_ID := 0\<rparr>) rows = map (\<lambda>f. f\<lparr>gf_ID := 0\<rparr>) cfgs" "V w' = vw_cfgs_update (\<lambda>rs. rs @ rows) (V w1)"
    using Cons.IH[OF r] by blast
  show ?case
  proof (rule cfg_AddModelE[OF c assms(2)])
    fix n assume "V w1 = vw_cfgs_update (\<lambda>rs. rs @ [c\<lparr>gf_ID := n\<rparr>]) (V w)"
    then show ?thesis using rows by (intro exI[of _ "c\<lparr>gf_ID := n\<rparr> # rows"]) (simp add: comp_def)
  qed
qed (auto elim!: giveE intro: exI[of _ "[]"])

lemma rule_config_spec:
  assumes "rule_config_tx E (cr_RuleID req) cfgs w = (Done a, w')" "gorm_ok V (ev_gorm E)" "rule_configs rng req = Some cfgs"
  shows "store_spec rng (ReqConfig req) (abs_store (V w)) = Some (abs_store (V w'))"
proof -
  let ?id = "cr_RuleID req"
  obtain u w1 where d: "cfg_DeleteByRuleID (ev_gorm E) ?id w = (Done u, w1)" and e: "each (cfg_AddModel (ev_gorm E)) cfgs w1 = (Done a, w')"
    using assms(1) unfolding rule_config_tx_def by (elim and_thenE)
  obtain rows where r: "map (\<lambda>f. f\<lparr>gf_ID := 0\<rparr>) rows = map (\<lambda>f. f\<lparr>gf_ID := 0\<rparr>) cfgs" "V w' = vw_cfgs_update (\<lambda>rs. rs @ rows) (V w1)"
    using add_configs[OF e assms(2)] by blast
  obtain hs where hs: "set_headers (bd_SetHeaders (cr_Body req)) [] = Some hs" "cfgs = map (config_row ?id) (body_settings (cr_Body req) @ rng hs)"
    using assms(3) by (auto simp: rule_configs_def)
  have "map gf_RuleID rows = map gf_RuleID cfgs" "map (\<lambda>f. (gf_Key f, gf_Value f)) rows = map (\<lambda>f. (gf_Key f, gf_Value f)) cfgs"
    using arg_cong[OF r(1), of "map gf_RuleID"] arg_cong[OF r(1), of "map (\<lambda>f. (gf_Key f, gf_Value f))"] by (simp_all add: comp_def)
  then have m: "map (\<lambda>f. (gf_Key f, gf_Value f)) rows = body_settings (cr_Body req) @ rng hs" "map gf_RuleID rows = map (\<lambda>_. ?id) cfgs"
    by (simp_all add: hs(2) config_row_def comp_def)
  have "\<forall>f \<in> set rows. gf_RuleID f = ?id" using m(2) by (metis (no_types) in_set_conv_nth length_map nth_map)
  then have "table_lists gf_RuleID (\<lambda>f. (gf_Key f, gf_Value f)) rows = (\<lambda>_. [])(?id := body_settings (cr_Body req) @ rng hs)"
    using table_lists_all[of rows gf_RuleID ?id "\<lambda>f. (gf_Key f, gf_Value f)"] m(1) by simp
  then show ?thesis
    using hs(1) by (simp add: abs_store_def r(2) delete_effects(5)[OF assms(2) d] table_lists_append table_lists_filter fun_eq_iff)
qed

section \<open>Panics\<close>

definition no_panic :: "('a, 'w) op \<Rightarrow> bool" where
  "no_panic m \<longleftrightarrow> (\<forall>w w'. m w \<noteq> (Panic, w'))"

lemma panic_and_thenE:
  assumes "and_then m f w = (Panic, w')"
  obtains "m w = (Panic, w')" | a w1 where "m w = (Done a, w1)" "f a w1 = (Panic, w')"
  using assms by (auto simp: and_then_def split: prod.splits op_result.splits)

lemma no_panic_and_then: "no_panic m \<Longrightarrow> (\<And>a. no_panic (f a)) \<Longrightarrow> no_panic (and_then m f)"
  unfolding no_panic_def by (blast elim: panic_and_thenE)

lemma exec_stmt_no_panic [simp]: "exec_stmt st w \<noteq> (Panic, w')"
  by (auto simp: exec_stmt_def split: prod.splits option.splits)

lemma no_panic_stmt: "no_panic (exec_stmt st)" "no_panic (give a)" "no_panic (raise e)" "no_panic (add_if_absent T c r)"
  by (auto simp: no_panic_def exec_stmt_def give_def raise_def add_if_absent_def split: prod.splits option.splits)

lemma no_panic_each: "(\<And>x. no_panic (f x)) \<Longrightarrow> no_panic (each f xs)"
  by (induction xs) (auto simp: no_panic_stmt intro: no_panic_and_then)

lemma no_panic_dao:
  "no_panic (http_GetHTTPRuleByID G x)" "no_panic (tcp_GetTCPRuleByID G x)" "no_panic (cert_AddOrUpdate G c)"
  "no_panic (ext_DeleteRuleExtensionByRuleID G x)" "no_panic (http_DeleteHTTPRuleByID G x)" "no_panic (tcp_DeleteByID G x)"
  "no_panic (lb_DELServiceLBMappingPort G x p)" "no_panic (http_UpdateModel G h)" "no_panic (tcp_UpdateModel G t)"
  "no_panic (ext_AddModel G e)" "no_panic (cfg_AddModel G f)" "no_panic (cfg_DeleteByRuleID G x)"
proof -
  show "no_panic (http_GetHTTPRuleByID G x)" "no_panic (tcp_GetTCPRuleByID G x)"
    by (auto simp: no_panic_def http_GetHTTPRuleByID_def tcp_GetTCPRuleByID_def row_or_nil_def split: sum.splits if_splits)
  show "no_panic (cert_AddOrUpdate G c)"
    unfolding no_panic_def cert_AddOrUpdate_def by (auto split: sum.splits if_splits)
qed (simp_all add: no_panic_stmt ext_DeleteRuleExtensionByRuleID_def http_DeleteHTTPRuleByID_def tcp_DeleteByID_def lb_DELServiceLBMappingPort_def
      http_UpdateModel_def tcp_UpdateModel_def ext_AddModel_def cfg_AddModel_def cfg_DeleteByRuleID_def)


lemmas dao_no_panic = no_panic_dao[unfolded no_panic_def, rule_format]

lemma exts_panic:
  "add_http_extensions E n rid xs w = (Panic, w') \<Longrightarrow> None \<in> set xs"
  "AddRuleExtensions E n rid xs w = (Panic, w') \<Longrightarrow> None \<in> set xs"
proof -
  have d: "deref_op p v = (Panic, v') \<Longrightarrow> p = None" for p :: "RuleExtensionStruct option" and v v' :: 'a
    by (auto simp: deref_op_def split: option.splits)
  show "add_http_extensions E n rid xs w = (Panic, w') \<Longrightarrow> None \<in> set xs"
    by (induction xs arbitrary: n w) (auto simp: dao_no_panic give_def elim!: panic_and_thenE dest: d)
  show "AddRuleExtensions E n rid xs w = (Panic, w') \<Longrightarrow> None \<in> set xs"
    by (induction xs arbitrary: n w) (auto simp: dao_no_panic give_def elim!: panic_and_thenE dest: d)
qed

lemma update_http_panic:
  assumes "update_http_tx E req w = (Panic, w')"
  shows "None \<in> set (ah_RuleExtensions req)"
  using assms unfolding update_http_tx_def
  by (auto simp: dao_no_panic give_def raise_def elim!: panic_and_thenE split: if_splits dest: exts_panic(1))

lemma update_tcp_panic:
  assumes "update_tcp_tx E req w = (Panic, w')" "gorm_ok V (ev_gorm E)"
  shows "None \<in> set (at_RuleExtensions req) \<or> at_TCPRuleID req \<notin> gt_UUID ` set (vw_tcps (V w))"
proof (rule ccontr)
  assume n: "\<not> ?thesis"
  have "p \<noteq> None" if "tcp_GetTCPRuleByID (ev_gorm E) (at_TCPRuleID req) w = (Done p, w1)" for p w1
  proof
    assume "p = None"
    with that have "tb_First (gm_TCPRule (ev_gorm E)) (\<lambda>t. gt_UUID t = at_TCPRuleID req) w = Inl ErrRecordNotFound"
      by (auto simp: tcp_GetTCPRuleByID_def row_or_nil_def split: sum.splits if_splits)
    from first_okD(1)[OF gorm_okD(7)[OF assms(2)] this] n show False by (auto simp: filter_empty_conv)
  qed
  then show False
    using assms(1) n unfolding update_tcp_tx_def
    by (auto simp: dao_no_panic give_def deref_op_def elim!: panic_and_thenE split: if_splits option.splits dest: exts_panic(2))
qed

lemma delete_tcp_panic:
  assumes "delete_tcp_tx E rid w = (Panic, w')" "gorm_ok V (ev_gorm E)"
  shows "rid \<notin> gt_UUID ` set (vw_tcps (V w))"
proof -
  have "tcp_GetTCPRuleByID (ev_gorm E) rid w = (Done None, w')"
    using assms(1) unfolding delete_tcp_tx_def
    by (auto simp: dao_no_panic give_def deref_op_def elim!: panic_and_thenE split: option.splits)
  then have "tb_First (gm_TCPRule (ev_gorm E)) (\<lambda>t. gt_UUID t = rid) w = Inl ErrRecordNotFound"
    by (auto simp: tcp_GetTCPRuleByID_def row_or_nil_def split: sum.splits if_splits)
  from first_okD(1)[OF gorm_okD(7)[OF assms(2)] this] show ?thesis by (auto simp: filter_empty_conv)
qed

lemma no_panic_tx: "no_panic (delete_http_tx E rid)" "no_panic (rule_config_tx E rid cfgs)"
  unfolding delete_http_tx_def rule_config_tx_def by (intro no_panic_and_then no_panic_each no_panic_dao no_panic_stmt)+

section \<open>The operations implement the store\<close>

text \<open>\<open>implements spec m\<close>: when the transaction ends normally, \<open>spec\<close> gives its result, and when it panics, \<open>spec\<close> refuses.\<close>

definition implements :: "('w \<Rightarrow> gateway_tables) \<Rightarrow> (rule_store \<Rightarrow> rule_store option) \<Rightarrow> ('a, 'w) op \<Rightarrow> bool" where
  "implements V spec m \<longleftrightarrow>
     (\<forall>w a w'. rules_wf (V w) \<longrightarrow> m w = (Done a, w') \<longrightarrow> spec (abs_store (V w)) = Some (abs_store (V w'))) \<and>
     (\<forall>w w'. m w = (Panic, w') \<longrightarrow> spec (abs_store (V w)) = None)"

definition implemented :: "('w \<Rightarrow> gateway_tables) \<Rightarrow> (rule_store \<Rightarrow> rule_store option) \<Rightarrow> unit op_result \<Rightarrow> 'w api_state \<Rightarrow> 'w api_state \<Rightarrow> bool" where
  "implemented V spec r s s' \<longleftrightarrow>
     (if r = Done () \<and> spec (abs_store (V (ga_db s))) \<noteq> None
      then spec (abs_store (V (ga_db s))) = Some (abs_store (V (ga_db s')))
      else ga_tasks s' = ga_tasks s \<and>
        (V (ga_db s') = V (ga_db s) \<or>
         (\<exists>e. r = Fail (ErrDB e)) \<and> spec (abs_store (V (ga_db s))) = Some (abs_store (V (ga_db s')))))"

lemma tx_panic:
  assumes "tx_then_notify E m f s = (Panic, s')" "\<And>a. notifies (f a)"
  shows "\<exists>tx. m (ga_db s) = (Panic, tx)"
proof -
  have "f a s1 \<noteq> (Panic, s')" for a s1 using assms(2)[of a] by (auto simp: notifies_def)
  then show ?thesis
    using assms(1) by (auto simp: tx_then_notify_def and_then_def on_db_def in_tx_def split: prod.splits op_result.splits option.splits)
qed

lemma tx_implements:
  assumes "gorm_ok V (ev_gorm E)" "rules_wf (V (ga_db s))" "implements V spec m" "\<And>a. notifies (f a)"
    and "tx_then_notify E m f s = (r, s') \<or> recovering (tx_then_notify E m f) s = (r, s')"
  shows "implemented V spec r s s'"
proof -
  obtain x where x: "tx_then_notify E m f s = (x, s')" "r = x \<or> x = Panic"
    using assms(5) by (auto simp: recovering_def split: prod.splits op_result.splits)
  show ?thesis
  proof (rule tx_then_notifyE[OF x(1) assms(1,4)], goal_cases)
    case (1 a tx)
    then have "r = Done ()" "spec (abs_store (V (ga_db s))) = Some (abs_store (V (ga_db s')))"
      using x(2) assms(2,3) unfolding implements_def by auto
    then show ?case by (simp add: implemented_def)
  next
    case 2
    have "spec (abs_store (V (ga_db s))) = None" if "x = Panic"
      using tx_panic[OF x(1)[unfolded that] assms(4)] assms(3) unfolding implements_def by blast
    moreover have "spec (abs_store (V (ga_db s))) = Some (abs_store (V (ga_db s')))"
      if "m (ga_db s) = (Done a, tx)" "V (ga_db s') = V tx" for a tx
      using that assms(2,3) unfolding implements_def by metis
    ultimately show ?case using 2 x(2) by (auto simp: implemented_def)
  qed
qed


lemma transactions_implement:
  assumes "gorm_ok V (ev_gorm E)"
  shows "implements V (store_spec rng (ReqAddHTTP hreq)) (CreateHTTPRule E hreq)"
    "implements V (store_spec rng (ReqUpdateHTTP hreq)) (update_http_tx E hreq)"
    "implements V (store_spec rng (ReqDeleteHTTP rid)) (delete_http_tx E rid)"
    "implements V (store_spec rng (ReqAddTCP treq)) (CreateTCPRule E treq)"
    "implements V (store_spec rng (ReqUpdateTCP treq)) (update_tcp_tx E treq)"
    "implements V (store_spec rng (ReqDeleteTCP rid)) (delete_tcp_tx E rid)"
    "rule_configs rng creq = Some cfgs \<Longrightarrow> implements V (store_spec rng (ReqConfig creq)) (rule_config_tx E (cr_RuleID creq) cfgs)"
proof -
  have hp: "None \<in> set (ah_RuleExtensions hreq)" if "CreateHTTPRule E hreq w = (Panic, w')" for w w'
    using that unfolding CreateHTTPRule_def http_AddModel_def
    by (auto simp: dao_no_panic give_def no_panic_stmt(4)[unfolded no_panic_def] elim!: panic_and_thenE split: if_splits dest: exts_panic(1))
  have tp: "None \<in> set (at_RuleExtensions treq)" if "CreateTCPRule E treq w = (Panic, w')" for w w'
    using that unfolding CreateTCPRule_def tcp_AddModel_def
    by (auto simp: no_panic_stmt(4)[unfolded no_panic_def] elim!: panic_and_thenE dest: exts_panic(2))
  have up: "store_spec rng (ReqUpdateHTTP hreq) st = None" if "update_http_tx E hreq w = (Panic, w')" for st w w'
    using update_http_panic[OF that] by (simp add: Let_def split: option.splits)
  have tu: "store_spec rng (ReqUpdateTCP treq) (abs_store (V w)) = None" if "update_tcp_tx E treq w = (Panic, w')" for w w'
  proof -
    have "st_tcp (abs_store (V w)) (at_TCPRuleID treq) = None \<or> None \<in> set (at_RuleExtensions treq)"
      using update_tcp_panic[OF that assms] by (auto simp: abs_store_def table_map_None)
    then show ?thesis by (auto simp: Let_def split: option.splits)
  qed
  show "implements V (store_spec rng (ReqAddHTTP hreq)) (CreateHTTPRule E hreq)"
    unfolding implements_def using CreateHTTPRule_spec[OF _ assms] hp by (auto simp: Let_def)
  show "implements V (store_spec rng (ReqUpdateHTTP hreq)) (update_http_tx E hreq)"
    unfolding implements_def using update_http_spec[OF _ assms] up by blast
  show "implements V (store_spec rng (ReqDeleteHTTP rid)) (delete_http_tx E rid)"
    unfolding implements_def using delete_http_spec[OF _ assms] no_panic_tx(1)[of E rid, unfolded no_panic_def] by auto
  show "implements V (store_spec rng (ReqAddTCP treq)) (CreateTCPRule E treq)"
    unfolding implements_def using CreateTCPRule_spec[OF _ assms] tp by (auto simp: Let_def)
  show "implements V (store_spec rng (ReqUpdateTCP treq)) (update_tcp_tx E treq)"
    unfolding implements_def using update_tcp_spec[OF _ assms] tu by blast
  show "implements V (store_spec rng (ReqDeleteTCP rid)) (delete_tcp_tx E rid)"
    unfolding implements_def using delete_tcp_spec[OF _ assms] delete_tcp_panic[OF _ assms]
    by (auto simp: abs_store_def table_map_None)
  show "implements V (store_spec rng (ReqConfig creq)) (rule_config_tx E (cr_RuleID creq) cfgs)" if "rule_configs rng creq = Some cfgs"
    unfolding implements_def using rule_config_spec[OF _ assms that] no_panic_tx(2)[of E _ cfgs, unfolded no_panic_def] by auto
qed

lemma perform_implements:
  assumes "gorm_ok V (ev_gorm E)" "rules_wf (V (ga_db s))" "perform E rng q s = (r, s')"
  shows "implemented V (store_spec rng q) r s s'"
proof (cases q)
  case (ReqConfig req)
  show ?thesis
  proof (rule RuleConfig_cases[OF assms(3)[unfolded ReqConfig perform.simps]], goal_cases)
    case 1
    then show ?case by (simp add: implemented_def)
  next
    case (2 rule cfgs)
    then show ?case unfolding ReqConfig
      by (intro tx_implements[OF assms(1,2) transactions_implement(7)[OF assms(1)] notifies_notify(2) disjI2])
  qed
next
  case (ReqAddHTTP x)
  note o = assms(3)[unfolded ReqAddHTTP perform.simps AddHTTPRule_def, folded tx_then_notify_def]
  show ?thesis unfolding ReqAddHTTP
    by (rule tx_implements[OF assms(1,2) transactions_implement(1)[OF assms(1)] notifies_notify(1) disjI1[OF o]])
next
  case (ReqUpdateHTTP x)
  note o = assms(3)[unfolded ReqUpdateHTTP perform.simps UpdateHTTPRule_def, folded tx_then_notify_def]
  show ?thesis unfolding ReqUpdateHTTP
    by (rule tx_implements[OF assms(1,2) transactions_implement(2)[OF assms(1)] notifies_notify(1) disjI2[OF o]])
next
  case (ReqDeleteHTTP x)
  note o = assms(3)[unfolded ReqDeleteHTTP perform.simps DeleteHTTPRule_def, folded tx_then_notify_def]
  show ?thesis unfolding ReqDeleteHTTP
    by (rule tx_implements[OF assms(1,2) transactions_implement(3)[OF assms(1)] notifies_notify(1) disjI2[OF o]])
next
  case (ReqAddTCP x)
  note o = assms(3)[unfolded ReqAddTCP perform.simps AddTCPRule_def, folded tx_then_notify_def]
  show ?thesis unfolding ReqAddTCP
    by (rule tx_implements[OF assms(1,2) transactions_implement(4)[OF assms(1)] notifies_notify(1) disjI1[OF o]])
next
  case (ReqUpdateTCP x)
  note o = assms(3)[unfolded ReqUpdateTCP perform.simps UpdateTCPRule_def, folded tx_then_notify_def]
  show ?thesis unfolding ReqUpdateTCP
    by (rule tx_implements[OF assms(1,2) transactions_implement(5)[OF assms(1)] notifies_notify(1) disjI2[OF o]])
next
  case (ReqDeleteTCP x)
  note o = assms(3)[unfolded ReqDeleteTCP perform.simps DeleteTCPRule_def, folded tx_then_notify_def]
  show ?thesis unfolding ReqDeleteTCP
    by (rule tx_implements[OF assms(1,2) transactions_implement(6)[OF assms(1)] notifies_notify(1) disjI2[OF o]])
qed

end
