(* ===== verification/ApiProps.thy ===== *)
theory ApiProps
  imports ApiStore
begin

text \<open>
  Properties of the API server's rules: requests implement the abstract store, answers tell what happened, and
  allocated ports are free. The laws of the database hold of a database in memory, on which the witnesses run.
\<close>

section \<open>A database in memory\<close>

definition mem_table ::
  "('w \<Rightarrow> 'r list) \<Rightarrow> (('r list \<Rightarrow> 'r list) \<Rightarrow> 'w \<Rightarrow> 'w) \<Rightarrow> ('r \<Rightarrow> nat) \<Rightarrow> ((nat \<Rightarrow> nat) \<Rightarrow> 'r \<Rightarrow> 'r) \<Rightarrow> ('r, 'w) table" where
  "mem_table rows upd key with_key =
     \<lparr>tb_First = (\<lambda>c w. case filter c (rows w) of [] \<Rightarrow> Inl ErrRecordNotFound | r # _ \<Rightarrow> Inr r),
      tb_Find = (\<lambda>c w. Inr (filter c (rows w))),
      tb_FindAsc = (\<lambda>f c w. Inr (sort_key f (filter c (rows w)))),
      tb_Create = (\<lambda>r w. (None, upd (\<lambda>rs. rs @ [with_key (\<lambda>_. Suc (foldr max (map key (rows w)) 0)) r]) w)),
      tb_Save = (\<lambda>c r w. (None, upd (map (\<lambda>x. if key x = key r then r else x)) w)),
      tb_Delete = (\<lambda>c w. (None, upd (filter (\<lambda>x. \<not> c x)) w))\<rparr>"

definition mem_gorm :: "tenant_services list \<Rightarrow> gateway_tables gorm" where
  "mem_gorm svcs =
     \<lparr>gm_Certificate = mem_table vw_certs vw_certs_update gc_ID gc_ID_update,
      gm_RuleExtension = mem_table vw_exts vw_exts_update gx_ID gx_ID_update,
      gm_HTTPRule = mem_table vw_https vw_https_update gh_ID gh_ID_update,
      gm_TCPRule = mem_table vw_tcps vw_tcps_update gt_ID gt_ID_update,
      gm_GwRuleConfig = mem_table vw_cfgs vw_cfgs_update gf_ID gf_ID_update,
      gm_LBMappingPort = mem_table vw_lbs vw_lbs_update lm_ID lm_ID_update,
      gm_TenantServices = mem_table (\<lambda>_. svcs) (\<lambda>_ w. w) (\<lambda>_. 0) (\<lambda>_ r. r),
      gm_Commit = (\<lambda>w tx. (None, tx)), gm_Rollback = (\<lambda>w tx. w)\<rparr>"

lemma mem_fresh: "Suc (foldr max ns 0) \<notin> set ns"
proof -
  have "n \<le> foldr max ns 0" if "n \<in> set ns" for n using that by (induction ns) auto
  then show ?thesis by fastforce
qed

lemma mem_reads_ok: "reads_ok rows (mem_table rows upd key with_key)"
  by (auto simp: reads_ok_def mem_table_def filter_empty_conv filter_eq_Cons_iff split: list.splits)

lemma mem_writes_ok: "writes_ok (\<lambda>w. w) rows upd key with_key (mem_table rows upd key with_key)"
  using mem_fresh[of "map key (rows w)" for w] by (auto simp: writes_ok_def mem_table_def)

lemma mem_gorm_ok: "gorm_ok (\<lambda>w. w) (mem_gorm svcs)"
  by (simp add: gorm_ok_def mem_gorm_def mem_reads_ok mem_writes_ok ends_ok_def)

definition mem_api :: "gateway_tables api_env" where
  "mem_api = \<lparr>ev_gorm = mem_gorm [\<lparr>sv_ServiceID = ''s1'', sv_DeployVersion = ''v1''\<rparr>], ev_NewUUID = (\<lambda>_. ''0123456789''), ev_Send = (\<lambda>_. True),
     ev_Getenv = (\<lambda>k. if k = ''MIN_LB_PORT'' then ''6'' else [])\<rparr>"

definition no_tables :: gateway_tables where
  "no_tables = \<lparr>vw_certs = [], vw_exts = [], vw_https = [], vw_tcps = [], vw_cfgs = [], vw_lbs = []\<rparr>"

definition ex_http_req :: AddHTTPRuleStruct where
  "ex_http_req = \<lparr>ah_HTTPRuleID = ''r1'', ah_ServiceID = ''s1'', ah_ContainerPort = 80, ah_Domain = ''a.com'', ah_Path = ''x'', ah_Header = [],
     ah_Cookie = [], ah_Weight = 3, ah_IP = [], ah_CertificateID = [], ah_Certificate = [], ah_PrivateKey = [],
     ah_RuleExtensions = [Some \<lparr>rs_Key = ''lb-type'', rs_Value = ''RoundRobin''\<rparr>]\<rparr>"

definition ex_tcp_req :: AddTCPRuleStruct where
  "ex_tcp_req = \<lparr>at_TCPRuleID = ''t1'', at_ServiceID = ''s1'', at_ContainerPort = 80, at_IP = any_ip, at_Port = 6, at_RuleExtensions = []\<rparr>"

section \<open>Requests\<close>




lemma answer_ofE:
  assumes "answer_of x = (ans, s')"
  obtains "ans = Success" "x = (Done (), s')" | r where "ans \<noteq> Success" "r \<noteq> Done ()" "x = (r, s')"
  using assms by (cases x; cases "fst x") (auto simp: answer_of_def)

text \<open>A request was refused, or failed: nothing has been sent, and nothing has changed unless a commit failed that was
  carried out.\<close>

definition refused :: "('w \<Rightarrow> gateway_tables) \<Rightarrow> 'w api_env \<Rightarrow> ((string, string) gomap \<Rightarrow> (string, string) gomap) \<Rightarrow> rule_request option \<Rightarrow>
    'w api_state \<Rightarrow> 'w api_state \<Rightarrow> bool" where
  "refused V E rng q s s' \<longleftrightarrow> ga_tasks s' = ga_tasks s \<and>
     (V (ga_db s') = V (ga_db s) \<or>
      (\<exists>x e. q = Some x \<and> perform E rng x s = (Fail (ErrDB e), s') \<and>
         store_spec rng x (abs_store (V (ga_db s))) = Some (abs_store (V (ga_db s')))))"

lemma answer_of_perform:
  assumes "gorm_ok V (ev_gorm E)" "rules_wf (V (ga_db s))" "answer_of (perform E rng q s) = (ans, s')"
  shows "(ans \<noteq> Success \<longrightarrow> refused V E rng (Some q) s s') \<and> (ans = Success \<longrightarrow> perform E rng q s = (Done (), s'))"
proof (rule answer_ofE[OF assms(3)])
  fix r assume r: "ans \<noteq> Success" "r \<noteq> Done ()" "perform E rng q s = (r, s')"
  then show ?thesis using perform_implements[OF assms(1,2) r(3)] by (auto simp: implemented_def refused_def)
qed simp

text \<open>The requests of the controller and the operations they stand for.\<close>

definition config_request :: "string \<Rightarrow> string \<Rightarrow> RuleConfigReq \<Rightarrow> rule_request" where
  "config_request sid eid req = ReqConfig (req\<lparr>cr_ServiceID := sid, cr_EventID := eid\<rparr>)"



section \<open>Ports\<close>

lemma pick_port_Inr: "sorted ps \<Longrightarrow> pick_port ps s = Inr q \<Longrightarrow> s \<le> q \<and> q \<notin> set ps \<and> (\<exists>p \<in> set ps. q < p)"
  by (induction ps arbitrary: s) (force split: if_splits)+

lemma pick_port_Inl: "pick_port ps s = Inl q \<Longrightarrow> s \<le> q \<and> (\<forall>p \<in> set ps. p < q)"
  by (induction ps arbitrary: s) (force split: if_splits)+

lemma selectAvailablePort_free:
  assumes "selectAvailablePort lo hi used = p" "p \<noteq> 0"
  shows "p \<notin> set used" "lo \<le> p" "lo \<le> hi \<Longrightarrow> \<forall>u \<in> set used. u \<le> hi \<Longrightarrow> p \<le> hi"
proof -
  have "p \<notin> set used \<and> lo \<le> p \<and> (lo \<le> hi \<longrightarrow> (\<forall>u \<in> set used. u \<le> hi) \<longrightarrow> p \<le> hi)"
  proof (cases "used = []")
    case True
    then show ?thesis using assms by (simp add: selectAvailablePort_def)
  next
    case False
    let ?u = "sort used"
    have ne: "?u \<noteq> []" using False by (metis set_empty set_sort)
    have l: "\<forall>u \<in> set used. u \<le> last ?u"
    proof
      fix u assume "u \<in> set used"
      then obtain i where "i < length ?u" "?u ! i = u" by (metis in_set_conv_nth set_sort)
      then show "u \<le> last ?u" using sorted_nth_mono[OF sorted_sort, of i "length ?u - 1" used] ne by (simp add: last_conv_nth)
    qed
    show ?thesis
    proof (cases "max lo (last ?u + 1) \<le> hi")
      case True
      then show ?thesis using assms False l by (auto simp: selectAvailablePort_def Let_def max_def split: if_splits)
    next
      case m: False
      show ?thesis
      proof (cases "pick_port ?u lo")
        case (Inr q)
        then show ?thesis using assms False m pick_port_Inr[OF sorted_sort Inr] by (force simp: selectAvailablePort_def Let_def)
      next
        case (Inl q)
        then show ?thesis using assms False m pick_port_Inl[OF Inl] by (auto simp: selectAvailablePort_def Let_def split: if_splits)
      qed
    qed
  qed
  then show "p \<notin> set used" "lo \<le> p" "lo \<le> hi \<Longrightarrow> \<forall>u \<in> set used. u \<le> hi \<Longrightarrow> p \<le> hi" by blast+
qed

lemma locked_ports_kept:
  assumes "locked_ports clock i es locks ports = (locks', ports')"
  shows "set ports \<subseteq> set ports'" "mono clock \<Longrightarrow> (p, t) \<in> set es \<Longrightarrow> clock (i + length es) \<le> t \<Longrightarrow> p \<in> set ports'"
    "set ports' \<subseteq> set ports \<union> fst ` set es"
proof -
  show "set ports \<subseteq> set ports'" using assms by (induction es arbitrary: i locks ports) (force split: if_splits)+
  show "p \<in> set ports'" if "mono clock" "(p, t) \<in> set es" "clock (i + length es) \<le> t"
    using assms that
  proof (induction es arbitrary: i locks ports)
    case (Cons e es)
    have s: "set xs \<subseteq> set ports'" if "locked_ports clock j es ls xs = (locks', ports')" for j ls xs
      using that by (induction es arbitrary: j ls xs) (force split: if_splits)+
    obtain p' t' where e: "e = (p', t')" by (cases e)
    have "clock i \<le> clock (i + length (e # es))" using Cons.prems(2) by (simp add: monoD)
    then have "\<not> t < clock i" using Cons.prems(4) by simp
    then show ?case using Cons.IH[of "Suc i"] Cons.prems e s by (fastforce split: if_splits)
  qed simp
  show "set ports' \<subseteq> set ports \<union> fst ` set es" using assms by (induction es arbitrary: i locks ports) (force split: if_splits)+
qed

text \<open>
  C21: a port that is handed out is free: no stream rule on the address, or on any address when one of the two is the
  unspecified one, has it, no lock that has not expired is on it, and it is not below the configured minimum; it does not
  exceed the maximum when no rule and no lock does. When the port is to be locked, it is locked for two minutes.
\<close>

theorem available_port_free:
  assumes "gorm_ok V (ev_gorm E)" "is_range rng" "mono clock" "GetAvailablePort E rng clock ip lock s = (Done p, s')"
    and "now = clock (length (ga_lockPort s))"
  shows "(\<forall>t \<in> set (vw_tcps (V (ga_db s))). ip = any_ip \<or> gt_IP t \<in> {ip, any_ip} \<longrightarrow> gt_Port t \<noteq> p) \<and>
    (\<forall>(q, timeout) \<in> set (ga_lockPort s). now \<le> timeout \<longrightarrow> q \<noteq> p) \<and> minPort E \<le> p \<and>
    (minPort E \<le> maxPort E \<longrightarrow> (\<forall>u \<in> gt_Port ` set (vw_tcps (V (ga_db s))) \<union> fst ` set (ga_lockPort s). u \<le> maxPort E) \<longrightarrow> p \<le> maxPort E) \<and>
    (lock \<longrightarrow> map_of (ga_lockPort s') p = Some (now + lock_time))"
proof -
  obtain roles s1 where q: "on_db (tcp_GetUsedPortsByIP (ev_gorm E) ip) s = (Done roles, s1)"
    and k: "(let (locks, ports) = locked_ports clock 0 (rng (ga_lockPort s1)) (ga_lockPort s1) (map gt_Port roles);
            port = selectAvailablePort (minPort E) (maxPort E) ports
        in if port \<noteq> 0 then
             (Done port, s1\<lparr>ga_lockPort := (if lock then map_set port (clock (length (ga_lockPort s1)) + lock_time) locks else locks)\<rparr>)
           else (Fail ErrNoMorePort, s1\<lparr>ga_lockPort := locks\<rparr>)) = (Done p, s')"
    using assms(4) unfolding GetAvailablePort_def by (elim and_thenE)
  let ?c = "\<lambda>t. ip = any_ip \<or> gt_IP t = ip \<or> gt_IP t = any_ip"
  have f: "tb_FindAsc (gm_TCPRule (ev_gorm E)) gt_Port ?c (ga_db s) = Inr roles" and s1: "s1 = s"
    using q by (auto simp: on_db_def tcp_GetUsedPortsByIP_def split: sum.splits)
  have "mset roles = mset (filter ?c (vw_tcps (V (ga_db s))))" using f gorm_okD(7)[OF assms(1)] unfolding reads_ok_def by blast
  then have roles: "set roles = {t \<in> set (vw_tcps (V (ga_db s))). ?c t}" by (metis set_filter set_mset_mset)
  obtain locks ports where l: "locked_ports clock 0 (rng (ga_lockPort s)) (ga_lockPort s) (map gt_Port roles) = (locks, ports)"
    by (cases "locked_ports clock 0 (rng (ga_lockPort s)) (ga_lockPort s) (map gt_Port roles)")
  have p: "selectAvailablePort (minPort E) (maxPort E) ports = p" "p \<noteq> 0"
    and s': "s' = s\<lparr>ga_lockPort := (if lock then map_set p (now + lock_time) locks else locks)\<rparr>"
    using k s1 l assms(5) by (auto simp: Let_def split: if_splits)
  note free = selectAvailablePort_free[OF p] and kept = locked_ports_kept[OF l]
  have rs: "set (rng (ga_lockPort s)) = set (ga_lockPort s)" "length (rng (ga_lockPort s)) = length (ga_lockPort s)"
    using assms(2) by (auto simp: is_range_def dest: mset_eq_setD mset_eq_length)
  have a: "\<forall>t \<in> set (vw_tcps (V (ga_db s))). ip = any_ip \<or> gt_IP t \<in> {ip, any_ip} \<longrightarrow> gt_Port t \<noteq> p"
    using free(1) kept(1) roles by auto
  have b: "\<forall>(q, timeout) \<in> set (ga_lockPort s). now \<le> timeout \<longrightarrow> q \<noteq> p"
    using free(1) kept(2)[OF assms(3)] rs assms(5) by auto
  have "set ports \<subseteq> gt_Port ` set (vw_tcps (V (ga_db s))) \<union> fst ` set (ga_lockPort s)" using kept(3) roles rs(1) by auto
  then have c: "minPort E \<le> maxPort E \<longrightarrow> (\<forall>u \<in> gt_Port ` set (vw_tcps (V (ga_db s))) \<union> fst ` set (ga_lockPort s). u \<le> maxPort E) \<longrightarrow> p \<le> maxPort E"
    using free(3) by blast
  show ?thesis using a b c free(2) s' by simp
qed


theorem available_port_free_witness:
  "let r = GetAvailablePort mem_api id (\<lambda>_. 0) ''0.0.0.0'' True
       (snd (AddTCPRule mem_api ex_tcp_req (CreateGatewayManager no_tables)))
   in fst r = Done 7 \<and> map_of (ga_lockPort (snd r)) 7 = Some 120000000000"
proof -
  let ?s = "snd (AddTCPRule mem_api ex_tcp_req (CreateGatewayManager no_tables))"
  obtain r s' where q: "GetAvailablePort mem_api id (\<lambda>_. 0) ''0.0.0.0'' True ?s = (r, s')"
    by (cases "GetAvailablePort mem_api id (\<lambda>_. 0) ''0.0.0.0'' True ?s")
  have "fst (GetAvailablePort mem_api id (\<lambda>_. 0) ''0.0.0.0'' True ?s) = Done 7" by code_simp
  then have r: "r = Done 7" using q by simp
  have g: "gorm_ok (\<lambda>w. w) (ev_gorm mem_api)" by (simp add: mem_api_def mem_gorm_ok)
  have "is_range id" by (simp add: is_range_def)
  from available_port_free[OF g this _ q[unfolded r] refl] q r show ?thesis
    by (simp add: Let_def lock_time_def monoI)
qed

text \<open>Two ways in which the selection misses a free port, and one in which it exceeds the maximum.\<close>

lemma select_misses_free_ports:
  "selectAvailablePort 10 12 [10, 10, 12] = 0" "selectAvailablePort 10 11 [9, 11] = 0" "selectAvailablePort 10 11 [10, 11, 13] = 12"
  by (simp_all add: selectAvailablePort_def Let_def)

text \<open>An update gives a stream rule the address of another one.\<close>

lemma update_takes_address:
  "let s1 = snd (AddTCPRule mem_api ex_tcp_req (CreateGatewayManager no_tables));
       s2 = snd (AddTCPRule mem_api (ex_tcp_req\<lparr>at_TCPRuleID := ''t2'', at_Port := 7\<rparr>) s1)
   in map gt_Port (vw_tcps (ga_db (snd (UpdateTCPRule mem_api (ex_tcp_req\<lparr>at_TCPRuleID := ''t2''\<rparr>) s2)))) = [6, 6]"
  by code_simp

end
