(* ===== verification/ApiServed.thy ===== *)
theory ApiServed
  imports ApiProps ConvProps ServerProps
begin

text \<open>
  From a request of the API to the servers of the gateway: the worker's queries are the data access methods on the
  database the API writes.
\<close>

section \<open>The worker's queries\<close>

text \<open>The rows as the worker reads them, and the worker's queries as the data access methods on the same database.\<close>

definition worker_http_rule :: "gateway_http_rule \<Rightarrow> HTTPRule" where
  "worker_http_rule h =
     \<lparr>hr_UUID = gh_UUID h, hr_Domain = gh_Domain h, hr_Path = gh_Path h, hr_Header = gh_Header h, hr_Cookie = gh_Cookie h,
      hr_Weight = gh_Weight h, hr_CertificateID = gh_CertificateID h\<rparr>"

definition query :: "('a, 'w) op \<Rightarrow> ('a \<Rightarrow> 'b) \<Rightarrow> 'w \<Rightarrow> db_error + 'b" where
  "query m f w =
     (case m w of
        (Done a, w) \<Rightarrow> Inr (f a)
      | (Fail (ErrDB (GormError msg)), w) \<Rightarrow> Inl (DbFailure msg)
      | _ \<Rightarrow> Inl db_error.ErrRecordNotFound)"

definition worker_db :: "'w gorm \<Rightarrow> 'w \<Rightarrow> dbmanager \<Rightarrow> dbmanager" where
  "worker_db G w db =
     db\<lparr>GetHTTPRuleByServiceIDAndContainerPort := (\<lambda>sid port. query (http_GetByServiceIDAndContainerPort G sid port) (map worker_http_rule) w),
        GetTCPRuleByServiceIDAndContainerPort := (\<lambda>sid port. query (tcp_GetByServiceIDAndContainerPort G sid port)
          (map (\<lambda>t. \<lparr>tr_UUID = gt_UUID t, tr_IP = gt_IP t, tr_Port = gt_Port t\<rparr>)) w),
        GetCertificateByID := (\<lambda>cid. query (cert_GetCertificateByID G cid)
          (map_option (\<lambda>c. \<lparr>crt_Certificate = gc_Certificate c, crt_PrivateKey = gc_PrivateKey c\<rparr>)) w),
        GetRuleExtensionByRuleID := (\<lambda>rid. query (ext_GetRuleExtensionByRuleID G rid)
          (map (\<lambda>x. \<lparr>rx_Key = gx_Key x, rx_Value = gx_Value x\<rparr>)) w),
        ListByRuleID := (\<lambda>rid. query (cfg_ListByRuleID G rid) (map (\<lambda>f. \<lparr>rcf_Key = gf_Key f, rcf_Value = gf_Value f\<rparr>)) w)\<rparr>"

lemma queryE:
  assumes "query m f w = Inr y"
  obtains a w' where "m w = (Done a, w')" "y = f a"
  using assms by (auto simp: query_def split: prod.splits op_result.splits rule_error.splits gorm_error.splits)

lemma worker_reads:
  assumes "gorm_ok V G"
  shows "GetHTTPRuleByServiceIDAndContainerPort (worker_db G w db) sid port = Inr rules \<Longrightarrow>
      rules = map worker_http_rule (filter (\<lambda>h. gh_ServiceID h = sid \<and> gh_ContainerPort h = port) (vw_https (V w)))"
    and "ListByRuleID (worker_db G w db) rid = Inr cfgs \<Longrightarrow>
      cfgs = map (\<lambda>f. \<lparr>rcf_Key = gf_Key f, rcf_Value = gf_Value f\<rparr>) (filter (\<lambda>f. gf_RuleID f = rid) (vw_cfgs (V w)))"
    and "GetCertificateByID (worker_db G w db) cid = Inr p \<Longrightarrow> (p = None \<and> cid \<notin> gc_UUID ` set (vw_certs (V w))) \<or>
      (\<exists>c \<in> set (vw_certs (V w)). gc_UUID c = cid \<and> p = Some \<lparr>crt_Certificate = gc_Certificate c, crt_PrivateKey = gc_PrivateKey c\<rparr>)"
proof -
  show "rules = map worker_http_rule (filter (\<lambda>h. gh_ServiceID h = sid \<and> gh_ContainerPort h = port) (vw_https (V w)))"
    if q: "GetHTTPRuleByServiceIDAndContainerPort (worker_db G w db) sid port = Inr rules"
  proof -
    obtain hs w' where h: "http_GetByServiceIDAndContainerPort G sid port w = (Done hs, w')" "rules = map worker_http_rule hs"
      using q by (auto simp: worker_db_def elim: queryE)
    show ?thesis
      by (rule list_rows_or_noneE[where rows = vw_https and V = V, OF h(1)[unfolded http_GetByServiceIDAndContainerPort_def] gorm_okD(5)[OF assms]])
        (simp add: h(2))
  qed
  show "cfgs = map (\<lambda>f. \<lparr>rcf_Key = gf_Key f, rcf_Value = gf_Value f\<rparr>) (filter (\<lambda>f. gf_RuleID f = rid) (vw_cfgs (V w)))"
    if q: "ListByRuleID (worker_db G w db) rid = Inr cfgs"
  proof -
    obtain fs w' where h: "cfg_ListByRuleID G rid w = (Done fs, w')" "cfgs = map (\<lambda>f. \<lparr>rcf_Key = gf_Key f, rcf_Value = gf_Value f\<rparr>) fs"
      using q by (auto simp: worker_db_def elim: queryE)
    show ?thesis
      by (rule list_rowsE[where rows = vw_cfgs and V = V, OF h(1)[unfolded cfg_ListByRuleID_def] gorm_okD(9)[OF assms]]) (simp add: h(2))
  qed
  show "(p = None \<and> cid \<notin> gc_UUID ` set (vw_certs (V w))) \<or>
      (\<exists>c \<in> set (vw_certs (V w)). gc_UUID c = cid \<and> p = Some \<lparr>crt_Certificate = gc_Certificate c, crt_PrivateKey = gc_PrivateKey c\<rparr>)"
    if q: "GetCertificateByID (worker_db G w db) cid = Inr p"
  proof -
    obtain r w' where h: "cert_GetCertificateByID G cid w = (Done r, w')"
      "p = map_option (\<lambda>c. \<lparr>crt_Certificate = gc_Certificate c, crt_PrivateKey = gc_PrivateKey c\<rparr>) r"
      using q by (auto simp: worker_db_def elim: queryE)
    show ?thesis
      by (rule row_or_nilE[where rows = vw_certs and V = V, OF h(1)[unfolded cert_GetCertificateByID_def] gorm_okD(1)[OF assms]])
        (auto simp: h(2) filter_empty_conv)
  qed
qed

lemma http_rules_in:
  assumes "http_rules ex a cp pcp svc rules = Some (ings, secs)" "rule \<in> set rules"
    "applyHTTPRule ex a rule cp pcp svc = Some (Inr (ing, sec))"
  shows "ing \<in> set ings"
  using assms(1,2)
proof (induction rules arbitrary: ings secs)
  case (Cons x xs)
  then show ?case using assms(3)
    by (cases "applyHTTPRule ex a x cp pcp svc"; cases "the (applyHTTPRule ex a x cp pcp svc)"; cases "x = rule") (auto split: prod.splits)
qed simp

text \<open>The rule of a request as the worker reads it, and what an added rule leaves in the tables.\<close>

definition requested_rule :: "AddHTTPRuleStruct \<Rightarrow> HTTPRule" where
  "requested_rule req = worker_http_rule (http_rule_of req)"

lemma added_rule_rows:
  assumes "AddHTTPRule E req s = (Done (), s')" "gorm_ok V (ev_gorm E)" "rules_wf (V (ga_db s))"
  shows "requested_rule req \<in> worker_http_rule ` {h \<in> set (vw_https (V (ga_db s'))). gh_ServiceID h = ah_ServiceID req \<and> gh_ContainerPort h = ah_ContainerPort req}"
    "st_cfg (abs_store (V (ga_db s'))) = st_cfg (abs_store (V (ga_db s)))"
    "has_certificate (ah_CertificateID req) \<Longrightarrow>
      st_cert (abs_store (V (ga_db s'))) (ah_CertificateID req) = Some (ah_Certificate req, ah_PrivateKey req)"
proof -
  have t: "tx_then_notify E (CreateHTTPRule E req) (\<lambda>_. notify E (ah_ServiceID req) ''add-http-rule'' [(''domain'', ah_Domain req)]) s = (Done (), s')"
    using assms(1) by (simp add: AddHTTPRule_def tx_then_notify_def)
  obtain u tx where c: "CreateHTTPRule E req (ga_db s) = (Done u, tx)" "V (ga_db s') = V tx"
    by (rule tx_then_notifyE[OF t assms(2) notifies_notify(1)]) auto
  have sp: "store_spec id (ReqAddHTTP req) (abs_store (V (ga_db s))) = Some (abs_store (V (ga_db s')))"
    using CreateHTTPRule_spec[OF c(1) assms(2,3)] c(2) by simp
  then have st: "abs_store (V (ga_db s')) = (put_cert req (abs_store (V (ga_db s))))\<lparr>st_http := (st_http (abs_store (V (ga_db s))))(ah_HTTPRuleID req \<mapsto> http_rule_of req),
       st_ext := (st_ext (abs_store (V (ga_db s))))(ah_HTTPRuleID req := st_ext (abs_store (V (ga_db s))) (ah_HTTPRuleID req) @ given_exts ext_pair (ah_RuleExtensions req))\<rparr>"
    by (simp add: Let_def split: if_splits)
  have "st_http (abs_store (V (ga_db s'))) (ah_HTTPRuleID req) = Some (http_rule_of req)" by (simp add: st)
  then obtain h where h: "h \<in> set (vw_https (V (ga_db s')))" "h\<lparr>gh_ID := 0\<rparr> = http_rule_of req"
    by (auto simp: abs_store_def table_map_def dest!: map_of_SomeD)
  have "worker_http_rule h = worker_http_rule (h\<lparr>gh_ID := 0\<rparr>)" "gh_ServiceID h = gh_ServiceID (h\<lparr>gh_ID := 0\<rparr>)" "gh_ContainerPort h = gh_ContainerPort (h\<lparr>gh_ID := 0\<rparr>)"
    by (simp_all add: worker_http_rule_def)
  then have "worker_http_rule h = requested_rule req" "gh_ServiceID h = ah_ServiceID req" "gh_ContainerPort h = ah_ContainerPort req"
    by (simp_all add: requested_rule_def h(2) http_rule_of_def)
  then show "requested_rule req \<in> worker_http_rule ` {h \<in> set (vw_https (V (ga_db s'))). gh_ServiceID h = ah_ServiceID req \<and> gh_ContainerPort h = ah_ContainerPort req}"
    using h(1) by force
  show "st_cfg (abs_store (V (ga_db s'))) = st_cfg (abs_store (V (ga_db s)))" by (simp add: st put_cert_def)
  show "st_cert (abs_store (V (ga_db s'))) (ah_CertificateID req) = Some (ah_Certificate req, ah_PrivateKey req)" if "has_certificate (ah_CertificateID req)"
    using that by (simp add: st put_cert_def)
qed

lemma added_rule_certificate:
  assumes "AddHTTPRule E req s = (Done (), s')" "gorm_ok V (ev_gorm E)" "rules_wf (V (ga_db s))"
    and "ab_dbmanager a = worker_db (ev_gorm E) (ga_db s') db" "GetCertificateByID (ab_dbmanager a) (ah_CertificateID req) = Inr p"
    and "ah_CertificateID req = [] \<or> has_certificate (ah_CertificateID req) \<and> TrimSpace (ah_Certificate req) \<noteq> [] \<and> TrimSpace (ah_PrivateKey req) \<noteq> []"
  shows "\<exists>sec. rule_certificate a (requested_rule req) = Inr sec"
proof (cases "ah_CertificateID req = []")
  case True
  then show ?thesis by (simp add: rule_certificate_def requested_rule_def worker_http_rule_def http_rule_of_def)
next
  case False
  then have hc: "has_certificate (ah_CertificateID req)" using assms(6) by blast
  note c = added_rule_rows(3)[OF assms(1-3) hc]
  have wf: "unique_rows gc_ID gc_UUID (vw_certs (V (ga_db s')))" using add_http.unique[OF assms(2,1,3)] by (simp add: rules_wf_def)
  have "ah_CertificateID req \<in> gc_UUID ` set (vw_certs (V (ga_db s')))"
    using c table_map_None[of gc_UUID "\<lambda>c. (gc_Certificate c, gc_PrivateKey c)" "vw_certs (V (ga_db s'))" "ah_CertificateID req"]
    by (simp add: abs_store_def)
  then obtain r where r: "r \<in> set (vw_certs (V (ga_db s')))" "gc_UUID r = ah_CertificateID req"
    "p = Some \<lparr>crt_Certificate = gc_Certificate r, crt_PrivateKey = gc_PrivateKey r\<rparr>"
    using worker_reads(3)[OF assms(2) assms(5)[unfolded assms(4)]] by auto
  have "gc_Certificate r = ah_Certificate req" "gc_PrivateKey r = ah_PrivateKey req"
    using table_map_in[OF wf r(1), of "\<lambda>c. (gc_Certificate c, gc_PrivateKey c)"] c r(2) by (simp_all add: abs_store_def)
  then show ?thesis
    using False assms(5,6) r(3) by (simp add: rule_certificate_def requested_rule_def worker_http_rule_def http_rule_of_def)
qed


section \<open>From a request to the servers of the gateway\<close>

text \<open>
  C9: an HTTP rule that is added through the API is served: when the request was accepted, the worker's queries on the same
  database succeed and the ingresses the worker made of the rules of the port are in the gateway's store and ready, then
  the listing of the gateway has a server for the domain of the request and in it a location with the path of the
  request that passes requests to the service of the port with the weight of the request. The rule must not have configurations
  from before, and its certificate, if it has one, must not be blank.
\<close>

theorem requested_rule_served:
  assumes "gorm_ok V (ev_gorm E)" "rules_wf (V (ga_db s))" "AddHTTPRule E req s = (Done (), s')"
    and "st_cfg (abs_store (V (ga_db s))) (ah_HTTPRuleID req) = []" "ah_Weight req < 2 ^ 63"
    and "ah_CertificateID req = [] \<or> has_certificate (ah_CertificateID req) \<and> TrimSpace (ah_Certificate req) \<noteq> [] \<and> TrimSpace (ah_PrivateKey req) \<noteq> []"
    and "Replace (ah_Domain req) '' '' [] (-1) = domain" "domain \<noteq> []"
    and "ab_dbmanager a = worker_db (ev_gorm E) (ga_db s') db"
    and "GetHTTPRuleByServiceIDAndContainerPort (ab_dbmanager a) (ah_ServiceID req) (ah_ContainerPort req) = Inr rules"
    and "GetCertificateByID (ab_dbmanager a) (ah_CertificateID req) = Inr p"
    and "GetRuleExtensionByRuleID (ab_dbmanager a) (ah_HTTPRuleID req) = Inr exts" "ListByRuleID (ab_dbmanager a) (ah_HTTPRuleID req) = Inr cfgs"
    and "ApplyRules exDomain a (ah_ServiceID req) (ah_ContainerPort req) pcp svc = Some (ings, secs)"
    and "merge_ok merge" "is_range prng" "ListVirtualService env g a0 = Some st"
    and "\<forall>ing \<in> set ings. to_ingress ing \<in> set (env_Ingresses env) \<and> ingressIsValid env (to_ingress ing) = Some True \<and>
       env_Annotations env (env_Key env (ing_Meta (to_ingress ing))) = Some (Extract merge prng rng def (to_ingress ing))"
    and "list_all (\<lambda>i. list_all (\<lambda>r. CHR ''/'' \<notin> set (ir_Host r) \<and>
       (\<forall>ps. ir_HTTP r = Some ps \<longrightarrow> list_all (\<lambda>p. prefix ''/'' (hp_Path p)) ps)) (ing_Rules i)) (env_Ingresses env)"
  shows "\<exists>bn. served st (server_name env a (requested_rule req) domain) (Replace (slash_path (ah_Path req)) '' '' [] (-1)) bn (ko_Name svc) (max 1 (ah_Weight req))"
proof -
  let ?rule = "requested_rule req"
  have rf: "hr_UUID ?rule = ah_HTTPRuleID req" "hr_Weight ?rule = ah_Weight req" "hr_Domain ?rule = ah_Domain req" "hr_Path ?rule = slash_path (ah_Path req)"
    by (simp_all add: requested_rule_def worker_http_rule_def http_rule_of_def)
  have "?rule \<in> set rules"
    using added_rule_rows(1)[OF assms(3,1,2)] worker_reads(1)[OF assms(1) assms(10)[unfolded assms(9)]] by auto
  have "st_cfg (abs_store (V (ga_db s'))) (ah_HTTPRuleID req) = []" using added_rule_rows(2)[OF assms(3,1,2)] assms(4) by simp
  then have cfgs: "cfgs = []" using worker_reads(2)[OF assms(1) assms(13)[unfolded assms(9)]] by (simp add: abs_store_def table_lists_def)
  have d: "rule_domain exDomain a ?rule (ah_ContainerPort req) = Some domain" using assms(7,8) by (simp add: rule_domain_def rf Let_def)
  obtain sec where "rule_certificate a ?rule = Inr sec" using added_rule_certificate[OF assms(3,1,2,9,11,6)] by blast
  then obtain ing where i: "applyHTTPRule exDomain a ?rule (ah_ContainerPort req) pcp svc = Some (Inr (ing, sec))"
    using d assms(12,13) by (simp add: applyHTTPRule_def rf Let_def)
  obtain hi hsec ti where "http_rules exDomain a (ah_ContainerPort req) pcp svc rules = Some (hi, hsec)" "ings = hi @ ti"
    using assms(14,10) by (auto simp: ApplyRules_def value_or_def Let_def split: option.splits)
  then have m: "ing \<in> set ings" using http_rules_in[OF _ \<open>?rule \<in> set rules\<close> i] by simp
  have ok: "list_all rule_ok (ing_Rules j)" if "j \<in> set (env_Ingresses env)" for j
    using assms(19) that unfolding rule_ok_def [abs_def] by (simp add: list_all_iff)
  have w: "max 1 (ah_Weight req) = rule_weight ?rule" by (simp add: rule_weight_def max_def rf)
  have "Replace (slash_path (ah_Path req)) '' '' [] (-1) \<noteq> []"
    by (cases "ah_Path req") (auto simp: slash_path_def Replace_char)
  then have rp: "Replace (slash_path (ah_Path req)) '' '' [] (-1) = rule_path ?rule" by (simp add: rule_path_def rf Let_def)
  have lc: "ListByRuleID (ab_dbmanager a) (hr_UUID ?rule) = Inr cfgs" using assms(13) by (simp add: rf)
  show ?thesis unfolding w rp
    by (rule http_rule_is_served[OF i d lc _ _ assms(15,16) _ _ _ ok assms(17)]) (use assms(5,18) m cfgs rf in auto)
qed


definition ap_state :: "gateway_tables api_state" where
  "ap_state = snd (AddHTTPRule mem_api ex_http_req (CreateGatewayManager no_tables))"

definition ap_build :: AppServiceBuild where
  "ap_build = (wk_build [wk_port] False)\<lparr>ab_dbmanager := worker_db (ev_gorm mem_api) (ga_db ap_state) (wk_db [] False)\<rparr>"

definition ap_exts :: "RuleExtension list" where
  "ap_exts = [\<lparr>rx_Key = ''lb-type'', rx_Value = ''RoundRobin''\<rparr>]"

definition ap_ing :: IngressObject where
  "ap_ing = http_ingress ap_build (requested_rule ex_http_req) ''a.com'' 80 wk_svc None
     (fold config_step [] (fold (extension_step (requested_rule ex_http_req)) ap_exts (rule_annos (requested_rule ex_http_req))))"

definition ap_ann :: ann_Ingress where
  "ap_ann = Extract ex_merge id id NewDefault (to_ingress ap_ing)"

definition ap_env :: gw_env where
  "ap_env = ex_env\<lparr>env_Ingresses := [to_ingress ap_ing], env_EndpointByKey := (\<lambda>k. Some ex_ep), env_Annotations := (\<lambda>k. Some ap_ann)\<rparr>"

lemma ap_db: "ga_db ap_state = no_tables
   \<lparr>vw_https := [(http_rule_of ex_http_req)\<lparr>gh_ID := 1\<rparr>], vw_exts := [\<lparr>gx_ID = 1, gx_UUID = ''0123456789'', gx_RuleID = ''r1'', gx_Key = ''lb-type'', gx_Value = ''RoundRobin''\<rparr>]\<rparr>"
  by code_simp

lemma ap_added: "AddHTTPRule mem_api ex_http_req (CreateGatewayManager no_tables) = (Done (), ap_state)"
proof -
  have "fst (AddHTTPRule mem_api ex_http_req (CreateGatewayManager no_tables)) = Done ()" by code_simp
  then show ?thesis by (simp add: ap_state_def prod_eq_iff)
qed

lemma ap_queries:
  "GetHTTPRuleByServiceIDAndContainerPort (ab_dbmanager ap_build) ''s1'' 80 = Inr [requested_rule ex_http_req]"
  "GetTCPRuleByServiceIDAndContainerPort (ab_dbmanager ap_build) ''s1'' 80 = Inr []"
  "GetCertificateByID (ab_dbmanager ap_build) [] = Inr None" "GetRuleExtensionByRuleID (ab_dbmanager ap_build) ''r1'' = Inr ap_exts"
  "ListByRuleID (ab_dbmanager ap_build) ''r1'' = Inr []"
  by (simp_all add: ap_build_def worker_db_def query_def ap_db mem_api_def mem_gorm_def mem_table_def no_tables_def ap_exts_def requested_rule_def
      http_GetByServiceIDAndContainerPort_def tcp_GetByServiceIDAndContainerPort_def cert_GetCertificateByID_def ext_GetRuleExtensionByRuleID_def
      cfg_ListByRuleID_def list_rows_or_none_def list_rows_def row_or_nil_def worker_http_rule_def http_rule_of_def ex_http_req_def)

lemma ap_rule: "requested_rule ex_http_req = \<lparr>hr_UUID = ''r1'', hr_Domain = ''a.com'', hr_Path = ''/x'', hr_Header = [], hr_Cookie = [], hr_Weight = 3, hr_CertificateID = []\<rparr>"
  by (simp add: requested_rule_def worker_http_rule_def http_rule_of_def ex_http_req_def slash_path_def)

lemma ap_apply: "ApplyRules [] ap_build ''s1'' 80 80 wk_svc = Some ([ap_ing], [None])"
proof -
  have u: "hr_UUID (requested_rule ex_http_req) = ''r1''" "hr_CertificateID (requested_rule ex_http_req) = []" "hr_Domain (requested_rule ex_http_req) = ''a.com''"
    by (simp_all add: ap_rule)
  have "applyHTTPRule [] ap_build (requested_rule ex_http_req) 80 80 wk_svc = Some (Inr (ap_ing, None))"
    by (simp add: applyHTTPRule_def rule_domain_def rule_certificate_def u ap_queries ap_ing_def)
  then show ?thesis using ap_queries by (simp add: ApplyRules_def value_or_def)
qed

lemma ap_rules: "ing_Rules (to_ingress ap_ing) = [\<lparr>ir_Host = ''a.com'', ir_HTTP = Some [\<lparr>hp_Path = ''/x'',
     hp_Backend = \<lparr>ib_ServiceName = ko_Name wk_svc, ib_ServicePort = to_int32 80\<rparr>\<rparr>]\<rparr>]"
  by (simp add: to_ingress_def ap_ing_def rule_path_def ap_rule Let_def)

lemma ap_valid: "ingressIsValid ap_env (to_ingress ap_ing) = Some True"
proof -
  have "endpointKey (to_ingress ap_ing) \<noteq> None" by (simp add: endpointKey_def ap_rules split: option.splits)
  then show ?thesis by (auto simp: ingressIsValid_def ap_env_def ex_ep_def subsets_def hasReadyAddresses_def)
qed

lemma ap_listed: "\<exists>st. ListVirtualService ap_env no_globals 0 = Some st"
proof (rule ListVirtualService_total)
  have r: "is_range (id :: ('k, 'v) gomap \<Rightarrow> _)" by (simp add: is_range_def)
  have w: "hr_Weight (requested_rule ex_http_req) < 2 ^ 63" by (simp add: ap_rule)
  have "\<not> is_l4 ap_ann"
    using http_rule_extract(5)[OF ex_merge_ok r _ w refl, of "[]" ap_ann id NewDefault ap_build "''a.com''" 80 wk_svc None ap_exts]
    by (simp add: ap_ann_def ap_ing_def)
  then show "list_all (ing_ok ap_env) (env_Ingresses ap_env)" by (simp add: ing_ok_def ap_env_def ap_rules)
qed

theorem requested_rule_served_witness:
  "\<exists>st bn. ListVirtualService ap_env no_globals 0 = Some st \<and> served st ''a.com'' ''/x'' bn ''service-1-80out'' 3"
proof -
  obtain st where st: "ListVirtualService ap_env no_globals 0 = Some st" using ap_listed by blast
  have f: "ah_HTTPRuleID ex_http_req = ''r1''" "ah_ServiceID ex_http_req = ''s1''" "ah_ContainerPort ex_http_req = 80" "ah_CertificateID ex_http_req = []"
    "ah_Weight ex_http_req = 3" "ah_Domain ex_http_req = ''a.com''" "ah_Path ex_http_req = ''x''" by (simp_all add: ex_http_req_def)
  have g: "gorm_ok (\<lambda>w. w) (ev_gorm mem_api)" by (simp add: mem_api_def mem_gorm_ok)
  have wf: "rules_wf (ga_db (CreateGatewayManager no_tables))" "st_cfg (abs_store (ga_db (CreateGatewayManager no_tables))) ''r1'' = []"
    by (simp_all add: rules_wf_def no_tables_def unique_rows_def CreateGatewayManager_def abs_store_def table_lists_def)
  have r: "is_range (id :: ('k, 'v) gomap \<Rightarrow> _)" by (simp add: is_range_def)
  have n: "server_name ap_env ap_build (requested_rule ex_http_req) ''a.com'' = ''a.com''" "ko_Name wk_svc = ''service-1-80out''"
    by (simp_all add: server_name_def ap_rule wk_svc_def createOuterService_def wk_port_def Let_def)
  have ap: "ApplyRules [] ap_build (ah_ServiceID ex_http_req) (ah_ContainerPort ex_http_req) 80 wk_svc = Some ([ap_ing], [None])" by (simp add: f ap_apply)
  have e: "\<forall>ing \<in> set [ap_ing]. to_ingress ing \<in> set (env_Ingresses ap_env) \<and> ingressIsValid ap_env (to_ingress ing) = Some True \<and>
       env_Annotations ap_env (env_Key ap_env (ing_Meta (to_ingress ing))) = Some (Extract ex_merge id id NewDefault (to_ingress ing))"
    using ap_valid by (simp add: ap_env_def ap_ann_def)
  have b: "ab_dbmanager ap_build = worker_db (ev_gorm mem_api) (ga_db ap_state) (wk_db [] False)" by (simp add: ap_build_def)
  have "\<exists>bn. served st (server_name ap_env ap_build (requested_rule ex_http_req) ''a.com'') (Replace (slash_path (ah_Path ex_http_req)) '' '' [] (-1)) bn
      (ko_Name wk_svc) (max 1 (ah_Weight ex_http_req))"
    by (rule requested_rule_served[OF g wf(1) ap_added _ _ _ _ _ b _ _ _ _ ap ex_merge_ok r st e])
      (simp_all add: f wf ap_queries ap_env_def ap_rules)
  then show ?thesis using st by (simp add: n f slash_path_def)
qed

end
