(* ===== verification/Spec2Isabelle.thy ===== *)
theory Spec2Isabelle
  imports ServerProps PlatformProps ConvProps WkStoreProps WkCtlProps MqProps ApiServed
begin

text \<open>
  Kato (package \<open>kato\<close> of this repository) is a platform that runs applications on Kubernetes. It
  consists of servers that share etcd, a database and the Kubernetes API: the gateway, the worker, the
  event log, the API server, the builder, the message queue, the monitor, the node agent and the web
  terminal. This development models the parts with logic of their own and proves them correct.

  \<^bold>\<open>The gateway\<close> (\<open>src/gateway\<close>). The store watches ingresses, services, endpoints and secrets; the
  controller turns the store's contents into virtual services and pools; the OpenResty service writes
  them as nginx configuration and posts the pools to the running nginx.

  \<^item> \<^verbatim>\<open>GwConfig\<close>, \<^verbatim>\<open>GwModel\<close>, \<^verbatim>\<open>GwEquals\<close>: the structs of \<open>gateway/v1\<close>, \<open>gateway/defaults\<close> and of the proxy
    and rewrite packages, one record each, and the \<open>Equals\<close> methods. A pointer is \<^verbatim>\<open>Ptr address value\<close>, so
    that both the comparison of addresses and of values can be written as the code has them.
    \<^verbatim>\<open>GwEquals\<close> interprets the locale \<^verbatim>\<open>equals_view\<close> of the prelude for each type: \<open>Equals\<close> decides
    equality of a view, the fields the method really reads.
  \<^item> \<^verbatim>\<open>Annotations\<close>: \<open>gateway/annotations\<close>, one \<open>Parse\<close> per package and the extractor over the table of
    parsers. The locale \<^verbatim>\<open>annotation_parser\<close> is their interface: a parser reads the metadata only, and
    its error tells a missing annotation from a bad one.
  \<^item> \<^verbatim>\<open>GwStore\<close>, \<^verbatim>\<open>GwStoreInv\<close>: \<open>ListVirtualService\<close> and \<open>ListPool\<close> of \<open>gateway/store/store.go\<close>, loop by
    loop over an explicit state (the slices, the maps from names to addresses, the two package level
    backend maps), and its invariants. \<^verbatim>\<open>None\<close> is a nil dereference.
  \<^item> \<^verbatim>\<open>GwSync\<close>: the handlers that \<open>New\<close> registers with the informers, the secrets and certificate files,
    and the map from secrets to ingresses. \<^verbatim>\<open>store_step\<close> and \<^verbatim>\<open>store_reach\<close> are the step relation and the
    reachable stores; the locale \<^verbatim>\<open>store_invariant\<close> is what a property of every reachable store needs.
  \<^item> \<^verbatim>\<open>Openresty\<close>: \<open>gateway/controller/openresty\<close>: the server and location models, their validation,
    the functions of the templates, \<open>writeFile\<close> with backup and rollback over an explicit file system,
    \<open>PersistConfig\<close> and \<open>UpdatePools\<close>.
  \<^item> \<^verbatim>\<open>GwController\<close>: \<open>syncGateway\<close>, \<open>getHosts\<close>, \<open>handleEvent\<close> and the task queue of
    \<open>util/ingress-nginx/task\<close>; \<^verbatim>\<open>worker_run\<close> is the sequence of the worker's turns.
  \<^item> \<^verbatim>\<open>GoNet\<close>, \<^verbatim>\<open>GwCluster\<close>: addresses as the package \<open>net\<close> reads and prints them, the pool of the
    addresses of the host (\<open>util/ippool.go\<close>) and the manager that keeps a lease for each of them in etcd
    (\<open>gateway/cluster\<close>).

  \<^item> \<^verbatim>\<open>GwRunning\<close>: what the controller's comparison of the running configuration with a new listing says about the
    servers: \<^verbatim>\<open>up_to_date\<close> is the server-by-server test, \<^verbatim>\<open>runs\<close> and \<^verbatim>\<open>vs_runs\<close> what a running server has in
    common with a listed one, \<^verbatim>\<open>running_ok\<close> that the running configuration is nil or a former listing.
  \<^item> \<^verbatim>\<open>GwServed\<close>: that the listing only grows (the locale \<^verbatim>\<open>growing\<close>), and from it that every path of a
    valid ingress ends up in the listing.

  \<^bold>\<open>The worker\<close> (\<open>src/worker\<close>). It turns the rows of the database that describe a component into
  Kubernetes objects, keeps a cache of the objects that run in the cluster, and takes tasks from the message queue
  that start, stop, upgrade and scale components.

  \<^item> \<^verbatim>\<open>AppService\<close>: \<open>worker/appm/types/v1\<close>, the record the worker keeps of a component with its setters,
    deleters and getters, the status computed from it and the resources it requests. The locale
    \<^verbatim>\<open>named_collection\<close> is the contract of the collections of named objects; it is interpreted for ten
    of them.
  \<^item> \<^verbatim>\<open>WkConversion\<close>, \<^verbatim>\<open>ConvFacts\<close>: \<open>worker/appm/conversion\<close>, from rows to the base of the workload, the
    services, ingresses and secrets of its ports and rules, resource requirements, autoscalers and
    configuration groups. The database is the record \<^verbatim>\<open>dbmanager\<close> of its queries.
  \<^item> \<^verbatim>\<open>WkStore\<close>, \<^verbatim>\<open>WkStoreFacts\<close>, \<^verbatim>\<open>WkStoreRes\<close>: \<open>worker/appm/store\<close>, the handlers of the informer events
    of every kind of object, the creation of components on demand, the resources of the tenants,
    status and image pull secrets. \<^verbatim>\<open>store_run\<close> is the inductive relation between the objects of the
    cluster and the cache after a sequence of events, \<^verbatim>\<open>cache_run\<close> adds the registrations by controllers and executors; the locale \<^verbatim>\<open>mirrored\<close> states the mirror of one
    kind of object and is interpreted for eight of them.
  \<^item> \<^verbatim>\<open>WkKube\<close>, \<^verbatim>\<open>WkController\<close>, \<^verbatim>\<open>WkUpgrade\<close>: \<open>worker/appm/f\<close> and \<open>worker/appm/controller\<close>. A client of the API is the
    record \<^verbatim>\<open>Clientset\<close> of its methods on a cluster of any type; the state of a controller is the cluster, the cache
    and the log of the event (\<^verbatim>\<open>runtime\<close>). A waiting loop reads what happens to the cluster between two ticks from
    \<^verbatim>\<open>wakes\<close>, which ends with the timeout or a cancellation, so that the loop is structural.
  \<^item> \<^verbatim>\<open>WkPatch\<close>: \<open>worker/appm/types/v1/patch.go\<close>, the difference of two JSON texts as a merge patch, with the merge of
    RFC 7386 as its specification; the order in which the fields are written is an argument.
  \<^item> \<^verbatim>\<open>WkTasks\<close>: the bodies of the tasks, their executors (\<open>worker/handle/manager.go\<close>), the garbage collector and the turn of the
    loop that takes tasks from the queue (\<open>worker/discover\<close>).
  \<^item> \<^verbatim>\<open>WkCtlFacts\<close>, \<^verbatim>\<open>WkUpgradeFacts\<close>, \<^verbatim>\<open>WkRunFacts\<close>: the laws of the API (\<^verbatim>\<open>kube_api\<close>, over a view of the cluster as a map from
    kind, namespace and name, where a request that failed may have been carried out) and what the steps of a start, a stop and an
    upgrade do under them, whatever the requests answer; the locale
    \<^verbatim>\<open>upgrade_function\<close> is the contract of the three upgrade functions. \<^verbatim>\<open>tasks_run\<close> is the step relation of the worker.

  \<^bold>\<open>The event log\<close> (\<open>src/eventlog\<close>). \<^verbatim>\<open>EventStore\<close> is \<open>eventlog/store\<close>: the barrels that collect the
  messages of an event, the store that persists them, the store that serves subscribers and the store
  of container logs. \<^verbatim>\<open>es_run\<close> is the step relation of the store that persists, with inserts that do not overlap
  (\<^verbatim>\<open>insert_known\<close> and \<^verbatim>\<open>insert_new\<close> are the halves of overlapping ones); it counts the messages written to the garbage file
  and those that a flush drops. \<^verbatim>\<open>read_step\<close> is that of the store that serves subscribers, with every interleaving of the append
  to the barrel, the offers to subscribers and the goroutine that pushes the cached messages.

  \<^bold>\<open>The message queue\<close> (\<open>src/mq\<close>, \<open>src/util/etcd\<close>). \<^verbatim>\<open>MqQueue\<close>: the queue on etcd, its topics, the gRPC and REST
  servers and the client. Processes share a queue, so that \<open>Enqueue\<close> and \<open>Dequeue\<close> are machines (\<^verbatim>\<open>queue_pc\<close>)
  with one operation of etcd per step (\<^verbatim>\<open>queue_step\<close>). \<^verbatim>\<open>MqProps\<close>: the documented behaviour of etcd over the history of the keys
  (\<^verbatim>\<open>queue_etcd_ok\<close>), the interleavings of any number of processes (\<^verbatim>\<open>queue_run\<close>, \<^verbatim>\<open>queue_trace\<close>), and
  that these refine a first-in-first-out queue per topic.

  \<^bold>\<open>The rules of the API server\<close> (\<open>src/api/handler/gateway_action.go\<close>, \<open>src/api/controller/gateway.go\<close> and the data access
  methods of \<open>src/db/mysql/dao\<close> that they use). \<^verbatim>\<open>ApiTables\<close>: the rows and the data access methods over a record of the statements of
  GORM. \<^verbatim>\<open>ApiRules\<close>: the operations on HTTP and stream rules, each in a transaction and followed by a task for the worker, the
  free-form configurations of a rule, the allocation of ports and the REST handlers. \<^verbatim>\<open>ApiFacts\<close>, \<^verbatim>\<open>ApiOps\<close>, \<^verbatim>\<open>ApiStore\<close>: the documented
  behaviour of the database (\<^verbatim>\<open>gorm_ok\<close>: nothing is said of a statement that fails, and a failed commit may have been carried
  out), the effect of every method and operation, the locale \<^verbatim>\<open>rule_operation\<close> as the contract of the operations, and an
  abstract store of rules (\<^verbatim>\<open>store_spec\<close>) that they implement. \<^verbatim>\<open>ApiServed\<close>: the worker's queries on the same tables.

  \<^bold>\<open>The prelude\<close>. \<^verbatim>\<open>GoBase\<close>: Go maps as association lists (so that the order of a \<open>range\<close> is an argument
  \<open>rng\<close> of the functions that iterate), the functions of \<open>strings\<close> and \<open>strconv\<close> the program uses,
  pointers, and the locales of equality tests.

  \<^bold>\<open>What is shown\<close>. \<^verbatim>\<open>GatewayProps\<close>: server names and paths are listed once, every listed location has an
  upstream or a redirect, which upstreams have a pool, the pools exactly, TLS servers have a certificate, the ports for
  HTTP, HTTPS, health and status are never listened on for stream rules, the store follows
  the secrets. \<^verbatim>\<open>ServerProps\<close>: after a successful synchronisation the listing runs already or the files hold its rendered text,
  the old text is kept when nginx rejects the new one, when a synchronisation panics, the annotation
  parsers, what \<open>Equals\<close> compares, and that a skipped task is covered by a later run. \<^verbatim>\<open>PlatformProps\<close>:
  what etcd holds follows the addresses of the host, every message of the event log is accounted for, what
  subscribers get, collections of a component refine finite maps by name, the status of a component
  and its CPU request. \<^verbatim>\<open>ConvProps\<close>: when the conversion of a component does not panic, which ports and
  rules belong together when a plugin takes over the traffic, the resource requirements.
  \<^verbatim>\<open>WkStoreProps\<close>: the cache mirrors the cluster, the resources of a tenant are those of its pods,
  how components are cached and counted, the status of applications. \<^verbatim>\<open>WkCtlProps\<close>: what a start creates, what a
  stop removes, what an upgrade does to each secret and ingress, the patch of a workload turns the old one into the new one, an
  event is closed once, what becomes of a task, the number of controllers is bounded; the laws of the API hold of a cluster in
  memory, on which the witnesses run. \<^verbatim>\<open>MqProps\<close>: the queue is first in, first out and delivers exactly once. \<^verbatim>\<open>ApiProps\<close>,
  \<^verbatim>\<open>ApiServed\<close>: requests implement the store of rules, what the answers mean, allocated ports are free, and a rule that is added
  through the API is served. This theory: the rules of a component that
  the worker writes as ingresses are read back and served by the gateway.

  \<^bold>\<open>Parameters\<close>. Third-party code is an argument of the definitions with its documented behaviour as a
  hypothesis: \<open>mergo.MapWithOverwrite\<close>, the header checks of \<open>httpguts\<close>, x509 and pem, the text of the
  templates, \<open>nginx -t\<close>, the HTTP client, etcd, \<open>net.Interfaces\<close>, the plugin that stores messages, the queries of the
  database, the statements of GORM, the listers of the informers, the clients of the Kubernetes API, the JSON encoding of workloads and the decoding
  of task bodies.
  Loops over slices and maps are structural recursion, so no fuel is needed. Integers are unbounded
  where the code only counts, and reduced to their width where a conversion can wrap.

  \<^bold>\<open>Not modelled\<close>. The other handlers of the API server and of the database layer, the builder, the monitor, the node agent, the
  web terminal and the command line tools: their logic is the order of calls to databases, the
  container runtime, Kubernetes and the network. Of the modelled packages: the nginx process, the
  template engine, the rate limiter and the goroutines around the modelled steps.
\<close>

section \<open>From the rules of a component to the servers of the gateway\<close>

text \<open>
  C18: the worker and the gateway agree on the annotations of an HTTP rule: of the ingress that
  \<open>applyHTTPRule\<close> writes, the gateway's extractor reads the weight, the header and cookie
  conditions and the redirect to HTTPS that the rule and its extensions have, and does not take it for
  a stream rule, as long as the free-form configurations of the rule leave these annotations alone.
\<close>

theorem http_rule_read:
  assumes "applyHTTPRule exDomain a rule cp pcp svc = Some (Inr (ing, sec))" "hr_Weight rule < 2 ^ 63"
    and "GetRuleExtensionByRuleID (ab_dbmanager a) (hr_UUID rule) = Inr exts" "ListByRuleID (ab_dbmanager a) (hr_UUID rule) = Inr cfgs"
    and "{''weight'', ''header'', ''cookie'', ''force-ssl-redirect'', ''l4-enable''} \<inter> rcf_Key ` set cfgs = {}"
    and "merge_ok merge" "is_range prng" "X = Extract merge prng rng def (to_ingress ing)"
  shows "wc_Weight (an_Weight X) = max 1 (hr_Weight rule) \<and> hc_Header (an_Header X) = header_transform (hr_Header rule) \<and>
    cc_Cookie (an_Cookie X) = cookie_transform (hr_Cookie rule) \<and>
    (rc_ForceSSLRedirect (an_Rewrite X) \<longleftrightarrow>
       hr_CertificateID rule \<noteq> [] \<and> HTTPToHTTPS \<in> rx_Key ` set exts \<or> be_ForceSSLRedirect def) \<and> \<not> is_l4 X"
proof -
  obtain domain where i: "ing = http_ingress a rule domain pcp svc sec (fold config_step cfgs (fold (extension_step rule) exts (rule_annos rule)))"
    using applyHTTPRule_Some [OF assms(1)] assms(3,4) by (metis sum.inject(2))
  have k: "reserved_keys \<inter> rcf_Key ` set cfgs = {}" using assms(5) by (simp add: reserved_keys_def)
  note x = http_rule_extract [OF assms(6,7) k assms(2) refl assms(8) [unfolded i]]
  show ?thesis using x by (simp add: rule_weight_def max_def)
qed

lemma wk_rows:
  "GetRuleExtensionByRuleID (ab_dbmanager (wk_build [wk_port] False)) (hr_UUID wk_rule) = Inr []"
  "ListByRuleID (ab_dbmanager (wk_build [wk_port] False)) (hr_UUID wk_rule) = Inr [\<lparr>rcf_Key = ''proxy-read-timeout'', rcf_Value = ''75''\<rparr>]"
  "hr_Weight wk_rule < 2 ^ 63" "hr_Weight wk_rule = 3"
  by (simp_all add: wk_build_def wk_db_def wk_rule_def)

lemma is_range_id: "is_range (id :: ('k, 'v) gomap \<Rightarrow> _)"
  by (simp add: is_range_def)

definition wk_ann :: "IngressObject \<Rightarrow> ann_Ingress" where
  "wk_ann i = Extract ex_merge id id NewDefault (to_ingress i)"

theorem http_rule_read_witness:
  "applyHTTPRule [] (wk_build [wk_port] False) wk_rule 80 80 wk_svc = Some (Inr (wk_ing, None)) \<and>
   wc_Weight (an_Weight (wk_ann wk_ing)) = 3 \<and> hc_Header (an_Header (wk_ann wk_ing)) = Some [(''a'', ''1'')] \<and> \<not> is_l4 (wk_ann wk_ing)"
  using http_rule_read [OF wk_apply wk_rows(3,1,2) _ ex_merge_ok is_range_id wk_ann_def [of wk_ing]] wk_apply wk_rows(4)
  by (simp add: wk_rule_def header_transform_def Let_def)

text \<open>
  C1: a component's HTTP rule is served: when the ingress the worker wrote for the rule is in the
  store, its annotations are parsed and an endpoint of its service is ready, then the listing of the
  gateway has a server with the domain of the rule (prefixed when the gateway has the rule's
  certificate) and in it a location with the path of the rule that passes requests to the rule's
  service with the weight of the rule, whatever other ingresses there are.
\<close>

theorem http_rule_served:
  assumes "applyHTTPRule exDomain a rule cp pcp svc = Some (Inr (ing, sec))" "rule_domain exDomain a rule cp = Some domain"
    and "hr_Weight rule < 2 ^ 63" "ListByRuleID (ab_dbmanager a) (hr_UUID rule) = Inr cfgs"
    and "{''weight'', ''header'', ''cookie'', ''force-ssl-redirect'', ''l4-enable''} \<inter> rcf_Key ` set cfgs = {}"
    and "merge_ok merge" "is_range prng"
    and "to_ingress ing \<in> set (env_Ingresses env)" "ingressIsValid env (to_ingress ing) = Some True"
    and "env_Annotations env (env_Key env (ing_Meta (to_ingress ing))) = Some (Extract merge prng rng def (to_ingress ing))"
    and "list_all (\<lambda>i. list_all (\<lambda>r. CHR ''/'' \<notin> set (ir_Host r) \<and>
       (\<forall>ps. ir_HTTP r = Some ps \<longrightarrow> list_all (\<lambda>p. prefix ''/'' (hp_Path p)) ps)) (ing_Rules i)) (env_Ingresses env)"
    and "ListVirtualService env g a0 = Some st"
  shows "\<exists>bn. served st (server_name env a rule domain) (rule_path rule) bn (ko_Name svc) (max 1 (hr_Weight rule))"
proof -
  have k: "reserved_keys \<inter> rcf_Key ` set cfgs = {}" using assms(5) by (simp add: reserved_keys_def)
  have ok: "list_all rule_ok (ing_Rules i)" if "i \<in> set (env_Ingresses env)" for i
    using assms(11) that unfolding rule_ok_def [abs_def] by (simp add: list_all_iff)
  have w: "max 1 (hr_Weight rule) = rule_weight rule" by (simp add: rule_weight_def max_def)
  show ?thesis
    unfolding w by (rule http_rule_is_served [OF assms(1,2,4) k assms(3,6-10) ok assms(12)])
qed

definition wk_env :: gw_env where
  "wk_env = ex_env\<lparr>env_Ingresses := [to_ingress wk_ing, to_ingress wk_tcp_ing], env_EndpointByKey := (\<lambda>k. Some ex_ep),
     env_Annotations := (\<lambda>k. if k = ''t/r1'' then Some (wk_ann wk_ing) else if k = ''t/r2'' then Some (wk_ann wk_tcp_ing) else None)\<rparr>"

lemma wk_meta:
  "env_Key wk_env (ing_Meta (to_ingress wk_ing)) = ''t/r1''" "env_Key wk_env (ing_Meta (to_ingress wk_tcp_ing)) = ''t/r2''"
  by (simp_all add: wk_env_def ex_env_def to_ingress_def wk_ing_def wk_tcp_ing_def applyTCPRule_def wk_svc_def createOuterService_def
      wk_build_def wk_rule_def wk_tcp_def Let_def)

lemma wk_annos:
  "env_Annotations wk_env (env_Key wk_env (ing_Meta (to_ingress wk_ing))) = Some (Extract ex_merge id id NewDefault (to_ingress wk_ing))"
  "env_Annotations wk_env (env_Key wk_env (ing_Meta (to_ingress wk_tcp_ing))) = Some (Extract ex_merge id id NewDefault (to_ingress wk_tcp_ing))"
  unfolding wk_meta by (simp_all add: wk_env_def wk_ann_def)

lemma wk_tcp_backend: "ing_Backend (to_ingress wk_tcp_ing) \<noteq> None" "ing_Rules (to_ingress wk_tcp_ing) = []"
  by (simp_all add: to_ingress_def wk_tcp_ing_def applyTCPRule_def wk_svc_def createOuterService_def Let_def)

lemma wk_web_rules: "ing_Rules (to_ingress wk_ing) = [\<lparr>ir_Host = ''a.com'', ir_HTTP = Some [\<lparr>hp_Path = ''/'',
     hp_Backend = \<lparr>ib_ServiceName = ko_Name wk_svc, ib_ServicePort = to_int32 80\<rparr>\<rparr>]\<rparr>]"
  by (simp add: to_ingress_def wk_ing_def rule_path_def wk_rule_def Let_def)

lemma wk_valid: "ingressIsValid wk_env (to_ingress wk_ing) = Some True" "ingressIsValid wk_env (to_ingress wk_tcp_ing) = Some True"
proof -
  have "endpointKey (to_ingress wk_ing) \<noteq> None" by (simp add: endpointKey_def wk_web_rules split: option.splits)
  moreover have "endpointKey (to_ingress wk_tcp_ing) \<noteq> None" using wk_tcp_backend by (auto simp: endpointKey_def split: option.splits)
  ultimately show "ingressIsValid wk_env (to_ingress wk_ing) = Some True" "ingressIsValid wk_env (to_ingress wk_tcp_ing) = Some True"
    by (auto simp: ingressIsValid_def wk_env_def ex_ep_def subsets_def hasReadyAddresses_def)
qed

lemma wk_not_l4: "\<not> is_l4 (wk_ann wk_ing)"
proof -
  have "wk_ing = http_ingress (wk_build [wk_port] False) wk_rule ''a.com'' 80 wk_svc None
      (fold config_step [\<lparr>rcf_Key = ''proxy-read-timeout'', rcf_Value = ''75''\<rparr>] (fold (extension_step wk_rule) [] (rule_annos wk_rule)))"
    by (simp add: wk_ing_def config_step_def)
  then show ?thesis
    using http_rule_extract(5) [OF ex_merge_ok is_range_id _ wk_rows(3) refl, of "[\<lparr>rcf_Key = ''proxy-read-timeout'', rcf_Value = ''75''\<rparr>]"
        "wk_ann wk_ing" id NewDefault "wk_build [wk_port] False" "''a.com''" 80 wk_svc None "[]"]
    by (simp add: wk_ann_def reserved_keys_def)
qed

lemma wk_listed: "\<exists>st. ListVirtualService wk_env no_globals 0 = Some st"
proof (rule ListVirtualService_total)
  have "env_Ingresses wk_env = [to_ingress wk_ing, to_ingress wk_tcp_ing]" by (simp add: wk_env_def)
  then show "list_all (ing_ok wk_env) (env_Ingresses wk_env)"
    using wk_not_l4 wk_tcp_backend wk_annos by (simp add: ing_ok_def wk_web_rules wk_ann_def)
qed

theorem http_rule_served_witness:
  "\<exists>st bn. ListVirtualService wk_env no_globals 0 = Some st \<and> served st ''a.com'' ''/'' bn ''service-1-80out'' 3"
proof -
  obtain st where st: "ListVirtualService wk_env no_globals 0 = Some st" using wk_listed by blast
  have d: "rule_domain [] (wk_build [wk_port] False) wk_rule 80 = Some ''a.com''" by (simp add: rule_domain_def wk_rule_def Let_def)
  have i: "to_ingress wk_ing \<in> set (env_Ingresses wk_env)" by (simp add: wk_env_def)
  have n: "server_name wk_env (wk_build [wk_port] False) wk_rule ''a.com'' = ''a.com''" "rule_path wk_rule = ''/''" "ko_Name wk_svc = ''service-1-80out''"
    by (simp_all add: server_name_def rule_path_def wk_svc_def createOuterService_def wk_rule_def wk_port_def Let_def)
  have "\<exists>bn. served st (server_name wk_env (wk_build [wk_port] False) wk_rule ''a.com'') (rule_path wk_rule) bn (ko_Name wk_svc) (max 1 (hr_Weight wk_rule))"
    by (rule http_rule_served [OF wk_apply d wk_rows(3,2) _ ex_merge_ok is_range_id i wk_valid(1) wk_annos(1) _ st])
      (simp_all add: wk_env_def wk_web_rules wk_tcp_backend)
  then show ?thesis using st by (simp add: n wk_rows)
qed

text \<open>
  C17: a component's stream rule is listened for: when the ingress the worker wrote for the rule is in
  the store, an endpoint of its service is ready, and the port of the rule is none of the gateway's
  own, then the listing of every gateway node with the address of the rule has a stream server on that
  address and port which passes connections to the rule's service.
\<close>

theorem tcp_rule_listening:
  assumes "applyTCPRule a rule svc ns = Some ing" "so_Ports svc = p # ps" "0 < tr_Port rule" "tr_Port rule \<le> 65535"
    and "tr_Port rule \<notin> {lp_HTTP (env_Ports env), lp_HTTPS (env_Ports env), lp_Health (env_Ports env), lp_Status (env_Ports env)}"
    and "merge_ok merge" "is_range prng"
    and "l4_host env (if tr_IP rule = [] then ''0.0.0.0'' else tr_IP rule) = Some host"
    and "to_ingress ing \<in> set (env_Ingresses env)" "ingressIsValid env (to_ingress ing) = Some True"
    and "env_Annotations env (env_Key env (ing_Meta (to_ingress ing))) = Some (Extract merge prng rng def (to_ingress ing))"
    and "ListVirtualService env g a0 = Some st"
    and "addr = l4_listening host (tr_Port rule) (GetServiceProtocol env (ns @ ''/'' @ ko_Name svc) (to_int32 (sp_Port p)))"
  shows "listening st addr (BackendName addr ns) (ko_Name svc) 1"
  by (rule tcp_rule_is_listening [OF assms(1-4) _ assms(6-13)]) (use assms(5) in \<open>simp add: own_ports_def\<close>)

theorem tcp_rule_listening_witness:
  "\<exists>st. ListVirtualService wk_env no_globals 0 = Some st \<and>
     listening st ''0.0.0.0:5000'' (BackendName ''0.0.0.0:5000'' ''t'') ''service-1-80out'' 1"
proof -
  obtain st where st: "ListVirtualService wk_env no_globals 0 = Some st" using wk_listed by blast
  obtain p where p: "so_Ports wk_svc = [p]" "ko_Name wk_svc = ''service-1-80out''"
    by (simp add: wk_svc_def createOuterService_def wk_port_def Let_def)
  have i: "to_ingress wk_tcp_ing \<in> set (env_Ingresses wk_env)" by (simp add: wk_env_def)
  have h: "l4_host wk_env (if tr_IP wk_tcp = [] then ''0.0.0.0'' else tr_IP wk_tcp) = Some ''0.0.0.0''"
    by (simp add: l4_host_def wk_tcp_def Let_def)
  have e: "''0.0.0.0:5000'' = l4_listening ''0.0.0.0'' (tr_Port wk_tcp) (GetServiceProtocol wk_env (''t'' @ ''/'' @ ko_Name wk_svc) (to_int32 (sp_Port p)))"
    by (simp add: l4_listening_def GetServiceProtocol_def wk_env_def ex_env_def wk_tcp_def Let_def)
  have "listening st ''0.0.0.0:5000'' (BackendName ''0.0.0.0:5000'' ''t'') (ko_Name wk_svc) 1"
    by (rule tcp_rule_listening [OF wk_apply_tcp p(1) _ _ _ ex_merge_ok is_range_id h i wk_valid(2) wk_annos(2) st e])
      (simp_all add: wk_tcp_def wk_env_def ex_env_def ex_ports_def)
  then show ?thesis using st p(2) by simp
qed

end
